(* ===== verification/Adp_Prelude.thy ===== *)
theory Adp_Prelude
  imports Main "HOL-Library.Word" "HOL-Library.Monad_Syntax" "HOL-Library.Signed_Division"
begin

text \<open>
  Shared vocabulary of the development: the error codes of
  \<^verbatim>\<open>dvb/include/am_adp/am_types.h\<close>, the reading of undefined behaviour as the value
  \<open>None\<close>, the index search that every device table of the adaptor layer performs, checked
  copies into fixed arrays, and the contract of a table of slots with a \<open>used\<close> flag.

  Conventions used by all the component theories:
  \<^item> an \<^verbatim>\<open>AM_ErrorCode_t\<close> is an \<open>int\<close> (success is 0, \<^verbatim>\<open>AM_FAILURE\<close> is -1, the code
    of a module is positive);
  \<^item> a C operation that may run into undefined behaviour (a null or dangling pointer, an index
    out of range, a negative size given to \<^verbatim>\<open>memmove\<close>) has the result type \<open>_ option\<close>,
    and \<open>None\<close> stands for exactly that;
  \<^item> pointers to elements of a fixed array are indices into the list that models the array;
  \<^item> mutexes and condition variables only order the operations; a handler that holds its lock
    is one atomic step of the model.
\<close>

named_theorems err_code \<open>the numeric values of the error codes\<close>
named_theorems adp_ops \<open>unfolding rules of the modelled operations\<close>

type_synonym errcode = int
type_synonym byte = "8 word"

subsection \<open>Error codes (am_types.h)\<close>

definition AM_ERROR_BASE :: "int \<Rightarrow> int" where
  "AM_ERROR_BASE m = m * 2 ^ 24"

abbreviation (input) AM_SUCCESS :: errcode where "AM_SUCCESS \<equiv> 0"
abbreviation (input) AM_FAILURE :: errcode where "AM_FAILURE \<equiv> - 1"

abbreviation (input) AM_MOD_EVT :: int where "AM_MOD_EVT \<equiv> 0"
abbreviation (input) AM_MOD_DMX :: int where "AM_MOD_DMX \<equiv> 1"
abbreviation (input) AM_MOD_DVR :: int where "AM_MOD_DVR \<equiv> 2"
abbreviation (input) AM_MOD_DSC :: int where "AM_MOD_DSC \<equiv> 11"
abbreviation (input) AM_MOD_PES :: int where "AM_MOD_PES \<equiv> 28"

lemma AM_ERROR_BASE_eval [err_code, simp]: "AM_ERROR_BASE m = m * 16777216"
  by (simp add: AM_ERROR_BASE_def)

subsection \<open>The first index with a property\<close>

text \<open>
  The loop \<^verbatim>\<open>for(i=0; i<N; i++) if(P(a[i])) break;\<close>: the first index with \<open>P\<close>, or the
  length of the array when there is none.
\<close>

fun first_idx :: "('a \<Rightarrow> bool) \<Rightarrow> 'a list \<Rightarrow> nat" where
  "first_idx P [] = 0"
| "first_idx P (x # xs) = (if P x then 0 else Suc (first_idx P xs))"

lemma first_idx_le [simp]: "first_idx P xs \<le> length xs"
  by (induction xs) auto

lemma first_idx_hit: "first_idx P xs < length xs \<Longrightarrow> P (xs ! first_idx P xs)"
  by (induction xs) (auto split: if_splits)

lemma first_idx_before: "j < first_idx P xs \<Longrightarrow> \<not> P (xs ! j)"
proof (induction xs arbitrary: j)
  case (Cons x xs)
  then show ?case by (cases j) (auto split: if_splits)
qed simp

lemma first_idx_less_iff: "first_idx P xs < length xs \<longleftrightarrow> (\<exists>x \<in> set xs. P x)"
  by (induction xs) auto

lemma first_idx_none_iff: "first_idx P xs = length xs \<longleftrightarrow> (\<forall>x \<in> set xs. \<not> P x)"
  using first_idx_less_iff [of P xs] first_idx_le [of P xs] by (auto simp: less_le)

lemma first_idx_eqI:
  assumes "i < length xs" "P (xs ! i)" "\<And>j. j < i \<Longrightarrow> \<not> P (xs ! j)"
  shows "first_idx P xs = i"
proof (rule ccontr)
  assume ne: "first_idx P xs \<noteq> i"
  show False
  proof (cases "first_idx P xs < i")
    case True
    with assms(1) have "P (xs ! first_idx P xs)" using first_idx_hit [of P xs] by simp
    with assms(3) True show False by blast
  next
    case False
    with ne have "i < first_idx P xs" by simp
    with assms(2) first_idx_before show False by blast
  qed
qed

lemma nth_update_if: "xs[i := y] ! j = (if j = i \<and> i < length xs then y else xs ! j)"
  by (cases "i < length xs") (auto simp: nth_list_update list_update_beyond)

subsection \<open>Arrays of bytes\<close>

text \<open>
  \<^verbatim>\<open>memcpy(a+off, src, n)\<close> into the array \<open>a\<close>: undefined when it leaves the array.
\<close>

definition copy_into :: "'a list \<Rightarrow> nat \<Rightarrow> 'a list \<Rightarrow> 'a list option" where
  "copy_into a off src =
     (if off + length src \<le> length a
      then Some (take off a @ src @ drop (off + length src) a) else None)"

lemma copy_into_length: "copy_into a off src = Some a' \<Longrightarrow> length a' = length a"
  by (auto simp: copy_into_def split: if_splits)

lemma copy_into_prefix:
  assumes "copy_into a off src = Some a'"
  shows "take (off + length src) a' = take off a @ src"
proof -
  from assms have "off + length src \<le> length a"
    and a': "a' = take off a @ src @ drop (off + length src) a"
    by (auto simp: copy_into_def split: if_splits)
  then show ?thesis by simp
qed

lemma copy_into_nth_before:
  "copy_into a off src = Some a' \<Longrightarrow> i < off \<Longrightarrow> a' ! i = a ! i"
  by (auto simp: copy_into_def nth_append split: if_splits)

lemma copy_into_Some_iff: "(\<exists>a'. copy_into a off src = Some a') \<longleftrightarrow> off + length src \<le> length a"
  by (auto simp: copy_into_def)

text \<open>Bounds-checked read.\<close>

definition rd :: "'a list \<Rightarrow> nat \<Rightarrow> 'a option" where
  "rd a i = (if i < length a then Some (a ! i) else None)"

lemma rd_Some [simp]: "i < length a \<Longrightarrow> rd a i = Some (a ! i)"
  by (simp add: rd_def)

lemma rd_None [simp]: "length a \<le> i \<Longrightarrow> rd a i = None"
  by (simp add: rd_def)

subsection \<open>Counting used slots\<close>

definition used_count :: "('s \<Rightarrow> bool) \<Rightarrow> 's list \<Rightarrow> nat" where
  "used_count u xs = length (filter u xs)"

lemma used_count_le: "used_count u xs \<le> length xs"
  by (simp add: used_count_def)

lemma used_count_update:
  assumes "i < length xs"
  shows "used_count u (xs[i := y]) + (if u (xs ! i) then 1 else 0)
       = used_count u xs + (if u y then 1 else 0)"
  using assms
proof (induction xs arbitrary: i)
  case (Cons x xs)
  then show ?case by (cases i) (auto simp: used_count_def)
qed simp

lemma used_count_full: "used_count u xs = length xs \<longleftrightarrow> (\<forall>x \<in> set xs. u x)"
proof (induction xs)
  case (Cons x xs)
  have "length (filter u xs) \<noteq> Suc (length xs)"
    using length_filter_le [of u xs] by linarith
  with Cons show ?case by (auto simp: used_count_def)
qed (simp add: used_count_def)

subsection \<open>The contract of a slot table\<close>

text \<open>
  Demux filters, software-demux filters and descrambler channels are all handed out the same
  way: take the first slot that is not used, mark it, and later clear the mark. The locale
  states what a table needs and the lemmas say what its clients get.
\<close>

locale slot_table =
  fixes used :: "'s \<Rightarrow> bool"
    and claim :: "'s \<Rightarrow> 's"
    and release :: "'s \<Rightarrow> 's"
  assumes used_claim: "used (claim s)"
    and used_release: "\<not> used (release s)"
begin

lemma claim_count:
  assumes "i = first_idx (\<lambda>s. \<not> used s) xs" "i < length xs"
  shows "used_count used (xs[i := claim (xs ! i)]) = Suc (used_count used xs)"
proof -
  from assms have "\<not> used (xs ! i)" by (auto dest: first_idx_hit)
  with used_count_update [OF assms(2), of used "claim (xs ! i)"] used_claim
  show ?thesis by simp
qed

lemma release_count:
  assumes "i < length xs" "used (xs ! i)"
  shows "Suc (used_count used (xs[i := release (xs ! i)])) = used_count used xs"
  using used_count_update [OF assms(1), of used "release (xs ! i)"] assms(2) used_release
  by simp

lemma no_slot_iff: "length xs \<le> first_idx (\<lambda>s. \<not> used s) xs \<longleftrightarrow> used_count used xs = length xs"
proof -
  have "length xs \<le> first_idx (\<lambda>s. \<not> used s) xs \<longleftrightarrow> first_idx (\<lambda>s. \<not> used s) xs = length xs"
    using first_idx_le [of "\<lambda>s. \<not> used s" xs] by (intro iffI order.antisym) auto
  then show ?thesis by (simp add: used_count_full first_idx_none_iff)
qed

lemma claim_release_reuse:
  assumes "i = first_idx (\<lambda>s. \<not> used s) xs" "i < length xs"
  shows "first_idx (\<lambda>s. \<not> used s) (xs[i := release (claim (xs ! i))]) = i"
  using assms
  by (intro first_idx_eqI) (auto simp: used_release dest: first_idx_before)

end

end
