(* ===== verification/Am_Evt.thy ===== *)
theory Am_Evt
  imports Adp_Prelude
begin

text \<open>
  The event registry, \<^verbatim>\<open>dvb/am_adp/am_evt/am_evt.c\<close>: a hash table of 50 singly linked
  lists of subscriptions. A list is modelled by its nodes from the head on. The state is the
  array \<^verbatim>\<open>events\<close>; the operations are \<^verbatim>\<open>AM_EVT_Init\<close>, \<^verbatim>\<open>AM_EVT_Subscribe\<close>,
  \<^verbatim>\<open>AM_EVT_Unsubscribe\<close>, \<^verbatim>\<open>AM_EVT_Signal\<close> and \<^verbatim>\<open>AM_EVT_Destory\<close>. Callbacks and
  user data are opaque values; a signal is modelled by the list of callback invocations it
  makes, in order.
\<close>

abbreviation (input) AM_EVT_BUCKET_COUNT :: nat where "AM_EVT_BUCKET_COUNT \<equiv> 50"

definition AM_EVT_ERR_NO_MEM :: errcode where
  "AM_EVT_ERR_NO_MEM = AM_ERROR_BASE AM_MOD_EVT + 1"

definition AM_EVT_ERR_NOT_SUBSCRIBED :: errcode where
  "AM_EVT_ERR_NOT_SUBSCRIBED = AM_ERROR_BASE AM_MOD_EVT + 2"

lemmas evt_codes [err_code, simp] = AM_EVT_ERR_NO_MEM_def AM_EVT_ERR_NOT_SUBSCRIBED_def

record ('cb, 'ud) AM_Event =
  ev_cb :: 'cb
  ev_type :: int
  ev_dev_no :: int
  ev_data :: 'ud

type_synonym ('cb, 'ud) events = "('cb, 'ud) AM_Event list list"

text \<open>
  \<^verbatim>\<open>event_type%AM_EVT_BUCKET_COUNT\<close>: the remainder of C has the sign of the dividend, and
  a negative remainder indexes before the array.
\<close>

definition evt_pos :: "int \<Rightarrow> nat option" where
  "evt_pos t = (let r = t smod 50 in if r < 0 then None else Some (nat r))"

definition evt_same_sub :: "int \<Rightarrow> int \<Rightarrow> 'cb \<Rightarrow> ('cb, 'ud) AM_Event \<Rightarrow> bool" where
  "evt_same_sub dev_no event_type cb e \<longleftrightarrow>
     ev_dev_no e = dev_no \<and> ev_cb e = cb \<and> ev_type e = event_type"

definition evt_same_reg :: "int \<Rightarrow> int \<Rightarrow> 'cb \<Rightarrow> 'ud \<Rightarrow> ('cb, 'ud) AM_Event \<Rightarrow> bool" where
  "evt_same_reg dev_no event_type cb data e \<longleftrightarrow>
     ev_dev_no e = dev_no \<and> ev_type e = event_type \<and> ev_cb e = cb \<and> ev_data e = data"

text \<open>The argument \<open>mem\<close> says whether \<^verbatim>\<open>malloc\<close> succeeds.\<close>

definition AM_EVT_Subscribe ::
    "bool \<Rightarrow> int \<Rightarrow> int \<Rightarrow> 'cb \<Rightarrow> 'ud \<Rightarrow> ('cb, 'ud) events \<Rightarrow> (errcode \<times> ('cb, 'ud) events) option" where
  "AM_EVT_Subscribe mem dev_no event_type cb data evs =
     (if \<exists>b \<in> set evs. \<exists>e \<in> set b. evt_same_sub dev_no event_type cb e then Some (AM_SUCCESS, evs)
      else if \<not> mem then Some (AM_EVT_ERR_NO_MEM, evs)
      else (case evt_pos event_type of
              None \<Rightarrow> None
            | Some pos \<Rightarrow>
                (let evt = \<lparr>ev_cb = cb, ev_type = event_type, ev_dev_no = dev_no, ev_data = data\<rparr>
                 in Some (AM_SUCCESS, evs[pos := evt # evs ! pos]))))"

text \<open>Unlink the first node that matches; the flag says whether there was one.\<close>

fun evt_unlink :: "(('cb, 'ud) AM_Event \<Rightarrow> bool) \<Rightarrow> ('cb, 'ud) AM_Event list
    \<Rightarrow> bool \<times> ('cb, 'ud) AM_Event list" where
  "evt_unlink P [] = (False, [])"
| "evt_unlink P (e # es) =
     (if P e then (True, es) else (case evt_unlink P es of (f, es') \<Rightarrow> (f, e # es')))"

definition AM_EVT_Unsubscribe ::
    "int \<Rightarrow> int \<Rightarrow> 'cb \<Rightarrow> 'ud \<Rightarrow> ('cb, 'ud) events \<Rightarrow> (errcode \<times> ('cb, 'ud) events) option" where
  "AM_EVT_Unsubscribe dev_no event_type cb data evs =
     (case evt_pos event_type of
        None \<Rightarrow> None
      | Some pos \<Rightarrow>
          (case evt_unlink (evt_same_reg dev_no event_type cb data) (evs ! pos) of
             (found, b) \<Rightarrow>
               Some (if found then AM_SUCCESS else AM_EVT_ERR_NOT_SUBSCRIBED, evs[pos := b])))"

text \<open>A callback invocation: function, device, event type, event parameter, user data.\<close>

type_synonym ('cb, 'ud, 'p) evt_call = "'cb \<times> int \<times> int \<times> 'p \<times> 'ud"

definition AM_EVT_Signal ::
    "int \<Rightarrow> int \<Rightarrow> 'p \<Rightarrow> ('cb, 'ud) events \<Rightarrow> (errcode \<times> ('cb, 'ud, 'p) evt_call list) option" where
  "AM_EVT_Signal dev_no event_type param evs =
     (case evt_pos event_type of
        None \<Rightarrow> None
      | Some pos \<Rightarrow>
          Some (AM_SUCCESS,
            map (\<lambda>e. (ev_cb e, dev_no, event_type, param, ev_data e))
              (filter (\<lambda>e. ev_dev_no e = dev_no \<and> ev_type e = event_type) (evs ! pos))))"

definition AM_EVT_Init :: "('cb, 'ud) events" where
  "AM_EVT_Init = replicate AM_EVT_BUCKET_COUNT []"

text \<open>
  \<^verbatim>\<open>AM_EVT_Destory\<close> frees each node and then reads its \<^verbatim>\<open>next\<close> field: the first node
  it meets makes it undefined. It leaves the heads of the lists as they are.
\<close>

definition AM_EVT_Destory :: "('cb, 'ud) events \<Rightarrow> (errcode \<times> ('cb, 'ud) events) option" where
  "AM_EVT_Destory evs = (if \<forall>b \<in> set evs. b = [] then Some (AM_SUCCESS, evs) else None)"

subsection \<open>The invariant of the table\<close>

definition evt_key :: "('cb, 'ud) AM_Event \<Rightarrow> int \<times> int \<times> 'cb" where
  "evt_key e = (ev_dev_no e, ev_type e, ev_cb e)"

definition evt_inv :: "('cb, 'ud) events \<Rightarrow> bool" where
  "evt_inv evs \<longleftrightarrow>
     length evs = AM_EVT_BUCKET_COUNT \<and>
     (\<forall>i < length evs. \<forall>e \<in> set (evs ! i). evt_pos (ev_type e) = Some i) \<and>
     (\<forall>i < length evs. distinct (map evt_key (evs ! i)))"

lemma evt_pos_less: "evt_pos t = Some p \<Longrightarrow> p < 50"
  by (auto simp: evt_pos_def Let_def smod_int_alt_def sgn_if split: if_splits)

lemma evt_pos_nonneg: "0 \<le> t \<Longrightarrow> evt_pos t = Some (nat (t mod 50))"
  by (auto simp: evt_pos_def Let_def smod_int_alt_def sgn_if)

lemma evt_invI [intro?]:
  assumes "length evs = 50"
    and "\<And>i e. i < 50 \<Longrightarrow> e \<in> set (evs ! i) \<Longrightarrow> evt_pos (ev_type e) = Some i"
    and "\<And>i. i < 50 \<Longrightarrow> distinct (map evt_key (evs ! i))"
  shows "evt_inv evs"
  using assms by (simp add: evt_inv_def)

lemma evt_invD:
  assumes "evt_inv evs"
  shows "length evs = 50"
    and "i < 50 \<Longrightarrow> e \<in> set (evs ! i) \<Longrightarrow> evt_pos (ev_type e) = Some i"
    and "i < 50 \<Longrightarrow> distinct (map evt_key (evs ! i))"
  using assms by (auto simp: evt_inv_def)

text \<open>A bucket update keeps the invariant when the new bucket has it.\<close>

lemma evt_inv_update:
  assumes "evt_inv evs" "p < 50"
    and "\<And>e. e \<in> set b \<Longrightarrow> evt_pos (ev_type e) = Some p"
    and "distinct (map evt_key b)"
  shows "evt_inv (evs[p := b])"
  using assms evt_invD [OF assms(1)]
  by (intro evt_invI) (auto simp: nth_list_update split: if_splits)

lemma evt_init_inv: "evt_inv AM_EVT_Init"
  by (simp add: evt_inv_def AM_EVT_Init_def)

lemma evt_subscribe_inv:
  assumes "evt_inv evs" "AM_EVT_Subscribe mem dev ty cb d evs = Some (r, evs')"
  shows "evt_inv evs'"
proof (cases "evs' = evs")
  case False
  with assms(2) obtain p where new: "\<not> (\<exists>b \<in> set evs. \<exists>e \<in> set b. evt_same_sub dev ty cb e)"
    and p: "evt_pos ty = Some p"
    and evs': "evs' = evs[p := \<lparr>ev_cb = cb, ev_type = ty, ev_dev_no = dev, ev_data = d\<rparr> # evs ! p]"
    by (auto simp: AM_EVT_Subscribe_def Let_def split: if_splits option.splits)
  have p50: "p < 50" using p by (rule evt_pos_less)
  with evt_invD(1) [OF assms(1)] have mem: "evs ! p \<in> set evs" by simp
  show ?thesis unfolding evs'
    by (rule evt_inv_update [OF assms(1) p50])
       (use new mem p p50 evt_invD [OF assms(1)] in
         \<open>auto simp: evt_key_def evt_same_sub_def\<close>)
qed (simp add: assms)

text \<open>Unlinking cuts out the first matching node, and nothing else.\<close>

lemma evt_unlink_cases:
  assumes "evt_unlink P es = (f, es')"
  obtains (missing) "\<not> f" "es' = es" "\<forall>e \<in> set es. \<not> P e"
  | (cut) pre e post where "f" "es = pre @ e # post" "es' = pre @ post" "P e" "\<forall>x \<in> set pre. \<not> P x"
proof -
  have "(\<not> f \<and> es' = es \<and> (\<forall>e \<in> set es. \<not> P e)) \<or>
    (f \<and> (\<exists>pre e post. es = pre @ e # post \<and> es' = pre @ post \<and> P e \<and> (\<forall>x \<in> set pre. \<not> P x)))"
    using assms
  proof (induction es arbitrary: es')
    case (Cons x xs)
    show ?case
    proof (cases "P x")
      case True
      with Cons.prems show ?thesis by (auto intro: exI [of _ "[]"])
    next
      case False
      with Cons.prems obtain ys where "evt_unlink P xs = (f, ys)" "es' = x # ys"
        by (auto split: prod.splits)
      note ys = this
      from Cons.IH [OF ys(1)] show ?thesis
      proof (elim disjE conjE exE)
        fix pre e post
        assume "f" "xs = pre @ e # post" "ys = pre @ post" "P e" "\<forall>x \<in> set pre. \<not> P x"
        with ys False have "x # xs = (x # pre) @ e # post \<and> es' = (x # pre) @ post \<and> P e \<and>
          (\<forall>z \<in> set (x # pre). \<not> P z)" by simp
        with \<open>f\<close> show ?thesis by blast
      qed (use ys False in simp)
    qed
  qed simp
  with missing cut show thesis by blast
qed

lemma evt_unlink_sub:
  assumes "evt_unlink P es = (f, es')"
  shows "set es' \<subseteq> set es" and "distinct (map g es) \<Longrightarrow> distinct (map g es')"
  using assms by (cases rule: evt_unlink_cases; auto)+

lemma evt_unsubscribe_inv:
  assumes "evt_inv evs" "AM_EVT_Unsubscribe dev ty cb d evs = Some (r, evs')"
  shows "evt_inv evs'"
proof -
  from assms(2) obtain p f b where p: "evt_pos ty = Some p"
    and u: "evt_unlink (evt_same_reg dev ty cb d) (evs ! p) = (f, b)" and evs': "evs' = evs[p := b]"
    by (auto simp: AM_EVT_Unsubscribe_def split: option.splits prod.splits)
  have p50: "p < 50" using p by (rule evt_pos_less)
  have sub: "set b \<subseteq> set (evs ! p)" and dist: "distinct (map evt_key b)"
    using evt_unlink_sub [OF u] evt_invD(3) [OF assms(1) p50] by auto
  show ?thesis unfolding evs'
    by (rule evt_inv_update [OF assms(1) p50 _ dist]) (use sub evt_invD(2) [OF assms(1) p50] in auto)
qed

subsection \<open>The abstract registry\<close>

text \<open>What the table promises: for every device and event type, the subscriptions, latest first.\<close>

definition evt_abs :: "('cb, 'ud) events \<Rightarrow> int \<Rightarrow> int \<Rightarrow> ('cb \<times> 'ud) list" where
  "evt_abs evs dev ty =
     (case evt_pos ty of
        None \<Rightarrow> []
      | Some p \<Rightarrow> map (\<lambda>e. (ev_cb e, ev_data e))
                    (filter (\<lambda>e. ev_dev_no e = dev \<and> ev_type e = ty) (evs ! p)))"

definition spec_subscribe :: "'cb \<Rightarrow> 'ud \<Rightarrow> ('cb \<times> 'ud) list \<Rightarrow> ('cb \<times> 'ud) list" where
  "spec_subscribe cb d l = (if cb \<in> fst ` set l then l else (cb, d) # l)"

lemma evt_same_sub_abs:
  assumes "evt_inv evs" "evt_pos ty = Some p"
  shows "(\<exists>b \<in> set evs. \<exists>e \<in> set b. evt_same_sub dev ty cb e) \<longleftrightarrow> cb \<in> fst ` set (evt_abs evs dev ty)"
proof
  assume "\<exists>b \<in> set evs. \<exists>e \<in> set b. evt_same_sub dev ty cb e"
  then obtain i e where i: "i < length evs" "e \<in> set (evs ! i)" and e: "evt_same_sub dev ty cb e"
    by (metis in_set_conv_nth)
  then have "i = p" using evt_invD(1,2) [OF assms(1)] assms(2) by (auto simp: evt_same_sub_def)
  with i e assms(2) show "cb \<in> fst ` set (evt_abs evs dev ty)"
    by (force simp: evt_abs_def evt_same_sub_def)
next
  assume "cb \<in> fst ` set (evt_abs evs dev ty)"
  then obtain e where "e \<in> set (evs ! p)" "ev_dev_no e = dev" "ev_type e = ty" "ev_cb e = cb"
    using assms(2) by (auto simp: evt_abs_def)
  moreover have "evs ! p \<in> set evs"
    using evt_pos_less [OF assms(2)] evt_invD(1) [OF assms(1)] by simp
  ultimately show "\<exists>b \<in> set evs. \<exists>e \<in> set b. evt_same_sub dev ty cb e"
    by (auto simp: evt_same_sub_def)
qed

lemma evt_abs_update_other:
  assumes "evt_inv evs" "evt_pos ty = Some p"
    and "\<And>dv t. (dv, t) \<noteq> (dev, ty) \<Longrightarrow>
          filter (\<lambda>e. ev_dev_no e = dv \<and> ev_type e = t) b
        = filter (\<lambda>e. ev_dev_no e = dv \<and> ev_type e = t) (evs ! p)"
    and "(dv, t) \<noteq> (dev, ty)"
  shows "evt_abs (evs[p := b]) dv t = evt_abs evs dv t"
proof (cases "evt_pos t = Some p")
  case True
  with assms(3) [OF assms(4)] show ?thesis
    using evt_pos_less [OF assms(2)] evt_invD(1) [OF assms(1)] by (simp add: evt_abs_def)
qed (auto simp: evt_abs_def split: option.splits)

lemma evt_subscribe_abs:
  assumes "evt_inv evs" "evt_pos ty = Some p"
    and "AM_EVT_Subscribe True dev ty cb d evs = Some (r, evs')"
  shows "r = AM_SUCCESS \<and> evt_abs evs' dev ty = spec_subscribe cb d (evt_abs evs dev ty) \<and>
     (\<forall>dv t. (dv, t) \<noteq> (dev, ty) \<longrightarrow> evt_abs evs' dv t = evt_abs evs dv t)"
proof (cases "cb \<in> fst ` set (evt_abs evs dev ty)")
  case True
  then show ?thesis using assms evt_same_sub_abs [OF assms(1,2), of dev cb]
    by (auto simp: AM_EVT_Subscribe_def spec_subscribe_def)
next
  case False
  let ?e = "\<lparr>ev_cb = cb, ev_type = ty, ev_dev_no = dev, ev_data = d\<rparr>"
  from False assms evt_same_sub_abs [OF assms(1,2), of dev cb]
  have r: "r = AM_SUCCESS" and evs': "evs' = evs[p := ?e # evs ! p]"
    by (auto simp: AM_EVT_Subscribe_def Let_def)
  have "evt_abs evs' dev ty = (cb, d) # evt_abs evs dev ty"
    using evt_pos_less [OF assms(2)] evt_invD(1) [OF assms(1)] assms(2)
    by (simp add: evt_abs_def evs')
  moreover have "evt_abs evs' dv t = evt_abs evs dv t" if "(dv, t) \<noteq> (dev, ty)" for dv t
    unfolding evs' by (rule evt_abs_update_other [OF assms(1,2) _ that]) auto
  ultimately show ?thesis using r False by (auto simp: spec_subscribe_def)
qed

text \<open>Unlinking removes the first matching pair from the abstract list.\<close>

lemma evt_unlink_abs:
  assumes "evt_unlink (evt_same_reg dev ty cb d) es = (f, es')"
  shows "f = ((cb, d) \<in> set (map (\<lambda>e. (ev_cb e, ev_data e))
              (filter (\<lambda>e. ev_dev_no e = dev \<and> ev_type e = ty) es))) \<and>
     map (\<lambda>e. (ev_cb e, ev_data e)) (filter (\<lambda>e. ev_dev_no e = dev \<and> ev_type e = ty) es')
       = remove1 (cb, d) (map (\<lambda>e. (ev_cb e, ev_data e))
              (filter (\<lambda>e. ev_dev_no e = dev \<and> ev_type e = ty) es))"
  using assms
proof (cases rule: evt_unlink_cases)
  case missing
  then have "(cb, d) \<notin> set (map (\<lambda>e. (ev_cb e, ev_data e))
              (filter (\<lambda>e. ev_dev_no e = dev \<and> ev_type e = ty) es))"
    by (auto simp: evt_same_reg_def)
  with missing show ?thesis by (simp add: remove1_idem)
next
  case (cut pre e post)
  then have "(cb, d) \<notin> set (map (\<lambda>e. (ev_cb e, ev_data e))
              (filter (\<lambda>e. ev_dev_no e = dev \<and> ev_type e = ty) pre))"
    by (auto simp: evt_same_reg_def)
  with cut show ?thesis by (simp add: evt_same_reg_def remove1_append)
qed

lemma evt_unlink_other:
  assumes "evt_unlink (evt_same_reg dev ty cb d) es = (f, es')" "(dv, t) \<noteq> (dev, ty)"
  shows "filter (\<lambda>e. ev_dev_no e = dv \<and> ev_type e = t) es'
   = filter (\<lambda>e. ev_dev_no e = dv \<and> ev_type e = t) es"
  using assms(1) by (cases rule: evt_unlink_cases) (use assms(2) in \<open>auto simp: evt_same_reg_def\<close>)

lemma evt_unsubscribe_abs:
  assumes "evt_inv evs" "evt_pos ty = Some p"
    and "AM_EVT_Unsubscribe dev ty cb d evs = Some (r, evs')"
  shows "evt_abs evs' dev ty = remove1 (cb, d) (evt_abs evs dev ty) \<and>
     (r = AM_SUCCESS \<longleftrightarrow> (cb, d) \<in> set (evt_abs evs dev ty)) \<and>
     (\<forall>dv t. (dv, t) \<noteq> (dev, ty) \<longrightarrow> evt_abs evs' dv t = evt_abs evs dv t)"
proof -
  obtain f b where u: "evt_unlink (evt_same_reg dev ty cb d) (evs ! p) = (f, b)"
    by (cases "evt_unlink (evt_same_reg dev ty cb d) (evs ! p)")
  with assms(2,3) have evs': "evs' = evs[p := b]"
    and r: "r = (if f then AM_SUCCESS else AM_EVT_ERR_NOT_SUBSCRIBED)"
    by (auto simp: AM_EVT_Unsubscribe_def)
  have "evt_abs evs' dv t = evt_abs evs dv t" if "(dv, t) \<noteq> (dev, ty)" for dv t
    unfolding evs' by (rule evt_abs_update_other [OF assms(1,2) evt_unlink_other [OF u] that])
  then show ?thesis
    using evt_unlink_abs [OF u] r evt_pos_less [OF assms(2)] evt_invD(1) [OF assms(1)] assms(2)
    by (auto simp: evt_abs_def evs' split: if_splits)
qed

lemma evt_signal_abs:
  assumes "evt_pos ty = Some p"
  shows "AM_EVT_Signal dev ty x evs =
     Some (AM_SUCCESS, map (\<lambda>(cb, d). (cb, dev, ty, x, d)) (evt_abs evs dev ty))"
  using assms by (simp add: AM_EVT_Signal_def evt_abs_def comp_def)

subsection \<open>Reachable tables\<close>

inductive evt_reach :: "('cb, 'ud) events \<Rightarrow> bool" where
  init: "evt_reach AM_EVT_Init"
| subscribe: "evt_reach evs \<Longrightarrow> AM_EVT_Subscribe mem dev ty cb d evs = Some (r, evs') \<Longrightarrow> evt_reach evs'"
| unsubscribe: "evt_reach evs \<Longrightarrow> AM_EVT_Unsubscribe dev ty cb d evs = Some (r, evs') \<Longrightarrow> evt_reach evs'"

lemma evt_reach_inv: "evt_reach evs \<Longrightarrow> evt_inv evs"
  by (induction rule: evt_reach.induct)
     (auto intro: evt_init_inv evt_subscribe_inv evt_unsubscribe_inv)

lemma evt_abs_distinct:
  assumes "evt_inv evs"
  shows "distinct (map fst (evt_abs evs dev ty))"
proof (cases "evt_pos ty")
  case (Some p)
  let ?P = "\<lambda>e. ev_dev_no e = dev \<and> ev_type e = ty"
  have "distinct (map evt_key (filter ?P (evs ! p)))"
    using evt_invD(3) [OF assms evt_pos_less [OF Some]] by (rule distinct_map_filter)
  then have "distinct (map ev_cb (filter ?P (evs ! p)))"
    by (auto simp: distinct_map inj_on_def evt_key_def)
  with Some show ?thesis by (simp add: evt_abs_def comp_def)
qed (simp add: evt_abs_def)

subsection \<open>Properties\<close>

text \<open>
  in every table reached from initialisation by subscribing and unsubscribing, a signal of a
  non-negative event type returns success, calls exactly the subscriptions of that device and
  type, and calls no callback function twice.
\<close>

theorem signal_calls_subscribers_once:
  assumes "evt_reach evs" "0 \<le> ty"
  shows "\<exists>calls. AM_EVT_Signal dev ty x evs = Some (AM_SUCCESS, calls) \<and>
     map (\<lambda>(cb, _, _, _, d). (cb, d)) calls = evt_abs evs dev ty \<and>
     (\<forall>(cb, dv, t, y, d) \<in> set calls. dv = dev \<and> t = ty \<and> y = x) \<and>
     distinct (map fst calls)"
  using evt_signal_abs [OF evt_pos_nonneg [OF assms(2)], of dev x evs]
    evt_abs_distinct [OF evt_reach_inv [OF assms(1)], of dev ty]
  by (auto simp: comp_def case_prod_beta)

theorem signal_calls_subscribers_once_witness:
  "\<exists>calls. AM_EVT_Signal 0 7 () ((AM_EVT_Init :: (nat, nat) events)) = Some (AM_SUCCESS, calls) \<and>
     map (\<lambda>(cb, _, _, _, d). (cb, d)) calls = evt_abs (AM_EVT_Init :: (nat, nat) events) 0 7 \<and>
     (\<forall>(cb, dv, t, y, d) \<in> set calls. dv = 0 \<and> t = 7 \<and> y = ()) \<and>
     distinct (map fst calls)"
  by (rule signal_calls_subscribers_once) (auto intro: evt_reach.init)

text \<open>
  C4: subscribing and unsubscribing refine the abstract registry. With memory available a
  subscription to a non-negative event type succeeds and adds the pair in front unless the
  callback is already there for that device and type; an unsubscription succeeds exactly when
  the pair is registered and removes it; every other device and event type is untouched.
\<close>

theorem registry_refines:
  assumes "evt_inv evs" "0 \<le> ty"
  shows "\<exists>evs1 r evs2.
     AM_EVT_Subscribe True dev ty cb d evs = Some (AM_SUCCESS, evs1) \<and>
     evt_abs evs1 dev ty = spec_subscribe cb d (evt_abs evs dev ty) \<and>
     AM_EVT_Unsubscribe dev ty cb d evs = Some (r, evs2) \<and>
     evt_abs evs2 dev ty = remove1 (cb, d) (evt_abs evs dev ty) \<and>
     (r = AM_SUCCESS \<longleftrightarrow> (cb, d) \<in> set (evt_abs evs dev ty)) \<and>
     (\<forall>dv t. (dv, t) \<noteq> (dev, ty) \<longrightarrow>
        evt_abs evs1 dv t = evt_abs evs dv t \<and> evt_abs evs2 dv t = evt_abs evs dv t)"
proof -
  note p = evt_pos_nonneg [OF assms(2)]
  obtain r1 evs1 where s: "AM_EVT_Subscribe True dev ty cb d evs = Some (r1, evs1)"
    using p by (cases "\<exists>b \<in> set evs. \<exists>e \<in> set b. evt_same_sub dev ty cb e")
      (auto simp: AM_EVT_Subscribe_def Let_def)
  obtain r2 evs2 where u: "AM_EVT_Unsubscribe dev ty cb d evs = Some (r2, evs2)"
    using p by (cases "evt_unlink (evt_same_reg dev ty cb d) (evs ! nat (ty mod 50))")
      (auto simp: AM_EVT_Unsubscribe_def)
  show ?thesis
    using s u evt_subscribe_abs [OF assms(1) p s] evt_unsubscribe_abs [OF assms(1) p u] by auto
qed

theorem registry_refines_witness:
  "\<exists>evs1 r evs2.
     AM_EVT_Subscribe True 1 7 (3::nat) (4::nat) AM_EVT_Init = Some (AM_SUCCESS, evs1) \<and>
     evt_abs evs1 1 7 = spec_subscribe 3 4 (evt_abs AM_EVT_Init 1 7) \<and>
     AM_EVT_Unsubscribe 1 7 3 4 (AM_EVT_Init :: (nat, nat) events) = Some (r, evs2) \<and>
     evt_abs evs2 1 7 = remove1 (3, 4) (evt_abs AM_EVT_Init 1 7) \<and>
     (r = AM_SUCCESS \<longleftrightarrow> (3, 4) \<in> set (evt_abs (AM_EVT_Init :: (nat, nat) events) 1 7)) \<and>
     (\<forall>dv t. (dv, t) \<noteq> (1, 7) \<longrightarrow>
        evt_abs evs1 dv t = evt_abs AM_EVT_Init dv t \<and> evt_abs evs2 dv t = evt_abs AM_EVT_Init dv t)"
  by (rule registry_refines) (simp_all add: evt_init_inv)

end
