(* ===== verification/Am_Mem.thy ===== *)
theory Am_Mem
  imports Adp_Prelude
begin

unbundle bit_operations_syntax

text \<open>
  The memory pool, \<^verbatim>\<open>dvb/am_adp/am_mem/am_mem_pool.c\<close>. A pool points to a linked list of
  blocks obtained from the system allocator; an allocation is cut from the head block or from a
  new one. The store is explicit: a finite map from block addresses to headers. The payload of a
  block is not modelled, a pointer into it is the pair of the block's address and an offset.
  The argument \<open>align\<close> is \<^verbatim>\<open>AM_PTR_ALIGN\<close>, the size of a pointer (4 or 8); \<open>mem\<close> says
  whether the system allocator succeeds. Sizes are unbounded integers: the rounding does not
  overflow for a request below \<^verbatim>\<open>INT_MAX - 7\<close>.
\<close>

record AM_MEM_BlockHeader =
  bh_next :: "nat option"
  bh_size :: int
  bh_used :: int

record AM_MEM_Pool =
  pool_size :: int
  pools :: "nat option"

record mem_heap =
  blocks :: "nat \<rightharpoonup> AM_MEM_BlockHeader"
  brk :: nat

definition AM_MEM_PoolInit :: "int \<Rightarrow> AM_MEM_Pool" where
  "AM_MEM_PoolInit sz = \<lparr>pool_size = sz, pools = None\<rparr>"

definition ptr_round :: "int \<Rightarrow> int \<Rightarrow> int" where
  "ptr_round align req = (req + align - 1) AND NOT (align - 1)"

text \<open>Cut \<open>sz\<close> bytes from the block at \<open>a\<close>, whose header is \<open>hdr\<close>.\<close>

definition pool_cut :: "nat \<Rightarrow> AM_MEM_BlockHeader \<Rightarrow> int \<Rightarrow> mem_heap \<Rightarrow> (nat \<times> int) option \<times> mem_heap" where
  "pool_cut a hdr sz h =
     (Some (a, bh_used hdr), h\<lparr>blocks := (blocks h)(a \<mapsto> hdr\<lparr>bh_used := bh_used hdr + sz\<rparr>)\<rparr>)"

text \<open>
  The operation reads the pool and writes only the store: the source has no assignment to a
  field of \<^verbatim>\<open>pool\<close>.
\<close>

definition AM_MEM_PoolAlloc ::
    "int \<Rightarrow> bool \<Rightarrow> AM_MEM_Pool \<Rightarrow> int \<Rightarrow> mem_heap \<Rightarrow> ((nat \<times> int) option \<times> mem_heap) option" where
  "AM_MEM_PoolAlloc align mem pool req h =
     (let sz = ptr_round align req;
          fresh_block =
            (if mem
             then pool_cut (brk h) \<lparr>bh_next = pools pool, bh_size = max sz (pool_size pool), bh_used = 0\<rparr>
                    sz (h\<lparr>brk := Suc (brk h)\<rparr>)
             else (None, h))
      in case pools pool of
           None \<Rightarrow> Some fresh_block
         | Some a \<Rightarrow>
             (case blocks h a of
                None \<Rightarrow> None
              | Some hdr \<Rightarrow>
                  if sz > bh_size hdr - bh_used hdr then Some fresh_block
                  else Some (pool_cut a hdr sz h)))"

definition mem_free :: "nat \<Rightarrow> mem_heap \<Rightarrow> mem_heap" where
  "mem_free a h = h\<lparr>blocks := (blocks h)(a := None)\<rparr>"

text \<open>The loops over the list read a header before they free its block.\<close>

partial_function (option) pool_clear_loop :: "nat \<Rightarrow> mem_heap \<Rightarrow> (nat \<times> mem_heap) option" where
  "pool_clear_loop a h =
     (case blocks h a of
        None \<Rightarrow> None
      | Some hdr \<Rightarrow>
          (case bh_next hdr of
             None \<Rightarrow> Some (a, h\<lparr>blocks := (blocks h)(a \<mapsto> hdr\<lparr>bh_used := 0\<rparr>)\<rparr>)
           | Some n \<Rightarrow> pool_clear_loop n (mem_free a h)))"

definition AM_MEM_PoolClear :: "AM_MEM_Pool \<Rightarrow> mem_heap \<Rightarrow> (AM_MEM_Pool \<times> mem_heap) option" where
  "AM_MEM_PoolClear pool h =
     (case pools pool of
        None \<Rightarrow> Some (pool, h)
      | Some a \<Rightarrow>
          (case pool_clear_loop a h of
             None \<Rightarrow> None
           | Some (b, h') \<Rightarrow> Some (pool\<lparr>pools := Some b\<rparr>, h')))"

partial_function (option) pool_free_loop :: "nat option \<Rightarrow> mem_heap \<Rightarrow> mem_heap option" where
  "pool_free_loop p h =
     (case p of
        None \<Rightarrow> Some h
      | Some a \<Rightarrow>
          (case blocks h a of
             None \<Rightarrow> None
           | Some hdr \<Rightarrow> pool_free_loop (bh_next hdr) (mem_free a h)))"

definition AM_MEM_PoolFree :: "AM_MEM_Pool \<Rightarrow> mem_heap \<Rightarrow> (AM_MEM_Pool \<times> mem_heap) option" where
  "AM_MEM_PoolFree pool h =
     (case pool_free_loop (pools pool) h of
        None \<Rightarrow> None
      | Some h' \<Rightarrow> Some (pool\<lparr>pools := None\<rparr>, h'))"

subsection \<open>The list of blocks in the store\<close>

fun chain :: "(nat \<rightharpoonup> AM_MEM_BlockHeader) \<Rightarrow> nat option \<Rightarrow> nat list \<Rightarrow> bool" where
  "chain m p [] \<longleftrightarrow> p = None"
| "chain m p (a # as) \<longleftrightarrow> p = Some a \<and> (\<exists>hdr. m a = Some hdr \<and> chain m (bh_next hdr) as)"

lemma chain_upd_other: "a \<notin> set as \<Longrightarrow> chain (m(a := v)) p as = chain m p as"
  by (induction as arbitrary: p) auto

lemma free_loop_chain:
  "chain (blocks h) p as \<Longrightarrow> distinct as \<Longrightarrow>
     pool_free_loop p h = Some (h\<lparr>blocks := (blocks h) |` (- set as)\<rparr>)"
proof (induction as arbitrary: p h)
  case Nil
  then show ?case by (simp add: pool_free_loop.simps)
next
  case (Cons a as)
  then obtain hdr where p: "p = Some a" and hdr: "blocks h a = Some hdr"
    and ch: "chain (blocks h) (bh_next hdr) as" and nin: "a \<notin> set as" and d: "distinct as" by auto
  have "chain (blocks (mem_free a h)) (bh_next hdr) as"
    using ch nin by (simp add: mem_free_def chain_upd_other)
  from Cons.IH [OF this d] show ?case
    using p hdr
    by (subst pool_free_loop.simps)
       (auto simp: mem_free_def restrict_map_def fun_eq_iff)
qed

lemma clear_loop_chain:
  "chain (blocks h) (Some a) as \<Longrightarrow> distinct as \<Longrightarrow>
     \<exists>hdr. blocks h (last as) = Some hdr \<and>
       pool_clear_loop a h = Some (last as, h\<lparr>blocks :=
         ((blocks h) |` (- set as))(last as \<mapsto> hdr\<lparr>bh_used := 0\<rparr>)\<rparr>)"
proof (induction as arbitrary: a h)
  case Nil
  from Nil.prems(1) show ?case by simp
next
  case (Cons b bs)
  note IH = Cons.IH
  from Cons.prems obtain hdr where [simp]: "b = a" and hdr: "blocks h a = Some hdr"
    and ch: "chain (blocks h) (bh_next hdr) bs" and nin: "a \<notin> set bs" and d: "distinct bs" by auto
  show ?case
  proof (cases bs)
    case Nil
    with ch hdr show ?thesis
      by (subst pool_clear_loop.simps) (auto simp: restrict_map_def fun_eq_iff)
  next
    case (Cons c cs)
    with ch have nxt: "bh_next hdr = Some c" by simp
    have ch': "chain (blocks (mem_free a h)) (Some c) bs"
      using ch nin nxt by (simp add: mem_free_def chain_upd_other)
    from IH [OF ch' d] obtain hdr' where l: "blocks (mem_free a h) (last bs) = Some hdr'"
      and loop: "pool_clear_loop c (mem_free a h) = Some (last bs, (mem_free a h)\<lparr>blocks :=
         ((blocks (mem_free a h)) |` (- set bs))(last bs \<mapsto> hdr'\<lparr>bh_used := 0\<rparr>)\<rparr>)" by blast
    have "last bs \<noteq> a" using nin Cons by (metis last_in_set list.distinct(1))
    with l have "blocks h (last bs) = Some hdr'" by (simp add: mem_free_def)
    moreover have "pool_clear_loop a h = pool_clear_loop c (mem_free a h)"
      using hdr nxt by (subst pool_clear_loop.simps) simp
    moreover have "((blocks (mem_free a h)) |` (- set bs)) = (blocks h) |` (- set (b # bs))"
      by (auto simp: mem_free_def restrict_map_def)
    moreover have "(mem_free a h)\<lparr>blocks := X\<rparr> = h\<lparr>blocks := X\<rparr>" for X
      by (simp add: mem_free_def)
    moreover have "last (b # bs) = last bs" using Cons by simp
    ultimately show ?thesis using loop by (intro exI [of _ hdr']) (simp only:)
  qed
qed

subsection \<open>Rounding\<close>

lemma and_not_mask_int: "(x::int) AND NOT (mask n) = 2 ^ n * (x div 2 ^ n)"
proof -
  have "x AND NOT (mask n) = push_bit n (drop_bit n x)"
    by (rule bit_eqI) (auto simp: bit_simps)
  then show ?thesis by (simp add: push_bit_eq_mult drop_bit_eq_div)
qed

lemma ptr_round_eq: "ptr_round (2 ^ n) req = 2 ^ n * ((req + 2 ^ n - 1) div 2 ^ n)"
  using and_not_mask_int [of "req + 2 ^ n - 1" n] by (simp add: ptr_round_def mask_eq_exp_minus_1)

lemma ptr_round_bounds:
  "req \<le> ptr_round (2 ^ n) req \<and> ptr_round (2 ^ n) req < req + 2 ^ n \<and> 2 ^ n dvd ptr_round (2 ^ n) req"
proof -
  have "2 ^ n * ((req + 2 ^ n - 1) div 2 ^ n) + (req + 2 ^ n - 1) mod 2 ^ n = req + 2 ^ n - 1"
    by (rule mult_div_mod_eq)
  moreover have "0 \<le> (req + 2 ^ n - 1) mod 2 ^ n" "(req + 2 ^ n - 1) mod 2 ^ n < 2 ^ n" by simp_all
  ultimately have "req \<le> ptr_round (2 ^ n) req" "ptr_round (2 ^ n) req < req + 2 ^ n"
    unfolding ptr_round_eq by linarith+
  then show ?thesis by (simp add: ptr_round_eq)
qed

subsection \<open>Allocation sequences\<close>

text \<open>A client allocates again and again: a request is its size and the allocator's answer.\<close>

fun pool_allocs :: "int \<Rightarrow> AM_MEM_Pool \<Rightarrow> (int \<times> bool) list \<Rightarrow> mem_heap
    \<Rightarrow> ((nat \<times> int) option list \<times> mem_heap) option" where
  "pool_allocs align pool [] h = Some ([], h)"
| "pool_allocs align pool ((req, mem) # rs) h =
     (case AM_MEM_PoolAlloc align mem pool req h of
        None \<Rightarrow> None
      | Some (p, h1) \<Rightarrow>
          (case pool_allocs align pool rs h1 of
             None \<Rightarrow> None
           | Some (ps, h2) \<Rightarrow> Some (p # ps, h2)))"

text \<open>The pointers a run obtained, without the failed requests.\<close>

fun somes :: "'a option list \<Rightarrow> 'a list" where
  "somes [] = []"
| "somes (x # xs) = (case x of None \<Rightarrow> somes xs | Some y \<Rightarrow> y # somes xs)"

lemma alloc_from_empty:
  assumes "pools pool = None"
  shows "AM_MEM_PoolAlloc align mem pool req h =
    Some (if mem then (Some (brk h, 0), h\<lparr>brk := Suc (brk h), blocks := (blocks h)(brk h \<mapsto>
            \<lparr>bh_next = None, bh_size = max (ptr_round align req) (pool_size pool),
             bh_used = ptr_round align req\<rparr>)\<rparr>) else (None, h))"
  using assms by (simp add: AM_MEM_PoolAlloc_def pool_cut_def Let_def)

lemma allocs_from_empty:
  assumes "pools pool = None"
  shows "\<exists>ps h'. pool_allocs align pool rs h = Some (ps, h') \<and>
     brk h' = brk h + length (filter snd rs) \<and>
     somes ps = map (\<lambda>i. (i, 0)) [brk h ..< brk h'] \<and>
     dom (blocks h') = dom (blocks h) \<union> {brk h ..< brk h'}"
proof (induction rs arbitrary: h)
  case (Cons r rs)
  obtain req mem where r: "r = (req, mem)" by (cases r)
  define h1 where "h1 = snd (the (AM_MEM_PoolAlloc align mem pool req h))"
  from Cons obtain ps h' where IH: "pool_allocs align pool rs h1 = Some (ps, h')"
    "brk h' = brk h1 + length (filter snd rs)"
    "somes ps = map (\<lambda>i. (i, 0)) [brk h1 ..< brk h']"
    "dom (blocks h') = dom (blocks h1) \<union> {brk h1 ..< brk h'}" by blast
  show ?case
  proof (cases mem)
    case True
    then have brk1: "brk h1 = Suc (brk h)" by (simp add: h1_def alloc_from_empty [OF assms])
    with IH(2) have less: "brk h < brk h'" by simp
    with brk1 have "[brk h ..< brk h'] = brk h # [brk h1 ..< brk h']"
      by (simp only: upt_conv_Cons)
    moreover from less brk1 have "{brk h ..< brk h'} = insert (brk h) {brk h1 ..< brk h'}" by auto
    ultimately show ?thesis using True IH r brk1
      by (simp add: h1_def alloc_from_empty [OF assms] del: upt_Suc)
  next
    case False
    with IH r show ?thesis
      by (auto simp: h1_def alloc_from_empty [OF assms])
  qed
qed simp

subsection \<open>Properties\<close>

text \<open>
  an allocation from a pool whose head block is live (or that has none) is defined, and when
  it returns a pointer the rounded request fits into the block the pointer names, starts where
  the block was used up to, and the block's use grows by exactly the rounded request, which is a
  multiple of the alignment and at least the request.
\<close>

theorem pool_alloc_fits:
  assumes "\<forall>a. pools pool = Some a \<longrightarrow> (\<exists>hdr. blocks h a = Some hdr)"
  shows "\<exists>r h'. AM_MEM_PoolAlloc (2 ^ n) mem pool req h = Some (r, h') \<and>
     (\<forall>a off. r = Some (a, off) \<longrightarrow>
        (\<exists>hdr. blocks h' a = Some hdr \<and> off + ptr_round (2 ^ n) req = bh_used hdr \<and>
           bh_used hdr \<le> bh_size hdr \<and> req \<le> ptr_round (2 ^ n) req \<and>
           2 ^ n dvd ptr_round (2 ^ n) req \<and>
           (a = brk h \<and> off = 0 \<or> pools pool = Some a \<and> map_option bh_used (blocks h a) = Some off)))"
proof (cases "pools pool")
  case None
  then show ?thesis using ptr_round_bounds [of req n] by (simp add: alloc_from_empty)
next
  case (Some a)
  with assms obtain hdr where "blocks h a = Some hdr" by blast
  with Some show ?thesis using ptr_round_bounds [of req n]
    by (auto simp: AM_MEM_PoolAlloc_def pool_cut_def Let_def)
qed

theorem pool_alloc_fits_witness:
  "\<exists>r h'. AM_MEM_PoolAlloc (2 ^ 3) True (AM_MEM_PoolInit 64) 13 \<lparr>blocks = Map.empty, brk = 5\<rparr> = Some (r, h') \<and>
     (\<forall>a off. r = Some (a, off) \<longrightarrow>
        (\<exists>hdr. blocks h' a = Some hdr \<and> off + ptr_round (2 ^ 3) 13 = bh_used hdr \<and>
           bh_used hdr \<le> bh_size hdr \<and> 13 \<le> ptr_round (2 ^ 3) 13 \<and>
           2 ^ 3 dvd ptr_round (2 ^ 3) 13 \<and>
           (a = brk \<lparr>blocks = Map.empty, brk = 5\<rparr> \<and> off = 0 \<or> pools (AM_MEM_PoolInit 64) = Some a \<and>
              map_option bh_used (blocks \<lparr>blocks = Map.empty, brk = 5\<rparr> a) = Some off)))"
  by (rule pool_alloc_fits) (simp add: AM_MEM_PoolInit_def)

text \<open>
  a pool never keeps the blocks it allocates. After \<^verbatim>\<open>AM_MEM_PoolInit\<close> every successful
  request takes a block of its own (so no two regions overlap), and \<^verbatim>\<open>AM_MEM_PoolFree\<close>, which
  is to release them all, leaves the store exactly as it is.
\<close>

theorem pool_never_links_its_blocks:
  "\<exists>ps h'. pool_allocs align (AM_MEM_PoolInit sz) rs h = Some (ps, h') \<and>
     somes ps = map (\<lambda>i. (i, 0)) [brk h ..< brk h + length (filter snd rs)] \<and>
     dom (blocks h') = dom (blocks h) \<union> {brk h ..< brk h + length (filter snd rs)} \<and>
     AM_MEM_PoolFree (AM_MEM_PoolInit sz) h' = Some (AM_MEM_PoolInit sz, h')"
  using allocs_from_empty [of "AM_MEM_PoolInit sz" align rs h]
  by (auto simp: AM_MEM_PoolInit_def AM_MEM_PoolFree_def pool_free_loop.simps)


text \<open>A store with two linked blocks, the head at address 1.\<close>

definition two_blocks :: mem_heap where
  "two_blocks = \<lparr>blocks = [1 \<mapsto> \<lparr>bh_next = Some 0, bh_size = 64, bh_used = 8\<rparr>,
                           0 \<mapsto> \<lparr>bh_next = None, bh_size = 64, bh_used = 64\<rparr>], brk = 2\<rparr>"


end
