(* ===== verification/Am_Time.thy ===== *)
theory Am_Time
  imports Adp_Prelude
begin

text \<open>
  Clocks, \<^verbatim>\<open>dvb/am_adp/am_time/am_time.c\<close>. The reading of \<^verbatim>\<open>clock_gettime\<close> is an
  argument; its contract is that the nanoseconds lie in \<open>[0, 10^9)\<close>. \<^verbatim>\<open>AM_TIME_GetClock\<close>
  computes in \<^verbatim>\<open>long\<close> and stores into an \<^verbatim>\<open>int\<close>, so its result wraps at 32 bits.
\<close>

record timespec =
  tv_sec :: int
  tv_nsec :: int

definition ts_ok :: "timespec \<Rightarrow> bool" where
  "ts_ok t \<longleftrightarrow> 0 \<le> tv_nsec t \<and> tv_nsec t < 1000000000"

text \<open>Storing into a 32-bit signed integer.\<close>

definition to_int32 :: "int \<Rightarrow> int" where
  "to_int32 x = sint (word_of_int x :: 32 word)"

definition AM_TIME_GetClock :: "timespec \<Rightarrow> int" where
  "AM_TIME_GetClock ts = to_int32 (tv_sec ts * 1000 + tv_nsec ts sdiv 1000000)"

definition AM_TIME_GetTimeSpec :: "timespec \<Rightarrow> timespec" where
  "AM_TIME_GetTimeSpec now = now"

definition AM_TIME_GetTimeSpecTimeout :: "int \<Rightarrow> timespec \<Rightarrow> timespec" where
  "AM_TIME_GetTimeSpecTimeout timeout ots =
     (let left = (timeout smod 1000) * 1000000;
          diff = 1000000000 - tv_nsec ots;
          sec = tv_sec ots + timeout sdiv 1000
      in if diff \<le> left then \<lparr>tv_sec = sec + 1, tv_nsec = left - diff\<rparr>
         else \<lparr>tv_sec = sec, tv_nsec = tv_nsec ots + left\<rparr>)"

definition ts_nanos :: "timespec \<Rightarrow> int" where
  "ts_nanos t = tv_sec t * 1000000000 + tv_nsec t"

definition ts_millis :: "timespec \<Rightarrow> int" where
  "ts_millis t = tv_sec t * 1000 + tv_nsec t div 1000000"

lemma sdiv_smod_nonneg:
  assumes "0 \<le> (a::int)" "0 < b"
  shows "a sdiv b = a div b" and "a smod b = a mod b"
  using assms by (simp_all add: signed_divide_int_def smod_int_alt_def sgn_if)

lemma to_int32_eq: "to_int32 x = (x + 2 ^ 31) mod 2 ^ 32 - 2 ^ 31"
  by (simp add: to_int32_def sint_sbintrunc' signed_take_bit_eq_take_bit_shift take_bit_eq_mod)

lemma to_int32_cong: "to_int32 (to_int32 x - to_int32 y) = to_int32 (x - y)"
  by (simp add: to_int32_eq mod_simps algebra_simps)

lemma to_int32_id: "- (2 ^ 31) \<le> x \<Longrightarrow> x < 2 ^ 31 \<Longrightarrow> to_int32 x = x"
  by (simp add: to_int32_eq)

lemma clock_millis: "ts_ok t \<Longrightarrow> AM_TIME_GetClock t = to_int32 (ts_millis t)"
  by (simp add: AM_TIME_GetClock_def ts_millis_def ts_ok_def sdiv_smod_nonneg)

subsection \<open>Properties\<close>

text \<open>
  C36: the deadline computed for a non-negative timeout is normalised and lies exactly that many
  milliseconds after the current time.
\<close>

theorem timeout_exact:
  assumes "ts_ok now" "0 \<le> timeout"
  shows "ts_ok (AM_TIME_GetTimeSpecTimeout timeout now) \<and>
     ts_nanos (AM_TIME_GetTimeSpecTimeout timeout now) = ts_nanos now + timeout * 1000000"
proof -
  define q r where "q = timeout div 1000" and "r = timeout mod 1000"
  have t: "timeout = q * 1000 + r" and r: "0 \<le> r" "r < 1000" by (simp_all add: q_def r_def)
  have "AM_TIME_GetTimeSpecTimeout timeout now =
    (if 1000000000 - tv_nsec now \<le> r * 1000000
     then \<lparr>tv_sec = tv_sec now + q + 1, tv_nsec = r * 1000000 - (1000000000 - tv_nsec now)\<rparr>
     else \<lparr>tv_sec = tv_sec now + q, tv_nsec = tv_nsec now + r * 1000000\<rparr>)"
    using assms(2) by (simp add: AM_TIME_GetTimeSpecTimeout_def sdiv_smod_nonneg q_def r_def)
  with assms(1) r show ?thesis
    by (auto simp: t ts_ok_def ts_nanos_def algebra_simps)
qed

theorem timeout_exact_witness:
  "ts_ok (AM_TIME_GetTimeSpecTimeout 1500 \<lparr>tv_sec = 7, tv_nsec = 600000000\<rparr>) \<and>
     ts_nanos (AM_TIME_GetTimeSpecTimeout 1500 \<lparr>tv_sec = 7, tv_nsec = 600000000\<rparr>)
   = ts_nanos \<lparr>tv_sec = 7, tv_nsec = 600000000\<rparr> + 1500 * 1000000"
  by (rule timeout_exact) (simp_all add: ts_ok_def)

text \<open>
  Although the millisecond clock wraps at 32 bits, the wrapped difference of two readings is
  the elapsed number of milliseconds whenever that number fits into 31 bits.
\<close>

theorem clock_difference:
  assumes "ts_ok t0" "ts_ok t1" "0 \<le> ts_millis t1 - ts_millis t0" "ts_millis t1 - ts_millis t0 < 2 ^ 31"
  shows "to_int32 (AM_TIME_GetClock t1 - AM_TIME_GetClock t0) = ts_millis t1 - ts_millis t0"
  using assms by (simp add: clock_millis to_int32_cong to_int32_id)

theorem clock_difference_witness:
  "to_int32 (AM_TIME_GetClock \<lparr>tv_sec = 2147484, tv_nsec = 0\<rparr>
     - AM_TIME_GetClock \<lparr>tv_sec = 2147483, tv_nsec = 0\<rparr>) = 1000 \<and>
   AM_TIME_GetClock \<lparr>tv_sec = 2147484, tv_nsec = 0\<rparr> < 0"
  using clock_difference [of "\<lparr>tv_sec = 2147483, tv_nsec = 0\<rparr>" "\<lparr>tv_sec = 2147484, tv_nsec = 0\<rparr>"]
  by (simp add: ts_ok_def ts_millis_def AM_TIME_GetClock_def to_int32_eq)

end
