(* ===== verification/Am_Pes.thy ===== *)
theory Am_Pes
  imports Adp_Prelude "HOL-Library.Sublist"
begin

unbundle bit_operations_syntax

text \<open>
  The PES parser, \<^verbatim>\<open>dvb/am_adp/am_pes/am_pes.c\<close>. The parser collects the bytes it is given in
  a buffer and hands complete packets to a callback. \<open>pes_buf\<close> is the allocated buffer (its
  length is the field \<^verbatim>\<open>size\<close>), \<open>pes_len\<close> the number of valid bytes. A read behind the
  allocated buffer and a negative size given to \<^verbatim>\<open>memmove\<close> are undefined. The callback is
  modelled by the list of its invocations: the bytes it may read and the length it is given
  (which the code can make negative). Lengths are unbounded: the sum of a chunk and the buffered
  bytes stays below \<^verbatim>\<open>INT_MAX\<close>.
\<close>

definition AM_PES_ERR_INVALID_PARAM :: errcode where
  "AM_PES_ERR_INVALID_PARAM = AM_ERROR_BASE AM_MOD_PES + 1"

definition AM_PES_ERR_INVALID_HANDLE :: errcode where
  "AM_PES_ERR_INVALID_HANDLE = AM_ERROR_BASE AM_MOD_PES + 2"

definition AM_PES_ERR_NO_MEM :: errcode where
  "AM_PES_ERR_NO_MEM = AM_ERROR_BASE AM_MOD_PES + 3"

lemmas pes_codes [err_code, simp] =
  AM_PES_ERR_INVALID_PARAM_def AM_PES_ERR_INVALID_HANDLE_def AM_PES_ERR_NO_MEM_def

record 'ud AM_PES_Para =
  packet :: bool
  payload_only :: bool
  pes_user_data :: 'ud

record 'ud AM_PES_Parser =
  pes_buf :: "byte list"
  pes_len :: nat
  pes_para :: "'ud AM_PES_Para"

type_synonym pes_call = "byte list \<times> int"

text \<open>\<^verbatim>\<open>(a<<8)|b\<close> on two bytes.\<close>

definition be16 :: "byte \<Rightarrow> byte \<Rightarrow> nat" where
  "be16 hi lo = unat hi * 256 + unat lo"

text \<open>The search for a start code \<^verbatim>\<open>00 00 01\<close>, \<^verbatim>\<open>for(i=pos; i<len-4; i++)\<close>.\<close>

function find_start :: "byte list \<Rightarrow> nat \<Rightarrow> nat \<Rightarrow> nat option" where
  "find_start buf i len =
     (if i + 4 < len
      then if buf ! i = 0 \<and> buf ! (i + 1) = 0 \<and> buf ! (i + 2) = 1 then Some i
           else find_start buf (Suc i) len
      else None)"
  by pat_completeness auto
termination
  by (relation "measure (\<lambda>(buf, i, len). len - i)") auto

declare find_start.simps [simp del]

text \<open>
  Result: \<open>None\<close> undefined, \<open>Some None\<close> the return value -1, otherwise the values stored
  through \<^verbatim>\<open>plen\<close>, \<^verbatim>\<open>dpos\<close> and \<^verbatim>\<open>dlen\<close>. The list \<open>data\<close> is the allocated memory from
  \<^verbatim>\<open>data\<close> on.
\<close>

definition calc_invalid_pes_offset :: "byte list \<Rightarrow> nat \<Rightarrow> nat \<Rightarrow> (nat \<times> nat \<times> int) option option" where
  "calc_invalid_pes_offset data data_len dpos =
     (case rd data 8 of
        None \<Rightarrow> None
      | Some b \<Rightarrow>
          (let pes_head_len = unat b
           in Some (case find_start data 6 data_len of
                      None \<Rightarrow> None
                    | Some posn \<Rightarrow>
                        if posn < pes_head_len + 9 then Some (posn - 6, dpos + posn, 0)
                        else Some (posn - 6, dpos + pes_head_len + 9,
                                   int posn - (int pes_head_len + 9)))))"

function skip_stuffing :: "byte list \<Rightarrow> nat \<Rightarrow> nat \<Rightarrow> nat" where
  "skip_stuffing data posn data_len =
     (if posn < data_len \<and> data ! posn = 0xFF then skip_stuffing data (Suc posn) data_len else posn)"
  by pat_completeness auto
termination
  by (relation "measure (\<lambda>(data, posn, data_len). data_len - posn)") auto

declare skip_stuffing.simps [simp del]

definition calc_mpeg1_pes_offset :: "byte list \<Rightarrow> nat \<Rightarrow> nat" where
  "calc_mpeg1_pes_offset data data_len =
     (let posn = skip_stuffing data 6 data_len
      in if posn < data_len
         then (let posn = (if data ! posn AND 0xC0 = 0x40 then posn + 2 else posn)
               in if data ! posn AND 0xF0 = 0x20 then posn + 5
                  else if data ! posn AND 0xF0 = 0x30 then posn + 10
                  else posn + 1)
         else posn)"

text \<open>
  One iteration of the loop of \<^verbatim>\<open>AM_PES_Decode\<close>: either it leaves the loop with a value of
  \<^verbatim>\<open>pos\<close>, or it delivers data and advances.
\<close>

datatype pes_step = Stop nat | Emit nat pes_call

definition pes_iter :: "bool \<Rightarrow> byte list \<Rightarrow> nat \<Rightarrow> nat \<Rightarrow> pes_step option" where
  "pes_iter po buf len pos =
     (case find_start buf pos len of
        None \<Rightarrow> Some (Stop pos)
      | Some p \<Rightarrow>
          if len - p < 6 then Some (Stop p)
          else (let plen = be16 (buf ! (p + 4)) (buf ! (p + 5));
                    invalid = (plen = 0xffff \<or> plen = 0);
                    emit = (\<lambda>plen dpos dlen. Emit (p + plen + 6) (take (nat dlen) (drop dpos buf), dlen))
                in if len - p < plen + 6 \<and> \<not> invalid then Some (Stop p)
                   else if po then
                     (if invalid then
                        (case calc_invalid_pes_offset (drop p buf) (len - p) p of
                           None \<Rightarrow> None
                         | Some None \<Rightarrow> Some (Stop p)
                         | Some (Some (plen', dpos, dlen)) \<Rightarrow> Some (emit plen' dpos dlen))
                      else if (buf ! (p + 6)) AND 0xC0 = 0x80 then
                        (case rd buf (p + 8) of
                           None \<Rightarrow> None
                         | Some b \<Rightarrow> (let hlen = 9 + unat b
                                    in Some (emit plen (p + hlen) (int plen + 6 - int hlen))))
                      else (let hlen = calc_mpeg1_pes_offset (drop p buf) plen
                            in Some (emit plen (p + hlen) (int plen + 6 - int hlen))))
                   else Some (emit plen p (int plen + 6))))"

text \<open>Every iteration that goes on advances by at least six bytes, so the loop ends.\<close>

lemma find_start_bounds: "find_start buf i len = Some p \<Longrightarrow> i \<le> p \<and> p + 4 < len"
proof (induction buf i len rule: find_start.induct)
  case (1 buf i len)
  then show ?case
    by (subst (asm) find_start.simps) (auto split: if_splits)
qed

lemma pes_iter_advance:
  assumes "pes_iter po buf len pos = Some (Emit pos' c)"
  shows "pos + 6 \<le> pos'"
  using assms
  by (auto simp: pes_iter_def Let_def split: option.splits if_splits dest: find_start_bounds)

function pes_loop :: "bool \<Rightarrow> byte list \<Rightarrow> nat \<Rightarrow> nat \<Rightarrow> (nat \<times> pes_call list) option" where
  "pes_loop po buf len pos =
     (case pes_iter po buf len pos of
        None \<Rightarrow> None
      | Some (Stop p) \<Rightarrow> Some (p, [])
      | Some (Emit pos' c) \<Rightarrow>
          if pos' < len
          then (case pes_loop po buf len pos' of
                  None \<Rightarrow> None
                | Some (p, cs) \<Rightarrow> Some (p, c # cs))
          else Some (pos', [c]))"
  by pat_completeness auto
termination
  by (relation "measure (\<lambda>(po, buf, len, pos). len - pos)") (auto dest: pes_iter_advance)

declare pes_loop.simps [simp del]

definition AM_PES_Create :: "bool \<Rightarrow> 'ud AM_PES_Para option \<Rightarrow> errcode \<times> 'ud AM_PES_Parser option" where
  "AM_PES_Create mem para =
     (case para of
        None \<Rightarrow> (AM_PES_ERR_INVALID_PARAM, None)
      | Some p \<Rightarrow>
          if \<not> mem then (AM_PES_ERR_NO_MEM, None)
          else (AM_SUCCESS, Some \<lparr>pes_buf = [], pes_len = 0, pes_para = p\<rparr>))"

definition AM_PES_Destroy :: "'ud AM_PES_Parser option \<Rightarrow> errcode \<times> 'ud AM_PES_Parser option" where
  "AM_PES_Destroy h =
     (case h of None \<Rightarrow> (AM_PES_ERR_INVALID_HANDLE, None) | Some _ \<Rightarrow> (AM_SUCCESS, None))"

definition AM_PES_GetUserData :: "'ud AM_PES_Parser option \<Rightarrow> 'ud option" where
  "AM_PES_GetUserData h = map_option (\<lambda>p. pes_user_data (pes_para p)) h"

text \<open>
  \<^verbatim>\<open>AM_PES_Decode\<close>: \<open>mem\<close> says whether \<^verbatim>\<open>realloc\<close> succeeds; the bytes it adds are
  overwritten by the copy that follows it.
\<close>

definition pes_total :: "byte list \<Rightarrow> 'ud AM_PES_Parser \<Rightarrow> nat" where
  "pes_total data ps = max (length data + pes_len ps) (length (pes_buf ps))"

definition pes_append :: "byte list \<Rightarrow> 'ud AM_PES_Parser \<Rightarrow> byte list" where
  "pes_append data ps =
     (let buf = pes_buf ps @ replicate (pes_total data ps - length (pes_buf ps)) 0
      in take (pes_len ps) buf @ data @ drop (pes_len ps + length data) buf)"

definition AM_PES_Decode ::
    "bool \<Rightarrow> byte list \<Rightarrow> 'ud AM_PES_Parser option
     \<Rightarrow> (errcode \<times> 'ud AM_PES_Parser option \<times> pes_call list) option" where
  "AM_PES_Decode mem data h =
     (case h of
        None \<Rightarrow> Some (AM_PES_ERR_INVALID_HANDLE, None, [])
      | Some ps \<Rightarrow>
          if data = [] then Some (AM_PES_ERR_INVALID_PARAM, h, [])
          else if pes_total data ps > length (pes_buf ps) \<and> \<not> mem then Some (AM_PES_ERR_NO_MEM, h, [])
          else (let buf = pes_append data ps;
                    len = pes_len ps + length data
                in (case pes_loop (payload_only (pes_para ps)) buf len 0 of
                      None \<Rightarrow> None
                    | Some (pos, calls) \<Rightarrow>
                        if len < pos then None
                        else (let left = len - pos
                              in Some (AM_SUCCESS,
                                   Some (ps\<lparr>pes_buf := take left (drop pos buf) @ drop left buf,
                                            pes_len := left\<rparr>),
                                   if packet (pes_para ps) then calls else [])))))"

subsection \<open>Well-formed packets and what the parser owes for them\<close>

definition pes_packet :: "bool \<Rightarrow> byte list \<Rightarrow> bool" where
  "pes_packet po pkt \<longleftrightarrow>
     6 < length pkt \<and> pkt ! 0 = 0 \<and> pkt ! 1 = 0 \<and> pkt ! 2 = 1 \<and>
     length pkt = be16 (pkt ! 4) (pkt ! 5) + 6 \<and> length pkt < 0xffff + 6 \<and>
     (po \<and> pkt ! 6 AND 0xC0 = 0x80 \<longrightarrow> 8 < length pkt)"

text \<open>The header the parser strips in payload mode: MPEG-2 header, or the MPEG-1 one.\<close>

definition pes_hlen :: "bool \<Rightarrow> byte list \<Rightarrow> nat" where
  "pes_hlen po pkt =
     (if \<not> po then 0
      else if pkt ! 6 AND 0xC0 = 0x80 then 9 + unat (pkt ! 8)
      else calc_mpeg1_pes_offset pkt (length pkt - 6))"

definition pes_deliver :: "bool \<Rightarrow> byte list \<Rightarrow> pes_call" where
  "pes_deliver po pkt = (drop (pes_hlen po pkt) pkt, int (length pkt) - int (pes_hlen po pkt))"

lemma pes_packet_nonempty: "pes_packet po pkt \<Longrightarrow> pkt \<noteq> []"
  by (auto simp: pes_packet_def)

lemma find_start_here:
  assumes "pos + 4 < len" "buf ! pos = 0" "buf ! (pos + 1) = 0" "buf ! (pos + 2) = 1"
  shows "find_start buf pos len = Some pos"
  using assms by (subst find_start.simps) simp

text \<open>Stuffing and the MPEG-1 header read only bytes of the packet.\<close>

lemma skip_stuffing_cong:
  "(\<And>i. i < n \<Longrightarrow> xs ! i = ys ! i) \<Longrightarrow> skip_stuffing xs i n = skip_stuffing ys i n"
proof (induction xs i n rule: skip_stuffing.induct)
  case (1 xs i n)
  then show ?case
    by (subst skip_stuffing.simps, subst (2) skip_stuffing.simps) auto
qed

lemma calc_mpeg1_append:
  assumes "n + 6 = length pkt"
  shows "calc_mpeg1_pes_offset (pkt @ rest) n = calc_mpeg1_pes_offset pkt n"
proof -
  have eq: "(pkt @ rest) ! i = pkt ! i" if "i < n + 6" for i using that assms by (simp add: nth_append)
  have "skip_stuffing (pkt @ rest) 6 n = skip_stuffing pkt 6 n"
    by (rule skip_stuffing_cong) (simp add: eq)
  then show ?thesis unfolding calc_mpeg1_pes_offset_def Let_def using eq by (auto simp: Let_def)
qed

text \<open>An iteration at a complete packet delivers it and moves behind it.\<close>

lemma pes_iter_packet:
  assumes pkt: "pes_packet po pkt" and buf: "drop pos buf = pkt @ rest"
    and len: "pos + length pkt \<le> len" "len \<le> length buf"
  shows "pes_iter po buf len pos = Some (Emit (pos + length pkt) (pes_deliver po pkt))"
proof -
  have pos: "pos \<le> length buf" using len by simp
  have eq: "buf ! (pos + i) = pkt ! i" if "i < length pkt" for i
    using nth_drop [OF pos, of i] buf that by (simp add: nth_append)
  from pkt obtain n where n: "length pkt = n + 6" "be16 (pkt ! 4) (pkt ! 5) = n" "n \<noteq> 0" "n \<noteq> 0xffff"
    by (auto simp: pes_packet_def)
  from pkt n have start: "find_start buf pos len = Some pos"
    using eq [of 0] eq [of 1] eq [of 2] len
    by (intro find_start_here) (auto simp: pes_packet_def)
  have deliver: "take (nat (int n + 6 - int k)) (drop (pos + k) buf) = drop k pkt" for k
  proof (cases "k \<le> length pkt")
    case True
    have "drop (pos + k) buf = drop k pkt @ rest"
      using buf True by (simp add: drop_drop [symmetric] add.commute)
    moreover have "nat (int n + 6 - int k) = length pkt - k" using n(1) by simp
    ultimately show ?thesis by simp
  qed (simp add: n(1))
  have mpeg1: "calc_mpeg1_pes_offset (drop pos buf) n = calc_mpeg1_pes_offset pkt n"
    unfolding buf using n(1) by (intro calc_mpeg1_append) simp
  have full: "\<not> len - pos < n + 6" "\<not> len - pos < 6" using len n(1) by simp_all
  have bytes: "buf ! (pos + 4) = pkt ! 4" "buf ! (pos + 5) = pkt ! 5" "buf ! (pos + 6) = pkt ! 6"
    using eq n by simp_all
  show ?thesis
  proof (cases "po \<and> pkt ! 6 AND 0xC0 = 0x80")
    case True
    with pkt have "8 < length pkt" by (simp add: pes_packet_def)
    with eq [of 8] len have "rd buf (pos + 8) = Some (pkt ! 8)" by simp
    with True show ?thesis
      using start full bytes n deliver [of "9 + unat (pkt ! 8)"]
      by (simp add: pes_iter_def pes_deliver_def pes_hlen_def Let_def add.commute add.left_commute)
  next
    case False
    with mpeg1 show ?thesis
      using start full bytes n deliver [of "calc_mpeg1_pes_offset pkt n"] deliver [of 0]
      by (simp add: pes_iter_def pes_deliver_def pes_hlen_def Let_def add.commute add.left_commute)
  qed
qed

text \<open>An iteration at an incomplete packet stops without moving.\<close>

lemma pes_iter_partial:
  assumes pkt: "pes_packet po pkt" and n: "n < length pkt"
    and buf: "take n (drop pos buf) = take n pkt" and len: "len = pos + n" "len \<le> length buf"
  shows "pes_iter po buf len pos = Some (Stop pos)"
proof (cases "n < 5")
  case True
  with len show ?thesis by (simp add: pes_iter_def find_start.simps)
next
  case False
  have eq: "buf ! (pos + i) = pkt ! i" if "i < n" for i
  proof -
    have "buf ! (pos + i) = take n (drop pos buf) ! i" using that len by simp
    then show ?thesis using that by (simp add: buf)
  qed
  from pkt False have "find_start buf pos len = Some pos"
    using eq [of 0] eq [of 1] eq [of 2] len
    by (intro find_start_here) (auto simp: pes_packet_def)
  moreover have "n < be16 (buf ! (pos + 4)) (buf ! (pos + 5)) + 6 \<and>
      be16 (buf ! (pos + 4)) (buf ! (pos + 5)) \<noteq> 0xffff \<and> be16 (buf ! (pos + 4)) (buf ! (pos + 5)) \<noteq> 0"
    if "6 \<le> n" using that eq [of 4] eq [of 5] pkt n by (auto simp: pes_packet_def)
  ultimately show ?thesis using len by (simp add: pes_iter_def Let_def)
qed

text \<open>What is buffered between two calls: a proper prefix of the packet that comes next.\<close>

definition pes_rest :: "bool \<Rightarrow> byte list \<Rightarrow> byte list list \<Rightarrow> bool" where
  "pes_rest po d pkts \<longleftrightarrow> (case pkts of [] \<Rightarrow> d = [] | pkt # _ \<Rightarrow> strict_prefix d pkt)"

lemma pes_loop_packets:
  assumes "\<forall>pkt \<in> set (ps @ qs). pes_packet po pkt" "pes_rest po d qs"
    and "take len buf = pre @ concat ps @ d" "length pre = pos" "len \<le> length buf"
  shows "pes_loop po buf len pos = Some (pos + length (concat ps), map (pes_deliver po) ps)"
  using assms
proof (induction ps arbitrary: pre pos)
  case Nil
  have tl: "length (take len buf) = len" using Nil.prems(5) by simp
  have len: "len = pos + length d" using Nil.prems(3,4) tl by simp
  have d: "take (length d) (drop pos buf) = d"
  proof -
    have "take (length d) (drop pos buf) = drop pos (take len buf)"
      unfolding len by (simp add: take_drop add.commute)
    then show ?thesis using Nil.prems(3,4) by simp
  qed
  have "pes_iter po buf len pos = Some (Stop pos)"
  proof (cases qs)
    case Nil
    with \<open>pes_rest po d qs\<close> len show ?thesis by (simp add: pes_rest_def pes_iter_def find_start.simps)
  next
    case (Cons pkt qs')
    with \<open>pes_rest po d qs\<close> obtain e es where pkt: "pkt = d @ e # es"
      by (auto simp: pes_rest_def elim: strict_prefixE')
    show ?thesis
      by (rule pes_iter_partial [of po pkt "length d"])
         (use Nil.prems(1,5) Cons pkt d len in auto)
  qed
  then show ?case by (simp add: pes_loop.simps)
next
  case (Cons p ps)
  have len: "len = pos + length p + length (concat ps) + length d"
  proof -
    have "length (take len buf) = len" using Cons.prems(5) by simp
    then show ?thesis using Cons.prems(3,4) by simp
  qed
  have "buf = take len buf @ drop len buf" by simp
  then have "buf = pre @ p @ concat ps @ d @ drop len buf" using Cons.prems(3) by simp
  then have dp: "drop pos buf = p @ concat ps @ d @ drop len buf"
    using Cons.prems(4) by (metis append_eq_conv_conj)
  have it: "pes_iter po buf len pos = Some (Emit (pos + length p) (pes_deliver po p))"
    by (rule pes_iter_packet [OF _ dp]) (use Cons.prems len in auto)
  have IH: "pes_loop po buf len (pos + length p)
      = Some (pos + length p + length (concat ps), map (pes_deliver po) ps)"
    by (rule Cons.IH [of "pre @ p"]) (use Cons.prems in auto)
  show ?case
  proof (cases "pos + length p < len")
    case True
    then show ?thesis by (subst pes_loop.simps) (simp add: it IH add.assoc)
  next
    case False
    with len have "concat ps = []" by simp
    moreover have "q \<noteq> []" if "q \<in> set ps" for q
      using Cons.prems(1) that by (intro pes_packet_nonempty [of po]) simp
    ultimately have "ps = []" by (cases ps) auto
    then show ?thesis using False by (subst pes_loop.simps) (simp add: it)
  qed
qed

subsection \<open>Feeding a stream in chunks\<close>

definition pes_inv :: "'ud AM_PES_Parser \<Rightarrow> bool" where
  "pes_inv ps \<longleftrightarrow> pes_len ps \<le> length (pes_buf ps)"

definition pes_pending :: "'ud AM_PES_Parser \<Rightarrow> byte list" where
  "pes_pending ps = take (pes_len ps) (pes_buf ps)"

lemma pes_append_length: "pes_inv ps \<Longrightarrow> pes_len ps + length c \<le> length (pes_append c ps)"
  by (simp add: pes_append_def pes_total_def pes_inv_def)

lemma pes_append_take:
  "pes_inv ps \<Longrightarrow> take (pes_len ps + length c) (pes_append c ps) = pes_pending ps @ c"
  by (simp add: pes_append_def pes_total_def pes_inv_def pes_pending_def min_def)

lemma pes_decode_packets:
  assumes inv: "pes_inv ps" and c: "c \<noteq> []"
    and pk: "\<forall>pkt \<in> set (pk @ qs). pes_packet (payload_only (pes_para ps)) pkt"
    and rest: "pes_rest (payload_only (pes_para ps)) d qs"
    and eq: "pes_pending ps @ c = concat pk @ d"
  shows "\<exists>ps'. AM_PES_Decode True c (Some ps) = Some (AM_SUCCESS, Some ps',
      if packet (pes_para ps) then map (pes_deliver (payload_only (pes_para ps))) pk else []) \<and>
    pes_inv ps' \<and> pes_pending ps' = d \<and> pes_para ps' = pes_para ps"
proof -
  let ?po = "payload_only (pes_para ps)"
  define buf where "buf = pes_append c ps"
  define len where "len = pes_len ps + length c"
  have tl: "take len buf = concat pk @ d" and lb: "len \<le> length buf"
    using pes_append_take [OF inv, of c] pes_append_length [OF inv, of c] eq
    by (simp_all add: buf_def len_def)
  have loop: "pes_loop ?po buf len 0 = Some (length (concat pk), map (pes_deliver ?po) pk)"
    using pes_loop_packets [OF pk rest, of len buf "[]" 0] tl lb by simp
  have len_eq: "len = length (concat pk) + length d"
    using arg_cong [OF tl, of length] lb by simp
  then have left: "len - length (concat pk) = length d" "\<not> len < length (concat pk)" by simp_all
  have dd: "take (length d) (drop (length (concat pk)) buf) = d"
  proof -
    have "take (length d) (drop (length (concat pk)) buf) = drop (length (concat pk)) (take len buf)"
      unfolding len_eq by (simp add: take_drop add.commute)
    then show ?thesis by (simp add: tl)
  qed
  define ps' where "ps' = ps\<lparr>pes_buf := d @ drop (length d) buf, pes_len := length d\<rparr>"
  have "AM_PES_Decode True c (Some ps) = Some (AM_SUCCESS, Some ps',
      if packet (pes_para ps) then map (pes_deliver ?po) pk else [])"
    using c loop left dd
    by (simp add: AM_PES_Decode_def Let_def ps'_def buf_def [symmetric] len_def [symmetric])
  moreover have "pes_inv ps'" "pes_pending ps' = d" "pes_para ps' = pes_para ps"
    by (simp_all add: ps'_def pes_inv_def pes_pending_def)
  ultimately show ?thesis by blast
qed

fun pes_feed :: "byte list list \<Rightarrow> 'ud AM_PES_Parser option \<Rightarrow> ('ud AM_PES_Parser option \<times> pes_call list) option" where
  "pes_feed [] h = Some (h, [])"
| "pes_feed (c # cs) h =
     (case AM_PES_Decode True c h of
        None \<Rightarrow> None
      | Some (r, h', calls) \<Rightarrow>
          (case pes_feed cs h' of
             None \<Rightarrow> None
           | Some (h'', calls') \<Rightarrow> Some (h'', calls @ calls')))"

text \<open>Any prefix of a stream of packets is some whole packets and the start of the next.\<close>

lemma pes_stream_split:
  assumes "\<forall>pkt \<in> set pkts. pes_packet po pkt" "prefix xs (concat pkts)"
  shows "\<exists>ps qs d. pkts = ps @ qs \<and> xs = concat ps @ d \<and> pes_rest po d qs"
  using assms
proof (induction pkts arbitrary: xs)
  case Nil
  then show ?case by (simp add: pes_rest_def)
next
  case (Cons p pkts)
  show ?case
  proof (cases "strict_prefix xs p")
    case True
    then have "p # pkts = [] @ p # pkts \<and> xs = concat [] @ xs \<and> pes_rest po xs (p # pkts)"
      by (simp add: pes_rest_def)
    then show ?thesis by blast
  next
    case False
    with Cons.prems(2) obtain ys where xs: "xs = p @ ys" and ys: "prefix ys (concat pkts)"
      by (auto simp: prefix_append strict_prefix_def)
    from Cons.IH [OF _ ys] Cons.prems(1) obtain ps qs d
      where "pkts = ps @ qs" "ys = concat ps @ d" "pes_rest po d qs" by auto
    then have "p # pkts = (p # ps) @ qs \<and> xs = concat (p # ps) @ d \<and> pes_rest po d qs" by (simp add: xs)
    then show ?thesis by blast
  qed
qed

lemma pes_feed_stream:
  assumes "pes_inv ps" "\<forall>pkt \<in> set pkts. pes_packet (payload_only (pes_para ps)) pkt"
    and "pes_rest (payload_only (pes_para ps)) (pes_pending ps) pkts"
    and "pes_pending ps @ concat cs = concat pkts" "[] \<notin> set cs" "packet (pes_para ps)"
  shows "\<exists>ps'. pes_feed cs (Some ps)
      = Some (Some ps', map (pes_deliver (payload_only (pes_para ps))) pkts) \<and>
    pes_pending ps' = [] \<and> pes_inv ps'"
  using assms
proof (induction cs arbitrary: ps pkts)
  case Nil
  have "pkts = []"
  proof (rule ccontr)
    assume "pkts \<noteq> []"
    then obtain p ps where "pkts = p # ps" by (cases pkts) auto
    with Nil.prems(3,4) show False
      by (auto simp: pes_rest_def strict_prefix_def)
  qed
  with Nil show ?case by (simp add: pes_rest_def)
next
  case (Cons c cs)
  let ?po = "payload_only (pes_para ps)"
  have "prefix (pes_pending ps @ c) (concat pkts)" using Cons.prems(4) by (metis append.assoc concat.simps(2) prefixI)
  from pes_stream_split [OF Cons.prems(2) this] obtain ps1 qs d
    where split: "pkts = ps1 @ qs" "pes_pending ps @ c = concat ps1 @ d" "pes_rest ?po d qs" by blast
  have all: "\<forall>pkt \<in> set (ps1 @ qs). pes_packet ?po pkt" using Cons.prems(2) split(1) by simp
  from pes_decode_packets [OF Cons.prems(1) _ all split(3) split(2)] Cons.prems(5,6) obtain ps'
    where dec: "AM_PES_Decode True c (Some ps) = Some (AM_SUCCESS, Some ps', map (pes_deliver ?po) ps1)"
      and ps': "pes_inv ps'" "pes_pending ps' = d" "pes_para ps' = pes_para ps" by auto
  have "d @ concat cs = concat qs"
  proof -
    have "concat ps1 @ d @ concat cs = concat ps1 @ concat qs"
      using Cons.prems(4) split(1) arg_cong [OF split(2), of "\<lambda>xs. xs @ concat cs"] by simp
    then show ?thesis by simp
  qed
  with Cons.IH [of ps' qs] ps' all split Cons.prems(5,6)
  obtain ps'' where "pes_feed cs (Some ps') = Some (Some ps'', map (pes_deliver ?po) qs)"
      "pes_pending ps'' = [] \<and> pes_inv ps''"
    by auto
  with dec split(1) show ?case by simp
qed

subsection \<open>Properties\<close>

text \<open>
  C3: however a stream of well-formed packets is cut into non-empty chunks, the parser created
  with a callback delivers exactly the packets of the stream, in order, each once (in payload
  mode without its header), meets no undefined behaviour, and has no byte left at the end.
\<close>

theorem pes_chunking_irrelevant:
  assumes "AM_PES_Create True (Some para) = (AM_SUCCESS, h)" "packet para"
    and "\<forall>pkt \<in> set pkts. pes_packet (payload_only para) pkt"
    and "concat cs = concat pkts" "[] \<notin> set cs"
  shows "\<exists>ps'. pes_feed cs h = Some (Some ps', map (pes_deliver (payload_only para)) pkts) \<and>
     pes_len ps' = 0"
proof -
  let ?ps = "\<lparr>pes_buf = [], pes_len = 0, pes_para = para\<rparr>"
  from assms(1) have h: "h = Some ?ps" by (simp add: AM_PES_Create_def)
  have "pes_rest (payload_only para) [] pkts"
    using assms(3) pes_packet_nonempty by (cases pkts) (auto simp: pes_rest_def strict_prefix_def)
  then obtain ps' where "pes_feed cs h = Some (Some ps', map (pes_deliver (payload_only para)) pkts)"
    "pes_pending ps' = []" "pes_inv ps'"
    using pes_feed_stream [of ?ps pkts cs] assms h by (auto simp: pes_inv_def pes_pending_def)
  then show ?thesis by (auto simp: pes_pending_def pes_inv_def)
qed

theorem pes_chunking_irrelevant_witness:
  "\<exists>ps'. pes_feed [[0, 0], [1, 0xE0, 0, 4, 0x80, 0, 1], [0xAA, 0, 0, 1, 0xE0, 0, 1, 7]]
       (Some \<lparr>pes_buf = [], pes_len = 0, pes_para = \<lparr>packet = True, payload_only = False, pes_user_data = ()\<rparr>\<rparr>)
     = Some (Some ps', map (pes_deliver False)
         [[0, 0, 1, 0xE0, 0, 4, 0x80, 0, 1, 0xAA], [0, 0, 1, 0xE0, 0, 1, 7]]) \<and> pes_len ps' = 0"
  using pes_chunking_irrelevant [of "\<lparr>packet = True, payload_only = False, pes_user_data = ()\<rparr>"
      "Some \<lparr>pes_buf = [], pes_len = 0, pes_para = \<lparr>packet = True, payload_only = False, pes_user_data = ()\<rparr>\<rparr>"
      "[[0, 0, 1, 0xE0, 0, 4, 0x80, 0, 1, 0xAA], [0, 0, 1, 0xE0, 0, 1, 7]]"
      "[[0, 0], [1, 0xE0, 0, 4, 0x80, 0, 1], [0xAA, 0, 0, 1, 0xE0, 0, 1, 7]]"]
  by (simp add: AM_PES_Create_def pes_packet_def be16_def)

text \<open>
  in whole-packet mode a header with the length 0xFFFF takes the parser behind its data: when
  fewer than 65541 bytes are buffered the call to \<^verbatim>\<open>memmove\<close> gets a negative size.
\<close>

theorem pes_max_length_overruns:
  assumes "pes_inv ps" "pes_len ps = 0" "\<not> payload_only (pes_para ps)"
    and "data = [0, 0, 1, sid, 0xFF, 0xFF] @ rest" "length rest < 0xffff"
  shows "AM_PES_Decode True data (Some ps) = None"
proof -
  let ?buf = "pes_append data ps"
  have t: "take (length data) ?buf = data"
    using pes_append_take [OF assms(1), of data] assms(2) by (simp add: pes_pending_def)
  have nth: "?buf ! i = data ! i" if "i < length data" for i
    using arg_cong [OF t, of "\<lambda>xs. xs ! i"] that by simp
  have b: "?buf ! 0 = 0" "?buf ! 1 = 0" "?buf ! 2 = 1" "?buf ! 4 = 0xFF" "?buf ! 5 = 0xFF"
    by (subst nth, simp add: assms(4), simp add: assms(4))+
  have "find_start ?buf 0 (length data) = Some 0"
    using b(1-3) by (intro find_start_here) (simp_all add: assms(4) numeral_2_eq_2)
  then have "\<exists>c. pes_iter False ?buf (length data) 0 = Some (Emit (0xffff + 6) c)"
    using b(4,5) by (simp add: pes_iter_def be16_def assms(4) Let_def)
  then obtain c where "pes_loop False ?buf (length data) 0 = Some (0xffff + 6, [c])"
    using assms(5) by (auto simp: pes_loop.simps assms(4))
  then show ?thesis using assms(2,3,5) by (simp add: AM_PES_Decode_def assms(4) Let_def)
qed

theorem pes_max_length_overruns_witness:
  "AM_PES_Decode True [0, 0, 1, 0xE0, 0xFF, 0xFF, 9]
     (Some \<lparr>pes_buf = [], pes_len = 0, pes_para = \<lparr>packet = True, payload_only = False, pes_user_data = ()\<rparr>\<rparr>) = None"
  using pes_max_length_overruns [of "\<lparr>pes_buf = [], pes_len = 0,
      pes_para = \<lparr>packet = True, payload_only = False, pes_user_data = ()\<rparr>\<rparr>"
      "[0, 0, 1, 0xE0, 0xFF, 0xFF, 9]" "0xE0" "[9]"]
  by (simp add: pes_inv_def)

end
