(* ===== verification/Am_Dmx.thy ===== *)
theory Am_Dmx
  imports Adp_Prelude
begin

text \<open>
  The demux layer, \<^verbatim>\<open>dvb/am_adp/am_dmx/am_dmx.c\<close>: a table of devices, each with a driver (a
  structure of function pointers), 32 section/PES filters and an open count, and a data thread
  that polls the driver and calls the callbacks of the filters.

  The driver is a record of functions on the private data \<open>'d\<close> (which also stands for the state
  of the kernel below it); a null function pointer is \<open>None\<close>. A driver function may be undefined
  (result \<open>None\<close>), return an error code, and change the private data; \<^verbatim>\<open>alloc_filter\<close> also
  sets the filter's \<^verbatim>\<open>drv_data\<close>. The drivers of the repository write nothing else of the
  device. \<^verbatim>\<open>poll\<close> and \<^verbatim>\<open>read\<close> are called without a null check. Callback functions and
  user data are addresses.

  \<open>with_openned\<close> is the frame all operations share: find the device, check that it is open, run
  the body under the device's lock and store the device.
\<close>

definition AM_DMX_ERR_INVALID_DEV_NO :: errcode where
  "AM_DMX_ERR_INVALID_DEV_NO = AM_ERROR_BASE AM_MOD_DMX + 1"
definition AM_DMX_ERR_INVALID_ID :: errcode where
  "AM_DMX_ERR_INVALID_ID = AM_ERROR_BASE AM_MOD_DMX + 2"
definition AM_DMX_ERR_NOT_ALLOCATED :: errcode where
  "AM_DMX_ERR_NOT_ALLOCATED = AM_ERROR_BASE AM_MOD_DMX + 4"
definition AM_DMX_ERR_CANNOT_CREATE_THREAD :: errcode where
  "AM_DMX_ERR_CANNOT_CREATE_THREAD = AM_ERROR_BASE AM_MOD_DMX + 5"
definition AM_DMX_ERR_CANNOT_OPEN_DEV :: errcode where
  "AM_DMX_ERR_CANNOT_OPEN_DEV = AM_ERROR_BASE AM_MOD_DMX + 6"
definition AM_DMX_ERR_NOT_SUPPORTED :: errcode where
  "AM_DMX_ERR_NOT_SUPPORTED = AM_ERROR_BASE AM_MOD_DMX + 7"
definition AM_DMX_ERR_NO_FREE_FILTER :: errcode where
  "AM_DMX_ERR_NO_FREE_FILTER = AM_ERROR_BASE AM_MOD_DMX + 8"
definition AM_DMX_ERR_NO_MEM :: errcode where
  "AM_DMX_ERR_NO_MEM = AM_ERROR_BASE AM_MOD_DMX + 9"
definition AM_DMX_ERR_TIMEOUT :: errcode where
  "AM_DMX_ERR_TIMEOUT = AM_ERROR_BASE AM_MOD_DMX + 10"
definition AM_DMX_ERR_SYS :: errcode where
  "AM_DMX_ERR_SYS = AM_ERROR_BASE AM_MOD_DMX + 11"

lemmas dmx_codes [err_code, simp] =
  AM_DMX_ERR_INVALID_DEV_NO_def AM_DMX_ERR_INVALID_ID_def AM_DMX_ERR_NOT_ALLOCATED_def
  AM_DMX_ERR_CANNOT_CREATE_THREAD_def AM_DMX_ERR_CANNOT_OPEN_DEV_def AM_DMX_ERR_NOT_SUPPORTED_def
  AM_DMX_ERR_NO_FREE_FILTER_def AM_DMX_ERR_NO_MEM_def AM_DMX_ERR_TIMEOUT_def AM_DMX_ERR_SYS_def

abbreviation (input) DMX_DEV_COUNT :: nat where "DMX_DEV_COUNT \<equiv> 2"
abbreviation (input) DMX_FILTER_COUNT :: nat where "DMX_FILTER_COUNT \<equiv> 32"
abbreviation (input) DMX_FILTER_SIZE :: nat where "DMX_FILTER_SIZE \<equiv> 16"
abbreviation (input) DMX_BUF_SIZE :: nat where "DMX_BUF_SIZE \<equiv> 4096"

type_synonym ptr = nat

datatype AM_DMX_Source = AM_DMX_SRC_TS0 | AM_DMX_SRC_TS1 | AM_DMX_SRC_TS2 | AM_DMX_SRC_HIU

record AM_DMX_OpenPara =
  use_sw_filter :: bool
  dvr_fifo_no :: int
  dvr_buf_size :: int

record dmx_filter_t =
  flt_filter :: "byte list"
  flt_mask :: "byte list"
  flt_mode :: "byte list"

record dmx_sct_filter_params =
  sct_pid :: int
  sct_filter :: dmx_filter_t

datatype dmx_input = DMX_IN_FRONTEND | DMX_IN_DVR
datatype dmx_output = DMX_OUT_DECODER | DMX_OUT_TAP | DMX_OUT_TS_TAP | DMX_OUT_TSDEMUX_TAP
datatype dmx_pes_type =
    DMX_PES_AUDIO0 | DMX_PES_VIDEO0 | DMX_PES_TELETEXT0 | DMX_PES_SUBTITLE0 | DMX_PES_PCR0
  | DMX_PES_AUDIO1 | DMX_PES_VIDEO1 | DMX_PES_TELETEXT1 | DMX_PES_SUBTITLE1 | DMX_PES_PCR1
  | DMX_PES_AUDIO2 | DMX_PES_VIDEO2 | DMX_PES_TELETEXT2 | DMX_PES_SUBTITLE2 | DMX_PES_PCR2
  | DMX_PES_AUDIO3 | DMX_PES_VIDEO3 | DMX_PES_TELETEXT3 | DMX_PES_SUBTITLE3 | DMX_PES_PCR3
  | DMX_PES_OTHER

record dmx_pes_filter_params =
  pes_pid :: int
  pes_input :: dmx_input
  pes_output :: dmx_output
  pes_type :: dmx_pes_type

record AM_DMX_Filter =
  f_drv_data :: ptr
  f_used :: bool
  f_enable :: bool
  f_id :: nat
  f_cb :: "ptr option"
  f_user_data :: ptr

text \<open>A data callback: function, device, filter, data (\<open>None\<close> is null), length, user data.\<close>

type_synonym dmx_call = "ptr \<times> int \<times> nat \<times> byte list option \<times> nat \<times> ptr"

record 'd AM_DMX_Driver =
  drv_open :: "(int \<Rightarrow> AM_DMX_OpenPara \<Rightarrow> 'd \<Rightarrow> (errcode \<times> 'd) option) option"
  drv_close :: "(int \<Rightarrow> 'd \<Rightarrow> (errcode \<times> 'd) option) option"
  drv_alloc_filter :: "(int \<Rightarrow> AM_DMX_Filter \<Rightarrow> 'd \<Rightarrow> (errcode \<times> ptr \<times> 'd) option) option"
  drv_free_filter :: "(int \<Rightarrow> AM_DMX_Filter \<Rightarrow> 'd \<Rightarrow> (errcode \<times> 'd) option) option"
  drv_set_sec_filter :: "(int \<Rightarrow> AM_DMX_Filter \<Rightarrow> dmx_sct_filter_params \<Rightarrow> 'd \<Rightarrow> (errcode \<times> 'd) option) option"
  drv_set_pes_filter :: "(int \<Rightarrow> AM_DMX_Filter \<Rightarrow> dmx_pes_filter_params \<Rightarrow> 'd \<Rightarrow> (errcode \<times> 'd) option) option"
  drv_enable_filter :: "(int \<Rightarrow> AM_DMX_Filter \<Rightarrow> bool \<Rightarrow> 'd \<Rightarrow> (errcode \<times> 'd) option) option"
  drv_set_buf_size :: "(int \<Rightarrow> AM_DMX_Filter \<Rightarrow> int \<Rightarrow> 'd \<Rightarrow> (errcode \<times> 'd) option) option"
  drv_poll :: "int \<Rightarrow> AM_DMX_Filter list \<Rightarrow> 'd \<Rightarrow> (errcode \<times> 32 word \<times> dmx_call list \<times> 'd) option"
  drv_read :: "int \<Rightarrow> AM_DMX_Filter \<Rightarrow> nat \<Rightarrow> 'd \<Rightarrow> (errcode \<times> byte list \<times> 'd) option"
  drv_set_source :: "(int \<Rightarrow> AM_DMX_Source \<Rightarrow> 'd \<Rightarrow> (errcode \<times> 'd) option) option"

record 'd AM_DMX_Device =
  dev_no :: int
  drv :: "'d AM_DMX_Driver"
  drv_data :: 'd
  filters :: "AM_DMX_Filter list"
  open_count :: int
  enable_thread :: bool
  run_cb :: bool
  src :: AM_DMX_Source

type_synonym 'd dmx_devices = "'d AM_DMX_Device list"

subsection \<open>Device and filter lookup\<close>

definition dmx_get_dev :: "int \<Rightarrow> errcode + nat" where
  "dmx_get_dev n = (if n < 0 \<or> n \<ge> int DMX_DEV_COUNT then Inl AM_DMX_ERR_INVALID_DEV_NO else Inr (nat n))"

definition dmx_get_openned_dev :: "int \<Rightarrow> 'd dmx_devices \<Rightarrow> errcode + nat" where
  "dmx_get_openned_dev n devs =
     (case dmx_get_dev n of
        Inl e \<Rightarrow> Inl e
      | Inr i \<Rightarrow> if open_count (devs ! i) \<le> 0 then Inl AM_DMX_ERR_INVALID_DEV_NO else Inr i)"

definition dmx_get_used_filter :: "'d AM_DMX_Device \<Rightarrow> int \<Rightarrow> errcode + nat" where
  "dmx_get_used_filter dev filter_id =
     (if filter_id < 0 \<or> filter_id \<ge> int DMX_FILTER_COUNT then Inl AM_DMX_ERR_INVALID_ID
      else if \<not> f_used (filters dev ! nat filter_id) then Inl AM_DMX_ERR_NOT_ALLOCATED
      else Inr (nat filter_id))"

text \<open>The first argument makes the result of a call that finds no open device from its code.\<close>

definition with_openned :: "(errcode \<Rightarrow> 'r) \<Rightarrow> int \<Rightarrow> ('d AM_DMX_Device \<Rightarrow> ('r \<times> 'd AM_DMX_Device) option)
    \<Rightarrow> 'd dmx_devices \<Rightarrow> ('r \<times> 'd dmx_devices) option" where
  "with_openned fail n body devs =
     (case dmx_get_openned_dev n devs of
        Inl e \<Rightarrow> Some (fail e, devs)
      | Inr i \<Rightarrow>
          (case body (devs ! i) of
             None \<Rightarrow> None
           | Some (r, dev) \<Rightarrow> Some (r, devs[i := dev])))"

definition upd_filter :: "nat \<Rightarrow> (AM_DMX_Filter \<Rightarrow> AM_DMX_Filter) \<Rightarrow> 'd AM_DMX_Device \<Rightarrow> 'd AM_DMX_Device" where
  "upd_filter i g dev = dev\<lparr>filters := (filters dev)[i := g (filters dev ! i)]\<rparr>"

text \<open>\<^verbatim>\<open>if(dev->drv->f) ret = dev->drv->f(...)\<close>, with \<^verbatim>\<open>ret\<close> 0 before.\<close>

definition drv_call :: "'f option \<Rightarrow> ('f \<Rightarrow> 'd \<Rightarrow> (errcode \<times> 'd) option) \<Rightarrow> 'd AM_DMX_Device
    \<Rightarrow> (errcode \<times> 'd AM_DMX_Device) option" where
  "drv_call f app dev =
     (case f of
        None \<Rightarrow> Some (AM_SUCCESS, dev)
      | Some g \<Rightarrow> map_option (\<lambda>(r, d). (r, dev\<lparr>drv_data := d\<rparr>)) (app g (drv_data dev)))"

subsection \<open>Stopping and freeing a filter\<close>

definition dmx_stop_filter :: "nat \<Rightarrow> 'd AM_DMX_Device \<Rightarrow> (errcode \<times> 'd AM_DMX_Device) option" where
  "dmx_stop_filter i dev =
     (if \<not> f_used (filters dev ! i) \<or> \<not> f_enable (filters dev ! i) then Some (AM_SUCCESS, dev)
      else (case drv_call (drv_enable_filter (drv dev))
                   (\<lambda>g. g (dev_no dev) (filters dev ! i) False) dev of
              None \<Rightarrow> None
            | Some (ret, dev') \<Rightarrow>
                Some (ret, if ret \<ge> 0 then upd_filter i (\<lambda>f. f\<lparr>f_enable := False\<rparr>) dev' else dev')))"

definition dmx_free_filter :: "nat \<Rightarrow> 'd AM_DMX_Device \<Rightarrow> (errcode \<times> 'd AM_DMX_Device) option" where
  "dmx_free_filter i dev =
     (if \<not> f_used (filters dev ! i) then Some (AM_SUCCESS, dev)
      else (case dmx_stop_filter i dev of
              None \<Rightarrow> None
            | Some (ret, dev1) \<Rightarrow>
                if ret \<noteq> AM_SUCCESS then Some (ret, dev1)
                else (case drv_call (drv_free_filter (drv dev1))
                             (\<lambda>g. g (dev_no dev1) (filters dev1 ! i)) dev1 of
                        None \<Rightarrow> None
                      | Some (ret, dev2) \<Rightarrow>
                          Some (ret, if ret = AM_SUCCESS
                                     then upd_filter i (\<lambda>f. f\<lparr>f_used := False\<rparr>) dev2 else dev2))))"

text \<open>The loop of \<^verbatim>\<open>AM_DMX_Close\<close> over the filters; the return codes are ignored.\<close>

fun dmx_free_filters :: "nat list \<Rightarrow> 'd AM_DMX_Device \<Rightarrow> 'd AM_DMX_Device option" where
  "dmx_free_filters [] dev = Some dev"
| "dmx_free_filters (i # is) dev =
     (case dmx_free_filter i dev of
        None \<Rightarrow> None
      | Some (_, dev') \<Rightarrow> dmx_free_filters is dev')"

subsection \<open>Opening and closing\<close>

text \<open>\<open>hw\<close> and \<open>sw\<close> are the two drivers, \<open>thr\<close> says whether \<^verbatim>\<open>pthread_create\<close> succeeds.\<close>

definition dmx_open_dev :: "'d AM_DMX_Driver \<Rightarrow> 'd AM_DMX_Driver \<Rightarrow> bool \<Rightarrow> int \<Rightarrow> AM_DMX_OpenPara
    \<Rightarrow> 'd AM_DMX_Device \<Rightarrow> (errcode \<times> 'd AM_DMX_Device) option" where
  "dmx_open_dev hw sw thr n para dev =
     (if open_count dev > 0 then Some (AM_SUCCESS, dev\<lparr>open_count := open_count dev + 1\<rparr>)
      else (let dev1 = dev\<lparr>dev_no := n, drv := (if use_sw_filter para then sw else hw)\<rparr>
            in (case drv_call (drv_open (drv dev1)) (\<lambda>g. g n para) dev1 of
                  None \<Rightarrow> None
                | Some (ret, dev2) \<Rightarrow>
                    if ret \<noteq> AM_SUCCESS then Some (ret, dev2)
                    else (let dev3 = dev2\<lparr>enable_thread := True, run_cb := False\<rparr>
                          in if thr then Some (AM_SUCCESS, dev3\<lparr>open_count := 1\<rparr>)
                             else Some (AM_DMX_ERR_CANNOT_CREATE_THREAD, dev3)))))"

definition AM_DMX_Open :: "'d AM_DMX_Driver \<Rightarrow> 'd AM_DMX_Driver \<Rightarrow> bool \<Rightarrow> int \<Rightarrow> AM_DMX_OpenPara
    \<Rightarrow> 'd dmx_devices \<Rightarrow> (errcode \<times> 'd dmx_devices) option" where
  "AM_DMX_Open hw sw thr n para devs =
     (case dmx_get_dev n of
        Inl e \<Rightarrow> Some (e, devs)
      | Inr i \<Rightarrow>
          (case dmx_open_dev hw sw thr n para (devs ! i) of
             None \<Rightarrow> None
           | Some (r, dev) \<Rightarrow> Some (r, devs[i := dev])))"

definition dmx_close_dev :: "'d AM_DMX_Device \<Rightarrow> (errcode \<times> 'd AM_DMX_Device) option" where
  "dmx_close_dev dev =
     (if open_count dev = 1
      then (case dmx_free_filters [0 ..< DMX_FILTER_COUNT] (dev\<lparr>enable_thread := False\<rparr>) of
              None \<Rightarrow> None
            | Some dev1 \<Rightarrow>
                (case drv_call (drv_close (drv dev1)) (\<lambda>g. g (dev_no dev1)) dev1 of
                   None \<Rightarrow> None
                 | Some (_, dev2) \<Rightarrow> Some (AM_SUCCESS, dev2\<lparr>open_count := open_count dev2 - 1\<rparr>)))
      else Some (AM_SUCCESS, dev\<lparr>open_count := open_count dev - 1\<rparr>))"

definition AM_DMX_Close :: "int \<Rightarrow> 'd dmx_devices \<Rightarrow> (errcode \<times> 'd dmx_devices) option" where
  "AM_DMX_Close n = with_openned (\<lambda>e. e) n dmx_close_dev"

subsection \<open>Filters\<close>

text \<open>The handle is stored only on success.\<close>

definition dmx_allocate_filter :: "'d AM_DMX_Device \<Rightarrow> ((errcode \<times> nat option) \<times> 'd AM_DMX_Device) option" where
  "dmx_allocate_filter dev =
     (let fid = first_idx (\<lambda>f. \<not> f_used f) (filters dev)
      in if fid \<ge> DMX_FILTER_COUNT then Some ((AM_DMX_ERR_NO_FREE_FILTER, None), dev)
         else (let dev1 = upd_filter fid (\<lambda>f. f\<lparr>f_id := fid\<rparr>) dev
               in (case drv_alloc_filter (drv dev1) of
                     None \<Rightarrow> Some ((AM_SUCCESS, Some fid), upd_filter fid (\<lambda>f. f\<lparr>f_used := True\<rparr>) dev1)
                   | Some g \<Rightarrow>
                       (case g (dev_no dev1) (filters dev1 ! fid) (drv_data dev1) of
                          None \<Rightarrow> None
                        | Some (ret, p, d) \<Rightarrow>
                            (let dev2 = upd_filter fid (\<lambda>f. f\<lparr>f_drv_data := p\<rparr>) (dev1\<lparr>drv_data := d\<rparr>)
                             in if ret = AM_SUCCESS
                                then Some ((ret, Some fid), upd_filter fid (\<lambda>f. f\<lparr>f_used := True\<rparr>) dev2)
                                else Some ((ret, None), dev2))))))"

definition AM_DMX_AllocateFilter :: "int \<Rightarrow> 'd dmx_devices \<Rightarrow> ((errcode \<times> nat option) \<times> 'd dmx_devices) option" where
  "AM_DMX_AllocateFilter n = with_openned (\<lambda>e. (e, None)) n dmx_allocate_filter"

text \<open>The part that \<^verbatim>\<open>AM_DMX_SetSecFilter\<close> and \<^verbatim>\<open>AM_DMX_SetPesFilter\<close> share.\<close>

definition dmx_set_filter :: "(int \<Rightarrow> AM_DMX_Filter \<Rightarrow> 'p \<Rightarrow> 'd \<Rightarrow> (errcode \<times> 'd) option) option \<Rightarrow> int \<Rightarrow> 'p
    \<Rightarrow> 'd AM_DMX_Device \<Rightarrow> (errcode \<times> 'd AM_DMX_Device) option" where
  "dmx_set_filter setter fhandle params dev =
     (case setter of
        None \<Rightarrow> Some (AM_DMX_ERR_NOT_SUPPORTED, dev)
      | Some g \<Rightarrow>
          (case dmx_get_used_filter dev fhandle of
             Inl e \<Rightarrow> Some (e, dev)
           | Inr i \<Rightarrow>
               (case dmx_stop_filter i dev of
                  None \<Rightarrow> None
                | Some (ret, dev1) \<Rightarrow>
                    if ret \<noteq> AM_SUCCESS then Some (ret, dev1)
                    else drv_call (Some g) (\<lambda>g. g (dev_no dev1) (filters dev1 ! i) params) dev1)))"

definition AM_DMX_SetSecFilter :: "int \<Rightarrow> int \<Rightarrow> dmx_sct_filter_params \<Rightarrow> 'd dmx_devices
    \<Rightarrow> (errcode \<times> 'd dmx_devices) option" where
  "AM_DMX_SetSecFilter n fhandle params =
     with_openned (\<lambda>e. e) n (\<lambda>dev. dmx_set_filter (drv_set_sec_filter (drv dev)) fhandle params dev)"

definition AM_DMX_SetPesFilter :: "int \<Rightarrow> int \<Rightarrow> dmx_pes_filter_params \<Rightarrow> 'd dmx_devices
    \<Rightarrow> (errcode \<times> 'd dmx_devices) option" where
  "AM_DMX_SetPesFilter n fhandle params =
     with_openned (\<lambda>e. e) n (\<lambda>dev. dmx_set_filter (drv_set_pes_filter (drv dev)) fhandle params dev)"

definition dmx_free_handle :: "int \<Rightarrow> 'd AM_DMX_Device \<Rightarrow> (errcode \<times> 'd AM_DMX_Device) option" where
  "dmx_free_handle fhandle dev =
     (case dmx_get_used_filter dev fhandle of
        Inl e \<Rightarrow> Some (e, dev)
      | Inr i \<Rightarrow> dmx_free_filter i dev)"

definition AM_DMX_FreeFilter :: "int \<Rightarrow> int \<Rightarrow> 'd dmx_devices \<Rightarrow> (errcode \<times> 'd dmx_devices) option" where
  "AM_DMX_FreeFilter n fhandle = with_openned (\<lambda>e. e) n (dmx_free_handle fhandle)"

text \<open>
  \<^verbatim>\<open>AM_DMX_StartFilter\<close> reads \<^verbatim>\<open>filter->enable\<close> before it looks at the result of the
  lookup; after a failed lookup \<^verbatim>\<open>filter\<close> is still null.
\<close>

definition dmx_start_handle :: "int \<Rightarrow> 'd AM_DMX_Device \<Rightarrow> (errcode \<times> 'd AM_DMX_Device) option" where
  "dmx_start_handle fhandle dev =
     (case dmx_get_used_filter dev fhandle of
        Inl e \<Rightarrow> None
      | Inr i \<Rightarrow>
          if f_enable (filters dev ! i) then Some (AM_SUCCESS, dev)
          else (case drv_call (drv_enable_filter (drv dev))
                       (\<lambda>g. g (dev_no dev) (filters dev ! i) True) dev of
                  None \<Rightarrow> None
                | Some (ret, dev1) \<Rightarrow>
                    Some (ret, if ret = AM_SUCCESS
                               then upd_filter i (\<lambda>f. f\<lparr>f_enable := True\<rparr>) dev1 else dev1)))"

definition AM_DMX_StartFilter :: "int \<Rightarrow> int \<Rightarrow> 'd dmx_devices \<Rightarrow> (errcode \<times> 'd dmx_devices) option" where
  "AM_DMX_StartFilter n fhandle = with_openned (\<lambda>e. e) n (dmx_start_handle fhandle)"

definition dmx_stop_handle :: "int \<Rightarrow> 'd AM_DMX_Device \<Rightarrow> (errcode \<times> 'd AM_DMX_Device) option" where
  "dmx_stop_handle fhandle dev =
     (case dmx_get_used_filter dev fhandle of
        Inl e \<Rightarrow> Some (e, dev)
      | Inr i \<Rightarrow> if f_enable (filters dev ! i) then dmx_stop_filter i dev else Some (AM_SUCCESS, dev))"

definition AM_DMX_StopFilter :: "int \<Rightarrow> int \<Rightarrow> 'd dmx_devices \<Rightarrow> (errcode \<times> 'd dmx_devices) option" where
  "AM_DMX_StopFilter n fhandle = with_openned (\<lambda>e. e) n (dmx_stop_handle fhandle)"

definition dmx_set_buffer_size :: "int \<Rightarrow> int \<Rightarrow> 'd AM_DMX_Device \<Rightarrow> (errcode \<times> 'd AM_DMX_Device) option" where
  "dmx_set_buffer_size fhandle sz dev =
     (case drv_set_buf_size (drv dev) of
        None \<Rightarrow> Some (AM_DMX_ERR_NOT_SUPPORTED, dev)
      | Some g \<Rightarrow>
          (case dmx_get_used_filter dev fhandle of
             Inl e \<Rightarrow> Some (e, dev)
           | Inr i \<Rightarrow> drv_call (Some g) (\<lambda>g. g (dev_no dev) (filters dev ! i) sz) dev))"

definition AM_DMX_SetBufferSize :: "int \<Rightarrow> int \<Rightarrow> int \<Rightarrow> 'd dmx_devices \<Rightarrow> (errcode \<times> 'd dmx_devices) option" where
  "AM_DMX_SetBufferSize n fhandle sz = with_openned (\<lambda>e. e) n (dmx_set_buffer_size fhandle sz)"

definition AM_DMX_GetCallback :: "int \<Rightarrow> int \<Rightarrow> 'd dmx_devices
    \<Rightarrow> ((errcode \<times> (ptr option \<times> ptr) option) \<times> 'd dmx_devices) option" where
  "AM_DMX_GetCallback n fhandle =
     with_openned (\<lambda>e. (e, None)) n
       (\<lambda>dev. case dmx_get_used_filter dev fhandle of
                Inl e \<Rightarrow> Some ((e, None), dev)
              | Inr i \<Rightarrow> Some ((AM_SUCCESS, Some (f_cb (filters dev ! i), f_user_data (filters dev ! i))), dev))"

definition dmx_set_callback :: "int \<Rightarrow> ptr option \<Rightarrow> ptr \<Rightarrow> 'd AM_DMX_Device \<Rightarrow> (errcode \<times> 'd AM_DMX_Device) option" where
  "dmx_set_callback fhandle cb data dev =
     (case dmx_get_used_filter dev fhandle of
        Inl e \<Rightarrow> Some (e, dev)
      | Inr i \<Rightarrow> Some (AM_SUCCESS, upd_filter i (\<lambda>f. f\<lparr>f_cb := cb, f_user_data := data\<rparr>) dev))"

definition AM_DMX_SetCallback :: "int \<Rightarrow> int \<Rightarrow> ptr option \<Rightarrow> ptr \<Rightarrow> 'd dmx_devices
    \<Rightarrow> (errcode \<times> 'd dmx_devices) option" where
  "AM_DMX_SetCallback n fhandle cb data = with_openned (\<lambda>e. e) n (dmx_set_callback fhandle cb data)"

definition dmx_set_source :: "AM_DMX_Source \<Rightarrow> 'd AM_DMX_Device \<Rightarrow> (errcode \<times> 'd AM_DMX_Device) option" where
  "dmx_set_source s dev =
     (case drv_set_source (drv dev) of
        None \<Rightarrow> Some (AM_DMX_ERR_NOT_SUPPORTED, dev)
      | Some g \<Rightarrow>
          (case drv_call (Some g) (\<lambda>g. g (dev_no dev) s) dev of
             None \<Rightarrow> None
           | Some (ret, dev1) \<Rightarrow> Some (ret, if ret = AM_SUCCESS then dev1\<lparr>src := s\<rparr> else dev1)))"

definition AM_DMX_SetSource :: "int \<Rightarrow> AM_DMX_Source \<Rightarrow> 'd dmx_devices \<Rightarrow> (errcode \<times> 'd dmx_devices) option" where
  "AM_DMX_SetSource n s = with_openned (\<lambda>e. e) n (dmx_set_source s)"

text \<open>
  \<^verbatim>\<open>AM_DMX_Sync\<close> waits for the callbacks, unless a callback calls it (\<open>self\<close>). \<open>None\<close> is: it
  still waits. (\<^verbatim>\<open>dmx_wait_cb\<close> is empty, as \<^verbatim>\<open>DMX_WAIT_CB\<close> is not defined.)
\<close>

definition AM_DMX_Sync :: "bool \<Rightarrow> int \<Rightarrow> 'd dmx_devices \<Rightarrow> (errcode \<times> 'd dmx_devices) option" where
  "AM_DMX_Sync self n =
     with_openned (\<lambda>e. e) n (\<lambda>dev. if \<not> self \<and> run_cb dev then None else Some (AM_SUCCESS, dev))"

subsection \<open>The data thread\<close>

text \<open>
  What one iteration does with one filter of the mask: read the section under the lock, then
  call the callback. A timeout of the driver is reported with a null pointer.
\<close>

definition dmx_thread_filter :: "32 word \<Rightarrow> nat \<Rightarrow> 'd AM_DMX_Device \<Rightarrow> (dmx_call list \<times> 'd AM_DMX_Device) option" where
  "dmx_thread_filter fmask i dev =
     (let f = filters dev ! i
      in if \<not> bit fmask i \<or> \<not> f_enable f \<or> \<not> f_used f then Some ([], dev)
         else (case drv_read (drv dev) (dev_no dev) f DMX_BUF_SIZE (drv_data dev) of
                 None \<Rightarrow> None
               | Some (ret, sec, d) \<Rightarrow>
                   (let dev1 = dev\<lparr>drv_data := d\<rparr>;
                        call = (\<lambda>data len. case f_cb f of
                                  None \<Rightarrow> []
                                | Some cb \<Rightarrow> [(cb, dev_no dev, i, data, len, f_user_data f)])
                    in if ret = AM_DMX_ERR_TIMEOUT then Some (call None 0, dev1)
                       else if ret \<noteq> AM_SUCCESS then Some ([], dev1)
                       else Some (call (Some sec) (length sec), dev1))))"

fun dmx_thread_filters :: "32 word \<Rightarrow> nat list \<Rightarrow> 'd AM_DMX_Device \<Rightarrow> (dmx_call list \<times> 'd AM_DMX_Device) option" where
  "dmx_thread_filters fmask [] dev = Some ([], dev)"
| "dmx_thread_filters fmask (i # is) dev =
     (case dmx_thread_filter fmask i dev of
        None \<Rightarrow> None
      | Some (cs, dev1) \<Rightarrow>
          (case dmx_thread_filters fmask is dev1 of
             None \<Rightarrow> None
           | Some (cs', dev2) \<Rightarrow> Some (cs @ cs', dev2)))"

text \<open>
  One iteration of the loop of \<^verbatim>\<open>dmx_data_thread\<close>. The flag \<^verbatim>\<open>DMX_FL_RUN_CB\<close> is set
  while the callbacks run and clear again at the end.
\<close>

definition dmx_data_thread :: "'d AM_DMX_Device \<Rightarrow> (dmx_call list \<times> 'd AM_DMX_Device) option" where
  "dmx_data_thread dev =
     (if \<not> enable_thread dev then Some ([], dev)
      else (case drv_poll (drv dev) (dev_no dev) (filters dev) (drv_data dev) of
              None \<Rightarrow> None
            | Some (ret, fmask, polled, d) \<Rightarrow>
                (let dev1 = dev\<lparr>drv_data := d\<rparr>
                 in if ret \<noteq> AM_SUCCESS \<or> fmask = 0 then Some (polled, dev1)
                    else (case dmx_thread_filters fmask [0 ..< DMX_FILTER_COUNT] (dev1\<lparr>run_cb := True\<rparr>) of
                            None \<Rightarrow> None
                          | Some (cs, dev2) \<Rightarrow> Some (polled @ cs, dev2\<lparr>run_cb := False\<rparr>)))))"

subsection \<open>The scramble status\<close>

text \<open>
  \<^verbatim>\<open>AM_DMX_GetScrambleStatus\<close> reads the kernel's flags up to ten times until they have been
  the same three times in a row. \<open>rds i\<close> is what the read of iteration \<open>i\<close> yields, \<open>None\<close>
  when it fails. The arguments of the loop are the iteration, the last status and the count.
\<close>

function scramble_loop :: "(nat \<Rightarrow> (bool \<times> bool) option) \<Rightarrow> nat \<Rightarrow> bool \<times> bool \<Rightarrow> nat \<Rightarrow> errcode \<times> (bool \<times> bool)" where
  "scramble_loop rds i prev n =
     (if i < 10
      then (case rds i of
              None \<Rightarrow> (AM_FAILURE, prev)
            | Some st \<Rightarrow>
                if st \<noteq> prev then scramble_loop rds (Suc i) st 0
                else if n + 1 \<ge> 3 then (AM_SUCCESS, st)
                else scramble_loop rds (Suc i) st (n + 1))
      else (AM_FAILURE, prev))"
  by pat_completeness auto
termination
  by (relation "measure (\<lambda>(rds, i, prev, n). 10 - i)") auto

declare scramble_loop.simps [simp del]

definition AM_DMX_GetScrambleStatus :: "(nat \<Rightarrow> (bool \<times> bool) option) \<Rightarrow> errcode \<times> (bool \<times> bool)" where
  "AM_DMX_GetScrambleStatus rds = scramble_loop rds 0 (False, False) 0"

subsection \<open>The invariant of a device, whatever its driver does\<close>

definition filter_ok :: "nat \<Rightarrow> AM_DMX_Filter \<Rightarrow> bool" where
  "filter_ok i f \<longleftrightarrow> (f_enable f \<longrightarrow> f_used f) \<and> (f_used f \<longrightarrow> f_id f = i)"

definition tab_ok :: "AM_DMX_Filter list \<Rightarrow> bool" where
  "tab_ok fs \<longleftrightarrow> length fs = DMX_FILTER_COUNT \<and> (\<forall>i < DMX_FILTER_COUNT. filter_ok i (fs ! i))"

definition dmx_dev_inv :: "'d AM_DMX_Device \<Rightarrow> bool" where
  "dmx_dev_inv dev \<longleftrightarrow> tab_ok (filters dev) \<and> 0 \<le> open_count dev"

named_theorems dmx_defs \<open>bodies of the demux operations\<close>

lemmas [dmx_defs] = drv_call_def dmx_stop_filter_def dmx_free_filter_def dmx_set_filter_def
  dmx_free_handle_def dmx_start_handle_def dmx_stop_handle_def dmx_set_buffer_size_def
  dmx_set_callback_def dmx_set_source_def dmx_allocate_filter_def

lemma upd_filter_simps [simp]:
  "filters (upd_filter i g dev) = (filters dev)[i := g (filters dev ! i)]"
  "open_count (upd_filter i g dev) = open_count dev"
  "drv (upd_filter i g dev) = drv dev"
  "drv_data (upd_filter i g dev) = drv_data dev"
  "dev_no (upd_filter i g dev) = dev_no dev"
  "enable_thread (upd_filter i g dev) = enable_thread dev"
  "run_cb (upd_filter i g dev) = run_cb dev"
  "src (upd_filter i g dev) = src dev"
  by (simp_all add: upd_filter_def)

lemma tab_okD: "tab_ok fs \<Longrightarrow> length fs = 32" "tab_ok fs \<Longrightarrow> i < 32 \<Longrightarrow> filter_ok i (fs ! i)"
  by (simp_all add: tab_ok_def)

lemma tab_ok_update: "tab_ok fs \<Longrightarrow> filter_ok i f \<Longrightarrow> tab_ok (fs[i := f])"
  by (auto simp: tab_ok_def nth_update_if)

lemma dmx_inv_update: "dmx_dev_inv dev \<Longrightarrow> filter_ok i (g (filters dev ! i)) \<Longrightarrow> dmx_dev_inv (upd_filter i g dev)"
  by (simp add: dmx_dev_inv_def tab_ok_update)

lemma dmx_inv_frame [simp]:
  "dmx_dev_inv (dev\<lparr>drv_data := d\<rparr>) = dmx_dev_inv dev"
  "dmx_dev_inv (dev\<lparr>enable_thread := b\<rparr>) = dmx_dev_inv dev"
  "dmx_dev_inv (dev\<lparr>run_cb := b\<rparr>) = dmx_dev_inv dev"
  "dmx_dev_inv (dev\<lparr>src := s\<rparr>) = dmx_dev_inv dev"
  "dmx_dev_inv (dev\<lparr>dev_no := n\<rparr>) = dmx_dev_inv dev"
  "dmx_dev_inv (dev\<lparr>drv := D\<rparr>) = dmx_dev_inv dev"
  by (simp_all add: dmx_dev_inv_def)

lemma used_filter_iff:
  "dmx_get_used_filter dev h = Inr i \<longleftrightarrow> h = int i \<and> i < 32 \<and> f_used (filters dev ! i)"
  by (auto simp: dmx_get_used_filter_def)

lemma used_filter_Inl:
  "dmx_get_used_filter dev h = Inl e \<Longrightarrow> e = AM_DMX_ERR_INVALID_ID \<or> e = AM_DMX_ERR_NOT_ALLOCATED"
  by (auto simp: dmx_get_used_filter_def split: if_splits)

lemma drv_call_cases:
  assumes "drv_call f app dev = Some (r, dev')"
  obtains d where "dev' = dev\<lparr>drv_data := d\<rparr>"
proof (cases f)
  case None
  with assms have "dev' = dev\<lparr>drv_data := drv_data dev\<rparr>" by (simp add: drv_call_def)
  then show thesis by (rule that)
qed (use assms that in \<open>auto simp: drv_call_def\<close>)

lemma dmx_inv_filter: "dmx_dev_inv dev \<Longrightarrow> i < 32 \<Longrightarrow> filter_ok i (filters dev ! i)"
  by (simp add: dmx_dev_inv_def tab_okD)

lemma stop_filter_shape:
  assumes "dmx_stop_filter i dev = Some (r, dev')"
  obtains d where "dev' = dev\<lparr>drv_data := d\<rparr> \<or> dev' = upd_filter i (\<lambda>f. f\<lparr>f_enable := False\<rparr>) (dev\<lparr>drv_data := d\<rparr>)"
    "r = AM_SUCCESS \<longrightarrow> i < length (filters dev) \<longrightarrow> filter_ok i (filters dev ! i) \<longrightarrow> \<not> f_enable (filters dev' ! i)"
proof (cases "f_used (filters dev ! i) \<and> f_enable (filters dev ! i)")
  case False
  with assms have "r = 0" "dev' = dev\<lparr>drv_data := drv_data dev\<rparr>" by (auto simp: dmx_stop_filter_def)
  with False show thesis by (intro that [of "drv_data dev"]) (auto simp: filter_ok_def)
next
  case True
  with assms obtain dev1 where c: "drv_call (drv_enable_filter (drv dev))
      (\<lambda>g. g (dev_no dev) (filters dev ! i) False) dev = Some (r, dev1)"
    and d: "dev' = (if r \<ge> 0 then upd_filter i (\<lambda>f. f\<lparr>f_enable := False\<rparr>) dev1 else dev1)"
    by (auto simp: dmx_stop_filter_def split: option.splits prod.splits)
  from c obtain d0 where "dev1 = dev\<lparr>drv_data := d0\<rparr>" by (rule drv_call_cases)
  with d show thesis by (intro that [of d0]) auto
qed

lemma stop_filter_inv:
  assumes "dmx_dev_inv dev" "i < 32" "dmx_stop_filter i dev = Some (r, dev')"
  shows "dmx_dev_inv dev'"
  using assms(3)
  by (rule stop_filter_shape)
     (use assms(1,2) dmx_inv_filter [OF assms(1,2)] in \<open>auto intro!: dmx_inv_update simp: filter_ok_def\<close>)

text \<open>What an operation leaves alone: the driver, the number and the open count.\<close>

definition same_frame :: "'d AM_DMX_Device \<Rightarrow> 'd AM_DMX_Device \<Rightarrow> bool" where
  "same_frame dev dev' \<longleftrightarrow> drv dev' = drv dev \<and> dev_no dev' = dev_no dev \<and> open_count dev' = open_count dev"

lemma same_frame_refl [simp]: "same_frame dev dev"
  by (simp add: same_frame_def)

lemma same_frame_trans: "same_frame a b \<Longrightarrow> same_frame b c \<Longrightarrow> same_frame a c"
  by (simp add: same_frame_def)

lemma stop_filter_frame: "dmx_stop_filter i dev = Some (r, dev') \<Longrightarrow> same_frame dev dev'"
  by (erule stop_filter_shape) (auto simp: same_frame_def)

lemma free_filter_inv:
  assumes "dmx_dev_inv dev" "i < 32" "dmx_free_filter i dev = Some (r, dev')"
  shows "dmx_dev_inv dev' \<and> same_frame dev dev' \<and>
    (\<forall>j. j \<noteq> i \<longrightarrow> f_used (filters dev' ! j) = f_used (filters dev ! j))"
proof (cases "f_used (filters dev ! i)")
  case True
  with assms(3) obtain r1 dev1 where stop: "dmx_stop_filter i dev = Some (r1, dev1)"
    by (auto simp: dmx_free_filter_def split: option.splits)
  note inv1 = stop_filter_inv [OF assms(1,2) stop] and frame1 = stop_filter_frame [OF stop]
  have off: "r1 = 0 \<Longrightarrow> \<not> f_enable (filters dev1 ! i)"
    and oth: "\<And>j. f_used (filters dev1 ! j) = f_used (filters dev ! j)"
    using stop assms(1,2) dmx_inv_filter [OF assms(1,2)]
    by (auto elim!: stop_filter_shape simp: dmx_dev_inv_def tab_ok_def nth_update_if split: if_splits)
  show ?thesis
  proof (cases "r1 = 0")
    case False
    with True stop assms(3) inv1 frame1 oth show ?thesis by (simp add: dmx_free_filter_def)
  next
    case r1: True
    with True stop assms(3) obtain dev2 where
      c: "drv_call (drv_free_filter (drv dev1)) (\<lambda>g. g (dev_no dev1) (filters dev1 ! i)) dev1 = Some (r, dev2)"
      and d: "dev' = (if r = 0 then upd_filter i (\<lambda>f. f\<lparr>f_used := False\<rparr>) dev2 else dev2)"
      by (auto simp: dmx_free_filter_def split: option.splits prod.splits)
    from c obtain d0 where dev2: "dev2 = dev1\<lparr>drv_data := d0\<rparr>" by (rule drv_call_cases)
    have "dmx_dev_inv dev'"
      using d dev2 inv1 off [OF r1] by (auto intro!: dmx_inv_update simp: filter_ok_def)
    with d dev2 frame1 oth show ?thesis by (auto simp: same_frame_def)
  qed
qed (use assms in \<open>auto simp: dmx_free_filter_def\<close>)

lemma free_filters_inv:
  "dmx_dev_inv dev \<Longrightarrow> (\<forall>i \<in> set is. i < 32) \<Longrightarrow> dmx_free_filters is dev = Some dev' \<Longrightarrow>
     dmx_dev_inv dev' \<and> same_frame dev dev'"
proof (induction "is" arbitrary: dev)
  case (Cons i "is")
  then obtain r dev1 where f: "dmx_free_filter i dev = Some (r, dev1)" "dmx_free_filters is dev1 = Some dev'"
    by (auto split: option.splits)
  with Cons.prems have "dmx_dev_inv dev1 \<and> same_frame dev dev1" using free_filter_inv by (metis list.set_intros(1))
  with Cons.IH [of dev1] Cons.prems f show ?case by (auto intro: same_frame_trans)
qed simp

lemma start_handle_inv:
  assumes "dmx_dev_inv dev" "dmx_start_handle h dev = Some (r, dev')"
  shows "dmx_dev_inv dev' \<and> same_frame dev dev'"
proof -
  from assms(2) obtain i where i: "i < 32" "f_used (filters dev ! i)"
    and or: "dev' = dev \<or> (\<exists>dev1. drv_call (drv_enable_filter (drv dev))
          (\<lambda>g. g (dev_no dev) (filters dev ! i) True) dev = Some (r, dev1) \<and>
        dev' = (if r = 0 then upd_filter i (\<lambda>f. f\<lparr>f_enable := True\<rparr>) dev1 else dev1))"
    by (auto simp: dmx_start_handle_def used_filter_iff split: sum.splits option.splits if_splits prod.splits)
  from or show ?thesis
  proof
    assume "\<exists>dev1. drv_call (drv_enable_filter (drv dev))
          (\<lambda>g. g (dev_no dev) (filters dev ! i) True) dev = Some (r, dev1) \<and>
        dev' = (if r = 0 then upd_filter i (\<lambda>f. f\<lparr>f_enable := True\<rparr>) dev1 else dev1)"
    then obtain d where "dev' = (if r = 0 then upd_filter i (\<lambda>f. f\<lparr>f_enable := True\<rparr>) (dev\<lparr>drv_data := d\<rparr>)
        else dev\<lparr>drv_data := d\<rparr>)"
      by (auto elim: drv_call_cases)
    then show ?thesis
      using assms(1) i dmx_inv_filter [OF assms(1) i(1)]
      by (auto intro!: dmx_inv_update simp: filter_ok_def same_frame_def)
  qed (use assms(1) in simp)
qed

lemma stop_handle_inv:
  assumes "dmx_dev_inv dev" "dmx_stop_handle h dev = Some (r, dev')"
  shows "dmx_dev_inv dev' \<and> same_frame dev dev'"
  using assms stop_filter_inv stop_filter_frame
  by (fastforce simp: dmx_stop_handle_def used_filter_iff split: sum.splits if_splits)

lemma free_handle_inv:
  assumes "dmx_dev_inv dev" "dmx_free_handle h dev = Some (r, dev')"
  shows "dmx_dev_inv dev' \<and> same_frame dev dev'"
  using assms free_filter_inv
  by (fastforce simp: dmx_free_handle_def used_filter_iff split: sum.splits)

lemma set_filter_inv:
  assumes "dmx_dev_inv dev" "dmx_set_filter s h p dev = Some (r, dev')"
  shows "dmx_dev_inv dev' \<and> same_frame dev dev'"
proof (cases "s = None \<or> (\<exists>e. dmx_get_used_filter dev h = Inl e)")
  case True
  with assms show ?thesis by (auto simp: dmx_set_filter_def split: option.splits)
next
  case False
  then obtain g i where g: "s = Some g" and u: "dmx_get_used_filter dev h = Inr i"
    by (cases "dmx_get_used_filter dev h") auto
  then have i: "i < 32" by (simp add: used_filter_iff)
  with assms(2) g u obtain r1 dev1 where stop: "dmx_stop_filter i dev = Some (r1, dev1)"
    by (auto simp: dmx_set_filter_def split: option.splits)
  with assms(2) g u have "\<exists>d. dev' = dev1\<lparr>drv_data := d\<rparr>"
    by (cases "r1 = 0") (auto simp: dmx_set_filter_def elim: drv_call_cases
        intro: exI [of _ "drv_data dev1"])
  then show ?thesis
    using stop_filter_inv [OF assms(1) i stop] stop_filter_frame [OF stop] by (auto simp: same_frame_def)
qed

lemma set_buffer_size_inv:
  assumes "dmx_dev_inv dev" "dmx_set_buffer_size h n dev = Some (r, dev')"
  shows "dmx_dev_inv dev' \<and> same_frame dev dev'"
  using assms by (auto simp: dmx_set_buffer_size_def same_frame_def split: option.splits sum.splits
      elim!: drv_call_cases)

lemma set_callback_inv:
  assumes "dmx_dev_inv dev" "dmx_set_callback h cb u dev = Some (r, dev')"
  shows "dmx_dev_inv dev' \<and> same_frame dev dev'"
  using assms dmx_inv_filter [OF assms(1)]
  by (auto simp: dmx_set_callback_def same_frame_def used_filter_iff filter_ok_def
      split: sum.splits intro!: dmx_inv_update)

lemma set_source_inv:
  assumes "dmx_dev_inv dev" "dmx_set_source s dev = Some (r, dev')"
  shows "dmx_dev_inv dev' \<and> same_frame dev dev'"
  using assms by (auto simp: dmx_set_source_def same_frame_def split: option.splits prod.splits
      elim!: drv_call_cases)

lemma allocate_filter_inv:
  assumes "dmx_dev_inv dev" "dmx_allocate_filter dev = Some (r, dev')"
  shows "dmx_dev_inv dev' \<and> same_frame dev dev'"
proof (cases "first_idx (\<lambda>f. \<not> f_used f) (filters dev) < 32")
  case True
  define i where "i = first_idx (\<lambda>f. \<not> f_used f) (filters dev)"
  have i: "i < 32" using True by (simp add: i_def)
  have len: "length (filters dev) = 32" using assms(1) by (simp add: dmx_dev_inv_def tab_okD)
  have "\<not> f_used (filters dev ! i)" using first_idx_hit [of "\<lambda>f. \<not> f_used f" "filters dev"] True len
    by (simp add: i_def)
  then have "\<not> f_enable (filters dev ! i)" using dmx_inv_filter [OF assms(1) i] by (simp add: filter_ok_def)
  then show ?thesis using assms True i len
    by (auto simp: dmx_allocate_filter_def i_def [symmetric] Let_def same_frame_def filter_ok_def
        dmx_dev_inv_def split: option.splits if_splits intro!: tab_ok_update)
qed (use assms in \<open>auto simp: dmx_allocate_filter_def\<close>)

lemma close_dev_inv:
  assumes "dmx_dev_inv dev" "0 < open_count dev" "dmx_close_dev dev = Some (r, dev')"
  shows "dmx_dev_inv dev' \<and> open_count dev' = open_count dev - 1"
proof (cases "open_count dev = 1")
  case True
  with assms(3) obtain dev1 r2 dev2 where f: "dmx_free_filters [0 ..< 32] (dev\<lparr>enable_thread := False\<rparr>) = Some dev1"
    and c: "drv_call (drv_close (drv dev1)) (\<lambda>g. g (dev_no dev1)) dev1 = Some (r2, dev2)"
    and d: "dev' = dev2\<lparr>open_count := open_count dev2 - 1\<rparr>"
    by (auto simp: dmx_close_dev_def split: option.splits prod.splits)
  have "dmx_dev_inv dev1 \<and> same_frame (dev\<lparr>enable_thread := False\<rparr>) dev1"
    by (rule free_filters_inv [OF _ _ f]) (use assms(1) in auto)
  with c d True show ?thesis
    by (auto elim!: drv_call_cases simp: dmx_dev_inv_def same_frame_def)
qed (use assms in \<open>auto simp: dmx_close_dev_def dmx_dev_inv_def\<close>)

lemma open_dev_inv:
  assumes "dmx_dev_inv dev" "dmx_open_dev hw sw thr n para dev = Some (r, dev')"
  shows "dmx_dev_inv dev'"
  using assms
  by (auto simp: dmx_open_dev_def Let_def dmx_dev_inv_def split: if_splits option.splits prod.splits
      elim!: drv_call_cases)

lemma thread_filters_frame:
  "dmx_thread_filters m is dev = Some (cs, dev') \<Longrightarrow> \<exists>d. dev' = dev\<lparr>drv_data := d\<rparr>"
proof (induction "is" arbitrary: dev cs)
  case Nil
  then show ?case by (auto intro: exI [of _ "drv_data dev"])
next
  case (Cons i "is")
  then obtain c1 dev1 c2 where f: "dmx_thread_filter m i dev = Some (c1, dev1)"
    "dmx_thread_filters m is dev1 = Some (c2, dev')"
    by (auto split: option.splits prod.splits)
  have "\<exists>d. dev1 = dev\<lparr>drv_data := d\<rparr>"
  proof (cases "dev1 = dev")
    case True
    then show ?thesis by (intro exI [of _ "drv_data dev"]) simp
  next
    case False
    with f(1) show ?thesis
      by (auto simp: dmx_thread_filter_def Let_def split: if_splits option.splits prod.splits)
  qed
  with Cons.IH [OF f(2)] show ?case by auto
qed

end
