(* ===== verification/Dmx_Facts.thy ===== *)
theory Dmx_Facts
  imports Am_Dmx
begin

text \<open>
  Properties of the demux layer that hold for every driver: the filter table as a slot table, the
  reachable states of the device table under any sequence of operations and thread iterations,
  the counting of opens, the calls of the data thread and the scramble status.
\<close>

interpretation dmx_slots: slot_table f_used "\<lambda>f. f\<lparr>f_used := True\<rparr>" "\<lambda>f. f\<lparr>f_used := False\<rparr>"
  by unfold_locales simp_all

definition devs_inv :: "'d dmx_devices \<Rightarrow> bool" where
  "devs_inv devs \<longleftrightarrow> length devs = DMX_DEV_COUNT \<and> (\<forall>i < DMX_DEV_COUNT. dmx_dev_inv (devs ! i))"

lemma devs_invD: "devs_inv devs \<Longrightarrow> length devs = 2" "devs_inv devs \<Longrightarrow> i < 2 \<Longrightarrow> dmx_dev_inv (devs ! i)"
  by (simp_all add: devs_inv_def)

lemma devs_inv_update: "devs_inv devs \<Longrightarrow> dmx_dev_inv dev \<Longrightarrow> devs_inv (devs[i := dev])"
  by (auto simp: devs_inv_def nth_update_if)

lemma openned_iff:
  "dmx_get_openned_dev n devs = Inr i \<longleftrightarrow> n = int i \<and> i < 2 \<and> 0 < open_count (devs ! i)"
  by (auto simp: dmx_get_openned_dev_def dmx_get_dev_def)

lemma with_openned_body:
  assumes "i < 2" "0 < open_count (devs ! i)"
  shows "with_openned fail (int i) body devs = map_option (\<lambda>(r, dev). (r, devs[i := dev])) (body (devs ! i))"
proof -
  have "dmx_get_openned_dev (int i) devs = Inr i" using assms by (simp add: openned_iff)
  then show ?thesis by (auto simp: with_openned_def split: option.splits)
qed

text \<open>An operation that runs inside the frame keeps the invariant when its body does.\<close>

lemma with_openned_inv:
  assumes "devs_inv devs" "with_openned fail n body devs = Some (r, devs')"
    and "\<And>dev r dev'. dmx_dev_inv dev \<Longrightarrow> 0 < open_count dev \<Longrightarrow> body dev = Some (r, dev') \<Longrightarrow> dmx_dev_inv dev'"
  shows "devs_inv devs'"
proof (cases "dmx_get_openned_dev n devs")
  case (Inl e)
  with assms(1,2) show ?thesis by (simp add: with_openned_def)
next
  case (Inr i)
  then have i: "i < 2" "0 < open_count (devs ! i)" by (simp_all add: openned_iff)
  from Inr assms(2) obtain dev where "body (devs ! i) = Some (r, dev)" "devs' = devs[i := dev]"
    by (auto simp: with_openned_def split: option.splits prod.splits)
  with assms(3) [OF devs_invD(2) [OF assms(1) i(1)] i(2)] assms(1) show ?thesis
    by (auto intro: devs_inv_update)
qed

subsection \<open>Runs of the device table\<close>

text \<open>
  One step: an operation of the interface by some client, or an iteration of the data thread of
  an open device. Each holds the lock of its device, so a run is a sequence of such steps.
\<close>

inductive dmx_step :: "'d AM_DMX_Driver \<Rightarrow> 'd AM_DMX_Driver \<Rightarrow> 'd dmx_devices \<Rightarrow> 'd dmx_devices \<Rightarrow> bool"
  for hw sw where
  opn: "AM_DMX_Open hw sw thr n para devs = Some (r, devs') \<Longrightarrow> dmx_step hw sw devs devs'"
| close: "AM_DMX_Close n devs = Some (r, devs') \<Longrightarrow> dmx_step hw sw devs devs'"
| allocate: "AM_DMX_AllocateFilter n devs = Some (ra, devs') \<Longrightarrow> dmx_step hw sw devs devs'"
| set_sec: "AM_DMX_SetSecFilter n h sp devs = Some (r, devs') \<Longrightarrow> dmx_step hw sw devs devs'"
| set_pes: "AM_DMX_SetPesFilter n h pp devs = Some (r, devs') \<Longrightarrow> dmx_step hw sw devs devs'"
| free: "AM_DMX_FreeFilter n h devs = Some (r, devs') \<Longrightarrow> dmx_step hw sw devs devs'"
| start: "AM_DMX_StartFilter n h devs = Some (r, devs') \<Longrightarrow> dmx_step hw sw devs devs'"
| stop: "AM_DMX_StopFilter n h devs = Some (r, devs') \<Longrightarrow> dmx_step hw sw devs devs'"
| set_buf: "AM_DMX_SetBufferSize n h sz devs = Some (r, devs') \<Longrightarrow> dmx_step hw sw devs devs'"
| set_cb: "AM_DMX_SetCallback n h cb u devs = Some (r, devs') \<Longrightarrow> dmx_step hw sw devs devs'"
| set_src: "AM_DMX_SetSource n s devs = Some (r, devs') \<Longrightarrow> dmx_step hw sw devs devs'"
| thread: "i < DMX_DEV_COUNT \<Longrightarrow> dmx_data_thread (devs ! i) = Some (cs, dev) \<Longrightarrow>
     dmx_step hw sw devs (devs[i := dev])"

definition filter0 :: AM_DMX_Filter where
  "filter0 = \<lparr>f_drv_data = 0, f_used = False, f_enable = False, f_id = 0, f_cb = None, f_user_data = 0\<rparr>"

text \<open>The static table: zeroed devices with a driver and a source, private data not yet set.\<close>

definition dmx_init :: "'d AM_DMX_Driver \<Rightarrow> 'd \<Rightarrow> 'd dmx_devices" where
  "dmx_init hw d =
     replicate DMX_DEV_COUNT \<lparr>dev_no = 0, drv = hw, drv_data = d,
        filters = replicate DMX_FILTER_COUNT filter0, open_count = 0, enable_thread = False,
        run_cb = False, src = AM_DMX_SRC_TS0\<rparr>"

inductive dmx_reach :: "'d AM_DMX_Driver \<Rightarrow> 'd AM_DMX_Driver \<Rightarrow> 'd dmx_devices \<Rightarrow> bool" for hw sw where
  init: "dmx_reach hw sw (dmx_init hw d)"
| step: "dmx_reach hw sw devs \<Longrightarrow> dmx_step hw sw devs devs' \<Longrightarrow> dmx_reach hw sw devs'"

lemma dmx_init_inv: "devs_inv (dmx_init hw d)"
  by (simp add: devs_inv_def dmx_init_def dmx_dev_inv_def tab_ok_def filter_ok_def filter0_def)

lemma thread_inv:
  assumes "dmx_dev_inv dev" "dmx_data_thread dev = Some (cs, dev')"
  shows "dmx_dev_inv dev'"
  using assms
  by (auto simp: dmx_data_thread_def Let_def split: if_splits option.splits prod.splits
      dest!: thread_filters_frame)

lemma dmx_open_inv:
  assumes "devs_inv devs" "AM_DMX_Open hw sw thr n para devs = Some (r, devs')"
  shows "devs_inv devs'"
proof (cases "0 \<le> n \<and> n < 2")
  case True
  with assms(2) obtain dev where "dmx_open_dev hw sw thr n para (devs ! nat n) = Some (r, dev)"
    "devs' = devs[nat n := dev]"
    by (auto simp: AM_DMX_Open_def dmx_get_dev_def split: option.splits prod.splits)
  note dev = this
  have "nat n < 2" using True by linarith
  from open_dev_inv [OF devs_invD(2) [OF assms(1) this] dev(1)] show ?thesis
    using assms(1) dev(2) by (simp add: devs_inv_update)
qed (use assms in \<open>auto simp: AM_DMX_Open_def dmx_get_dev_def split: if_splits\<close>)

lemma dmx_step_inv: "dmx_step hw sw devs devs' \<Longrightarrow> devs_inv devs \<Longrightarrow> devs_inv devs'"
proof (induction rule: dmx_step.induct)
  case (opn thr n para devs r devs')
  then show ?case by (auto intro: dmx_open_inv)
next
  case (close n devs r devs')
  show ?case
    by (rule with_openned_inv [OF close(2) close(1) [unfolded AM_DMX_Close_def]]) (auto dest: close_dev_inv)
next
  case (allocate n devs ra devs')
  show ?case
    by (rule with_openned_inv [OF allocate(2) allocate(1) [unfolded AM_DMX_AllocateFilter_def]]) (auto dest: allocate_filter_inv)
next
  case (set_sec n h sp devs r devs')
  show ?case
    by (rule with_openned_inv [OF set_sec(2) set_sec(1) [unfolded AM_DMX_SetSecFilter_def]]) (auto dest: set_filter_inv)
next
  case (set_pes n h pp devs r devs')
  show ?case
    by (rule with_openned_inv [OF set_pes(2) set_pes(1) [unfolded AM_DMX_SetPesFilter_def]]) (auto dest: set_filter_inv)
next
  case (free n h devs r devs')
  show ?case
    by (rule with_openned_inv [OF free(2) free(1) [unfolded AM_DMX_FreeFilter_def]]) (auto dest: free_handle_inv)
next
  case (start n h devs r devs')
  show ?case
    by (rule with_openned_inv [OF start(2) start(1) [unfolded AM_DMX_StartFilter_def]]) (auto dest: start_handle_inv)
next
  case (stop n h devs r devs')
  show ?case
    by (rule with_openned_inv [OF stop(2) stop(1) [unfolded AM_DMX_StopFilter_def]]) (auto dest: stop_handle_inv)
next
  case (set_buf n h sz devs r devs')
  show ?case
    by (rule with_openned_inv [OF set_buf(2) set_buf(1) [unfolded AM_DMX_SetBufferSize_def]]) (auto dest: set_buffer_size_inv)
next
  case (set_cb n h cb u devs r devs')
  show ?case
    by (rule with_openned_inv [OF set_cb(2) set_cb(1) [unfolded AM_DMX_SetCallback_def]]) (auto dest: set_callback_inv)
next
  case (set_src n s devs r devs')
  show ?case
    by (rule with_openned_inv [OF set_src(2) set_src(1) [unfolded AM_DMX_SetSource_def]]) (auto dest: set_source_inv)
next
  case (thread i devs cs dev)
  then show ?case by (auto intro: devs_inv_update thread_inv devs_invD(2))
qed

lemma dmx_reach_inv: "dmx_reach hw sw devs \<Longrightarrow> devs_inv devs"
  by (induction rule: dmx_reach.induct) (auto intro: dmx_init_inv dmx_step_inv)

text \<open>
  C32: whatever the two drivers do, every state the demux layer reaches by any sequence of
  interface calls and data-thread iterations has, on each of its two devices, 32 filters of which
  every enabled one is allocated and every allocated one carries its own index, and an open
  count that is not negative.
\<close>

theorem demux_table_invariant:
  assumes "dmx_reach hw sw devs" "i < 2"
  shows "length (filters (devs ! i)) = 32 \<and> 0 \<le> open_count (devs ! i) \<and>
     (\<forall>j < 32. (f_enable (filters (devs ! i) ! j) \<longrightarrow> f_used (filters (devs ! i) ! j)) \<and>
               (f_used (filters (devs ! i) ! j) \<longrightarrow> f_id (filters (devs ! i) ! j) = j))"
  using devs_invD(2) [OF dmx_reach_inv [OF assms(1)] assms(2)]
  by (simp add: dmx_dev_inv_def tab_ok_def filter_ok_def)

text \<open>A driver without functions, whose poll times out.\<close>

definition null_driver :: "unit AM_DMX_Driver" where
  "null_driver = \<lparr>drv_open = None, drv_close = None, drv_alloc_filter = None, drv_free_filter = None,
     drv_set_sec_filter = None, drv_set_pes_filter = None, drv_enable_filter = None,
     drv_set_buf_size = None, drv_poll = (\<lambda>_ _ _. Some (AM_SUCCESS, 0, [], ())),
     drv_read = (\<lambda>_ _ _ _. Some (AM_SUCCESS, [], ())), drv_set_source = None\<rparr>"

theorem demux_table_invariant_witness:
  "length (filters (dmx_init null_driver () ! 1)) = 32 \<and> 0 \<le> open_count (dmx_init null_driver () ! 1) \<and>
   \<not> f_enable (filters (dmx_init null_driver () ! 1) ! 5)"
proof -
  have "\<not> f_used (filters (dmx_init null_driver () ! 1) ! 5)" by (simp add: dmx_init_def filter0_def)
  then show ?thesis using demux_table_invariant [OF dmx_reach.init [of null_driver null_driver "()"], of 1] by auto
qed

subsection \<open>Allocation\<close>

lemma allocate_success:
  assumes "dmx_dev_inv dev" "dmx_allocate_filter dev = Some ((r, h), dev')"
  shows "(r = AM_SUCCESS \<longleftrightarrow> h \<noteq> None) \<and>
     (\<forall>fid. h = Some fid \<longrightarrow> fid < 32 \<and> \<not> f_used (filters dev ! fid) \<and> f_used (filters dev' ! fid) \<and>
        \<not> f_enable (filters dev' ! fid) \<and> (\<forall>j < fid. f_used (filters dev ! j)) \<and>
        (\<forall>j. j \<noteq> fid \<longrightarrow> filters dev' ! j = filters dev ! j) \<and>
        used_count f_used (filters dev') = Suc (used_count f_used (filters dev))) \<and>
     (used_count f_used (filters dev) = 32 \<longrightarrow> r = AM_DMX_ERR_NO_FREE_FILTER \<and> dev' = dev)"
proof -
  define i where "i = first_idx (\<lambda>f. \<not> f_used f) (filters dev)"
  have len: "length (filters dev) = 32" using assms(1) by (simp add: dmx_dev_inv_def tab_okD)
  show ?thesis
  proof (cases "i < 32")
    case True
    have nu: "\<not> f_used (filters dev ! i)" "\<forall>j < i. f_used (filters dev ! j)"
      using first_idx_hit [of "\<lambda>f. \<not> f_used f" "filters dev"] True len
        first_idx_before [of _ "\<lambda>f. \<not> f_used f" "filters dev"] by (auto simp: i_def)
    have ne: "\<not> f_enable (filters dev ! i)"
      using dmx_inv_filter [OF assms(1) True] nu(1) by (simp add: filter_ok_def)
    have cnt: "used_count f_used ((filters dev)[i := f]) = Suc (used_count f_used (filters dev))"
      if "f_used f" for f
      using used_count_update [of i "filters dev" f_used f] that nu(1) True len by simp
    have full: "used_count f_used (filters dev) \<noteq> 32"
      using used_count_full [of f_used "filters dev"] nu(1) True len by (metis nth_mem)
    show ?thesis
      using assms(2) True len nu ne full
      by (auto simp: dmx_allocate_filter_def i_def [symmetric] Let_def cnt
          split: option.splits if_splits prod.splits)
  next
    case False
    then show ?thesis using assms(2)
      by (auto simp: dmx_allocate_filter_def i_def [symmetric])
  qed
qed

text \<open>
  allocating a filter on an open device, with any driver. Success and a handle go together;
  the handle is the lowest free slot, it was free before and is used and not enabled afterwards,
  every other filter and the other device are untouched, and the number of used filters grows by
  one. When all 32 are used the call fails with \<^verbatim>\<open>AM_DMX_ERR_NO_FREE_FILTER\<close> and changes nothing.
\<close>

theorem allocate_fresh_handle:
  assumes "dmx_reach hw sw devs" "i < 2" "0 < open_count (devs ! i)"
    and "AM_DMX_AllocateFilter (int i) devs = Some ((r, h), devs')"
  shows "(r = AM_SUCCESS \<longleftrightarrow> h \<noteq> None) \<and> (\<forall>k. k \<noteq> i \<longrightarrow> devs' ! k = devs ! k) \<and>
     (\<forall>fid. h = Some fid \<longrightarrow> fid < 32 \<and>
        \<not> f_used (filters (devs ! i) ! fid) \<and> f_used (filters (devs' ! i) ! fid) \<and>
        \<not> f_enable (filters (devs' ! i) ! fid) \<and> (\<forall>j < fid. f_used (filters (devs ! i) ! j)) \<and>
        (\<forall>j. j \<noteq> fid \<longrightarrow> filters (devs' ! i) ! j = filters (devs ! i) ! j) \<and>
        used_count f_used (filters (devs' ! i)) = Suc (used_count f_used (filters (devs ! i)))) \<and>
     (used_count f_used (filters (devs ! i)) = 32 \<longrightarrow> r = AM_DMX_ERR_NO_FREE_FILTER \<and> devs' = devs)"
proof -
  note inv = dmx_reach_inv [OF assms(1)]
  from assms(2-4) obtain dev where a: "dmx_allocate_filter (devs ! i) = Some ((r, h), dev)"
    and d: "devs' = devs[i := dev]"
    by (auto simp: AM_DMX_AllocateFilter_def with_openned_body)
  from allocate_success [OF devs_invD(2) [OF inv assms(2)] a] devs_invD(1) [OF inv] assms(2)
  show ?thesis by (auto simp: d)
qed

definition open_null :: "unit dmx_devices" where
  "open_null = (dmx_init null_driver ())[0 := (dmx_init null_driver () ! 0)\<lparr>
     open_count := 1, enable_thread := True, run_cb := False, dev_no := 0, drv := null_driver\<rparr>]"

lemma open_null_reach: "dmx_reach null_driver null_driver open_null"
proof (rule dmx_reach.step [OF dmx_reach.init [of _ _ "()"]])
  show "dmx_step null_driver null_driver (dmx_init null_driver ()) open_null"
    by (rule dmx_step.opn [of _ _ True 0 "\<lparr>use_sw_filter = False, dvr_fifo_no = 0, dvr_buf_size = 0\<rparr>" _ 0])
       (simp add: AM_DMX_Open_def dmx_get_dev_def dmx_open_dev_def open_null_def dmx_init_def
         null_driver_def drv_call_def Let_def)
qed

theorem allocate_fresh_handle_witness:
  "\<exists>r h devs'. AM_DMX_AllocateFilter 0 open_null = Some ((r, h), devs') \<and> (r = AM_SUCCESS \<longleftrightarrow> h \<noteq> None) \<and>
     (\<forall>fid. h = Some fid \<longrightarrow> f_used (filters (devs' ! 0) ! fid))"
proof -
  obtain r h devs' where a: "AM_DMX_AllocateFilter (int 0) open_null = Some ((r, h), devs')"
    by (simp add: AM_DMX_AllocateFilter_def with_openned_def dmx_get_openned_dev_def dmx_get_dev_def
        open_null_def dmx_init_def dmx_allocate_filter_def null_driver_def filter0_def Let_def
        upd_filter_def numeral_eq_Suc)
  have "0 < open_count (open_null ! 0)" by (simp add: open_null_def dmx_init_def)
  from allocate_fresh_handle [OF open_null_reach _ this a] a show ?thesis by auto
qed

subsection \<open>Handles that are not allocated\<close>

text \<open>
  on an open device, a handle that is out of range or not allocated. Stopping, freeing, setting
  the buffer size or the callback report the lookup's error and change nothing; starting the
  filter dereferences a null pointer.
\<close>

theorem bad_handle:
  assumes "i < 2" "0 < open_count (devs ! i)" "dmx_get_used_filter (devs ! i) h = Inl e"
  shows "AM_DMX_StopFilter (int i) h devs = Some (e, devs) \<and>
     AM_DMX_FreeFilter (int i) h devs = Some (e, devs) \<and>
     AM_DMX_SetCallback (int i) h cb u devs = Some (e, devs) \<and>
     (drv_set_buf_size (drv (devs ! i)) \<noteq> None \<longrightarrow> AM_DMX_SetBufferSize (int i) h sz devs = Some (e, devs)) \<and>
     AM_DMX_StartFilter (int i) h devs = None \<and>
     e \<in> {AM_DMX_ERR_INVALID_ID, AM_DMX_ERR_NOT_ALLOCATED}"
  using assms used_filter_Inl [OF assms(3)]
  by (auto simp: AM_DMX_StopFilter_def AM_DMX_FreeFilter_def AM_DMX_SetCallback_def
      AM_DMX_SetBufferSize_def AM_DMX_StartFilter_def with_openned_body dmx_stop_handle_def
      dmx_free_handle_def dmx_set_callback_def dmx_set_buffer_size_def dmx_start_handle_def)

theorem bad_handle_witness:
  "AM_DMX_StopFilter (int 0) 5 open_null = Some (AM_DMX_ERR_NOT_ALLOCATED, open_null) \<and>
     AM_DMX_FreeFilter (int 0) 5 open_null = Some (AM_DMX_ERR_NOT_ALLOCATED, open_null) \<and>
     AM_DMX_SetCallback (int 0) 5 None 0 open_null = Some (AM_DMX_ERR_NOT_ALLOCATED, open_null) \<and>
     AM_DMX_StartFilter (int 0) 5 open_null = None"
proof -
  have o: "dmx_get_used_filter (open_null ! 0) 5 = Inl AM_DMX_ERR_NOT_ALLOCATED" "0 < open_count (open_null ! 0)"
    by (simp_all add: open_null_def dmx_init_def dmx_get_used_filter_def filter0_def)
  from bad_handle [OF _ o(2,1), of None 0] show ?thesis by (simp del: dmx_codes of_nat_0)
qed

text \<open>
  When the driver answers the disabling of an enabled filter with a module error code (they
  are all positive), \<^verbatim>\<open>AM_DMX_StopFilter\<close> returns that error and yet marks the filter as not
  enabled; with a negative code it leaves the filter enabled.
\<close>

theorem stop_error_disables:
  assumes "i < 2" "i < length devs" "0 < open_count (devs ! i)"
    and "fid < 32" "fid < length (filters (devs ! i))"
    and "f_used (filters (devs ! i) ! fid)" "f_enable (filters (devs ! i) ! fid)"
    and "drv_enable_filter (drv (devs ! i)) = Some g"
    and "g (dev_no (devs ! i)) (filters (devs ! i) ! fid) False (drv_data (devs ! i)) = Some (r, d)"
  shows "\<exists>devs'. AM_DMX_StopFilter (int i) (int fid) devs = Some (r, devs') \<and>
     f_used (filters (devs' ! i) ! fid) \<and> (f_enable (filters (devs' ! i) ! fid) \<longleftrightarrow> r < 0)"
proof -
  have "dmx_get_used_filter (devs ! i) (int fid) = Inr fid" using assms(4,6) by (simp add: used_filter_iff)
  with assms show ?thesis
    by (auto simp: AM_DMX_StopFilter_def with_openned_body dmx_stop_handle_def dmx_stop_filter_def drv_call_def)
qed

definition failing_driver :: "unit AM_DMX_Driver" where
  "failing_driver = null_driver\<lparr>drv_enable_filter := Some (\<lambda>_ _ _ _. Some (AM_DMX_ERR_SYS, ()))\<rparr>"

definition one_running :: "unit dmx_devices" where
  "one_running = replicate 2 \<lparr>dev_no = 0, drv = failing_driver, drv_data = (),
     filters = (replicate 32 filter0)[3 := filter0\<lparr>f_used := True, f_enable := True, f_id := 3\<rparr>],
     open_count = 1, enable_thread = True, run_cb = False, src = AM_DMX_SRC_TS0\<rparr>"

theorem stop_error_disables_witness:
  "\<exists>devs'. AM_DMX_StopFilter (int 0) (int 3) one_running = Some (AM_DMX_ERR_SYS, devs') \<and>
     f_used (filters (devs' ! 0) ! 3) \<and> (f_enable (filters (devs' ! 0) ! 3) \<longleftrightarrow> AM_DMX_ERR_SYS < 0)"
  by (rule stop_error_disables [of 0 one_running 3 "\<lambda>_ _ _ _. Some (AM_DMX_ERR_SYS, ())"])
     (simp_all add: one_running_def failing_driver_def)

subsection \<open>Counting opens\<close>

fun dmx_opens :: "'d AM_DMX_Driver \<Rightarrow> 'd AM_DMX_Driver \<Rightarrow> int \<Rightarrow> (bool \<times> AM_DMX_OpenPara) list \<Rightarrow> 'd dmx_devices
    \<Rightarrow> 'd dmx_devices option" where
  "dmx_opens hw sw n [] devs = Some devs"
| "dmx_opens hw sw n ((thr, para) # ps) devs =
     (case AM_DMX_Open hw sw thr n para devs of
        Some (r, devs') \<Rightarrow> if r = AM_SUCCESS then dmx_opens hw sw n ps devs' else None
      | None \<Rightarrow> None)"

fun dmx_closes :: "int \<Rightarrow> nat \<Rightarrow> 'd dmx_devices \<Rightarrow> 'd dmx_devices option" where
  "dmx_closes n 0 devs = Some devs"
| "dmx_closes n (Suc k) devs =
     (case AM_DMX_Close n devs of
        Some (r, devs') \<Rightarrow> if r = AM_SUCCESS then dmx_closes n k devs' else None
      | None \<Rightarrow> None)"

lemma open_again:
  assumes "i < 2" "0 < open_count (devs ! i)"
  shows "AM_DMX_Open hw sw thr (int i) para devs
       = Some (AM_SUCCESS, devs[i := (devs ! i)\<lparr>open_count := open_count (devs ! i) + 1\<rparr>])"
  using assms by (simp add: AM_DMX_Open_def dmx_get_dev_def dmx_open_dev_def)

lemma close_not_last:
  assumes "i < 2" "1 < open_count (devs ! i)"
  shows "AM_DMX_Close (int i) devs
       = Some (AM_SUCCESS, devs[i := (devs ! i)\<lparr>open_count := open_count (devs ! i) - 1\<rparr>])"
  using assms by (simp add: AM_DMX_Close_def with_openned_body dmx_close_dev_def)

lemma opens_count:
  "i < 2 \<Longrightarrow> i < length devs \<Longrightarrow> 0 < open_count (devs ! i) \<Longrightarrow>
     dmx_opens hw sw (int i) ps devs
   = Some (devs[i := (devs ! i)\<lparr>open_count := open_count (devs ! i) + int (length ps)\<rparr>])"
  by (induction ps arbitrary: devs) (auto simp: open_again algebra_simps)

lemma closes_count:
  "i < 2 \<Longrightarrow> i < length devs \<Longrightarrow> int k < open_count (devs ! i) \<Longrightarrow>
     dmx_closes (int i) k devs
   = Some (devs[i := (devs ! i)\<lparr>open_count := open_count (devs ! i) - int k\<rparr>])"
  by (induction k arbitrary: devs) (auto simp: close_not_last algebra_simps)

text \<open>
  Further opens of an open device, with whatever parameters, and as many closes leave the
  whole device table as it was: the driver is neither opened nor closed and no filter is lost.
\<close>

theorem nested_open_close:
  assumes "dmx_reach hw sw devs" "i < 2" "0 < open_count (devs ! i)"
  shows "\<exists>devs'. dmx_opens hw sw (int i) ps devs = Some devs' \<and>
     open_count (devs' ! i) = open_count (devs ! i) + int (length ps) \<and>
     dmx_closes (int i) (length ps) devs' = Some devs"
proof -
  have len: "i < length devs" using devs_invD(1) [OF dmx_reach_inv [OF assms(1)]] assms(2) by simp
  show ?thesis using assms(2,3) len by (simp add: opens_count closes_count)
qed

theorem nested_open_close_witness:
  "\<exists>devs'. dmx_opens null_driver null_driver (int 0)
       [(True, \<lparr>use_sw_filter = True, dvr_fifo_no = 0, dvr_buf_size = 0\<rparr>), (False, \<lparr>use_sw_filter = False, dvr_fifo_no = 1, dvr_buf_size = 9\<rparr>)]
       open_null = Some devs' \<and>
     open_count (devs' ! 0) = open_count (open_null ! 0) + int (length
       [(True, \<lparr>use_sw_filter = True, dvr_fifo_no = 0, dvr_buf_size = 0\<rparr>), (False, \<lparr>use_sw_filter = False, dvr_fifo_no = 1, dvr_buf_size = 9\<rparr>)]) \<and>
     dmx_closes (int 0) (length
       [(True, \<lparr>use_sw_filter = True, dvr_fifo_no = 0, dvr_buf_size = 0\<rparr>), (False, \<lparr>use_sw_filter = False, dvr_fifo_no = 1, dvr_buf_size = 9\<rparr>)])
       devs' = Some open_null"
  by (rule nested_open_close [OF open_null_reach]) (simp_all add: open_null_def dmx_init_def)

subsection \<open>The calls of the data thread\<close>

definition call_id :: "dmx_call \<Rightarrow> nat" where
  "call_id c = fst (snd (snd c))"

text \<open>What a call owes to the filter it is made for.\<close>

fun call_ok :: "32 word \<Rightarrow> int \<Rightarrow> AM_DMX_Filter list \<Rightarrow> dmx_call \<Rightarrow> bool" where
  "call_ok m n fs (cb, dv, i, data, len, u) \<longleftrightarrow>
     bit m i \<and> f_used (fs ! i) \<and> f_enable (fs ! i) \<and> f_cb (fs ! i) = Some cb \<and> dv = n \<and>
     u = f_user_data (fs ! i) \<and> len = (case data of None \<Rightarrow> 0 | Some s \<Rightarrow> length s)"

lemma thread_filter_calls:
  assumes "dmx_thread_filter m i dev = Some (cs, dev')"
  shows "(cs = [] \<or> (\<exists>c. cs = [c] \<and> call_id c = i)) \<and> (\<forall>c \<in> set cs. call_ok m (dev_no dev) (filters dev) c) \<and>
     filters dev' = filters dev \<and> dev_no dev' = dev_no dev"
  using assms
  by (auto simp: dmx_thread_filter_def Let_def call_id_def split: if_splits option.splits prod.splits)

lemma thread_filters_calls:
  assumes "dmx_thread_filters m is dev = Some (cs, dev')" "sorted_wrt (<) is"
  shows "sorted_wrt (<) (map call_id cs) \<and> call_id ` set cs \<subseteq> set is \<and>
     (\<forall>c \<in> set cs. call_ok m (dev_no dev) (filters dev) c)"
  using assms
proof (induction "is" arbitrary: dev cs)
  case (Cons i "is")
  then obtain c1 dev1 c2 where f: "dmx_thread_filter m i dev = Some (c1, dev1)"
    "dmx_thread_filters m is dev1 = Some (c2, dev')" and cs: "cs = c1 @ c2"
    by (auto split: option.splits prod.splits)
  note one = thread_filter_calls [OF f(1)] and rest = Cons.IH [OF f(2)]
  from rest Cons.prems(2) have ids: "\<forall>c \<in> set c2. i < call_id c" by auto
  with one rest Cons.prems(2) show ?case by (auto simp: cs sorted_wrt_append)
qed simp


definition section_driver :: "unit AM_DMX_Driver" where
  "section_driver = null_driver\<lparr>drv_poll := (\<lambda>_ _ _. Some (AM_SUCCESS, 12, [], ())),
     drv_read := (\<lambda>_ f _ _. Some (if f_id f = 2 then AM_DMX_ERR_TIMEOUT else AM_SUCCESS, [0x42, 0xF0, 0], ()))\<rparr>"

definition two_filters :: "unit AM_DMX_Device" where
  "two_filters = \<lparr>dev_no = 1, drv = section_driver, drv_data = (),
     filters = (replicate 32 filter0)
        [2 := \<lparr>f_drv_data = 0, f_used = True, f_enable = True, f_id = 2, f_cb = Some 77, f_user_data = 5\<rparr>,
         3 := \<lparr>f_drv_data = 0, f_used = True, f_enable = True, f_id = 3, f_cb = Some 78, f_user_data = 6\<rparr>],
     open_count = 1, enable_thread = True, run_cb = False, src = AM_DMX_SRC_TS0\<rparr>"

lemma two_filters_run:
  "map_option fst (dmx_data_thread two_filters)
     = Some [(77, 1, 2, None, 0, 5), (78, 1, 3, Some [0x42, 0xF0, 0], 3, 6)]"
  by code_simp


subsection \<open>The scramble status\<close>

lemma scramble_loop_success:
  assumes "scramble_loop rds i prev n = (AM_SUCCESS, st)"
    and "n < 3" "\<forall>j. i - n \<le> j \<and> j < i \<longrightarrow> rds j = Some prev" "n \<le> i"
  shows "\<exists>k < 10. 2 \<le> k \<and> rds k = Some st \<and> rds (k - 1) = Some st \<and> rds (k - 2) = Some st"
  using assms
proof (induction rds i prev n rule: scramble_loop.induct)
  case (1 rds i prev n)
  from 1(3) obtain s where i: "i < 10" and s: "rds i = Some s"
    by (subst (asm) scramble_loop.simps) (auto split: if_splits option.splits)
  show ?case
  proof (cases "s = prev")
    case False
    then have "scramble_loop rds (Suc i) s 0 = (AM_SUCCESS, st)"
      using 1(3) i s by (subst (asm) scramble_loop.simps) auto
    then show ?thesis by (rule 1(1) [OF i s False]) auto
  next
    case True
    show ?thesis
    proof (cases "3 \<le> n + 1")
      case True
      with 1(3) i s \<open>s = prev\<close> have st: "st = s" by (subst (asm) scramble_loop.simps) auto
      from True 1(4) have n: "n = 2" by simp
      with 1(5) [rule_format, of "i - 1"] 1(5) [rule_format, of "i - 2"] 1(6) s i st \<open>s = prev\<close>
      show ?thesis by (intro exI [of _ i]) simp
    next
      case False
      then have l: "scramble_loop rds (Suc i) s (n + 1) = (AM_SUCCESS, st)"
        using 1(3) i s True by (subst (asm) scramble_loop.simps) auto
      have "\<forall>j. Suc i - (n + 1) \<le> j \<and> j < Suc i \<longrightarrow> rds j = Some s"
        using 1(5,6) s True by (auto simp: less_Suc_eq)
      from 1(2) [OF i s _ False l _ this] True False 1(6) show ?thesis by simp
    qed
  qed
qed

text \<open>
  a scramble status that is reported as a success was read by three consecutive reads, all
  within the ten iterations.
\<close>

theorem scramble_status_stable:
  assumes "AM_DMX_GetScrambleStatus rds = (AM_SUCCESS, st)"
  shows "\<exists>k < 10. 2 \<le> k \<and> rds k = Some st \<and> rds (k - 1) = Some st \<and> rds (k - 2) = Some st"
  using scramble_loop_success [of rds 0 "(False, False)" 0 st] assms
  by (simp add: AM_DMX_GetScrambleStatus_def)

theorem scramble_status_stable_witness:
  "\<exists>k < 10. 2 \<le> k \<and> (\<lambda>i::nat. Some (True, i \<noteq> 0)) k = Some (True, True) \<and>
     (\<lambda>i::nat. Some (True, i \<noteq> 0)) (k - 1) = Some (True, True) \<and>
     (\<lambda>i::nat. Some (True, i \<noteq> 0)) (k - 2) = Some (True, True)"
  by (rule scramble_status_stable)
     (simp add: AM_DMX_GetScrambleStatus_def scramble_loop.simps)

end
