(* ===== verification/Dmx_Driver.thy ===== *)
theory Dmx_Driver
  imports Dmx_Facts
begin

text \<open>
  The interface between the demux layer and a driver, as a locale. A driver promises, for its
  private data \<open>d\<close> and a filter table \<open>fs\<close> related by its own invariant \<open>dinv\<close>, that each
  function called in the situations in which \<^verbatim>\<open>am_dmx.c\<close> calls it is defined, and that the
  relation holds again for the table as \<^verbatim>\<open>am_dmx.c\<close> leaves it after the return code. The
  client lemmas say that every operation of the interface is then defined and keeps the relation.
  \<open>reliable_dmx_driver\<close> adds that disabling and freeing do not fail; then the last close frees
  every filter.
\<close>

definition drv_dev_ok :: "'d AM_DMX_Driver \<Rightarrow> ('d \<Rightarrow> AM_DMX_Filter list \<Rightarrow> bool) \<Rightarrow> 'd AM_DMX_Device \<Rightarrow> bool" where
  "drv_dev_ok D dinv dev \<longleftrightarrow> drv dev = D \<and> dmx_dev_inv dev \<and> dinv (drv_data dev) (filters dev)"

locale dmx_driver =
  fixes D :: "'d AM_DMX_Driver"
    and dinv :: "'d \<Rightarrow> AM_DMX_Filter list \<Rightarrow> bool"
  assumes alloc_law: "dinv d fs \<Longrightarrow> tab_ok fs \<Longrightarrow> i < 32 \<Longrightarrow> \<not> f_used (fs ! i) \<Longrightarrow>
      \<exists>g r p d'. drv_alloc_filter D = Some g \<and> g n ((fs ! i)\<lparr>f_id := i\<rparr>) d = Some (r, p, d') \<and>
        dinv d' (fs[i := (fs ! i)\<lparr>f_id := i, f_drv_data := p, f_used := (r = AM_SUCCESS)\<rparr>])"
    and enable_law: "dinv d fs \<Longrightarrow> tab_ok fs \<Longrightarrow> i < 32 \<Longrightarrow> f_used (fs ! i) \<Longrightarrow> \<not> f_enable (fs ! i) \<Longrightarrow>
      \<exists>g r d'. drv_enable_filter D = Some g \<and> g n (fs ! i) True d = Some (r, d') \<and>
        dinv d' (if r = AM_SUCCESS then fs[i := (fs ! i)\<lparr>f_enable := True\<rparr>] else fs)"
    and disable_law: "dinv d fs \<Longrightarrow> tab_ok fs \<Longrightarrow> i < 32 \<Longrightarrow> f_used (fs ! i) \<Longrightarrow> f_enable (fs ! i) \<Longrightarrow>
      \<exists>g r d'. drv_enable_filter D = Some g \<and> g n (fs ! i) False d = Some (r, d') \<and>
        dinv d' (if r \<ge> 0 then fs[i := (fs ! i)\<lparr>f_enable := False\<rparr>] else fs)"
    and free_law: "dinv d fs \<Longrightarrow> tab_ok fs \<Longrightarrow> i < 32 \<Longrightarrow> f_used (fs ! i) \<Longrightarrow> \<not> f_enable (fs ! i) \<Longrightarrow>
      \<exists>g r d'. drv_free_filter D = Some g \<and> g n (fs ! i) d = Some (r, d') \<and>
        dinv d' (if r = AM_SUCCESS then fs[i := (fs ! i)\<lparr>f_used := False\<rparr>] else fs)"
    and set_sec_law: "dinv d fs \<Longrightarrow> tab_ok fs \<Longrightarrow> i < 32 \<Longrightarrow> f_used (fs ! i) \<Longrightarrow> \<not> f_enable (fs ! i) \<Longrightarrow>
      \<exists>g r d'. drv_set_sec_filter D = Some g \<and> g n (fs ! i) sp d = Some (r, d') \<and> dinv d' fs"
    and set_pes_law: "dinv d fs \<Longrightarrow> tab_ok fs \<Longrightarrow> i < 32 \<Longrightarrow> f_used (fs ! i) \<Longrightarrow> \<not> f_enable (fs ! i) \<Longrightarrow>
      \<exists>g r d'. drv_set_pes_filter D = Some g \<and> g n (fs ! i) pp d = Some (r, d') \<and> dinv d' fs"
    and set_buf_law: "dinv d fs \<Longrightarrow> tab_ok fs \<Longrightarrow> i < 32 \<Longrightarrow> f_used (fs ! i) \<Longrightarrow>
      \<exists>g r d'. drv_set_buf_size D = Some g \<and> g n (fs ! i) sz d = Some (r, d') \<and> dinv d' fs"
    and set_source_law: "dinv d fs \<Longrightarrow> tab_ok fs \<Longrightarrow>
      \<exists>g r d'. drv_set_source D = Some g \<and> g n s d = Some (r, d') \<and> dinv d' fs"
    and close_law: "dinv d fs \<Longrightarrow> tab_ok fs \<Longrightarrow> \<exists>g r d'. drv_close D = Some g \<and> g n d = Some (r, d')"
    and callback_law: "dinv d fs \<Longrightarrow> tab_ok fs \<Longrightarrow> i < 32 \<Longrightarrow> f_used (fs ! i) \<Longrightarrow>
      dinv d (fs[i := (fs ! i)\<lparr>f_cb := cb, f_user_data := u\<rparr>])"
    and open_law: "tab_ok fs \<Longrightarrow> (\<And>i. i < 32 \<Longrightarrow> \<not> f_used (fs ! i)) \<Longrightarrow>
      \<exists>g r d'. drv_open D = Some g \<and> g n para d = Some (r, d') \<and> (r = AM_SUCCESS \<longrightarrow> dinv d' fs)"
    and poll_law: "dinv d fs \<Longrightarrow> tab_ok fs \<Longrightarrow> drv_poll D n fs d = Some (r, m, cs, d') \<Longrightarrow> dinv d' fs"
    and read_law: "dinv d fs \<Longrightarrow> tab_ok fs \<Longrightarrow> i < 32 \<Longrightarrow> f_used (fs ! i) \<Longrightarrow>
      drv_read D n (fs ! i) len d = Some (r, bs, d') \<Longrightarrow> dinv d' fs"
begin

lemma dev_okD:
  assumes "drv_dev_ok D dinv dev"
  shows "drv dev = D" "dmx_dev_inv dev" "dinv (drv_data dev) (filters dev)" "tab_ok (filters dev)"
    "length (filters dev) = 32"
  using assms by (simp_all add: drv_dev_ok_def dmx_dev_inv_def tab_okD)

lemma stop_ok:
  assumes "drv_dev_ok D dinv dev" "i < 32"
  shows "\<exists>r dev'. dmx_stop_filter i dev = Some (r, dev') \<and> drv_dev_ok D dinv dev' \<and>
    f_used (filters dev' ! i) = f_used (filters dev ! i) \<and> (r = AM_SUCCESS \<longrightarrow> \<not> f_enable (filters dev' ! i))"
proof (cases "f_used (filters dev ! i) \<and> f_enable (filters dev ! i)")
  case False
  with assms dmx_inv_filter [OF dev_okD(2) [OF assms(1)] assms(2)] show ?thesis
    by (auto simp: dmx_stop_filter_def filter_ok_def)
next
  case True
  note dev = dev_okD [OF assms(1)]
  from disable_law [OF dev(3,4) assms(2)] True obtain g r d' where
    g: "drv_enable_filter D = Some g" "g (dev_no dev) (filters dev ! i) False (drv_data dev) = Some (r, d')"
    and d': "dinv d' (if r \<ge> 0 then (filters dev)[i := (filters dev ! i)\<lparr>f_enable := False\<rparr>] else filters dev)"
    by blast
  define dev' where "dev' = (if r \<ge> 0 then upd_filter i (\<lambda>f. f\<lparr>f_enable := False\<rparr>) (dev\<lparr>drv_data := d'\<rparr>)
    else dev\<lparr>drv_data := d'\<rparr>)"
  have stop: "dmx_stop_filter i dev = Some (r, dev')"
    using True g dev(1) by (simp add: dmx_stop_filter_def drv_call_def dev'_def)
  moreover have "drv_dev_ok D dinv dev'"
    using stop_filter_inv [OF dev(2) assms(2) stop] dev(1) d' by (auto simp: drv_dev_ok_def dev'_def split: if_splits)
  ultimately show ?thesis using assms(2) dev(5) by (auto simp: dev'_def)
qed

lemma free_ok:
  assumes "drv_dev_ok D dinv dev" "i < 32"
  shows "\<exists>r dev'. dmx_free_filter i dev = Some (r, dev') \<and> drv_dev_ok D dinv dev'"
proof (cases "f_used (filters dev ! i)")
  case True
  from stop_ok [OF assms] True obtain r1 dev1 where stop: "dmx_stop_filter i dev = Some (r1, dev1)"
    and ok1: "drv_dev_ok D dinv dev1" "f_used (filters dev1 ! i)" "r1 = 0 \<longrightarrow> \<not> f_enable (filters dev1 ! i)" by auto
  show ?thesis
  proof (cases "r1 = 0")
    case False
    with True stop ok1(1) show ?thesis by (simp add: dmx_free_filter_def)
  next
    case r1: True
    note dev1 = dev_okD [OF ok1(1)]
    from free_law [OF dev1(3,4) assms(2) ok1(2)] ok1(3) r1 obtain g r d' where
      g: "drv_free_filter D = Some g" "g (dev_no dev1) (filters dev1 ! i) (drv_data dev1) = Some (r, d')"
      and d': "dinv d' (if r = 0 then (filters dev1)[i := (filters dev1 ! i)\<lparr>f_used := False\<rparr>] else filters dev1)"
      by blast
    define dev' where "dev' = (if r = 0 then upd_filter i (\<lambda>f. f\<lparr>f_used := False\<rparr>) (dev1\<lparr>drv_data := d'\<rparr>)
      else dev1\<lparr>drv_data := d'\<rparr>)"
    have free: "dmx_free_filter i dev = Some (r, dev')"
      using True stop r1 g dev1(1) by (simp add: dmx_free_filter_def drv_call_def dev'_def)
    moreover have "drv_dev_ok D dinv dev'"
      using free_filter_inv [OF dev_okD(2) [OF assms(1)] assms(2) free] dev1(1) d'
      by (auto simp: drv_dev_ok_def dev'_def split: if_splits)
    ultimately show ?thesis by blast
  qed
qed (use assms in \<open>auto simp: dmx_free_filter_def\<close>)

lemma free_filters_ok:
  "drv_dev_ok D dinv dev \<Longrightarrow> (\<forall>i \<in> set is. i < 32) \<Longrightarrow>
     \<exists>dev'. dmx_free_filters is dev = Some dev' \<and> drv_dev_ok D dinv dev'"
proof (induction "is" arbitrary: dev)
  case (Cons i "is")
  with free_ok [of dev i] obtain r dev1 where "dmx_free_filter i dev = Some (r, dev1)" "drv_dev_ok D dinv dev1"
    by auto
  with Cons.IH [of dev1] Cons.prems show ?case by auto
qed simp

lemma close_ok:
  assumes "drv_dev_ok D dinv dev"
  shows "\<exists>dev'. dmx_close_dev dev = Some (AM_SUCCESS, dev')"
proof (cases "open_count dev = 1")
  case True
  have "drv_dev_ok D dinv (dev\<lparr>enable_thread := False\<rparr>)" using assms by (simp add: drv_dev_ok_def)
  from free_filters_ok [OF this, of "[0 ..< 32]"] obtain dev1 where
    f: "dmx_free_filters [0 ..< 32] (dev\<lparr>enable_thread := False\<rparr>) = Some dev1" "drv_dev_ok D dinv dev1" by auto
  from close_law [OF dev_okD(3,4) [OF f(2)], of "dev_no dev1"] obtain g r d' where
    "drv_close D = Some g" "g (dev_no dev1) (drv_data dev1) = Some (r, d')" by blast
  with True f dev_okD(1) [OF f(2)] show ?thesis by (simp add: dmx_close_dev_def drv_call_def)
qed (simp add: dmx_close_dev_def)

lemma allocate_ok:
  assumes "drv_dev_ok D dinv dev"
  shows "\<exists>r dev'. dmx_allocate_filter dev = Some (r, dev') \<and> drv_dev_ok D dinv dev'"
proof (cases "first_idx (\<lambda>f. \<not> f_used f) (filters dev) < 32")
  case True
  note dev = dev_okD [OF assms]
  define i where "i = first_idx (\<lambda>f. \<not> f_used f) (filters dev)"
  have i: "i < 32" using True by (simp add: i_def)
  have "\<not> f_used (filters dev ! i)"
    using first_idx_hit [of "\<lambda>f. \<not> f_used f" "filters dev"] True dev(5) by (simp add: i_def)
  from alloc_law [OF dev(3,4) i this, of "dev_no dev"] obtain g r p d' where
    g: "drv_alloc_filter D = Some g" "g (dev_no dev) ((filters dev ! i)\<lparr>f_id := i\<rparr>) (drv_data dev) = Some (r, p, d')"
    and d': "dinv d' ((filters dev)[i := (filters dev ! i)\<lparr>f_id := i, f_drv_data := p, f_used := (r = 0)\<rparr>])"
    by blast
  have nu: "(filters dev ! i)\<lparr>f_id := i, f_drv_data := p, f_used := False\<rparr>
      = (filters dev ! i)\<lparr>f_id := i, f_drv_data := p\<rparr>"
    using \<open>\<not> f_used (filters dev ! i)\<close> by (cases "filters dev ! i") simp
  obtain ra dev' where a: "dmx_allocate_filter dev = Some (ra, dev')" "drv dev' = D"
    "dinv (drv_data dev') (filters dev')"
    using g d' dev i nu True
    by (cases "r = 0") (auto simp: dmx_allocate_filter_def i_def [symmetric] Let_def upd_filter_def)
  with allocate_filter_inv [OF dev(2) a(1)] show ?thesis by (auto simp: drv_dev_ok_def)
qed (use assms in \<open>auto simp: dmx_allocate_filter_def\<close>)

lemma start_ok:
  assumes "drv_dev_ok D dinv dev" "dmx_get_used_filter dev h = Inr i"
  shows "\<exists>r dev'. dmx_start_handle h dev = Some (r, dev') \<and> drv_dev_ok D dinv dev'"
proof (cases "f_enable (filters dev ! i)")
  case True
  with assms show ?thesis by (simp add: dmx_start_handle_def)
next
  case False
  note dev = dev_okD [OF assms(1)]
  from assms(2) have i: "i < 32" "f_used (filters dev ! i)" by (simp_all add: used_filter_iff)
  from enable_law [OF dev(3,4) i False, of "dev_no dev"] obtain g r d' where
    g: "drv_enable_filter D = Some g" "g (dev_no dev) (filters dev ! i) True (drv_data dev) = Some (r, d')"
    and d': "dinv d' (if r = 0 then (filters dev)[i := (filters dev ! i)\<lparr>f_enable := True\<rparr>] else filters dev)"
    by blast
  define dev' where "dev' = (if r = 0 then upd_filter i (\<lambda>f. f\<lparr>f_enable := True\<rparr>) (dev\<lparr>drv_data := d'\<rparr>)
    else dev\<lparr>drv_data := d'\<rparr>)"
  have start: "dmx_start_handle h dev = Some (r, dev')"
    using assms(2) False g dev(1) by (simp add: dmx_start_handle_def drv_call_def dev'_def)
  with start_handle_inv [OF dev(2) start] dev(1) d' show ?thesis
    by (auto simp: drv_dev_ok_def dev'_def split: if_splits)
qed

lemma set_filter_ok:
  assumes "drv_dev_ok D dinv dev"
    and law: "\<And>d fs i n. dinv d fs \<Longrightarrow> tab_ok fs \<Longrightarrow> i < 32 \<Longrightarrow> f_used (fs ! i) \<Longrightarrow> \<not> f_enable (fs ! i) \<Longrightarrow>
      \<exists>g r d'. s = Some g \<and> g n (fs ! i) p d = Some (r, d') \<and> dinv d' fs"
  shows "\<exists>r dev'. dmx_set_filter s h p dev = Some (r, dev') \<and> drv_dev_ok D dinv dev'"
proof (cases "s = None \<or> (\<exists>e. dmx_get_used_filter dev h = Inl e)")
  case True
  with assms(1) show ?thesis by (auto simp: dmx_set_filter_def split: option.splits)
next
  case False
  then obtain g i where g: "s = Some g" and u: "dmx_get_used_filter dev h = Inr i"
    by (cases "dmx_get_used_filter dev h") auto
  then have i: "i < 32" "f_used (filters dev ! i)" by (simp_all add: used_filter_iff)
  from stop_ok [OF assms(1) i(1)] i(2) obtain r1 dev1 where stop: "dmx_stop_filter i dev = Some (r1, dev1)"
    and ok1: "drv_dev_ok D dinv dev1" "f_used (filters dev1 ! i)" "r1 = 0 \<longrightarrow> \<not> f_enable (filters dev1 ! i)" by auto
  show ?thesis
  proof (cases "r1 = 0")
    case True
    note dev1 = dev_okD [OF ok1(1)]
    from law [OF dev1(3,4) i(1) ok1(2), of "dev_no dev1"] ok1(3) True g obtain r d' where
      "g (dev_no dev1) (filters dev1 ! i) p (drv_data dev1) = Some (r, d')" "dinv d' (filters dev1)" by auto
    with True g u stop dev1 show ?thesis by (simp add: dmx_set_filter_def drv_call_def drv_dev_ok_def)
  qed (use g u stop ok1 in \<open>simp add: dmx_set_filter_def\<close>)
qed

lemma handle_ops_ok:
  assumes "drv_dev_ok D dinv dev"
  shows "\<exists>r dev'. dmx_free_handle h dev = Some (r, dev') \<and> drv_dev_ok D dinv dev'"
    and "\<exists>r dev'. dmx_stop_handle h dev = Some (r, dev') \<and> drv_dev_ok D dinv dev'"
    and "\<exists>r dev'. dmx_set_buffer_size h sz dev = Some (r, dev') \<and> drv_dev_ok D dinv dev'"
    and "\<exists>r dev'. dmx_set_callback h cb u dev = Some (r, dev') \<and> drv_dev_ok D dinv dev'"
    and "\<exists>r dev'. dmx_set_source s dev = Some (r, dev') \<and> drv_dev_ok D dinv dev'"
proof -
  note dev = dev_okD [OF assms]
  show "\<exists>r dev'. dmx_free_handle h dev = Some (r, dev') \<and> drv_dev_ok D dinv dev'"
    using assms free_ok [OF assms]
    by (cases "dmx_get_used_filter dev h")
       (auto simp: dmx_free_handle_def dest: used_filter_iff [THEN iffD1])
  show "\<exists>r dev'. dmx_stop_handle h dev = Some (r, dev') \<and> drv_dev_ok D dinv dev'"
    using assms stop_ok [OF assms]
    by (cases "dmx_get_used_filter dev h")
       (fastforce simp: dmx_stop_handle_def dest: used_filter_iff [THEN iffD1])+
  show "\<exists>r dev'. dmx_set_buffer_size h sz dev = Some (r, dev') \<and> drv_dev_ok D dinv dev'"
  proof (cases "dmx_get_used_filter dev h")
    case (Inl e)
    with assms show ?thesis by (auto simp: dmx_set_buffer_size_def split: option.splits)
  next
    case (Inr i)
    then have "i < 32" "f_used (filters dev ! i)" by (simp_all add: used_filter_iff)
    from set_buf_law [OF dev(3,4) this, of "dev_no dev" sz] obtain g r d' where
      "drv_set_buf_size D = Some g" "g (dev_no dev) (filters dev ! i) sz (drv_data dev) = Some (r, d')"
      "dinv d' (filters dev)" by blast
    with Inr dev show ?thesis by (simp add: dmx_set_buffer_size_def drv_call_def drv_dev_ok_def)
  qed
  show "\<exists>r dev'. dmx_set_callback h cb u dev = Some (r, dev') \<and> drv_dev_ok D dinv dev'"
  proof (cases "dmx_get_used_filter dev h")
    case (Inr i)
    then have i: "i < 32" "f_used (filters dev ! i)" by (simp_all add: used_filter_iff)
    have eq: "dmx_set_callback h cb u dev = Some (AM_SUCCESS, upd_filter i (\<lambda>f. f\<lparr>f_cb := cb, f_user_data := u\<rparr>) dev)"
      using Inr by (simp add: dmx_set_callback_def)
    with set_callback_inv [OF dev(2) eq] callback_law [OF dev(3,4) i] dev(1) show ?thesis
      by (simp add: drv_dev_ok_def)
  qed (use assms in \<open>simp add: dmx_set_callback_def\<close>)
  from set_source_law [OF dev(3,4), of "dev_no dev" s] obtain g r d' where
    "drv_set_source D = Some g" "g (dev_no dev) s (drv_data dev) = Some (r, d')" "dinv d' (filters dev)" by blast
  with dev show "\<exists>r dev'. dmx_set_source s dev = Some (r, dev') \<and> drv_dev_ok D dinv dev'"
    by (simp add: dmx_set_source_def drv_call_def drv_dev_ok_def)
qed

lemma thread_filters_ok:
  "drv_dev_ok D dinv dev \<Longrightarrow> (\<forall>i \<in> set is. i < 32) \<Longrightarrow> dmx_thread_filters m is dev = Some (cs, dev') \<Longrightarrow>
     drv_dev_ok D dinv dev'"
proof (induction "is" arbitrary: dev cs)
  case (Cons i "is")
  from Cons.prems(3) obtain cs1 dev1 cs2 where f: "dmx_thread_filter m i dev = Some (cs1, dev1)"
    "dmx_thread_filters m is dev1 = Some (cs2, dev')" by (auto split: option.splits prod.splits)
  note dev = dev_okD [OF Cons.prems(1)]
  have "drv_dev_ok D dinv dev1"
  proof (cases "\<not> bit m i \<or> \<not> f_enable (filters dev ! i) \<or> \<not> f_used (filters dev ! i)")
    case True
    then have "dev1 = dev" using f(1) by (auto simp: dmx_thread_filter_def Let_def)
    with Cons.prems(1) show ?thesis by simp
  next
    case False
    with f(1) obtain r sec d where
      r: "drv_read (drv dev) (dev_no dev) (filters dev ! i) 4096 (drv_data dev) = Some (r, sec, d)"
      and d1: "dev1 = dev\<lparr>drv_data := d\<rparr>"
      by (auto simp: dmx_thread_filter_def Let_def split: option.splits prod.splits if_splits)
    have "dinv d (filters dev)"
      using read_law [OF dev(3,4) _ _ r [unfolded dev(1)]] False Cons.prems(2) by auto
    with d1 dev show ?thesis by (simp add: drv_dev_ok_def dmx_dev_inv_def)
  qed
  with Cons.IH f(2) Cons.prems(2) show ?case by auto
qed simp

text \<open>An iteration of the data thread, when it is defined, keeps the relation.\<close>

lemma thread_ok:
  assumes ok: "drv_dev_ok D dinv dev" and thread: "dmx_data_thread dev = Some (cs, dev')"
  shows "drv_dev_ok D dinv dev'"
proof (cases "enable_thread dev")
  case False
  with assms show ?thesis by (simp add: dmx_data_thread_def)
next
  case True
  note dev = dev_okD [OF ok]
  from True thread obtain r m pc d where
    p: "drv_poll (drv dev) (dev_no dev) (filters dev) (drv_data dev) = Some (r, m, pc, d)"
    by (auto simp: dmx_data_thread_def split: option.splits prod.splits)
  have "dinv d (filters dev)" using poll_law [OF dev(3,4) p [unfolded dev(1)]] .
  then have ok1: "drv_dev_ok D dinv (dev\<lparr>drv_data := d\<rparr>)" "drv_dev_ok D dinv (dev\<lparr>drv_data := d, run_cb := True\<rparr>)"
    using dev by (simp_all add: drv_dev_ok_def dmx_dev_inv_def)
  show ?thesis
  proof (cases "r \<noteq> 0 \<or> m = 0")
    case False
    with True thread p obtain cs2 dev2 where
      t: "dmx_thread_filters m [0 ..< 32] (dev\<lparr>drv_data := d, run_cb := True\<rparr>) = Some (cs2, dev2)"
      "dev' = dev2\<lparr>run_cb := False\<rparr>"
      by (auto simp: dmx_data_thread_def Let_def split: option.splits prod.splits)
    have "drv_dev_ok D dinv dev2" by (rule thread_filters_ok [OF ok1(2) _ t(1)]) simp
    with t(2) show ?thesis by (simp add: drv_dev_ok_def dmx_dev_inv_def)
  qed (use True thread p ok1 in \<open>auto simp: dmx_data_thread_def Let_def\<close>)
qed

end

locale reliable_dmx_driver = dmx_driver +
  assumes disable_reliable: "dinv d fs \<Longrightarrow> tab_ok fs \<Longrightarrow> i < 32 \<Longrightarrow> f_used (fs ! i) \<Longrightarrow> f_enable (fs ! i) \<Longrightarrow>
      drv_enable_filter D = Some g \<Longrightarrow> g n (fs ! i) False d = Some (r, d') \<Longrightarrow> r = AM_SUCCESS"
    and free_reliable: "dinv d fs \<Longrightarrow> tab_ok fs \<Longrightarrow> i < 32 \<Longrightarrow> f_used (fs ! i) \<Longrightarrow> \<not> f_enable (fs ! i) \<Longrightarrow>
      drv_free_filter D = Some g' \<Longrightarrow> g' n (fs ! i) d = Some (r, d') \<Longrightarrow> r = AM_SUCCESS"
begin

lemma stop_succeeds:
  assumes ok: "drv_dev_ok D dinv dev" and i: "i < 32"
    and stop: "dmx_stop_filter i dev = Some (r, dev')"
  shows "r = AM_SUCCESS"
proof (cases "f_used (filters dev ! i) \<and> f_enable (filters dev ! i)")
  case True
  from disable_law [OF dev_okD(3,4) [OF ok] i, of "dev_no dev"] True obtain g r' d' where
    g: "drv_enable_filter D = Some g" "g (dev_no dev) (filters dev ! i) False (drv_data dev) = Some (r', d')" by blast
  with disable_reliable [OF dev_okD(3,4) [OF ok] i _ _ g] True stop dev_okD(1) [OF ok] show ?thesis
    by (auto simp: dmx_stop_filter_def drv_call_def split: if_splits)
qed (use stop in \<open>auto simp: dmx_stop_filter_def\<close>)

lemma free_succeeds:
  assumes ok: "drv_dev_ok D dinv dev" and i: "i < 32"
  shows "\<exists>dev'. dmx_free_filter i dev = Some (AM_SUCCESS, dev') \<and> drv_dev_ok D dinv dev' \<and>
    (\<forall>j < 32. f_used (filters dev' ! j) = (f_used (filters dev ! j) \<and> j \<noteq> i))"
proof (cases "f_used (filters dev ! i)")
  case False
  with ok show ?thesis by (auto simp: dmx_free_filter_def)
next
  case True
  from stop_ok [OF ok i] obtain r1 dev1 where stop: "dmx_stop_filter i dev = Some (r1, dev1)"
    and ok1: "drv_dev_ok D dinv dev1" "f_used (filters dev1 ! i) = f_used (filters dev ! i)"
      "r1 = 0 \<longrightarrow> \<not> f_enable (filters dev1 ! i)" by blast
  have r1: "r1 = 0" using stop_succeeds [OF ok i stop] .
  have used1: "f_used (filters dev1 ! j) = f_used (filters dev ! j)" for j
    using stop by (auto simp: dmx_stop_filter_def drv_call_def nth_update_if split: if_splits option.splits)
  note dev1 = dev_okD [OF ok1(1)]
  have ne: "\<not> f_enable (filters dev1 ! i)" "f_used (filters dev1 ! i)" using ok1 r1 True by auto
  from free_law [OF dev1(3,4) i ne(2,1), of "dev_no dev1"] obtain g r d' where
    g: "drv_free_filter D = Some g" "g (dev_no dev1) (filters dev1 ! i) (drv_data dev1) = Some (r, d')" by blast
  have r: "r = 0" using free_reliable [OF dev1(3,4) i ne(2,1) g] .
  define dev' where "dev' = upd_filter i (\<lambda>f. f\<lparr>f_used := False\<rparr>) (dev1\<lparr>drv_data := d'\<rparr>)"
  have free: "dmx_free_filter i dev = Some (0, dev')"
    using True stop r1 r g dev1(1) by (simp add: dmx_free_filter_def drv_call_def dev'_def)
  with free_ok [OF ok i] have "drv_dev_ok D dinv dev'" by auto
  with free used1 i dev1(5) show ?thesis by (auto simp: dev'_def nth_update_if)
qed

lemma free_filters_all:
  "drv_dev_ok D dinv dev \<Longrightarrow> (\<forall>i \<in> set is. i < 32) \<Longrightarrow> dmx_free_filters is dev = Some dev' \<Longrightarrow>
     \<forall>j < 32. f_used (filters dev' ! j) = (f_used (filters dev ! j) \<and> j \<notin> set is)"
proof (induction "is" arbitrary: dev)
  case (Cons i "is")
  from free_succeeds [of dev i] Cons.prems obtain dev1 where
    f: "dmx_free_filter i dev = Some (0, dev1)" "drv_dev_ok D dinv dev1"
      "\<forall>j < 32. f_used (filters dev1 ! j) = (f_used (filters dev ! j) \<and> j \<noteq> i)" by auto
  with Cons.IH [OF f(2)] Cons.prems show ?case by auto
qed simp

text \<open>The last close leaves no filter in use.\<close>

lemma close_frees_all:
  assumes "drv_dev_ok D dinv dev" "open_count dev = 1"
  shows "\<exists>dev'. dmx_close_dev dev = Some (AM_SUCCESS, dev') \<and> open_count dev' = 0 \<and> (\<forall>j < 32. \<not> f_used (filters dev' ! j))"
proof -
  from close_ok [OF assms(1)] obtain dev' where c: "dmx_close_dev dev = Some (0, dev')" by blast
  with assms(2) obtain dev1 r dev2 where
    f: "dmx_free_filters [0 ..< 32] (dev\<lparr>enable_thread := False\<rparr>) = Some dev1"
       "drv_call (drv_close (drv dev1)) (\<lambda>g. g (dev_no dev1)) dev1 = Some (r, dev2)"
       "dev' = dev2\<lparr>open_count := open_count dev2 - 1\<rparr>"
    by (auto simp: dmx_close_dev_def split: option.splits)
  have ok: "drv_dev_ok D dinv (dev\<lparr>enable_thread := False\<rparr>)" using assms(1) by (simp add: drv_dev_ok_def)
  have "filters dev2 = filters dev1" "open_count dev2 = open_count dev1"
    using f(2) by (auto simp: drv_call_def split: option.splits)
  moreover have "open_count dev1 = open_count dev"
    using free_filters_inv [OF _ _ f(1)] ok by (simp add: drv_dev_ok_def same_frame_def)
  ultimately show ?thesis using c f(3) free_filters_all [OF ok _ f(1)] assms(2) by auto
qed

end

end
