(* ===== verification/Dmx_Kernel.thy ===== *)
theory Dmx_Kernel
  imports Dmx_Driver
begin

text \<open>
  What the demux drivers see of the kernel, as a parameter: a record of functions on an arbitrary
  kernel state \<open>'k\<close>. Nothing is assumed about them but their types: any call may fail and any
  call may change the kernel state. File names are strings; \<^verbatim>\<open>AM_FileEcho\<close> writes a string to
  a sysfs file. The private data of a device is a pointer to the structure of one of the two
  drivers, or null.
\<close>

datatype dmx_ioctl =
    DMX_START | DMX_STOP
  | DMX_SET_FILTER dmx_sct_filter_params
  | DMX_SET_PES_FILTER dmx_pes_filter_params
  | DMX_SET_BUFFER_SIZE int

record 'k kernel =
  k_malloc :: "'k \<Rightarrow> bool \<times> 'k"
  k_open :: "string \<Rightarrow> 'k \<Rightarrow> nat option \<times> 'k"
  k_close :: "nat \<Rightarrow> 'k \<Rightarrow> 'k"
  k_ioctl :: "nat \<Rightarrow> dmx_ioctl \<Rightarrow> 'k \<Rightarrow> bool \<times> 'k"
  k_nonblock :: "nat \<Rightarrow> 'k \<Rightarrow> 'k"
  k_poll :: "nat list \<Rightarrow> 'k \<Rightarrow> bool list option \<times> 'k"
  k_read :: "nat \<Rightarrow> nat \<Rightarrow> 'k \<Rightarrow> (bool + byte list) \<times> 'k"
  k_echo :: "string \<Rightarrow> string \<Rightarrow> 'k \<Rightarrow> errcode \<times> 'k"

text \<open>
  \<open>k_poll\<close> gives \<open>None\<close> on timeout or error, otherwise for each descriptor whether it is ready.
  \<open>k_read\<close> reads at least one and at most the given number of bytes; otherwise it says whether
  \<^verbatim>\<open>errno\<close> is \<^verbatim>\<open>ETIMEDOUT\<close>.
\<close>

text \<open>The decimal digit the drivers print for a device number (0 or 1).\<close>

definition dev_digit :: "int \<Rightarrow> string" where
  "dev_digit n = (if n = 0 then ''0'' else if n = 1 then ''1'' else ''?'')"

record DVR_Channel =
  ch_used :: int
  ch_pid :: int
  ch_filters :: "nat option"
  ch_buf :: "byte list"
  ch_size :: nat
  ch_cc :: int
  ch_is_sec :: bool

record DVR_Filter =
  df_used :: bool
  df_sec_filter :: bool
  df_dmx_filter :: nat
  df_chan :: "nat option"
  df_pid :: int
  df_filter :: "byte list"
  df_maskandmode :: "byte list"
  df_maskandnotmode :: "byte list"

text \<open>
  \<open>dm_start\<close> is the unparsed rest at the start of \<^verbatim>\<open>buf\<close>, so its length is the field
  \<^verbatim>\<open>start\<close>.
\<close>

record DVR_Demux =
  dm_start :: "byte list"
  dvr_channels :: "DVR_Channel list"
  dvr_filters :: "DVR_Filter list"
  dvr_fd :: nat
  dmx_fds :: "nat list"
  dmx_cnt :: nat

datatype drv_ptr = DrvNull | DrvDvb "nat option list" | DrvDvr DVR_Demux

record 'k dmx_priv =
  priv :: drv_ptr
  kern :: 'k

definition source_name :: "AM_DMX_Source \<Rightarrow> string option" where
  "source_name s =
     (case s of
        AM_DMX_SRC_TS0 \<Rightarrow> Some ''ts0''
      | AM_DMX_SRC_TS1 \<Rightarrow> Some ''ts1''
      | AM_DMX_SRC_TS2 \<Rightarrow> None
      | AM_DMX_SRC_HIU \<Rightarrow> Some ''hiu'')"

end
