(* ===== verification/Linux_Dvb_Dmx.thy ===== *)
theory Linux_Dvb_Dmx
  imports Dmx_Kernel
begin

text \<open>
  The kernel demux driver, \<^verbatim>\<open>dvb/am_adp/am_dmx/linux_dvb/linux_dvb.c\<close>: each allocated filter is
  an open file of the kernel's demux device; the structure keeps the descriptor of each filter
  (\<open>None\<close> is -1), and the filter's \<^verbatim>\<open>drv_data\<close> is the same descriptor. Dereferencing a private
  pointer that is not this driver's structure is undefined.
\<close>

definition AM_DMX_ERR_NO_DATA :: errcode where
  "AM_DMX_ERR_NO_DATA = AM_ERROR_BASE AM_MOD_DMX + 12"

lemmas dvb_codes [err_code, simp] = AM_DMX_ERR_NO_DATA_def

definition dvb_open :: "'k kernel \<Rightarrow> int \<Rightarrow> AM_DMX_OpenPara \<Rightarrow> 'k dmx_priv \<Rightarrow> (errcode \<times> 'k dmx_priv) option" where
  "dvb_open K n para d =
     (case k_malloc K (kern d) of
        (ok, k) \<Rightarrow>
          if \<not> ok then Some (AM_DMX_ERR_NO_MEM, d\<lparr>kern := k\<rparr>)
          else Some (AM_SUCCESS, d\<lparr>priv := DrvDvb (replicate DMX_FILTER_COUNT None), kern := k\<rparr>))"

definition dvb_close :: "int \<Rightarrow> 'k dmx_priv \<Rightarrow> (errcode \<times> 'k dmx_priv) option" where
  "dvb_close n d = Some (AM_SUCCESS, d\<lparr>priv := DrvNull\<rparr>)"

definition dvb_alloc_filter :: "'k kernel \<Rightarrow> int \<Rightarrow> AM_DMX_Filter \<Rightarrow> 'k dmx_priv
    \<Rightarrow> (errcode \<times> ptr \<times> 'k dmx_priv) option" where
  "dvb_alloc_filter K n f d =
     (case priv d of
        DrvDvb fds \<Rightarrow>
          (case k_open K (''/dev/dvb0.demux'' @ dev_digit n) (kern d) of
             (None, k) \<Rightarrow> Some (AM_DMX_ERR_CANNOT_OPEN_DEV, f_drv_data f, d\<lparr>kern := k\<rparr>)
           | (Some fd, k) \<Rightarrow>
               if f_id f < length fds
               then Some (AM_SUCCESS, fd, d\<lparr>priv := DrvDvb (fds[f_id f := Some fd]), kern := k\<rparr>)
               else None)
      | _ \<Rightarrow> None)"

definition dvb_free_filter :: "'k kernel \<Rightarrow> int \<Rightarrow> AM_DMX_Filter \<Rightarrow> 'k dmx_priv \<Rightarrow> (errcode \<times> 'k dmx_priv) option" where
  "dvb_free_filter K n f d =
     (case priv d of
        DrvDvb fds \<Rightarrow>
          (let k = k_close K (f_drv_data f) (kern d)
           in if f_id f < length fds
              then Some (AM_SUCCESS, d\<lparr>priv := DrvDvb (fds[f_id f := None]), kern := k\<rparr>)
              else None)
      | _ \<Rightarrow> None)"

text \<open>\<^verbatim>\<open>ret = ioctl(fd, ...); if(ret==-1) return AM_DMX_ERR_SYS;\<close>\<close>

definition dvb_ioctl :: "'k kernel \<Rightarrow> AM_DMX_Filter \<Rightarrow> dmx_ioctl \<Rightarrow> 'k dmx_priv \<Rightarrow> (errcode \<times> 'k dmx_priv) option" where
  "dvb_ioctl K f cmd d =
     (case k_ioctl K (f_drv_data f) cmd (kern d) of
        (ok, k) \<Rightarrow> Some (if ok then AM_SUCCESS else AM_DMX_ERR_SYS, d\<lparr>kern := k\<rparr>))"

definition dvb_set_sec_filter :: "'k kernel \<Rightarrow> int \<Rightarrow> AM_DMX_Filter \<Rightarrow> dmx_sct_filter_params \<Rightarrow> 'k dmx_priv
    \<Rightarrow> (errcode \<times> 'k dmx_priv) option" where
  "dvb_set_sec_filter K n f params d = dvb_ioctl K f (DMX_SET_FILTER params) d"

definition dvb_set_pes_filter :: "'k kernel \<Rightarrow> int \<Rightarrow> AM_DMX_Filter \<Rightarrow> dmx_pes_filter_params \<Rightarrow> 'k dmx_priv
    \<Rightarrow> (errcode \<times> 'k dmx_priv) option" where
  "dvb_set_pes_filter K n f params d =
     dvb_ioctl K f (DMX_SET_PES_FILTER params) (d\<lparr>kern := k_nonblock K (f_drv_data f) (kern d)\<rparr>)"

definition dvb_enable_filter :: "'k kernel \<Rightarrow> int \<Rightarrow> AM_DMX_Filter \<Rightarrow> bool \<Rightarrow> 'k dmx_priv
    \<Rightarrow> (errcode \<times> 'k dmx_priv) option" where
  "dvb_enable_filter K n f enable d = dvb_ioctl K f (if enable then DMX_START else DMX_STOP) d"

definition dvb_set_buf_size :: "'k kernel \<Rightarrow> int \<Rightarrow> AM_DMX_Filter \<Rightarrow> int \<Rightarrow> 'k dmx_priv
    \<Rightarrow> (errcode \<times> 'k dmx_priv) option" where
  "dvb_set_buf_size K n f sz d = dvb_ioctl K f (DMX_SET_BUFFER_SIZE sz) d"

text \<open>The filters with a descriptor, in order, with the filter's number.\<close>

definition dvb_poll_set :: "nat option list \<Rightarrow> (nat \<times> nat) list" where
  "dvb_poll_set fds = [(i, the (fds ! i)). i \<leftarrow> [0 ..< length fds], fds ! i \<noteq> None]"

definition dvb_poll :: "'k kernel \<Rightarrow> int \<Rightarrow> AM_DMX_Filter list \<Rightarrow> 'k dmx_priv
    \<Rightarrow> (errcode \<times> 32 word \<times> dmx_call list \<times> 'k dmx_priv) option" where
  "dvb_poll K n fs d =
     (case priv d of
        DrvDvb fds \<Rightarrow>
          (let ps = dvb_poll_set fds
           in if ps = [] then Some (AM_DMX_ERR_TIMEOUT, 0, [], d)
              else (case k_poll K (map snd ps) (kern d) of
                      (None, k) \<Rightarrow> Some (AM_DMX_ERR_TIMEOUT, 0, [], d\<lparr>kern := k\<rparr>)
                    | (Some rdy, k) \<Rightarrow>
                        Some (AM_SUCCESS,
                              foldr (\<lambda>((i, _), r) m. if r then set_bit i m else m) (zip ps rdy) 0,
                              [], d\<lparr>kern := k\<rparr>)))
      | _ \<Rightarrow> None)"

definition dvb_read :: "'k kernel \<Rightarrow> int \<Rightarrow> AM_DMX_Filter \<Rightarrow> nat \<Rightarrow> 'k dmx_priv
    \<Rightarrow> (errcode \<times> byte list \<times> 'k dmx_priv) option" where
  "dvb_read K n f len d =
     (case k_poll K [f_drv_data f] (kern d) of
        (None, k) \<Rightarrow> Some (AM_DMX_ERR_NO_DATA, [], d\<lparr>kern := k\<rparr>)
      | (Some _, k) \<Rightarrow>
          (case k_read K (f_drv_data f) len k of
             (Inl timedout, k') \<Rightarrow> Some (if timedout then AM_DMX_ERR_TIMEOUT else AM_DMX_ERR_SYS, [], d\<lparr>kern := k'\<rparr>)
           | (Inr bs, k') \<Rightarrow> Some (AM_SUCCESS, bs, d\<lparr>kern := k'\<rparr>)))"

definition dvb_set_source :: "'k kernel \<Rightarrow> int \<Rightarrow> AM_DMX_Source \<Rightarrow> 'k dmx_priv \<Rightarrow> (errcode \<times> 'k dmx_priv) option" where
  "dvb_set_source K n s d =
     (case source_name s of
        None \<Rightarrow> Some (AM_DMX_ERR_NOT_SUPPORTED, d)
      | Some cmd \<Rightarrow>
          (case k_echo K (''/sys/class/stb/demux'' @ dev_digit n @ ''_source'') cmd (kern d) of
             (r, k) \<Rightarrow> Some (r, d\<lparr>kern := k\<rparr>)))"

definition linux_dvb_dmx_drv :: "'k kernel \<Rightarrow> 'k dmx_priv AM_DMX_Driver" where
  "linux_dvb_dmx_drv K =
     \<lparr>drv_open = Some (dvb_open K), drv_close = Some dvb_close,
      drv_alloc_filter = Some (dvb_alloc_filter K), drv_free_filter = Some (dvb_free_filter K),
      drv_set_sec_filter = Some (dvb_set_sec_filter K), drv_set_pes_filter = Some (dvb_set_pes_filter K),
      drv_enable_filter = Some (dvb_enable_filter K), drv_set_buf_size = Some (dvb_set_buf_size K),
      drv_poll = dvb_poll K, drv_read = dvb_read K, drv_set_source = Some (dvb_set_source K)\<rparr>"

subsection \<open>The driver keeps its contract\<close>

text \<open>The descriptor table and the filter table agree: a filter has a descriptor iff it is used.\<close>

definition dvb_inv :: "'k dmx_priv \<Rightarrow> AM_DMX_Filter list \<Rightarrow> bool" where
  "dvb_inv d fs \<longleftrightarrow>
     (\<exists>fds. priv d = DrvDvb fds \<and> length fds = DMX_FILTER_COUNT \<and>
        (\<forall>i < DMX_FILTER_COUNT. fds ! i = (if f_used (fs ! i) then Some (f_drv_data (fs ! i)) else None)))"

lemma dvb_ioctl_defined:
  "\<exists>r k. dvb_ioctl K f cmd d = Some (r, d\<lparr>kern := k\<rparr>) \<and> r \<ge> 0"
  by (cases "k_ioctl K (f_drv_data f) cmd (kern d)") (auto simp: dvb_ioctl_def)

lemma dvb_inv_kern [simp]: "dvb_inv (d\<lparr>kern := k\<rparr>) fs = dvb_inv d fs"
  by (simp add: dvb_inv_def)

text \<open>Changes of a filter that leave \<open>used\<close> and \<open>drv_data\<close> alone do not matter.\<close>

lemma dvb_inv_frame:
  assumes "f_used (fs ! i) = f_used f" "f_drv_data (fs ! i) = f_drv_data f"
  shows "dvb_inv d fs \<Longrightarrow> dvb_inv d (fs[i := f])"
  using assms by (auto simp: dvb_inv_def nth_update_if)

interpretation linux_dvb: dmx_driver "linux_dvb_dmx_drv K" dvb_inv for K :: "'k kernel"
proof (unfold_locales, goal_cases)
  case (1 d fs i n)
  then obtain fds where fds: "priv d = DrvDvb fds" "length fds = 32"
    "\<forall>j < 32. fds ! j = (if f_used (fs ! j) then Some (f_drv_data (fs ! j)) else None)"
    by (auto simp: dvb_inv_def)
  obtain o' k where k: "k_open K (''/dev/dvb0.demux'' @ dev_digit n) (kern d) = (o', k)" by force
  show ?case
  proof (cases o')
    case None
    with 1 k fds show ?thesis
      by (auto simp: linux_dvb_dmx_drv_def dvb_alloc_filter_def dvb_inv_def nth_update_if)
  next
    case (Some fd)
    with 1 k fds tab_okD(1) [OF 1(2)] show ?thesis
      by (auto simp: linux_dvb_dmx_drv_def dvb_alloc_filter_def dvb_inv_def nth_update_if)
  qed
next
  case (2 d fs i n)
  obtain r k where "dvb_ioctl K (fs ! i) DMX_START d = Some (r, d\<lparr>kern := k\<rparr>)"
    using dvb_ioctl_defined [of K "fs ! i" DMX_START d] by blast
  then have "dvb_enable_filter K n (fs ! i) True d = Some (r, d\<lparr>kern := k\<rparr>)" by (simp add: dvb_enable_filter_def)
  with 2 show ?case
    by (intro exI [of _ "dvb_enable_filter K"] exI [of _ r] exI [of _ "d\<lparr>kern := k\<rparr>"])
       (auto simp: linux_dvb_dmx_drv_def intro: dvb_inv_frame)
next
  case (3 d fs i n)
  obtain r k where "dvb_ioctl K (fs ! i) DMX_STOP d = Some (r, d\<lparr>kern := k\<rparr>)"
    using dvb_ioctl_defined [of K "fs ! i" DMX_STOP d] by blast
  then have "dvb_enable_filter K n (fs ! i) False d = Some (r, d\<lparr>kern := k\<rparr>)" by (simp add: dvb_enable_filter_def)
  with 3 show ?case
    by (intro exI [of _ "dvb_enable_filter K"] exI [of _ r] exI [of _ "d\<lparr>kern := k\<rparr>"])
       (auto simp: linux_dvb_dmx_drv_def intro: dvb_inv_frame)
next
  case (4 d fs i n)
  then have "f_id (fs ! i) = i" using tab_okD(2) by (auto simp: filter_ok_def)
  with 4 show ?case
    by (auto simp: linux_dvb_dmx_drv_def dvb_free_filter_def dvb_inv_def Let_def nth_update_if tab_okD)
next
  case (5 d fs i n sp)
  then show ?case using dvb_ioctl_defined [of K "fs ! i" "DMX_SET_FILTER sp" d]
    by (auto simp: linux_dvb_dmx_drv_def dvb_set_sec_filter_def)
next
  case (6 d fs i n pp)
  then show ?case
    using dvb_ioctl_defined [of K "fs ! i" "DMX_SET_PES_FILTER pp" "d\<lparr>kern := k_nonblock K (f_drv_data (fs ! i)) (kern d)\<rparr>"]
    by (auto simp: linux_dvb_dmx_drv_def dvb_set_pes_filter_def)
next
  case (7 d fs i n sz)
  then show ?case using dvb_ioctl_defined [of K "fs ! i" "DMX_SET_BUFFER_SIZE sz" d]
    by (auto simp: linux_dvb_dmx_drv_def dvb_set_buf_size_def)
next
  case (8 d fs n s)
  then show ?case
    by (auto simp: linux_dvb_dmx_drv_def dvb_set_source_def split: option.splits prod.splits)
next
  case (9 d fs n)
  then show ?case by (simp add: linux_dvb_dmx_drv_def dvb_close_def)
next
  case (10 d fs i cb u)
  then show ?case by (intro dvb_inv_frame) auto
next
  case (11 fs n para d)
  then show ?case
    by (cases "k_malloc K (kern d)") (auto simp: linux_dvb_dmx_drv_def dvb_open_def dvb_inv_def)
next
  case (12 d fs n r m cs d')
  then show ?case
    by (auto simp: linux_dvb_dmx_drv_def dvb_poll_def Let_def dvb_inv_def split: if_splits option.splits prod.splits)
next
  case (13 d fs i n len r bs d')
  then show ?case
    by (auto simp: linux_dvb_dmx_drv_def dvb_read_def dvb_inv_def split: option.splits prod.splits sum.splits)
qed

text \<open>If stopping never fails in the kernel, the driver is reliable.\<close>

lemma linux_dvb_reliable:
  assumes "\<And>fd k. fst (k_ioctl K fd DMX_STOP k)"
  shows "reliable_dmx_driver (linux_dvb_dmx_drv K) dvb_inv"
proof (unfold_locales, goal_cases)
  case (1 d fs i g n r d')
  then show ?case using assms [of "f_drv_data (fs ! i)" "kern d"]
    by (cases "k_ioctl K (f_drv_data (fs ! i)) DMX_STOP (kern d)")
       (auto simp: linux_dvb_dmx_drv_def dvb_enable_filter_def dvb_ioctl_def split: if_splits)
next
  case (2 d fs i g n r d')
  then show ?case
    by (auto simp: linux_dvb_dmx_drv_def dvb_free_filter_def Let_def split: drv_ptr.splits if_splits)
qed

end
