(* ===== verification/Dvr_Dmx.thy ===== *)
theory Dvr_Dmx
  imports Dmx_Kernel
begin

unbundle bit_operations_syntax

text \<open>
  The software demux driver, \<^verbatim>\<open>dvb/am_adp/am_dmx/dvr/dvr.c\<close>. It records transport packets
  from the kernel's DVR device and filters them in user space: a channel per PID, shared by the
  filters on that PID and counted by \<^verbatim>\<open>used\<close>, reassembles sections; a completed section goes
  to the first filter of the channel whose mask matches. Pointers to channels and filters are
  indices. A channel's buffer is the fixed array of 4096 bytes: a copy past its end is undefined,
  and so is a null pointer.
\<close>

abbreviation (input) DVR_CHANNEL_COUNT :: nat where "DVR_CHANNEL_COUNT \<equiv> 32"
abbreviation (input) DVR_FILTER_COUNT :: nat where "DVR_FILTER_COUNT \<equiv> 32"
abbreviation (input) DVR_PID_COUNT :: nat where "DVR_PID_COUNT \<equiv> 32"

definition chan0 :: DVR_Channel where
  "chan0 = \<lparr>ch_used = 0, ch_pid = 0, ch_filters = None, ch_buf = replicate 4096 0, ch_size = 0,
     ch_cc = 0, ch_is_sec = False\<rparr>"

definition dfilter0 :: DVR_Filter where
  "dfilter0 = \<lparr>df_used = False, df_sec_filter = False, df_dmx_filter = 0, df_chan = None, df_pid = 0,
     df_filter = replicate DMX_FILTER_SIZE 0, df_maskandmode = replicate DMX_FILTER_SIZE 0,
     df_maskandnotmode = replicate DMX_FILTER_SIZE 0\<rparr>"

definition demux0 :: "nat \<Rightarrow> DVR_Demux" where
  "demux0 fd = \<lparr>dm_start = [], dvr_channels = replicate DVR_CHANNEL_COUNT chan0,
     dvr_filters = replicate DVR_FILTER_COUNT dfilter0, dvr_fd = fd,
     dmx_fds = replicate DVR_PID_COUNT 0, dmx_cnt = 0\<rparr>"

subsection \<open>Opening and closing\<close>

definition dvr_open :: "'k kernel \<Rightarrow> int \<Rightarrow> AM_DMX_OpenPara \<Rightarrow> 'k dmx_priv \<Rightarrow> (errcode \<times> 'k dmx_priv) option" where
  "dvr_open K n para d =
     (case k_open K (''/dev/dvb0.dvr'' @ dev_digit n) (kern d) of
        (None, k) \<Rightarrow> Some (AM_DMX_ERR_CANNOT_OPEN_DEV, d\<lparr>kern := k\<rparr>)
      | (Some fd, k) \<Rightarrow>
          (let k1 = k_nonblock K fd k;
               k2 = (if dvr_buf_size para > 0
                     then snd (k_ioctl K fd (DMX_SET_BUFFER_SIZE (dvr_buf_size para)) k1) else k1);
               k3 = (if dvr_fifo_no para \<ge> 0
                     then snd (k_echo K (''/sys/class/stb/asyncfifo'' @ dev_digit (dvr_fifo_no para) @ ''_source'')
                                 (''dmx'' @ dev_digit n) k2) else k2)
           in case k_malloc K k3 of
                (ok, k4) \<Rightarrow>
                  if \<not> ok then Some (AM_DMX_ERR_NO_MEM, d\<lparr>kern := k_close K fd k4\<rparr>)
                  else Some (AM_SUCCESS, d\<lparr>priv := DrvDvr (demux0 fd), kern := k4\<rparr>)))"

text \<open>\<^verbatim>\<open>dvr_close\<close> closes all 32 entries of \<^verbatim>\<open>dmx_fds\<close>, whatever \<^verbatim>\<open>dmx_cnt\<close> is.\<close>

definition dvr_close :: "'k kernel \<Rightarrow> int \<Rightarrow> 'k dmx_priv \<Rightarrow> (errcode \<times> 'k dmx_priv) option" where
  "dvr_close K n d =
     (case priv d of
        DrvDvr dmx \<Rightarrow>
          (let k = fold (k_close K) (take DVR_PID_COUNT (dmx_fds dmx)) (kern d)
           in Some (AM_SUCCESS, d\<lparr>priv := DrvNull, kern := k_close K (dvr_fd dmx) k\<rparr>))
      | _ \<Rightarrow> None)"

subsection \<open>Channels\<close>

definition dvr_find_channel :: "int \<Rightarrow> bool \<Rightarrow> DVR_Channel list \<Rightarrow> nat option \<times> DVR_Channel list" where
  "dvr_find_channel pid is_sec chs =
     (let i = first_idx (\<lambda>ch. ch_used ch \<noteq> 0 \<and> ch_pid ch = pid) chs
      in if i < length chs
         then if ch_is_sec (chs ! i) \<noteq> is_sec then (None, chs)
              else (Some i, chs[i := (chs ! i)\<lparr>ch_used := ch_used (chs ! i) + 1\<rparr>])
         else (let j = first_idx (\<lambda>ch. ch_used ch = 0) chs
               in if j < length chs
                  then (Some j, chs[j := (chs ! j)\<lparr>ch_used := 1, ch_is_sec := is_sec, ch_pid := pid,
                                                   ch_cc := -1, ch_filters := None\<rparr>])
                  else (None, chs)))"

text \<open>Reopening the kernel demux for every used channel, \<^verbatim>\<open>if(reset)\<close> of \<^verbatim>\<open>dvr_enable_filter\<close>.\<close>

fun dvr_record_pids :: "'k kernel \<Rightarrow> int \<Rightarrow> DVR_Channel list \<Rightarrow> nat list \<times> 'k \<Rightarrow> nat list \<times> 'k" where
  "dvr_record_pids K n [] (fds, k) = (fds, k)"
| "dvr_record_pids K n (ch # chs) (fds, k) =
     (if ch_used ch = 0 then dvr_record_pids K n chs (fds, k)
      else (case k_open K (''/dev/dvb0.demux'' @ dev_digit n) k of
              (None, k1) \<Rightarrow> dvr_record_pids K n chs (fds, k1)
            | (Some fd, k1) \<Rightarrow>
                (let k2 = snd (k_ioctl K fd (DMX_SET_PES_FILTER
                           \<lparr>pes_pid = ch_pid ch, pes_input = DMX_IN_FRONTEND, pes_output = DMX_OUT_TS_TAP,
                            pes_type = DMX_PES_OTHER\<rparr>) k1);
                     k3 = snd (k_ioctl K fd DMX_START k2)
                 in dvr_record_pids K n chs (fds @ [fd], k3))))"

definition dvr_reset :: "'k kernel \<Rightarrow> int \<Rightarrow> DVR_Demux \<times> 'k \<Rightarrow> DVR_Demux \<times> 'k" where
  "dvr_reset K n s =
     (case s of (dmx, k) \<Rightarrow>
        (case dvr_record_pids K n (dvr_channels dmx) ([], fold (k_close K) (take (dmx_cnt dmx) (dmx_fds dmx)) k) of
           (fds, k') \<Rightarrow> (dmx\<lparr>dmx_fds := fds @ drop (length fds) (dmx_fds dmx), dmx_cnt := length fds\<rparr>, k')))"

definition dvr_enable_filter :: "'k kernel \<Rightarrow> int \<Rightarrow> AM_DMX_Filter \<Rightarrow> bool \<Rightarrow> 'k dmx_priv
    \<Rightarrow> (errcode \<times> 'k dmx_priv) option" where
  "dvr_enable_filter K n fl enable d =
     (case priv d of
        DrvDvr dmx \<Rightarrow>
          if f_enable fl = enable then Some (AM_SUCCESS, d)
          else (let fi = f_drv_data fl; f = dvr_filters dmx ! fi
                in if enable
                   then (case dvr_find_channel (df_pid f) (df_sec_filter f) (dvr_channels dmx) of
                           (None, _) \<Rightarrow> Some (AM_DMX_ERR_NO_FREE_FILTER, d)
                         | (Some c, chs) \<Rightarrow>
                             (let dmx1 = dmx\<lparr>dvr_channels := chs,
                                             dvr_filters := (dvr_filters dmx)[fi := f\<lparr>df_chan := Some c\<rparr>]\<rparr>
                              in case (if ch_used (chs ! c) = 1 then dvr_reset K n (dmx1, kern d) else (dmx1, kern d)) of
                                   (dmx2, k) \<Rightarrow> Some (AM_SUCCESS, d\<lparr>priv := DrvDvr dmx2, kern := k\<rparr>)))
                   else (case df_chan f of
                           None \<Rightarrow> None
                         | Some c \<Rightarrow>
                             (let chs = (dvr_channels dmx)[c := (dvr_channels dmx ! c)\<lparr>ch_used := ch_used (dvr_channels dmx ! c) - 1\<rparr>];
                                  dmx1 = dmx\<lparr>dvr_channels := chs\<rparr>
                              in case (if ch_used (chs ! c) = 0 then dvr_reset K n (dmx1, kern d) else (dmx1, kern d)) of
                                   (dmx2, k) \<Rightarrow> Some (AM_SUCCESS, d\<lparr>priv := DrvDvr dmx2, kern := k\<rparr>))))
      | _ \<Rightarrow> None)"

subsection \<open>Filters\<close>

definition dvr_alloc_filter :: "int \<Rightarrow> AM_DMX_Filter \<Rightarrow> 'k dmx_priv \<Rightarrow> (errcode \<times> ptr \<times> 'k dmx_priv) option" where
  "dvr_alloc_filter n fl d =
     (case priv d of
        DrvDvr dmx \<Rightarrow>
          (let i = first_idx (\<lambda>f. \<not> df_used f) (dvr_filters dmx)
           in if i \<ge> length (dvr_filters dmx) then Some (AM_DMX_ERR_NO_FREE_FILTER, f_drv_data fl, d)
              else Some (AM_SUCCESS, i, d\<lparr>priv := DrvDvr (dmx\<lparr>dvr_filters :=
                     (dvr_filters dmx)[i := (dvr_filters dmx ! i)\<lparr>df_used := True, df_dmx_filter := f_id fl,
                                              df_sec_filter := True, df_pid := 0x1FFF\<rparr>]\<rparr>)\<rparr>))
      | _ \<Rightarrow> None)"

definition dvr_upd_filter :: "nat \<Rightarrow> (DVR_Filter \<Rightarrow> DVR_Filter) \<Rightarrow> 'k dmx_priv \<Rightarrow> 'k dmx_priv option" where
  "dvr_upd_filter fi g d =
     (case priv d of
        DrvDvr dmx \<Rightarrow> Some (d\<lparr>priv := DrvDvr (dmx\<lparr>dvr_filters := (dvr_filters dmx)[fi := g (dvr_filters dmx ! fi)]\<rparr>)\<rparr>)
      | _ \<Rightarrow> None)"

definition dvr_free_filter :: "'k kernel \<Rightarrow> int \<Rightarrow> AM_DMX_Filter \<Rightarrow> 'k dmx_priv \<Rightarrow> (errcode \<times> 'k dmx_priv) option" where
  "dvr_free_filter K n fl d =
     (case dvr_enable_filter K n fl False d of
        None \<Rightarrow> None
      | Some (_, d1) \<Rightarrow> map_option (\<lambda>d2. (AM_SUCCESS, d2)) (dvr_upd_filter (f_drv_data fl) (\<lambda>f. f\<lparr>df_used := False\<rparr>) d1))"

text \<open>The masks of byte \<open>i\<close>; bytes 1 and 2, the section length, never take part.\<close>

definition sec_masks :: "dmx_filter_t \<Rightarrow> (byte \<times> byte \<times> byte) list" where
  "sec_masks p =
     map (\<lambda>i. if i = 1 \<or> i = 2 then (0, 0, 0)
              else (let mask = flt_mask p ! i; mode = NOT (flt_mode p ! i)
                    in (flt_filter p ! i, mask AND mode, mask AND NOT mode)))
       [0 ..< DMX_FILTER_SIZE]"

text \<open>
  \<^verbatim>\<open>filter->enable\<close> is false whenever \<^verbatim>\<open>am_dmx.c\<close> calls the two setters; the disabling and
  enabling around the update are kept as the code has them.
\<close>

definition dvr_set_filter :: "'k kernel \<Rightarrow> (DVR_Filter \<Rightarrow> DVR_Filter) \<Rightarrow> int \<Rightarrow> AM_DMX_Filter \<Rightarrow> 'k dmx_priv
    \<Rightarrow> (errcode \<times> 'k dmx_priv) option" where
  "dvr_set_filter K upd n fl d =
     (case (if f_enable fl then map_option snd (dvr_enable_filter K n fl False d) else Some d) of
        None \<Rightarrow> None
      | Some d1 \<Rightarrow>
          (case dvr_upd_filter (f_drv_data fl) upd d1 of
             None \<Rightarrow> None
           | Some d2 \<Rightarrow>
               if f_enable fl then map_option (\<lambda>(_, d3). (AM_SUCCESS, d3)) (dvr_enable_filter K n fl True d2)
               else Some (AM_SUCCESS, d2)))"

definition dvr_set_sec_filter :: "'k kernel \<Rightarrow> int \<Rightarrow> AM_DMX_Filter \<Rightarrow> dmx_sct_filter_params \<Rightarrow> 'k dmx_priv
    \<Rightarrow> (errcode \<times> 'k dmx_priv) option" where
  "dvr_set_sec_filter K n fl params =
     dvr_set_filter K
       (\<lambda>f. f\<lparr>df_sec_filter := True, df_pid := sct_pid params,
              df_filter := map fst (sec_masks (sct_filter params)),
              df_maskandmode := map (fst \<circ> snd) (sec_masks (sct_filter params)),
              df_maskandnotmode := map (snd \<circ> snd) (sec_masks (sct_filter params))\<rparr>) n fl"

definition dvr_set_pes_filter :: "'k kernel \<Rightarrow> int \<Rightarrow> AM_DMX_Filter \<Rightarrow> dmx_pes_filter_params \<Rightarrow> 'k dmx_priv
    \<Rightarrow> (errcode \<times> 'k dmx_priv) option" where
  "dvr_set_pes_filter K n fl params =
     dvr_set_filter K (\<lambda>f. f\<lparr>df_sec_filter := False, df_pid := pes_pid params\<rparr>) n fl"

definition dvr_set_buf_size :: "int \<Rightarrow> AM_DMX_Filter \<Rightarrow> int \<Rightarrow> 'k dmx_priv \<Rightarrow> (errcode \<times> 'k dmx_priv) option" where
  "dvr_set_buf_size n fl sz d = Some (AM_SUCCESS, d)"

definition dvr_set_source :: "'k kernel \<Rightarrow> int \<Rightarrow> AM_DMX_Source \<Rightarrow> 'k dmx_priv \<Rightarrow> (errcode \<times> 'k dmx_priv) option" where
  "dvr_set_source K n s d =
     (case source_name s of
        None \<Rightarrow> Some (AM_DMX_ERR_NOT_SUPPORTED, d)
      | Some cmd \<Rightarrow>
          (case k_echo K (''/sys/class/stb/demux'' @ dev_digit n @ ''_source'') cmd (kern d) of
             (r, k) \<Rightarrow> Some (r, d\<lparr>kern := k\<rparr>)))"

subsection \<open>Sections\<close>

text \<open>The comparison of a section's first bytes with one filter, the inner loop of \<^verbatim>\<open>check_sec\<close>.\<close>

fun sec_match_loop :: "(byte \<times> byte \<times> byte \<times> byte) list \<Rightarrow> bool \<Rightarrow> bool \<Rightarrow> bool" where
  "sec_match_loop [] check_neq neq = (\<not> (check_neq \<and> \<not> neq))"
| "sec_match_loop ((b, v, mm, mnm) # rest) check_neq neq =
     (let x = b XOR v
      in if x AND mm \<noteq> 0 then False
         else sec_match_loop rest (check_neq \<or> mnm \<noteq> 0) (neq \<or> x AND mnm \<noteq> 0))"

definition sec_match :: "DVR_Filter \<Rightarrow> byte list \<Rightarrow> bool" where
  "sec_match f sec =
     sec_match_loop (zip (take DMX_FILTER_SIZE sec)
        (zip (df_filter f) (zip (df_maskandmode f) (df_maskandnotmode f)))) False False"

text \<open>
  \<^verbatim>\<open>data_cb\<close>, \<open>fs\<close> being the device's filters. The mutex is released around the callback.
\<close>

definition data_cb :: "int \<Rightarrow> AM_DMX_Filter \<Rightarrow> byte list \<Rightarrow> dmx_call list" where
  "data_cb n fl data =
     (case f_cb fl of
        None \<Rightarrow> []
      | Some cb \<Rightarrow> [(cb, n, f_id fl, Some data, length data, f_user_data fl)])"

text \<open>The first filter of the channel that matches gets the section.\<close>

definition sec_dispatch :: "int \<Rightarrow> AM_DMX_Filter list \<Rightarrow> DVR_Filter list \<Rightarrow> nat \<Rightarrow> byte list \<Rightarrow> nat \<Rightarrow> dmx_call list" where
  "sec_dispatch n fs dfs c buf len =
     (let fid = first_idx (\<lambda>f. df_used f \<and> df_chan f = Some c \<and> sec_match f buf) dfs
      in if fid < length dfs then data_cb n (fs ! df_dmx_filter (dfs ! fid)) (take len buf) else [])"

definition sec_len :: "byte list \<Rightarrow> nat" where
  "sec_len buf = ((unat (buf ! 1) * 256 + unat (buf ! 2)) mod 4096) + 3"

text \<open>
  \<^verbatim>\<open>check_sec\<close>: copy data into the channel's buffer up to the end of the section and dispatch
  a complete section. The result is the number of bytes used, the calls and the channel. A
  channel filled beyond the section's length would give \<^verbatim>\<open>memcpy\<close> a negative size.
\<close>

definition check_sec_body :: "(byte list \<Rightarrow> nat \<Rightarrow> dmx_call list) \<Rightarrow> byte list \<Rightarrow> nat \<Rightarrow> DVR_Channel
    \<Rightarrow> (nat \<times> dmx_call list \<times> DVR_Channel) option" where
  "check_sec_body disp data ret ch =
     (let slen = sec_len (ch_buf ch);
          cpy = min (slen - ch_size ch) (length data)
      in if slen < ch_size ch then None
         else case copy_into (ch_buf ch) (ch_size ch) (take cpy data) of
           None \<Rightarrow> None
         | Some buf \<Rightarrow>
             (let ch1 = ch\<lparr>ch_buf := buf, ch_size := ch_size ch + cpy\<rparr>
              in if slen = ch_size ch1
                 then Some (ret + cpy, disp buf (ch_size ch1), ch1\<lparr>ch_size := 0\<rparr>)
                 else Some (ret + cpy, [], ch1)))"

definition check_sec :: "(byte list \<Rightarrow> nat \<Rightarrow> dmx_call list) \<Rightarrow> byte list \<Rightarrow> DVR_Channel
    \<Rightarrow> (nat \<times> dmx_call list \<times> DVR_Channel) option" where
  "check_sec disp data ch =
     (if ch_size ch + length data < 3
      then (case copy_into (ch_buf ch) (ch_size ch) data of
              None \<Rightarrow> None
            | Some buf \<Rightarrow> Some (length data, [], ch\<lparr>ch_buf := buf\<rparr>))
      else if ch_size ch < 3
      then (let cpy = 3 - ch_size ch
            in case copy_into (ch_buf ch) (ch_size ch) (take cpy data) of
                 None \<Rightarrow> None
               | Some buf \<Rightarrow> check_sec_body disp (drop cpy data) cpy (ch\<lparr>ch_buf := buf, ch_size := 3\<rparr>))
      else check_sec_body disp data 0 ch)"

text \<open>
  The loop of \<^verbatim>\<open>parse_sec\<close>: not returning is the value \<open>None\<close> as well. \<^verbatim>\<open>pointer\<close> may be
  larger than what is left; then the loop is not entered.
\<close>

partial_function (option) parse_sec_loop :: "(byte list \<Rightarrow> nat \<Rightarrow> dmx_call list) \<Rightarrow> byte list \<Rightarrow> bool \<Rightarrow> DVR_Channel
    \<Rightarrow> (dmx_call list \<times> DVR_Channel) option" where
  [code]: "parse_sec_loop disp data first ch =
     (if data \<noteq> [] \<and> (first \<or> hd data \<noteq> 0xFF)
      then Option.bind (check_sec disp data ch)
             (\<lambda>(cnt, cs, ch1). Option.bind (parse_sec_loop disp (drop cnt data) False ch1)
                (\<lambda>(cs', ch2). Some (cs @ cs', ch2)))
      else Some ([], ch))"

definition parse_sec :: "(byte list \<Rightarrow> nat \<Rightarrow> dmx_call list) \<Rightarrow> byte list \<Rightarrow> bool \<Rightarrow> DVR_Channel
    \<Rightarrow> (dmx_call list \<times> DVR_Channel) option" where
  "parse_sec disp data p_start ch =
     (if p_start
      then (let pointer = unat (hd data); rest = tl data
            in Option.bind (if pointer \<le> length rest then check_sec disp (take pointer rest) ch else Some (0, [], ch))
                 (\<lambda>(_, cs, ch1). Option.bind (parse_sec_loop disp (drop pointer rest) True (ch1\<lparr>ch_size := 0\<rparr>))
                    (\<lambda>(cs', ch2). Some (cs @ cs', ch2))))
      else parse_sec_loop disp data True ch)"

definition parse_pes :: "int \<Rightarrow> AM_DMX_Filter list \<Rightarrow> DVR_Filter list \<Rightarrow> DVR_Channel \<Rightarrow> byte list \<Rightarrow> dmx_call list option" where
  "parse_pes n fs dfs ch data =
     (case ch_filters ch of
        None \<Rightarrow> None
      | Some fi \<Rightarrow> Some (data_cb n (fs ! df_dmx_filter (dfs ! fi)) data))"

subsection \<open>Transport packets\<close>

definition ts_pid :: "byte list \<Rightarrow> int" where
  "ts_pid p = int ((unat (p ! 1) * 256 + unat (p ! 2)) mod 8192)"

text \<open>The payload of a packet: after the header and the adaptation field.\<close>

definition ts_payload :: "byte list \<Rightarrow> byte list" where
  "ts_payload p = (if p ! 3 AND 0x20 \<noteq> 0 then drop (unat (p ! 4) + 1) (drop 4 p) else drop 4 p)"

text \<open>
  What \<^verbatim>\<open>parse_ts_packet\<close> does with the 188 bytes \<open>p\<close> of a packet. A wrong continuity counter is
  only logged.
\<close>

definition ts_packet :: "int \<Rightarrow> AM_DMX_Filter list \<Rightarrow> byte list \<Rightarrow> DVR_Demux \<Rightarrow> (dmx_call list \<times> DVR_Demux) option" where
  "ts_packet n fs p dmx =
     (if ts_pid p \<noteq> 0x1FFF \<and> p ! 3 AND 0xC0 = 0 \<and> p ! 1 AND 0x80 = 0 \<and> p ! 3 AND 0x10 \<noteq> 0
      then (let i = first_idx (\<lambda>ch. ch_used ch \<noteq> 0 \<and> ch_pid ch = ts_pid p) (dvr_channels dmx)
            in if i < length (dvr_channels dmx)
               then (let ch = dvr_channels dmx ! i; payload = ts_payload p
                     in case (if payload = [] then Some ([], ch)
                              else if ch_is_sec ch
                              then parse_sec (sec_dispatch n fs (dvr_filters dmx) i) payload (p ! 1 AND 0x40 \<noteq> 0) ch
                              else map_option (\<lambda>cs. (cs, ch)) (parse_pes n fs (dvr_filters dmx) ch payload)) of
                          None \<Rightarrow> None
                        | Some (cs, ch1) \<Rightarrow>
                            Some (cs, dmx\<lparr>dvr_channels :=
                              (dvr_channels dmx)[i := ch1\<lparr>ch_cc := uint (p ! 3 AND 0x0F)\<rparr>]\<rparr>))
               else Some ([], dmx))
      else Some ([], dmx))"

text \<open>
  \<^verbatim>\<open>parse_ts_packet\<close>: skip to a sync byte, and process one packet when it is complete. The result
  has the number of bytes used.
\<close>

definition parse_ts_packet :: "int \<Rightarrow> AM_DMX_Filter list \<Rightarrow> byte list \<Rightarrow> DVR_Demux
    \<Rightarrow> (nat \<times> dmx_call list \<times> DVR_Demux) option" where
  "parse_ts_packet n fs buf dmx =
     (let off = first_idx (\<lambda>b. b = 0x47) buf; p = drop off buf
      in if length p < 188 then Some (off, [], dmx)
         else map_option (\<lambda>(cs, dmx1). (off + 188, cs, dmx1)) (ts_packet n fs (take 188 p) dmx))"

text \<open>The loop of \<^verbatim>\<open>dvr_poll\<close>; the result has what is left.\<close>

function parse_ts_loop :: "int \<Rightarrow> AM_DMX_Filter list \<Rightarrow> byte list \<Rightarrow> DVR_Demux
    \<Rightarrow> (byte list \<times> dmx_call list \<times> DVR_Demux) option" where
  "parse_ts_loop n fs data dmx =
     (case parse_ts_packet n fs data dmx of
        None \<Rightarrow> None
      | Some (cnt, cs, dmx1) \<Rightarrow>
          if cnt \<noteq> 0 \<and> drop cnt data \<noteq> []
          then map_option (\<lambda>(rest, cs', dmx2). (rest, cs @ cs', dmx2)) (parse_ts_loop n fs (drop cnt data) dmx1)
          else Some (drop cnt data, cs, dmx1))"
  by pat_completeness auto
termination
  by (relation "measure (\<lambda>(n, fs, data, dmx). length data)") auto

declare parse_ts_loop.simps [simp del]

definition dvr_poll :: "'k kernel \<Rightarrow> int \<Rightarrow> AM_DMX_Filter list \<Rightarrow> 'k dmx_priv
    \<Rightarrow> (errcode \<times> 32 word \<times> dmx_call list \<times> 'k dmx_priv) option" where
  "dvr_poll K n fs d =
     (case priv d of
        DrvDvr dmx \<Rightarrow>
          (case k_poll K [dvr_fd dmx] (kern d) of
             (None, k) \<Rightarrow> Some (AM_SUCCESS, 0, [], d\<lparr>kern := k\<rparr>)
           | (Some _, k) \<Rightarrow>
               (case k_read K (dvr_fd dmx) (256 * 1024 - length (dm_start dmx)) k of
                  (Inl _, k1) \<Rightarrow> Some (AM_SUCCESS, 0, [], d\<lparr>kern := k1\<rparr>)
                | (Inr [], k1) \<Rightarrow> Some (AM_SUCCESS, 0, [], d\<lparr>kern := k1\<rparr>)
                | (Inr bs, k1) \<Rightarrow>
                    (case parse_ts_loop n fs (dm_start dmx @ bs) dmx of
                       None \<Rightarrow> None
                     | Some (rest, cs, dmx1) \<Rightarrow>
                         Some (AM_SUCCESS, 0, cs, d\<lparr>priv := DrvDvr (dmx1\<lparr>dm_start := rest\<rparr>), kern := k1\<rparr>))))
      | _ \<Rightarrow> None)"

definition dvr_read :: "int \<Rightarrow> AM_DMX_Filter \<Rightarrow> nat \<Rightarrow> 'k dmx_priv \<Rightarrow> (errcode \<times> byte list \<times> 'k dmx_priv) option" where
  "dvr_read n fl len d = Some (AM_SUCCESS, [], d)"

definition dvr_dmx_drv :: "'k kernel \<Rightarrow> 'k dmx_priv AM_DMX_Driver" where
  "dvr_dmx_drv K =
     \<lparr>drv_open = Some (dvr_open K), drv_close = Some (dvr_close K),
      drv_alloc_filter = Some dvr_alloc_filter, drv_free_filter = Some (dvr_free_filter K),
      drv_set_sec_filter = Some (dvr_set_sec_filter K), drv_set_pes_filter = Some (dvr_set_pes_filter K),
      drv_enable_filter = Some (dvr_enable_filter K), drv_set_buf_size = Some dvr_set_buf_size,
      drv_poll = dvr_poll K, drv_read = dvr_read, drv_set_source = Some (dvr_set_source K)\<rparr>"

end
