(* ===== verification/Dvr_Section.thy ===== *)
theory Dvr_Section
  imports Dvr_Dmx
begin

unbundle bit_operations_syntax

text \<open>
  What the software demux does with the data: the comparison of a section with a filter equals
  the meaning of the filter's mask and mode, a section is reassembled however it is cut into
  payloads, the memory safety of the reassembly buffer is characterised exactly, and the cutting
  of the recorded stream into reads does not matter.
\<close>

subsection \<open>Matching\<close>

text \<open>
  The meaning of a section filter. Bytes 1 and 2 (the section length) take no part. The masked
  bits whose mode is 0 must be equal; if some masked bit has mode 1, at least one of those must
  differ.
\<close>

definition filter_bytes :: "nat list" where
  "filter_bytes = 0 # [3 ..< DMX_FILTER_SIZE]"

definition spec_match :: "dmx_filter_t \<Rightarrow> byte list \<Rightarrow> bool" where
  "spec_match p sec \<longleftrightarrow>
     (\<forall>i \<in> set filter_bytes. (sec ! i XOR flt_filter p ! i) AND flt_mask p ! i AND NOT (flt_mode p ! i) = 0) \<and>
     ((\<exists>i \<in> set filter_bytes. flt_mask p ! i AND flt_mode p ! i \<noteq> 0) \<longrightarrow>
      (\<exists>i \<in> set filter_bytes. (sec ! i XOR flt_filter p ! i) AND flt_mask p ! i AND flt_mode p ! i \<noteq> 0))"

lemma sec_match_loop_spec:
  "sec_match_loop xs cn nq \<longleftrightarrow>
     (\<forall>(b, v, mm, mnm) \<in> set xs. (b XOR v) AND mm = 0) \<and>
     ((cn \<or> (\<exists>(b, v, mm, mnm) \<in> set xs. mnm \<noteq> 0)) \<longrightarrow>
      (nq \<or> (\<exists>(b, v, mm, mnm) \<in> set xs. (b XOR v) AND mnm \<noteq> 0)))"
  by (induction xs cn nq rule: sec_match_loop.induct) (auto simp: Let_def)

lemma filter_bytes_set: "i \<in> set filter_bytes \<longleftrightarrow> i < 16 \<and> i \<noteq> 1 \<and> i \<noteq> 2"
  unfolding filter_bytes_def by (simp only: list.set set_upt) auto

lemma zip_masks:
  "zip (map fst xs) (zip (map (fst \<circ> snd) xs) (map (snd \<circ> snd) xs)) = xs"
  by (induction xs) auto

lemma sec_masks_nth:
  "i < 16 \<Longrightarrow> sec_masks p ! i =
     (if i = 1 \<or> i = 2 then (0, 0, 0)
      else (flt_filter p ! i, flt_mask p ! i AND NOT (flt_mode p ! i), flt_mask p ! i AND flt_mode p ! i))"
  by (simp add: sec_masks_def Let_def)

lemma sec_match_set_params:
  assumes "df_filter f = map fst (sec_masks p)" "df_maskandmode f = map (fst \<circ> snd) (sec_masks p)"
    "df_maskandnotmode f = map (snd \<circ> snd) (sec_masks p)" "16 \<le> length sec"
  shows "sec_match f sec \<longleftrightarrow> spec_match p sec"
proof -
  have len: "length (sec_masks p) = 16" by (simp add: sec_masks_def)
  have elems: "set (zip (take 16 sec) (sec_masks p)) = {(sec ! i, sec_masks p ! i) |i. i < 16}"
  proof -
    have "zip (take 16 sec) (sec_masks p) = map (\<lambda>i. (sec ! i, sec_masks p ! i)) [0 ..< 16]"
      using assms(4) len by (intro nth_equalityI) auto
    then show ?thesis by (simp only: set_map set_upt) auto
  qed
  have all: "(\<forall>x \<in> set (zip (take 16 sec) (sec_masks p)). Q x) \<longleftrightarrow> (\<forall>i < 16. Q (sec ! i, sec_masks p ! i))" for Q
    unfolding elems by blast
  have ex: "(\<exists>x \<in> set (zip (take 16 sec) (sec_masks p)). Q x) \<longleftrightarrow> (\<exists>i < 16. Q (sec ! i, sec_masks p ! i))" for Q
    unfolding elems by blast
  define x where "x i = sec ! i XOR flt_filter p ! i" for i
  have eq0: "(case (sec ! i, sec_masks p ! i) of (b, v, mm, mnm) \<Rightarrow> (b XOR v) AND mm = 0) \<longleftrightarrow>
      i = 1 \<or> i = 2 \<or> x i AND flt_mask p ! i AND NOT (flt_mode p ! i) = 0"
    and eq1: "(case (sec ! i, sec_masks p ! i) of (b, v, mm, mnm) \<Rightarrow> mnm \<noteq> 0) \<longleftrightarrow>
      i \<noteq> 1 \<and> i \<noteq> 2 \<and> flt_mask p ! i AND flt_mode p ! i \<noteq> 0"
    and eq2: "(case (sec ! i, sec_masks p ! i) of (b, v, mm, mnm) \<Rightarrow> (b XOR v) AND mnm \<noteq> 0) \<longleftrightarrow>
      i \<noteq> 1 \<and> i \<noteq> 2 \<and> x i AND flt_mask p ! i AND flt_mode p ! i \<noteq> 0" if "i < 16" for i
    using that by (auto simp: sec_masks_nth x_def)
  have "sec_match f sec \<longleftrightarrow>
      (\<forall>i < 16. i = 1 \<or> i = 2 \<or> x i AND flt_mask p ! i AND NOT (flt_mode p ! i) = 0) \<and>
      ((\<exists>i < 16. i \<noteq> 1 \<and> i \<noteq> 2 \<and> flt_mask p ! i AND flt_mode p ! i \<noteq> 0) \<longrightarrow>
       (\<exists>i < 16. i \<noteq> 1 \<and> i \<noteq> 2 \<and> x i AND flt_mask p ! i AND flt_mode p ! i \<noteq> 0))"
    unfolding sec_match_def assms(1-3) zip_masks sec_match_loop_spec all ex
    by (simp only: eq0 eq1 eq2 simp_thms cong: conj_cong imp_cong)
  also have "\<dots> \<longleftrightarrow> spec_match p sec"
    unfolding spec_match_def x_def [symmetric] Ball_def Bex_def filter_bytes_set by blast
  finally show ?thesis .
qed

subsection \<open>Reassembly\<close>

text \<open>
  A channel is well-formed when it is empty or holds a header and less than the section the
  header announces. \<open>chan_has ch pre\<close> says that it holds \<open>pre\<close>.
\<close>

definition chan_ok :: "DVR_Channel \<Rightarrow> bool" where
  "chan_ok ch \<longleftrightarrow> 3 \<le> length (ch_buf ch) \<and>
     (ch_size ch = 0 \<or> 3 \<le> ch_size ch \<and> ch_size ch < sec_len (ch_buf ch) \<and> ch_size ch \<le> length (ch_buf ch))"

definition chan_has :: "DVR_Channel \<Rightarrow> byte list \<Rightarrow> bool" where
  "chan_has ch pre \<longleftrightarrow> ch_size ch = length pre \<and> length pre \<le> length (ch_buf ch) \<and> take (length pre) (ch_buf ch) = pre"

definition is_section :: "byte list \<Rightarrow> bool" where
  "is_section s \<longleftrightarrow> 3 \<le> length s \<and> sec_len s = length s"

lemma sec_len_bounds: "3 \<le> sec_len b" "sec_len b \<le> 4098"
  by (auto simp: sec_len_def)

lemma sec_len_prefix: "take 3 b = take 3 c \<Longrightarrow> sec_len b = sec_len c"
proof -
  assume eq: "take 3 b = take 3 c"
  have "b ! 1 = c ! 1" using arg_cong [OF eq, of "\<lambda>xs. xs ! 1"] by simp
  moreover have "b ! 2 = c ! 2" using arg_cong [OF eq, of "\<lambda>xs. xs ! 2"] by simp
  ultimately show ?thesis by (simp add: sec_len_def)
qed

lemma sec_len_append: "3 \<le> length a \<Longrightarrow> sec_len (a @ b) = sec_len a"
  by (intro sec_len_prefix) auto

lemma copy_into_has:
  assumes "chan_has ch pre" "copy_into (ch_buf ch) (length pre) d = Some buf"
  shows "take (length pre + length d) buf = pre @ d" "length buf = length (ch_buf ch)"
  using assms copy_into_prefix [OF assms(2)] copy_into_length [OF assms(2)] by (simp_all add: chan_has_def)

lemma copy_into_Some: "off + length d \<le> length a \<Longrightarrow> \<exists>buf. copy_into a off d = Some buf"
  by (simp add: copy_into_def)

lemma sec_len_of_take: "3 \<le> n \<Longrightarrow> n \<le> length buf \<Longrightarrow> sec_len (take n buf) = sec_len buf"
  by (intro sec_len_prefix) (auto simp: take_take min_def)

lemma check_sec_body_spec:
  assumes has: "chan_has ch pre" and pre: "3 \<le> length pre" "length pre \<le> sec_len pre"
    and fits: "min (sec_len pre) (length pre + length data) \<le> length (ch_buf ch)"
  shows "\<exists>buf. length buf = length (ch_buf ch) \<and>
     (let cpy = min (sec_len pre - length pre) (length data); got = pre @ take cpy data
      in take (length got) buf = got \<and>
         check_sec_body disp data ret ch =
           (if sec_len pre = length got
            then Some (ret + cpy, disp buf (length got), ch\<lparr>ch_buf := buf, ch_size := 0\<rparr>)
            else Some (ret + cpy, [], ch\<lparr>ch_buf := buf, ch_size := length got\<rparr>)))"
proof -
  have sl: "sec_len (ch_buf ch) = sec_len pre"
    using has pre(1) sec_len_of_take [of "length pre" "ch_buf ch"] by (auto simp: chan_has_def)
  define cpy where "cpy = min (sec_len pre - length pre) (length data)"
  have len: "length (take cpy data) = cpy" by (simp add: cpy_def)
  have "length pre + cpy \<le> length (ch_buf ch)" using fits pre(2) by (auto simp: cpy_def min_def split: if_splits)
  then obtain buf where buf: "copy_into (ch_buf ch) (length pre) (take cpy data) = Some buf"
    using copy_into_Some [of "length pre" "take cpy data" "ch_buf ch"] len by auto
  from copy_into_has [OF has buf] len have
    "take (length pre + cpy) buf = pre @ take cpy data" "length buf = length (ch_buf ch)" by simp_all
  moreover have "ch_size ch = length pre" using has by (simp add: chan_has_def)
  ultimately show ?thesis
    using buf pre(2) len
    by (intro exI [of _ buf]) (simp add: check_sec_body_def sl cpy_def [symmetric] Let_def)
qed

text \<open>
  One call of \<^verbatim>\<open>check_sec\<close> on a channel that holds \<open>pre\<close>, with at least a header at hand: it
  takes what the section still needs, and dispatches it when it is complete.
\<close>

lemma check_sec_spec:
  assumes has: "chan_has ch pre" and pre: "pre = [] \<or> 3 \<le> length pre \<and> length pre \<le> sec_len pre"
    and hdr: "3 \<le> length (pre @ data)" and buf3: "3 \<le> length (ch_buf ch)"
    and fits: "min (sec_len (pre @ data)) (length (pre @ data)) \<le> length (ch_buf ch)"
  shows "\<exists>buf. length buf = length (ch_buf ch) \<and>
     (let cpy = min (sec_len (pre @ data) - length pre) (length data); got = pre @ take cpy data
      in take (length got) buf = got \<and>
         check_sec disp data ch =
           (if sec_len (pre @ data) = length got
            then Some (cpy, disp buf (length got), ch\<lparr>ch_buf := buf, ch_size := 0\<rparr>)
            else Some (cpy, [], ch\<lparr>ch_buf := buf, ch_size := length got\<rparr>)))"
proof (cases "pre = []")
  case False
  with pre have pre: "3 \<le> length pre" "length pre \<le> sec_len pre" by auto
  have sl: "sec_len (pre @ data) = sec_len pre" using pre(1) by (rule sec_len_append)
  have eq: "check_sec disp data ch = check_sec_body disp data 0 ch"
    using has pre(1) by (simp add: check_sec_def chan_has_def)
  have "min (sec_len pre) (length pre + length data) \<le> length (ch_buf ch)"
    using fits sl by simp
  from check_sec_body_spec [OF has pre this, of disp 0] show ?thesis
    unfolding eq sl add_0_left .
next
  case True
  with hdr have d: "3 \<le> length data" by simp
  have sz: "ch_size ch = 0" using has True by (simp add: chan_has_def)
  from copy_into_Some [of 0 "take 3 data" "ch_buf ch"] d buf3 obtain b where
    b: "copy_into (ch_buf ch) 0 (take 3 data) = Some b" by auto
  define ch1 where "ch1 = ch\<lparr>ch_buf := b, ch_size := 3\<rparr>"
  have has1: "chan_has ch1 (take 3 data)"
    using copy_into_prefix [OF b] copy_into_length [OF b] d buf3 by (auto simp: chan_has_def ch1_def min_def)
  have sl: "sec_len (take 3 data) = sec_len data" using d by (simp add: sec_len_of_take)
  have l3: "length (take 3 data) = 3" using d by simp
  have "min (sec_len (take 3 data)) (length (take 3 data) + length (drop 3 data)) \<le> length (ch_buf ch1)"
    using fits True d sl copy_into_length [OF b] by (auto simp: ch1_def min_def split: if_splits)
  from check_sec_body_spec [OF has1 _ _ this, of disp 3] l3 sl sec_len_bounds(1) [of data] obtain buf where
    B: "length buf = length (ch_buf ch1) \<and>
     (let cpy = min (sec_len (take 3 data) - length (take 3 data)) (length (drop 3 data));
          got = take 3 data @ take cpy (drop 3 data)
      in take (length got) buf = got \<and>
         check_sec_body disp (drop 3 data) 3 ch1 =
           (if sec_len (take 3 data) = length got
            then Some (3 + cpy, disp buf (length got), ch1\<lparr>ch_buf := buf, ch_size := 0\<rparr>)
            else Some (3 + cpy, [], ch1\<lparr>ch_buf := buf, ch_size := length got\<rparr>)))"
    by (elim meta_impE exE) (simp, simp, rule that)
  note B = B [unfolded sl l3 length_drop]
  have cpy: "3 + min (sec_len data - 3) (length data - 3) = min (sec_len data) (length data)"
    using d sec_len_bounds(1) [of data] by auto
  have got: "take 3 data @ take (min (sec_len data - 3) (length data - 3)) (drop 3 data)
      = take (min (sec_len data) (length data)) data"
    by (simp only: cpy [symmetric] take_add)
  have "check_sec disp data ch = check_sec_body disp (drop 3 data) 3 ch1"
    using sz d b by (simp add: check_sec_def ch1_def)
  with B [unfolded Let_def got cpy] True show ?thesis
    by (intro exI [of _ buf]) (simp add: ch1_def copy_into_length [OF b])
qed

lemma chan_ok_has: "chan_ok ch \<Longrightarrow> chan_has ch (take (ch_size ch) (ch_buf ch))"
  by (auto simp: chan_ok_def chan_has_def)

lemma chan_ok_pre:
  "chan_ok ch \<Longrightarrow> pre = take (ch_size ch) (ch_buf ch) \<Longrightarrow> pre = [] \<or> 3 \<le> length pre \<and> length pre < sec_len pre"
  by (auto simp: chan_ok_def sec_len_of_take)

lemma check_sec_short:
  assumes "chan_ok ch" "ch_size ch + length data < 3"
  shows "\<exists>buf. check_sec disp data ch = Some (length data, [], ch\<lparr>ch_buf := buf\<rparr>) \<and> length buf = length (ch_buf ch)"
proof -
  from assms have "ch_size ch = 0" "length data \<le> length (ch_buf ch)" by (auto simp: chan_ok_def)
  with copy_into_Some [of 0 data "ch_buf ch"] obtain buf where buf: "copy_into (ch_buf ch) 0 data = Some buf" by auto
  with assms(2) \<open>ch_size ch = 0\<close> copy_into_length [OF buf] show ?thesis by (intro exI [of _ buf]) (simp add: check_sec_def)
qed

text \<open>Progress: a defined call uses a positive number of bytes and leaves a well-formed channel.\<close>

lemma check_sec_progress:
  assumes ok: "chan_ok ch" and data: "data \<noteq> []"
    and fits: "min (sec_len (take (ch_size ch) (ch_buf ch) @ data)) (ch_size ch + length data) \<le> length (ch_buf ch)"
  shows "\<exists>cnt cs ch'. check_sec disp data ch = Some (cnt, cs, ch') \<and> 0 < cnt \<and> cnt \<le> length data \<and> chan_ok ch' \<and>
    length (ch_buf ch') = length (ch_buf ch)"
proof (cases "ch_size ch + length data < 3")
  case True
  with check_sec_short [OF ok True, of disp] data ok show ?thesis by (auto simp: chan_ok_def)
next
  case False
  define pre where "pre = take (ch_size ch) (ch_buf ch)"
  define S where "S = sec_len (pre @ data)"
  define cpy where "cpy = min (S - length pre) (length data)"
  define got where "got = pre @ take cpy data"
  have has: "chan_has ch pre" using chan_ok_has [OF ok] by (simp add: pre_def)
  have sz: "ch_size ch = length pre" using has by (simp add: chan_has_def)
  have pre: "pre = [] \<or> 3 \<le> length pre \<and> length pre < sec_len pre" using chan_ok_pre [OF ok] pre_def by simp
  have b3: "3 \<le> length (ch_buf ch)" using ok by (simp add: chan_ok_def)
  have lt: "length pre < S"
    using pre sec_len_bounds(1) [of "pre @ data"] sec_len_append [of pre data] by (auto simp: S_def)
  have pre': "pre = [] \<or> 3 \<le> length pre \<and> length pre \<le> sec_len pre" using pre by auto
  have hdr: "3 \<le> length (pre @ data)" using False sz by simp
  have fits': "min (sec_len (pre @ data)) (length (pre @ data)) \<le> length (ch_buf ch)"
    using fits [folded pre_def] sz by simp
  from check_sec_spec [OF has pre' hdr b3 fits', of disp, unfolded Let_def, folded S_def, folded cpy_def, folded got_def]
  obtain buf where buf: "length buf = length (ch_buf ch)" "take (length got) buf = got" and
    eq: "check_sec disp data ch = (if S = length got then Some (cpy, disp buf (length got), ch\<lparr>ch_buf := buf, ch_size := 0\<rparr>)
       else Some (cpy, [], ch\<lparr>ch_buf := buf, ch_size := length got\<rparr>))"
    by (elim exE conjE) (rule that)
  have cpy: "0 < cpy" "cpy \<le> length data" using lt data by (auto simp: cpy_def)
  have "3 \<le> length got" using cpy False sz sec_len_bounds(1) [of "pre @ data"] by (auto simp: got_def cpy_def S_def)
  have "sec_len buf = sec_len got" using sec_len_of_take [of "length got" buf] buf \<open>3 \<le> length got\<close>
    by (metis length_take min.cobounded2 min.commute)
  moreover have "sec_len got = S"
    using \<open>3 \<le> length got\<close> sec_len_append [of got "drop cpy data"] by (simp add: got_def S_def)
  moreover have "length got \<le> S" using lt by (auto simp: got_def cpy_def)
  moreover have "length got \<le> length buf" using buf(2) by (metis length_take min.cobounded2 min.commute)
  ultimately show ?thesis using eq cpy buf(1) b3 \<open>3 \<le> length got\<close> by (auto simp: chan_ok_def)
qed

subsection \<open>Memory safety and termination\<close>

text \<open>
  The buffer of a channel has 4096 bytes, a section up to 4098. A call writes behind the buffer
  exactly when both the section and the data reach behind it.
\<close>

lemma check_sec_overflow:
  assumes ok: "chan_ok ch" and data: "3 \<le> ch_size ch + length data"
    and over: "length (ch_buf ch) < min (sec_len (take (ch_size ch) (ch_buf ch) @ data)) (ch_size ch + length data)"
  shows "check_sec disp data ch = None"
proof -
  have body: "check_sec_body disp d r c = None"
    if "ch_size c \<le> sec_len (ch_buf c)"
      "length (ch_buf c) < min (sec_len (ch_buf c)) (ch_size c + length d)" for d r c
    using that by (auto simp: check_sec_body_def copy_into_def Let_def min_def split: if_splits)
  show ?thesis
  proof (cases "ch_size ch < 3")
    case False
    with ok have "3 \<le> ch_size ch" "ch_size ch < sec_len (ch_buf ch)" "ch_size ch \<le> length (ch_buf ch)"
      by (auto simp: chan_ok_def)
    moreover from this have "sec_len (take (ch_size ch) (ch_buf ch) @ data) = sec_len (ch_buf ch)"
      by (simp add: sec_len_append sec_len_of_take)
    ultimately show ?thesis using body [of ch data 0] over by (simp add: check_sec_def)
  next
    case True
    with ok have sz: "ch_size ch = 0" "3 \<le> length (ch_buf ch)" by (auto simp: chan_ok_def)
    with data copy_into_Some [of 0 "take 3 data" "ch_buf ch"] obtain b where
      b: "copy_into (ch_buf ch) 0 (take 3 data) = Some b" by auto
    have "sec_len b = sec_len data"
      using copy_into_prefix [OF b] sz data by (intro sec_len_prefix) (auto simp: min_def split: if_splits)
    with body [of "ch\<lparr>ch_buf := b, ch_size := 3\<rparr>" "drop 3 data" 3] over sz data b copy_into_length [OF b]
      sec_len_bounds(1) [of data]
    show ?thesis by (simp add: check_sec_def)
  qed
qed

lemma parse_sec_loop_total:
  assumes "chan_ok ch" "4098 \<le> length (ch_buf ch)"
  shows "\<exists>cs ch'. parse_sec_loop disp data first ch = Some (cs, ch') \<and> chan_ok ch' \<and>
    length (ch_buf ch') = length (ch_buf ch)"
  using assms
proof (induction "length data" arbitrary: data first ch rule: less_induct)
  case less
  show ?case
  proof (cases "data \<noteq> [] \<and> (first \<or> hd data \<noteq> 0xFF)")
    case False
    then show ?thesis using less.prems by (subst parse_sec_loop.simps) auto
  next
    case True
    have "min (sec_len (take (ch_size ch) (ch_buf ch) @ data)) (ch_size ch + length data) \<le> length (ch_buf ch)"
      using sec_len_bounds(2) [of "take (ch_size ch) (ch_buf ch) @ data"] less.prems(2) by linarith
    from check_sec_progress [OF less.prems(1) _ this, of disp] True obtain cnt cs ch1 where
      c: "check_sec disp data ch = Some (cnt, cs, ch1)" "0 < cnt" "cnt \<le> length data" "chan_ok ch1"
         "length (ch_buf ch1) = length (ch_buf ch)" by auto
    have "length (drop cnt data) < length data" using c(2,3) by simp
    from less.hyps [OF this c(4), of False] c(5) less.prems(2) obtain cs2 ch2 where
      "parse_sec_loop disp (drop cnt data) False ch1 = Some (cs2, ch2)" "chan_ok ch2"
      "length (ch_buf ch2) = length (ch_buf ch)" by auto
    with True c(1) show ?thesis by (subst parse_sec_loop.simps) simp
  qed
qed

lemma chan_ok_reset: "chan_ok ch \<Longrightarrow> chan_ok (ch\<lparr>ch_size := 0\<rparr>)"
  by (simp add: chan_ok_def)

text \<open>
  C28: a channel is empty or holds a header and less than the section the header announces. On
  such a channel \<^verbatim>\<open>check_sec\<close> is defined exactly when the part of the section it has at hand fits
  the buffer; then it uses at least one byte, at most all, and leaves such a channel. With the
  buffer's 4096 bytes this fails for the section lengths 4097 and 4098 (and for stuffing taken as
  a header).
\<close>

theorem check_sec_safe_iff:
  assumes "chan_ok ch" "data \<noteq> []" "3 \<le> ch_size ch + length data"
  shows "(case check_sec disp data ch of
            None \<Rightarrow> length (ch_buf ch) < min (sec_len (take (ch_size ch) (ch_buf ch) @ data)) (ch_size ch + length data)
          | Some (cnt, _, ch') \<Rightarrow> 0 < cnt \<and> cnt \<le> length data \<and> chan_ok ch' \<and>
              min (sec_len (take (ch_size ch) (ch_buf ch) @ data)) (ch_size ch + length data) \<le> length (ch_buf ch))"
  using check_sec_overflow [OF assms(1,3), of disp] check_sec_progress [OF assms(1,2), of disp]
  by (cases "length (ch_buf ch) < min (sec_len (take (ch_size ch) (ch_buf ch) @ data)) (ch_size ch + length data)")
     auto

definition half_full :: DVR_Channel where
  "half_full = chan0\<lparr>ch_buf := [0x42, 0x0F, 0xFF] @ replicate 4093 0, ch_size := 4000\<rparr>"

theorem check_sec_safe_iff_witness:
  "check_sec (\<lambda>_ _. []) (replicate 184 0) half_full = None"
proof -
  have "chan_ok half_full" by (simp add: half_full_def chan_ok_def chan0_def sec_len_def)
  moreover have "sec_len (take (ch_size half_full) (ch_buf half_full) @ replicate 184 0) = 4098"
    by (simp add: half_full_def sec_len_def nth_append)
  moreover have "ch_size half_full = 4000" "length (ch_buf half_full) = 4096" by (simp_all add: half_full_def)
  ultimately show ?thesis
    using check_sec_safe_iff [of half_full "replicate 184 0" "\<lambda>_ _. []"] by (simp split: option.splits prod.splits)
qed



subsection \<open>A section over several packets\<close>

text \<open>
  Feeding a channel with the payloads of packets, the first with the start flag, and collecting
  the dispatched sections.
\<close>

fun feed_payloads :: "(byte list \<Rightarrow> nat \<Rightarrow> dmx_call list) \<Rightarrow> (bool \<times> byte list) list \<Rightarrow> DVR_Channel
    \<Rightarrow> (dmx_call list \<times> DVR_Channel) option" where
  "feed_payloads disp [] ch = Some ([], ch)"
| "feed_payloads disp ((p_start, data) # rest) ch =
     (case parse_sec disp data p_start ch of
        None \<Rightarrow> None
      | Some (cs, ch1) \<Rightarrow> map_option (\<lambda>(cs', ch2). (cs @ cs', ch2)) (feed_payloads disp rest ch1))"

definition stuffing :: "byte list \<Rightarrow> bool" where
  "stuffing xs \<longleftrightarrow> set xs \<subseteq> {0xFF}"

lemma loop_stop: "stuffing data \<Longrightarrow> parse_sec_loop disp data False ch = Some ([], ch)"
  by (subst parse_sec_loop.simps) (cases data; simp add: stuffing_def)

lemma loop_unit:
  assumes "check_sec disp data ch = Some (length data, cs, ch1)"
  shows "data \<noteq> [] \<Longrightarrow> parse_sec_loop disp data True ch = Some (cs, ch1)"
proof -
  have "parse_sec_loop disp [] False ch1 = Some ([], ch1)" by (subst parse_sec_loop.simps) simp
  with assms show "data \<noteq> [] \<Longrightarrow> parse_sec_loop disp data True ch = Some (cs, ch1)"
    by (subst parse_sec_loop.simps) simp
qed

lemma chan_has_empty [simp]: "chan_has (ch\<lparr>ch_size := 0\<rparr>) []"
  by (simp add: chan_has_def)

text \<open>A payload that does not complete the section.\<close>

lemma loop_partial:
  assumes has: "chan_has ch pre" and s: "is_section (pre @ data @ rest)" "rest \<noteq> []" "data \<noteq> []"
    and pre: "pre = [] \<or> 3 \<le> length pre" and hdr: "3 \<le> length (pre @ data)"
    and fits: "length (pre @ data @ rest) \<le> length (ch_buf ch)"
  shows "\<exists>ch'. parse_sec_loop disp data True ch = Some ([], ch') \<and> chan_has ch' (pre @ data) \<and>
    length (ch_buf ch') = length (ch_buf ch)"
proof -
  have S: "sec_len (pre @ data) = length (pre @ data @ rest)"
    using s(1) sec_len_append [OF hdr, of rest] by (simp add: is_section_def)
  have pre': "pre = [] \<or> 3 \<le> length pre \<and> length pre \<le> sec_len pre"
    using pre S sec_len_append [of pre data] by auto
  have b3: "3 \<le> length (ch_buf ch)" using fits hdr by simp
  have fits': "min (sec_len (pre @ data)) (length (pre @ data)) \<le> length (ch_buf ch)" using fits by simp
  have cpy: "min (length (pre @ data @ rest) - length pre) (length data) = length data" by simp
  have ne: "length (pre @ data @ rest) \<noteq> length (pre @ data)" using s(2) by simp
  from check_sec_spec [OF has pre' hdr b3 fits', of disp] obtain buf where
    buf: "length buf = length (ch_buf ch)" "take (length (pre @ data)) buf = pre @ data"
    "check_sec disp data ch = Some (length data, [], ch\<lparr>ch_buf := buf, ch_size := length (pre @ data)\<rparr>)"
    unfolding S Let_def cpy take_all [OF order.refl] if_not_P [OF ne] by (elim exE conjE) (rule that)
  have "length (pre @ data) \<le> length buf" using buf(1) fits by simp
  with loop_unit [OF buf(3)] s(3) buf(1,2) show ?thesis by (simp add: chan_has_def)
qed

text \<open>The payload that completes it, followed by stuffing.\<close>

lemma loop_final:
  assumes has: "chan_has ch pre" and s: "is_section (pre @ data)" "data \<noteq> []" "stuffing st"
    and pre: "pre = [] \<or> 3 \<le> length pre" and fits: "length (pre @ data) \<le> length (ch_buf ch)"
  shows "\<exists>buf ch'. parse_sec_loop disp (data @ st) True ch = Some (disp buf (length (pre @ data)), ch') \<and>
    take (length (pre @ data)) buf = pre @ data \<and> length buf = length (ch_buf ch) \<and> chan_has ch' [] \<and>
    length (ch_buf ch') = length (ch_buf ch)"
proof -
  define d where "d = data @ st"
  have hdr: "3 \<le> length (pre @ d)" using s(1) by (simp add: is_section_def d_def)
  have S: "sec_len (pre @ d) = length (pre @ data)"
    using s(1) sec_len_append [of "pre @ data" st] by (simp add: is_section_def d_def)
  have pre': "pre = [] \<or> 3 \<le> length pre \<and> length pre \<le> sec_len pre"
    using pre S sec_len_append [of pre d] by auto
  have b3: "3 \<le> length (ch_buf ch)" using fits s(1) by (simp add: is_section_def)
  have fits': "min (sec_len (pre @ d)) (length (pre @ d)) \<le> length (ch_buf ch)" using fits S by simp
  have cpy: "min (length (pre @ data) - length pre) (length d) = length data" by (simp add: d_def)
  have tk: "take (length data) d = data" by (simp add: d_def)
  from check_sec_spec [OF has pre' hdr b3 fits', of disp] obtain buf where
    buf: "length buf = length (ch_buf ch)" "take (length (pre @ data)) buf = pre @ data"
    "check_sec disp d ch = Some (length data, disp buf (length (pre @ data)), ch\<lparr>ch_buf := buf, ch_size := 0\<rparr>)"
    unfolding S Let_def cpy tk if_P [OF refl] by (elim exE conjE) (rule that)
  have "parse_sec_loop disp d True ch = Some (disp buf (length (pre @ data)), ch\<lparr>ch_buf := buf, ch_size := 0\<rparr>)"
    using buf(3) s(2) loop_stop [OF s(3)] by (subst parse_sec_loop.simps) (simp add: d_def)
  with buf(1,2) show ?thesis by (auto simp: d_def chan_has_def)
qed

lemma feed_rest:
  assumes "chan_has ch pre" "is_section (pre @ concat parts @ fin)" "3 \<le> length pre"
    "[] \<notin> set parts" "fin \<noteq> []" "stuffing st" "length (pre @ concat parts @ fin) \<le> length (ch_buf ch)"
  shows "\<exists>buf ch'. feed_payloads disp (map (Pair False) parts @ [(False, fin @ st)]) ch
       = Some (disp buf (length (pre @ concat parts @ fin)), ch') \<and>
     take (length (pre @ concat parts @ fin)) buf = pre @ concat parts @ fin \<and> length buf = length (ch_buf ch) \<and>
     chan_has ch' []"
  using assms
proof (induction parts arbitrary: ch pre)
  case Nil
  from loop_final [of ch pre fin st disp] Nil.prems show ?case by (fastforce simp: parse_sec_def)
next
  case (Cons p parts)
  from loop_partial [of ch pre p "concat parts @ fin" disp] Cons.prems obtain ch1 where
    p: "parse_sec_loop disp p True ch = Some ([], ch1)" "chan_has ch1 (pre @ p)" "length (ch_buf ch1) = length (ch_buf ch)"
    by auto
  from Cons.IH [OF p(2)] Cons.prems p show ?case by (auto simp: parse_sec_def)
qed

lemma check_sec_nothing:
  assumes "chan_ok ch"
  shows "check_sec disp [] ch = Some (0, [], ch)"
proof (cases "ch_size ch = 0")
  case True
  then show ?thesis by (simp add: check_sec_def copy_into_def)
next
  case False
  with assms have "3 \<le> ch_size ch" "ch_size ch < sec_len (ch_buf ch)" "ch_size ch \<le> length (ch_buf ch)"
    by (auto simp: chan_ok_def)
  then show ?thesis by (simp add: check_sec_def check_sec_body_def copy_into_def Let_def)
qed

lemma parse_sec_start:
  assumes "chan_ok ch"
  shows "parse_sec disp (0 # data) True ch = parse_sec_loop disp data True (ch\<lparr>ch_size := 0\<rparr>)"
  using check_sec_nothing [OF assms, of disp]
  by (cases "parse_sec_loop disp data True (ch\<lparr>ch_size := 0\<rparr>)") (auto simp: parse_sec_def Let_def)

lemma sec_match_prefix:
  assumes "take (length s) buf = s" "16 \<le> length s"
  shows "sec_match f buf = sec_match f s"
proof -
  have "take 16 buf = take 16 (take (length s) buf)" using assms(2) by (simp add: min_def)
  with assms(1) show ?thesis by (simp add: sec_match_def)
qed

lemma sec_dispatch_prefix:
  assumes "take (length s) buf = s" "16 \<le> length s"
  shows "sec_dispatch n fs dfs c buf (length s) = sec_dispatch n fs dfs c s (length s)"
  by (simp add: sec_dispatch_def sec_match_prefix [OF assms] assms(1) Let_def)

text \<open>
  C2: a section of 16 to 4096 bytes whose transport packets arrive in order, cut anywhere but
  inside its three header bytes and followed by stuffing, is reassembled: on a well-formed channel,
  whatever it held before, the filters of the channel are offered exactly this section, once, and
  the channel is empty again.
\<close>

theorem section_reassembled:
  assumes "chan_ok ch" "length (ch_buf ch) = 4096"
    and "is_section s" "16 \<le> length s" "length s \<le> 4096"
    and "s = a @ concat parts @ fin" "3 \<le> length a" "[] \<notin> set parts" "fin \<noteq> []" "stuffing st"
  shows "\<exists>ch'. feed_payloads (sec_dispatch n fs dfs c)
       ((True, 0 # a) # map (Pair False) parts @ [(False, fin @ st)]) ch
       = Some (sec_dispatch n fs dfs c s (length s), ch') \<and> ch_size ch' = 0"
proof -
  let ?D = "sec_dispatch n fs dfs c"
  have "concat parts @ fin \<noteq> []" "a \<noteq> []" using assms(7,9) by auto
  with loop_partial [of "ch\<lparr>ch_size := 0\<rparr>" "[]" a "concat parts @ fin" ?D] assms obtain ch1 where
    p: "parse_sec_loop ?D a True (ch\<lparr>ch_size := 0\<rparr>) = Some ([], ch1)" "chan_has ch1 a"
       "length (ch_buf ch1) = 4096" by auto
  from feed_rest [OF p(2), of parts fin st ?D] assms p(3) obtain buf ch' where
    f: "feed_payloads ?D (map (Pair False) parts @ [(False, fin @ st)]) ch1 = Some (?D buf (length s), ch')"
       "take (length s) buf = s" "chan_has ch' []" by auto
  with p(1) parse_sec_start [OF assms(1), of ?D a] sec_dispatch_prefix [OF f(2) assms(4), of n fs dfs c]
  show ?thesis by (simp add: chan_has_def)
qed

theorem section_reassembled_witness:
  "\<exists>ch'. feed_payloads (sec_dispatch 0 [] [] 0)
      ((True, 0 # [0x42, 0xB0, 0x11]) # map (Pair False) [[1, 2], [3]] @ [(False, replicate 14 7 @ [0xFF, 0xFF])]) chan0
      = Some (sec_dispatch 0 [] [] 0 ([0x42, 0xB0, 0x11] @ [1, 2, 3] @ replicate 14 7) 20, ch') \<and> ch_size ch' = 0"
  using section_reassembled [of chan0 "[0x42, 0xB0, 0x11] @ [1, 2, 3] @ replicate 14 7" "[0x42, 0xB0, 0x11]"
      "[[1, 2], [3]]" "replicate 14 7" "[0xFF, 0xFF]" 0 "[]" "[]" 0]
  by (simp add: chan0_def chan_ok_def is_section_def sec_len_def stuffing_def)

text \<open>
  one or two bytes of a section's header at the end of a payload are lost: nothing is
  dispatched and the channel is as empty as before, so that the next payload is taken for the
  start of a section.
\<close>

theorem short_header_lost:
  assumes "chan_ok ch" "length a < 3"
  shows "\<exists>ch'. parse_sec disp (0 # a) True ch = Some ([], ch') \<and> ch_size ch' = 0 \<and>
    (\<forall>b. parse_sec disp b False ch' = parse_sec_loop disp b True ch')"
proof (cases "a = []")
  case True
  have "parse_sec_loop disp [] True (ch\<lparr>ch_size := 0\<rparr>) = Some ([], ch\<lparr>ch_size := 0\<rparr>)"
    by (subst parse_sec_loop.simps) simp
  with True parse_sec_start [OF assms(1), of disp a] show ?thesis by (simp add: parse_sec_def)
next
  case False
  from check_sec_short [OF chan_ok_reset [OF assms(1)], of a disp] assms(2) obtain buf where
    b: "check_sec disp a (ch\<lparr>ch_size := 0\<rparr>) = Some (length a, [], ch\<lparr>ch_size := 0, ch_buf := buf\<rparr>)"
    by auto
  from loop_unit [OF b False] parse_sec_start [OF assms(1), of disp a] show ?thesis by (simp add: parse_sec_def)
qed

theorem short_header_lost_witness:
  "\<exists>ch'. parse_sec (\<lambda>_ _. []) [0, 0x42, 0xB0] True chan0 = Some ([], ch') \<and> ch_size ch' = 0"
  using short_header_lost [of chan0 "[0x42, 0xB0]" "\<lambda>_ _. []"] by (auto simp: chan0_def chan_ok_def)

subsection \<open>The transport stream\<close>

lemma first_idx_append: "first_idx P (xs @ ys) = (if first_idx P xs < length xs then first_idx P xs else length xs + first_idx P ys)"
  by (induction xs) auto

text \<open>A complete packet in \<open>a\<close> is processed the same way when more data follow.\<close>

lemma parse_ts_packet_append:
  assumes "first_idx (\<lambda>b. b = 0x47) a + 188 \<le> length a"
  shows "parse_ts_packet n fs (a @ b) dmx = parse_ts_packet n fs a dmx"
  using assms by (auto simp: parse_ts_packet_def first_idx_append Let_def)

lemma parse_ts_packet_count:
  assumes "parse_ts_packet n fs a dmx = Some (cnt, cs, dmx')"
  shows "cnt = (if first_idx (\<lambda>b. b = 0x47) a + 188 \<le> length a then first_idx (\<lambda>b. b = 0x47) a + 188
                else first_idx (\<lambda>b. b = 0x47) a)"
  using assms by (auto simp: parse_ts_packet_def Let_def split: if_splits option.splits)

lemma parse_ts_packet_short:
  assumes "length a < first_idx (\<lambda>b. b = 0x47) a + 188"
  shows "parse_ts_packet n fs a dmx = Some (first_idx (\<lambda>b. b = 0x47) a, [], dmx)"
  using assms by (auto simp: parse_ts_packet_def Let_def)

lemma parse_ts_loop_nil [simp]: "parse_ts_loop n fs [] dmx = Some ([], [], dmx)"
  by (subst parse_ts_loop.simps) (simp add: parse_ts_packet_short)

text \<open>Bytes before a sync byte do not matter.\<close>

lemma parse_ts_loop_skip:
  assumes "0x47 \<notin> set a"
  shows "parse_ts_loop n fs (a @ c) dmx = parse_ts_loop n fs c dmx"
proof (cases "a = []")
  case False
  let ?f = "first_idx (\<lambda>b. b = (0x47 :: byte))"
  have o: "?f (a @ c) = length a + ?f c"
    using assms first_idx_less_iff [of "\<lambda>b. b = (0x47 :: byte)" a] by (auto simp: first_idx_append)
  show ?thesis
  proof (cases "length c < ?f c + 188")
    case True
    then have "length (a @ c) < ?f (a @ c) + 188" using o by simp
    then have 1: "parse_ts_packet n fs (a @ c) dmx = Some (length a + ?f c, [], dmx)" using parse_ts_packet_short o by metis
    have 2: "parse_ts_packet n fs c dmx = Some (?f c, [], dmx)" using True by (rule parse_ts_packet_short)
    show ?thesis
    proof (cases "?f c = 0")
      case True
      have "parse_ts_loop n fs (a @ c) dmx = (if c \<noteq> [] then parse_ts_loop n fs c dmx else Some ([], [], dmx))"
        using 1 False True by (subst parse_ts_loop.simps) (auto simp: case_prod_beta option.map_ident option.map_id)
      then show ?thesis by simp
    next
      case nz: False
      have "parse_ts_loop n fs (a @ c) dmx = parse_ts_loop n fs c dmx"
        by (subst (1 2) parse_ts_loop.simps) (simp add: 1 2 nz False)
      then show ?thesis .
    qed
  next
    case ge: False
    have "parse_ts_packet n fs (a @ c) dmx = map_option (\<lambda>(cnt, r). (length a + cnt, r)) (parse_ts_packet n fs c dmx)"
      unfolding parse_ts_packet_def o using ge
      by (cases "ts_packet n fs (take 188 (drop (?f c) c)) dmx") (auto simp: Let_def)
    then show ?thesis
      by (subst (1 2) parse_ts_loop.simps)
         (use ge parse_ts_packet_count [of n fs c dmx] in \<open>auto split: option.splits\<close>)
  qed
qed simp

text \<open>A whole packet is parsed and the loop goes on behind it.\<close>

lemma parse_ts_loop_packet:
  assumes "parse_ts_packet n fs a dmx = Some (first_idx (\<lambda>b. b = 0x47) a + 188, cs, dmx1)"
    and "first_idx (\<lambda>b. b = 0x47) a + 188 \<le> length a"
  shows "parse_ts_loop n fs (a @ b) dmx = map_option (\<lambda>(rest', cs', dmx2). (rest', cs @ cs', dmx2))
      (parse_ts_loop n fs (drop (first_idx (\<lambda>b. b = 0x47) a + 188) a @ b) dmx1)"
proof -
  have "parse_ts_packet n fs (a @ b) dmx = Some (first_idx (\<lambda>b. b = 0x47) a + 188, cs, dmx1)"
    using parse_ts_packet_append [OF assms(2)] assms(1) by simp
  with assms(2) show ?thesis by (subst parse_ts_loop.simps) auto
qed

text \<open>With less than a packet behind the sync byte, the loop keeps what starts with the sync byte.\<close>

lemma parse_ts_loop_resync:
  assumes "\<not> first_idx (\<lambda>b. b = 0x47) a + 188 \<le> length a"
  shows "parse_ts_loop n fs a dmx = Some (drop (first_idx (\<lambda>b. b = 0x47) a) a, [], dmx)"
    and "parse_ts_loop n fs (a @ b) dmx = parse_ts_loop n fs (drop (first_idx (\<lambda>b. b = 0x47) a) a @ b) dmx"
proof -
  let ?f = "first_idx (\<lambda>b. b = (0x47 :: byte))"
  have short: "length a < ?f a + 188" using assms by simp
  have pre: "0x47 \<notin> set (take (?f a) a)"
    using first_idx_before [of _ "\<lambda>b. b = (0x47 :: byte)" a] by (force simp: in_set_conv_nth)
  have "?f (drop (?f a) a) = 0"
  proof (cases "?f a < length a")
    case True
    then have "drop (?f a) a \<noteq> []" "hd (drop (?f a) a) = 0x47"
      using first_idx_hit [of "\<lambda>b. b = (0x47 :: byte)" a] by (auto simp: hd_drop_conv_nth)
    then show ?thesis by (cases "drop (?f a) a") auto
  qed simp
  then have "parse_ts_loop n fs (drop (?f a) a) dmx = Some (drop (?f a) a, [], dmx)"
    using short by (subst parse_ts_loop.simps) (simp add: parse_ts_packet_short)
  with parse_ts_loop_skip [OF pre, of n fs "drop (?f a) a" dmx]
  show "parse_ts_loop n fs a dmx = Some (drop (?f a) a, [], dmx)" by simp
  show "parse_ts_loop n fs (a @ b) dmx = parse_ts_loop n fs (drop (?f a) a @ b) dmx"
    using parse_ts_loop_skip [OF pre, of n fs "drop (?f a) a @ b" dmx] by (simp add: append_assoc [symmetric])
qed

text \<open>
  C13: cutting the recorded transport stream into reads makes no difference. Parsing \<open>a @ b\<close> is
  parsing \<open>a\<close>, keeping the rest, and parsing the rest followed by \<open>b\<close>, with the calls in order;
  one is undefined exactly when the other is.
\<close>

theorem ts_chunking_irrelevant:
  "parse_ts_loop n fs (a @ b) dmx =
     (case parse_ts_loop n fs a dmx of
        None \<Rightarrow> None
      | Some (rest, cs, dmx1) \<Rightarrow> map_option (\<lambda>(rest', cs', dmx2). (rest', cs @ cs', dmx2)) (parse_ts_loop n fs (rest @ b) dmx1))"
proof (induction n fs a dmx rule: parse_ts_loop.induct)
  case (1 n fs a dmx)
  let ?f = "first_idx (\<lambda>b. b = (0x47 :: byte))"
  show ?case
  proof (cases "?f a + 188 \<le> length a")
    case True
    show ?thesis
    proof (cases "parse_ts_packet n fs a dmx")
      case None
      with parse_ts_packet_append [OF True] show ?thesis by (subst (1 2) parse_ts_loop.simps) simp
    next
      case (Some r)
      obtain cnt cs dmx1 where r: "r = (cnt, cs, dmx1)" by (cases r)
      with Some parse_ts_packet_count [of n fs a dmx] True have cnt: "cnt = ?f a + 188" by simp
      note A = parse_ts_loop_packet [OF Some [unfolded r cnt] True, of "[]", simplified]
      note B = parse_ts_loop_packet [OF Some [unfolded r cnt] True, of b]
      show ?thesis
      proof (cases "drop (?f a + 188) a = []")
        case nil: True
        then show ?thesis unfolding A B by simp
      next
        case False
        from 1 [OF Some r [symmetric] refl] False cnt
        have "parse_ts_loop n fs (drop (?f a + 188) a @ b) dmx1 =
          (case parse_ts_loop n fs (drop (?f a + 188) a) dmx1 of None \<Rightarrow> None
           | Some (rest, cs, dmx1) \<Rightarrow> map_option (\<lambda>(rest', cs', dmx2). (rest', cs @ cs', dmx2)) (parse_ts_loop n fs (rest @ b) dmx1))"
          by simp
        then show ?thesis unfolding A B
          by (auto simp: option.map_comp comp_def case_prod_beta split: option.splits intro!: option.map_cong)
      qed
    qed
  next
    case False
    show ?thesis unfolding parse_ts_loop_resync(1) [OF False] parse_ts_loop_resync(2) [OF False]
      by (simp add: case_prod_beta option.map_ident option.map_id)
  qed
qed

text \<open>What is left after a round is less than a packet and starts with a sync byte.\<close>

lemma parse_ts_loop_rest:
  "parse_ts_loop n fs a dmx = Some (rest, cs, dmx') \<Longrightarrow> length rest < 188 \<and> (rest = [] \<or> hd rest = 0x47)"
proof (induction n fs a dmx arbitrary: cs rule: parse_ts_loop.induct)
  case (1 n fs a dmx)
  let ?f = "first_idx (\<lambda>b. b = (0x47 :: byte))"
  obtain cnt cs1 dmx1 where p: "parse_ts_packet n fs a dmx = Some (cnt, cs1, dmx1)"
    using 1(2) by (subst (asm) parse_ts_loop.simps) (auto split: option.splits)
  show ?case
  proof (cases "cnt \<noteq> 0 \<and> drop cnt a \<noteq> []")
    case True
    with 1(2) p have "\<exists>cs. parse_ts_loop n fs (drop cnt a) dmx1 = Some (rest, cs, dmx')"
      by (subst (asm) parse_ts_loop.simps) auto
    with 1(1) [OF p refl refl True] show ?thesis by auto
  next
    case False
    with 1(2) p have rest: "rest = drop cnt a" by (subst (asm) parse_ts_loop.simps) auto
    show ?thesis
    proof (cases "drop cnt a = []")
      case ne: False
      with False parse_ts_packet_count [OF p] have "?f a = 0" "length a < 188" "cnt = 0" by (auto split: if_splits)
      with ne rest first_idx_hit [of "\<lambda>b. b = (0x47 :: byte)" a] show ?thesis by (cases a) auto
    qed (simp add: rest)
  qed
qed

text \<open>
  however much a poll of the software demux reads, what it keeps for the next one is less
  than a packet and starts with a sync byte, so that the next read has room; and the poll reports
  success and an empty mask, so that the data thread never reads this driver.
\<close>

theorem dvr_poll_keeps_less_than_packet:
  assumes "priv d = DrvDvr dmx" "length (dm_start dmx) < 188" "dm_start dmx = [] \<or> hd (dm_start dmx) = 0x47"
    and "dvr_poll K n fs d = Some (r, m, cs, d')"
  shows "r = AM_SUCCESS \<and> m = 0 \<and>
    (\<exists>dmx'. priv d' = DrvDvr dmx' \<and> length (dm_start dmx') < 188 \<and> (dm_start dmx' = [] \<or> hd (dm_start dmx') = 0x47))"
  using assms
  by (auto simp: dvr_poll_def split: option.splits prod.splits sum.splits list.splits dest: parse_ts_loop_rest)

definition quiet_kernel :: "byte list \<Rightarrow> nat kernel" where
  "quiet_kernel bs = \<lparr>k_malloc = \<lambda>k. (True, k), k_open = \<lambda>_ k. (Some k, Suc k), k_close = \<lambda>_ k. k,
     k_ioctl = \<lambda>_ _ k. (True, k), k_nonblock = \<lambda>_ k. k, k_poll = \<lambda>fds k. (Some (map (\<lambda>_. True) fds), k),
     k_read = \<lambda>_ _ k. (Inr bs, k), k_echo = \<lambda>_ _ k. (0, k)\<rparr>"

theorem dvr_poll_keeps_less_than_packet_witness:
  "\<exists>r m cs d' dmx'. dvr_poll (quiet_kernel [0, 0x47, 1]) 0 [] \<lparr>priv = DrvDvr (demux0 3), kern = 4\<rparr> = Some (r, m, cs, d') \<and>
     priv d' = DrvDvr dmx' \<and> length (dm_start dmx') < 188 \<and> r = 0 \<and> m = 0"
proof -
  have "parse_ts_loop 0 [] [0, 0x47, 1] (demux0 3) = Some ([0x47, 1], [], demux0 3)"
    by (simp add: parse_ts_loop.simps [of 0 "[]"] parse_ts_packet_def Let_def)
  then have "\<exists>d'. dvr_poll (quiet_kernel [0, 0x47, 1]) 0 [] \<lparr>priv = DrvDvr (demux0 3), kern = 4\<rparr> = Some (0, 0, [], d')"
    by (simp add: dvr_poll_def quiet_kernel_def demux0_def)
  then obtain d' where d': "dvr_poll (quiet_kernel [0, 0x47, 1]) 0 [] \<lparr>priv = DrvDvr (demux0 3), kern = 4\<rparr> = Some (0, 0, [], d')" ..
  from dvr_poll_keeps_less_than_packet [OF _ _ _ d', of "demux0 3"] d' show ?thesis by (auto simp: demux0_def)
qed


definition pat_params :: dmx_sct_filter_params where
  "pat_params = \<lparr>sct_pid = 0, sct_filter = \<lparr>flt_filter = replicate 16 0, flt_mask = 0xFF # replicate 15 0,
     flt_mode = replicate 16 0\<rparr>\<rparr>"

definition stopped_filter :: AM_DMX_Filter where
  "stopped_filter = \<lparr>f_drv_data = 0, f_used = True, f_enable = False, f_id = 0, f_cb = Some 7, f_user_data = 0\<rparr>"


end
