(* ===== verification/Dvr_Dmx_Facts.thy ===== *)
theory Dvr_Dmx_Facts
  imports Dvr_Section
begin

text \<open>
  The bookkeeping of the software demux driver and its contract with \<^verbatim>\<open>am_dmx.c\<close>. The
  invariant ties the three tables together: filters of the demux layer, filters of the driver and
  channels. A channel's \<^verbatim>\<open>used\<close> counts the enabled filters on it, no two used channels have the
  same PID, and an enabled filter's channel has its PID and its kind.
\<close>

definition chan_users :: "AM_DMX_Filter list \<Rightarrow> DVR_Filter list \<Rightarrow> nat \<Rightarrow> nat set" where
  "chan_users fs dfs c = {i \<in> {..< DMX_FILTER_COUNT}. f_enable (fs ! i) \<and> df_chan (dfs ! f_drv_data (fs ! i)) = Some c}"

definition chan_shape :: "DVR_Channel \<Rightarrow> bool" where
  "chan_shape ch \<longleftrightarrow> length (ch_buf ch) = 4096 \<and> chan_ok ch \<and> ch_filters ch = None"

lemma chan_ok_frame [simp]:
  "chan_ok (ch\<lparr>ch_used := u\<rparr>) = chan_ok ch" "chan_ok (ch\<lparr>ch_is_sec := b\<rparr>) = chan_ok ch"
  "chan_ok (ch\<lparr>ch_pid := p\<rparr>) = chan_ok ch" "chan_ok (ch\<lparr>ch_cc := cc\<rparr>) = chan_ok ch"
  "chan_ok (ch\<lparr>ch_filters := fl\<rparr>) = chan_ok ch"
  by (simp_all add: chan_ok_def)

definition dvr_shape :: "DVR_Demux \<Rightarrow> bool" where
  "dvr_shape dmx \<longleftrightarrow> length (dvr_channels dmx) = DVR_CHANNEL_COUNT \<and> length (dvr_filters dmx) = DVR_FILTER_COUNT \<and>
     length (dmx_fds dmx) = DVR_PID_COUNT \<and> dmx_cnt dmx \<le> DVR_PID_COUNT \<and>
     (\<forall>ch \<in> set (dvr_channels dmx). chan_shape ch)"

definition dvr_link :: "AM_DMX_Filter list \<Rightarrow> DVR_Filter list \<Rightarrow> bool" where
  "dvr_link fs dfs \<longleftrightarrow>
     (\<forall>i < DMX_FILTER_COUNT. f_used (fs ! i) \<longrightarrow> f_drv_data (fs ! i) < DVR_FILTER_COUNT \<and>
        df_used (dfs ! f_drv_data (fs ! i)) \<and> df_dmx_filter (dfs ! f_drv_data (fs ! i)) = i) \<and>
     (\<forall>j < DVR_FILTER_COUNT. df_used (dfs ! j) \<longrightarrow> df_dmx_filter (dfs ! j) < DMX_FILTER_COUNT \<and>
        f_used (fs ! df_dmx_filter (dfs ! j)) \<and> f_drv_data (fs ! df_dmx_filter (dfs ! j)) = j)"

definition dvr_chans :: "AM_DMX_Filter list \<Rightarrow> DVR_Filter list \<Rightarrow> DVR_Channel list \<Rightarrow> bool" where
  "dvr_chans fs dfs chs \<longleftrightarrow>
     (\<forall>c < DVR_CHANNEL_COUNT. ch_used (chs ! c) = int (card (chan_users fs dfs c))) \<and>
     (\<forall>c < DVR_CHANNEL_COUNT. \<forall>c' < DVR_CHANNEL_COUNT.
        ch_used (chs ! c) \<noteq> 0 \<longrightarrow> ch_used (chs ! c') \<noteq> 0 \<longrightarrow> ch_pid (chs ! c) = ch_pid (chs ! c') \<longrightarrow> c = c') \<and>
     (\<forall>i < DMX_FILTER_COUNT. f_enable (fs ! i) \<longrightarrow>
        (\<exists>c < DVR_CHANNEL_COUNT. df_chan (dfs ! f_drv_data (fs ! i)) = Some c \<and>
           ch_pid (chs ! c) = df_pid (dfs ! f_drv_data (fs ! i)) \<and>
           ch_is_sec (chs ! c) = df_sec_filter (dfs ! f_drv_data (fs ! i))))"

lemma dvr_chansD:
  assumes "dvr_chans fs dfs chs"
  shows "c < 32 \<Longrightarrow> ch_used (chs ! c) = int (card (chan_users fs dfs c))"
    and "c < 32 \<Longrightarrow> c' < 32 \<Longrightarrow> ch_used (chs ! c) \<noteq> 0 \<Longrightarrow> ch_used (chs ! c') \<noteq> 0 \<Longrightarrow>
      ch_pid (chs ! c) = ch_pid (chs ! c') \<Longrightarrow> c = c'"
    and "i < 32 \<Longrightarrow> f_enable (fs ! i) \<Longrightarrow> \<exists>c < 32. df_chan (dfs ! f_drv_data (fs ! i)) = Some c \<and>
      ch_pid (chs ! c) = df_pid (dfs ! f_drv_data (fs ! i)) \<and> ch_is_sec (chs ! c) = df_sec_filter (dfs ! f_drv_data (fs ! i))"
  using assms unfolding dvr_chans_def by blast+

definition dvr_inv :: "'k dmx_priv \<Rightarrow> AM_DMX_Filter list \<Rightarrow> bool" where
  "dvr_inv d fs \<longleftrightarrow>
     (\<exists>dmx. priv d = DrvDvr dmx \<and> dvr_shape dmx \<and> dvr_link fs (dvr_filters dmx) \<and>
        dvr_chans fs (dvr_filters dmx) (dvr_channels dmx))"

lemma dvr_invI:
  "priv d = DrvDvr dmx \<Longrightarrow> dvr_shape dmx \<Longrightarrow> dvr_link fs (dvr_filters dmx) \<Longrightarrow>
   dvr_chans fs (dvr_filters dmx) (dvr_channels dmx) \<Longrightarrow> dvr_inv d fs"
  by (auto simp: dvr_inv_def)

lemma dvr_invE:
  assumes "dvr_inv d fs"
  obtains dmx where "priv d = DrvDvr dmx" "dvr_shape dmx" "dvr_link fs (dvr_filters dmx)"
    "dvr_chans fs (dvr_filters dmx) (dvr_channels dmx)"
  using assms by (auto simp: dvr_inv_def)

lemma dvr_shapeD:
  assumes "dvr_shape dmx"
  shows "length (dvr_channels dmx) = 32" "length (dvr_filters dmx) = 32" "length (dmx_fds dmx) = 32" "dmx_cnt dmx \<le> 32"
  using assms by (simp_all add: dvr_shape_def)

lemma dvr_inv_kern [simp]: "dvr_inv (d\<lparr>kern := k\<rparr>) fs = dvr_inv d fs"
  by (simp add: dvr_inv_def)

subsection \<open>Frames\<close>

text \<open>Only \<open>used\<close>, \<open>enable\<close> and \<open>drv_data\<close> of the demux layer's filters matter.\<close>

lemma dvr_inv_fs_frame:
  assumes "\<And>i. i < 32 \<Longrightarrow> f_used (fs' ! i) = f_used (fs ! i) \<and> f_enable (fs' ! i) = f_enable (fs ! i) \<and>
      (f_used (fs ! i) \<longrightarrow> f_drv_data (fs' ! i) = f_drv_data (fs ! i))"
    and "tab_ok fs" "dvr_inv d fs"
  shows "dvr_inv d fs'"
proof -
  from assms(3) obtain dmx where dmx: "priv d = DrvDvr dmx" "dvr_shape dmx" "dvr_link fs (dvr_filters dmx)"
    "dvr_chans fs (dvr_filters dmx) (dvr_channels dmx)" by (rule dvr_invE)
  have eu: "f_used (fs ! i)" if "i < 32" "f_enable (fs ! i)" for i
    using tab_okD(2) [OF assms(2) that(1)] that(2) by (simp add: filter_ok_def)
  have users: "chan_users fs' (dvr_filters dmx) c = chan_users fs (dvr_filters dmx) c" for c
    using assms(1) eu by (auto simp: chan_users_def)
  have "dvr_link fs' (dvr_filters dmx)" using dmx(3) assms(1) by (auto simp: dvr_link_def)
  moreover have "dvr_chans fs' (dvr_filters dmx) (dvr_channels dmx)"
    using dmx(4) assms(1) eu users by (auto simp: dvr_chans_def)
  ultimately show ?thesis using dmx by (auto intro: dvr_invI)
qed

text \<open>Two used filters never share a filter of the driver.\<close>

lemma dvr_link_inj:
  "dvr_link fs dfs \<Longrightarrow> i < 32 \<Longrightarrow> j < 32 \<Longrightarrow> f_used (fs ! i) \<Longrightarrow> f_used (fs ! j) \<Longrightarrow>
     f_drv_data (fs ! i) = f_drv_data (fs ! j) \<Longrightarrow> i = j"
  unfolding dvr_link_def by metis

text \<open>
  Updating the driver's filter of a demux filter that is not enabled, without touching \<open>used\<close>
  and the back pointer, changes nothing.
\<close>

lemma dvr_inv_df_update:
  assumes "dvr_inv d fs" "tab_ok fs" "i < 32" "f_used (fs ! i)" "\<not> f_enable (fs ! i)"
    and "dvr_upd_filter (f_drv_data (fs ! i)) g d = Some d'"
    and g: "\<And>f. df_used (g f) = df_used f" "\<And>f. df_dmx_filter (g f) = df_dmx_filter f"
  shows "dvr_inv d' fs"
proof -
  from assms(1) obtain dmx where dmx: "priv d = DrvDvr dmx" "dvr_shape dmx" "dvr_link fs (dvr_filters dmx)"
    "dvr_chans fs (dvr_filters dmx) (dvr_channels dmx)" by (rule dvr_invE)
  define fi where "fi = f_drv_data (fs ! i)"
  define dfs where "dfs = (dvr_filters dmx)[fi := g (dvr_filters dmx ! fi)]"
  have fi: "fi < 32" using dmx(3) assms(3,4) by (auto simp: dvr_link_def fi_def)
  have d': "d' = d\<lparr>priv := DrvDvr (dmx\<lparr>dvr_filters := dfs\<rparr>)\<rparr>"
    using assms(6) dmx(1) by (simp add: dvr_upd_filter_def dfs_def fi_def)
  have other: "dfs ! f_drv_data (fs ! j) = dvr_filters dmx ! f_drv_data (fs ! j)" if "j < 32" "f_enable (fs ! j)" for j
  proof -
    have "f_used (fs ! j)" using tab_okD(2) [OF assms(2) that(1)] that(2) by (simp add: filter_ok_def)
    with dvr_link_inj [OF dmx(3) that(1) assms(3)] assms(4,5) that have "f_drv_data (fs ! j) \<noteq> fi"
      by (auto simp: fi_def)
    then show ?thesis by (simp add: dfs_def)
  qed
  have users: "chan_users fs dfs c = chan_users fs (dvr_filters dmx) c" for c
    using other by (auto simp: chan_users_def)
  show ?thesis
  proof (rule dvr_invI)
    show "priv d' = DrvDvr (dmx\<lparr>dvr_filters := dfs\<rparr>)" by (simp add: d')
    show "dvr_shape (dmx\<lparr>dvr_filters := dfs\<rparr>)" using dmx(2) by (simp add: dvr_shape_def dfs_def)
    show "dvr_link fs (dvr_filters (dmx\<lparr>dvr_filters := dfs\<rparr>))"
      using dmx(3) g fi dvr_shapeD(2) [OF dmx(2)] by (auto simp: dvr_link_def dfs_def nth_update_if)
    show "dvr_chans fs (dvr_filters (dmx\<lparr>dvr_filters := dfs\<rparr>)) (dvr_channels (dmx\<lparr>dvr_filters := dfs\<rparr>))"
      using dmx(4) other users by (auto simp: dvr_chans_def)
  qed
qed

subsection \<open>Recording\<close>

lemma record_pids_length:
  "dvr_record_pids K n chs (fds, k) = (fds', k') \<Longrightarrow> length fds \<le> length fds' \<and> length fds' \<le> length fds + length chs"
proof (induction chs arbitrary: fds k)
  case (Cons ch chs)
  obtain o' k1 where o: "k_open K (''/dev/dvb0.demux'' @ dev_digit n) k = (o', k1)" by force
  have "\<exists>fds1 k1. dvr_record_pids K n chs (fds1, k1) = (fds', k') \<and> (fds1 = fds \<or> (\<exists>fd. fds1 = fds @ [fd]))"
    using Cons.prems o by (cases o') (auto simp: Let_def split: if_splits)
  with Cons.IH show ?case by fastforce
qed simp

lemma dvr_reset_keeps:
  assumes "dvr_shape dmx" "dvr_reset K n (dmx, k) = (dmx', k')"
  shows "dvr_shape dmx'" "dvr_channels dmx' = dvr_channels dmx" "dvr_filters dmx' = dvr_filters dmx"
proof -
  obtain fds k1 where r: "dvr_record_pids K n (dvr_channels dmx)
      ([], fold (k_close K) (take (dmx_cnt dmx) (dmx_fds dmx)) k) = (fds, k1)" by force
  with assms have dmx': "dmx' = dmx\<lparr>dmx_fds := fds @ drop (length fds) (dmx_fds dmx), dmx_cnt := length fds\<rparr>"
    by (simp add: dvr_reset_def)
  have "length fds \<le> 32" using record_pids_length [OF r] dvr_shapeD(1) [OF assms(1)] by simp
  with assms(1) show "dvr_shape dmx'" by (simp add: dmx' dvr_shape_def)
  show "dvr_channels dmx' = dvr_channels dmx" "dvr_filters dmx' = dvr_filters dmx" by (simp_all add: dmx')
qed

lemma dvr_reset_if:
  assumes "dvr_shape dmx"
  obtains dmx' k' where "(if b then dvr_reset K n (dmx, k) else (dmx, k)) = (dmx', k')"
    "dvr_shape dmx'" "dvr_channels dmx' = dvr_channels dmx" "dvr_filters dmx' = dvr_filters dmx"
proof (cases b)
  case True
  obtain dmx' k' where r: "dvr_reset K n (dmx, k) = (dmx', k')" by force
  with dvr_reset_keeps [OF assms r] True that show ?thesis by simp
qed (use assms that in simp)

subsection \<open>Channels\<close>

lemma find_channel_cases:
  assumes "dvr_find_channel pid is_sec chs = (Some c, chs')"
  obtains ch' where "chs' = chs[c := ch']" "c < length chs" "ch_used ch' = ch_used (chs ! c) + 1"
    "ch_pid ch' = pid" "ch_is_sec ch' = is_sec" "chan_shape (chs ! c) \<Longrightarrow> chan_shape ch'"
    "(ch_used (chs ! c) \<noteq> 0 \<and> ch_pid (chs ! c) = pid \<and> ch_is_sec (chs ! c) = is_sec) \<or>
     (ch_used (chs ! c) = 0 \<and> (\<forall>ch \<in> set chs. ch_used ch \<noteq> 0 \<longrightarrow> ch_pid ch \<noteq> pid))"
proof (cases "first_idx (\<lambda>ch. ch_used ch \<noteq> 0 \<and> ch_pid ch = pid) chs < length chs")
  case True
  with assms first_idx_hit [OF True] that [of "(chs ! c)\<lparr>ch_used := ch_used (chs ! c) + 1\<rparr>"] show ?thesis
    by (auto simp: dvr_find_channel_def Let_def chan_shape_def split: if_splits)
next
  case False
  then have none: "\<forall>ch \<in> set chs. ch_used ch \<noteq> 0 \<longrightarrow> ch_pid ch \<noteq> pid"
    using first_idx_less_iff [of "\<lambda>ch. ch_used ch \<noteq> 0 \<and> ch_pid ch = pid" chs] by auto
  from False assms first_idx_hit [of "\<lambda>ch. ch_used ch = 0" chs] none
    that [of "(chs ! c)\<lparr>ch_used := 1, ch_is_sec := is_sec, ch_pid := pid, ch_cc := -1, ch_filters := None\<rparr>"]
  show ?thesis
    by (auto simp: dvr_find_channel_def Let_def chan_shape_def split: if_splits)
qed

lemma chan_users_finite [simp]: "finite (chan_users fs dfs c)"
  by (simp add: chan_users_def)

text \<open>Enabling puts the filter on its channel, disabling takes it off, and no other filter moves.\<close>

lemma chan_users_enable:
  assumes "dvr_link fs dfs" "tab_ok fs" "i < 32" "f_used (fs ! i)" "length fs = 32" "length dfs = 32"
  shows "chan_users (fs[i := (fs ! i)\<lparr>f_enable := True\<rparr>])
      (dfs[f_drv_data (fs ! i) := (dfs ! f_drv_data (fs ! i))\<lparr>df_chan := Some c\<rparr>]) c'
    = (if c' = c then insert i (chan_users fs dfs c') else chan_users fs dfs c' - {i})"
proof -
  have fi: "f_drv_data (fs ! i) < 32" using assms(1,3,4) by (auto simp: dvr_link_def)
  have ne: "f_drv_data (fs ! j) \<noteq> f_drv_data (fs ! i)" if "j < 32" "f_enable (fs ! j)" "j \<noteq> i" for j
    using dvr_link_inj [OF assms(1) that(1) assms(3) _ assms(4)] tab_okD(2) [OF assms(2) that(1)] that
    by (auto simp: filter_ok_def)
  show ?thesis using fi ne assms(3,5,6) by (auto simp: chan_users_def nth_update_if)
qed

lemma chan_users_disable:
  assumes "i < 32" "length fs = 32"
  shows "chan_users (fs[i := (fs ! i)\<lparr>f_enable := False\<rparr>]) dfs c = chan_users fs dfs c - {i}"
  using assms by (auto simp: chan_users_def nth_update_if)

subsection \<open>The contract\<close>

lemma dvr_shape_update:
  assumes "dvr_shape dmx" "chan_shape (dvr_channels dmx ! c) \<Longrightarrow> chan_shape ch" "c < 32" "length dfs = 32"
  shows "dvr_shape (dmx\<lparr>dvr_channels := (dvr_channels dmx)[c := ch], dvr_filters := dfs\<rparr>)"
  using assms nth_mem [of c "dvr_channels dmx"]
  by (auto simp: dvr_shape_def dest!: subsetD [OF set_update_subset_insert])

lemma dvr_enable_ok:
  assumes inv: "dvr_inv d fs" and tab: "tab_ok fs" and i: "i < 32" "f_used (fs ! i)" "\<not> f_enable (fs ! i)"
  shows "\<exists>r d'. dvr_enable_filter K n (fs ! i) True d = Some (r, d') \<and>
    dvr_inv d' (if r = AM_SUCCESS then fs[i := (fs ! i)\<lparr>f_enable := True\<rparr>] else fs)"
proof -
  from inv obtain dmx where dmx: "priv d = DrvDvr dmx" "dvr_shape dmx" "dvr_link fs (dvr_filters dmx)"
    "dvr_chans fs (dvr_filters dmx) (dvr_channels dmx)" by (rule dvr_invE)
  define fi where "fi = f_drv_data (fs ! i)"
  define f where "f = dvr_filters dmx ! fi"
  note len = dvr_shapeD [OF dmx(2)]
  have lfs: "length fs = 32" using tab by (rule tab_okD)
  have fi: "fi < 32" using dmx(3) i by (auto simp: dvr_link_def fi_def)
  obtain oc chs where find: "dvr_find_channel (df_pid f) (df_sec_filter f) (dvr_channels dmx) = (oc, chs)" by force
  show ?thesis
  proof (cases oc)
    case None
    with inv find dmx(1) i(3) show ?thesis by (simp add: dvr_enable_filter_def Let_def f_def fi_def)
  next
    case (Some c)
    define dfs where "dfs = (dvr_filters dmx)[fi := f\<lparr>df_chan := Some c\<rparr>]"
    define fs' where "fs' = fs[i := (fs ! i)\<lparr>f_enable := True\<rparr>]"
    from find_channel_cases [OF find [unfolded Some]] len(1) obtain ch where
      chs: "chs = (dvr_channels dmx)[c := ch]" and c: "c < 32" and
      ch: "ch_used ch = ch_used (dvr_channels dmx ! c) + 1" "ch_pid ch = df_pid f" "ch_is_sec ch = df_sec_filter f"
        "chan_shape (dvr_channels dmx ! c) \<Longrightarrow> chan_shape ch"
      and old: "(ch_used (dvr_channels dmx ! c) \<noteq> 0 \<and> ch_pid (dvr_channels dmx ! c) = df_pid f \<and>
          ch_is_sec (dvr_channels dmx ! c) = df_sec_filter f) \<or>
        (ch_used (dvr_channels dmx ! c) = 0 \<and> (\<forall>ch \<in> set (dvr_channels dmx). ch_used ch \<noteq> 0 \<longrightarrow> ch_pid ch \<noteq> df_pid f))"
      by auto
    have nu: "i \<notin> chan_users fs (dvr_filters dmx) c'" for c' using i(3) by (simp add: chan_users_def)
    have users: "chan_users fs' dfs c' = (if c' = c then insert i (chan_users fs (dvr_filters dmx) c') else chan_users fs (dvr_filters dmx) c')" for c'
      using chan_users_enable [OF dmx(3) tab i(1,2) lfs len(2), of c c'] nu by (simp add: fs'_def dfs_def f_def fi_def)
    have cnt: "ch_used (dvr_channels dmx ! c') = int (card (chan_users fs (dvr_filters dmx) c'))" if "c' < 32" for c'
      using dvr_chansD(1) [OF dmx(4) that] .
    have nth: "chs ! c' = (if c' = c then ch else dvr_channels dmx ! c')" for c'
      using c len(1) by (auto simp: chs nth_update_if)
    have used: "ch_used (chs ! c') = int (card (chan_users fs' dfs c'))" if "c' < 32" for c'
      using cnt [OF that] nu users ch(1) by (cases "c' = c") (auto simp: nth)
    have fresh: "ch_pid (dvr_channels dmx ! c') \<noteq> df_pid f"
      if "c' < 32" "c' \<noteq> c" "ch_used (dvr_channels dmx ! c') \<noteq> 0" for c'
      using old dvr_chansD(2) [OF dmx(4) that(1) c that(3)] that len(1) nth_mem [of c' "dvr_channels dmx"] by auto
    have pids: "c1 = c2" if "c1 < 32" "c2 < 32" "ch_used (chs ! c1) \<noteq> 0" "ch_used (chs ! c2) \<noteq> 0"
        "ch_pid (chs ! c1) = ch_pid (chs ! c2)" for c1 c2
    proof (cases "c1 = c \<or> c2 = c")
      case True
      with that show ?thesis by (metis nth fresh ch(2))
    next
      case False
      with that dvr_chansD(2) [OF dmx(4) that(1,2)] show ?thesis by (simp add: nth)
    qed
    have on: "\<exists>c' < 32. df_chan (dfs ! f_drv_data (fs' ! j)) = Some c' \<and>
        ch_pid (chs ! c') = df_pid (dfs ! f_drv_data (fs' ! j)) \<and>
        ch_is_sec (chs ! c') = df_sec_filter (dfs ! f_drv_data (fs' ! j))" if j: "j < 32" "f_enable (fs' ! j)" for j
    proof (cases "j = i")
      case True
      with c ch lfs i(1) fi len(2) show ?thesis by (auto simp: fs'_def dfs_def fi_def [symmetric] nth)
    next
      case False
      then have j': "fs' ! j = fs ! j" "f_enable (fs ! j)" using j by (simp_all add: fs'_def)
      then have ju: "f_used (fs ! j)" using tab_okD(2) [OF tab j(1)] by (simp add: filter_ok_def)
      from dvr_link_inj [OF dmx(3) j(1) i(1) ju i(2)] False have "f_drv_data (fs ! j) \<noteq> fi" by (auto simp: fi_def)
      then have df: "dfs ! f_drv_data (fs ! j) = dvr_filters dmx ! f_drv_data (fs ! j)" by (simp add: dfs_def)
      from dvr_chansD(3) [OF dmx(4) j(1) j'(2)] obtain c' where c': "c' < 32" "df_chan (dvr_filters dmx ! f_drv_data (fs ! j)) = Some c'"
        "ch_pid (dvr_channels dmx ! c') = df_pid (dvr_filters dmx ! f_drv_data (fs ! j))"
        "ch_is_sec (dvr_channels dmx ! c') = df_sec_filter (dvr_filters dmx ! f_drv_data (fs ! j))"
        by blast
      have "j \<in> chan_users fs (dvr_filters dmx) c'" using j(1) j'(2) c'(2) by (simp add: chan_users_def)
      then have "ch_used (dvr_channels dmx ! c') \<noteq> 0" using cnt [OF c'(1)] by (auto simp: card_eq_0_iff)
      then show ?thesis using c' j' df old ch(2,3) by (intro exI [of _ c']) (auto simp: nth)
    qed
    have shape1: "dvr_shape (dmx\<lparr>dvr_channels := chs, dvr_filters := dfs\<rparr>)"
      unfolding chs by (rule dvr_shape_update [OF dmx(2) ch(4) c]) (simp_all add: dfs_def len)
    from dvr_reset_if [OF shape1, of "ch_used (chs ! c) = 1" K n "kern d"] obtain dmx2 k where
      r: "(if ch_used (chs ! c) = 1 then dvr_reset K n (dmx\<lparr>dvr_channels := chs, dvr_filters := dfs\<rparr>, kern d)
           else (dmx\<lparr>dvr_channels := chs, dvr_filters := dfs\<rparr>, kern d)) = (dmx2, k)"
         "dvr_shape dmx2" "dvr_channels dmx2 = chs" "dvr_filters dmx2 = dfs" by auto
    have "dvr_link fs' dfs"
      using dmx(3) lfs len(2) fi by (auto simp: dvr_link_def fs'_def dfs_def f_def nth_update_if)
    moreover have "dvr_chans fs' dfs chs"
      unfolding dvr_chans_def using used pids on by blast
    moreover have "\<exists>d'. dvr_enable_filter K n (fs ! i) True d = Some (0, d') \<and> priv d' = DrvDvr dmx2"
      using find Some dmx(1) i(3) r(1)
      by (cases "ch_used (chs ! c) = 1")
         (auto simp: dvr_enable_filter_def Let_def fi_def [symmetric] f_def [symmetric] dfs_def [symmetric])
    ultimately show ?thesis using r by (auto simp: fs'_def intro!: dvr_invI [of _ dmx2])
  qed
qed

lemma dvr_disable_ok:
  assumes inv: "dvr_inv d fs" and tab: "tab_ok fs" and i: "i < 32" "f_enable (fs ! i)"
  shows "\<exists>d'. dvr_enable_filter K n (fs ! i) False d = Some (AM_SUCCESS, d') \<and>
    dvr_inv d' (fs[i := (fs ! i)\<lparr>f_enable := False\<rparr>])"
proof -
  from inv obtain dmx where dmx: "priv d = DrvDvr dmx" "dvr_shape dmx" "dvr_link fs (dvr_filters dmx)"
    "dvr_chans fs (dvr_filters dmx) (dvr_channels dmx)" by (rule dvr_invE)
  note len = dvr_shapeD [OF dmx(2)]
  have lfs: "length fs = 32" using tab by (rule tab_okD)
  from dvr_chansD(3) [OF dmx(4) i] obtain c where
    c: "c < 32" "df_chan (dvr_filters dmx ! f_drv_data (fs ! i)) = Some c" by blast
  define ch where "ch = (dvr_channels dmx ! c)\<lparr>ch_used := ch_used (dvr_channels dmx ! c) - 1\<rparr>"
  define chs where "chs = (dvr_channels dmx)[c := ch]"
  define fs' where "fs' = fs[i := (fs ! i)\<lparr>f_enable := False\<rparr>]"
  have nth: "chs ! c' = (if c' = c then ch else dvr_channels dmx ! c')" for c'
    using c len(1) by (auto simp: chs_def nth_update_if)
  have users: "chan_users fs' (dvr_filters dmx) c' = chan_users fs (dvr_filters dmx) c' - {i}" for c'
    unfolding fs'_def by (rule chan_users_disable [OF i(1) lfs])
  have mem: "i \<in> chan_users fs (dvr_filters dmx) c' \<longleftrightarrow> c' = c" for c' using i c by (auto simp: chan_users_def)
  have used: "ch_used (chs ! c') = int (card (chan_users fs' (dvr_filters dmx) c'))" if "c' < 32" for c'
    using dvr_chansD(1) [OF dmx(4) that] mem [of c'] card_gt_0_iff [of "chan_users fs (dvr_filters dmx) c'"]
    by (auto simp: nth users ch_def card_Diff_singleton_if of_nat_diff)
  have was: "ch_used (dvr_channels dmx ! c') \<noteq> 0" if "c' < 32" "ch_used (chs ! c') \<noteq> 0" for c'
    using that dvr_chansD(1) [OF dmx(4) c(1)] mem [of c] by (auto simp: nth split: if_splits)
  have pids: "c1 = c2" if "c1 < 32" "c2 < 32" "ch_used (chs ! c1) \<noteq> 0" "ch_used (chs ! c2) \<noteq> 0"
      "ch_pid (chs ! c1) = ch_pid (chs ! c2)" for c1 c2
  proof -
    have "ch_pid (chs ! x) = ch_pid (dvr_channels dmx ! x)" for x by (simp add: nth ch_def)
    with dvr_chansD(2) [OF dmx(4) that(1,2) was [OF that(1,3)] was [OF that(2,4)]] that(5) show ?thesis by simp
  qed
  have on: "\<exists>c' < 32. df_chan (dvr_filters dmx ! f_drv_data (fs' ! j)) = Some c' \<and>
      ch_pid (chs ! c') = df_pid (dvr_filters dmx ! f_drv_data (fs' ! j)) \<and>
      ch_is_sec (chs ! c') = df_sec_filter (dvr_filters dmx ! f_drv_data (fs' ! j))" if "j < 32" "f_enable (fs' ! j)" for j
  proof -
    from that lfs have "fs' ! j = fs ! j" "f_enable (fs ! j)" by (auto simp: fs'_def nth_update_if split: if_splits)
    with dvr_chansD(3) [OF dmx(4) that(1)] show ?thesis by (auto simp: nth ch_def)
  qed
  have shape1: "dvr_shape (dmx\<lparr>dvr_channels := chs\<rparr>)"
    using dvr_shape_update [OF dmx(2) _ c(1), of ch "dvr_filters dmx"] len by (simp add: chs_def ch_def chan_shape_def)
  from dvr_reset_if [OF shape1, of "ch_used (chs ! c) = 0" K n "kern d"] obtain dmx2 k where
    r: "(if ch_used (chs ! c) = 0 then dvr_reset K n (dmx\<lparr>dvr_channels := chs\<rparr>, kern d)
         else (dmx\<lparr>dvr_channels := chs\<rparr>, kern d)) = (dmx2, k)"
       "dvr_shape dmx2" "dvr_channels dmx2 = chs" "dvr_filters dmx2 = dvr_filters dmx" by auto
  have "dvr_link fs' (dvr_filters dmx)"
    using dmx(3) lfs by (auto simp: dvr_link_def fs'_def nth_update_if)
  moreover have "dvr_chans fs' (dvr_filters dmx) chs" unfolding dvr_chans_def using used pids on by blast
  moreover have "\<exists>d'. dvr_enable_filter K n (fs ! i) False d = Some (0, d') \<and> priv d' = DrvDvr dmx2"
    using dmx(1) i(2) c(2) r(1)
    by (cases "ch_used (chs ! c) = 0")
       (auto simp: dvr_enable_filter_def Let_def ch_def [symmetric] chs_def [symmetric])
  ultimately show ?thesis using r by (auto simp: fs'_def intro!: dvr_invI [of _ dmx2])
qed

lemma dvr_free_ok:
  assumes inv: "dvr_inv d fs" and tab: "tab_ok fs" and i: "i < 32" "f_used (fs ! i)" "\<not> f_enable (fs ! i)"
  shows "\<exists>d'. dvr_free_filter K n (fs ! i) d = Some (AM_SUCCESS, d') \<and> dvr_inv d' (fs[i := (fs ! i)\<lparr>f_used := False\<rparr>])"
proof -
  from inv obtain dmx where dmx: "priv d = DrvDvr dmx" "dvr_shape dmx" "dvr_link fs (dvr_filters dmx)"
    "dvr_chans fs (dvr_filters dmx) (dvr_channels dmx)" by (rule dvr_invE)
  note len = dvr_shapeD [OF dmx(2)]
  have lfs: "length fs = 32" using tab by (rule tab_okD)
  define fi where "fi = f_drv_data (fs ! i)"
  define dfs where "dfs = (dvr_filters dmx)[fi := (dvr_filters dmx ! fi)\<lparr>df_used := False\<rparr>]"
  define fs' where "fs' = fs[i := (fs ! i)\<lparr>f_used := False\<rparr>]"
  have fi: "fi < 32" "df_dmx_filter (dvr_filters dmx ! fi) = i" using dmx(3) i by (auto simp: dvr_link_def fi_def)
  have same: "df_chan (dfs ! j) = df_chan (dvr_filters dmx ! j)" "df_pid (dfs ! j) = df_pid (dvr_filters dmx ! j)"
    "df_sec_filter (dfs ! j) = df_sec_filter (dvr_filters dmx ! j)" for j by (simp_all add: dfs_def nth_update_if)
  have same': "f_enable (fs' ! j) = f_enable (fs ! j)" "f_drv_data (fs' ! j) = f_drv_data (fs ! j)" for j
    by (simp_all add: fs'_def nth_update_if)
  have users: "chan_users fs' dfs c = chan_users fs (dvr_filters dmx) c" for c by (simp add: chan_users_def same same')
  have "dvr_link fs' dfs"
    unfolding dvr_link_def
  proof (intro conjI allI impI)
    fix j assume j: "j < (32::nat)" "f_used (fs' ! j)"
    then have ji: "j \<noteq> i" "f_used (fs ! j)" using lfs by (auto simp: fs'_def nth_update_if split: if_splits)
    with dvr_link_inj [OF dmx(3) j(1) i(1) ji(2) i(2)] have "f_drv_data (fs ! j) \<noteq> fi" by (auto simp: fi_def)
    with dmx(3) j(1) ji show "f_drv_data (fs' ! j) < 32" "df_used (dfs ! f_drv_data (fs' ! j))"
      "df_dmx_filter (dfs ! f_drv_data (fs' ! j)) = j" by (auto simp: dvr_link_def same' dfs_def)
  next
    fix j assume j: "j < (32::nat)" "df_used (dfs ! j)"
    then have ju: "j \<noteq> fi" "df_used (dvr_filters dmx ! j)" using len(2) by (auto simp: dfs_def nth_update_if split: if_splits)
    then have "df_dmx_filter (dvr_filters dmx ! j) \<noteq> i" using dmx(3) j(1) by (auto simp: dvr_link_def fi_def)
    with dmx(3) j(1) ju show "df_dmx_filter (dfs ! j) < 32" "f_used (fs' ! df_dmx_filter (dfs ! j))"
      "f_drv_data (fs' ! df_dmx_filter (dfs ! j)) = j" by (auto simp: dvr_link_def dfs_def fs'_def)
  qed
  moreover have "dvr_chans fs' dfs (dvr_channels dmx)"
    using dmx(4) by (simp add: dvr_chans_def users same same')
  moreover have "dvr_shape (dmx\<lparr>dvr_filters := dfs\<rparr>)" using dmx(2) by (simp add: dvr_shape_def dfs_def)
  moreover have "dvr_free_filter K n (fs ! i) d = Some (0, d\<lparr>priv := DrvDvr (dmx\<lparr>dvr_filters := dfs\<rparr>)\<rparr>)"
    using dmx(1) i(3) by (simp add: dvr_free_filter_def dvr_enable_filter_def dvr_upd_filter_def dfs_def fi_def)
  ultimately show ?thesis by (auto simp: fs'_def intro!: dvr_invI)
qed

lemma dvr_alloc_ok:
  assumes inv: "dvr_inv d fs" and tab: "tab_ok fs" and i: "i < 32" "\<not> f_used (fs ! i)"
  shows "\<exists>r p d'. dvr_alloc_filter n ((fs ! i)\<lparr>f_id := i\<rparr>) d = Some (r, p, d') \<and>
    dvr_inv d' (fs[i := (fs ! i)\<lparr>f_id := i, f_drv_data := p, f_used := (r = AM_SUCCESS)\<rparr>])"
proof -
  from inv obtain dmx where dmx: "priv d = DrvDvr dmx" "dvr_shape dmx" "dvr_link fs (dvr_filters dmx)"
    "dvr_chans fs (dvr_filters dmx) (dvr_channels dmx)" by (rule dvr_invE)
  note len = dvr_shapeD [OF dmx(2)]
  have lfs: "length fs = 32" using tab by (rule tab_okD)
  have off: "\<not> f_enable (fs ! i)" using tab_okD(2) [OF tab i(1)] i(2) by (simp add: filter_ok_def)
  define j where "j = first_idx (\<lambda>f. \<not> df_used f) (dvr_filters dmx)"
  show ?thesis
  proof (cases "j < 32")
    case False
    have "dvr_inv d (fs[i := (fs ! i)\<lparr>f_id := i, f_used := False\<rparr>])"
      using i lfs by (intro dvr_inv_fs_frame [OF _ tab inv]) (auto simp: nth_update_if)
    with False dmx(1) len(2) show ?thesis by (auto simp: dvr_alloc_filter_def Let_def j_def)
  next
    case True
    have ju: "\<not> df_used (dvr_filters dmx ! j)"
      using first_idx_hit [of "\<lambda>f. \<not> df_used f" "dvr_filters dmx"] True len(2) by (simp add: j_def)
    define dfs where "dfs = (dvr_filters dmx)[j := (dvr_filters dmx ! j)\<lparr>df_used := True, df_dmx_filter := i,
      df_sec_filter := True, df_pid := 0x1FFF\<rparr>]"
    define fs' where "fs' = fs[i := (fs ! i)\<lparr>f_id := i, f_drv_data := j, f_used := True\<rparr>]"
    have eu: "f_used (fs ! k)" if "k < 32" "f_enable (fs ! k)" for k
      using tab_okD(2) [OF tab that(1)] that(2) by (simp add: filter_ok_def)
    have other: "fs' ! k = fs ! k \<and> f_drv_data (fs ! k) \<noteq> j" if "k < 32" "f_used (fs ! k)" for k
      using that i(2) ju dmx(3) by (auto simp: fs'_def dvr_link_def nth_update_if)
    have en: "f_enable (fs' ! k) = f_enable (fs ! k)" for k by (simp add: fs'_def nth_update_if)
    have dfo: "dfs ! f_drv_data (fs' ! k) = dvr_filters dmx ! f_drv_data (fs ! k)" if "k < 32" "f_enable (fs ! k)" for k
      using other [OF that(1) eu [OF that]] by (simp add: dfs_def)
    have users: "chan_users fs' dfs c = chan_users fs (dvr_filters dmx) c" for c
      using dfo en by (auto simp: chan_users_def)
    have "dvr_link fs' dfs"
      unfolding dvr_link_def
    proof (intro conjI allI impI)
      fix k assume k: "k < (32::nat)" "f_used (fs' ! k)"
      show "f_drv_data (fs' ! k) < 32" "df_used (dfs ! f_drv_data (fs' ! k))" "df_dmx_filter (dfs ! f_drv_data (fs' ! k)) = k"
        using k other [OF k(1)] dmx(3) True len(2) lfs i
        by (cases "k = i"; simp add: fs'_def dfs_def dvr_link_def)+
    next
      fix k assume k: "k < (32::nat)" "df_used (dfs ! k)"
      have "k \<noteq> j \<Longrightarrow> df_dmx_filter (dvr_filters dmx ! k) \<noteq> i"
        using k i(2) dmx(3) len(2) by (auto simp: dfs_def dvr_link_def)
      with k dmx(3) len(2) lfs i(1) True show "df_dmx_filter (dfs ! k) < 32" "f_used (fs' ! df_dmx_filter (dfs ! k))"
        "f_drv_data (fs' ! df_dmx_filter (dfs ! k)) = k"
        by (cases "k = j"; simp add: fs'_def dfs_def dvr_link_def)+
    qed
    moreover have "dvr_chans fs' dfs (dvr_channels dmx)"
      using dmx(4) dfo en users by (simp add: dvr_chans_def)
    moreover have "dvr_shape (dmx\<lparr>dvr_filters := dfs\<rparr>)" using dmx(2) by (simp add: dvr_shape_def dfs_def)
    moreover have "dvr_alloc_filter n ((fs ! i)\<lparr>f_id := i\<rparr>) d = Some (0, j, d\<lparr>priv := DrvDvr (dmx\<lparr>dvr_filters := dfs\<rparr>)\<rparr>)"
      using dmx(1) True len(2) by (simp add: dvr_alloc_filter_def Let_def j_def [symmetric] dfs_def)
    ultimately show ?thesis by (auto simp: fs'_def intro!: dvr_invI)
  qed
qed

lemma dvr_set_filter_ok:
  assumes inv: "dvr_inv d fs" and "tab_ok fs" "i < 32" "f_used (fs ! i)" "\<not> f_enable (fs ! i)"
    and "\<And>f. df_used (g f) = df_used f" "\<And>f. df_dmx_filter (g f) = df_dmx_filter f"
  shows "\<exists>d'. dvr_set_filter K g n (fs ! i) d = Some (AM_SUCCESS, d') \<and> dvr_inv d' fs"
proof -
  from inv obtain dmx where "priv d = DrvDvr dmx" by (rule dvr_invE)
  then obtain d' where d': "dvr_upd_filter (f_drv_data (fs ! i)) g d = Some d'" by (simp add: dvr_upd_filter_def)
  from dvr_inv_df_update [OF assms(1-5) d' assms(6,7)] d' assms(5) show ?thesis by (simp add: dvr_set_filter_def)
qed

lemma dvr_inv_callback:
  assumes "dvr_inv d fs" "tab_ok fs"
  shows "dvr_inv d (fs[i := (fs ! i)\<lparr>f_cb := cb, f_user_data := u\<rparr>])"
  by (rule dvr_inv_fs_frame [OF _ assms(2,1)]) (simp add: nth_update_if)

text \<open>What a poll changes of a channel: its buffer, fill and continuity counter.\<close>

definition same_chan :: "DVR_Channel \<Rightarrow> DVR_Channel \<Rightarrow> bool" where
  "same_chan ch ch' \<longleftrightarrow> ch_used ch' = ch_used ch \<and> ch_pid ch' = ch_pid ch \<and> ch_is_sec ch' = ch_is_sec ch \<and>
     (chan_shape ch \<longrightarrow> chan_shape ch')"

lemma same_chan_refl [simp]: "same_chan ch ch"
  by (simp add: same_chan_def)

lemma same_chan_trans: "same_chan a b \<Longrightarrow> same_chan b c \<Longrightarrow> same_chan a c"
  by (simp add: same_chan_def)

lemma check_sec_same:
  assumes "check_sec disp data ch = Some (cnt, cs, ch')"
  shows "same_chan ch ch'"
proof -
  have frame: "ch_used ch' = ch_used ch" "ch_pid ch' = ch_pid ch" "ch_is_sec ch' = ch_is_sec ch" "ch_filters ch' = ch_filters ch"
    "length (ch_buf ch') = length (ch_buf ch)"
    using assms
    by (auto simp: check_sec_def check_sec_body_def Let_def dest!: copy_into_length split: if_splits option.splits)
  have "chan_ok ch'" if "chan_ok ch"
  proof (cases "data = []")
    case True
    with assms check_sec_nothing [OF that, of disp] that show ?thesis by simp
  next
    case False
    show ?thesis
    proof (cases "ch_size ch + length data < 3")
      case True
      with check_sec_short [OF that True, of disp] assms that show ?thesis by (auto simp: chan_ok_def)
    next
      case 3: False
      with check_sec_overflow [OF that, of data disp] check_sec_progress [OF that False, of disp] assms
      show ?thesis by (fastforce simp: not_less)
    qed
  qed
  with frame show ?thesis by (simp add: same_chan_def chan_shape_def)
qed

lemma parse_sec_loop_same:
  assumes "parse_sec_loop disp data first ch = Some (cs, ch')"
  shows "same_chan ch ch'"
proof -
  have "same_chan ch (snd (cs, ch'))"
  proof (rule parse_sec_loop.raw_induct [where P = "\<lambda>disp data first ch r. same_chan ch (snd r)", OF _ assms], goal_cases)
    case (1 loop disp data first ch r)
    show ?case
    proof (cases "data \<noteq> [] \<and> (first \<or> hd data \<noteq> 0xFF)")
      case True
      with 1(2) obtain cnt cs1 ch1 r2 where c:
        "check_sec disp data ch = Some (cnt, cs1, ch1)" "loop disp (drop cnt data) False ch1 = Some r2" "snd r = snd r2"
        by (auto simp: bind_eq_Some_conv)
      show ?thesis using same_chan_trans [OF check_sec_same [OF c(1)] 1(1) [OF c(2)]] c(3) by simp
    qed (use 1(2) in auto)
  qed
  then show ?thesis by simp
qed

lemma parse_sec_same:
  assumes "parse_sec disp data p_start ch = Some (cs, ch')"
  shows "same_chan ch ch'"
proof (cases p_start)
  case False
  with assms parse_sec_loop_same show ?thesis by (auto simp: parse_sec_def)
next
  case True
  have reset: "same_chan ch1 (ch1\<lparr>ch_size := 0\<rparr>)" for ch1
    by (simp add: same_chan_def chan_shape_def chan_ok_def)
  from True assms obtain cnt cs1 ch1 cs2 where
    "(if unat (hd data) \<le> length (tl data) then check_sec disp (take (unat (hd data)) (tl data)) ch
      else Some (0, [], ch)) = Some (cnt, cs1, ch1)"
    "parse_sec_loop disp (drop (unat (hd data)) (tl data)) True (ch1\<lparr>ch_size := 0\<rparr>) = Some (cs2, ch')"
    by (auto simp: parse_sec_def Let_def bind_eq_Some_conv)
  then have "same_chan ch ch1" "same_chan (ch1\<lparr>ch_size := 0\<rparr>) ch'"
    by (auto dest: check_sec_same parse_sec_loop_same split: if_splits)
  with reset show ?thesis by (blast intro: same_chan_trans)
qed

definition same_demux :: "DVR_Demux \<Rightarrow> DVR_Demux \<Rightarrow> bool" where
  "same_demux dmx dmx' \<longleftrightarrow> dvr_filters dmx' = dvr_filters dmx \<and> dmx_fds dmx' = dmx_fds dmx \<and> dmx_cnt dmx' = dmx_cnt dmx \<and>
     list_all2 same_chan (dvr_channels dmx) (dvr_channels dmx')"

lemma same_demux_refl [simp]: "same_demux dmx dmx"
  by (simp add: same_demux_def list_all2_conv_all_nth)

lemma same_demux_trans: "same_demux a b \<Longrightarrow> same_demux b c \<Longrightarrow> same_demux a c"
  unfolding same_demux_def list_all2_conv_all_nth by (metis same_chan_trans)

lemma ts_packet_same:
  assumes "ts_packet n fs p dmx = Some (cs, dmx')"
  shows "same_demux dmx dmx'"
proof -
  have upd: "same_demux dmx (dmx\<lparr>dvr_channels := (dvr_channels dmx)[i := ch\<lparr>ch_cc := cc\<rparr>]\<rparr>)"
    if "same_chan (dvr_channels dmx ! i) ch" for i ch cc
  proof -
    have "same_chan (dvr_channels dmx ! i) (ch\<lparr>ch_cc := cc\<rparr>)" using that by (simp add: same_chan_def chan_shape_def)
    then show ?thesis by (simp add: same_demux_def list_all2_conv_all_nth nth_update_if)
  qed
  show ?thesis
    using assms by (auto simp: ts_packet_def Let_def intro!: upd dest: parse_sec_same split: if_splits option.splits)
qed

lemma parse_ts_loop_same: "parse_ts_loop n fs data dmx = Some (rest, cs, dmx') \<Longrightarrow> same_demux dmx dmx'"
proof (induction n fs data dmx arbitrary: cs rule: parse_ts_loop.induct)
  case (1 n fs data dmx)
  obtain cnt cs1 dmx1 where p: "parse_ts_packet n fs data dmx = Some (cnt, cs1, dmx1)"
    using 1(2) by (subst (asm) parse_ts_loop.simps) (auto split: option.splits)
  then have s: "same_demux dmx dmx1" by (auto simp: parse_ts_packet_def Let_def dest: ts_packet_same split: if_splits)
  show ?case
  proof (cases "cnt \<noteq> 0 \<and> drop cnt data \<noteq> []")
    case True
    with 1(2) p obtain cs' where "parse_ts_loop n fs (drop cnt data) dmx1 = Some (rest, cs', dmx')"
      by (subst (asm) parse_ts_loop.simps) auto
    with 1(1) [OF p refl refl True] s show ?thesis by (blast intro: same_demux_trans)
  next
    case False
    with 1(2) p s show ?thesis by (subst (asm) parse_ts_loop.simps) auto
  qed
qed

lemma dvr_inv_same:
  assumes "priv d = DrvDvr dmx" "dvr_inv d fs" "same_demux dmx dmx'"
  shows "dvr_inv (d\<lparr>priv := DrvDvr (dmx'\<lparr>dm_start := rest\<rparr>), kern := k\<rparr>) fs"
proof -
  from assms(2) obtain dmx0 where "priv d = DrvDvr dmx0" "dvr_shape dmx0" "dvr_link fs (dvr_filters dmx0)"
    "dvr_chans fs (dvr_filters dmx0) (dvr_channels dmx0)" by (rule dvr_invE)
  with assms(1) have dmx: "dvr_shape dmx" "dvr_link fs (dvr_filters dmx)" "dvr_chans fs (dvr_filters dmx) (dvr_channels dmx)"
    by auto
  let ?chs = "dvr_channels dmx'"
  have len: "length ?chs = 32" "length (dvr_channels dmx) = 32"
    using assms(3) dvr_shapeD(1) [OF dmx(1)] by (auto simp: same_demux_def dest: list_all2_lengthD)
  have same: "same_chan (dvr_channels dmx ! c) (?chs ! c)" if "c < 32" for c
    using assms(3) that len by (simp add: same_demux_def list_all2_conv_all_nth)
  have "\<forall>ch \<in> set ?chs. chan_shape ch"
  proof
    fix ch assume "ch \<in> set ?chs"
    then obtain c where c: "c < 32" "ch = ?chs ! c" using len by (auto simp: in_set_conv_nth)
    have "chan_shape (dvr_channels dmx ! c)" using dmx(1) c(1) len by (simp add: dvr_shape_def)
    with same [OF c(1)] c(2) show "chan_shape ch" by (simp add: same_chan_def)
  qed
  then have "dvr_shape (dmx'\<lparr>dm_start := rest\<rparr>)"
    using dmx(1) len assms(3) by (simp add: dvr_shape_def same_demux_def)
  moreover have "dvr_chans fs (dvr_filters dmx) ?chs"
  proof -
    have "ch_used (?chs ! c) = ch_used (dvr_channels dmx ! c)" "ch_pid (?chs ! c) = ch_pid (dvr_channels dmx ! c)"
      "ch_is_sec (?chs ! c) = ch_is_sec (dvr_channels dmx ! c)" if "c < 32" for c
      using same [OF that] by (simp_all add: same_chan_def)
    with dmx(3) show ?thesis by (simp add: dvr_chans_def cong: conj_cong)
  qed
  ultimately show ?thesis using dmx(2) assms(3)
    by (intro dvr_invI [of _ "dmx'\<lparr>dm_start := rest\<rparr>"]) (simp_all add: same_demux_def)
qed

lemma dvr_poll_ok:
  assumes "dvr_inv d fs" "dvr_poll K n fs d = Some (r, m, cs, d')"
  shows "dvr_inv d' fs"
proof -
  from assms(1) obtain dmx where dmx: "priv d = DrvDvr dmx" by (rule dvr_invE)
  with assms dvr_inv_same [OF dmx assms(1) parse_ts_loop_same] show ?thesis
    by (auto simp: dvr_poll_def split: option.splits prod.splits sum.splits list.splits)
qed

lemma dvr_inv_opened:
  assumes "\<And>i. i < 32 \<Longrightarrow> \<not> f_used (fs ! i)" "tab_ok fs"
  shows "dvr_inv (d\<lparr>priv := DrvDvr (demux0 fd), kern := k\<rparr>) fs"
proof -
  have off: "\<not> f_enable (fs ! i)" if "i < 32" for i
    using assms(1) [OF that] tab_okD(2) [OF assms(2) that] by (auto simp: filter_ok_def)
  then have "chan_users fs dfs c = {}" for dfs c by (auto simp: chan_users_def)
  with off assms(1) show ?thesis
    by (intro dvr_invI [of _ "demux0 fd"])
       (auto simp: demux0_def dvr_shape_def chan_shape_def chan0_def chan_ok_def dvr_link_def dvr_chans_def dfilter0_def)
qed

text \<open>The software demux driver meets the contract, and disabling and freeing never fail.\<close>

interpretation dvr: dmx_driver "dvr_dmx_drv K" dvr_inv for K :: "'k kernel"
proof (unfold_locales, goal_cases)
  case (1 d fs i n)
  then show ?case using dvr_alloc_ok [of d fs i n] by (simp add: dvr_dmx_drv_def)
next
  case (2 d fs i n)
  then show ?case using dvr_enable_ok [of d fs i K n] by (simp add: dvr_dmx_drv_def)
next
  case (3 d fs i n)
  then show ?case using dvr_disable_ok [of d fs i K n] by (auto simp: dvr_dmx_drv_def)
next
  case (4 d fs i n)
  then show ?case using dvr_free_ok [of d fs i K n] by (auto simp: dvr_dmx_drv_def)
next
  case (5 d fs i n sp)
  then show ?case
    by (simp add: dvr_dmx_drv_def dvr_set_sec_filter_def, intro exI [of _ 0] dvr_set_filter_ok) simp_all
next
  case (6 d fs i n pp)
  then show ?case
    by (simp add: dvr_dmx_drv_def dvr_set_pes_filter_def, intro exI [of _ 0] dvr_set_filter_ok) simp_all
next
  case (7 d fs i n sz)
  then show ?case by (simp add: dvr_dmx_drv_def dvr_set_buf_size_def)
next
  case (8 d fs n s)
  then show ?case by (auto simp: dvr_dmx_drv_def dvr_set_source_def split: option.splits prod.splits)
next
  case (9 d fs n)
  from 9(1) obtain dmx where "priv d = DrvDvr dmx" by (rule dvr_invE)
  then show ?case by (simp add: dvr_dmx_drv_def dvr_close_def Let_def)
next
  case (10 d fs i cb u)
  then show ?case by (intro dvr_inv_callback)
next
  case (11 fs n para d)
  then show ?case using dvr_inv_opened [OF 11(2,1)]
    by (auto simp: dvr_dmx_drv_def dvr_open_def Let_def split: option.splits prod.splits)
next
  case (12 d fs n r m cs d')
  then show ?case by (auto simp: dvr_dmx_drv_def intro: dvr_poll_ok)
next
  case (13 d fs i n len r bs d')
  then show ?case by (simp add: dvr_dmx_drv_def dvr_read_def)
qed

interpretation dvr: reliable_dmx_driver "dvr_dmx_drv K" dvr_inv for K :: "'k kernel"
proof (unfold_locales, goal_cases)
  case (1 d fs i g n r d')
  then show ?case using dvr_disable_ok [of d fs i K n] by (auto simp: dvr_dmx_drv_def)
next
  case (2 d fs i g n r d')
  then show ?case using dvr_free_ok [of d fs i K n] by (auto simp: dvr_dmx_drv_def)
qed

end
