(* ===== verification/Dmx_System.thy ===== *)
theory Dmx_System
  imports Linux_Dvb_Dmx Dvr_Dmx_Facts
begin

text \<open>
  The demux layer with its two drivers, the kernel demux as \<open>hw\<close> and the software demux as
  \<open>sw\<close>, over an arbitrary kernel. When the kernel never refuses \<^verbatim>\<open>DMX_STOP\<close>, every reachable
  state is one in which the drivers' contracts hold; so all operations are defined, closing frees
  everything and the channels of the software demux are counted right. When it does refuse, a
  filter survives the closing of its device.
\<close>

definition stop_reliable :: "'k kernel \<Rightarrow> bool" where
  "stop_reliable K \<longleftrightarrow> (\<forall>fd k. fst (k_ioctl K fd DMX_STOP k))"

definition sys_dev_ok :: "'k kernel \<Rightarrow> 'k dmx_priv AM_DMX_Device \<Rightarrow> bool" where
  "sys_dev_ok K dev \<longleftrightarrow> dmx_dev_inv dev \<and>
     (if open_count dev = 0 then (\<forall>i < DMX_FILTER_COUNT. \<not> f_used (filters dev ! i))
      else drv_dev_ok (linux_dvb_dmx_drv K) dvb_inv dev \<or> drv_dev_ok (dvr_dmx_drv K) dvr_inv dev)"

definition sys_ok :: "'k kernel \<Rightarrow> 'k dmx_priv dmx_devices \<Rightarrow> bool" where
  "sys_ok K devs \<longleftrightarrow> length devs = DMX_DEV_COUNT \<and> (\<forall>i < DMX_DEV_COUNT. sys_dev_ok K (devs ! i))"

lemma sys_okD: "sys_ok K devs \<Longrightarrow> length devs = 2" "sys_ok K devs \<Longrightarrow> i < 2 \<Longrightarrow> sys_dev_ok K (devs ! i)"
  by (simp_all add: sys_ok_def)

lemma sys_ok_update: "sys_ok K devs \<Longrightarrow> sys_dev_ok K dev \<Longrightarrow> sys_ok K (devs[i := dev])"
  by (auto simp: sys_ok_def nth_update_if)

lemma sys_dev_cases:
  assumes "sys_dev_ok K dev" "0 < open_count dev"
  obtains (dvb) "drv_dev_ok (linux_dvb_dmx_drv K) dvb_inv dev" | (dvr) "drv_dev_ok (dvr_dmx_drv K) dvr_inv dev"
  using assms by (auto simp: sys_dev_ok_def)

text \<open>
  A body that both contracts keep, and that leaves the open count alone, runs in a reachable state
  without undefined behaviour and keeps the system invariant.
\<close>

definition body_ok :: "'k kernel \<Rightarrow> ('k dmx_priv AM_DMX_Device \<Rightarrow> ('r \<times> 'k dmx_priv AM_DMX_Device) option) \<Rightarrow> bool" where
  "body_ok K body \<longleftrightarrow> (\<forall>dev. 0 < open_count dev \<longrightarrow> sys_dev_ok K dev \<longrightarrow>
     (\<exists>r dev'. body dev = Some (r, dev') \<and> sys_dev_ok K dev'))"

lemma with_openned_ok:
  assumes "sys_ok K devs" "body_ok K body"
  shows "\<exists>r devs'. with_openned fail n body devs = Some (r, devs') \<and> sys_ok K devs'"
proof (cases "dmx_get_openned_dev n devs")
  case (Inl e)
  with assms(1) show ?thesis by (simp add: with_openned_def)
next
  case (Inr i)
  then have i: "i < 2" "0 < open_count (devs ! i)" by (simp_all add: openned_iff)
  from assms(2) i(2) sys_okD(2) [OF assms(1) i(1)] obtain r dev where
    "body (devs ! i) = Some (r, dev)" "sys_dev_ok K dev" unfolding body_ok_def by blast
  with Inr assms(1) show ?thesis by (auto simp: with_openned_def intro: sys_ok_update)
qed

text \<open>Both drivers at once: the contract lemmas of the two interpretations give \<open>body_ok\<close>.\<close>

lemma body_okI:
  assumes dvb: "\<And>dev. drv_dev_ok (linux_dvb_dmx_drv K) dvb_inv dev \<Longrightarrow>
      \<exists>r dev'. body dev = Some (r, dev') \<and> drv_dev_ok (linux_dvb_dmx_drv K) dvb_inv dev'"
    and dvr: "\<And>dev. drv_dev_ok (dvr_dmx_drv K) dvr_inv dev \<Longrightarrow>
      \<exists>r dev'. body dev = Some (r, dev') \<and> drv_dev_ok (dvr_dmx_drv K) dvr_inv dev'"
    and frame: "\<And>dev r dev'. dmx_dev_inv dev \<Longrightarrow> body dev = Some (r, dev') \<Longrightarrow> open_count dev' = open_count dev"
  shows "body_ok K body"
  unfolding body_ok_def
proof (intro allI impI)
  fix dev assume o: "0 < open_count dev" and ok: "sys_dev_ok K dev"
  have inv: "dmx_dev_inv dev" using ok by (simp add: sys_dev_ok_def)
  from ok o show "\<exists>r dev'. body dev = Some (r, dev') \<and> sys_dev_ok K dev'"
  proof (cases rule: sys_dev_cases)
    case dvb
    from assms(1) [OF this] obtain r dev' where b: "body dev = Some (r, dev')"
      "drv_dev_ok (linux_dvb_dmx_drv K) dvb_inv dev'" by blast
    with frame [OF inv b(1)] o show ?thesis by (auto simp: sys_dev_ok_def drv_dev_ok_def)
  next
    case dvr
    from assms(2) [OF this] obtain r dev' where b: "body dev = Some (r, dev')"
      "drv_dev_ok (dvr_dmx_drv K) dvr_inv dev'" by blast
    with frame [OF inv b(1)] o show ?thesis by (auto simp: sys_dev_ok_def drv_dev_ok_def)
  qed
qed

lemma allocate_body: "body_ok K dmx_allocate_filter"
  by (rule body_okI, erule linux_dvb.allocate_ok, erule dvr.allocate_ok)
     (auto dest: allocate_filter_inv simp: same_frame_def)

lemma free_body: "body_ok K (dmx_free_handle h)"
  by (rule body_okI) (auto intro: linux_dvb.handle_ops_ok dvr.handle_ops_ok dest: free_handle_inv simp: same_frame_def)

lemma stop_body: "body_ok K (dmx_stop_handle h)"
  by (rule body_okI) (auto intro: linux_dvb.handle_ops_ok dvr.handle_ops_ok dest: stop_handle_inv simp: same_frame_def)

lemma buffer_body: "body_ok K (dmx_set_buffer_size h sz)"
  by (rule body_okI) (auto intro: linux_dvb.handle_ops_ok dvr.handle_ops_ok dest: set_buffer_size_inv simp: same_frame_def)

lemma callback_body: "body_ok K (dmx_set_callback h cb u)"
  by (rule body_okI) (auto intro: linux_dvb.handle_ops_ok dvr.handle_ops_ok dest: set_callback_inv simp: same_frame_def)

lemma source_body: "body_ok K (dmx_set_source s)"
  by (rule body_okI) (auto intro: linux_dvb.handle_ops_ok dvr.handle_ops_ok dest: set_source_inv simp: same_frame_def)

lemma set_sec_body: "body_ok K (\<lambda>dev. dmx_set_filter (drv_set_sec_filter (drv dev)) h p dev)"
  by (rule body_okI)
     (auto simp: same_frame_def linux_dvb.dev_okD(1) dvr.dev_okD(1) dest: set_filter_inv
        intro!: linux_dvb.set_filter_ok dvr.set_filter_ok linux_dvb.set_sec_law dvr.set_sec_law)

lemma set_pes_body: "body_ok K (\<lambda>dev. dmx_set_filter (drv_set_pes_filter (drv dev)) h p dev)"
  by (rule body_okI)
     (auto simp: same_frame_def linux_dvb.dev_okD(1) dvr.dev_okD(1) dest: set_filter_inv
        intro!: linux_dvb.set_filter_ok dvr.set_filter_ok linux_dvb.set_pes_law dvr.set_pes_law)

text \<open>Starting is defined for a used handle.\<close>

lemma sys_start_ok:
  assumes "sys_dev_ok K dev" "0 < open_count dev" "dmx_get_used_filter dev h = Inr i"
  shows "\<exists>r dev'. dmx_start_handle h dev = Some (r, dev') \<and> sys_dev_ok K dev'"
proof -
  have inv: "dmx_dev_inv dev" using assms(1) by (simp add: sys_dev_ok_def)
  from assms(1,2) obtain r dev' where s: "dmx_start_handle h dev = Some (r, dev')"
    "drv_dev_ok (linux_dvb_dmx_drv K) dvb_inv dev' \<or> drv_dev_ok (dvr_dmx_drv K) dvr_inv dev'"
    by (cases rule: sys_dev_cases) (use linux_dvb.start_ok [OF _ assms(3)] dvr.start_ok [OF _ assms(3)] in blast)+
  with start_handle_inv [OF inv s(1)] assms(2) show ?thesis by (auto simp: sys_dev_ok_def same_frame_def)
qed

lemma thread_dev_ok:
  assumes "sys_dev_ok K dev" "dmx_data_thread dev = Some (cs, dev')"
  shows "sys_dev_ok K dev'"
proof -
  have frame: "filters dev' = filters dev \<and> open_count dev' = open_count dev \<and> dmx_dev_inv dev'"
    using assms thread_inv [of dev cs dev']
    by (auto simp: sys_dev_ok_def dmx_data_thread_def Let_def split: if_splits option.splits prod.splits
        dest!: thread_filters_frame)
  show ?thesis
    using assms frame linux_dvb.thread_ok [OF _ assms(2)] dvr.thread_ok [OF _ assms(2)]
    by (auto simp: sys_dev_ok_def)
qed

lemma open_dev_ok:
  assumes "sys_dev_ok K dev"
  shows "\<exists>r dev'. dmx_open_dev (linux_dvb_dmx_drv K) (dvr_dmx_drv K) thr n para dev = Some (r, dev') \<and> sys_dev_ok K dev'"
proof (cases "open_count dev > 0")
  case True
  with assms show ?thesis by (auto simp: dmx_open_dev_def sys_dev_ok_def drv_dev_ok_def dmx_dev_inv_def)
next
  case False
  with assms have dev: "dmx_dev_inv dev" "open_count dev = 0" "\<And>i. i < 32 \<Longrightarrow> \<not> f_used (filters dev ! i)"
    by (auto simp: sys_dev_ok_def dmx_dev_inv_def split: if_splits)
  have tab: "tab_ok (filters dev)" using dev(1) by (simp add: dmx_dev_inv_def)
  define D where "D = (if use_sw_filter para then dvr_dmx_drv K else linux_dvb_dmx_drv K)"
  obtain g r d' where g: "drv_open D = Some g" "g n para (drv_data dev) = Some (r, d')"
    "r = 0 \<Longrightarrow> (D = linux_dvb_dmx_drv K \<and> dvb_inv d' (filters dev)) \<or> (D = dvr_dmx_drv K \<and> dvr_inv d' (filters dev))"
  proof (cases "use_sw_filter para")
    case True
    from dvr.open_law [OF tab dev(3), of K n para "drv_data dev"] True that show ?thesis unfolding D_def by auto
  next
    case False
    from linux_dvb.open_law [OF tab dev(3), of K n para "drv_data dev"] False that show ?thesis unfolding D_def by auto
  qed
  define dev1 where "dev1 = dev\<lparr>dev_no := n, drv := D, drv_data := d'\<rparr>"
  define dev' where "dev' = (if r \<noteq> 0 then dev1
    else (let dev3 = dev1\<lparr>enable_thread := True, run_cb := False\<rparr> in if thr then dev3\<lparr>open_count := 1\<rparr> else dev3))"
  have o: "\<exists>r'. dmx_open_dev (linux_dvb_dmx_drv K) (dvr_dmx_drv K) thr n para dev = Some (r', dev')"
    using False g(1,2) dev(2)
    by (simp add: dmx_open_dev_def Let_def drv_call_def D_def [symmetric] dev1_def dev'_def)
  have "filters dev' = filters dev" "open_count dev' = (if r = 0 \<and> thr then 1 else 0)" "drv dev' = D" "drv_data dev' = d'"
    using dev(2) by (simp_all add: dev'_def dev1_def Let_def)
  then have "sys_dev_ok K dev'"
    using dev tab g(3) by (auto simp: sys_dev_ok_def drv_dev_ok_def dmx_dev_inv_def)
  with o show ?thesis by blast
qed

lemma close_body:
  assumes "stop_reliable K"
  shows "body_ok K dmx_close_dev"
  unfolding body_ok_def
proof (intro allI impI)
  fix dev assume o: "0 < open_count dev" and ok: "sys_dev_ok K dev"
  have inv: "dmx_dev_inv dev" using ok by (simp add: sys_dev_ok_def)
  from assms have rel: "reliable_dmx_driver (linux_dvb_dmx_drv K) dvb_inv"
    by (intro linux_dvb_reliable) (simp add: stop_reliable_def)
  show "\<exists>r dev'. dmx_close_dev dev = Some (r, dev') \<and> sys_dev_ok K dev'"
  proof (cases "open_count dev = 1")
    case True
    from ok o have "\<exists>dev'. dmx_close_dev dev = Some (0, dev') \<and> open_count dev' = 0 \<and> (\<forall>j < 32. \<not> f_used (filters dev' ! j))"
      by (cases rule: sys_dev_cases)
         (use reliable_dmx_driver.close_frees_all [OF rel _ True] dvr.close_frees_all [OF _ True] in blast)+
    with close_dev_inv [OF inv o] show ?thesis by (auto simp: sys_dev_ok_def)
  next
    case False
    with o ok inv show ?thesis by (auto simp: dmx_close_dev_def sys_dev_ok_def drv_dev_ok_def dmx_dev_inv_def)
  qed
qed

lemma sys_open_ok:
  assumes "sys_ok K devs"
  shows "\<exists>r devs'. AM_DMX_Open (linux_dvb_dmx_drv K) (dvr_dmx_drv K) thr n para devs = Some (r, devs') \<and> sys_ok K devs'"
proof (cases "0 \<le> n \<and> n < 2")
  case True
  then have "nat n < 2" by linarith
  from open_dev_ok [OF sys_okD(2) [OF assms this], of thr n para] True assms show ?thesis
    by (auto simp: AM_DMX_Open_def dmx_get_dev_def intro: sys_ok_update)
qed (use assms in \<open>auto simp: AM_DMX_Open_def dmx_get_dev_def\<close>)

lemmas sys_ops = AM_DMX_Close_def AM_DMX_AllocateFilter_def AM_DMX_SetSecFilter_def AM_DMX_SetPesFilter_def
  AM_DMX_FreeFilter_def AM_DMX_StopFilter_def AM_DMX_SetBufferSize_def AM_DMX_SetCallback_def AM_DMX_SetSource_def

lemma with_openned_keeps:
  "sys_ok K devs \<Longrightarrow> body_ok K body \<Longrightarrow> with_openned fail n body devs = Some (r, devs') \<Longrightarrow> sys_ok K devs'"
  using with_openned_ok [of K devs body fail n] by auto

lemma start_keeps:
  assumes "sys_ok K devs" "AM_DMX_StartFilter n h devs = Some (r, devs')"
  shows "sys_ok K devs'"
proof (cases "dmx_get_openned_dev n devs")
  case (Inr i)
  then have i: "i < 2" "0 < open_count (devs ! i)" by (simp_all add: openned_iff)
  from Inr assms(2) obtain dev where d: "dmx_start_handle h (devs ! i) = Some (r, dev)" "devs' = devs[i := dev]"
    by (auto simp: AM_DMX_StartFilter_def with_openned_def split: option.splits prod.splits)
  then obtain j where "dmx_get_used_filter (devs ! i) h = Inr j"
    by (auto simp: dmx_start_handle_def split: sum.splits)
  from sys_start_ok [OF sys_okD(2) [OF assms(1) i(1)] i(2) this] d assms(1) show ?thesis
    by (auto intro: sys_ok_update)
qed (use assms in \<open>auto simp: AM_DMX_StartFilter_def with_openned_def\<close>)

lemma sys_step:
  assumes rel: "stop_reliable K"
  shows "dmx_step (linux_dvb_dmx_drv K) (dvr_dmx_drv K) devs devs' \<Longrightarrow> sys_ok K devs \<Longrightarrow> sys_ok K devs'"
proof (induction rule: dmx_step.induct)
  case (opn thr n para devs r devs')
  then show ?case using sys_open_ok [of K devs thr n para] by auto
next
  case (start n h devs r devs')
  then show ?case by (auto intro: start_keeps)
next
  case (thread i devs cs dev)
  then show ?case by (auto intro: sys_ok_update thread_dev_ok sys_okD(2))
qed (auto simp: sys_ops close_body [OF rel] allocate_body set_sec_body set_pes_body free_body stop_body
      buffer_body callback_body source_body elim!: with_openned_keeps [rotated 2])

lemma sys_init: "sys_ok K (dmx_init hw d)"
  using dmx_init_inv [of hw d] by (auto simp: sys_ok_def sys_dev_ok_def devs_inv_def dmx_init_def filter0_def)

lemma sys_reach:
  assumes "stop_reliable K" "dmx_reach (linux_dvb_dmx_drv K) (dvr_dmx_drv K) devs"
  shows "sys_ok K devs"
  using assms(2) by (induction rule: dmx_reach.induct) (auto intro: sys_init sys_step [OF assms(1)])

subsection \<open>Properties of the whole\<close>

text \<open>
  C1: with a kernel that never refuses \<^verbatim>\<open>DMX_STOP\<close>, in every state the demux layer and its two
  drivers reach, no interface call runs into undefined behaviour: whatever the arguments, opening,
  closing, allocating, setting, stopping and freeing return, and so does starting a handle that is
  allocated. (Starting any other handle is the null dereference of \<^verbatim>\<open>AM_DMX_StartFilter\<close>.)
\<close>

theorem demux_calls_defined:
  assumes "stop_reliable K" "dmx_reach (linux_dvb_dmx_drv K) (dvr_dmx_drv K) devs"
  shows "AM_DMX_Open (linux_dvb_dmx_drv K) (dvr_dmx_drv K) thr n para devs \<noteq> None \<and>
    AM_DMX_Close n devs \<noteq> None \<and> AM_DMX_AllocateFilter n devs \<noteq> None \<and>
    AM_DMX_SetSecFilter n h sp devs \<noteq> None \<and> AM_DMX_SetPesFilter n h pp devs \<noteq> None \<and>
    AM_DMX_FreeFilter n h devs \<noteq> None \<and> AM_DMX_StopFilter n h devs \<noteq> None \<and>
    AM_DMX_SetBufferSize n h sz devs \<noteq> None \<and> AM_DMX_SetCallback n h cb u devs \<noteq> None \<and>
    AM_DMX_SetSource n s devs \<noteq> None \<and>
    (\<forall>i < 2. \<forall>j < 32. 0 < open_count (devs ! i) \<and> f_used (filters (devs ! i) ! j) \<longrightarrow>
       AM_DMX_StartFilter (int i) (int j) devs \<noteq> None)"
proof -
  note ok = sys_reach [OF assms]
  have def: "with_openned fail n body devs \<noteq> None" if "body_ok K body"
    for fail and body :: "'a dmx_priv AM_DMX_Device \<Rightarrow> ('r \<times> 'a dmx_priv AM_DMX_Device) option"
    using with_openned_ok [OF ok that, of fail n] by auto
  have start: "AM_DMX_StartFilter (int i) (int j) devs \<noteq> None"
    if "i < 2" "j < 32" "0 < open_count (devs ! i) \<and> f_used (filters (devs ! i) ! j)" for i j
  proof -
    have "dmx_get_used_filter (devs ! i) (int j) = Inr j" using that(2,3) by (simp add: used_filter_iff)
    with sys_start_ok [OF sys_okD(2) [OF ok that(1)], of "int j" j] that show ?thesis
      by (auto simp: AM_DMX_StartFilter_def with_openned_body)
  qed
  have opn: "AM_DMX_Open (linux_dvb_dmx_drv K) (dvr_dmx_drv K) thr n para devs \<noteq> None"
    using sys_open_ok [OF ok, of thr n para] by auto
  show ?thesis
    unfolding sys_ops
    by (intro conjI allI impI opn def close_body [OF assms(1)] allocate_body set_sec_body set_pes_body free_body stop_body
          buffer_body callback_body source_body start) simp_all
qed

definition idle_priv :: "nat dmx_priv" where
  "idle_priv = \<lparr>priv = DrvNull, kern = 3\<rparr>"

lemma quiet_reliable: "stop_reliable (quiet_kernel bs)"
  by (simp add: stop_reliable_def quiet_kernel_def)

theorem demux_calls_defined_witness:
  "AM_DMX_Close 0 (dmx_init (linux_dvb_dmx_drv (quiet_kernel [])) idle_priv) \<noteq> None \<and>
   AM_DMX_StopFilter 1 5 (dmx_init (linux_dvb_dmx_drv (quiet_kernel [])) idle_priv) \<noteq> None"
proof -
  note calls = demux_calls_defined [OF quiet_reliable [of "[]"] dmx_reach.init [of _ _ idle_priv]]
  show ?thesis
    using calls [where n = 0 and h = 0] calls [where n = 1 and h = 5] by blast
qed

text \<open>
  C15: with such a kernel, the last close of a device in a reachable state succeeds and leaves no
  filter in use, whichever driver the device has.
\<close>

theorem last_close_frees_filters:
  assumes "stop_reliable K" "dmx_reach (linux_dvb_dmx_drv K) (dvr_dmx_drv K) devs" "i < 2" "open_count (devs ! i) = 1"
  shows "\<exists>devs'. AM_DMX_Close (int i) devs = Some (AM_SUCCESS, devs') \<and> open_count (devs' ! i) = 0 \<and>
    (\<forall>j < 32. \<not> f_used (filters (devs' ! i) ! j))"
proof -
  note ok = sys_reach [OF assms(1,2)]
  have o: "0 < open_count (devs ! i)" using assms(4) by simp
  have rel: "reliable_dmx_driver (linux_dvb_dmx_drv K) dvb_inv"
    using assms(1) by (intro linux_dvb_reliable) (simp add: stop_reliable_def)
  from sys_okD(2) [OF ok assms(3)] o obtain dev where
    "dmx_close_dev (devs ! i) = Some (0, dev)" "open_count dev = 0" "\<forall>j < 32. \<not> f_used (filters dev ! j)"
    by (cases rule: sys_dev_cases)
       (use reliable_dmx_driver.close_frees_all [OF rel _ assms(4)] dvr.close_frees_all [OF _ assms(4)] in blast)+
  with assms(3) o sys_okD(1) [OF ok] show ?thesis by (simp add: AM_DMX_Close_def with_openned_body)
qed

definition opened_once :: "nat dmx_priv dmx_devices" where
  "opened_once = (dmx_init (linux_dvb_dmx_drv (quiet_kernel [])) idle_priv)[0 :=
     (dmx_init (linux_dvb_dmx_drv (quiet_kernel [])) idle_priv ! 0)\<lparr>drv_data := \<lparr>priv = DrvDvb (replicate 32 None), kern = 3\<rparr>,
       enable_thread := True, open_count := 1\<rparr>]"

lemma opened_once_reach: "dmx_reach (linux_dvb_dmx_drv (quiet_kernel [])) (dvr_dmx_drv (quiet_kernel [])) opened_once"
proof (rule dmx_reach.step [OF dmx_reach.init dmx_step.opn])
  show "AM_DMX_Open (linux_dvb_dmx_drv (quiet_kernel [])) (dvr_dmx_drv (quiet_kernel [])) True 0
      \<lparr>use_sw_filter = False, dvr_fifo_no = 0, dvr_buf_size = 0\<rparr>
      (dmx_init (linux_dvb_dmx_drv (quiet_kernel [])) idle_priv) = Some (0, opened_once)"
    by (simp add: AM_DMX_Open_def dmx_get_dev_def dmx_open_dev_def dmx_init_def opened_once_def drv_call_def
        linux_dvb_dmx_drv_def dvb_open_def quiet_kernel_def idle_priv_def numeral_2_eq_2 Let_def)
qed

theorem last_close_frees_filters_witness:
  "\<exists>devs'. AM_DMX_Close 0 opened_once = Some (0, devs') \<and> open_count (devs' ! 0) = 0 \<and>
     (\<forall>j < 32. \<not> f_used (filters (devs' ! 0) ! j))"
proof -
  have "open_count (opened_once ! 0) = 1" by (simp add: opened_once_def dmx_init_def numeral_2_eq_2)
  from last_close_frees_filters [OF quiet_reliable opened_once_reach _ this] show ?thesis by simp
qed

text \<open>
  C14: in every state reached with such a kernel, on an open device of the software demux, each
  channel's reference count is the number of enabled filters on it, two channels in use never have
  the same PID, and every enabled filter is on a channel of its own PID and kind.
\<close>

theorem channel_reference_counts:
  assumes "stop_reliable K" "dmx_reach (linux_dvb_dmx_drv K) (dvr_dmx_drv K) devs" "i < 2" "0 < open_count (devs ! i)"
    and "priv (drv_data (devs ! i)) = DrvDvr dmx"
  shows "dvr_chans (filters (devs ! i)) (dvr_filters dmx) (dvr_channels dmx)"
proof -
  from sys_okD(2) [OF sys_reach [OF assms(1,2)] assms(3)] assms(4) have "dvr_inv (drv_data (devs ! i)) (filters (devs ! i))"
    by (cases rule: sys_dev_cases) (use assms(5) in \<open>auto simp: drv_dev_ok_def dvb_inv_def\<close>)
  with assms(5) show ?thesis by (auto simp: dvr_inv_def)
qed

definition opened_sw :: "nat dmx_priv dmx_devices" where
  "opened_sw = (dmx_init (linux_dvb_dmx_drv (quiet_kernel [])) idle_priv)[0 :=
     (dmx_init (linux_dvb_dmx_drv (quiet_kernel [])) idle_priv ! 0)\<lparr>drv := dvr_dmx_drv (quiet_kernel []),
       drv_data := \<lparr>priv = DrvDvr (demux0 3), kern = 4\<rparr>, enable_thread := True, open_count := 1\<rparr>]"

lemma opened_sw_reach: "dmx_reach (linux_dvb_dmx_drv (quiet_kernel [])) (dvr_dmx_drv (quiet_kernel [])) opened_sw"
proof (rule dmx_reach.step [OF dmx_reach.init dmx_step.opn])
  show "AM_DMX_Open (linux_dvb_dmx_drv (quiet_kernel [])) (dvr_dmx_drv (quiet_kernel [])) True 0
      \<lparr>use_sw_filter = True, dvr_fifo_no = -1, dvr_buf_size = 0\<rparr>
      (dmx_init (linux_dvb_dmx_drv (quiet_kernel [])) idle_priv) = Some (0, opened_sw)"
    by (simp add: AM_DMX_Open_def dmx_get_dev_def dmx_open_dev_def dmx_init_def opened_sw_def drv_call_def
        dvr_dmx_drv_def dvr_open_def quiet_kernel_def idle_priv_def numeral_2_eq_2 Let_def)
qed

theorem channel_reference_counts_witness:
  "dvr_chans (filters (opened_sw ! 0)) (dvr_filters (demux0 3)) (dvr_channels (demux0 3))"
  by (rule channel_reference_counts [OF quiet_reliable opened_sw_reach])
     (simp_all add: opened_sw_def dmx_init_def numeral_2_eq_2)

subsection \<open>What goes wrong\<close>

lemma free_other:
  assumes "dmx_free_filter i dev = Some (r, dev')" "i \<noteq> j"
  shows "filters dev' ! j = filters dev ! j \<and> drv dev' = drv dev"
  using assms
  by (auto simp: dmx_free_filter_def dmx_stop_filter_def drv_call_def nth_update_if upd_filter_def
      split: if_splits option.splits prod.splits)

lemma free_refused:
  assumes "\<And>fd k. \<not> fst (k_ioctl K fd DMX_STOP k)" "drv dev = linux_dvb_dmx_drv K" "f_enable (filters dev ! j)"
    and "dmx_free_filter j dev = Some (r, dev')"
  shows "f_used (filters dev' ! j) = f_used (filters dev ! j) \<and> drv dev' = drv dev"
  using assms(2-) assms(1) [of "f_drv_data (filters dev ! j)" "kern (drv_data dev)"]
  by (cases "k_ioctl K (f_drv_data (filters dev ! j)) DMX_STOP (kern (drv_data dev))")
     (auto simp: dmx_free_filter_def dmx_stop_filter_def drv_call_def linux_dvb_dmx_drv_def dvb_enable_filter_def
        dvb_ioctl_def nth_update_if split: if_splits)

lemma free_filters_refused:
  assumes stop: "\<And>fd k. \<not> fst (k_ioctl K fd DMX_STOP k)" and j: "f_used (filters dev ! j)"
  shows "drv dev = linux_dvb_dmx_drv K \<Longrightarrow> (j \<in> set is \<Longrightarrow> f_enable (filters dev ! j)) \<Longrightarrow> distinct is \<Longrightarrow>
    dmx_free_filters is dev = Some dev' \<Longrightarrow> f_used (filters dev' ! j)"
  using j
proof (induction "is" arbitrary: dev)
  case (Cons i "is")
  from Cons.prems(4) obtain r dev1 where f: "dmx_free_filter i dev = Some (r, dev1)" "dmx_free_filters is dev1 = Some dev'"
    by (auto split: option.splits)
  show ?case
  proof (cases "i = j")
    case True
    with free_refused [OF stop Cons.prems(1) _ f(1) [unfolded True]] Cons.prems
    have "f_used (filters dev1 ! j)" "drv dev1 = linux_dvb_dmx_drv K" by auto
    with Cons.IH [of dev1] Cons.prems(3) f(2) True show ?thesis by auto
  next
    case False
    with free_other [OF f(1)] Cons.prems have "filters dev1 ! j = filters dev ! j" "drv dev1 = linux_dvb_dmx_drv K" by auto
    with Cons.IH [of dev1] Cons.prems f(2) False show ?thesis by auto
  qed
qed simp

text \<open>
  when the kernel refuses \<^verbatim>\<open>DMX_STOP\<close>, the last close of a device of the kernel driver
  still reports success and closes the device, but every filter that was running stays allocated,
  with its descriptor open; the device is closed and the slot is lost.
\<close>

theorem failed_stop_leaks_filter:
  assumes "\<forall>fd k. \<not> fst (k_ioctl K fd DMX_STOP k)"
    and "drv_dev_ok (linux_dvb_dmx_drv K) dvb_inv dev" "open_count dev = 1" "j < 32" "f_enable (filters dev ! j)"
  shows "\<exists>dev'. dmx_close_dev dev = Some (AM_SUCCESS, dev') \<and> open_count dev' = 0 \<and> f_used (filters dev' ! j)"
proof -
  note dev = linux_dvb.dev_okD [OF assms(2)]
  from linux_dvb.close_ok [OF assms(2)] obtain dev' where c: "dmx_close_dev dev = Some (0, dev')" by blast
  from close_dev_inv [OF dev(2) _ c] assms(3) have "open_count dev' = 0" by simp
  moreover have "f_used (filters dev' ! j)"
  proof -
    from c assms(3) obtain dev1 r dev2 where
      f: "dmx_free_filters [0 ..< 32] (dev\<lparr>enable_thread := False\<rparr>) = Some dev1"
      "drv_call (drv_close (drv dev1)) (\<lambda>g. g (dev_no dev1)) dev1 = Some (r, dev2)"
      "dev' = dev2\<lparr>open_count := open_count dev2 - 1\<rparr>"
      by (auto simp: dmx_close_dev_def split: option.splits)
    have u: "f_used (filters (dev\<lparr>enable_thread := False\<rparr>) ! j)"
      using dmx_inv_filter [OF dev(2) assms(4)] assms(5) by (simp add: filter_ok_def)
    have "f_used (filters dev1 ! j)"
      by (rule free_filters_refused [OF _ u _ _ _ f(1), of K]) (use assms dev(1) in auto)
    with f(2,3) show ?thesis by (auto elim!: drv_call_cases)
  qed
  ultimately show ?thesis using c by blast
qed

definition refusing_kernel :: "nat kernel" where
  "refusing_kernel = (quiet_kernel [])\<lparr>k_ioctl := \<lambda>_ c k. (c \<noteq> DMX_STOP, k)\<rparr>"

definition one_recording :: "nat dmx_priv AM_DMX_Device" where
  "one_recording = \<lparr>dev_no = 0, drv = linux_dvb_dmx_drv refusing_kernel,
     drv_data = \<lparr>priv = DrvDvb (Some 5 # replicate 31 None), kern = 6\<rparr>,
     filters = filter0\<lparr>f_used := True, f_enable := True, f_drv_data := 5\<rparr> # replicate 31 filter0,
     open_count = 1, enable_thread = True, run_cb = False, src = AM_DMX_SRC_TS0\<rparr>"

theorem failed_stop_leaks_filter_witness:
  "\<exists>dev'. dmx_close_dev one_recording = Some (0, dev') \<and> open_count dev' = 0 \<and> f_used (filters dev' ! 0)"
proof -
  have "drv_dev_ok (linux_dvb_dmx_drv refusing_kernel) dvb_inv one_recording"
    by (auto simp: drv_dev_ok_def one_recording_def dmx_dev_inv_def tab_ok_def filter_ok_def filter0_def dvb_inv_def nth_Cons')
  with failed_stop_leaks_filter [of refusing_kernel one_recording 0] show ?thesis
    by (simp add: refusing_kernel_def one_recording_def)
qed

text \<open>
  a PES filter of the software demux cannot work. \<^verbatim>\<open>ch->filters\<close> is null in every channel
  (the shape of the driver's structure, which all operations keep), so the first packet with a
  payload on the PID of such a channel dereferences a null pointer.
\<close>

theorem software_pes_dereferences_null:
  assumes "dvr_shape dmx" "c = first_idx (\<lambda>ch. ch_used ch \<noteq> 0 \<and> ch_pid ch = ts_pid p) (dvr_channels dmx)" "c < 32"
    and "\<not> ch_is_sec (dvr_channels dmx ! c)" "ts_payload p \<noteq> []"
    and "ts_pid p \<noteq> 0x1FFF \<and> and (p ! 3) 0xC0 = 0 \<and> and (p ! 1) 0x80 = 0 \<and> and (p ! 3) 0x10 \<noteq> 0"
  shows "ts_packet n fs p dmx = None"
proof -
  have "ch_filters (dvr_channels dmx ! c) = None"
    using assms(1,3) dvr_shapeD(1) [OF assms(1)] by (simp add: dvr_shape_def chan_shape_def)
  with assms dvr_shapeD(1) [OF assms(1)] show ?thesis
    by (simp add: ts_packet_def Let_def assms(2) [symmetric] parse_pes_def)
qed

definition pes_demux :: DVR_Demux where
  "pes_demux = (demux0 3)\<lparr>dvr_channels := chan0\<lparr>ch_used := 1, ch_pid := 0x100\<rparr> # replicate 31 chan0\<rparr>"

theorem software_pes_dereferences_null_witness:
  "ts_packet 0 [] ([0x47, 0x41, 0x00, 0x10] @ replicate 184 0) pes_demux = None"
  by (rule software_pes_dereferences_null [where c = 0])
     (simp_all add: pes_demux_def demux0_def dvr_shape_def chan_shape_def chan0_def chan_ok_def ts_pid_def ts_payload_def)

text \<open>
  disabling a filter of the software demux does not take it off its channel's dispatch. After
  \<^verbatim>\<open>dvr_enable_filter(dev, filter, AM_FALSE)\<close> on an enabled filter, a section on its channel that
  its mask accepts, and that no driver filter of lower index accepts, still goes to its callback.
\<close>

theorem disabled_filter_still_called:
  assumes "dvr_inv d fs" "tab_ok fs" "i < 32" "f_enable (fs ! i)" "f_cb (fs ! i) = Some cb"
    and "priv d = DrvDvr dmx" "df_chan (dvr_filters dmx ! f_drv_data (fs ! i)) = Some c"
    and "sec_match (dvr_filters dmx ! f_drv_data (fs ! i)) buf"
    and "\<forall>j < f_drv_data (fs ! i). \<not> sec_match (dvr_filters dmx ! j) buf"
  shows "\<exists>d' dmx'. dvr_enable_filter K n (fs ! i) False d = Some (AM_SUCCESS, d') \<and> priv d' = DrvDvr dmx' \<and>
    sec_dispatch n (fs[i := (fs ! i)\<lparr>f_enable := False\<rparr>]) (dvr_filters dmx') c buf len
      = [(cb, n, i, Some (take len buf), min (length buf) len, f_user_data (fs ! i))]"
proof -
  from dvr_disable_ok [OF assms(1-4), of K n] obtain d' where
    d': "dvr_enable_filter K n (fs ! i) False d = Some (0, d')" by blast
  have shape: "dvr_shape dmx" and link: "dvr_link fs (dvr_filters dmx)" using assms(1,6) by (auto simp: dvr_inv_def)
  define chs where "chs = (dvr_channels dmx)[c := (dvr_channels dmx ! c)\<lparr>ch_used := ch_used (dvr_channels dmx ! c) - 1\<rparr>]"
  obtain dmx2 k2 where r: "dvr_reset K n (dmx\<lparr>dvr_channels := chs\<rparr>, kern d) = (dmx2, k2)" by force
  have "dvr_filters dmx2 = dvr_filters dmx" using r by (auto simp: dvr_reset_def split: prod.splits)
  then obtain dmx' where dmx': "priv d' = DrvDvr dmx'" "dvr_filters dmx' = dvr_filters dmx"
    using d' assms(4,6,7) r by (auto simp: dvr_enable_filter_def Let_def chs_def split: if_splits)
  have iu: "f_used (fs ! i)" "f_id (fs ! i) = i" "length fs = 32"
    using tab_okD [OF assms(2)] assms(3,4) by (auto simp: filter_ok_def)
  then have fi: "f_drv_data (fs ! i) < 32" "df_used (dvr_filters dmx ! f_drv_data (fs ! i))"
    "df_dmx_filter (dvr_filters dmx ! f_drv_data (fs ! i)) = i" using link assms(3) by (auto simp: dvr_link_def)
  have "first_idx (\<lambda>f. df_used f \<and> df_chan f = Some c \<and> sec_match f buf) (dvr_filters dmx) = f_drv_data (fs ! i)"
    using fi assms(7-9) dvr_shapeD(2) [OF shape] by (intro first_idx_eqI) auto
  with d' dmx' fi iu assms(3,5) dvr_shapeD(2) [OF shape] show ?thesis
    by (auto simp: sec_dispatch_def data_cb_def Let_def)
qed

definition sec_filters :: "AM_DMX_Filter list" where
  "sec_filters = filter0\<lparr>f_used := True, f_enable := True, f_cb := Some 9\<rparr> # replicate 31 filter0"

definition sec_demux :: DVR_Demux where
  "sec_demux = (demux0 3)\<lparr>dvr_channels := chan0\<lparr>ch_used := 1, ch_is_sec := True\<rparr> # replicate 31 chan0,
     dvr_filters := dfilter0\<lparr>df_used := True, df_sec_filter := True, df_chan := Some 0\<rparr> # replicate 31 dfilter0\<rparr>"

lemma sec_demux_inv: "dvr_inv \<lparr>priv = DrvDvr sec_demux, kern = (4::nat)\<rparr> sec_filters"
proof -
  have fs: "f_used (sec_filters ! i) = (i = 0)" "f_enable (sec_filters ! i) = (i = 0)" "f_drv_data (sec_filters ! i) = 0"
    if "i < 32" for i using that by (auto simp: sec_filters_def filter0_def nth_Cons')
  have dfs: "df_used (dvr_filters sec_demux ! j) = (j = 0)" "df_dmx_filter (dvr_filters sec_demux ! j) = 0"
    "df_chan (dvr_filters sec_demux ! j) = (if j = 0 then Some 0 else None)"
    "df_pid (dvr_filters sec_demux ! j) = 0" "df_sec_filter (dvr_filters sec_demux ! j) = (j = 0)"
    if "j < 32" for j using that by (auto simp: sec_demux_def dfilter0_def nth_Cons')
  have chs: "ch_used (dvr_channels sec_demux ! c) = (if c = 0 then 1 else 0)" "ch_pid (dvr_channels sec_demux ! c) = 0"
    "ch_is_sec (dvr_channels sec_demux ! c) = (c = 0)" if "c < 32" for c
    using that by (auto simp: sec_demux_def chan0_def nth_Cons')
  have users: "chan_users sec_filters (dvr_filters sec_demux) c = (if c = 0 then {0} else {})" for c
    using fs dfs [of 0] by (auto simp: chan_users_def)
  show ?thesis
  proof (rule dvr_invI)
    show "dvr_shape sec_demux"
      by (auto simp: sec_demux_def dvr_shape_def demux0_def chan_shape_def chan0_def chan_ok_def)
    show "dvr_link sec_filters (dvr_filters sec_demux)" using fs dfs by (simp add: dvr_link_def)
    show "dvr_chans sec_filters (dvr_filters sec_demux) (dvr_channels sec_demux)"
      using fs dfs chs users by (simp add: dvr_chans_def)
  qed simp
qed

theorem disabled_filter_still_called_witness:
  "\<exists>d' dmx'. dvr_enable_filter (quiet_kernel []) 0 (sec_filters ! 0) False \<lparr>priv = DrvDvr sec_demux, kern = 4\<rparr> = Some (0, d') \<and>
     priv d' = DrvDvr dmx' \<and>
     sec_dispatch 0 (sec_filters[0 := (sec_filters ! 0)\<lparr>f_enable := False\<rparr>]) (dvr_filters dmx') 0 (replicate 20 1) 20
       = [(9, 0, 0, Some (replicate 20 1), 20, 0)]"
proof -
  have "tab_ok sec_filters" by (auto simp: tab_ok_def filter_ok_def sec_filters_def filter0_def nth_Cons')
  moreover have "sec_match (dvr_filters sec_demux ! 0) (replicate 20 1)"
    by (simp add: sec_match_def sec_demux_def dfilter0_def numeral_eq_Suc)
  ultimately show ?thesis
    using disabled_filter_still_called [OF sec_demux_inv, of 0 9 sec_demux 0 "replicate 20 1" "quiet_kernel []" 0 20]
    by (simp add: sec_filters_def filter0_def sec_demux_def dfilter0_def)
qed

end
