(* ===== verification/Am_Dvr.thy ===== *)
theory Am_Dvr
  imports Dmx_System
begin

text \<open>
  The recorder, \<^verbatim>\<open>dvb/am_adp/am_dvr/am_dvr.c\<close>, and its kernel driver
  \<^verbatim>\<open>dvb/am_adp/am_dvr/linux_dvb/linux_dvb.c\<close>. The recorder is a client of the demux layer: each
  recorded stream is a PES filter of the demux device with the same number. The five calls it makes
  are a record of functions on the state \<open>'m\<close> of the demux layer, \<open>adp_dmx_api\<close> is the demux layer
  of this development, and the locale \<open>demux_filters\<close> says what the recorder relies on.
\<close>

definition AM_DVR_ERR_INVALID_ARG :: errcode where "AM_DVR_ERR_INVALID_ARG = AM_ERROR_BASE AM_MOD_DVR + 1"
definition AM_DVR_ERR_INVALID_DEV_NO :: errcode where "AM_DVR_ERR_INVALID_DEV_NO = AM_ERROR_BASE AM_MOD_DVR + 2"
definition AM_DVR_ERR_BUSY :: errcode where "AM_DVR_ERR_BUSY = AM_ERROR_BASE AM_MOD_DVR + 3"
definition AM_DVR_ERR_CANNOT_OPEN_DEV :: errcode where "AM_DVR_ERR_CANNOT_OPEN_DEV = AM_ERROR_BASE AM_MOD_DVR + 6"
definition AM_DVR_ERR_NOT_SUPPORTED :: errcode where "AM_DVR_ERR_NOT_SUPPORTED = AM_ERROR_BASE AM_MOD_DVR + 7"
definition AM_DVR_ERR_TIMEOUT :: errcode where "AM_DVR_ERR_TIMEOUT = AM_ERROR_BASE AM_MOD_DVR + 9"
definition AM_DVR_ERR_SYS :: errcode where "AM_DVR_ERR_SYS = AM_ERROR_BASE AM_MOD_DVR + 10"
definition AM_DVR_ERR_TOO_MANY_STREAMS :: errcode where "AM_DVR_ERR_TOO_MANY_STREAMS = AM_ERROR_BASE AM_MOD_DVR + 13"

lemmas dvr_codes [err_code, simp] = AM_DVR_ERR_INVALID_ARG_def AM_DVR_ERR_INVALID_DEV_NO_def AM_DVR_ERR_BUSY_def
  AM_DVR_ERR_CANNOT_OPEN_DEV_def AM_DVR_ERR_NOT_SUPPORTED_def AM_DVR_ERR_TIMEOUT_def AM_DVR_ERR_SYS_def
  AM_DVR_ERR_TOO_MANY_STREAMS_def

abbreviation (input) DVR_DEV_COUNT :: nat where "DVR_DEV_COUNT \<equiv> 2"
abbreviation (input) AM_DVR_MAX_PID_COUNT :: nat where "AM_DVR_MAX_PID_COUNT \<equiv> 32"

datatype AM_DVR_Source = AM_DVR_SRC_ASYNC_FIFO0 | AM_DVR_SRC_ASYNC_FIFO1

record AM_DVR_Stream =
  st_fid :: int
  st_pid :: "16 word"

record AM_DVR_StartRecPara =
  pid_count :: int
  pids :: "int list"

text \<open>\<^verbatim>\<open>poll\<close> is called without a null check.\<close>

record 'e AM_DVR_Driver =
  vd_open :: "(int \<Rightarrow> 'e \<Rightarrow> errcode \<times> 'e) option"
  vd_close :: "(int \<Rightarrow> 'e \<Rightarrow> errcode \<times> 'e) option"
  vd_set_buf_size :: "(int \<Rightarrow> int \<Rightarrow> 'e \<Rightarrow> errcode \<times> 'e) option"
  vd_poll :: "int \<Rightarrow> int \<Rightarrow> 'e \<Rightarrow> errcode \<times> 'e"
  vd_read :: "(int \<Rightarrow> int \<Rightarrow> 'e \<Rightarrow> (errcode \<times> byte list) \<times> 'e) option"
  vd_set_source :: "(int \<Rightarrow> AM_DVR_Source \<Rightarrow> 'e \<Rightarrow> errcode \<times> 'e) option"

record 'e AM_DVR_Device =
  v_dev_no :: int
  v_dmx_no :: int
  v_drv :: "'e AM_DVR_Driver"
  v_drv_data :: 'e
  open_cnt :: int
  stream_cnt :: nat
  streams :: "AM_DVR_Stream list"
  recording :: bool
  start_para :: "AM_DVR_StartRecPara option"
  v_src :: AM_DVR_Source

type_synonym 'e dvr_devices = "'e AM_DVR_Device list"

text \<open>The calls into the demux layer.\<close>

record 'm dmx_api =
  api_alloc :: "int \<Rightarrow> 'm \<Rightarrow> ((errcode \<times> nat option) \<times> 'm) option"
  api_set_pes :: "int \<Rightarrow> int \<Rightarrow> dmx_pes_filter_params \<Rightarrow> 'm \<Rightarrow> (errcode \<times> 'm) option"
  api_start :: "int \<Rightarrow> int \<Rightarrow> 'm \<Rightarrow> (errcode \<times> 'm) option"
  api_stop :: "int \<Rightarrow> int \<Rightarrow> 'm \<Rightarrow> (errcode \<times> 'm) option"
  api_free :: "int \<Rightarrow> int \<Rightarrow> 'm \<Rightarrow> (errcode \<times> 'm) option"

definition adp_dmx_api :: "'d dmx_devices dmx_api" where
  "adp_dmx_api = \<lparr>api_alloc = AM_DMX_AllocateFilter, api_set_pes = AM_DMX_SetPesFilter, api_start = AM_DMX_StartFilter,
     api_stop = AM_DMX_StopFilter, api_free = AM_DMX_FreeFilter\<rparr>"

subsection \<open>Devices and streams\<close>

definition dvr_get_dev :: "int \<Rightarrow> errcode + nat" where
  "dvr_get_dev n = (if n < 0 \<or> n \<ge> int DVR_DEV_COUNT then Inl AM_DVR_ERR_INVALID_DEV_NO else Inr (nat n))"

definition dvr_get_openned_dev :: "int \<Rightarrow> 'e dvr_devices \<Rightarrow> errcode + nat" where
  "dvr_get_openned_dev n devs =
     (case dvr_get_dev n of
        Inl e \<Rightarrow> Inl e
      | Inr i \<Rightarrow> if open_cnt (devs ! i) = 0 then Inl AM_DVR_ERR_INVALID_DEV_NO else Inr i)"

definition dvr_add_stream :: "16 word \<Rightarrow> 'e AM_DVR_Device \<Rightarrow> errcode \<times> 'e AM_DVR_Device" where
  "dvr_add_stream p dev =
     (if stream_cnt dev \<ge> AM_DVR_MAX_PID_COUNT then (AM_DVR_ERR_TOO_MANY_STREAMS, dev)
      else (AM_SUCCESS, dev\<lparr>streams := (streams dev)[stream_cnt dev := \<lparr>st_fid = -1, st_pid = p\<rparr>],
                            stream_cnt := stream_cnt dev + 1\<rparr>))"

text \<open>The body of the loop of \<^verbatim>\<open>dvr_start_all_streams\<close>; the results of the last two calls are ignored.\<close>

definition dvr_start_stream :: "'m dmx_api \<Rightarrow> int \<Rightarrow> AM_DVR_Stream \<Rightarrow> 'm \<Rightarrow> (AM_DVR_Stream \<times> 'm) option" where
  "dvr_start_stream api n s m =
     (if st_fid s \<noteq> -1 then Some (s, m)
      else case api_alloc api n m of
             None \<Rightarrow> None
           | Some ((r, h), m1) \<Rightarrow>
               if r \<noteq> AM_SUCCESS then Some (s\<lparr>st_fid := -1\<rparr>, m1)
               else (let fid = (case h of None \<Rightarrow> st_fid s | Some x \<Rightarrow> int x)
                     in case api_set_pes api n fid \<lparr>pes_pid = uint (st_pid s), pes_input = DMX_IN_FRONTEND,
                               pes_output = DMX_OUT_TS_TAP, pes_type = DMX_PES_OTHER\<rparr> m1 of
                          None \<Rightarrow> None
                        | Some (_, m2) \<Rightarrow>
                            (case api_start api n fid m2 of
                               None \<Rightarrow> None
                             | Some (_, m3) \<Rightarrow> Some (s\<lparr>st_fid := fid\<rparr>, m3))))"

definition dvr_stop_stream :: "'m dmx_api \<Rightarrow> int \<Rightarrow> AM_DVR_Stream \<Rightarrow> 'm \<Rightarrow> (AM_DVR_Stream \<times> 'm) option" where
  "dvr_stop_stream api n s m =
     (if st_fid s = -1 then Some (s, m)
      else case api_stop api n (st_fid s) m of
             None \<Rightarrow> None
           | Some (_, m1) \<Rightarrow>
               (case api_free api n (st_fid s) m1 of
                  None \<Rightarrow> None
                | Some (_, m2) \<Rightarrow> Some (s\<lparr>st_fid := -1\<rparr>, m2)))"

fun dvr_each :: "(AM_DVR_Stream \<Rightarrow> 'm \<Rightarrow> (AM_DVR_Stream \<times> 'm) option) \<Rightarrow> AM_DVR_Stream list \<Rightarrow> 'm
    \<Rightarrow> (AM_DVR_Stream list \<times> 'm) option" where
  "dvr_each f [] m = Some ([], m)"
| "dvr_each f (s # ss) m =
     (case f s m of
        None \<Rightarrow> None
      | Some (s', m1) \<Rightarrow>
          (case dvr_each f ss m1 of
             None \<Rightarrow> None
           | Some (ss', m2) \<Rightarrow> Some (s' # ss', m2)))"

definition dvr_start_all_streams :: "'m dmx_api \<Rightarrow> 'e AM_DVR_Device \<Rightarrow> 'm \<Rightarrow> ('e AM_DVR_Device \<times> 'm) option" where
  "dvr_start_all_streams api dev m =
     map_option (\<lambda>(ss, m'). (dev\<lparr>streams := ss @ drop (stream_cnt dev) (streams dev)\<rparr>, m'))
       (dvr_each (dvr_start_stream api (v_dmx_no dev)) (take (stream_cnt dev) (streams dev)) m)"

definition dvr_stop_all_streams :: "'m dmx_api \<Rightarrow> 'e AM_DVR_Device \<Rightarrow> 'm \<Rightarrow> ('e AM_DVR_Device \<times> 'm) option" where
  "dvr_stop_all_streams api dev m =
     map_option (\<lambda>(ss, m'). (dev\<lparr>streams := ss @ drop (stream_cnt dev) (streams dev), stream_cnt := 0\<rparr>, m'))
       (dvr_each (dvr_stop_stream api (v_dmx_no dev)) (take (stream_cnt dev) (streams dev)) m)"

subsection \<open>The interface\<close>

text \<open>\<^verbatim>\<open>if(dev->drv->f) ret = dev->drv->f(dev, ...)\<close>, with \<^verbatim>\<open>ret\<close> 0 before.\<close>

definition vd_call :: "('e \<Rightarrow> errcode \<times> 'e) option \<Rightarrow> 'e AM_DVR_Device \<Rightarrow> errcode \<times> 'e AM_DVR_Device" where
  "vd_call f dev =
     (case f of
        None \<Rightarrow> (AM_SUCCESS, dev)
      | Some g \<Rightarrow> (case g (v_drv_data dev) of (r, e) \<Rightarrow> (r, dev\<lparr>v_drv_data := e\<rparr>)))"

definition dvr_open_dev :: "int \<Rightarrow> 'e AM_DVR_Device \<Rightarrow> errcode \<times> 'e AM_DVR_Device" where
  "dvr_open_dev n dev =
     (if open_cnt dev \<noteq> 0 then (AM_SUCCESS, dev\<lparr>open_cnt := open_cnt dev + 1\<rparr>)
      else (let dev1 = dev\<lparr>v_dev_no := n, v_dmx_no := n, streams := map (\<lambda>s. s\<lparr>st_fid := -1\<rparr>) (streams dev)\<rparr>
            in case vd_call (map_option (\<lambda>g. g n) (vd_open (v_drv dev1))) dev1 of
                 (ret, dev2) \<Rightarrow>
                   if ret = AM_SUCCESS
                   then (ret, dev2\<lparr>open_cnt := open_cnt dev2 + 1, recording := False, stream_cnt := 0\<rparr>)
                   else (ret, dev2)))"

definition AM_DVR_Open :: "int \<Rightarrow> 'e dvr_devices \<Rightarrow> errcode \<times> 'e dvr_devices" where
  "AM_DVR_Open n devs =
     (case dvr_get_dev n of
        Inl e \<Rightarrow> (e, devs)
      | Inr i \<Rightarrow> (case dvr_open_dev n (devs ! i) of (r, dev) \<Rightarrow> (r, devs[i := dev])))"

definition dvr_close_dev :: "'m dmx_api \<Rightarrow> 'e AM_DVR_Device \<Rightarrow> 'm \<Rightarrow> ('e AM_DVR_Device \<times> 'm) option" where
  "dvr_close_dev api dev m =
     (if open_cnt dev > 0
      then (case dvr_stop_all_streams api dev m of
              None \<Rightarrow> None
            | Some (dev1, m1) \<Rightarrow>
                (let dev2 = snd (vd_call (map_option (\<lambda>g. g (v_dev_no dev1)) (vd_close (v_drv dev1))) dev1)
                 in Some (dev2\<lparr>recording := False, open_cnt := open_cnt dev2 - 1\<rparr>, m1)))
      else Some (dev, m))"

definition AM_DVR_Close :: "'m dmx_api \<Rightarrow> int \<Rightarrow> 'e dvr_devices \<Rightarrow> 'm \<Rightarrow> (errcode \<times> 'e dvr_devices \<times> 'm) option" where
  "AM_DVR_Close api n devs m =
     (case dvr_get_dev n of
        Inl e \<Rightarrow> Some (e, devs, m)
      | Inr i \<Rightarrow> map_option (\<lambda>(dev, m'). (AM_SUCCESS, devs[i := dev], m')) (dvr_close_dev api (devs ! i) m))"

text \<open>The driver calls that return an error code.\<close>

definition dvr_drv_op :: "('e \<Rightarrow> errcode \<times> 'e) option \<Rightarrow> 'e AM_DVR_Device \<Rightarrow> errcode \<times> 'e AM_DVR_Device" where
  "dvr_drv_op f dev = (case f of None \<Rightarrow> (AM_DVR_ERR_NOT_SUPPORTED, dev) | Some _ \<Rightarrow> vd_call f dev)"

definition AM_DVR_SetBufferSize :: "int \<Rightarrow> int \<Rightarrow> 'e dvr_devices \<Rightarrow> errcode \<times> 'e dvr_devices" where
  "AM_DVR_SetBufferSize n sz devs =
     (case dvr_get_openned_dev n devs of
        Inl e \<Rightarrow> (e, devs)
      | Inr i \<Rightarrow>
          (case dvr_drv_op (map_option (\<lambda>g. g (v_dev_no (devs ! i)) sz) (vd_set_buf_size (v_drv (devs ! i)))) (devs ! i) of
             (r, dev) \<Rightarrow> (r, devs[i := dev])))"

definition AM_DVR_SetSource :: "int \<Rightarrow> AM_DVR_Source \<Rightarrow> 'e dvr_devices \<Rightarrow> errcode \<times> 'e dvr_devices" where
  "AM_DVR_SetSource n s devs =
     (case dvr_get_openned_dev n devs of
        Inl e \<Rightarrow> (e, devs)
      | Inr i \<Rightarrow>
          (case dvr_drv_op (map_option (\<lambda>g. g (v_dev_no (devs ! i)) s) (vd_set_source (v_drv (devs ! i)))) (devs ! i) of
             (r, dev) \<Rightarrow> (r, devs[i := if r = AM_SUCCESS then dev\<lparr>v_src := s\<rparr> else dev])))"

text \<open>The loop over the PIDs; the result of \<^verbatim>\<open>dvr_add_stream\<close> is ignored, a PID is cut to 16 bits.\<close>

definition dvr_add_streams :: "int list \<Rightarrow> 'e AM_DVR_Device \<Rightarrow> 'e AM_DVR_Device" where
  "dvr_add_streams ps dev = fold (\<lambda>p d. snd (dvr_add_stream (word_of_int p) d)) ps dev"

definition dvr_start_dev :: "'m dmx_api \<Rightarrow> AM_DVR_StartRecPara \<Rightarrow> 'e AM_DVR_Device \<Rightarrow> 'm
    \<Rightarrow> (errcode \<times> 'e AM_DVR_Device \<times> 'm) option" where
  "dvr_start_dev api para dev m =
     (if recording dev then Some (AM_DVR_ERR_BUSY, dev, m)
      else map_option (\<lambda>(dev1, m1). (AM_SUCCESS, dev1\<lparr>recording := True, start_para := Some para\<rparr>, m1))
             (dvr_start_all_streams api (dvr_add_streams (take (min (nat (pid_count para)) AM_DVR_MAX_PID_COUNT) (pids para)) dev) m))"

definition AM_DVR_StartRecord :: "'m dmx_api \<Rightarrow> int \<Rightarrow> AM_DVR_StartRecPara \<Rightarrow> 'e dvr_devices \<Rightarrow> 'm
    \<Rightarrow> (errcode \<times> 'e dvr_devices \<times> 'm) option" where
  "AM_DVR_StartRecord api n para devs m =
     (if pid_count para \<le> 0 then Some (AM_DVR_ERR_INVALID_ARG, devs, m)
      else case dvr_get_openned_dev n devs of
             Inl e \<Rightarrow> Some (e, devs, m)
           | Inr i \<Rightarrow> map_option (\<lambda>(r, dev, m'). (r, devs[i := dev], m')) (dvr_start_dev api para (devs ! i) m))"

definition dvr_stop_dev :: "'m dmx_api \<Rightarrow> 'e AM_DVR_Device \<Rightarrow> 'm \<Rightarrow> ('e AM_DVR_Device \<times> 'm) option" where
  "dvr_stop_dev api dev m =
     (if recording dev
      then map_option (\<lambda>(dev1, m1). (dev1\<lparr>recording := False\<rparr>, m1)) (dvr_stop_all_streams api dev m)
      else Some (dev, m))"

definition AM_DVR_StopRecord :: "'m dmx_api \<Rightarrow> int \<Rightarrow> 'e dvr_devices \<Rightarrow> 'm \<Rightarrow> (errcode \<times> 'e dvr_devices \<times> 'm) option" where
  "AM_DVR_StopRecord api n devs m =
     (case dvr_get_openned_dev n devs of
        Inl e \<Rightarrow> Some (e, devs, m)
      | Inr i \<Rightarrow> map_option (\<lambda>(dev, m'). (AM_SUCCESS, devs[i := dev], m')) (dvr_stop_dev api (devs ! i) m))"

text \<open>The count is -1 on failure; for a device that is not open the result is the (positive) error code.\<close>

definition AM_DVR_Read :: "int \<Rightarrow> int \<Rightarrow> int \<Rightarrow> 'e dvr_devices \<Rightarrow> (int \<times> byte list) \<times> 'e dvr_devices" where
  "AM_DVR_Read n sz timeout devs =
     (case dvr_get_openned_dev n devs of
        Inl e \<Rightarrow> ((e, []), devs)
      | Inr i \<Rightarrow>
          (case vd_read (v_drv (devs ! i)) of
             None \<Rightarrow> ((-1, []), devs)
           | Some rdf \<Rightarrow>
               (case vd_poll (v_drv (devs ! i)) (v_dev_no (devs ! i)) timeout (v_drv_data (devs ! i)) of
                  (ret, e1) \<Rightarrow>
                    if ret \<noteq> AM_SUCCESS then ((-1, []), devs[i := (devs ! i)\<lparr>v_drv_data := e1\<rparr>])
                    else (case rdf (v_dev_no (devs ! i)) sz e1 of
                            ((ret, bs), e2) \<Rightarrow>
                              (if ret \<noteq> AM_SUCCESS then (-1, []) else (int (length bs), bs),
                               devs[i := (devs ! i)\<lparr>v_drv_data := e2\<rparr>])))))"

subsection \<open>The kernel driver\<close>

text \<open>The private data is the descriptor. A descriptor is never -1 once the device is open.\<close>

record 'k dvr_priv =
  v_fd :: nat
  v_kern :: 'k

definition vdrv_open :: "'k kernel \<Rightarrow> int \<Rightarrow> 'k dvr_priv \<Rightarrow> errcode \<times> 'k dvr_priv" where
  "vdrv_open K n e =
     (case k_open K (''/dev/dvb0.dvr'' @ dev_digit n) (v_kern e) of
        (None, k) \<Rightarrow> (AM_DVR_ERR_CANNOT_OPEN_DEV, e\<lparr>v_kern := k\<rparr>)
      | (Some fd, k) \<Rightarrow> (AM_SUCCESS, e\<lparr>v_fd := fd, v_kern := k_nonblock K fd k\<rparr>))"

definition vdrv_close :: "'k kernel \<Rightarrow> int \<Rightarrow> 'k dvr_priv \<Rightarrow> errcode \<times> 'k dvr_priv" where
  "vdrv_close K n e = (AM_SUCCESS, e\<lparr>v_kern := k_close K (v_fd e) (v_kern e)\<rparr>)"

definition vdrv_set_buf_size :: "'k kernel \<Rightarrow> int \<Rightarrow> int \<Rightarrow> 'k dvr_priv \<Rightarrow> errcode \<times> 'k dvr_priv" where
  "vdrv_set_buf_size K n sz e =
     (case k_ioctl K (v_fd e) (DMX_SET_BUFFER_SIZE sz) (v_kern e) of
        (ok, k) \<Rightarrow> (if ok then AM_SUCCESS else AM_DVR_ERR_SYS, e\<lparr>v_kern := k\<rparr>))"

definition vdrv_poll :: "'k kernel \<Rightarrow> int \<Rightarrow> int \<Rightarrow> 'k dvr_priv \<Rightarrow> errcode \<times> 'k dvr_priv" where
  "vdrv_poll K n timeout e =
     (case k_poll K [v_fd e] (v_kern e) of
        (None, k) \<Rightarrow> (AM_DVR_ERR_TIMEOUT, e\<lparr>v_kern := k\<rparr>)
      | (Some _, k) \<Rightarrow> (AM_SUCCESS, e\<lparr>v_kern := k\<rparr>))"

definition vdrv_read :: "'k kernel \<Rightarrow> int \<Rightarrow> int \<Rightarrow> 'k dvr_priv \<Rightarrow> (errcode \<times> byte list) \<times> 'k dvr_priv" where
  "vdrv_read K n sz e =
     (case k_read K (v_fd e) (nat sz) (v_kern e) of
        (Inl timedout, k) \<Rightarrow> ((if timedout then AM_DVR_ERR_TIMEOUT else AM_DVR_ERR_SYS, []), e\<lparr>v_kern := k\<rparr>)
      | (Inr bs, k) \<Rightarrow> ((AM_SUCCESS, bs), e\<lparr>v_kern := k\<rparr>))"

definition fifo_digit :: "AM_DVR_Source \<Rightarrow> string" where
  "fifo_digit s = (case s of AM_DVR_SRC_ASYNC_FIFO0 \<Rightarrow> ''0'' | AM_DVR_SRC_ASYNC_FIFO1 \<Rightarrow> ''1'')"

definition vdrv_set_source :: "'k kernel \<Rightarrow> int \<Rightarrow> AM_DVR_Source \<Rightarrow> 'k dvr_priv \<Rightarrow> errcode \<times> 'k dvr_priv" where
  "vdrv_set_source K n s e =
     (if n = 0 \<or> n = 1
      then (case k_echo K (''/sys/class/stb/asyncfifo'' @ fifo_digit s @ ''_source'') (''dmx'' @ dev_digit n) (v_kern e) of
              (r, k) \<Rightarrow> (r, e\<lparr>v_kern := k\<rparr>))
      else (AM_FAILURE, e))"

definition linux_dvb_dvr_drv :: "'k kernel \<Rightarrow> 'k dvr_priv AM_DVR_Driver" where
  "linux_dvb_dvr_drv K = \<lparr>vd_open = Some (vdrv_open K), vd_close = Some (vdrv_close K),
     vd_set_buf_size = Some (vdrv_set_buf_size K), vd_poll = vdrv_poll K, vd_read = Some (vdrv_read K),
     vd_set_source = Some (vdrv_set_source K)\<rparr>"

end
