(* ===== verification/Dvr_Recorder.thy ===== *)
theory Dvr_Recorder
  imports Am_Dvr
begin

text \<open>
  Properties of the recorder: what it relies on of the demux layer as the locale
  \<open>demux_filters\<close>, what follows for starting and stopping a recording, the interpretation of
  the locale by the demux layer with its two drivers, and the runs of the recorder's table.
\<close>

subsection \<open>The interface to the demux layer\<close>

text \<open>
  \<open>held m n\<close> is the set of handles allocated on device \<open>n\<close>. Allocation gives a handle that was not
  held, the other calls are defined for held handles, and freeing a held handle succeeds.
\<close>

locale demux_filters =
  fixes api :: "'m dmx_api"
    and minv :: "'m \<Rightarrow> bool"
    and held :: "'m \<Rightarrow> int \<Rightarrow> nat set"
  assumes alloc_law: "minv m \<Longrightarrow> \<exists>r h m'. api_alloc api n m = Some ((r, h), m') \<and> minv m' \<and>
      (if r = AM_SUCCESS then \<exists>x. h = Some x \<and> x \<notin> held m n \<and> held m' n = insert x (held m n) else held m' n = held m n)"
    and set_pes_law: "minv m \<Longrightarrow> \<exists>r m'. api_set_pes api n h p m = Some (r, m') \<and> minv m' \<and> held m' n = held m n"
    and start_law: "minv m \<Longrightarrow> x \<in> held m n \<Longrightarrow>
      \<exists>r m'. api_start api n (int x) m = Some (r, m') \<and> minv m' \<and> held m' n = held m n"
    and stop_law: "minv m \<Longrightarrow> \<exists>r m'. api_stop api n h m = Some (r, m') \<and> minv m' \<and> held m' n = held m n"
    and free_law: "minv m \<Longrightarrow> x \<in> held m n \<Longrightarrow>
      \<exists>m'. api_free api n (int x) m = Some (AM_SUCCESS, m') \<and> minv m' \<and> held m' n = held m n - {x}"

definition fids :: "AM_DVR_Stream list \<Rightarrow> nat list" where
  "fids ss = map (\<lambda>s. nat (st_fid s)) (filter (\<lambda>s. st_fid s \<noteq> -1) ss)"

definition idle_stream :: "AM_DVR_Stream \<Rightarrow> bool" where
  "idle_stream s \<longleftrightarrow> st_fid s = -1"

lemma fids_simps [simp]:
  "fids [] = []" "st_fid s = -1 \<Longrightarrow> fids (s # ss) = fids ss" "st_fid s = int x \<Longrightarrow> fids (s # ss) = x # fids ss"
  by (simp_all add: fids_def)

context demux_filters
begin

lemma start_each:
  "minv m \<Longrightarrow> (\<forall>s \<in> set ss. idle_stream s) \<Longrightarrow>
   \<exists>ss' m'. dvr_each (dvr_start_stream api n) ss m = Some (ss', m') \<and> minv m' \<and> map st_pid ss' = map st_pid ss \<and>
     (\<forall>s \<in> set ss'. -1 \<le> st_fid s) \<and> distinct (fids ss') \<and> set (fids ss') \<inter> held m n = {} \<and>
     held m' n = held m n \<union> set (fids ss')"
proof (induction ss arbitrary: m)
  case (Cons s ss)
  have idle: "st_fid s = -1" using Cons.prems(2) by (simp add: idle_stream_def)
  from alloc_law [OF Cons.prems(1), of n] obtain r h m1 where
    a: "api_alloc api n m = Some ((r, h), m1)" "minv m1"
    "if r = AM_SUCCESS then \<exists>x. h = Some x \<and> x \<notin> held m n \<and> held m1 n = insert x (held m n) else held m1 n = held m n"
    by blast
  show ?case
  proof (cases "r = 0")
    case False
    from Cons.IH [OF a(2)] Cons.prems(2) obtain ss' m' where
      i: "dvr_each (dvr_start_stream api n) ss m1 = Some (ss', m')" "minv m'" "map st_pid ss' = map st_pid ss"
      "\<forall>s \<in> set ss'. -1 \<le> st_fid s" "distinct (fids ss')" "set (fids ss') \<inter> held m1 n = {}"
      "held m' n = held m1 n \<union> set (fids ss')" by auto
    have "dvr_start_stream api n s m = Some (s\<lparr>st_fid := -1\<rparr>, m1)" using idle a False by (simp add: dvr_start_stream_def)
    then show ?thesis using i a False by auto
  next
    case True
    with a(3) obtain x where x: "h = Some x" "x \<notin> held m n" "held m1 n = insert x (held m n)" by auto
    let ?p = "\<lparr>pes_pid = uint (st_pid s), pes_input = DMX_IN_FRONTEND, pes_output = DMX_OUT_TS_TAP, pes_type = DMX_PES_OTHER\<rparr>"
    from set_pes_law [OF a(2), of n "int x" ?p] obtain r2 m2 where
      p: "api_set_pes api n (int x) ?p m1 = Some (r2, m2)" "minv m2" "held m2 n = held m1 n" by blast
    from start_law [OF p(2), of x n] p(3) x obtain r3 m3 where
      t: "api_start api n (int x) m2 = Some (r3, m3)" "minv m3" "held m3 n = held m2 n" by blast
    from Cons.IH [OF t(2)] Cons.prems(2) obtain ss' m' where
      i: "dvr_each (dvr_start_stream api n) ss m3 = Some (ss', m')" "minv m'" "map st_pid ss' = map st_pid ss"
      "\<forall>s \<in> set ss'. -1 \<le> st_fid s" "distinct (fids ss')" "set (fids ss') \<inter> held m3 n = {}"
      "held m' n = held m3 n \<union> set (fids ss')" by auto
    have "dvr_start_stream api n s m = Some (s\<lparr>st_fid := int x\<rparr>, m3)"
      using idle a True x p t by (simp add: dvr_start_stream_def)
    then show ?thesis using i x p t by auto
  qed
qed simp

lemma stop_each:
  "minv m \<Longrightarrow> (\<forall>s \<in> set ss. -1 \<le> st_fid s) \<Longrightarrow> distinct (fids ss) \<Longrightarrow> set (fids ss) \<subseteq> held m n \<Longrightarrow>
   \<exists>ss' m'. dvr_each (dvr_stop_stream api n) ss m = Some (ss', m') \<and> minv m' \<and> length ss' = length ss \<and>
     (\<forall>s \<in> set ss'. idle_stream s) \<and> held m' n = held m n - set (fids ss)"
proof (induction ss arbitrary: m)
  case (Cons s ss)
  show ?case
  proof (cases "st_fid s = -1")
    case True
    with Cons.IH [OF Cons.prems(1)] Cons.prems show ?thesis by (auto simp: dvr_stop_stream_def idle_stream_def)
  next
    case False
    with Cons.prems(2) have "0 \<le> st_fid s" by auto
    then obtain x where x: "st_fid s = int x" by (metis nonneg_int_cases)
    from stop_law [OF Cons.prems(1), of n "int x"] obtain r1 m1 where
      t: "api_stop api n (int x) m = Some (r1, m1)" "minv m1" "held m1 n = held m n" by blast
    from free_law [OF t(2), of x n] t(3) Cons.prems(4) x obtain m2 where
      f: "api_free api n (int x) m1 = Some (0, m2)" "minv m2" "held m2 n = held m1 n - {x}" by auto
    have sub: "set (fids ss) \<subseteq> held m2 n" using Cons.prems(3,4) x f(3) t(3) by auto
    from Cons.IH [OF f(2) _ _ sub] Cons.prems x obtain ss' m' where
      i: "dvr_each (dvr_stop_stream api n) ss m2 = Some (ss', m')" "minv m'" "length ss' = length ss"
        "\<forall>s \<in> set ss'. idle_stream s" "held m' n = held m2 n - set (fids ss)" by auto
    have "dvr_stop_stream api n s m = Some (s\<lparr>st_fid := -1\<rparr>, m2)" using x t f by (simp add: dvr_stop_stream_def)
    then show ?thesis using i x f t by (auto simp: idle_stream_def)
  qed
qed simp

end

subsection \<open>A recorder device\<close>

definition rec_shape :: "'e AM_DVR_Device \<Rightarrow> bool" where
  "rec_shape dev \<longleftrightarrow> length (streams dev) = AM_DVR_MAX_PID_COUNT \<and> stream_cnt dev \<le> AM_DVR_MAX_PID_COUNT \<and>
     0 \<le> open_cnt dev \<and> (open_cnt dev > 0 \<and> \<not> recording dev \<longrightarrow> stream_cnt dev = 0)"

lemma add_streams_spec:
  "length (streams dev) = 32 \<Longrightarrow> stream_cnt dev + length ps \<le> 32 \<Longrightarrow>
   \<exists>ss. dvr_add_streams ps dev = dev\<lparr>streams := ss, stream_cnt := stream_cnt dev + length ps\<rparr> \<and> length ss = 32 \<and>
     take (stream_cnt dev + length ps) ss
       = take (stream_cnt dev) (streams dev) @ map (\<lambda>p. \<lparr>st_fid = -1, st_pid = word_of_int p\<rparr>) ps"
proof (induction ps arbitrary: dev)
  case Nil
  then show ?case by (auto simp: dvr_add_streams_def intro: exI [of _ "streams dev"])
next
  case (Cons p ps)
  define s where "s = \<lparr>st_fid = -1, st_pid = word_of_int p\<rparr>"
  define dev1 where "dev1 = dev\<lparr>streams := (streams dev)[stream_cnt dev := s], stream_cnt := stream_cnt dev + 1\<rparr>"
  have add: "dvr_add_streams (p # ps) dev = dvr_add_streams ps dev1"
    using Cons.prems by (simp add: dvr_add_streams_def dvr_add_stream_def dev1_def s_def)
  from Cons.IH [of dev1] Cons.prems obtain ss where
    ss: "dvr_add_streams ps dev1 = dev1\<lparr>streams := ss, stream_cnt := stream_cnt dev1 + length ps\<rparr>" "length ss = 32"
      "take (stream_cnt dev1 + length ps) ss
        = take (stream_cnt dev1) (streams dev1) @ map (\<lambda>p. \<lparr>st_fid = -1, st_pid = word_of_int p\<rparr>) ps"
    by (auto simp: dev1_def)
  have "take (Suc (stream_cnt dev)) ((streams dev)[stream_cnt dev := s]) = take (stream_cnt dev) (streams dev) @ [s]"
    using Cons.prems by (simp add: take_Suc_conv_app_nth)
  with ss add show ?case by (intro exI [of _ ss]) (simp add: dev1_def s_def)
qed

text \<open>The PIDs that are recorded: at most 32, cut to 16 bits.\<close>

definition rec_pids :: "AM_DVR_StartRecPara \<Rightarrow> int list" where
  "rec_pids para = take (min (nat (pid_count para)) AM_DVR_MAX_PID_COUNT) (pids para)"

context demux_filters
begin

lemma rec_start_ok:
  assumes "minv m" "length (streams dev) = 32" "stream_cnt dev = 0" "\<not> recording dev"
  shows "\<exists>dev1 m1. dvr_start_dev api para dev m = Some (AM_SUCCESS, dev1, m1) \<and> minv m1 \<and> recording dev1 \<and>
    v_dmx_no dev1 = v_dmx_no dev \<and> open_cnt dev1 = open_cnt dev \<and> length (streams dev1) = 32 \<and>
    stream_cnt dev1 = length (rec_pids para) \<and>
    map st_pid (take (stream_cnt dev1) (streams dev1)) = map word_of_int (rec_pids para) \<and>
    (\<forall>s \<in> set (take (stream_cnt dev1) (streams dev1)). -1 \<le> st_fid s) \<and>
    distinct (fids (take (stream_cnt dev1) (streams dev1))) \<and>
    set (fids (take (stream_cnt dev1) (streams dev1))) \<inter> held m (v_dmx_no dev) = {} \<and>
    held m1 (v_dmx_no dev) = held m (v_dmx_no dev) \<union> set (fids (take (stream_cnt dev1) (streams dev1)))"
proof -
  define c where "c = length (rec_pids para)"
  have "stream_cnt dev + length (rec_pids para) \<le> 32" using assms(3) by (simp add: rec_pids_def)
  from add_streams_spec [OF assms(2) this] assms(3) obtain ss where
    ss: "dvr_add_streams (rec_pids para) dev = dev\<lparr>streams := ss, stream_cnt := c\<rparr>" "length ss = 32"
      "take c ss = map (\<lambda>p. \<lparr>st_fid = -1, st_pid = word_of_int p\<rparr>) (rec_pids para)" by (auto simp: c_def)
  have "\<forall>s \<in> set (take c ss). idle_stream s" unfolding ss(3) by (auto simp: idle_stream_def)
  from start_each [OF assms(1) this, of "v_dmx_no dev"] obtain ss' m1 where
    st: "dvr_each (dvr_start_stream api (v_dmx_no dev)) (take c ss) m = Some (ss', m1)" "minv m1"
      "map st_pid ss' = map st_pid (take c ss)" "\<forall>s \<in> set ss'. -1 \<le> st_fid s" "distinct (fids ss')"
      "set (fids ss') \<inter> held m (v_dmx_no dev) = {}" "held m1 (v_dmx_no dev) = held m (v_dmx_no dev) \<union> set (fids ss')"
    by blast
  have len: "length ss' = c" "c \<le> 32" using arg_cong [OF st(3), of length] ss by (auto simp: c_def rec_pids_def)
  have "dvr_start_dev api para dev m = Some (0, dev\<lparr>streams := ss' @ drop c ss, stream_cnt := c, recording := True,
      start_para := Some para\<rparr>, m1)"
    using assms(4) ss(1) st(1) by (simp add: dvr_start_dev_def dvr_start_all_streams_def rec_pids_def)
  then show ?thesis using st len ss by (simp add: c_def [symmetric] o_def)
qed

lemma rec_stop_ok:
  assumes "minv m" "length (streams dev) = 32" "stream_cnt dev \<le> 32" "recording dev"
    and "\<forall>s \<in> set (take (stream_cnt dev) (streams dev)). -1 \<le> st_fid s"
    and "distinct (fids (take (stream_cnt dev) (streams dev)))"
    and "set (fids (take (stream_cnt dev) (streams dev))) \<subseteq> held m (v_dmx_no dev)"
  shows "\<exists>dev1 m1. dvr_stop_dev api dev m = Some (dev1, m1) \<and> minv m1 \<and> \<not> recording dev1 \<and> stream_cnt dev1 = 0 \<and>
    length (streams dev1) = 32 \<and> (\<forall>s \<in> set (take (stream_cnt dev) (streams dev1)). idle_stream s) \<and>
    held m1 (v_dmx_no dev) = held m (v_dmx_no dev) - set (fids (take (stream_cnt dev) (streams dev)))"
proof -
  from stop_each [OF assms(1,5,6,7)] obtain ss' m1 where
    "dvr_each (dvr_stop_stream api (v_dmx_no dev)) (take (stream_cnt dev) (streams dev)) m = Some (ss', m1)" "minv m1"
    "length ss' = stream_cnt dev" "\<forall>s \<in> set ss'. idle_stream s"
    "held m1 (v_dmx_no dev) = held m (v_dmx_no dev) - set (fids (take (stream_cnt dev) (streams dev)))"
    using assms(2,3) by (auto simp: min_def)
  with assms show ?thesis by (simp add: dvr_stop_dev_def dvr_stop_all_streams_def)
qed

text \<open>A recording that is started and stopped returns exactly the filters it took.\<close>

lemma roundtrip:
  assumes "minv m" "length (streams dev) = 32" "stream_cnt dev = 0" "\<not> recording dev"
  shows "\<exists>dev1 m1 dev2 m2. dvr_start_dev api para dev m = Some (AM_SUCCESS, dev1, m1) \<and>
    dvr_stop_dev api dev1 m1 = Some (dev2, m2) \<and> minv m2 \<and> held m2 (v_dmx_no dev) = held m (v_dmx_no dev) \<and>
    \<not> recording dev2 \<and> stream_cnt dev2 = 0 \<and> open_cnt dev1 = open_cnt dev"
proof -
  from rec_start_ok [OF assms, of para] obtain dev1 m1 where
    s: "dvr_start_dev api para dev m = Some (0, dev1, m1)" "minv m1" "recording dev1" "v_dmx_no dev1 = v_dmx_no dev"
      "open_cnt dev1 = open_cnt dev" "length (streams dev1) = 32" "stream_cnt dev1 = length (rec_pids para)"
      "\<forall>s \<in> set (take (stream_cnt dev1) (streams dev1)). -1 \<le> st_fid s"
      "distinct (fids (take (stream_cnt dev1) (streams dev1)))"
      "set (fids (take (stream_cnt dev1) (streams dev1))) \<inter> held m (v_dmx_no dev) = {}"
      "held m1 (v_dmx_no dev) = held m (v_dmx_no dev) \<union> set (fids (take (stream_cnt dev1) (streams dev1)))" by blast
  have "stream_cnt dev1 \<le> 32" using s(7) by (simp add: rec_pids_def)
  from rec_stop_ok [OF s(2,6) this s(3,8,9)] s(4,11) obtain dev2 m2 where
    "dvr_stop_dev api dev1 m1 = Some (dev2, m2)" "minv m2" "\<not> recording dev2" "stream_cnt dev2 = 0"
    "held m2 (v_dmx_no dev) = held m1 (v_dmx_no dev) - set (fids (take (stream_cnt dev1) (streams dev1)))" by auto
  with s show ?thesis by (intro exI [of _ dev1] exI [of _ m1] exI [of _ dev2] exI [of _ m2]) auto
qed

end

subsection \<open>The demux layer keeps the contract\<close>

definition dmx_held :: "'d dmx_devices \<Rightarrow> int \<Rightarrow> nat set" where
  "dmx_held m n = (if 0 \<le> n \<and> n < 2 \<and> 0 < open_count (m ! nat n)
     then {j \<in> {..< DMX_FILTER_COUNT}. f_used (filters (m ! nat n) ! j)} else {})"

definition dmx_minv :: "'k kernel \<Rightarrow> 'k dmx_priv dmx_devices \<Rightarrow> bool" where
  "dmx_minv K m \<longleftrightarrow> stop_reliable K \<and> sys_ok K m"

lemma held_closed:
  "dmx_get_openned_dev n m = Inl e \<Longrightarrow> dmx_held m n = {}"
  by (auto simp: dmx_held_def dmx_get_openned_dev_def dmx_get_dev_def split: if_splits)

lemma held_open:
  "dmx_get_openned_dev n m = Inr i \<Longrightarrow> dmx_held m n = {j \<in> {..< 32}. f_used (filters (m ! i) ! j)}"
  by (auto simp: dmx_held_def openned_iff)

lemma held_upd:
  "dmx_get_openned_dev n m = Inr i \<Longrightarrow> length m = 2 \<Longrightarrow> open_count dev = open_count (m ! i) \<Longrightarrow>
   dmx_held (m[i := dev]) n = {j \<in> {..< 32}. f_used (filters dev ! j)}"
  by (auto simp: dmx_held_def openned_iff)

text \<open>A body that keeps the flags \<open>used\<close> and the open count keeps what is held.\<close>

lemma with_openned_held:
  assumes "sys_ok K m" "body_ok K body"
    and keep: "\<And>dev r dev'. dmx_dev_inv dev \<Longrightarrow> body dev = Some (r, dev') \<Longrightarrow>
      open_count dev' = open_count dev \<and> (\<forall>j. f_used (filters dev' ! j) = f_used (filters dev ! j))"
  shows "\<exists>r m'. with_openned fail n body m = Some (r, m') \<and> sys_ok K m' \<and> dmx_held m' n = dmx_held m n"
proof -
  from with_openned_ok [OF assms(1,2), of fail n] obtain r m' where
    w: "with_openned fail n body m = Some (r, m')" "sys_ok K m'" by blast
  have "dmx_held m' n = dmx_held m n"
  proof (cases "dmx_get_openned_dev n m")
    case (Inl e)
    with w show ?thesis by (simp add: with_openned_def)
  next
    case (Inr i)
    with w obtain dev where b: "body (m ! i) = Some (r, dev)" "m' = m[i := dev]"
      by (auto simp: with_openned_def split: option.splits prod.splits)
    have "i < 2" using Inr by (simp add: openned_iff)
    with assms(1) have "dmx_dev_inv (m ! i)" by (auto simp: sys_ok_def sys_dev_ok_def)
    from keep [OF this b(1)] b(2) held_upd [OF Inr sys_okD(1) [OF assms(1)], of dev] held_open [OF Inr] show ?thesis by simp
  qed
  with w show ?thesis by blast
qed

lemma stop_used:
  "dmx_stop_filter i dev = Some (r, dev') \<Longrightarrow> \<forall>j. f_used (filters dev' ! j) = f_used (filters dev ! j)"
  by (auto simp: dmx_stop_filter_def drv_call_def nth_update_if split: if_splits option.splits)

lemma set_pes_used:
  assumes "dmx_set_filter s h p dev = Some (r, dev')"
  shows "\<forall>j. f_used (filters dev' ! j) = f_used (filters dev ! j)"
  using assms
  by (auto simp: dmx_set_filter_def drv_call_def split: option.splits sum.splits if_splits dest!: stop_used)

lemma start_used:
  "dmx_start_handle h dev = Some (r, dev') \<Longrightarrow> \<forall>j. f_used (filters dev' ! j) = f_used (filters dev ! j)"
  by (auto simp: dmx_start_handle_def drv_call_def nth_update_if split: if_splits option.splits sum.splits)

lemma stop_handle_used:
  "dmx_stop_handle h dev = Some (r, dev') \<Longrightarrow> \<forall>j. f_used (filters dev' ! j) = f_used (filters dev ! j)"
  by (auto simp: dmx_stop_handle_def split: if_splits sum.splits dest!: stop_used)

text \<open>Freeing a used handle, with either driver.\<close>

lemma free_handle_exact:
  assumes "stop_reliable K" "sys_dev_ok K dev" "0 < open_count dev" "x < 32" "f_used (filters dev ! x)"
  shows "\<exists>dev'. dmx_free_handle (int x) dev = Some (AM_SUCCESS, dev') \<and>
    (\<forall>j < 32. f_used (filters dev' ! j) = (f_used (filters dev ! j) \<and> j \<noteq> x))"
proof -
  have rel: "reliable_dmx_driver (linux_dvb_dmx_drv K) dvb_inv"
    using assms(1) by (intro linux_dvb_reliable) (simp add: stop_reliable_def)
  have "dmx_get_used_filter dev (int x) = Inr x" using assms(4,5) by (simp add: used_filter_iff)
  then have eq: "dmx_free_handle (int x) dev = dmx_free_filter x dev" by (simp add: dmx_free_handle_def)
  from assms(2,3) show ?thesis unfolding eq
    by (cases rule: sys_dev_cases)
       (use reliable_dmx_driver.free_succeeds [OF rel _ assms(4)] dvr.free_succeeds [OF _ assms(4)] in blast)+
qed

interpretation recorder: demux_filters adp_dmx_api "dmx_minv K" dmx_held for K :: "'k kernel"
proof (unfold_locales, goal_cases)
  case (1 m n)
  then have ok: "sys_ok K m" by (simp add: dmx_minv_def)
  from with_openned_ok [OF ok allocate_body, of "\<lambda>e. (e, None)" n] obtain ra m' where
    w: "with_openned (\<lambda>e. (e, None)) n dmx_allocate_filter m = Some (ra, m')" "sys_ok K m'" by blast
  obtain r h where ra: "ra = (r, h)" by (cases ra)
  have "if r = 0 then \<exists>x. h = Some x \<and> x \<notin> dmx_held m n \<and> dmx_held m' n = insert x (dmx_held m n)
      else dmx_held m' n = dmx_held m n"
  proof (cases "dmx_get_openned_dev n m")
    case (Inl e)
    then have "r = e" "m' = m" using w ra by (auto simp: with_openned_def)
    moreover have "e \<noteq> 0" using Inl by (auto simp: dmx_get_openned_dev_def dmx_get_dev_def split: if_splits)
    ultimately show ?thesis by simp
  next
    case (Inr i)
    with w ra obtain dev where b: "dmx_allocate_filter (m ! i) = Some ((r, h), dev)" "m' = m[i := dev]"
      by (auto simp: with_openned_def split: option.splits)
    have "i < 2" using Inr by (simp add: openned_iff)
    with ok have inv: "dmx_dev_inv (m ! i)" by (auto simp: sys_ok_def sys_dev_ok_def)
    have cnt: "open_count dev = open_count (m ! i)" using allocate_filter_inv [OF inv b(1)] by (simp add: same_frame_def)
    note held = held_open [OF Inr] held_upd [OF Inr sys_okD(1) [OF ok] cnt]
    show ?thesis
    proof (cases h)
      case None
      have "f_used (filters dev ! j) = f_used (filters (m ! i) ! j)" for j
        using b(1) None by (auto simp: dmx_allocate_filter_def Let_def nth_update_if split: if_splits option.splits)
      with allocate_success [OF inv b(1)] None held b(2) show ?thesis by auto
    next
      case (Some x)
      with allocate_success [OF inv b(1)] have "r = 0" "x < 32" "\<not> f_used (filters (m ! i) ! x)" "f_used (filters dev ! x)"
        "\<forall>j. j \<noteq> x \<longrightarrow> filters dev ! j = filters (m ! i) ! j" by auto
      with Some held b(2) show ?thesis by (auto simp: set_eq_iff)
    qed
  qed
  with 1 w ra show ?case by (auto simp: adp_dmx_api_def AM_DMX_AllocateFilter_def dmx_minv_def)
next
  case (2 m n h p)
  then have "sys_ok K m" by (simp add: dmx_minv_def)
  from with_openned_held [OF this set_pes_body [of K h p], of "\<lambda>e. e" n] set_filter_inv set_pes_used 2 show ?case
    by (fastforce simp: adp_dmx_api_def AM_DMX_SetPesFilter_def dmx_minv_def same_frame_def)
next
  case (3 m x n)
  then have ok: "sys_ok K m" and x: "x \<in> dmx_held m n" by (simp_all add: dmx_minv_def)
  then obtain i where i: "dmx_get_openned_dev n m = Inr i" by (cases "dmx_get_openned_dev n m") (auto dest: held_closed)
  then have i2: "i < 2" "0 < open_count (m ! i)" by (simp_all add: openned_iff)
  have "dmx_get_used_filter (m ! i) (int x) = Inr x" using x held_open [OF i] by (simp add: used_filter_iff)
  from sys_start_ok [OF sys_okD(2) [OF ok i2(1)] i2(2) this] obtain r dev where
    s: "dmx_start_handle (int x) (m ! i) = Some (r, dev)" "sys_dev_ok K dev" by blast
  have "open_count dev = open_count (m ! i)"
    using start_handle_inv [OF _ s(1)] sys_okD(2) [OF ok i2(1)] by (simp add: sys_dev_ok_def same_frame_def)
  with start_used [OF s(1)] held_open [OF i] held_upd [OF i sys_okD(1) [OF ok], of dev]
  have "dmx_held (m[i := dev]) n = dmx_held m n" by simp
  with 3 i s sys_ok_update [OF ok s(2)] show ?case
    by (auto simp: adp_dmx_api_def AM_DMX_StartFilter_def with_openned_def dmx_minv_def)
next
  case (4 m n h)
  then have "sys_ok K m" by (simp add: dmx_minv_def)
  from with_openned_held [OF this stop_body [of K h], of "\<lambda>e. e" n] stop_handle_inv stop_handle_used 4 show ?case
    by (fastforce simp: adp_dmx_api_def AM_DMX_StopFilter_def dmx_minv_def same_frame_def)
next
  case (5 m x n)
  then have rel: "stop_reliable K" and ok: "sys_ok K m" and x: "x \<in> dmx_held m n" by (simp_all add: dmx_minv_def)
  then obtain i where i: "dmx_get_openned_dev n m = Inr i" by (cases "dmx_get_openned_dev n m") (auto dest: held_closed)
  then have i2: "i < 2" "0 < open_count (m ! i)" by (simp_all add: openned_iff)
  have xu: "x < 32" "f_used (filters (m ! i) ! x)" using x held_open [OF i] by auto
  from free_handle_exact [OF rel sys_okD(2) [OF ok i2(1)] i2(2) xu] obtain dev where
    f: "dmx_free_handle (int x) (m ! i) = Some (0, dev)"
       "\<forall>j < 32. f_used (filters dev ! j) = (f_used (filters (m ! i) ! j) \<and> j \<noteq> x)" by blast
  have "dmx_dev_inv (m ! i)" using sys_okD(2) [OF ok i2(1)] by (simp add: sys_dev_ok_def)
  with free_handle_inv [OF _ f(1)] have "open_count dev = open_count (m ! i)" by (simp add: same_frame_def)
  with f(2) held_open [OF i] held_upd [OF i sys_okD(1) [OF ok], of dev]
  have h: "dmx_held (m[i := dev]) n = dmx_held m n - {x}" by auto
  from free_body [of K "int x"] i2 sys_okD(2) [OF ok i2(1)] f(1) have "sys_dev_ok K dev" by (auto simp: body_ok_def)
  with 5 i f(1) h sys_ok_update [OF ok] show ?case
    by (auto simp: adp_dmx_api_def AM_DMX_FreeFilter_def with_openned_def dmx_minv_def)
qed

subsection \<open>Runs of the recorder's table\<close>

text \<open>
  A step is an operation of the recorder, or anything that happens in the demux layer; the initial
  table is zeroed.
\<close>

inductive rec_step :: "'m dmx_api \<Rightarrow> 'e dvr_devices \<times> 'm \<Rightarrow> 'e dvr_devices \<times> 'm \<Rightarrow> bool" for api where
  opn: "AM_DVR_Open n v = (r, v') \<Longrightarrow> rec_step api (v, m) (v', m)"
| close: "AM_DVR_Close api n v m = Some (r, v', m') \<Longrightarrow> rec_step api (v, m) (v', m')"
| set_buf: "AM_DVR_SetBufferSize n sz v = (r, v') \<Longrightarrow> rec_step api (v, m) (v', m)"
| set_src: "AM_DVR_SetSource n s v = (r, v') \<Longrightarrow> rec_step api (v, m) (v', m)"
| start: "AM_DVR_StartRecord api n para v m = Some (r, v', m') \<Longrightarrow> rec_step api (v, m) (v', m')"
| stop: "AM_DVR_StopRecord api n v m = Some (r, v', m') \<Longrightarrow> rec_step api (v, m) (v', m')"
| read: "AM_DVR_Read n sz t v = (cb, v') \<Longrightarrow> rec_step api (v, m) (v', m)"
| env: "rec_step api (v, m) (v, m')"

definition dvr_init :: "'e AM_DVR_Driver \<Rightarrow> 'e \<Rightarrow> 'e dvr_devices" where
  "dvr_init D e = replicate DVR_DEV_COUNT \<lparr>v_dev_no = 0, v_dmx_no = 0, v_drv = D, v_drv_data = e, open_cnt = 0,
     stream_cnt = 0, streams = replicate AM_DVR_MAX_PID_COUNT \<lparr>st_fid = 0, st_pid = 0\<rparr>, recording = False,
     start_para = None, v_src = AM_DVR_SRC_ASYNC_FIFO0\<rparr>"

inductive rec_reach :: "'m dmx_api \<Rightarrow> 'e dvr_devices \<times> 'm \<Rightarrow> bool" for api where
  init: "rec_reach api (dvr_init D e, m)"
| step: "rec_reach api s \<Longrightarrow> rec_step api s s' \<Longrightarrow> rec_reach api s'"

definition rec_devs :: "'e dvr_devices \<Rightarrow> bool" where
  "rec_devs v \<longleftrightarrow> length v = DVR_DEV_COUNT \<and> (\<forall>dev \<in> set v. rec_shape dev)"

lemma rec_devsD: "rec_devs v \<Longrightarrow> length v = 2" "rec_devs v \<Longrightarrow> i < 2 \<Longrightarrow> rec_shape (v ! i)"
  by (auto simp: rec_devs_def)

lemma rec_devs_update: "rec_devs v \<Longrightarrow> rec_shape dev \<Longrightarrow> rec_devs (v[i := dev])"
  by (auto simp: rec_devs_def dest!: subsetD [OF set_update_subset_insert])

lemma openned_dvr: "dvr_get_openned_dev n v = Inr i \<longleftrightarrow> n = int i \<and> i < 2 \<and> open_cnt (v ! i) \<noteq> 0"
  by (auto simp: dvr_get_openned_dev_def dvr_get_dev_def)

lemma dvr_each_length: "dvr_each f ss m = Some (ss', m') \<Longrightarrow> length ss' = length ss"
  by (induction ss arbitrary: m ss') (auto split: option.splits prod.splits)

lemma vd_call_shape [simp]: "vd_call f dev = (r, dev') \<Longrightarrow> rec_shape dev' = rec_shape dev"
  by (auto simp: vd_call_def rec_shape_def split: option.splits prod.splits)

lemma start_all_shape:
  assumes "dvr_start_all_streams api dev m = Some (dev', m')" "rec_shape dev"
  shows "rec_shape dev'"
  using assms by (auto simp: dvr_start_all_streams_def rec_shape_def dest!: dvr_each_length)

lemma stop_all_shape:
  assumes "dvr_stop_all_streams api dev m = Some (dev', m')" "rec_shape dev"
  shows "rec_shape (dev'\<lparr>recording := False\<rparr>) \<and> stream_cnt dev' = 0 \<and> open_cnt dev' = open_cnt dev"
  using assms by (auto simp: dvr_stop_all_streams_def rec_shape_def dest!: dvr_each_length)

lemma add_streams_shape:
  "length (streams dev) = 32 \<Longrightarrow> stream_cnt dev \<le> 32 \<Longrightarrow>
   length (streams (dvr_add_streams ps dev)) = 32 \<and> stream_cnt (dvr_add_streams ps dev) \<le> 32 \<and>
   open_cnt (dvr_add_streams ps dev) = open_cnt dev"
  unfolding dvr_add_streams_def
  by (induction ps arbitrary: dev) (simp_all add: dvr_add_stream_def)

lemma open_dev_shape: "rec_shape dev \<Longrightarrow> rec_shape (snd (dvr_open_dev n dev))"
  by (auto simp: dvr_open_dev_def rec_shape_def vd_call_def Let_def split: option.splits prod.splits)

lemma close_dev_shape:
  assumes "rec_shape dev" "dvr_close_dev api dev m = Some (dev', m')"
  shows "rec_shape dev'"
  using assms
  by (auto simp: dvr_close_dev_def vd_call_def Let_def rec_shape_def split: if_splits option.splits prod.splits
      dest!: stop_all_shape)

lemma start_dev_shape:
  assumes "rec_shape dev" "dvr_start_dev api para dev m = Some (r, dev', m')"
  shows "rec_shape dev'"
proof (cases "recording dev")
  case False
  with assms(2) obtain dev1 where "dvr_start_all_streams api (dvr_add_streams (rec_pids para) dev) m = Some (dev1, m')"
    "dev' = dev1\<lparr>recording := True, start_para := Some para\<rparr>"
    by (auto simp: dvr_start_dev_def rec_pids_def)
  with assms(1) add_streams_shape [of dev "rec_pids para"] show ?thesis
    by (auto simp: dvr_start_all_streams_def rec_shape_def dest!: dvr_each_length)
qed (use assms in \<open>auto simp: dvr_start_dev_def\<close>)

lemma stop_dev_shape:
  assumes "rec_shape dev" "dvr_stop_dev api dev m = Some (dev', m')"
  shows "rec_shape dev'"
  using assms by (auto simp: dvr_stop_dev_def split: if_splits dest!: stop_all_shape)

lemma rec_step_inv: "rec_step api s s' \<Longrightarrow> rec_devs (fst s) \<Longrightarrow> rec_devs (fst s')"
proof (induction rule: rec_step.induct)
  case (opn n v r v' m)
  show ?case
  proof (cases "dvr_get_dev n")
    case (Inr i)
    then have "i < 2" by (auto simp: dvr_get_dev_def split: if_splits)
    with opn have "rec_shape (snd (dvr_open_dev n (v ! i)))" by (auto intro: open_dev_shape rec_devsD(2))
    with opn Inr show ?thesis by (auto simp: AM_DVR_Open_def intro!: rec_devs_update split: prod.splits)
  qed (use opn in \<open>simp add: AM_DVR_Open_def\<close>)
next
  case (close n v m r v' m')
  show ?case
  proof (cases "dvr_get_dev n")
    case (Inr i)
    then have "i < 2" by (auto simp: dvr_get_dev_def split: if_splits)
    with close Inr show ?thesis
      by (auto simp: AM_DVR_Close_def intro!: rec_devs_update intro: close_dev_shape [OF rec_devsD(2)])
  qed (use close in \<open>simp add: AM_DVR_Close_def\<close>)
next
  case (set_buf n sz v r v' m)
  then show ?case
    by (auto simp: AM_DVR_SetBufferSize_def dvr_drv_op_def openned_dvr split: sum.splits prod.splits option.splits
        intro!: rec_devs_update dest: rec_devsD(2))
next
  case (set_src n s v r v' m)
  then show ?case
    by (auto simp: AM_DVR_SetSource_def dvr_drv_op_def openned_dvr vd_call_def rec_shape_def split: sum.splits prod.splits option.splits
        intro!: rec_devs_update dest: rec_devsD(2))
next
  case (start n para v m r v' m')
  then show ?case
    by (auto simp: AM_DVR_StartRecord_def openned_dvr split: if_splits sum.splits intro!: rec_devs_update
        intro: start_dev_shape [OF rec_devsD(2)])
next
  case (stop n v m r v' m')
  then show ?case
    by (auto simp: AM_DVR_StopRecord_def openned_dvr split: sum.splits intro!: rec_devs_update
        intro: stop_dev_shape [OF rec_devsD(2)])
next
  case (read n sz t v cb v' m)
  then show ?case
    by (auto simp: AM_DVR_Read_def openned_dvr rec_shape_def split: sum.splits prod.splits option.splits if_splits
        intro!: rec_devs_update dest: rec_devsD(2))
qed simp

lemma rec_reach_inv: "rec_reach api s \<Longrightarrow> rec_devs (fst s)"
proof (induction rule: rec_reach.induct)
  case (init D e m)
  then show ?case by (simp add: rec_devs_def dvr_init_def rec_shape_def)
qed (auto intro: rec_step_inv)


subsection \<open>Properties\<close>

lemma dmx_minv_reach:
  "stop_reliable K \<Longrightarrow> dmx_reach (linux_dvb_dmx_drv K) (dvr_dmx_drv K) m \<Longrightarrow> dmx_minv K m"
  by (simp add: dmx_minv_def sys_reach)

lemma rec_idle:
  assumes "rec_reach api (v, m)" "i < 2" "0 < open_cnt (v ! i)" "\<not> recording (v ! i)"
  shows "length v = 2" "length (streams (v ! i)) = 32" "stream_cnt (v ! i) = 0"
  using rec_reach_inv [OF assms(1)] assms(2-4) rec_devsD(1) [of v] rec_devsD(2) [of v i] by (auto simp: rec_shape_def)

text \<open>
  in every run of the recorder, whatever the demux layer and the driver do, both devices keep 32 stream
  slots of which at most 32 are in use, the open counts are not negative, and an open device that is
  not recording has no streams.
\<close>

theorem recorder_table_invariant:
  assumes "rec_reach api (v, m)" "i < 2"
  shows "length v = 2 \<and> length (streams (v ! i)) = 32 \<and> stream_cnt (v ! i) \<le> 32 \<and> 0 \<le> open_cnt (v ! i) \<and>
    (0 < open_cnt (v ! i) \<and> \<not> recording (v ! i) \<longrightarrow> stream_cnt (v ! i) = 0)"
  using rec_reach_inv [OF assms(1)] assms(2) rec_devsD(1) [of v] rec_devsD(2) [of v i] by (auto simp: rec_shape_def)

text \<open>A recorder that was opened, over the demux layer opened before.\<close>

definition rec_opened :: "nat dvr_priv dvr_devices" where
  "rec_opened = snd (AM_DVR_Open 0 (dvr_init (linux_dvb_dvr_drv (quiet_kernel [])) \<lparr>v_fd = 0, v_kern = 3\<rparr>))"

lemma rec_opened_reach: "rec_reach api (rec_opened, m)"
  unfolding rec_opened_def
  by (rule rec_reach.step [OF rec_reach.init rec_step.opn]) (rule prod.collapse [symmetric])

lemma rec_opened_dev [simp]: "0 < open_cnt (rec_opened ! 0)" "\<not> recording (rec_opened ! 0)" "v_dmx_no (rec_opened ! 0) = 0"
  by (simp_all add: rec_opened_def AM_DVR_Open_def dvr_get_dev_def dvr_open_dev_def dvr_init_def vd_call_def
      linux_dvb_dvr_drv_def vdrv_open_def quiet_kernel_def numeral_2_eq_2)

theorem recorder_table_invariant_witness:
  "length rec_opened = 2 \<and> length (streams (rec_opened ! 0)) = 32 \<and> stream_cnt (rec_opened ! 0) = 0"
  using recorder_table_invariant [OF rec_opened_reach, of 0] by simp



text \<open>
  closing a recorder that was opened more than once stops the recording and closes the driver's
  descriptor, although the device stays open for the other users: reading it reads a closed descriptor.
\<close>

theorem nested_close_stops_recording:
  assumes "length v = 2" "i < 2" "1 < open_cnt (v ! i)" "v_drv (v ! i) = linux_dvb_dvr_drv K"
    and "AM_DVR_Close api (int i) v m = Some (r, v', m')"
  shows "r = AM_SUCCESS \<and> dvr_get_openned_dev (int i) v' = Inr i \<and> \<not> recording (v' ! i) \<and> stream_cnt (v' ! i) = 0 \<and>
    v_fd (v_drv_data (v' ! i)) = v_fd (v_drv_data (v ! i)) \<and>
    v_kern (v_drv_data (v' ! i)) = k_close K (v_fd (v_drv_data (v ! i))) (v_kern (v_drv_data (v ! i)))"
proof -
  from assms obtain dev where c: "dvr_close_dev api (v ! i) m = Some (dev, m')" "r = 0" "v' = v[i := dev]"
    by (auto simp: AM_DVR_Close_def dvr_get_dev_def)
  from c(1) assms(3,4) show ?thesis
    unfolding c(2,3) using assms(1,2)
    by (auto simp: dvr_close_dev_def dvr_stop_all_streams_def vd_call_def linux_dvb_dvr_drv_def vdrv_close_def
        openned_dvr Let_def split: option.splits)
qed

theorem nested_close_stops_recording_witness:
  "\<exists>v' m'. AM_DVR_Close adp_dmx_api 0 (snd (AM_DVR_Open 0 rec_opened)) opened_once = Some (0, v', m') \<and>
     dvr_get_openned_dev 0 v' = Inr 0 \<and> \<not> recording (v' ! 0)"
proof -
  let ?v = "snd (AM_DVR_Open 0 rec_opened)"
  have len: "length ?v = 2" "1 < open_cnt (?v ! 0)" "v_drv (?v ! 0) = linux_dvb_dvr_drv (quiet_kernel [])"
    "stream_cnt (?v ! 0) = 0"
    by (simp_all add: rec_opened_def AM_DVR_Open_def dvr_get_dev_def dvr_open_dev_def dvr_init_def vd_call_def
        linux_dvb_dvr_drv_def vdrv_open_def quiet_kernel_def numeral_2_eq_2)
  then obtain v' m' where c: "AM_DVR_Close adp_dmx_api 0 ?v opened_once = Some (0, v', m')"
    by (auto simp: AM_DVR_Close_def dvr_get_dev_def dvr_close_dev_def dvr_stop_all_streams_def Let_def)
  from nested_close_stops_recording [OF len(1) _ len(2,3), of adp_dmx_api opened_once 0 v' m'] c show ?thesis by simp
qed

end
