(* ===== verification/Am_Kl.thy ===== *)
theory Am_Kl
  imports Adp_Prelude
begin

text \<open>
  The key ladder, \<^verbatim>\<open>dvb/am_adp/am_kl/am_kl.c\<close>. It is used with a kernel device or, when the
  secure library can be loaded, only stores the keys for the descrambler. The library and the kernel
  device are not part of the repository: they are the parameter \<open>sec_host\<close>, a record of functions on
  the state \<open>'e\<close> of the outside world.
\<close>

record meson_kl_config =
  ekey5 :: "byte list"
  ekey4 :: "byte list"
  ekey3 :: "byte list"
  ekey2 :: "byte list"
  ekey1 :: "byte list"
  ecw :: "byte list"
  kl_levels :: int

text \<open>The fields of \<^verbatim>\<open>meson_kl_run_args\<close> that are set; \<open>run_keys\<close> are \<^verbatim>\<open>keys[0]\<close> to \<^verbatim>\<open>keys[2]\<close>.\<close>

record meson_kl_run_args =
  run_kl_num :: byte
  run_kl_levels :: byte
  run_keys :: "byte list list"

text \<open>
  The functions of the secure library, as \<^verbatim>\<open>dlsym\<close> finds them: \<open>None\<close> is a missing symbol. The
  key ladder configuration may be indeterminate, which is \<open>None\<close> as well.
\<close>

record 'e sec_lib =
  AM_DSC_SEC_Open :: "(byte \<Rightarrow> 'e \<Rightarrow> errcode \<times> 'e) option"
  AM_DSC_SEC_SetChannelPid :: "(byte \<Rightarrow> int \<Rightarrow> int \<Rightarrow> 'e \<Rightarrow> errcode \<times> 'e) option"
  AM_DSC_SEC_AllocChannel :: "(byte \<Rightarrow> 'e \<Rightarrow> (errcode \<times> byte option) \<times> 'e) option"
  AM_DSC_SEC_FreeChannel :: "(byte \<Rightarrow> int \<Rightarrow> 'e \<Rightarrow> errcode \<times> 'e) option"
  AM_DSC_SEC_SetKey :: "(byte \<Rightarrow> int \<Rightarrow> int \<Rightarrow> int \<Rightarrow> byte list \<Rightarrow> int \<Rightarrow> 32 word \<Rightarrow> 'e \<Rightarrow> errcode \<times> 'e) option"
  AM_DSC_SEC_KeyladderRun :: "(byte \<Rightarrow> int \<Rightarrow> int \<Rightarrow> byte \<Rightarrow> meson_kl_config option \<Rightarrow> 32 word \<Rightarrow> 'e \<Rightarrow> errcode \<times> 'e) option"
  AM_DSC_SEC_KeyladderCR :: "(int \<Rightarrow> byte list \<Rightarrow> 'e \<Rightarrow> errcode \<times> 'e) option"
  AM_DSC_SEC_Close :: "(byte \<Rightarrow> 'e \<Rightarrow> errcode \<times> 'e) option"
  AM_DSC_SEC_SetOutput :: "(int \<Rightarrow> int \<Rightarrow> 'e \<Rightarrow> errcode \<times> 'e) option"

record 'e sec_host =
  h_dlopen :: "'e \<Rightarrow> 'e sec_lib option \<times> 'e"
  h_kl_open :: "'e \<Rightarrow> int \<times> 'e"
  h_kl_close :: "int \<Rightarrow> 'e \<Rightarrow> 'e"
  h_kl_run :: "int \<Rightarrow> meson_kl_run_args \<Rightarrow> 'e \<Rightarrow> bool \<times> 'e"
  h_kl_cr :: "int \<Rightarrow> byte list \<Rightarrow> byte list \<Rightarrow> 'e \<Rightarrow> (bool \<times> byte list) \<times> 'e"

text \<open>
  The statics of \<^verbatim>\<open>am_kl.c\<close>, the number of times the secure library is loaded (by either module;
  it is unloaded when the count drops to 0), and the outside world.
\<close>

record 'e kl_state =
  g_kl_fd :: int
  g_kl_work_mode :: int
  g_kl_lib :: bool
  g_sec_config :: meson_kl_config
  lib_refs :: nat
  os :: 'e

abbreviation (input) DSC_MODE_NORMAL :: int where "DSC_MODE_NORMAL \<equiv> 0"
abbreviation (input) DSC_MODE_SEC :: int where "DSC_MODE_SEC \<equiv> 1"
abbreviation (input) DSC_MODE_MAX :: int where "DSC_MODE_MAX \<equiv> 2"
abbreviation (input) MESON_KL_NUM :: byte where "MESON_KL_NUM \<equiv> 0"

definition kl_get_work_mode :: "('e, 'y) sec_host_scheme \<Rightarrow> ('e, 'z) kl_state_scheme \<Rightarrow> errcode \<times> ('e, 'z) kl_state_scheme" where
  "kl_get_work_mode H st =
     (case h_dlopen H (os st) of
        (None, e) \<Rightarrow> (AM_SUCCESS, st\<lparr>g_kl_lib := False, g_kl_work_mode := DSC_MODE_NORMAL, os := e\<rparr>)
      | (Some _, e) \<Rightarrow> (AM_SUCCESS, st\<lparr>g_kl_lib := True, g_kl_work_mode := DSC_MODE_SEC, lib_refs := lib_refs st + 1, os := e\<rparr>))"

text \<open>\<^verbatim>\<open>None\<close> for the caller's buffer: nothing is written.\<close>

definition am_kl_get_config :: "('e, 'z) kl_state_scheme \<Rightarrow> errcode \<times> meson_kl_config option" where
  "am_kl_get_config st =
     (if g_kl_work_mode st \<noteq> DSC_MODE_SEC then (AM_FAILURE, None) else (AM_SUCCESS, Some (g_sec_config st)))"

definition AM_KL_KeyladderInit :: "('e, 'y) sec_host_scheme \<Rightarrow> ('e, 'z) kl_state_scheme \<Rightarrow> errcode \<times> ('e, 'z) kl_state_scheme" where
  "AM_KL_KeyladderInit H st =
     (case kl_get_work_mode H st of
        (ret, st1) \<Rightarrow>
          if ret \<noteq> AM_SUCCESS then (AM_FAILURE, st1)
          else if g_kl_work_mode st1 = DSC_MODE_NORMAL then
            if g_kl_fd st1 < 0
            then (case h_kl_open H (os st1) of
                    (fd, e) \<Rightarrow> (if fd < 0 then AM_FAILURE else AM_SUCCESS, st1\<lparr>g_kl_fd := fd, os := e\<rparr>))
            else (AM_SUCCESS, st1)
          else (AM_SUCCESS, st1))"

definition AM_KL_KeyladderRelease :: "('e, 'y) sec_host_scheme \<Rightarrow> ('e, 'z) kl_state_scheme \<Rightarrow> ('e, 'z) kl_state_scheme" where
  "AM_KL_KeyladderRelease H st =
     (if g_kl_work_mode st = DSC_MODE_NORMAL
      then if g_kl_fd st \<ge> 0 then st\<lparr>os := h_kl_close H (g_kl_fd st) (os st), g_kl_fd := -1\<rparr> else st
      else if g_kl_lib st then st\<lparr>lib_refs := lib_refs st - 1, g_kl_lib := False\<rparr> else st\<lparr>g_kl_lib := False\<rparr>)"

definition AM_KL_SetKeyladder :: "('e, 'y) sec_host_scheme \<Rightarrow> meson_kl_config \<Rightarrow> ('e, 'z) kl_state_scheme
    \<Rightarrow> errcode \<times> ('e, 'z) kl_state_scheme" where
  "AM_KL_SetKeyladder H c st =
     (if g_kl_work_mode st = DSC_MODE_NORMAL
      then if g_kl_fd st < 0 then (AM_FAILURE, st)
           else if kl_levels c \<noteq> 3 then (AM_FAILURE, st)
           else (case h_kl_run H (g_kl_fd st) \<lparr>run_kl_num = MESON_KL_NUM, run_kl_levels = word_of_int (kl_levels c),
                        run_keys = [ecw c, ekey1 c, ekey2 c]\<rparr> (os st) of
                   (ok, e) \<Rightarrow> (if ok then AM_SUCCESS else AM_FAILURE, st\<lparr>os := e\<rparr>))
      else (AM_SUCCESS, st\<lparr>g_sec_config := (g_sec_config st)\<lparr>ekey2 := ekey2 c, ekey1 := ekey1 c, ecw := ecw c,
                                                         kl_levels := kl_levels c\<rparr>\<rparr>))"

text \<open>\<open>nounce\<close> and \<open>dnounce\<close> are the bytes of the two arrays of 16 words, of which 16 bytes are used.\<close>

definition AM_KL_SetKeyladderCr :: "('e, 'y) sec_host_scheme \<Rightarrow> byte list \<Rightarrow> byte list \<Rightarrow> byte list \<Rightarrow> ('e, 'z) kl_state_scheme
    \<Rightarrow> (errcode \<times> byte list) \<times> ('e, 'z) kl_state_scheme" where
  "AM_KL_SetKeyladderCr H key2 nounce dnounce st =
     (if g_kl_work_mode st = DSC_MODE_NORMAL
      then if g_kl_fd st < 0 then ((AM_FAILURE, dnounce), st)
           else (case h_kl_cr H (g_kl_fd st) (take 16 nounce) key2 (os st) of
                   ((ok, cr), e) \<Rightarrow> ((if ok then AM_SUCCESS else AM_FAILURE, take 16 cr @ drop 16 dnounce), st\<lparr>os := e\<rparr>))
      else ((AM_SUCCESS, dnounce), st))"

end
