(* ===== verification/Am_Dsc.thy ===== *)
theory Am_Dsc
  imports Am_Kl
begin

unbundle bit_operations_syntax

text \<open>
  The descrambler, \<^verbatim>\<open>dvb/am_adp/am_dsc/am_dsc.c\<close>, and its kernel driver
  \<^verbatim>\<open>dvb/am_adp/am_dsc/aml/aml.c\<close>. A device has eight channels. The module works in one of two modes,
  chosen at the first open: with the kernel driver, or with the functions of the secure library. The
  state extends the state of the key ladder, because \<^verbatim>\<open>AM_DSC_SetKey\<close> reads the stored keys. A call
  through a function pointer that is null or points into an unloaded library is undefined: \<open>None\<close>.
\<close>

definition AM_DSC_ERR_INVALID_DEV_NO :: errcode where "AM_DSC_ERR_INVALID_DEV_NO = AM_ERROR_BASE AM_MOD_DSC + 1"
definition AM_DSC_ERR_BUSY :: errcode where "AM_DSC_ERR_BUSY = AM_ERROR_BASE AM_MOD_DSC + 2"
definition AM_DSC_ERR_NOT_ALLOCATED :: errcode where "AM_DSC_ERR_NOT_ALLOCATED = AM_ERROR_BASE AM_MOD_DSC + 3"
definition AM_DSC_ERR_CANNOT_OPEN_DEV :: errcode where "AM_DSC_ERR_CANNOT_OPEN_DEV = AM_ERROR_BASE AM_MOD_DSC + 4"
definition AM_DSC_ERR_NO_FREE_CHAN :: errcode where "AM_DSC_ERR_NO_FREE_CHAN = AM_ERROR_BASE AM_MOD_DSC + 6"
definition AM_DSC_ERR_SYS :: errcode where "AM_DSC_ERR_SYS = AM_ERROR_BASE AM_MOD_DSC + 8"
definition AM_DSC_ERR_INVALID_ID :: errcode where "AM_DSC_ERR_INVALID_ID = AM_ERROR_BASE AM_MOD_DSC + 9"

lemmas dsc_codes [err_code, simp] = AM_DSC_ERR_INVALID_DEV_NO_def AM_DSC_ERR_BUSY_def AM_DSC_ERR_NOT_ALLOCATED_def
  AM_DSC_ERR_CANNOT_OPEN_DEV_def AM_DSC_ERR_NO_FREE_CHAN_def AM_DSC_ERR_SYS_def AM_DSC_ERR_INVALID_ID_def

abbreviation (input) DSC_CHANNEL_COUNT :: nat where "DSC_CHANNEL_COUNT \<equiv> 8"
abbreviation (input) DSC_KEY_ODD :: int where "DSC_KEY_ODD \<equiv> 0"
abbreviation (input) DSC_KEY_EVEN :: int where "DSC_KEY_EVEN \<equiv> 1"
abbreviation (input) AM_DSC_KEY_FROM_KL :: "32 word" where "AM_DSC_KEY_FROM_KL \<equiv> 0x80"

datatype AM_DSC_Source = AM_DSC_SRC_DMX0 | AM_DSC_SRC_DMX1 | AM_DSC_SRC_DMX2 | AM_DSC_SRC_BYPASS

record AM_DSC_Channel =
  c_id :: int
  c_pid :: "16 word"
  c_stream_path :: byte
  c_used :: bool
  c_drv_data :: nat

text \<open>Driver functions get the device number and a copy of the channel; allocation returns the channel.\<close>

record 'e AM_DSC_Driver =
  ds_open :: "(int \<Rightarrow> 'e \<Rightarrow> errcode \<times> 'e) option"
  ds_alloc_chan :: "(int \<Rightarrow> AM_DSC_Channel \<Rightarrow> 'e \<Rightarrow> (errcode \<times> AM_DSC_Channel) \<times> 'e) option"
  ds_free_chan :: "(int \<Rightarrow> AM_DSC_Channel \<Rightarrow> 'e \<Rightarrow> errcode \<times> 'e) option"
  ds_set_pid :: "(int \<Rightarrow> AM_DSC_Channel \<Rightarrow> 16 word \<Rightarrow> 'e \<Rightarrow> errcode \<times> 'e) option"
  ds_set_key :: "(int \<Rightarrow> AM_DSC_Channel \<Rightarrow> 32 word \<Rightarrow> byte list \<Rightarrow> 'e \<Rightarrow> errcode \<times> 'e) option"
  ds_set_source :: "(int \<Rightarrow> AM_DSC_Source \<Rightarrow> 'e \<Rightarrow> errcode \<times> 'e) option"
  ds_close :: "(int \<Rightarrow> 'e \<Rightarrow> errcode \<times> 'e) option"

record 'e AM_DSC_Device =
  s_dev_no :: int
  s_drv :: "'e AM_DSC_Driver"
  channels :: "AM_DSC_Channel list"
  openned :: bool

text \<open>The kernel and the C library, for the descrambler.\<close>

record 'e dsc_host = "'e sec_host" +
  h_dsc_max :: "'e \<Rightarrow> string option \<times> 'e"
  h_malloc :: "'e \<Rightarrow> bool \<times> 'e"
  h_open :: "string \<Rightarrow> 'e \<Rightarrow> nat option \<times> 'e"
  h_close :: "nat \<Rightarrow> 'e \<Rightarrow> 'e"
  h_set_pid :: "nat \<Rightarrow> 16 word \<Rightarrow> 'e \<Rightarrow> bool \<times> 'e"
  h_set_key :: "nat \<Rightarrow> 32 word \<Rightarrow> byte list \<Rightarrow> 'e \<Rightarrow> bool \<times> 'e"
  h_key_size :: nat
  h_echo :: "string \<Rightarrow> string \<Rightarrow> 'e \<Rightarrow> errcode \<times> 'e"

text \<open>
  The statics of \<^verbatim>\<open>am_dsc.c\<close>: \<open>dsc_num\<close> and \<open>dsc_inited\<close> are those of \<^verbatim>\<open>dsc_init_dev_db\<close>,
  \<open>dsc_fns\<close> are the function pointers.
\<close>

record 'e dsc_state = "'e kl_state" +
  dsc_num :: int
  dsc_inited :: bool
  dsc_devices :: "'e AM_DSC_Device list"
  g_dsc_sec_mode :: int
  g_dsc_sec_lib_handle :: bool
  dsc_fns :: "'e sec_lib"

subsection \<open>The kernel driver\<close>

text \<open>The decimal representation that \<^verbatim>\<open>snprintf\<close> writes for a device number.\<close>

fun dec_digits :: "nat \<Rightarrow> string" where
  "dec_digits n = (if n < 10 then [char_of (48 + n)] else dec_digits (n div 10) @ [char_of (48 + n mod 10)])"

declare dec_digits.simps [simp del]

definition aml_open :: "int \<Rightarrow> 'e \<Rightarrow> errcode \<times> 'e" where
  "aml_open n e = (AM_SUCCESS, e)"

definition aml_alloc_chan :: "'e dsc_host \<Rightarrow> int \<Rightarrow> AM_DSC_Channel \<Rightarrow> 'e \<Rightarrow> (errcode \<times> AM_DSC_Channel) \<times> 'e" where
  "aml_alloc_chan H n ch e =
     (case h_open H (''/dev/dvb0.dsc'' @ dec_digits (nat n)) e of
        (None, e1) \<Rightarrow> ((AM_DSC_ERR_CANNOT_OPEN_DEV, ch), e1)
      | (Some fd, e1) \<Rightarrow> ((AM_SUCCESS, ch\<lparr>c_drv_data := fd\<rparr>), e1))"

definition aml_free_chan :: "'e dsc_host \<Rightarrow> int \<Rightarrow> AM_DSC_Channel \<Rightarrow> 'e \<Rightarrow> errcode \<times> 'e" where
  "aml_free_chan H n ch e = (AM_SUCCESS, h_close H (c_drv_data ch) e)"

definition aml_set_pid :: "'e dsc_host \<Rightarrow> int \<Rightarrow> AM_DSC_Channel \<Rightarrow> 16 word \<Rightarrow> 'e \<Rightarrow> errcode \<times> 'e" where
  "aml_set_pid H n ch p e =
     (case h_set_pid H (c_drv_data ch) p e of (ok, e1) \<Rightarrow> (if ok then AM_SUCCESS else AM_DSC_ERR_SYS, e1))"

text \<open>The size of the key field is that of the kernel's \<^verbatim>\<open>am_dsc_key\<close>.\<close>

definition aml_set_key :: "'e dsc_host \<Rightarrow> int \<Rightarrow> AM_DSC_Channel \<Rightarrow> 32 word \<Rightarrow> byte list \<Rightarrow> 'e \<Rightarrow> errcode \<times> 'e" where
  "aml_set_key H n ch t key e =
     (case h_set_key H (c_drv_data ch) t (take (h_key_size H) key) e of
        (ok, e1) \<Rightarrow> (if ok then AM_SUCCESS else AM_DSC_ERR_SYS, e1))"

definition dsc_source_name :: "AM_DSC_Source \<Rightarrow> string" where
  "dsc_source_name s =
     (case s of
        AM_DSC_SRC_DMX0 \<Rightarrow> ''dmx0''
      | AM_DSC_SRC_DMX1 \<Rightarrow> ''dmx1''
      | AM_DSC_SRC_DMX2 \<Rightarrow> ''dmx2''
      | AM_DSC_SRC_BYPASS \<Rightarrow> ''bypass'')"

definition aml_set_source :: "'e dsc_host \<Rightarrow> int \<Rightarrow> AM_DSC_Source \<Rightarrow> 'e \<Rightarrow> errcode \<times> 'e" where
  "aml_set_source H n s e =
     h_echo H (''/sys/class/stb/dsc'' @ dec_digits (nat n) @ ''_source'') (dsc_source_name s) e"

definition aml_close :: "int \<Rightarrow> 'e \<Rightarrow> errcode \<times> 'e" where
  "aml_close n e = (AM_SUCCESS, e)"

definition aml_dsc_drv :: "'e dsc_host \<Rightarrow> 'e AM_DSC_Driver" where
  "aml_dsc_drv H = \<lparr>ds_open = Some aml_open, ds_alloc_chan = Some (aml_alloc_chan H), ds_free_chan = Some (aml_free_chan H),
     ds_set_pid = Some (aml_set_pid H), ds_set_key = Some (aml_set_key H), ds_set_source = Some (aml_set_source H),
     ds_close = Some aml_close\<rparr>"

subsection \<open>The work mode\<close>

text \<open>
  \<^verbatim>\<open>get_functions\<close> fetches the pointers and returns \<^verbatim>\<open>AM_FALSE\<close>, which is 0, when one is
  missing, and \<^verbatim>\<open>AM_SUCCESS\<close>, which is 0, when none is.
\<close>

definition get_functions :: "'e sec_lib \<Rightarrow> 'e dsc_state \<Rightarrow> errcode \<times> 'e dsc_state" where
  "get_functions L st =
     (if AM_DSC_SEC_Open L = None \<or> AM_DSC_SEC_SetChannelPid L = None \<or> AM_DSC_SEC_AllocChannel L = None \<or>
         AM_DSC_SEC_FreeChannel L = None \<or> AM_DSC_SEC_SetKey L = None \<or> AM_DSC_SEC_KeyladderRun L = None \<or>
         AM_DSC_SEC_KeyladderCR L = None \<or> AM_DSC_SEC_SetOutput L = None
      then (0, st\<lparr>dsc_fns := L\<rparr>)
      else (AM_SUCCESS, st\<lparr>dsc_fns := L\<rparr>))"

definition dsc_get_work_mode :: "'e dsc_host \<Rightarrow> 'e dsc_state \<Rightarrow> errcode \<times> 'e dsc_state" where
  "dsc_get_work_mode H st =
     (if g_dsc_sec_mode st = DSC_MODE_MAX
      then (case h_dlopen H (os st) of
              (None, e) \<Rightarrow> (AM_SUCCESS, st\<lparr>os := e, g_dsc_sec_lib_handle := False, g_dsc_sec_mode := DSC_MODE_NORMAL\<rparr>)
            | (Some L, e) \<Rightarrow>
                (case get_functions L (st\<lparr>os := e, g_dsc_sec_lib_handle := True, lib_refs := lib_refs st + 1,
                                         g_dsc_sec_mode := DSC_MODE_SEC\<rparr>) of
                   (r, st1) \<Rightarrow> (AM_SUCCESS, if r \<noteq> AM_SUCCESS then st1\<lparr>g_dsc_sec_mode := DSC_MODE_NORMAL\<rparr> else st1)))
      else (AM_SUCCESS, st))"

text \<open>A call through one of the pointers.\<close>

definition sec_call :: "('e sec_lib \<Rightarrow> 'f option) \<Rightarrow> ('f \<Rightarrow> 'e \<Rightarrow> 'r \<times> 'e) \<Rightarrow> 'e dsc_state \<Rightarrow> ('r \<times> 'e dsc_state) option" where
  "sec_call fld app st =
     (case fld (dsc_fns st) of
        None \<Rightarrow> None
      | Some f \<Rightarrow> if lib_refs st = 0 then None else (case app f (os st) of (r, e) \<Rightarrow> Some (r, st\<lparr>os := e\<rparr>)))"

subsection \<open>Devices and channels\<close>

text \<open>The conversion \<^verbatim>\<open>%d\<close> of \<^verbatim>\<open>sscanf\<close>.\<close>

definition is_space :: "char \<Rightarrow> bool" where
  "is_space c \<longleftrightarrow> c = CHR '' '' \<or> (9 \<le> (of_char c :: nat) \<and> (of_char c :: nat) \<le> 13)"

definition is_digit :: "char \<Rightarrow> bool" where
  "is_digit c \<longleftrightarrow> 48 \<le> (of_char c :: nat) \<and> (of_char c :: nat) \<le> 57"

definition scan_digits :: "string \<Rightarrow> int option" where
  "scan_digits s =
     (let ds = takeWhile is_digit s
      in if ds = [] then None else Some (fold (\<lambda>c a. 10 * a + (of_char c - 48)) ds 0))"

definition scan_int :: "string \<Rightarrow> int option" where
  "scan_int s =
     (case dropWhile is_space s of
        [] \<Rightarrow> None
      | c # cs \<Rightarrow> if c = CHR ''-'' then map_option uminus (scan_digits cs)
                  else if c = CHR ''+'' then scan_digits cs else scan_digits (c # cs))"

definition dsc_chan0 :: AM_DSC_Channel where
  "dsc_chan0 = \<lparr>c_id = 0, c_pid = 0, c_stream_path = 0, c_used = False, c_drv_data = 0\<rparr>"

definition dsc_dev0 :: "'e dsc_host \<Rightarrow> 'e AM_DSC_Device" where
  "dsc_dev0 H = \<lparr>s_dev_no = 0, s_drv = aml_dsc_drv H, channels = replicate DSC_CHANNEL_COUNT dsc_chan0, openned = False\<rparr>"

text \<open>A negative number of devices makes the size of the allocation huge: it fails.\<close>

definition dsc_init_dev_db :: "'e dsc_host \<Rightarrow> 'e dsc_state \<Rightarrow> (errcode \<times> int) \<times> 'e dsc_state" where
  "dsc_init_dev_db H st =
     (if dsc_inited st then ((AM_SUCCESS, dsc_num st), st)
      else case h_dsc_max H (os st) of
             (txt, e1) \<Rightarrow>
               (let num = (case txt of None \<Rightarrow> 1 | Some s \<Rightarrow> (case scan_int s of None \<Rightarrow> dsc_num st | Some x \<Rightarrow> x))
                in if num \<noteq> 0
                   then (case h_malloc H e1 of
                           (ok, e2) \<Rightarrow>
                             if num < 0 \<or> \<not> ok
                             then ((AM_DSC_ERR_NOT_ALLOCATED, 0), st\<lparr>os := e2, dsc_num := num, dsc_devices := []\<rparr>)
                             else ((AM_SUCCESS, num), st\<lparr>os := e2, dsc_num := num, dsc_inited := True,
                                     dsc_devices := replicate (nat num) (dsc_dev0 H)\<rparr>))
                   else ((AM_SUCCESS, num), st\<lparr>os := e1, dsc_num := num, dsc_inited := True\<rparr>)))"

definition dsc_get_dev :: "'e dsc_host \<Rightarrow> int \<Rightarrow> 'e dsc_state \<Rightarrow> (errcode + nat) \<times> 'e dsc_state" where
  "dsc_get_dev H n st =
     (case dsc_init_dev_db H st of
        ((r, cnt), st1) \<Rightarrow>
          if r \<noteq> AM_SUCCESS then (Inl r, st1)
          else if n < 0 \<or> n \<ge> cnt then (Inl AM_DSC_ERR_INVALID_DEV_NO, st1)
          else (Inr (nat n), st1))"

definition dsc_get_openned_dev :: "'e dsc_host \<Rightarrow> int \<Rightarrow> 'e dsc_state \<Rightarrow> (errcode + nat) \<times> 'e dsc_state" where
  "dsc_get_openned_dev H n st =
     (case dsc_get_dev H n st of
        (Inl e, st1) \<Rightarrow> (Inl e, st1)
      | (Inr i, st1) \<Rightarrow> (if openned (dsc_devices st1 ! i) then Inr i else Inl AM_DSC_ERR_INVALID_DEV_NO, st1))"

definition dsc_get_used_chan :: "'e AM_DSC_Device \<Rightarrow> int \<Rightarrow> errcode + nat" where
  "dsc_get_used_chan dev h =
     (if h < 0 \<or> h \<ge> int DSC_CHANNEL_COUNT then Inl AM_DSC_ERR_INVALID_ID
      else if c_used (channels dev ! nat h) then Inr (nat h) else Inl AM_DSC_ERR_NOT_ALLOCATED)"

text \<open>Updating a device, and a channel of a device.\<close>

definition upd_dsc :: "nat \<Rightarrow> ('e AM_DSC_Device \<Rightarrow> 'e AM_DSC_Device) \<Rightarrow> 'e dsc_state \<Rightarrow> 'e dsc_state" where
  "upd_dsc i f st = st\<lparr>dsc_devices := (dsc_devices st)[i := f (dsc_devices st ! i)]\<rparr>"

definition upd_chan :: "nat \<Rightarrow> nat \<Rightarrow> (AM_DSC_Channel \<Rightarrow> AM_DSC_Channel) \<Rightarrow> 'e dsc_state \<Rightarrow> 'e dsc_state" where
  "upd_chan i j f = upd_dsc i (\<lambda>dev. dev\<lparr>channels := (channels dev)[j := f (channels dev ! j)]\<rparr>)"

text \<open>\<^verbatim>\<open>if (dev->drv->f) ret = dev->drv->f(dev, ...)\<close> with \<^verbatim>\<open>ret\<close> 0 before.\<close>

definition ds_call :: "('e \<Rightarrow> errcode \<times> 'e) option \<Rightarrow> 'e dsc_state \<Rightarrow> errcode \<times> 'e dsc_state" where
  "ds_call f st = (case f of None \<Rightarrow> (AM_SUCCESS, st) | Some g \<Rightarrow> (case g (os st) of (r, e) \<Rightarrow> (r, st\<lparr>os := e\<rparr>)))"

definition dsc_free_chan :: "nat \<Rightarrow> nat \<Rightarrow> 'e dsc_state \<Rightarrow> errcode \<times> 'e dsc_state" where
  "dsc_free_chan i j st =
     (let dev = dsc_devices st ! i; ch = channels dev ! j
      in if \<not> c_used ch then (AM_SUCCESS, st)
         else (AM_SUCCESS, upd_chan i j (\<lambda>c. c\<lparr>c_used := False\<rparr>)
                 (snd (ds_call (map_option (\<lambda>f. f (s_dev_no dev) ch) (ds_free_chan (s_drv dev))) st))))"

subsection \<open>The interface\<close>

definition dsc_open_mode :: "int \<Rightarrow> nat \<Rightarrow> 'e dsc_state \<Rightarrow> (errcode \<times> 'e dsc_state) option" where
  "dsc_open_mode n i st =
     (if g_dsc_sec_mode st = DSC_MODE_NORMAL \<and> ds_open (s_drv (dsc_devices st ! i)) \<noteq> None
      then Some (ds_call (map_option (\<lambda>f. f n) (ds_open (s_drv (dsc_devices st ! i)))) st)
      else sec_call AM_DSC_SEC_Open (\<lambda>f. f (word_of_int n)) st)"

definition AM_DSC_Open :: "'e dsc_host \<Rightarrow> int \<Rightarrow> 'e dsc_state \<Rightarrow> (errcode \<times> 'e dsc_state) option" where
  "AM_DSC_Open H n st =
     (case dsc_get_dev H n st of
        (Inl e, st1) \<Rightarrow> Some (e, st1)
      | (Inr i, st1) \<Rightarrow>
          (case dsc_get_work_mode H st1 of
             (r, st2) \<Rightarrow>
               if r \<noteq> AM_SUCCESS then Some (AM_FAILURE, st2)
               else if openned (dsc_devices st2 ! i) then Some (AM_DSC_ERR_BUSY, st2)
               else map_option (\<lambda>(r, st3). (r, if r = AM_SUCCESS then upd_dsc i (\<lambda>dev. dev\<lparr>openned := True\<rparr>) st3 else st3))
                      (dsc_open_mode n i (upd_dsc i (\<lambda>dev. dev\<lparr>s_dev_no := n\<rparr>) st2))))"

text \<open>
  Allocation on an open device: \<open>i\<close> the device, \<open>j\<close> the first free channel. The number returned through
  \<^verbatim>\<open>chan_id\<close> is \<open>j\<close> in every case.
\<close>

definition dsc_alloc_slot :: "int \<Rightarrow> nat \<Rightarrow> nat \<Rightarrow> 'e dsc_state \<Rightarrow> (errcode \<times> 'e dsc_state) option" where
  "dsc_alloc_slot n i j st =
     (let st1 = upd_chan i j (\<lambda>c. c\<lparr>c_id := int j, c_pid := 0xFFFF, c_used := True\<rparr>) st;
          dev = dsc_devices st1 ! i
      in if g_dsc_sec_mode st = DSC_MODE_NORMAL
         then Some (case ds_alloc_chan (s_drv dev) of
                      None \<Rightarrow> (AM_SUCCESS, st1)
                    | Some f \<Rightarrow> (case f (s_dev_no dev) (channels dev ! j) (os st1) of
                                   ((r, ch), e) \<Rightarrow> (r, upd_chan i j (\<lambda>_. ch) (st1\<lparr>os := e\<rparr>))))
         else if g_dsc_sec_mode st = DSC_MODE_SEC
         then map_option (\<lambda>((r, p), st2). (r, case p of None \<Rightarrow> st2 | Some x \<Rightarrow> upd_chan i j (\<lambda>c. c\<lparr>c_stream_path := x\<rparr>) st2))
                (sec_call AM_DSC_SEC_AllocChannel (\<lambda>f. f (word_of_int n)) st1)
         else Some (AM_FAILURE, st1))"

definition AM_DSC_AllocateChannel :: "'e dsc_host \<Rightarrow> int \<Rightarrow> 'e dsc_state \<Rightarrow> ((errcode \<times> nat option) \<times> 'e dsc_state) option" where
  "AM_DSC_AllocateChannel H n st =
     (case dsc_get_openned_dev H n st of
        (Inl e, st1) \<Rightarrow> Some ((e, None), st1)
      | (Inr i, st1) \<Rightarrow>
          (let j = first_idx (\<lambda>c. \<not> c_used c) (channels (dsc_devices st1 ! i))
           in if j \<ge> DSC_CHANNEL_COUNT then Some ((AM_DSC_ERR_NO_FREE_CHAN, Some j), st1)
              else map_option (\<lambda>(r, st2). ((r, Some j), if r \<noteq> AM_SUCCESS then upd_chan i j (\<lambda>c. c\<lparr>c_used := False\<rparr>) st2 else st2))
                     (dsc_alloc_slot n i j st1)))"

definition AM_DSC_SetChannelPID :: "'e dsc_host \<Rightarrow> int \<Rightarrow> int \<Rightarrow> 16 word \<Rightarrow> 'e dsc_state \<Rightarrow> errcode \<times> 'e dsc_state" where
  "AM_DSC_SetChannelPID H n h p st =
     (case dsc_get_openned_dev H n st of
        (Inl e, st1) \<Rightarrow> (e, st1)
      | (Inr i, st1) \<Rightarrow>
          (let dev = dsc_devices st1 ! i
           in case dsc_get_used_chan dev h of
                Inl e \<Rightarrow> (e, st1)
              | Inr j \<Rightarrow>
                  (case (if g_dsc_sec_mode st1 = DSC_MODE_NORMAL
                         then ds_call (map_option (\<lambda>f. f (s_dev_no dev) (channels dev ! j) p) (ds_set_pid (s_drv dev))) st1
                         else (AM_SUCCESS, st1)) of
                     (r, st2) \<Rightarrow> (r, if r = AM_SUCCESS then upd_chan i j (\<lambda>c. c\<lparr>c_pid := p\<rparr>) st2 else st2))))"

text \<open>The parity for the secure library; other types leave the initial value 0.\<close>

definition key_parity :: "32 word \<Rightarrow> int" where
  "key_parity t =
     (let k = t AND NOT AM_DSC_KEY_FROM_KL
      in if k = 1 then DSC_KEY_ODD
         else if k = 3 \<or> k = 5 then DSC_KEY_ODD
         else if k = 0 then DSC_KEY_EVEN
         else if k = 2 \<or> k = 4 then DSC_KEY_EVEN
         else 0)"

definition dsc_sec_set_key :: "int \<Rightarrow> AM_DSC_Channel \<Rightarrow> 32 word \<Rightarrow> byte list \<Rightarrow> 'e dsc_state \<Rightarrow> (errcode \<times> 'e dsc_state) option" where
  "dsc_sec_set_key n ch t key st =
     (if t AND AM_DSC_KEY_FROM_KL \<noteq> 0
      then sec_call AM_DSC_SEC_KeyladderRun (\<lambda>f. f (word_of_int n) (uint (c_stream_path ch)) (uint (c_pid ch))
             (word_of_int (key_parity t)) (snd (am_kl_get_config st)) t) st
      else sec_call AM_DSC_SEC_SetKey (\<lambda>f. f (word_of_int n) (uint (c_stream_path ch)) (uint (c_pid ch))
             (key_parity t) key 16 t) st)"

definition AM_DSC_SetKey :: "'e dsc_host \<Rightarrow> int \<Rightarrow> int \<Rightarrow> 32 word \<Rightarrow> byte list \<Rightarrow> 'e dsc_state
    \<Rightarrow> (errcode \<times> 'e dsc_state) option" where
  "AM_DSC_SetKey H n h t key st =
     (if n > 0 \<and> (t AND NOT AM_DSC_KEY_FROM_KL) > 1 then Some (AM_FAILURE, st)
      else case dsc_get_openned_dev H n st of
             (Inl e, st1) \<Rightarrow> Some (e, st1)
           | (Inr i, st1) \<Rightarrow>
               (let dev = dsc_devices st1 ! i
                in case dsc_get_used_chan dev h of
                     Inl e \<Rightarrow> Some (e, st1)
                   | Inr j \<Rightarrow>
                       if g_dsc_sec_mode st1 = DSC_MODE_NORMAL
                       then Some (ds_call (map_option (\<lambda>f. f (s_dev_no dev) (channels dev ! j) t key) (ds_set_key (s_drv dev))) st1)
                       else if g_dsc_sec_mode st1 = DSC_MODE_SEC then dsc_sec_set_key n (channels dev ! j) t key st1
                       else Some (AM_FAILURE, st1)))"

definition AM_DSC_FreeChannel :: "'e dsc_host \<Rightarrow> int \<Rightarrow> int \<Rightarrow> 'e dsc_state \<Rightarrow> (errcode \<times> 'e dsc_state) option" where
  "AM_DSC_FreeChannel H n h st =
     (case dsc_get_openned_dev H n st of
        (Inl e, st1) \<Rightarrow> Some (e, st1)
      | (Inr i, st1) \<Rightarrow>
          (let dev = dsc_devices st1 ! i
           in case dsc_get_used_chan dev h of
                Inl e \<Rightarrow> Some (e, st1)
              | Inr j \<Rightarrow>
                  map_option (\<lambda>(r, st2). (r, upd_chan i j (\<lambda>c. c\<lparr>c_used := False\<rparr>) st2))
                    (if g_dsc_sec_mode st1 = DSC_MODE_NORMAL then Some (dsc_free_chan i j st1)
                     else if g_dsc_sec_mode st1 = DSC_MODE_SEC
                     then sec_call AM_DSC_SEC_FreeChannel (\<lambda>f. f (word_of_int n) (uint (c_stream_path (channels dev ! j)))) st1
                     else Some (AM_FAILURE, st1))))"

text \<open>The loop of \<^verbatim>\<open>AM_DSC_Close\<close> over the channels \<open>js\<close>; the result is that of the last call.\<close>

fun dsc_free_chans :: "int \<Rightarrow> nat \<Rightarrow> nat list \<Rightarrow> errcode \<Rightarrow> 'e dsc_state \<Rightarrow> (errcode \<times> 'e dsc_state) option" where
  "dsc_free_chans n i [] ret st = Some (ret, st)"
| "dsc_free_chans n i (j # js) ret st =
     (if g_dsc_sec_mode st = DSC_MODE_NORMAL then dsc_free_chans n i js ret (snd (dsc_free_chan i j st))
      else if g_dsc_sec_mode st = DSC_MODE_SEC
      then (case sec_call AM_DSC_SEC_FreeChannel
                   (\<lambda>f. f (word_of_int n) (uint (c_stream_path (channels (dsc_devices st ! i) ! j)))) st of
              None \<Rightarrow> None
            | Some (r, st1) \<Rightarrow> dsc_free_chans n i js r st1)
      else dsc_free_chans n i js AM_FAILURE st)"

definition dsc_close_mode :: "int \<Rightarrow> nat \<Rightarrow> errcode \<Rightarrow> 'e dsc_state \<Rightarrow> (errcode \<times> 'e dsc_state) option" where
  "dsc_close_mode n i ret st =
     (let dev = dsc_devices st ! i
      in if g_dsc_sec_mode st = DSC_MODE_NORMAL
         then Some (ret, snd (ds_call (map_option (\<lambda>f. f (s_dev_no dev)) (ds_close (s_drv dev))) st))
         else if g_dsc_sec_mode st = DSC_MODE_SEC
         then map_option (\<lambda>(r, st1). (r, if g_dsc_sec_lib_handle st1
                  then st1\<lparr>lib_refs := lib_refs st1 - 1, g_dsc_sec_lib_handle := False\<rparr> else st1))
                (sec_call AM_DSC_SEC_Close (\<lambda>f. f (word_of_int n)) st)
         else Some (AM_FAILURE, st))"

definition AM_DSC_Close :: "'e dsc_host \<Rightarrow> int \<Rightarrow> 'e dsc_state \<Rightarrow> (errcode \<times> 'e dsc_state) option" where
  "AM_DSC_Close H n st =
     (case dsc_get_openned_dev H n st of
        (Inl e, st1) \<Rightarrow> Some (e, st1)
      | (Inr i, st1) \<Rightarrow>
          (case dsc_free_chans n i [0 ..< DSC_CHANNEL_COUNT] AM_SUCCESS st1 of
             None \<Rightarrow> None
           | Some (r, st2) \<Rightarrow>
               map_option (\<lambda>(r, st3). (r, (upd_dsc i (\<lambda>dev. dev\<lparr>openned := False\<rparr>) st3)\<lparr>g_dsc_sec_mode := -1\<rparr>))
                 (dsc_close_mode n i r st2)))"

definition AM_DSC_SetOutput :: "int \<Rightarrow> int \<Rightarrow> 'e dsc_state \<Rightarrow> (errcode \<times> 'e dsc_state) option" where
  "AM_DSC_SetOutput n dst st =
     (if g_dsc_sec_mode st = DSC_MODE_SEC
      then map_option (\<lambda>(_, st1). (AM_SUCCESS, st1)) (sec_call AM_DSC_SEC_SetOutput (\<lambda>f. f n dst) st)
      else Some (AM_SUCCESS, st))"

definition src_index :: "AM_DSC_Source \<Rightarrow> nat" where
  "src_index s = (case s of AM_DSC_SRC_DMX0 \<Rightarrow> 0 | AM_DSC_SRC_DMX1 \<Rightarrow> 1 | AM_DSC_SRC_DMX2 \<Rightarrow> 2 | AM_DSC_SRC_BYPASS \<Rightarrow> 3)"

definition AM_DSC_SetSource :: "'e dsc_host \<Rightarrow> int \<Rightarrow> AM_DSC_Source \<Rightarrow> 'e dsc_state \<Rightarrow> (errcode \<times> 'e dsc_state) option" where
  "AM_DSC_SetSource H n s st =
     (case dsc_get_openned_dev H n st of
        (Inl e, st1) \<Rightarrow> Some (e, st1)
      | (Inr i, st1) \<Rightarrow>
          (case ds_call (map_option (\<lambda>f. f (s_dev_no (dsc_devices st1 ! i)) s) (ds_set_source (s_drv (dsc_devices st1 ! i)))) st1 of
             (r, st2) \<Rightarrow>
               if g_dsc_sec_mode st2 = DSC_MODE_SEC
               then map_option (\<lambda>(_, st3). (r, st3)) (sec_call AM_DSC_SEC_SetOutput (\<lambda>f. f n (push_bit (src_index s) 1)) st2)
               else Some (r, st2)))"

end
