(* ===== verification/Dsc_Facts.thy ===== *)
theory Dsc_Facts
  imports Am_Dsc
begin

text \<open>
  Properties of the descrambler: the runs of the module together with the key ladder, the invariant
  of its tables and of its mode, when a call is defined, the functional behaviour of the channel
  operations, and what closing a device does to the others.
\<close>

subsection \<open>Runs\<close>

definition no_lib :: "'e sec_lib" where
  "no_lib = \<lparr>AM_DSC_SEC_Open = None, AM_DSC_SEC_SetChannelPid = None, AM_DSC_SEC_AllocChannel = None,
     AM_DSC_SEC_FreeChannel = None, AM_DSC_SEC_SetKey = None, AM_DSC_SEC_KeyladderRun = None,
     AM_DSC_SEC_KeyladderCR = None, AM_DSC_SEC_Close = None, AM_DSC_SEC_SetOutput = None\<rparr>"

definition kl_config0 :: meson_kl_config where
  "kl_config0 = \<lparr>ekey5 = replicate 16 0, ekey4 = replicate 16 0, ekey3 = replicate 16 0, ekey2 = replicate 16 0,
     ekey1 = replicate 16 0, ecw = replicate 16 0, kl_levels = 0\<rparr>"

definition dsc_init :: "'e \<Rightarrow> 'e dsc_state" where
  "dsc_init e = \<lparr>g_kl_fd = -1, g_kl_work_mode = 0, g_kl_lib = False, g_sec_config = kl_config0, lib_refs = 0, os = e,
     dsc_num = 1, dsc_inited = False, dsc_devices = [], g_dsc_sec_mode = DSC_MODE_MAX, g_dsc_sec_lib_handle = False,
     dsc_fns = no_lib\<rparr>"

inductive dsc_step :: "'e dsc_host \<Rightarrow> 'e dsc_state \<Rightarrow> 'e dsc_state \<Rightarrow> bool" for H where
  opn: "AM_DSC_Open H n st = Some (r, st') \<Longrightarrow> dsc_step H st st'"
| alloc: "AM_DSC_AllocateChannel H n st = Some (r, st') \<Longrightarrow> dsc_step H st st'"
| set_pid: "AM_DSC_SetChannelPID H n h p st = (r, st') \<Longrightarrow> dsc_step H st st'"
| set_key: "AM_DSC_SetKey H n h t key st = Some (r, st') \<Longrightarrow> dsc_step H st st'"
| free: "AM_DSC_FreeChannel H n h st = Some (r, st') \<Longrightarrow> dsc_step H st st'"
| close: "AM_DSC_Close H n st = Some (r, st') \<Longrightarrow> dsc_step H st st'"
| set_source: "AM_DSC_SetSource H n s st = Some (r, st') \<Longrightarrow> dsc_step H st st'"
| set_output: "AM_DSC_SetOutput n d st = Some (r, st') \<Longrightarrow> dsc_step H st st'"
| kl_init: "AM_KL_KeyladderInit H st = (r, st') \<Longrightarrow> dsc_step H st st'"
| kl_release: "dsc_step H st (AM_KL_KeyladderRelease H st)"
| kl_set: "AM_KL_SetKeyladder H c st = (r, st') \<Longrightarrow> dsc_step H st st'"
| kl_cr: "AM_KL_SetKeyladderCr H k2 nn dn st = (r, st') \<Longrightarrow> dsc_step H st st'"

inductive dsc_reach :: "'e dsc_host \<Rightarrow> 'e dsc_state \<Rightarrow> bool" for H where
  init: "dsc_reach H (dsc_init e)"
| step: "dsc_reach H st \<Longrightarrow> dsc_step H st st' \<Longrightarrow> dsc_reach H st'"

subsection \<open>The invariant\<close>

definition chans_ok :: "AM_DSC_Channel list \<Rightarrow> bool" where
  "chans_ok chs \<longleftrightarrow> length chs = DSC_CHANNEL_COUNT \<and> (\<forall>j < DSC_CHANNEL_COUNT. c_used (chs ! j) \<longrightarrow> c_id (chs ! j) = int j)"

definition dsc_dev_ok :: "'e dsc_host \<Rightarrow> 'e AM_DSC_Device \<Rightarrow> bool" where
  "dsc_dev_ok H dev \<longleftrightarrow> s_drv dev = aml_dsc_drv H \<and> chans_ok (channels dev)"

definition dsc_tab :: "'e dsc_host \<Rightarrow> 'e dsc_state \<Rightarrow> bool" where
  "dsc_tab H st \<longleftrightarrow> length (dsc_devices st) = (if dsc_inited st then nat (dsc_num st) else 0) \<and>
     (dsc_inited st \<longrightarrow> 0 \<le> dsc_num st) \<and> (\<forall>dev \<in> set (dsc_devices st). dsc_dev_ok H dev)"

text \<open>
  The mode, the function pointers and the references to the library: \<open>m\<close> the mode, \<open>L\<close> the pointers,
  \<open>h\<close> whether the module holds the library, \<open>k\<close> whether the key ladder does, \<open>c\<close> the reference count.
\<close>

definition mode_ok :: "'e dsc_host \<Rightarrow> int \<Rightarrow> 'e sec_lib \<Rightarrow> bool \<Rightarrow> bool \<Rightarrow> nat \<Rightarrow> bool" where
  "mode_ok H m L h k c \<longleftrightarrow> (m = -1 \<or> m = 0 \<or> m = 1 \<or> m = 2) \<and> (m = 0 \<or> m = 2 \<longrightarrow> L = no_lib) \<and>
     (m = 1 \<longrightarrow> (\<exists>e e'. h_dlopen H e = (Some L, e'))) \<and> h = (m = 1) \<and> of_bool h + of_bool k \<le> c"

definition dsc_mode :: "'e dsc_host \<Rightarrow> 'e dsc_state \<Rightarrow> bool" where
  "dsc_mode H st \<longleftrightarrow> mode_ok H (g_dsc_sec_mode st) (dsc_fns st) (g_dsc_sec_lib_handle st) (g_kl_lib st) (lib_refs st) \<and>
     (g_dsc_sec_mode st = 2 \<longrightarrow> (\<forall>dev \<in> set (dsc_devices st). \<not> openned dev))"

definition dsc_inv :: "'e dsc_host \<Rightarrow> 'e dsc_state \<Rightarrow> bool" where
  "dsc_inv H st \<longleftrightarrow> dsc_tab H st \<and> dsc_mode H st"

lemma mode_okD:
  assumes "mode_ok H m L h k c"
  shows "m = 1 \<Longrightarrow> h \<and> 0 < c" "h \<Longrightarrow> m = 1" "m = 0 \<or> m = 2 \<Longrightarrow> L = no_lib" "m = 1 \<Longrightarrow> \<exists>e e'. h_dlopen H e = (Some L, e')"
  using assms by (auto simp: mode_ok_def)

lemma mode_ok_normal: "mode_ok H 2 L h k c \<Longrightarrow> mode_ok H 0 L False k c"
  by (simp add: mode_ok_def)

lemma mode_ok_sec: "mode_ok H 2 L h k c \<Longrightarrow> h_dlopen H e = (Some L', e') \<Longrightarrow> mode_ok H 1 L' True k (c + 1)"
  by (auto simp: mode_ok_def)

lemma mode_ok_closed: "mode_ok H m L h k c \<Longrightarrow> mode_ok H (-1) L False k (if h then c - 1 else c)"
  by (auto simp: mode_ok_def)

lemma mode_ok_kl:
  "mode_ok H m L h k c \<Longrightarrow> mode_ok H m L h False c"
  "mode_ok H m L h k c \<Longrightarrow> mode_ok H m L h True (c + 1)"
  "mode_ok H m L h True c \<Longrightarrow> mode_ok H m L h False (c - Suc 0)"
  by (auto simp: mode_ok_def)

lemma dsc_tab_os [simp]: "dsc_tab H (st\<lparr>os := e\<rparr>) = dsc_tab H st"
  by (simp add: dsc_tab_def)

lemma dsc_inv_os [simp]: "dsc_inv H (st\<lparr>os := e\<rparr>) = dsc_inv H st"
  by (simp add: dsc_inv_def dsc_mode_def)

lemma upd_dsc_simps [simp]:
  "g_dsc_sec_mode (upd_dsc i f st) = g_dsc_sec_mode st" "dsc_fns (upd_dsc i f st) = dsc_fns st"
  "g_dsc_sec_lib_handle (upd_dsc i f st) = g_dsc_sec_lib_handle st" "g_kl_lib (upd_dsc i f st) = g_kl_lib st"
  "lib_refs (upd_dsc i f st) = lib_refs st" "os (upd_dsc i f st) = os st" "dsc_num (upd_dsc i f st) = dsc_num st"
  "dsc_inited (upd_dsc i f st) = dsc_inited st" "g_kl_work_mode (upd_dsc i f st) = g_kl_work_mode st"
  "g_sec_config (upd_dsc i f st) = g_sec_config st"
  "dsc_devices (upd_dsc i f st) = (dsc_devices st)[i := f (dsc_devices st ! i)]"
  by (simp_all add: upd_dsc_def)

lemma dsc_inv_upd:
  assumes "dsc_inv H st" "i < length (dsc_devices st)" "dsc_dev_ok H (dsc_devices st ! i) \<Longrightarrow> dsc_dev_ok H (f (dsc_devices st ! i))"
    and "g_dsc_sec_mode st = 2 \<Longrightarrow> \<not> openned (dsc_devices st ! i) \<Longrightarrow> \<not> openned (f (dsc_devices st ! i))"
  shows "dsc_inv H (upd_dsc i f st)"
  using assms by (auto simp: dsc_inv_def dsc_tab_def dsc_mode_def dest!: subsetD [OF set_update_subset_insert])

lemma dsc_inv_chan:
  assumes "dsc_inv H st" "i < length (dsc_devices st)"
    and "\<And>c. c_used (f c) \<Longrightarrow> (c_used c \<longrightarrow> c_id c = int j) \<Longrightarrow> c_id (f c) = int j"
  shows "dsc_inv H (upd_chan i j f st)"
  unfolding upd_chan_def using assms
  by (intro dsc_inv_upd) (auto simp: dsc_dev_ok_def chans_ok_def nth_update_if)

lemma ds_call_inv [simp]: "dsc_inv H (snd (ds_call f st)) = dsc_inv H st"
  "dsc_devices (snd (ds_call f st)) = dsc_devices st" "g_dsc_sec_mode (snd (ds_call f st)) = g_dsc_sec_mode st"
  by (simp_all add: ds_call_def split: option.splits prod.splits)

lemma ds_callD: "ds_call f st = (r, st') \<Longrightarrow> dsc_inv H st' = dsc_inv H st \<and> dsc_devices st' = dsc_devices st"
  by (auto simp: ds_call_def split: option.splits prod.splits)

lemma sec_call_Some_iff:
  "sec_call fld app st = Some (r, st') \<longleftrightarrow>
     (\<exists>f e. fld (dsc_fns st) = Some f \<and> lib_refs st \<noteq> 0 \<and> app f (os st) = (r, e) \<and> st' = st\<lparr>os := e\<rparr>)"
  by (auto simp: sec_call_def split: option.splits prod.splits if_splits)

lemma sec_callD: "sec_call fld app st = Some (r, st') \<Longrightarrow> dsc_inv H st' = dsc_inv H st \<and> dsc_devices st' = dsc_devices st"
  by (auto simp: sec_call_Some_iff)

lemma dsc_inv_table:
  assumes "dsc_inv H st" "\<not> dsc_inited st"
  shows "dsc_inv H (st\<lparr>os := e, dsc_num := x, dsc_devices := []\<rparr>)"
    and "0 \<le> x \<Longrightarrow> dsc_inv H (st\<lparr>os := e, dsc_num := x, dsc_inited := True, dsc_devices := replicate (nat x) (dsc_dev0 H)\<rparr>)"
    and "dsc_inv H (st\<lparr>os := e, dsc_num := 0, dsc_inited := True\<rparr>)"
  using assms by (simp_all add: dsc_inv_def dsc_tab_def dsc_mode_def dsc_dev_ok_def dsc_dev0_def chans_ok_def dsc_chan0_def)

lemma init_db_inv:
  assumes "dsc_inv H st" "dsc_init_dev_db H st = ((r, cnt), st')"
  shows "dsc_inv H st' \<and> (r = AM_SUCCESS \<longrightarrow> dsc_inited st' \<and> cnt = dsc_num st' \<and> length (dsc_devices st') = nat cnt)"
proof (cases "dsc_inited st")
  case True
  with assms show ?thesis by (auto simp: dsc_init_dev_db_def dsc_inv_def dsc_tab_def)
next
  case False
  note tab = dsc_inv_table [OF assms(1) False]
  have "dsc_devices st = []" using assms(1) False by (simp add: dsc_inv_def dsc_tab_def)
  with assms(2) tab(1,3) False show ?thesis
    by (auto simp: dsc_init_dev_db_def Let_def split: if_splits prod.splits intro: tab(2))
qed

lemma get_dev_inv:
  assumes "dsc_inv H st" "dsc_get_dev H n st = (r, st')"
  shows "dsc_inv H st' \<and> (\<forall>i. r = Inr i \<longrightarrow> n = int i \<and> i < length (dsc_devices st'))"
  using assms init_db_inv [OF assms(1)] by (auto simp: dsc_get_dev_def split: prod.splits if_splits)

lemma get_openned_inv:
  assumes "dsc_inv H st" "dsc_get_openned_dev H n st = (r, st')"
  shows "dsc_inv H st' \<and> (\<forall>i. r = Inr i \<longrightarrow> n = int i \<and> i < length (dsc_devices st') \<and> openned (dsc_devices st' ! i))"
  using assms get_dev_inv [OF assms(1)] by (auto simp: dsc_get_openned_dev_def split: prod.splits sum.splits if_splits)

lemma get_functions_eq: "get_functions L st = (0, st\<lparr>dsc_fns := L\<rparr>)"
  by (simp add: get_functions_def)

lemma work_mode_inv:
  assumes "dsc_inv H st" "dsc_get_work_mode H st = (r, st')"
  shows "dsc_inv H st' \<and> r = AM_SUCCESS \<and> dsc_devices st' = dsc_devices st \<and> g_dsc_sec_mode st' \<noteq> 2"
proof (cases "g_dsc_sec_mode st = 2")
  case True
  obtain L e where d: "h_dlopen H (os st) = (L, e)" by force
  have inv: "dsc_tab H st" "\<forall>dev \<in> set (dsc_devices st). \<not> openned dev"
    "mode_ok H 2 (dsc_fns st) (g_dsc_sec_lib_handle st) (g_kl_lib st) (lib_refs st)"
    using assms(1) True by (auto simp: dsc_inv_def dsc_mode_def)
  show ?thesis
  proof (cases L)
    case None
    with assms(2) d True inv mode_ok_normal [OF inv(3)] show ?thesis
      by (auto simp: dsc_get_work_mode_def dsc_inv_def dsc_mode_def dsc_tab_def)
  next
    case (Some f)
    with assms(2) d True inv mode_ok_sec [OF inv(3), of "os st" f e] show ?thesis
      by (auto simp: dsc_get_work_mode_def get_functions_eq dsc_inv_def dsc_mode_def dsc_tab_def)
  qed
qed (use assms in \<open>simp add: dsc_get_work_mode_def\<close>)

lemma free_chan_inv:
  assumes "dsc_inv H st" "i < length (dsc_devices st)"
  shows "dsc_inv H (snd (dsc_free_chan i j st)) \<and> length (dsc_devices (snd (dsc_free_chan i j st))) = length (dsc_devices st)"
  using assms by (auto simp: dsc_free_chan_def Let_def upd_chan_def intro!: dsc_inv_chan [unfolded upd_chan_def])


lemma upd_chan_simps [simp]:
  "g_dsc_sec_mode (upd_chan i j f st) = g_dsc_sec_mode st" "length (dsc_devices (upd_chan i j f st)) = length (dsc_devices st)"
  "os (upd_chan i j f st) = os st" "dsc_inited (upd_chan i j f st) = dsc_inited st" "dsc_num (upd_chan i j f st) = dsc_num st"
  "dsc_fns (upd_chan i j f st) = dsc_fns st" "lib_refs (upd_chan i j f st) = lib_refs st"
  by (simp_all add: upd_chan_def)

lemma dsc_inv_chan_keep:
  assumes "dsc_inv H st" "i < length (dsc_devices st)" "\<And>c. c_used (f c) \<Longrightarrow> c_used c \<and> c_id (f c) = c_id c"
  shows "dsc_inv H (upd_chan i j f st)"
  by (rule dsc_inv_chan [OF assms(1,2)]) (use assms(3) in force)

lemma free_chans_inv:
  assumes "dsc_free_chans n i js r st = Some (r', st')" "dsc_inv H st" "i < length (dsc_devices st)"
  shows "dsc_inv H st' \<and> length (dsc_devices st') = length (dsc_devices st) \<and> g_dsc_sec_mode st' = g_dsc_sec_mode st"
  using assms
proof (induction n i js r st rule: dsc_free_chans.induct)
  case (2 n i j js ret st)
  have mode: "g_dsc_sec_mode (snd (dsc_free_chan i j st)) = g_dsc_sec_mode st"
    by (simp add: dsc_free_chan_def Let_def)
  consider "g_dsc_sec_mode st = 0" | "g_dsc_sec_mode st = 1" | "g_dsc_sec_mode st \<noteq> 0" "g_dsc_sec_mode st \<noteq> 1" by blast
  then show ?case
  proof cases
    case 1
    with "2.IH"(1) [OF 1] "2.prems" free_chan_inv [OF "2.prems"(2,3), of j] mode show ?thesis by auto
  next
    case 2
    with "2.prems"(1) obtain r1 st1 where c: "sec_call AM_DSC_SEC_FreeChannel
        (\<lambda>f. f (word_of_int n) (uint (c_stream_path (channels (dsc_devices st ! i) ! j)))) st = Some (r1, st1)"
      "dsc_free_chans n i js r1 st1 = Some (r', st')" by (auto split: option.splits)
    from sec_callD [OF c(1), of H] c(1) have "g_dsc_sec_mode st1 = g_dsc_sec_mode st"
      by (auto simp: sec_call_def split: option.splits if_splits prod.splits)
    with "2.IH"(2) [OF _ 2 c(1) refl c(2)] 2 sec_callD [OF c(1), of H] "2.prems"(2,3) show ?thesis by auto
  next
    case 3
    with "2.IH"(3) [OF 3] "2.prems" show ?thesis by auto
  qed
qed simp

lemma close_mode_inv:
  assumes "dsc_close_mode n i r st = Some (r', st')" "dsc_inv H st" "i < length (dsc_devices st)"
  shows "dsc_inv H ((upd_dsc i (\<lambda>dev. dev\<lparr>openned := False\<rparr>) st')\<lparr>g_dsc_sec_mode := -1\<rparr>) \<and>
    (g_dsc_sec_mode st = 0 \<longrightarrow> r' = r \<and> dsc_devices st' = dsc_devices st \<and> dsc_fns st' = dsc_fns st)"
proof -
  note ok = mode_ok_closed [of H "g_dsc_sec_mode st" "dsc_fns st" "g_dsc_sec_lib_handle st" "g_kl_lib st" "lib_refs st"]
  from assms(1) have same: "dsc_devices st' = dsc_devices st" "dsc_fns st' = dsc_fns st" "g_kl_lib st' = g_kl_lib st"
    "dsc_num st' = dsc_num st" "dsc_inited st' = dsc_inited st"
    by (auto simp: dsc_close_mode_def Let_def sec_call_def ds_call_def split: if_splits option.splits prod.splits)
  from assms(2) have m: "dsc_tab H st"
    "mode_ok H (g_dsc_sec_mode st) (dsc_fns st) (g_dsc_sec_lib_handle st) (g_kl_lib st) (lib_refs st)"
    by (auto simp: dsc_inv_def dsc_mode_def)
  have "g_dsc_sec_lib_handle st' = False \<and> lib_refs st' = (if g_dsc_sec_lib_handle st then lib_refs st - 1 else lib_refs st)"
  proof (cases "g_dsc_sec_mode st = 1")
    case True
    with mode_okD(1) [OF m(2)] have "g_dsc_sec_lib_handle st" by simp
    with assms(1) True show ?thesis by (auto simp: dsc_close_mode_def sec_call_Some_iff)
  next
    case False
    with mode_okD(2) [OF m(2)] have "\<not> g_dsc_sec_lib_handle st" by blast
    with assms(1) False show ?thesis
      by (auto simp: dsc_close_mode_def Let_def ds_call_def split: if_splits option.splits prod.splits)
  qed
  with same m ok assms(3) have "dsc_mode H ((upd_dsc i (\<lambda>dev. dev\<lparr>openned := False\<rparr>) st')\<lparr>g_dsc_sec_mode := -1\<rparr>)"
    by (simp add: dsc_mode_def)
  moreover have "dsc_tab H ((upd_dsc i (\<lambda>dev. dev\<lparr>openned := False\<rparr>) st')\<lparr>g_dsc_sec_mode := -1\<rparr>)"
    using m(1) same assms(3) by (auto simp: dsc_tab_def dsc_dev_ok_def dest!: subsetD [OF set_update_subset_insert])
  ultimately show ?thesis
    using assms(1) same by (auto simp: dsc_inv_def dsc_close_mode_def Let_def)
qed

subsection \<open>Every step keeps the invariant\<close>

lemma open_mode_inv:
  assumes "dsc_open_mode n i st = Some (r, st')"
  shows "dsc_inv H st' = dsc_inv H st" "dsc_devices st' = dsc_devices st" "g_dsc_sec_mode st' = g_dsc_sec_mode st"
  using assms by (auto simp: dsc_open_mode_def ds_call_def sec_call_def split: if_splits option.splits prod.splits)

lemma open_inv:
  assumes "AM_DSC_Open H n st = Some (r, st')" "dsc_inv H st"
  shows "dsc_inv H st'"
proof -
  obtain g st1 where g: "dsc_get_dev H n st = (g, st1)" by force
  note i1 = get_dev_inv [OF assms(2) g]
  show ?thesis
  proof (cases g)
    case (Inl e)
    with assms(1) g i1 show ?thesis by (simp add: AM_DSC_Open_def)
  next
    case (Inr i)
    obtain m st2 where w: "dsc_get_work_mode H st1 = (m, st2)" by force
    from work_mode_inv [OF _ w] i1 have i2: "dsc_inv H st2" "m = 0" "dsc_devices st2 = dsc_devices st1" "g_dsc_sec_mode st2 \<noteq> 2" by auto
    have i: "i < length (dsc_devices st2)" using i1 i2(3) Inr by simp
    show ?thesis
    proof (cases "openned (dsc_devices st2 ! i)")
      case True
      with assms(1) g w Inr i2(1,2) show ?thesis by (simp add: AM_DSC_Open_def)
    next
      case False
      with assms(1) g w Inr i2(2) obtain st4 where
        c: "dsc_open_mode n i (upd_dsc i (\<lambda>dev. dev\<lparr>s_dev_no := n\<rparr>) st2) = Some (r, st4)"
        and st': "st' = (if r = 0 then upd_dsc i (\<lambda>dev. dev\<lparr>openned := True\<rparr>) st4 else st4)"
        by (auto simp: AM_DSC_Open_def)
      have "dsc_inv H (upd_dsc i (\<lambda>dev. dev\<lparr>s_dev_no := n\<rparr>) st2)"
        by (rule dsc_inv_upd [OF i2(1) i]) (simp_all add: dsc_dev_ok_def)
      with open_mode_inv(1) [OF c, of H] have i4: "dsc_inv H st4" by simp
      have "dsc_inv H (upd_dsc i (\<lambda>dev. dev\<lparr>openned := True\<rparr>) st4)"
        by (rule dsc_inv_upd [OF i4]) (use open_mode_inv(2,3) [OF c] i i2(4) in \<open>simp_all add: dsc_dev_ok_def\<close>)
      with st' i4 show ?thesis by simp
    qed
  qed
qed

lemma alloc_slot_inv:
  assumes "dsc_alloc_slot n i j st = Some (r, st')" "dsc_inv H st" "i < length (dsc_devices st)" "j < 8"
  shows "dsc_inv H st' \<and> length (dsc_devices st') = length (dsc_devices st)"
proof -
  define st1 where "st1 = upd_chan i j (\<lambda>c. c\<lparr>c_id := int j, c_pid := 0xFFFF, c_used := True\<rparr>) st"
  have i1: "dsc_inv H st1" "i < length (dsc_devices st1)"
    using assms(2,3) by (auto simp: st1_def intro!: dsc_inv_chan)
  then have drv: "ds_alloc_chan (s_drv (dsc_devices st1 ! i)) = Some (aml_alloc_chan H)"
    by (auto simp: dsc_inv_def dsc_tab_def dsc_dev_ok_def aml_dsc_drv_def)
  have ch: "c_id (channels (dsc_devices st1 ! i) ! j) = int j"
    using assms(2-4) by (auto simp: st1_def upd_chan_def dsc_inv_def dsc_tab_def dsc_dev_ok_def chans_ok_def)
  have chan: "dsc_inv H (upd_chan i j (\<lambda>_. c) (st1\<lparr>os := e\<rparr>))" if "c_id c = int j" for c e
    using i1 that by (auto intro!: dsc_inv_chan)
  show ?thesis
  proof (cases "g_dsc_sec_mode st = 1")
    case True
    with assms(1) obtain p st2 where c: "sec_call AM_DSC_SEC_AllocChannel (\<lambda>f. f (word_of_int n)) st1 = Some ((r, p), st2)"
      "st' = (case p of None \<Rightarrow> st2 | Some x \<Rightarrow> upd_chan i j (\<lambda>c. c\<lparr>c_stream_path := x\<rparr>) st2)"
      by (auto simp: dsc_alloc_slot_def Let_def st1_def)
    with sec_callD [OF c(1), of H] i1 show ?thesis
      by (auto simp: st1_def split: option.splits intro!: dsc_inv_chan_keep)
  next
    case False
    show ?thesis
    proof (cases "g_dsc_sec_mode st = 0")
      case True
      obtain r1 c e where f: "aml_alloc_chan H (s_dev_no (dsc_devices st1 ! i)) (channels (dsc_devices st1 ! i) ! j) (os st1) = ((r1, c), e)"
        by (metis prod.exhaust)
      then have "c_id c = int j" using ch by (auto simp: aml_alloc_chan_def split: option.splits prod.splits)
      moreover have "st' = upd_chan i j (\<lambda>_. c) (st1\<lparr>os := e\<rparr>)"
        using assms(1) True f drv by (simp add: dsc_alloc_slot_def Let_def st1_def)
      ultimately show ?thesis using chan by (simp add: st1_def)
    next
      case F: False
      with False assms(1) have "st' = st1" by (simp add: dsc_alloc_slot_def Let_def st1_def)
      with i1 show ?thesis by (simp add: st1_def)
    qed
  qed
qed


text \<open>An operation on an open device: the lookup, then a body at the device's index.\<close>

lemma on_device:
  assumes "dsc_inv H st" "dsc_get_openned_dev H n st = (g, st1)"
  obtains e where "g = Inl e" "dsc_inv H st1"
  | i where "g = Inr i" "n = int i" "dsc_inv H st1" "i < length (dsc_devices st1)" "openned (dsc_devices st1 ! i)"
  using get_openned_inv [OF assms] by (cases g) auto

lemma used_chan_iff: "dsc_get_used_chan dev h = Inr j \<longleftrightarrow> h = int j \<and> j < 8 \<and> c_used (channels dev ! j)"
  by (auto simp: dsc_get_used_chan_def)

lemma allocate_inv:
  assumes "AM_DSC_AllocateChannel H n st = Some (r, st')" "dsc_inv H st"
  shows "dsc_inv H st'"
proof -
  obtain g st1 where g: "dsc_get_openned_dev H n st = (g, st1)" by force
  from assms(2) g show ?thesis
  proof (cases rule: on_device)
    case (1 e)
    with assms(1) g show ?thesis by (simp add: AM_DSC_AllocateChannel_def)
  next
    case (2 i)
    with assms(1) g alloc_slot_inv [OF _ 2(3,4)] show ?thesis
      by (fastforce simp: AM_DSC_AllocateChannel_def Let_def split: if_splits intro: dsc_inv_chan_keep)
  qed
qed

lemma set_pid_inv:
  assumes "AM_DSC_SetChannelPID H n h p st = (r, st')" "dsc_inv H st"
  shows "dsc_inv H st'"
proof -
  obtain g st1 where g: "dsc_get_openned_dev H n st = (g, st1)" by force
  from assms(2) g show ?thesis
  proof (cases rule: on_device)
    case (1 e)
    with assms(1) g show ?thesis by (simp add: AM_DSC_SetChannelPID_def)
  next
    case (2 i)
    with assms(1) g show ?thesis
      by (auto simp: AM_DSC_SetChannelPID_def Let_def split: if_splits sum.splits prod.splits
          dest!: ds_callD [where H = H] intro!: dsc_inv_chan_keep)
  qed
qed

lemma set_key_inv:
  assumes "AM_DSC_SetKey H n h t key st = Some (r, st')" "dsc_inv H st"
  shows "dsc_inv H st'"
proof -
  obtain g st1 where g: "dsc_get_openned_dev H n st = (g, st1)" by force
  from assms(2) g have i1: "dsc_inv H st1" by (cases rule: on_device)
  with assms g show ?thesis
    by (auto simp: AM_DSC_SetKey_def dsc_sec_set_key_def Let_def split: if_splits sum.splits
        dest!: ds_callD [where H = H] sec_callD [where H = H])
qed

lemma free_inv:
  assumes "AM_DSC_FreeChannel H n h st = Some (r, st')" "dsc_inv H st"
  shows "dsc_inv H st'"
proof -
  obtain g st1 where g: "dsc_get_openned_dev H n st = (g, st1)" by force
  from assms(2) g show ?thesis
  proof (cases rule: on_device)
    case (1 e)
    with assms(1) g show ?thesis by (simp add: AM_DSC_FreeChannel_def)
  next
    case (2 i)
    show ?thesis
    proof (cases "dsc_get_used_chan (dsc_devices st1 ! i) h")
      case (Inl e)
      with assms(1) g 2 show ?thesis by (simp add: AM_DSC_FreeChannel_def Let_def)
    next
      case (Inr j)
      note fc = free_chan_inv [OF 2(3,4), of j]
      from assms(1) g 2(1) Inr obtain st2 where
        c: "(if g_dsc_sec_mode st1 = 0 then Some (dsc_free_chan i j st1)
             else if g_dsc_sec_mode st1 = 1
             then sec_call AM_DSC_SEC_FreeChannel (\<lambda>f. f (word_of_int n) (uint (c_stream_path (channels (dsc_devices st1 ! i) ! j)))) st1
             else Some (-1, st1)) = Some (r, st2)" and st': "st' = upd_chan i j (\<lambda>c. c\<lparr>c_used := False\<rparr>) st2"
        by (auto simp: AM_DSC_FreeChannel_def Let_def)
      from c 2 fc have "dsc_inv H st2 \<and> length (dsc_devices st2) = length (dsc_devices st1)"
        by (auto split: if_splits dest!: sec_callD [where H = H])
      with 2 st' show ?thesis by (auto intro!: dsc_inv_chan_keep)
    qed
  qed
qed

lemma close_inv:
  assumes "AM_DSC_Close H n st = Some (r, st')" "dsc_inv H st"
  shows "dsc_inv H st'"
proof -
  obtain g st1 where g: "dsc_get_openned_dev H n st = (g, st1)" by force
  from assms(2) g show ?thesis
  proof (cases rule: on_device)
    case (1 e)
    with assms(1) g show ?thesis by (simp add: AM_DSC_Close_def)
  next
    case (2 i)
    from assms(1) g 2(1) obtain r2 st2 st3 where
      c: "dsc_free_chans n i [0 ..< 8] 0 st1 = Some (r2, st2)" "dsc_close_mode n i r2 st2 = Some (r, st3)"
      "st' = (upd_dsc i (\<lambda>dev. dev\<lparr>openned := False\<rparr>) st3)\<lparr>g_dsc_sec_mode := -1\<rparr>"
      by (auto simp: AM_DSC_Close_def split: option.splits)
    with free_chans_inv [OF c(1) 2(3,4)] close_mode_inv [OF c(2), of H] 2(4) show ?thesis by simp
  qed
qed

lemma dsc_source_inv:
  assumes "AM_DSC_SetSource H n s st = Some (r, st')" "dsc_inv H st"
  shows "dsc_inv H st'"
proof -
  obtain g st1 where g: "dsc_get_openned_dev H n st = (g, st1)" by force
  from assms(2) g have i1: "dsc_inv H st1" by (cases rule: on_device)
  with assms g show ?thesis
    by (auto simp: AM_DSC_SetSource_def split: if_splits sum.splits prod.splits
        dest!: ds_callD [where H = H] sec_callD [where H = H])
qed

lemma set_output_inv: "AM_DSC_SetOutput n d st = Some (r, st') \<Longrightarrow> dsc_inv H st \<Longrightarrow> dsc_inv H st'"
  by (auto simp: AM_DSC_SetOutput_def split: if_splits dest!: sec_callD [where H = H])

lemma kl_inv:
  "AM_KL_KeyladderInit H' st = (r, st') \<Longrightarrow> dsc_inv H st \<Longrightarrow> dsc_inv H st'"
  "dsc_inv H st \<Longrightarrow> dsc_inv H (AM_KL_KeyladderRelease H' st)"
  "AM_KL_SetKeyladder H' c st = (r, st') \<Longrightarrow> dsc_inv H st \<Longrightarrow> dsc_inv H st'"
  "AM_KL_SetKeyladderCr H' k2 nn dn st = (q, st') \<Longrightarrow> dsc_inv H st \<Longrightarrow> dsc_inv H st'"
  by (auto simp: AM_KL_KeyladderInit_def kl_get_work_mode_def AM_KL_KeyladderRelease_def AM_KL_SetKeyladder_def
      AM_KL_SetKeyladderCr_def dsc_inv_def dsc_mode_def dsc_tab_def split: prod.splits option.splits if_splits
      dest: mode_ok_kl)

lemma dsc_reach_inv: "dsc_reach H st \<Longrightarrow> dsc_inv H st"
proof (induction rule: dsc_reach.induct)
  case (init e)
  show ?case by (simp add: dsc_init_def dsc_inv_def dsc_tab_def dsc_mode_def mode_ok_def)
next
  case (step st st')
  from step.hyps(2) step.IH show ?case
    by (cases rule: dsc_step.cases) (auto intro: open_inv allocate_inv set_pid_inv set_key_inv free_inv close_inv dsc_source_inv
        set_output_inv kl_inv)
qed


subsection \<open>When calls are defined\<close>

definition full_lib :: "'e sec_lib \<Rightarrow> bool" where
  "full_lib L \<longleftrightarrow> AM_DSC_SEC_Open L \<noteq> None \<and> AM_DSC_SEC_AllocChannel L \<noteq> None \<and> AM_DSC_SEC_FreeChannel L \<noteq> None \<and>
     AM_DSC_SEC_SetKey L \<noteq> None \<and> AM_DSC_SEC_KeyladderRun L \<noteq> None \<and> AM_DSC_SEC_Close L \<noteq> None \<and> AM_DSC_SEC_SetOutput L \<noteq> None"

text \<open>A secure library, when the host has one, has the functions the module calls.\<close>

definition lib_complete :: "'e dsc_host \<Rightarrow> bool" where
  "lib_complete H \<longleftrightarrow> (\<forall>e L e'. h_dlopen H e = (Some L, e') \<longrightarrow> full_lib L)"

definition callable :: "'e dsc_state \<Rightarrow> bool" where
  "callable st \<longleftrightarrow> (g_dsc_sec_mode st = 1 \<longrightarrow> lib_refs st \<noteq> 0 \<and> full_lib (dsc_fns st))"

lemma callable_simps [simp]:
  "callable (st\<lparr>os := e\<rparr>) = callable st" "callable (upd_dsc i f st) = callable st" "callable (upd_chan i j g st) = callable st"
  by (simp_all add: callable_def)

lemma inv_callable: "lib_complete H \<Longrightarrow> dsc_inv H st \<Longrightarrow> callable st"
  unfolding callable_def dsc_inv_def dsc_mode_def lib_complete_def using mode_okD(1,4) by blast

lemma sec_call_defined:
  assumes "callable st" "g_dsc_sec_mode st = 1"
  shows "sec_call AM_DSC_SEC_Open a1 st \<noteq> None" "sec_call AM_DSC_SEC_AllocChannel a2 st \<noteq> None"
    "sec_call AM_DSC_SEC_FreeChannel a3 st \<noteq> None" "sec_call AM_DSC_SEC_SetKey a4 st \<noteq> None"
    "sec_call AM_DSC_SEC_KeyladderRun a5 st \<noteq> None" "sec_call AM_DSC_SEC_Close a6 st \<noteq> None"
    "sec_call AM_DSC_SEC_SetOutput a7 st \<noteq> None"
  using assms by (auto simp: callable_def full_lib_def sec_call_def split: prod.splits)

lemma sec_call_state: "sec_call fld app st = Some (r, st') \<Longrightarrow> callable st' = callable st \<and> g_dsc_sec_mode st' = g_dsc_sec_mode st"
  by (auto simp: sec_call_Some_iff)

lemma free_chan_state: "callable (snd (dsc_free_chan i j st)) = callable st" "g_dsc_sec_mode (snd (dsc_free_chan i j st)) = g_dsc_sec_mode st"
  by (auto simp: dsc_free_chan_def Let_def ds_call_def split: option.splits prod.splits)

lemma free_chans_defined:
  "callable st \<Longrightarrow> \<exists>r' st'. dsc_free_chans n i js r st = Some (r', st') \<and> callable st' \<and> g_dsc_sec_mode st' = g_dsc_sec_mode st"
proof (induction js arbitrary: r st)
  case (Cons j js)
  consider "g_dsc_sec_mode st = 0" | "g_dsc_sec_mode st = 1" | "g_dsc_sec_mode st \<noteq> 0" "g_dsc_sec_mode st \<noteq> 1" by blast
  then show ?case
  proof cases
    case 1
    with Cons.IH [of "snd (dsc_free_chan i j st)" r] Cons.prems free_chan_state [of i j st] show ?thesis by auto
  next
    case 2
    with sec_call_defined(3) [OF Cons.prems] obtain r1 st1 where c: "sec_call AM_DSC_SEC_FreeChannel
        (\<lambda>f. f (word_of_int n) (uint (c_stream_path (channels (dsc_devices st ! i) ! j)))) st = Some (r1, st1)"
      by fastforce
    from sec_call_state [OF c] Cons.IH [of st1 r1] Cons.prems 2 c show ?thesis by auto
  next
    case 3
    with Cons.IH [of st "-1"] Cons.prems show ?thesis by auto
  qed
qed simp

lemma close_mode_defined: "callable st \<Longrightarrow> dsc_close_mode n i r st \<noteq> None"
  using sec_call_defined(6) by (auto simp: dsc_close_mode_def Let_def)

lemma open_mode_defined:
  "callable st \<Longrightarrow> g_dsc_sec_mode st = 0 \<and> ds_open (s_drv (dsc_devices st ! i)) \<noteq> None \<or> g_dsc_sec_mode st = 1 \<Longrightarrow>
   dsc_open_mode n i st \<noteq> None"
  using sec_call_defined(1) by (auto simp: dsc_open_mode_def)

lemma alloc_slot_defined: "callable st \<Longrightarrow> dsc_alloc_slot n i j st \<noteq> None"
  by (simp add: dsc_alloc_slot_def Let_def sec_call_defined del: not_None_eq)

lemma sec_set_key_defined: "callable st \<Longrightarrow> g_dsc_sec_mode st = 1 \<Longrightarrow> dsc_sec_set_key n ch t key st \<noteq> None"
  by (simp add: dsc_sec_set_key_def sec_call_defined del: not_None_eq)

lemma open_defined:
  assumes "lib_complete H" "dsc_inv H st" "g_dsc_sec_mode st \<noteq> -1"
  shows "AM_DSC_Open H n st \<noteq> None"
proof -
  obtain g st1 where g: "dsc_get_dev H n st = (g, st1)" by force
  note i1 = get_dev_inv [OF assms(2) g]
  have m1: "g_dsc_sec_mode st1 = g_dsc_sec_mode st"
    using g by (auto simp: dsc_get_dev_def dsc_init_dev_db_def Let_def split: if_splits prod.splits option.splits)
  show ?thesis
  proof (cases g)
    case (Inr i)
    obtain m st2 where w: "dsc_get_work_mode H st1 = (m, st2)" by force
    from work_mode_inv [OF _ w] i1 Inr have i2: "dsc_inv H st2" "m = 0" "g_dsc_sec_mode st2 \<noteq> 2" "i < length (dsc_devices st2)"
      by auto
    have "g_dsc_sec_mode st2 \<noteq> -1" using w m1 assms(3)
      by (auto simp: dsc_get_work_mode_def get_functions_eq split: if_splits prod.splits option.splits)
    with i2 have mode: "g_dsc_sec_mode st2 = 0 \<or> g_dsc_sec_mode st2 = 1"
      by (auto simp: dsc_inv_def dsc_mode_def mode_ok_def)
    have "ds_open (s_drv (dsc_devices st2 ! i)) \<noteq> None"
      using i2 by (auto simp: dsc_inv_def dsc_tab_def dsc_dev_ok_def aml_dsc_drv_def)
    with open_mode_defined [of "upd_dsc i (\<lambda>dev. dev\<lparr>s_dev_no := n\<rparr>) st2" i n] mode i2 inv_callable [OF assms(1)]
    show ?thesis by (simp add: AM_DSC_Open_def g w Inr)
  qed (simp add: AM_DSC_Open_def g)
qed

subsection \<open>Properties\<close>

text \<open>
  C33: whatever the kernel and the secure library do, in every run of the descrambler and the key ladder
  each device keeps eight channels, an allocated channel carries its own index, and while the
  module works with the secure library, that library is loaded.
\<close>

theorem descrambler_table_invariant:
  assumes "dsc_reach H st" "i < length (dsc_devices st)"
  shows "length (channels (dsc_devices st ! i)) = 8 \<and>
    (\<forall>j < 8. c_used (channels (dsc_devices st ! i) ! j) \<longrightarrow> c_id (channels (dsc_devices st ! i) ! j) = int j) \<and>
    (g_dsc_sec_mode st = DSC_MODE_SEC \<longrightarrow> 0 < lib_refs st)"
proof -
  from dsc_reach_inv [OF assms(1)] assms(2) have ok: "chans_ok (channels (dsc_devices st ! i))"
    "mode_ok H (g_dsc_sec_mode st) (dsc_fns st) (g_dsc_sec_lib_handle st) (g_kl_lib st) (lib_refs st)"
    by (auto simp: dsc_inv_def dsc_tab_def dsc_dev_ok_def dsc_mode_def)
  from ok(1) mode_okD(1) [OF ok(2)] show ?thesis by (auto simp: chans_ok_def)
qed



text \<open>A host without a secure library and with two descramblers; its state is the list of open descriptors.\<close>

definition demo_host :: "nat list dsc_host" where
  "demo_host = \<lparr>h_dlopen = (\<lambda>e. (None, e)), h_kl_open = (\<lambda>e. (-1, e)), h_kl_close = (\<lambda>_ e. e), h_kl_run = (\<lambda>_ _ e. (False, e)),
     h_kl_cr = (\<lambda>_ _ _ e. ((False, []), e)), h_dsc_max = (\<lambda>e. (Some ''2'', e)), h_malloc = (\<lambda>e. (True, e)),
     h_open = (\<lambda>_ e. (Some (3 + length e), (3 + length e) # e)), h_close = (\<lambda>fd e. remove1 fd e), h_set_pid = (\<lambda>_ _ e. (True, e)),
     h_set_key = (\<lambda>_ _ _ e. (True, e)), h_key_size = 16, h_echo = (\<lambda>_ _ e. (0, e))\<rparr>"

definition demo_opened :: "nat list dsc_state" where
  "demo_opened = (dsc_init [])\<lparr>dsc_num := 2, dsc_inited := True, g_dsc_sec_mode := 0,
     dsc_devices := [(dsc_dev0 demo_host)\<lparr>openned := True\<rparr>, dsc_dev0 demo_host]\<rparr>"

definition demo_both :: "nat list dsc_state" where
  "demo_both = demo_opened\<lparr>dsc_devices := [(dsc_dev0 demo_host)\<lparr>openned := True\<rparr>, (dsc_dev0 demo_host)\<lparr>s_dev_no := 1, openned := True\<rparr>]\<rparr>"

definition demo_chan :: "nat list dsc_state" where
  "demo_chan = upd_chan 1 0 (\<lambda>c. c\<lparr>c_pid := 0xFFFF, c_used := True, c_drv_data := 3\<rparr>) (demo_both\<lparr>os := [3]\<rparr>)"

lemma demo_lib: "lib_complete demo_host"
  by (simp add: lib_complete_def demo_host_def)

lemmas demo_open_defs = AM_DSC_Open_def dsc_get_dev_def dsc_init_dev_db_def Let_def dsc_get_work_mode_def dsc_open_mode_def
  ds_call_def upd_dsc_def dsc_dev0_def aml_dsc_drv_def aml_open_def

lemma demo_opened_reach: "dsc_reach demo_host demo_opened"
proof (rule dsc_reach.step [OF dsc_reach.init [of demo_host "[]"] dsc_step.opn])
  show "AM_DSC_Open demo_host 0 (dsc_init []) = Some (0, demo_opened)"
    by (simp add: demo_open_defs demo_host_def demo_opened_def dsc_init_def scan_int_def scan_digits_def is_space_def is_digit_def
        numeral_2_eq_2)
qed

lemma demo_both_reach: "dsc_reach demo_host demo_both"
proof (rule dsc_reach.step [OF demo_opened_reach dsc_step.opn])
  show "AM_DSC_Open demo_host 1 demo_opened = Some (0, demo_both)"
    by (simp add: demo_open_defs demo_both_def demo_opened_def dsc_init_def)
qed

lemma demo_alloc: "AM_DSC_AllocateChannel demo_host 1 demo_both = Some ((0, Some 0), demo_chan)"
  by (simp add: AM_DSC_AllocateChannel_def dsc_get_openned_dev_def dsc_get_dev_def dsc_init_dev_db_def demo_both_def demo_opened_def
      dsc_init_def dsc_dev0_def dsc_chan0_def dsc_alloc_slot_def aml_dsc_drv_def aml_alloc_chan_def demo_host_def Let_def
      upd_chan_def upd_dsc_def demo_chan_def numeral_eq_Suc)

lemma demo_chan_reach: "dsc_reach demo_host demo_chan"
  by (rule dsc_reach.step [OF demo_both_reach dsc_step.alloc [OF demo_alloc]])

lemma demo_chan_simps [simp]:
  "length (dsc_devices demo_chan) = 2" "g_dsc_sec_mode demo_chan = 0" "openned (dsc_devices demo_chan ! 0)"
  "openned (dsc_devices demo_chan ! Suc 0)" "c_used (channels (dsc_devices demo_chan ! Suc 0) ! 0)"
  by (simp_all add: demo_chan_def demo_both_def demo_opened_def upd_chan_def dsc_dev0_def dsc_init_def)

theorem descrambler_table_invariant_witness:
  "length (channels (dsc_devices demo_chan ! 1)) = 8 \<and> c_id (channels (dsc_devices demo_chan ! 1) ! 0) = 0"
  using descrambler_table_invariant [OF demo_chan_reach, of 1] by force


lemma openned_lookup:
  assumes "dsc_inv H st" "i < length (dsc_devices st)" "openned (dsc_devices st ! i)"
  shows "dsc_get_openned_dev H (int i) st = (Inr i, st)"
proof -
  have "dsc_inited st" "i < nat (dsc_num st)" using assms(1,2) by (auto simp: dsc_inv_def dsc_tab_def split: if_splits)
  with assms(3) show ?thesis by (simp add: dsc_get_openned_dev_def dsc_get_dev_def dsc_init_dev_db_def)
qed

text \<open>
  C27: with the kernel driver, an allocated channel is the first free one and has a descriptor of its own
  that was just opened; freeing it closes that descriptor and leaves the same channels in use as before.
\<close>

theorem channel_allocate_free_roundtrip:
  assumes "dsc_reach H st" "g_dsc_sec_mode st = DSC_MODE_NORMAL" "i < length (dsc_devices st)" "openned (dsc_devices st ! i)"
    and "AM_DSC_AllocateChannel H (int i) st = Some ((AM_SUCCESS, Some j), st1)"
  shows "\<exists>fd st2. j < 8 \<and> \<not> c_used (channels (dsc_devices st ! i) ! j) \<and> (\<forall>k < j. c_used (channels (dsc_devices st ! i) ! k)) \<and>
    h_open H (''/dev/dvb0.dsc'' @ dec_digits (nat (s_dev_no (dsc_devices st ! i)))) (os st) = (Some fd, os st1) \<and>
    AM_DSC_FreeChannel H (int i) (int j) st1 = Some (AM_SUCCESS, st2) \<and> os st2 = h_close H fd (os st1) \<and>
    map c_used (channels (dsc_devices st2 ! i)) = map c_used (channels (dsc_devices st ! i))"
proof -
  note inv = dsc_reach_inv [OF assms(1)]
  define chs where "chs = channels (dsc_devices st ! i)"
  have len: "length chs = 8" and drv: "s_drv (dsc_devices st ! i) = aml_dsc_drv H"
    using inv assms(3) by (auto simp: dsc_inv_def dsc_tab_def dsc_dev_ok_def chans_ok_def chs_def)
  define c1 where "c1 = (chs ! j)\<lparr>c_id := int j, c_pid := 0xFFFF, c_used := True\<rparr>"
  from assms(5) have j: "j = first_idx (\<lambda>c. \<not> c_used c) chs" "j < 8"
    by (auto simp: AM_DSC_AllocateChannel_def openned_lookup [OF inv assms(3,4)] Let_def chs_def split: if_splits)
  with len first_idx_hit [of "\<lambda>c. \<not> c_used c" chs] have free: "\<not> c_used (chs ! j)" by simp
  have before: "\<forall>k < j. c_used (chs ! k)" using j(1) by (auto dest: first_idx_before)
  obtain r e where o: "h_open H (''/dev/dvb0.dsc'' @ dec_digits (nat (s_dev_no (dsc_devices st ! i)))) (os st) = (r, e)" by force
  with assms(5) obtain fd where fd: "r = Some fd"
    and st1: "st1 = upd_chan i j (\<lambda>_. c1\<lparr>c_drv_data := fd\<rparr>) ((upd_chan i j (\<lambda>c. c\<lparr>c_id := int j, c_pid := 0xFFFF, c_used := True\<rparr>) st)\<lparr>os := e\<rparr>)"
    using j assms(2,3) drv len
    by (auto simp: AM_DSC_AllocateChannel_def openned_lookup [OF inv assms(3,4)] Let_def chs_def [symmetric] dsc_alloc_slot_def
        aml_dsc_drv_def aml_alloc_chan_def c1_def upd_chan_def split: if_splits option.splits)
  have d1: "dsc_devices st1 ! i = (dsc_devices st ! i)\<lparr>channels := chs[j := c1\<lparr>c_drv_data := fd\<rparr>]\<rparr>" "os st1 = e"
    "g_dsc_sec_mode st1 = 0" "i < length (dsc_devices st1)"
    using assms(2,3) st1 by (simp_all add: upd_chan_def chs_def)
  have inv1: "dsc_inv H st1" using allocate_inv [OF assms(5) inv] .
  have look: "dsc_get_openned_dev H (int i) st1 = (Inr i, st1)"
    using openned_lookup [OF inv1 d1(4)] d1(1) assms(4) by simp
  have used: "dsc_get_used_chan (dsc_devices st1 ! i) (int j) = Inr j"
    using d1(1) j(2) len by (simp add: used_chan_iff c1_def)
  define st2 where "st2 = upd_chan i j (\<lambda>c. c\<lparr>c_used := False\<rparr>) (snd (dsc_free_chan i j st1))"
  have f: "AM_DSC_FreeChannel H (int i) (int j) st1 = Some (0, st2)"
    using look used d1(3) by (simp add: AM_DSC_FreeChannel_def Let_def st2_def dsc_free_chan_def)
  have "os st2 = h_close H fd e" "channels (dsc_devices st2 ! i) = chs[j := c1\<lparr>c_drv_data := fd, c_used := False\<rparr>]"
    using d1 j(2) len drv
    by (simp_all add: st2_def dsc_free_chan_def Let_def upd_chan_def ds_call_def aml_dsc_drv_def aml_free_chan_def c1_def)
  moreover have "map c_used (chs[j := c1\<lparr>c_drv_data := fd, c_used := False\<rparr>]) = map c_used chs"
    using free j(2) len by (auto simp: map_update intro: list_update_same_conv [THEN iffD2])
  ultimately show ?thesis using j(2) free before o fd f d1(2) by (auto simp: chs_def)
qed

theorem channel_allocate_free_roundtrip_witness:
  "\<exists>st2. AM_DSC_FreeChannel demo_host 1 0 demo_chan = Some (0, st2) \<and> os st2 = []"
proof -
  have st: "g_dsc_sec_mode demo_both = 0" "1 < length (dsc_devices demo_both)" "openned (dsc_devices demo_both ! 1)"
    "os demo_both = []" "os demo_chan = [3]"
    by (simp_all add: demo_chan_def demo_both_def demo_opened_def dsc_dev0_def dsc_init_def)
  from channel_allocate_free_roundtrip [OF demo_both_reach st(1-3), unfolded of_nat_1, OF demo_alloc] st(4,5) show ?thesis
    by (auto simp: demo_host_def)
qed


text \<open>The channels of a device are a slot table: allocation fails exactly when all are in use.\<close>

interpretation dsc_slots: slot_table c_used "\<lambda>c. c\<lparr>c_used := True\<rparr>" "\<lambda>c. c\<lparr>c_used := False\<rparr>"
  by unfold_locales simp_all

lemma no_free_channel:
  assumes "dsc_inv H st" "i < length (dsc_devices st)" "openned (dsc_devices st ! i)"
    and "used_count c_used (channels (dsc_devices st ! i)) = 8"
  shows "\<exists>h. AM_DSC_AllocateChannel H (int i) st = Some ((AM_DSC_ERR_NO_FREE_CHAN, h), st)"
proof -
  note assms(4)
  moreover have "length (channels (dsc_devices st ! i)) = 8"
    using assms(1,2) by (auto simp: dsc_inv_def dsc_tab_def dsc_dev_ok_def chans_ok_def)
  ultimately have "8 \<le> first_idx (\<lambda>c. \<not> c_used c) (channels (dsc_devices st ! i))"
    using dsc_slots.no_slot_iff [of "channels (dsc_devices st ! i)"] by simp
  then show ?thesis
    by (simp add: AM_DSC_AllocateChannel_def openned_lookup [OF assms(1-3)] Let_def)
qed

subsection \<open>Closing a device\<close>

lemma free_chans_normal:
  "g_dsc_sec_mode st = 0 \<Longrightarrow> i < length (dsc_devices st) \<Longrightarrow>
   \<exists>st'. dsc_free_chans n i js r st = Some (r, st') \<and> g_dsc_sec_mode st' = 0 \<and> dsc_fns st' = dsc_fns st \<and>
     dsc_inited st' = dsc_inited st \<and> dsc_num st' = dsc_num st \<and> length (dsc_devices st') = length (dsc_devices st) \<and>
     (\<forall>k. k \<noteq> i \<longrightarrow> dsc_devices st' ! k = dsc_devices st ! k) \<and>
     (\<forall>j \<in> set js. j < length (channels (dsc_devices st ! i)) \<longrightarrow> \<not> c_used (channels (dsc_devices st' ! i) ! j)) \<and>
     (\<forall>j. \<not> c_used (channels (dsc_devices st ! i) ! j) \<longrightarrow> \<not> c_used (channels (dsc_devices st' ! i) ! j)) \<and>
     length (channels (dsc_devices st' ! i)) = length (channels (dsc_devices st ! i))"
proof (induction js arbitrary: st)
  case (Cons j js)
  define s1 where "s1 = snd (dsc_free_chan i j st)"
  have s1: "g_dsc_sec_mode s1 = 0" "dsc_fns s1 = dsc_fns st" "dsc_inited s1 = dsc_inited st" "dsc_num s1 = dsc_num st"
    "length (dsc_devices s1) = length (dsc_devices st)" "\<forall>k. k \<noteq> i \<longrightarrow> dsc_devices s1 ! k = dsc_devices st ! k"
    "length (channels (dsc_devices s1 ! i)) = length (channels (dsc_devices st ! i))"
    "j < length (channels (dsc_devices st ! i)) \<longrightarrow> \<not> c_used (channels (dsc_devices s1 ! i) ! j)"
    "\<forall>j. \<not> c_used (channels (dsc_devices st ! i) ! j) \<longrightarrow> \<not> c_used (channels (dsc_devices s1 ! i) ! j)"
    using Cons.prems
    by (auto simp: s1_def dsc_free_chan_def Let_def upd_chan_def ds_call_def nth_update_if split: option.splits prod.splits)
  from Cons.IH [of s1] s1 Cons.prems obtain st' where
    "dsc_free_chans n i js r s1 = Some (r, st')" "g_dsc_sec_mode st' = 0" "dsc_fns st' = dsc_fns s1"
    "dsc_inited st' = dsc_inited s1" "dsc_num st' = dsc_num s1" "length (dsc_devices st') = length (dsc_devices s1)"
    "\<forall>k. k \<noteq> i \<longrightarrow> dsc_devices st' ! k = dsc_devices s1 ! k"
    "\<forall>j \<in> set js. j < length (channels (dsc_devices s1 ! i)) \<longrightarrow> \<not> c_used (channels (dsc_devices st' ! i) ! j)"
    "\<forall>j. \<not> c_used (channels (dsc_devices s1 ! i) ! j) \<longrightarrow> \<not> c_used (channels (dsc_devices st' ! i) ! j)"
    "length (channels (dsc_devices st' ! i)) = length (channels (dsc_devices s1 ! i))" by force
  with s1 Cons.prems(1) show ?case by (intro exI [of _ st']) (auto simp: s1_def [symmetric])
qed simp

lemma close_normal:
  assumes "dsc_inv H st" "g_dsc_sec_mode st = 0" "i < length (dsc_devices st)" "openned (dsc_devices st ! i)"
  obtains st' where "AM_DSC_Close H (int i) st = Some (AM_SUCCESS, st')" "g_dsc_sec_mode st' = -1" "dsc_fns st' = no_lib"
    "dsc_inited st'" "dsc_num st' = dsc_num st" "length (dsc_devices st') = length (dsc_devices st)" "\<not> openned (dsc_devices st' ! i)"
    "\<forall>j < 8. \<not> c_used (channels (dsc_devices st' ! i) ! j)" "\<forall>k. k \<noteq> i \<longrightarrow> dsc_devices st' ! k = dsc_devices st ! k"
proof -
  from assms(1,2) have lib: "dsc_fns st = no_lib" by (auto simp: dsc_inv_def dsc_mode_def dest: mode_okD(3))
  have ini: "dsc_inited st" using assms(1,3) by (auto simp: dsc_inv_def dsc_tab_def split: if_splits)
  have len: "length (channels (dsc_devices st ! i)) = 8" and drv: "s_drv (dsc_devices st ! i) = aml_dsc_drv H"
    using assms(1,3) by (auto simp: dsc_inv_def dsc_tab_def dsc_dev_ok_def chans_ok_def)
  from free_chans_normal [OF assms(2,3), of "int i" "[0 ..< 8]" 0] obtain st2 where
    f: "dsc_free_chans (int i) i [0 ..< 8] 0 st = Some (0, st2)" "g_dsc_sec_mode st2 = 0" "dsc_fns st2 = dsc_fns st"
      "dsc_inited st2 = dsc_inited st" "dsc_num st2 = dsc_num st" "length (dsc_devices st2) = length (dsc_devices st)"
      "\<forall>k. k \<noteq> i \<longrightarrow> dsc_devices st2 ! k = dsc_devices st ! k"
      "\<forall>j \<in> set [0 ..< 8]. j < length (channels (dsc_devices st ! i)) \<longrightarrow> \<not> c_used (channels (dsc_devices st2 ! i) ! j)" by blast
  obtain st3 where c: "dsc_close_mode (int i) i 0 st2 = Some (0, st3)" "dsc_devices st3 = dsc_devices st2" "dsc_fns st3 = dsc_fns st2"
    "dsc_inited st3 = dsc_inited st2" "dsc_num st3 = dsc_num st2"
    using f(2) by (auto simp: dsc_close_mode_def Let_def ds_call_def split: option.splits prod.splits)
  define st' where "st' = (upd_dsc i (\<lambda>dev. dev\<lparr>openned := False\<rparr>) st3)\<lparr>g_dsc_sec_mode := -1\<rparr>"
  have "AM_DSC_Close H (int i) st = Some (0, st')"
    by (simp add: AM_DSC_Close_def openned_lookup [OF assms(1,3,4)] f(1) c(1) st'_def)
  then show ?thesis
    by (rule that) (use f c lib ini len assms(3) in \<open>auto simp: st'_def\<close>)
qed

text \<open>
  closing a device that works with the kernel driver succeeds and frees its channels. But it leaves the
  module in a mode in which no closed device can be opened any more: the attempt calls a null pointer.
\<close>

theorem reopen_undefined:
  assumes "dsc_reach H st" "g_dsc_sec_mode st = DSC_MODE_NORMAL" "i < length (dsc_devices st)" "openned (dsc_devices st ! i)"
  shows "\<exists>st'. AM_DSC_Close H (int i) st = Some (AM_SUCCESS, st') \<and> (\<forall>j < 8. \<not> c_used (channels (dsc_devices st' ! i) ! j)) \<and>
    (\<forall>k < length (dsc_devices st'). \<not> openned (dsc_devices st' ! k) \<longrightarrow> AM_DSC_Open H (int k) st' = None) \<and>
    AM_DSC_Open H (int i) st' = None"
proof -
  note inv = dsc_reach_inv [OF assms(1)]
  obtain st' where c: "AM_DSC_Close H (int i) st = Some (0, st')" "g_dsc_sec_mode st' = -1" "dsc_fns st' = no_lib"
    "dsc_inited st'" "dsc_num st' = dsc_num st" "length (dsc_devices st') = length (dsc_devices st)" "\<not> openned (dsc_devices st' ! i)"
    "\<forall>j < 8. \<not> c_used (channels (dsc_devices st' ! i) ! j)" by (rule close_normal [OF inv assms(2-4)]) blast
  have "length (dsc_devices st') = nat (dsc_num st')" using close_inv [OF c(1) inv] c(4) by (simp add: dsc_inv_def dsc_tab_def)
  then have none: "AM_DSC_Open H (int k) st' = None" if "k < length (dsc_devices st')" "\<not> openned (dsc_devices st' ! k)" for k
    using that c(2-4)
    by (simp add: AM_DSC_Open_def dsc_get_dev_def dsc_init_dev_db_def dsc_get_work_mode_def dsc_open_mode_def sec_call_def no_lib_def)
  with c assms(3) show ?thesis by auto
qed

theorem reopen_undefined_witness:
  "\<exists>st'. AM_DSC_Close demo_host 1 demo_chan = Some (0, st') \<and> AM_DSC_Open demo_host 1 st' = None"
  using reopen_undefined [OF demo_chan_reach, of 1] by auto

text \<open>
  Closing one device breaks the others. Freeing a channel of another open device then reports failure,
  marks the channel free and leaves its descriptor open.
\<close>

theorem close_strands_other_device:
  assumes "dsc_reach H st" "g_dsc_sec_mode st = DSC_MODE_NORMAL" "i < length (dsc_devices st)" "openned (dsc_devices st ! i)"
    and "k < length (dsc_devices st)" "k \<noteq> i" "openned (dsc_devices st ! k)" "j < 8" "c_used (channels (dsc_devices st ! k) ! j)"
  shows "\<exists>st' st''. AM_DSC_Close H (int i) st = Some (AM_SUCCESS, st') \<and>
    AM_DSC_FreeChannel H (int k) (int j) st' = Some (AM_FAILURE, st'') \<and> os st'' = os st' \<and>
    \<not> c_used (channels (dsc_devices st'' ! k) ! j)"
proof -
  note inv = dsc_reach_inv [OF assms(1)]
  obtain st' where c: "AM_DSC_Close H (int i) st = Some (0, st')" "g_dsc_sec_mode st' = -1"
    "length (dsc_devices st') = length (dsc_devices st)" "\<forall>k. k \<noteq> i \<longrightarrow> dsc_devices st' ! k = dsc_devices st ! k"
    by (rule close_normal [OF inv assms(2-4)]) blast
  note inv' = close_inv [OF c(1) inv]
  have dev: "dsc_devices st' ! k = dsc_devices st ! k" using c(4) assms(6) by simp
  have "dsc_get_openned_dev H (int k) st' = (Inr k, st')"
    by (rule openned_lookup [OF inv']) (use assms c(3) dev in simp_all)
  moreover have "dsc_get_used_chan (dsc_devices st' ! k) (int j) = Inr j" using assms(8,9) dev by (simp add: used_chan_iff)
  moreover have "length (channels (dsc_devices st ! k)) = 8"
    using inv assms(5) by (auto simp: dsc_inv_def dsc_tab_def dsc_dev_ok_def chans_ok_def)
  ultimately show ?thesis
    using c assms(5,8) dev by (simp add: AM_DSC_FreeChannel_def Let_def upd_chan_def)
qed

theorem close_strands_other_device_witness:
  "\<exists>st' st''. AM_DSC_Close demo_host 0 demo_chan = Some (0, st') \<and> AM_DSC_FreeChannel demo_host 1 0 st' = Some (-1, st'') \<and> os st'' = os st'"
  using close_strands_other_device [OF demo_chan_reach, of 0 1 0] by auto

subsection \<open>Keys\<close>

text \<open>
  on device 0 with the secure library, a key type that asks for the key ladder makes one call of the library's
  key ladder, with the channel's stream path and PID, the keys that were stored with
  \<^verbatim>\<open>AM_KL_SetKeyladder\<close> last, and the parity of the key type.
\<close>

theorem stored_keys_reach_library:
  assumes "dsc_reach H st" "g_dsc_sec_mode st = DSC_MODE_SEC" "g_kl_work_mode st = DSC_MODE_SEC"
    and "0 < length (dsc_devices st)" "openned (dsc_devices st ! 0)" "j < 8" "c_used (channels (dsc_devices st ! 0) ! j)" "kt < 6"
  shows "\<exists>st1 cfg. AM_KL_SetKeyladder H c st = (AM_SUCCESS, st1) \<and>
    AM_DSC_SetKey H 0 (int j) (0x80 + of_nat kt) key st1
      = sec_call AM_DSC_SEC_KeyladderRun (\<lambda>f. f 0 (uint (c_stream_path (channels (dsc_devices st ! 0) ! j)))
          (uint (c_pid (channels (dsc_devices st ! 0) ! j))) (if even kt then 1 else 0) (Some cfg) (0x80 + of_nat kt)) st1 \<and>
    ekey2 cfg = ekey2 c \<and> ekey1 cfg = ekey1 c \<and> ecw cfg = ecw c \<and> kl_levels cfg = kl_levels c"
proof -
  define st1 where "st1 = st\<lparr>g_sec_config := (g_sec_config st)\<lparr>ekey2 := ekey2 c, ekey1 := ekey1 c, ecw := ecw c, kl_levels := kl_levels c\<rparr>\<rparr>"
  have k: "AM_KL_SetKeyladder H c st = (0, st1)" using assms(3) by (simp add: AM_KL_SetKeyladder_def st1_def)
  have inv1: "dsc_inv H st1" by (rule kl_inv(3) [OF k dsc_reach_inv [OF assms(1)]])
  have look: "dsc_get_openned_dev H 0 st1 = (Inr 0, st1)"
    using openned_lookup [OF inv1, of 0] assms(4,5) by (simp add: st1_def)
  have used: "dsc_get_used_chan (dsc_devices st1 ! 0) (int j) = Inr j" using assms(6,7) by (simp add: used_chan_iff st1_def)
  consider "kt = 0" | "kt = 1" | "kt = 2" | "kt = 3" | "kt = 4" | "kt = 5" using assms(8) by linarith
  then have par: "(word_of_int (key_parity (0x80 + of_nat kt)) :: byte) = (if even kt then 1 else 0) \<and>
      (0x80 + of_nat kt :: 32 word) AND 0x80 \<noteq> 0"
    by cases (simp_all add: key_parity_def)
  show ?thesis
    using k look used par assms(2,3)
    by (intro exI [of _ st1] exI [of _ "g_sec_config st1"])
       (simp add: AM_DSC_SetKey_def Let_def dsc_sec_set_key_def am_kl_get_config_def st1_def)
qed


text \<open>A host with a secure library whose state counts the calls of the key ladder.\<close>

definition sec_demo_lib :: "nat sec_lib" where
  "sec_demo_lib = \<lparr>AM_DSC_SEC_Open = Some (\<lambda>_ e. (0, e)), AM_DSC_SEC_SetChannelPid = Some (\<lambda>_ _ _ e. (0, e)),
     AM_DSC_SEC_AllocChannel = Some (\<lambda>_ e. ((0, Some 7), e)), AM_DSC_SEC_FreeChannel = Some (\<lambda>_ _ e. (0, e)),
     AM_DSC_SEC_SetKey = Some (\<lambda>_ _ _ _ _ _ _ e. (0, e)), AM_DSC_SEC_KeyladderRun = Some (\<lambda>_ _ _ _ _ _ e. (0, e + 1)),
     AM_DSC_SEC_KeyladderCR = Some (\<lambda>_ _ e. (0, e)), AM_DSC_SEC_Close = Some (\<lambda>_ e. (0, e)), AM_DSC_SEC_SetOutput = Some (\<lambda>_ _ e. (0, e))\<rparr>"

definition sec_demo_host :: "nat dsc_host" where
  "sec_demo_host = \<lparr>h_dlopen = (\<lambda>e. (Some sec_demo_lib, e)), h_kl_open = (\<lambda>e. (-1, e)), h_kl_close = (\<lambda>_ e. e), h_kl_run = (\<lambda>_ _ e. (False, e)),
     h_kl_cr = (\<lambda>_ _ _ e. ((False, []), e)), h_dsc_max = (\<lambda>e. (None, e)), h_malloc = (\<lambda>e. (True, e)),
     h_open = (\<lambda>_ e. (None, e)), h_close = (\<lambda>_ e. e), h_set_pid = (\<lambda>_ _ e. (True, e)),
     h_set_key = (\<lambda>_ _ _ e. (True, e)), h_key_size = 16, h_echo = (\<lambda>_ _ e. (0, e))\<rparr>"

definition sec_demo :: "nat dsc_state" where
  "sec_demo = (dsc_init 0)\<lparr>dsc_inited := True, g_dsc_sec_mode := 1, g_dsc_sec_lib_handle := True, dsc_fns := sec_demo_lib, lib_refs := 1,
     dsc_devices := [(dsc_dev0 sec_demo_host)\<lparr>openned := True\<rparr>]\<rparr>"

definition sec_demo_chan :: "nat dsc_state" where
  "sec_demo_chan = (upd_chan 0 0 (\<lambda>c. c\<lparr>c_pid := 0xFFFF, c_used := True, c_stream_path := 7\<rparr>) sec_demo)\<lparr>g_kl_work_mode := 1, g_kl_lib := True, lib_refs := 2\<rparr>"

lemma sec_demo_reach: "dsc_reach sec_demo_host sec_demo_chan"
proof (rule dsc_reach.step [OF dsc_reach.step [OF dsc_reach.step [OF dsc_reach.init [of _ 0] dsc_step.opn] dsc_step.alloc] dsc_step.kl_init])
  show "AM_DSC_Open sec_demo_host 0 (dsc_init 0) = Some (0, sec_demo)"
    by (simp add: demo_open_defs sec_demo_host_def sec_demo_def dsc_init_def get_functions_eq sec_call_def sec_demo_lib_def)
  show "AM_DSC_AllocateChannel sec_demo_host 0 sec_demo
      = Some ((0, Some 0), upd_chan 0 0 (\<lambda>c. c\<lparr>c_pid := 0xFFFF, c_used := True, c_stream_path := 7\<rparr>) sec_demo)"
    by (simp add: AM_DSC_AllocateChannel_def dsc_get_openned_dev_def dsc_get_dev_def dsc_init_dev_db_def sec_demo_def
        dsc_init_def dsc_dev0_def dsc_chan0_def dsc_alloc_slot_def Let_def upd_chan_def upd_dsc_def sec_call_def sec_demo_lib_def
        numeral_eq_Suc)
  show "AM_KL_KeyladderInit sec_demo_host (upd_chan 0 0 (\<lambda>c. c\<lparr>c_pid := 0xFFFF, c_used := True, c_stream_path := 7\<rparr>) sec_demo)
      = (0, sec_demo_chan)"
    by (simp add: AM_KL_KeyladderInit_def kl_get_work_mode_def sec_demo_host_def sec_demo_chan_def sec_demo_def upd_chan_def upd_dsc_def
        dsc_init_def)
qed

theorem stored_keys_reach_library_witness:
  "\<exists>st1 cfg. AM_KL_SetKeyladder sec_demo_host (kl_config0\<lparr>ecw := [1], kl_levels := 3\<rparr>) sec_demo_chan = (0, st1) \<and>
     AM_DSC_SetKey sec_demo_host 0 0 0x81 [] st1
       = sec_call AM_DSC_SEC_KeyladderRun (\<lambda>f. f 0 7 0xFFFF 0 (Some cfg) 0x81) st1 \<and> ecw cfg = [1] \<and> kl_levels cfg = 3"
  using stored_keys_reach_library [OF sec_demo_reach, of 0 1 "kl_config0\<lparr>ecw := [1], kl_levels := 3\<rparr>" "[]"]
  by (simp add: sec_demo_chan_def sec_demo_def upd_chan_def upd_dsc_def dsc_init_def dsc_dev0_def) blast

end
