(* ===== verification/Ubootenv.thy ===== *)
theory Ubootenv
  imports Adp_Prelude
begin

unbundle bit_operations_syntax

text \<open>
  The boot environment of the system control service,
  \<^verbatim>\<open>frameworks/services/systemcontrol/ubootenv.c\<close>: the U-Boot variables are read from a flash
  partition that starts with a checksum, kept as a list of attributes, changed, and written back. The
  partition, the memory allocator, the Android properties and the checksum of zlib are the parameter
  \<open>env_host\<close>.

  A C string is the list of its bytes without the terminating 0. An operation returns, or is
  undefined (a read or write outside an object, a null pointer), or waits forever for a mutex that
  it holds itself.
\<close>

datatype 'a run = Done 'a | Undefined | Deadlock

fun run_bind :: "'a run \<Rightarrow> ('a \<Rightarrow> 'b run) \<Rightarrow> 'b run" where
  "run_bind (Done x) f = f x"
| "run_bind Undefined f = Undefined"
| "run_bind Deadlock f = Deadlock"

type_synonym cstring = "byte list"

definition cs :: "string \<Rightarrow> cstring" where
  "cs s = map of_char s"

text \<open>\<^verbatim>\<open>erasesize\<close> and \<^verbatim>\<open>size\<close> of \<^verbatim>\<open>mtd_info_user\<close>.\<close>

record mtd_info =
  erasesize :: nat
  mtd_size :: nat

record 'e env_host =
  u_crc32 :: "byte list \<Rightarrow> 32 word"
  u_malloc :: "nat \<Rightarrow> 'e \<Rightarrow> bool \<times> 'e"
  u_stat :: "string \<Rightarrow> 'e \<Rightarrow> bool"
  u_open :: "string \<Rightarrow> 'e \<Rightarrow> nat option \<times> 'e"
  u_close :: "nat \<Rightarrow> 'e \<Rightarrow> 'e"
  u_read :: "nat \<Rightarrow> nat \<Rightarrow> 'e \<Rightarrow> (int \<times> byte list) \<times> 'e"
  u_write :: "nat \<Rightarrow> byte list \<Rightarrow> 'e \<Rightarrow> int \<times> 'e"
  u_getinfo :: "nat \<Rightarrow> 'e \<Rightarrow> mtd_info option \<times> 'e"
  u_erase :: "nat \<Rightarrow> nat \<Rightarrow> 'e \<Rightarrow> bool \<times> 'e"
  u_rewind :: "nat \<Rightarrow> 'e \<Rightarrow> 'e"
  u_properties :: "'e \<Rightarrow> (cstring \<times> cstring) list"
  u_property_get :: "cstring \<Rightarrow> 'e \<Rightarrow> cstring"
  u_property_set :: "cstring \<Rightarrow> cstring \<Rightarrow> 'e \<Rightarrow> 'e"

text \<open>
  \<open>u_read\<close> gives the result of \<^verbatim>\<open>read\<close> and the bytes it stored. \<open>u_properties\<close> is the list that
  \<^verbatim>\<open>__system_property_find_nth\<close> walks through; an unset property reads as the empty string.
\<close>

text \<open>\<^verbatim>\<open>env_data.image\<close>; \<^verbatim>\<open>crc\<close> is its first four bytes and \<^verbatim>\<open>data\<close> the rest.\<close>

datatype image = ImgNull | ImgFreed | Img "byte list"

type_synonym env_attribute = "cstring \<times> cstring"

record 'e env_state =
  partition_name :: string
  prefix :: cstring
  ENV_PARTITIONS_SIZE :: nat
  ENV_EASER_SIZE :: nat
  ENV_SIZE :: nat
  ENT_INIT_DONE :: bool
  env_data :: image
  attributes :: "env_attribute list"
  env_lock :: bool
  world :: 'e

abbreviation (input) MAX_UBOOT_RWRETRY :: nat where "MAX_UBOOT_RWRETRY \<equiv> 5"
abbreviation (input) KEY_SIZE :: nat where "KEY_SIZE \<equiv> 256"
abbreviation (input) VALUE_SIZE :: nat where "VALUE_SIZE \<equiv> 1024"
abbreviation (input) EQUALS :: byte where "EQUALS \<equiv> 61"

text \<open>The checksum is stored with the low byte first.\<close>

definition le32 :: "byte list \<Rightarrow> 32 word" where
  "le32 b = ucast (b ! 0) OR push_bit 8 (ucast (b ! 1)) OR push_bit 16 (ucast (b ! 2)) OR push_bit 24 (ucast (b ! 3))"

definition le_bytes :: "32 word \<Rightarrow> byte list" where
  "le_bytes w = [ucast w, ucast (drop_bit 8 w), ucast (drop_bit 16 w), ucast (drop_bit 24 w)]"

subsection \<open>Attributes\<close>

text \<open>The string at an offset of a buffer; \<open>None\<close> when no 0 follows inside the buffer.\<close>

definition cstr_at :: "byte list \<Rightarrow> nat \<Rightarrow> cstring option" where
  "cstr_at a off =
     (let s = takeWhile (\<lambda>b. b \<noteq> 0) (drop off a) in if off + length s < length a then Some s else None)"

text \<open>
  One entry of \<^verbatim>\<open>env_parse_attribute\<close>: split at the first \<open>=\<close>; an entry without it stays empty.
  Keys and values that do not fit into their arrays make \<^verbatim>\<open>strcpy\<close> overrun them.
\<close>

definition parse_entry :: "cstring \<Rightarrow> env_attribute option" where
  "parse_entry s =
     (let k = first_idx (\<lambda>b. b = EQUALS) s
      in if k < length s
         then if k < KEY_SIZE \<and> length s - k - 1 < VALUE_SIZE then Some (take k s, drop (k + 1) s) else None
         else Some ([], []))"

text \<open>Replacing the first \<open>=\<close> of the entry at \<open>off\<close> by 0 is what the loop does to the buffer.\<close>

definition cut_entry :: "byte list \<Rightarrow> nat \<Rightarrow> cstring \<Rightarrow> byte list" where
  "cut_entry a off s =
     (let k = first_idx (\<lambda>b. b = EQUALS) s in if k < length s then a[off + k := 0] else a)"

function parse_loop :: "'e env_host \<Rightarrow> byte list \<Rightarrow> nat \<Rightarrow> 'e \<Rightarrow> ((env_attribute list \<times> byte list) \<times> 'e) option" where
  "parse_loop H a off e =
     (case cstr_at a off of
        None \<Rightarrow> None
      | Some s \<Rightarrow>
          (case parse_entry s of
             None \<Rightarrow> None
           | Some at \<Rightarrow>
               (let a1 = cut_entry a off s; next = off + length s + 1
                in if length a \<le> next then None
                   else if a1 ! next = 0 then Some (([at], a1), e)
                   else (case u_malloc H 1288 e of
                           (ok, e1) \<Rightarrow>
                             if \<not> ok then Some (([at], a1), e1)
                             else map_option (\<lambda>((ats, a2), e2). ((at # ats, a2), e2)) (parse_loop H a1 next e1)))))"
  by pat_completeness auto

termination
  by (relation "measure (\<lambda>(H, a, off, e). length a - off)") (auto simp: cut_entry_def Let_def cstr_at_def split: if_splits)

declare parse_loop.simps [simp del]

text \<open>The loop of \<^verbatim>\<open>env_revert_attribute\<close>: an entry of fewer than three bytes is overwritten by the next.\<close>

fun revert_loop :: "env_attribute list \<Rightarrow> nat \<Rightarrow> byte list \<Rightarrow> byte list option" where
  "revert_loop [] off a = Some a"
| "revert_loop ((k, v) # ats) off a =
     (let s = k @ [EQUALS] @ v
      in case copy_into a off (s @ [0]) of
           None \<Rightarrow> None
         | Some a1 \<Rightarrow> revert_loop ats (if length s < 3 then off else off + length s + 1) a1)"

definition env_revert_attribute :: "'e env_state \<Rightarrow> byte list \<Rightarrow> byte list option" where
  "env_revert_attribute st a =
     (if length a < ENV_SIZE st then None
      else revert_loop (attributes st) 0 (replicate (ENV_SIZE st) 0 @ drop (ENV_SIZE st) a))"

definition bootenv_get_value :: "cstring \<Rightarrow> 'e env_state \<Rightarrow> cstring option" where
  "bootenv_get_value key st = (if \<not> ENT_INIT_DONE st then None else map_of (attributes st) key)"

text \<open>
  \<^verbatim>\<open>bootenv_set_value\<close>: 2 for a changed, 1 for a new, 0 for an unknown variable. The result of
  \<^verbatim>\<open>malloc\<close> is used unchecked.
\<close>

fun set_first :: "cstring \<Rightarrow> cstring \<Rightarrow> env_attribute list \<Rightarrow> env_attribute list" where
  "set_first key val [] = []"
| "set_first key val ((k, v) # ats) = (if k = key then (k, val) # ats else (k, v) # set_first key val ats)"

definition bootenv_set_value :: "'e env_host \<Rightarrow> cstring \<Rightarrow> cstring \<Rightarrow> bool \<Rightarrow> 'e env_state \<Rightarrow> (int \<times> 'e env_state) run" where
  "bootenv_set_value H key val creat st =
     (if key \<in> fst ` set (attributes st)
      then if length val < VALUE_SIZE then Done (2, st\<lparr>attributes := set_first key val (attributes st)\<rparr>) else Undefined
      else if creat
      then (case u_malloc H 1288 (world st) of
              (ok, e) \<Rightarrow>
                if ok \<and> length key < KEY_SIZE \<and> length val < VALUE_SIZE
                then Done (1, st\<lparr>attributes := attributes st @ [(key, val)], world := e\<rparr>) else Undefined)
      else Done (0, st))"

subsection \<open>Reading and writing the partition\<close>

definition env_mutex_lock :: "'e env_state \<Rightarrow> 'e env_state run" where
  "env_mutex_lock st = (if env_lock st then Deadlock else Done (st\<lparr>env_lock := True\<rparr>))"

definition env_mutex_unlock :: "'e env_state \<Rightarrow> 'e env_state" where
  "env_mutex_unlock st = st\<lparr>env_lock := False\<rparr>"

definition env_parse_attribute :: "'e env_host \<Rightarrow> 'e env_state \<Rightarrow> 'e env_state run" where
  "env_parse_attribute H st =
     (case env_data st of
        Img a \<Rightarrow>
          (case parse_loop H (drop 4 a) 0 (world st) of
             None \<Rightarrow> Undefined
           | Some ((ats, d), e) \<Rightarrow> Done (st\<lparr>attributes := ats, env_data := Img (take 4 a @ d), world := e\<rparr>))
      | _ \<Rightarrow> Undefined)"

text \<open>The zeroed buffer after \<^verbatim>\<open>read\<close> stored \<open>bs\<close> in it.\<close>

definition read_image :: "nat \<Rightarrow> byte list \<Rightarrow> byte list" where
  "read_image n bs = take n (bs @ replicate n 0)"

definition read_bootenv :: "'e env_host \<Rightarrow> 'e env_state \<Rightarrow> (int \<times> 'e env_state) run" where
  "read_bootenv H st =
     (case u_open H (partition_name st) (world st) of
        (None, e1) \<Rightarrow> Done (-1, st\<lparr>world := e1\<rparr>)
      | (Some fd, e1) \<Rightarrow>
          (case u_malloc H (ENV_PARTITIONS_SIZE st) e1 of
             (False, e2) \<Rightarrow> Done (-2, st\<lparr>world := u_close H fd e2\<rparr>)
           | (True, e2) \<Rightarrow>
               (case u_read H fd (ENV_PARTITIONS_SIZE st) e2 of
                  ((ret, bs), e3) \<Rightarrow>
                    (let img = read_image (ENV_PARTITIONS_SIZE st) bs;
                         st1 = st\<lparr>env_data := Img img, world := e3\<rparr>
                     in if ret = int (ENV_PARTITIONS_SIZE st)
                        then if ENV_PARTITIONS_SIZE st < 4 + ENV_SIZE st then Undefined
                             else if u_crc32 H (take (ENV_SIZE st) (drop 4 img)) \<noteq> le32 img
                             then Done (-3, st1\<lparr>world := u_close H fd e3\<rparr>)
                             else run_bind (env_mutex_lock st1) (\<lambda>st2.
                                  run_bind (env_parse_attribute H st2) (\<lambda>st3.
                                  Done (0, (env_mutex_unlock st3)\<lparr>world := u_close H fd (world st3)\<rparr>)))
                        else Done (-5, st1\<lparr>world := u_close H fd e3\<rparr>)))))"

definition contains_mtd :: "string \<Rightarrow> bool" where
  "contains_mtd s \<longleftrightarrow> (\<exists>i \<in> set [0 ..< Suc (length s)]. take 3 (drop i s) = ''mtd'')"

text \<open>
  The part of \<^verbatim>\<open>save_bootenv\<close> for raw flash, which must be erased before it is written: either the
  result of the last write, or an early return.
\<close>

definition save_mtd :: "'e env_host \<Rightarrow> nat \<Rightarrow> byte list \<Rightarrow> 'e env_state \<Rightarrow> (int + int) \<times> 'e" where
  "save_mtd H fd img st =
     (case u_getinfo H fd (world st) of
        (None, e1) \<Rightarrow> (Inl (-4), u_close H fd e1)
      | (Some info, e1) \<Rightarrow>
          if erasesize info > ENV_PARTITIONS_SIZE st
          then (case u_malloc H (erasesize info) e1 of
                  (False, e2) \<Rightarrow> (Inl (-5), u_close H fd e2)
                | (True, e2) \<Rightarrow>
                    (case u_read H fd (erasesize info) e2 of
                       ((ret, bs), e3) \<Rightarrow>
                         if ret \<noteq> int (erasesize info) then (Inl (-6), u_close H fd e3)
                         else (case u_erase H fd (erasesize info) e3 of
                                 (False, e4) \<Rightarrow> (Inl (-2), u_close H fd e4)
                               | (True, e4) \<Rightarrow>
                                   (case u_write H fd (img @ drop (length img) bs) (u_rewind H fd e4) of (err, e5) \<Rightarrow> (Inr err, e5)))))
          else (case u_erase H fd (ENV_PARTITIONS_SIZE st) e1 of
                  (False, e2) \<Rightarrow> (Inl (-2), u_close H fd e2)
                | (True, e2) \<Rightarrow> (case u_write H fd img e2 of (err, e3) \<Rightarrow> (Inr err, e3))))"

definition save_bootenv :: "'e env_host \<Rightarrow> 'e env_state \<Rightarrow> (int \<times> 'e env_state) run" where
  "save_bootenv H st =
     (case env_data st of
        Img a \<Rightarrow>
          (case env_revert_attribute st (drop 4 a) of
             None \<Rightarrow> Undefined
           | Some d \<Rightarrow>
               (let img = le_bytes (u_crc32 H (take (ENV_SIZE st) d)) @ d;
                    st1 = st\<lparr>env_data := Img img\<rparr>
                in case u_open H (partition_name st) (world st) of
                     (None, e1) \<Rightarrow> Done (-1, st1\<lparr>world := e1\<rparr>)
                   | (Some fd, e1) \<Rightarrow>
                       (case (if contains_mtd (partition_name st) then save_mtd H fd img (st1\<lparr>world := e1\<rparr>)
                              else (case u_write H fd img e1 of (err, e2) \<Rightarrow> (Inr err, e2))) of
                          (Inl r, e2) \<Rightarrow> Done (r, st1\<lparr>world := e2\<rparr>)
                        | (Inr err, e2) \<Rightarrow> Done (if err < 0 then -3 else 0, st1\<lparr>world := u_close H fd e2\<rparr>))))
      | _ \<Rightarrow> Undefined)"

text \<open>\<^verbatim>\<open>while (i < 5 && ret < 0) { i++; ret = f(); }\<close>, with \<open>n\<close> attempts left; also returns how many are left.\<close>

fun retry :: "('e env_state \<Rightarrow> (int \<times> 'e env_state) run) \<Rightarrow> nat \<Rightarrow> int \<Rightarrow> 'e env_state \<Rightarrow> ((int \<times> nat) \<times> 'e env_state) run" where
  "retry f 0 ret st = Done ((ret, 0), st)"
| "retry f (Suc n) ret st =
     (if ret < 0 then run_bind (f st) (\<lambda>(r, st1). retry f n r st1) else Done ((ret, Suc n), st))"

subsection \<open>Variables and properties\<close>

definition is_bootenv_varible :: "cstring \<Rightarrow> 'e env_state \<Rightarrow> bool" where
  "is_bootenv_varible name st \<longleftrightarrow> name \<noteq> [] \<and> prefix st \<noteq> [] \<and> take (length (prefix st)) name = prefix st \<and>
     length (prefix st) < length name"

definition bootenv_prop_init :: "'e env_host \<Rightarrow> cstring \<times> cstring \<Rightarrow> nat \<times> 'e env_state \<Rightarrow> nat \<times> 'e env_state" where
  "bootenv_prop_init H kv cst =
     (case (kv, cst) of
        ((key, val), (count, st)) \<Rightarrow>
          if is_bootenv_varible key st
          then (let v = (case bootenv_get_value (drop (length (prefix st)) key) st of None \<Rightarrow> [] | Some v \<Rightarrow> v)
                in if v \<noteq> val then (count + 1, st\<lparr>world := u_property_set H key v (world st)\<rparr>) else (count, st))
          else (count, st))"

definition bootenv_property_list :: "'e env_host \<Rightarrow> nat \<times> 'e env_state \<Rightarrow> nat \<times> 'e env_state" where
  "bootenv_property_list H cst = fold (bootenv_prop_init H) (u_properties H (world (snd cst))) cst"

definition bootenv_props_load :: "'e env_host \<Rightarrow> 'e env_state \<Rightarrow> 'e env_state" where
  "bootenv_props_load H st =
     (let st1 = snd (bootenv_property_list H (0, st));
          bootcmd = prefix st1 @ cs ''bootcmd'';
          st2 = (if u_property_get H bootcmd (world st1) = []
                 then (case bootenv_get_value (cs ''bootcmd'') st1 of
                         None \<Rightarrow> st1
                       | Some v \<Rightarrow> st1\<lparr>world := u_property_set H bootcmd v (world st1)\<rparr>)
                 else st1)
      in st2\<lparr>ENT_INIT_DONE := True\<rparr>)"

text \<open>Choosing the partition; an early return is \<open>Inl\<close>. The size of a \<^verbatim>\<open>long\<close> is the parameter \<open>L\<close>.\<close>

definition bootenv_partition :: "'e env_host \<Rightarrow> nat \<Rightarrow> 'e env_state \<Rightarrow> (int + unit) \<times> 'e env_state" where
  "bootenv_partition H L st =
     (if u_stat H ''/dev/nand_env'' (world st)
      then (Inr (), st\<lparr>partition_name := ''/dev/nand_env'', ENV_PARTITIONS_SIZE := 0x10000, ENV_SIZE := 0x10000 - 4\<rparr>)
      else if u_stat H ''/dev/block/env'' (world st)
      then (Inr (), st\<lparr>partition_name := ''/dev/block/env'', ENV_PARTITIONS_SIZE := 0x10000, ENV_SIZE := 0x10000 - 4\<rparr>)
      else if u_stat H ''/dev/block/ubootenv'' (world st)
      then (let st1 = st\<lparr>partition_name := ''/dev/block/ubootenv''\<rparr>
            in case u_open H (partition_name st1) (world st1) of
                 (None, e1) \<Rightarrow> (Inl (-2), st1\<lparr>world := e1\<rparr>)
               | (Some fd, e1) \<Rightarrow>
                   (case u_getinfo H fd e1 of
                      (None, e2) \<Rightarrow> (Inl (-3), st1\<lparr>world := u_close H fd e2\<rparr>)
                    | (Some info, e2) \<Rightarrow> (Inr (), st1\<lparr>ENV_EASER_SIZE := erasesize info, ENV_PARTITIONS_SIZE := mtd_size info,
                                                    ENV_SIZE := nat ((int (mtd_size info) - int L) mod 2 ^ 32), world := e2\<rparr>)))
      else (Inr (), st))"

definition free_image :: "'e env_state \<Rightarrow> 'e env_state run" where
  "free_image st =
     (case env_data st of
        ImgNull \<Rightarrow> Done st
      | ImgFreed \<Rightarrow> Undefined
      | Img _ \<Rightarrow> Done (st\<lparr>env_data := ImgFreed\<rparr>))"

definition init_attempt :: "'e env_host \<Rightarrow> 'e env_state \<Rightarrow> (int \<times> 'e env_state) run" where
  "init_attempt H st =
     run_bind (read_bootenv H st) (\<lambda>(ret, st1).
       if ret < -2 then run_bind (free_image st1) (\<lambda>st2. Done (ret, st2)) else Done (ret, st1))"

definition bootenv_prefix :: "'e env_host \<Rightarrow> 'e env_state \<Rightarrow> int \<times> 'e env_state" where
  "bootenv_prefix H st =
     (let p = u_property_get H (cs ''ro.ubootenv.varible.prefix'') (world st);
          q = (if p = [] then cs ''ubootenv.var'' else p);
          st1 = (if p = [] then st\<lparr>world := u_property_set H (cs ''ro.ubootenv.varible.prefix'') q (world st)\<rparr> else st)
      in if length q > 16 then (-4, st1)
         else (0, bootenv_props_load H (st1\<lparr>prefix := q @ cs ''.''\<rparr>)))"

definition bootenv_init :: "'e env_host \<Rightarrow> nat \<Rightarrow> 'e env_state \<Rightarrow> (int \<times> 'e env_state) run" where
  "bootenv_init H L st =
     (case bootenv_partition H L st of
        (Inl r, st1) \<Rightarrow> Done (r, st1)
      | (Inr _, st1) \<Rightarrow>
          run_bind (retry (init_attempt H) MAX_UBOOT_RWRETRY (-1) st1) (\<lambda>((ret, n), st2).
            if n = 0 then Done (-2, st2) else Done (bootenv_prefix H st2)))"

definition bootenv_reinit :: "'e env_host \<Rightarrow> nat \<Rightarrow> 'e env_state \<Rightarrow> (int \<times> 'e env_state) run" where
  "bootenv_reinit H L st =
     run_bind (env_mutex_lock st) (\<lambda>st1.
     run_bind (free_image st1) (\<lambda>st2.
     run_bind (bootenv_init H L (st2\<lparr>env_data := ImgNull, attributes := [([], [])]\<rparr>)) (\<lambda>(r, st3).
     Done (0, env_mutex_unlock st3))))"

definition bootenv_update :: "'e env_host \<Rightarrow> cstring \<Rightarrow> cstring \<Rightarrow> 'e env_state \<Rightarrow> (int \<times> 'e env_state) run" where
  "bootenv_update H name val st =
     (if \<not> ENT_INIT_DONE st then Done (-1, st)
      else if name \<noteq> cs ''ubootenv.var.bootcmd'' \<and> \<not> is_bootenv_varible name st then Done (-2, st)
      else (let key = (if name = cs ''ubootenv.var.bootcmd'' then cs ''bootcmd'' else drop (length (prefix st)) name)
            in if val = (case bootenv_get_value key st of None \<Rightarrow> [] | Some v \<Rightarrow> v) then Done (0, st)
               else run_bind (env_mutex_lock st) (\<lambda>st1.
                    run_bind (bootenv_set_value H key val True st1) (\<lambda>(_, st2).
                    run_bind (retry (save_bootenv H) MAX_UBOOT_RWRETRY (-1) st2) (\<lambda>((ret, _), st3).
                    Done (ret, env_mutex_unlock st3))))))"

definition bootenv_get :: "cstring \<Rightarrow> 'e env_state \<Rightarrow> (cstring option \<times> 'e env_state) run" where
  "bootenv_get key st =
     (if \<not> is_bootenv_varible key st then Done (None, st)
      else run_bind (env_mutex_lock st) (\<lambda>st1.
           Done (bootenv_get_value (drop (length (prefix st1)) key) st1, env_mutex_unlock st1)))"

end
