(* ===== verification/Ubootenv_Facts.thy ===== *)
theory Ubootenv_Facts
  imports Ubootenv
begin

text \<open>
  Properties of the boot environment: printing and parsing the attributes are inverse to each other, a variable
  that was updated is found again after the partition is read, a damaged partition is rejected; and the
  errors of the initialisation.
\<close>

subsection \<open>The checksum field\<close>

lemma le32_le_bytes [simp]: "le32 (le_bytes w @ d) = w"
proof (rule bit_word_eqI)
  fix n assume "n < LENGTH(32)"
  then consider "n < 8" | "8 \<le> n" "n < 16" | "16 \<le> n" "n < 24" | "24 \<le> n" "n < 32" by fastforce
  then show "bit (le32 (le_bytes w @ d)) n \<longleftrightarrow> bit w n"
    by cases (auto simp: le32_def le_bytes_def bit_simps dest: bit_imp_le_length)
qed

lemma length_le_bytes [simp]: "length (le_bytes w) = 4"
  by (simp add: le_bytes_def)

subsection \<open>Printing and parsing\<close>

definition attr_ok :: "env_attribute \<Rightarrow> bool" where
  "attr_ok kv \<longleftrightarrow> (case kv of (k, v) \<Rightarrow> EQUALS \<notin> set k \<and> 0 \<notin> set k \<and> 0 \<notin> set v \<and> length k < KEY_SIZE \<and> length v < VALUE_SIZE \<and>
     2 \<le> length k + length v)"

definition enc :: "env_attribute \<Rightarrow> byte list" where
  "enc kv = fst kv @ [EQUALS] @ snd kv @ [0]"

definition encs :: "env_attribute list \<Rightarrow> byte list" where
  "encs ats = concat (map enc ats)"

lemma encs_simps [simp]: "encs [] = []" "encs (kv # ats) = enc kv @ encs ats" "encs (xs @ ys) = encs xs @ encs ys"
  by (simp_all add: encs_def)

lemma length_enc [simp]: "length (enc kv) = length (fst kv) + length (snd kv) + 2"
  by (simp add: enc_def)

lemma revert_loop_encs:
  "(\<forall>kv \<in> set ats. attr_ok kv) \<Longrightarrow> length (encs ats) \<le> m \<Longrightarrow>
   revert_loop ats (length pre) (pre @ replicate m 0 @ rest) = Some (pre @ encs ats @ replicate (m - length (encs ats)) 0 @ rest)"
proof (induction ats arbitrary: pre m)
  case (Cons kv ats)
  obtain k v where kv: "kv = (k, v)" by (cases kv)
  have len: "\<not> length (k @ [EQUALS] @ v) < 3" using Cons.prems(1) kv by (simp add: attr_ok_def)
  define m' where "m' = m - length (enc kv)"
  have m: "m = length (enc kv) + m'" "length (encs ats) \<le> m'" using Cons.prems(2) by (simp_all add: m'_def)
  have "copy_into (pre @ replicate m 0 @ rest) (length pre) (enc kv) = Some ((pre @ enc kv) @ replicate m' 0 @ rest)"
    using m(1) by (simp add: copy_into_def replicate_add)
  with Cons.IH [of m' "pre @ enc kv"] Cons.prems(1) m len show ?case
    by (simp add: kv enc_def)
qed simp

lemma cstr_enc:
  assumes "0 \<notin> set s"
  shows "cstr_at (pre @ s @ 0 # rest) (length pre) = Some s"
proof -
  have "takeWhile (\<lambda>b. b \<noteq> 0) (s @ 0 # rest) = s" using assms by (induction s) auto
  then show ?thesis by (simp add: cstr_at_def Let_def)
qed

lemma first_equals: "EQUALS \<notin> set k \<Longrightarrow> first_idx (\<lambda>b. b = EQUALS) (k @ EQUALS # v) = length k"
  by (induction k) auto

lemma parse_entry_enc: "attr_ok (k, v) \<Longrightarrow> parse_entry (k @ EQUALS # v) = Some (k, v)"
  by (simp add: parse_entry_def Let_def first_equals attr_ok_def)

lemma cut_entry_enc: "EQUALS \<notin> set k \<Longrightarrow>
  cut_entry (pre @ (k @ EQUALS # v) @ rest) (length pre) (k @ EQUALS # v) = pre @ (k @ 0 # v) @ rest"
  by (simp add: cut_entry_def Let_def first_equals list_update_append)

lemma attr_ok_zero: "attr_ok (k, v) \<Longrightarrow> 0 \<notin> set (k @ EQUALS # v)"
  by (simp add: attr_ok_def)

lemma enc_first: "attr_ok kv \<Longrightarrow> enc kv ! 0 \<noteq> 0"
  by (cases kv; cases "fst kv") (auto simp: enc_def attr_ok_def)

definition mallocs_ok :: "'e env_host \<Rightarrow> bool" where
  "mallocs_ok H \<longleftrightarrow> (\<forall>n e. fst (u_malloc H n e))"

lemma parse_loop_encs:
  "mallocs_ok H \<Longrightarrow> ats \<noteq> [] \<Longrightarrow> (\<forall>kv \<in> set ats. attr_ok kv) \<Longrightarrow>
   \<exists>d e'. parse_loop H (pre @ encs ats @ 0 # rest) (length pre) e = Some ((ats, d), e') \<and> length d = length (pre @ encs ats @ 0 # rest)"
proof (induction ats arbitrary: pre e)
  case (Cons kv ats)
  obtain k v where kv: "kv = (k, v)" by (cases kv)
  have ok: "attr_ok (k, v)" using Cons.prems(3) kv by simp
  define s where "s = k @ EQUALS # v"
  define more where "more = encs ats @ 0 # rest"
  have buf: "pre @ encs (kv # ats) @ 0 # rest = pre @ s @ 0 # more" by (simp add: kv enc_def s_def more_def)
  define pre' where "pre' = pre @ (k @ 0 # v) @ [0]"
  have cut: "cut_entry (pre @ s @ 0 # more) (length pre) s = pre' @ more"
    using cut_entry_enc [of k pre v "0 # more"] ok by (simp add: s_def pre'_def attr_ok_def)
  have nxt: "length pre + length s + 1 = length pre'" by (simp add: s_def pre'_def)
  have len: "length (pre @ s @ 0 # more) = length pre' + length more" "0 < length more"
    by (simp_all add: s_def pre'_def more_def)
  have ge: "\<not> Suc (length pre + (length s + length more)) \<le> length pre'" using len(2) nxt by linarith
  have step: "parse_loop H (pre @ s @ 0 # more) (length pre) e =
    (if more ! 0 = 0 then Some (([(k, v)], pre' @ more), e)
     else case u_malloc H 1288 e of (ok, e1) \<Rightarrow>
       if \<not> ok then Some (([(k, v)], pre' @ more), e1)
       else map_option (\<lambda>((ats, a2), e2). (((k, v) # ats, a2), e2)) (parse_loop H (pre' @ more) (length pre') e1))"
    unfolding parse_loop.simps [of H "pre @ s @ 0 # more"]
    using cstr_enc [of s pre more] attr_ok_zero [OF ok] parse_entry_enc [OF ok] cut nxt len
    by (simp add: s_def [symmetric] Let_def nth_append ge)
  show ?case
  proof (cases "ats = []")
    case True
    then show ?thesis unfolding buf step by (simp add: kv more_def pre'_def s_def)
  next
    case False
    then obtain kv' ats' where a: "ats = kv' # ats'" by (cases ats) auto
    have "more ! 0 \<noteq> 0" using enc_first [of kv'] Cons.prems(3) by (simp add: more_def a nth_append)
    moreover obtain e1 where "u_malloc H 1288 e = (True, e1)" using Cons.prems(1) by (metis mallocs_ok_def prod.collapse)
    moreover from Cons.IH [OF Cons.prems(1) False, of pre' e1] Cons.prems(3) obtain d e' where
      "parse_loop H (pre' @ more) (length pre') e1 = Some ((ats, d), e')" "length d = length (pre' @ more)"
      by (auto simp: more_def)
    ultimately show ?thesis unfolding buf step using len by (auto simp: kv)
  qed
qed simp


lemma revert_encs:
  assumes "\<forall>kv \<in> set (attributes st). attr_ok kv" "length (encs (attributes st)) < ENV_SIZE st" "ENV_SIZE st \<le> length a"
  shows "\<exists>rest. env_revert_attribute st a = Some (encs (attributes st) @ 0 # rest) \<and> length (encs (attributes st) @ 0 # rest) = length a"
proof -
  define m where "m = ENV_SIZE st - length (encs (attributes st))"
  then have "m \<noteq> 0" using assms(2) by simp
  then obtain m' where m: "m = Suc m'" by (cases m) auto
  have "env_revert_attribute st a = Some (encs (attributes st) @ replicate m 0 @ drop (ENV_SIZE st) a)"
    using assms revert_loop_encs [OF assms(1), of "ENV_SIZE st" "[]" "drop (ENV_SIZE st) a"]
    by (simp add: env_revert_attribute_def m_def)
  moreover have "length (encs (attributes st) @ replicate m 0 @ drop (ENV_SIZE st) a) = length a" using assms(2,3) by (simp add: m_def)
  ultimately show ?thesis using m by auto
qed

text \<open>
  C11: printing the attributes into the data area and parsing it again gives the same attributes in
  the same order, when they fit: no \<open>=\<close> in a key, no 0 byte, lengths within the arrays, at least three
  bytes printed, and room for the final 0.
\<close>

theorem attributes_print_parse:
  assumes "mallocs_ok H" "attributes st \<noteq> []" "\<forall>kv \<in> set (attributes st). attr_ok kv"
    and "length (encs (attributes st)) < ENV_SIZE st" "ENV_SIZE st \<le> length a" "length c = 4"
  shows "\<exists>d st'. env_revert_attribute st a = Some d \<and> length d = length a \<and>
    env_parse_attribute H (st\<lparr>env_data := Img (c @ d)\<rparr>) = Done st' \<and> attributes st' = attributes st"
proof -
  from revert_encs [OF assms(3-5)] obtain rest where
    r: "env_revert_attribute st a = Some (encs (attributes st) @ 0 # rest)" "length (encs (attributes st) @ 0 # rest) = length a" by blast
  from parse_loop_encs [OF assms(1-3), of "[]" rest "world st"] obtain d e where
    "parse_loop H (encs (attributes st) @ 0 # rest) 0 (world st) = Some ((attributes st, d), e)" by auto
  with r assms(6) show ?thesis by (auto simp: env_parse_attribute_def)
qed

subsection \<open>Updates\<close>

lemma map_of_set_first: "key \<in> fst ` set ats \<Longrightarrow> map_of (set_first key val ats) = (map_of ats)(key \<mapsto> val)"
  by (induction key val ats rule: set_first.induct) (auto simp: fun_upd_twist rev_image_eqI)

lemma map_of_snoc: "key \<notin> fst ` set ats \<Longrightarrow> map_of (ats @ [(key, val)]) = (map_of ats)(key \<mapsto> val)"
  by (auto simp: map_add_def dom_map_of_conv_image_fst fun_eq_iff split: option.splits dest: map_of_SomeD intro: rev_image_eqI)

lemma set_first_ok:
  "attr_ok (key, val) \<Longrightarrow> (\<forall>kv \<in> set ats. attr_ok kv) \<Longrightarrow> \<forall>kv \<in> set (set_first key val ats). attr_ok kv"
  by (induction key val ats rule: set_first.induct) auto

lemma set_first_length: "length (encs (set_first key val ats)) \<le> length (encs ats) + length val"
  by (induction key val ats rule: set_first.induct) auto

lemma set_first_nonempty [simp]: "set_first key val ats = [] \<longleftrightarrow> ats = []"
  by (cases ats) (auto split: if_splits)

text \<open>
  What the update relies on of the partition: opening and allocating succeed, nothing but writing changes the
  content, a write stores all its bytes, and a read of the whole partition gets the content.
\<close>

definition flash_ok :: "'e env_host \<Rightarrow> string \<Rightarrow> ('e \<Rightarrow> byte list) \<Rightarrow> bool" where
  "flash_ok H name content \<longleftrightarrow>
     (\<forall>e. \<exists>fd e'. u_open H name e = (Some fd, e') \<and> content e' = content e) \<and>
     (\<forall>n e. \<exists>e'. u_malloc H n e = (True, e') \<and> content e' = content e) \<and>
     (\<forall>fd e. content (u_close H fd e) = content e) \<and>
     (\<forall>fd img e. \<exists>r e'. u_write H fd img e = (r, e') \<and> 0 \<le> r \<and> content e' = img) \<and>
     (\<forall>fd e. \<exists>e'. u_read H fd (length (content e)) e = ((int (length (content e)), content e), e') \<and> content e' = content e)"

definition env_ok :: "'e env_state \<Rightarrow> bool" where
  "env_ok st \<longleftrightarrow> attributes st \<noteq> [] \<and> (\<forall>kv \<in> set (attributes st). attr_ok kv) \<and> length (encs (attributes st)) < ENV_SIZE st \<and>
     4 + ENV_SIZE st \<le> ENV_PARTITIONS_SIZE st \<and> (\<exists>a. env_data st = Img a \<and> length a = ENV_PARTITIONS_SIZE st) \<and>
     \<not> contains_mtd (partition_name st)"

text \<open>The image of a well-formed partition.\<close>

definition holds_image :: "'e env_host \<Rightarrow> nat \<Rightarrow> nat \<Rightarrow> env_attribute list \<Rightarrow> byte list \<Rightarrow> bool" where
  "holds_image H psize esize ats img \<longleftrightarrow> length img = psize \<and>
     (\<exists>rest. img = le_bytes (u_crc32 H (take esize (encs ats @ 0 # rest))) @ encs ats @ 0 # rest)"

lemma flash_mallocs: "flash_ok H name content \<Longrightarrow> mallocs_ok H"
  unfolding flash_ok_def mallocs_ok_def by (metis fst_conv)

lemma save_ok:
  assumes "flash_ok H (partition_name st) content" "env_ok st"
  shows "\<exists>st'. save_bootenv H st = Done (0, st') \<and> attributes st' = attributes st \<and> ENT_INIT_DONE st' = ENT_INIT_DONE st \<and>
    holds_image H (ENV_PARTITIONS_SIZE st) (ENV_SIZE st) (attributes st) (content (world st'))"
proof -
  from assms(2) obtain a where a: "env_data st = Img a" "length a = ENV_PARTITIONS_SIZE st" "4 + ENV_SIZE st \<le> length a"
    by (auto simp: env_ok_def)
  then have "ENV_SIZE st \<le> length (drop 4 a)" by simp
  with revert_encs [of st "drop 4 a"] assms(2) obtain rest where
    r: "env_revert_attribute st (drop 4 a) = Some (encs (attributes st) @ 0 # rest)"
      "length (encs (attributes st) @ 0 # rest) = length (drop 4 a)" by (auto simp: env_ok_def)
  define img where "img = le_bytes (u_crc32 H (take (ENV_SIZE st) (encs (attributes st) @ 0 # rest))) @ encs (attributes st) @ 0 # rest"
  from assms(1) obtain fd e1 where o: "u_open H (partition_name st) (world st) = (Some fd, e1)" unfolding flash_ok_def by meson
  from assms(1) obtain err e2 where w: "u_write H fd img e1 = (err, e2)" "0 \<le> err" "content e2 = img" unfolding flash_ok_def by meson
  have cl: "content (u_close H fd e2) = img" using assms(1) w(3) by (simp add: flash_ok_def)
  have "holds_image H (ENV_PARTITIONS_SIZE st) (ENV_SIZE st) (attributes st) img"
    using r(2) a(2,3) by (auto simp: holds_image_def img_def)
  moreover have "save_bootenv H st = Done (0, st\<lparr>env_data := Img img, world := u_close H fd e2\<rparr>)"
    using a(1) r(1) o w assms(2) by (simp add: save_bootenv_def Let_def img_def env_ok_def)
  ultimately show ?thesis using cl by auto
qed

lemma read_image_full: "length bs = n \<Longrightarrow> read_image n bs = bs"
  by (simp add: read_image_def)

lemma read_ok:
  assumes "flash_ok H (partition_name st) content" "\<not> env_lock st" "4 + ENV_SIZE st \<le> ENV_PARTITIONS_SIZE st"
    and "holds_image H (ENV_PARTITIONS_SIZE st) (ENV_SIZE st) ats (content (world st))" "ats \<noteq> []" "\<forall>kv \<in> set ats. attr_ok kv"
  shows "\<exists>st'. read_bootenv H st = Done (0, st') \<and> attributes st' = ats \<and> \<not> env_lock st'"
proof -
  define img where "img = content (world st)"
  from assms(4) obtain rest where img: "length img = ENV_PARTITIONS_SIZE st"
    "img = le_bytes (u_crc32 H (take (ENV_SIZE st) (encs ats @ 0 # rest))) @ encs ats @ 0 # rest"
    by (auto simp: holds_image_def img_def)
  from assms(1) obtain fd e1 where o: "u_open H (partition_name st) (world st) = (Some fd, e1)" "content e1 = img"
    unfolding flash_ok_def img_def by meson
  from assms(1) o(2) obtain e2 where m: "u_malloc H (ENV_PARTITIONS_SIZE st) e1 = (True, e2)" "content e2 = img" unfolding flash_ok_def by metis
  from assms(1) m(2) img(1) obtain e3 where
    r: "u_read H fd (ENV_PARTITIONS_SIZE st) e2 = ((int (ENV_PARTITIONS_SIZE st), img), e3)" unfolding flash_ok_def by metis
  from parse_loop_encs [OF flash_mallocs [OF assms(1)] assms(5,6), of "[]" rest e3] obtain d e4 where
    p: "parse_loop H (encs ats @ 0 # rest) 0 e3 = Some ((ats, d), e4)" by auto
  have "drop 4 img = encs ats @ 0 # rest" "read_image (ENV_PARTITIONS_SIZE st) img = img"
    using img by (simp, simp add: read_image_full)
  moreover have "le32 img = u_crc32 H (take (ENV_SIZE st) (encs ats @ 0 # rest))" unfolding img(2) by simp
  ultimately show ?thesis
    using o(1) m(1) r p assms(2,3)
    by (simp add: read_bootenv_def Let_def env_mutex_lock_def env_mutex_unlock_def env_parse_attribute_def)
qed

lemma set_value_ok:
  assumes "flash_ok H (partition_name st) content" "env_ok st" "attr_ok (key, val)"
    and "length (encs (attributes st)) + length (enc (key, val)) < ENV_SIZE st"
  shows "\<exists>r st'. bootenv_set_value H key val True st = Done (r, st') \<and> env_ok st' \<and>
    map_of (attributes st') = (map_of (attributes st))(key \<mapsto> val) \<and> partition_name st' = partition_name st \<and>
    ENV_SIZE st' = ENV_SIZE st \<and> ENV_PARTITIONS_SIZE st' = ENV_PARTITIONS_SIZE st \<and> ENT_INIT_DONE st' = ENT_INIT_DONE st"
proof (cases "key \<in> fst ` set (attributes st)")
  case True
  have len: "length val < VALUE_SIZE" using assms(3) by (simp add: attr_ok_def)
  have "length (encs (set_first key val (attributes st))) < ENV_SIZE st"
    using set_first_length [of key val "attributes st"] assms(4) by simp
  then show ?thesis
    using True assms(2,3) map_of_set_first [OF True, of val] set_first_ok [OF assms(3), of "attributes st"] len
    by (simp add: bootenv_set_value_def env_ok_def)
next
  case False
  from assms(1) obtain e where "u_malloc H 1288 (world st) = (True, e)" unfolding flash_ok_def by meson
  moreover have "length key < KEY_SIZE" "length val < VALUE_SIZE" using assms(3) by (simp_all add: attr_ok_def)
  ultimately show ?thesis
    using False assms(2-4) map_of_snoc [OF False, of val] by (simp add: bootenv_set_value_def env_ok_def)
qed

text \<open>
  C10: an update of a variable survives a restart. On a partition that keeps what is written, updating a
  variable to a new value succeeds, the variable then has this value, and reading the partition afterwards
  gives the old variables with this one changed.
\<close>

theorem update_survives_restart:
  assumes "flash_ok H (partition_name st) content" "env_ok st" "ENT_INIT_DONE st" "\<not> env_lock st"
    and "name = cs ''ubootenv.var.bootcmd'' \<or> is_bootenv_varible name st"
    and "key = (if name = cs ''ubootenv.var.bootcmd'' then cs ''bootcmd'' else drop (length (prefix st)) name)"
    and "val \<noteq> (case bootenv_get_value key st of None \<Rightarrow> [] | Some v \<Rightarrow> v)" "attr_ok (key, val)"
    and "length (encs (attributes st)) + length (enc (key, val)) < ENV_SIZE st"
  shows "\<exists>st'. bootenv_update H name val st = Done (0, st') \<and> bootenv_get_value key st' = Some val \<and>
    (\<forall>st0. partition_name st0 = partition_name st \<and> ENV_PARTITIONS_SIZE st0 = ENV_PARTITIONS_SIZE st \<and> ENV_SIZE st0 = ENV_SIZE st \<and>
       \<not> env_lock st0 \<and> world st0 = world st' \<longrightarrow>
       (\<exists>st1. read_bootenv H st0 = Done (0, st1) \<and> map_of (attributes st1) = (map_of (attributes st))(key \<mapsto> val)))"
proof -
  define st1 where "st1 = st\<lparr>env_lock := True\<rparr>"
  have l: "env_mutex_lock st = Done st1" using assms(4) by (simp add: env_mutex_lock_def st1_def)
  have ok1: "env_ok st1" "flash_ok H (partition_name st1) content" using assms(1,2) by (simp_all add: st1_def env_ok_def)
  from set_value_ok [OF ok1(2,1) assms(8)] assms(9) obtain r st2 where
    s: "bootenv_set_value H key val True st1 = Done (r, st2)" "env_ok st2"
      "map_of (attributes st2) = (map_of (attributes st))(key \<mapsto> val)" "partition_name st2 = partition_name st"
      "ENV_SIZE st2 = ENV_SIZE st" "ENV_PARTITIONS_SIZE st2 = ENV_PARTITIONS_SIZE st" "ENT_INIT_DONE st2"
    using assms(3) by (auto simp: st1_def)
  from save_ok [of H st2 content] s(2,4) assms(1) obtain st3 where
    w: "save_bootenv H st2 = Done (0, st3)" "holds_image H (ENV_PARTITIONS_SIZE st) (ENV_SIZE st) (attributes st2) (content (world st3))"
      "attributes st3 = attributes st2" "ENT_INIT_DONE st3"
    using s(5-7) by auto
  have "retry (save_bootenv H) 5 (-1) st2 = Done ((0, 4), st3)" using w(1) by (simp add: numeral_eq_Suc)
  then have u: "bootenv_update H name val st = Done (0, env_mutex_unlock st3)"
    using assms(3,5,7) l s(1) assms(6) by (auto simp: bootenv_update_def Let_def)
  have "\<exists>st1. read_bootenv H st0 = Done (0, st1) \<and> map_of (attributes st1) = (map_of (attributes st))(key \<mapsto> val)"
    if "partition_name st0 = partition_name st" "ENV_PARTITIONS_SIZE st0 = ENV_PARTITIONS_SIZE st" "ENV_SIZE st0 = ENV_SIZE st"
      "\<not> env_lock st0" "world st0 = world (env_mutex_unlock st3)" for st0
    using read_ok [of H st0 content "attributes st2"] that assms(1,2) w(2) s(2,3) by (auto simp: env_ok_def env_mutex_unlock_def)
  moreover have "bootenv_get_value key (env_mutex_unlock st3) = Some val"
    using w(3,4) s(3) by (simp add: bootenv_get_value_def env_mutex_unlock_def)
  ultimately show ?thesis using u by blast
qed


text \<open>A partition of 36 bytes, kept in memory, with one variable.\<close>

definition ram_host :: "byte list env_host" where
  "ram_host = \<lparr>u_crc32 = (\<lambda>bs. of_nat (length bs)), u_malloc = (\<lambda>_ e. (True, e)), u_stat = (\<lambda>s _. s = ''/dev/nand_env''),
     u_open = (\<lambda>_ e. (Some 3, e)), u_close = (\<lambda>_ e. e), u_read = (\<lambda>_ n e. ((int n, take n e), e)),
     u_write = (\<lambda>_ img _. (int (length img), img)), u_getinfo = (\<lambda>_ e. (None, e)), u_erase = (\<lambda>_ _ e. (True, e)),
     u_rewind = (\<lambda>_ e. e), u_properties = (\<lambda>_. []), u_property_get = (\<lambda>_ _. []), u_property_set = (\<lambda>_ _ e. e)\<rparr>"

definition ram_state :: "byte list env_state" where
  "ram_state = \<lparr>partition_name = ''/dev/nand_env'', prefix = cs ''ubootenv.var.'', ENV_PARTITIONS_SIZE = 36, ENV_EASER_SIZE = 0, ENV_SIZE = 32,
     ENT_INIT_DONE = True, env_data = Img (replicate 36 0), attributes = [(cs ''a'', cs ''b'')], env_lock = False, world = replicate 36 0\<rparr>"

lemma ram_flash: "flash_ok ram_host name (\<lambda>e. e)"
  by (simp add: flash_ok_def ram_host_def)

lemma ram_env_ok: "env_ok ram_state"
  by (simp add: env_ok_def ram_state_def attr_ok_def cs_def contains_mtd_def upt_rec)

theorem attributes_print_parse_witness:
  "\<exists>d st'. env_revert_attribute ram_state (replicate 32 0) = Some d \<and>
     env_parse_attribute ram_host (ram_state\<lparr>env_data := Img (replicate 4 0 @ d)\<rparr>) = Done st' \<and> attributes st' = [(cs ''a'', cs ''b'')]"
  using attributes_print_parse [of ram_host ram_state "replicate 32 0" "replicate 4 0"] flash_mallocs [OF ram_flash] ram_env_ok
  by (fastforce simp: env_ok_def ram_state_def)

theorem update_survives_restart_witness:
  "\<exists>st' st1. bootenv_update ram_host (cs ''ubootenv.var.c'') (cs ''de'') ram_state = Done (0, st') \<and>
     bootenv_get_value (cs ''c'') st' = Some (cs ''de'') \<and> read_bootenv ram_host (ram_state\<lparr>world := world st'\<rparr>) = Done (0, st1) \<and>
     map_of (attributes st1) (cs ''a'') = Some (cs ''b'')"
proof -
  have "is_bootenv_varible (cs ''ubootenv.var.c'') ram_state" "drop (length (prefix ram_state)) (cs ''ubootenv.var.c'') = cs ''c''"
    "cs ''ubootenv.var.c'' \<noteq> cs ''ubootenv.var.bootcmd''" "attr_ok (cs ''c'', cs ''de'')" "\<not> env_lock ram_state" "ENT_INIT_DONE ram_state"
    "bootenv_get_value (cs ''c'') ram_state = None" "cs ''de'' \<noteq> []"
    "length (encs (attributes ram_state)) + length (enc (cs ''c'', cs ''de'')) < ENV_SIZE ram_state"
    "map_of (attributes ram_state) (cs ''a'') = Some (cs ''b'')" "cs ''a'' \<noteq> cs ''c''"
    by (simp_all add: is_bootenv_varible_def cs_def ram_state_def attr_ok_def bootenv_get_value_def)
  note facts = this
  from update_survives_restart [OF ram_flash ram_env_ok facts(6,5), of "cs ''ubootenv.var.c''" "cs ''c''" "cs ''de''"] facts
  obtain st' where u: "bootenv_update ram_host (cs ''ubootenv.var.c'') (cs ''de'') ram_state = Done (0, st')"
    "bootenv_get_value (cs ''c'') st' = Some (cs ''de'')"
    "\<forall>st0. partition_name st0 = partition_name ram_state \<and> ENV_PARTITIONS_SIZE st0 = ENV_PARTITIONS_SIZE ram_state \<and>
       ENV_SIZE st0 = ENV_SIZE ram_state \<and> \<not> env_lock st0 \<and> world st0 = world st' \<longrightarrow>
       (\<exists>st1. read_bootenv ram_host st0 = Done (0, st1) \<and> map_of (attributes st1) = (map_of (attributes ram_state))(cs ''c'' \<mapsto> cs ''de''))"
    by auto
  from u(3) [rule_format, of "ram_state\<lparr>world := world st'\<rparr>"] facts(5) obtain st1 where
    "read_bootenv ram_host (ram_state\<lparr>world := world st'\<rparr>) = Done (0, st1)"
    "map_of (attributes st1) = (map_of (attributes ram_state))(cs ''c'' \<mapsto> cs ''de'')" by auto
  with u(1,2) facts(10,11) show ?thesis by auto
qed

subsection \<open>Initialisation\<close>

text \<open>Reading a partition whose checksum is wrong.\<close>

lemma read_damaged:
  assumes "flash_ok H (partition_name st) content" "length (content (world st)) = ENV_PARTITIONS_SIZE st"
    and "4 + ENV_SIZE st \<le> ENV_PARTITIONS_SIZE st"
    and "u_crc32 H (take (ENV_SIZE st) (drop 4 (content (world st)))) \<noteq> le32 (content (world st))"
  shows "\<exists>e. init_attempt H st = Done (-3, st\<lparr>env_data := ImgFreed, world := e\<rparr>) \<and> content e = content (world st)"
proof -
  from assms(1) obtain fd e1 where o: "u_open H (partition_name st) (world st) = (Some fd, e1)" "content e1 = content (world st)"
    unfolding flash_ok_def by meson
  from assms(1) o(2) obtain e2 where m: "u_malloc H (ENV_PARTITIONS_SIZE st) e1 = (True, e2)" "content e2 = content (world st)"
    unfolding flash_ok_def by metis
  from assms(1,2) m(2) obtain e3 where
    r: "u_read H fd (ENV_PARTITIONS_SIZE st) e2 = ((int (ENV_PARTITIONS_SIZE st), content (world st)), e3)" "content e3 = content (world st)"
    unfolding flash_ok_def by metis
  have "content (u_close H fd e3) = content (world st)" using assms(1) r(2) by (simp add: flash_ok_def)
  moreover have "read_bootenv H st = Done (-3, st\<lparr>env_data := Img (content (world st)), world := u_close H fd e3\<rparr>)"
    using o(1) m(1) r(1) assms(2-4) by (simp add: read_bootenv_def Let_def read_image_full)
  ultimately show ?thesis by (intro exI [of _ "u_close H fd e3"]) (simp add: init_attempt_def free_image_def)
qed

lemma retry_damaged:
  assumes "flash_ok H (partition_name st) content" "length (content (world st)) = ENV_PARTITIONS_SIZE st"
    and "4 + ENV_SIZE st \<le> ENV_PARTITIONS_SIZE st"
    and "u_crc32 H (take (ENV_SIZE st) (drop 4 (content (world st)))) \<noteq> le32 (content (world st))" "ret < 0"
  shows "\<exists>e ret'. retry (init_attempt H) (Suc n) ret st = Done ((ret', 0), st\<lparr>env_data := ImgFreed, world := e\<rparr>)"
  using assms
proof (induction n arbitrary: st ret)
  case 0
  with read_damaged [of H st content] show ?case by auto
next
  case (Suc n)
  from read_damaged [OF Suc.prems(1-4)] obtain e where
    a: "init_attempt H st = Done (-3, st\<lparr>env_data := ImgFreed, world := e\<rparr>)" "content e = content (world st)" by blast
  from Suc.IH [of "st\<lparr>env_data := ImgFreed, world := e\<rparr>" "-3"] Suc.prems a(2) obtain e' ret' where
    "retry (init_attempt H) (Suc n) (-3) (st\<lparr>env_data := ImgFreed, world := e\<rparr>)
       = Done ((ret', 0), st\<lparr>env_data := ImgFreed, world := e'\<rparr>)" by auto
  with a(1) Suc.prems(5) show ?case by auto
qed

lemma retry_5:
  "retry f 5 ret st = (if ret < 0 then run_bind (f st) (\<lambda>(r, st1). retry f 4 r st1) else Done ((ret, 5), st))"
  using retry.simps(2) [of f 4 ret st] by simp

text \<open>
  with a damaged partition the initialisation gives up, leaves the variables as they were and the
  module not initialised, but keeps a pointer to the buffer that it has freed: a later
  re-initialisation frees it again.
\<close>

theorem damaged_partition_double_free:
  assumes "u_stat H ''/dev/nand_env'' (world st)" "flash_ok H ''/dev/nand_env'' content" "length (content (world st)) = 0x10000"
    and "u_crc32 H (take (0x10000 - 4) (drop 4 (content (world st)))) \<noteq> le32 (content (world st))" "\<not> env_lock st"
  shows "\<exists>st'. bootenv_init H L st = Done (-2, st') \<and> attributes st' = attributes st \<and> ENT_INIT_DONE st' = ENT_INIT_DONE st \<and>
    bootenv_reinit H L st' = Undefined"
proof -
  define st1 where "st1 = st\<lparr>partition_name := ''/dev/nand_env'', ENV_PARTITIONS_SIZE := 0x10000, ENV_SIZE := 0x10000 - 4\<rparr>"
  have p: "bootenv_partition H L st = (Inr (), st1)" using assms(1) by (simp add: bootenv_partition_def st1_def)
  from retry_damaged [of H st1 content "-1" 4] assms(2-4) obtain e ret where
    "retry (init_attempt H) 5 (-1) st1 = Done ((ret, 0), st1\<lparr>env_data := ImgFreed, world := e\<rparr>)" by (auto simp: st1_def)
  then have "bootenv_init H L st = Done (-2, st1\<lparr>env_data := ImgFreed, world := e\<rparr>)"
    by (simp add: bootenv_init_def p)
  with assms(5) show ?thesis by (simp add: st1_def bootenv_reinit_def env_mutex_lock_def free_image_def)
qed

text \<open>
  C40: re-initialising never returns when the partition can be read and is not damaged: the lock that
  \<^verbatim>\<open>bootenv_reinit\<close> holds is taken again by \<^verbatim>\<open>read_bootenv\<close>.
\<close>

theorem reinit_deadlocks:
  assumes "u_stat H ''/dev/nand_env'' (world st)" "flash_ok H ''/dev/nand_env'' content" "length (content (world st)) = 0x10000"
    and "u_crc32 H (take (0x10000 - 4) (drop 4 (content (world st)))) = le32 (content (world st))"
    and "env_data st \<noteq> ImgFreed"
  shows "bootenv_reinit H L st = Deadlock"
proof (cases "env_lock st")
  case False
  define st1 where "st1 = st\<lparr>env_lock := True, env_data := ImgNull, attributes := [([], [])],
    partition_name := ''/dev/nand_env'', ENV_PARTITIONS_SIZE := 0x10000, ENV_SIZE := 0x10000 - 4\<rparr>"
  from assms(2) obtain fd e1 where o: "u_open H ''/dev/nand_env'' (world st) = (Some fd, e1)" "content e1 = content (world st)"
    unfolding flash_ok_def by meson
  from assms(2) o(2) obtain e2 where m: "u_malloc H 0x10000 e1 = (True, e2)" "content e2 = content (world st)"
    unfolding flash_ok_def by metis
  from assms(2,3) m(2) obtain e3 where r: "u_read H fd 0x10000 e2 = ((int 0x10000, content (world st)), e3)"
    unfolding flash_ok_def by metis
  have "read_bootenv H st1 = Deadlock"
    using o(1) m(1) r assms(3,4) by (simp add: read_bootenv_def st1_def Let_def read_image_full env_mutex_lock_def)
  then have retry: "retry (init_attempt H) 5 (-1) st1 = Deadlock" by (simp add: retry_5 init_attempt_def)
  obtain st2 where f: "env_mutex_lock st = Done (st\<lparr>env_lock := True\<rparr>)" "free_image (st\<lparr>env_lock := True\<rparr>) = Done st2"
    "st2\<lparr>env_data := ImgNull, attributes := [([], [])]\<rparr> = st\<lparr>env_lock := True, env_data := ImgNull, attributes := [([], [])]\<rparr>"
    using False assms(5) by (cases "env_data st") (auto simp: env_mutex_lock_def free_image_def)
  have "bootenv_partition H L (st\<lparr>env_lock := True, env_data := ImgNull, attributes := [([], [])]\<rparr>) = (Inr (), st1)"
    using assms(1) by (simp add: bootenv_partition_def st1_def)
  with retry f show ?thesis by (simp add: bootenv_reinit_def bootenv_init_def)
qed (simp add: bootenv_reinit_def env_mutex_lock_def)

text \<open>Changing the attributes commutes with the first load.\<close>

lemma prop_init_frame:
  assumes "\<not> ENT_INIT_DONE (snd cst)"
  shows "bootenv_prop_init H kv (apsnd (attributes_update (\<lambda>_. ats)) cst) = apsnd (attributes_update (\<lambda>_. ats)) (bootenv_prop_init H kv cst) \<and>
    \<not> ENT_INIT_DONE (snd (bootenv_prop_init H kv cst))"
  using assms by (cases kv; cases cst) (simp add: bootenv_prop_init_def Let_def bootenv_get_value_def is_bootenv_varible_def)

lemma property_fold_frame:
  "\<not> ENT_INIT_DONE (snd cst) \<Longrightarrow>
   fold (bootenv_prop_init H) ps (apsnd (attributes_update (\<lambda>_. ats)) cst) = apsnd (attributes_update (\<lambda>_. ats)) (fold (bootenv_prop_init H) ps cst) \<and>
   \<not> ENT_INIT_DONE (snd (fold (bootenv_prop_init H) ps cst))"
  by (induction ps arbitrary: cst) (simp_all add: prop_init_frame)

text \<open>
  the first load of the properties does not depend on the environment that was read: whatever
  the attributes are, the same properties are set to the same values, because lookups fail until the load is done.
\<close>

theorem first_load_ignores_environment:
  assumes "\<not> ENT_INIT_DONE st"
  shows "bootenv_props_load H (st\<lparr>attributes := ats\<rparr>) = (bootenv_props_load H st)\<lparr>attributes := ats\<rparr>"
proof -
  define cst where "cst = fold (bootenv_prop_init H) (u_properties H (world st)) (0, st)"
  have "bootenv_property_list H (0, st) = cst" "bootenv_property_list H (0, st\<lparr>attributes := ats\<rparr>) = apsnd (attributes_update (\<lambda>_. ats)) cst"
    "\<not> ENT_INIT_DONE (snd cst)"
    using property_fold_frame [of "(0, st)" H "u_properties H (world st)" ats] assms
    by (simp_all add: bootenv_property_list_def cst_def)
  then show ?thesis by (simp add: bootenv_props_load_def Let_def bootenv_get_value_def)
qed


text \<open>A partition of 64 KB with the same host: all zero, which is damaged, and with a correct checksum.\<close>

definition nand_state :: "32 word \<Rightarrow> byte list env_state" where
  "nand_state c = ram_state\<lparr>ENT_INIT_DONE := False, world := le_bytes c @ replicate 65532 0\<rparr>"

lemma nand_facts:
  "u_stat ram_host ''/dev/nand_env'' (world (nand_state c))" "length (world (nand_state c)) = 0x10000"
  "\<not> env_lock (nand_state c)" "env_data (nand_state c) \<noteq> ImgFreed" "\<not> ENT_INIT_DONE (nand_state c)"
  "u_crc32 ram_host (take (0x10000 - 4) (drop 4 (world (nand_state c)))) = 65532" "le32 (world (nand_state c)) = c"
  by (simp_all add: nand_state_def ram_state_def ram_host_def)

theorem damaged_partition_double_free_witness:
  "\<exists>st'. bootenv_init ram_host 4 (nand_state 0) = Done (-2, st') \<and> bootenv_reinit ram_host 4 st' = Undefined"
  using damaged_partition_double_free [OF nand_facts(1) ram_flash, of 0 4] nand_facts [of 0] by auto

theorem reinit_deadlocks_witness: "bootenv_reinit ram_host 4 (nand_state 65532) = Deadlock"
  by (rule reinit_deadlocks [OF nand_facts(1) ram_flash]) (use nand_facts [of 65532] in simp_all)

theorem first_load_ignores_environment_witness:
  "bootenv_props_load ram_host ((nand_state 0)\<lparr>attributes := [(cs ''bootcmd'', cs ''run'')]\<rparr>)
     = (bootenv_props_load ram_host (nand_state 0))\<lparr>attributes := [(cs ''bootcmd'', cs ''run'')]\<rparr>"
  by (rule first_load_ignores_environment [OF nand_facts(5)])

end
