(* ===== verification/Byte_Ring.thy ===== *)
theory Byte_Ring
  imports Adp_Prelude
begin

text \<open>
  Ring buffers. The user data module keeps its packets in a circular array that
  is read and written with one or two calls of \<^verbatim>\<open>memcpy\<close>, split at the end of the array.
  The theory holds the arithmetic of positions modulo the size of the array and the contract
  \<open>byte_ring\<close> between such a buffer and the code that stores records with a length in it.
\<close>

named_theorems ring_eqs \<open>the two calls of \<^verbatim>\<open>memcpy\<close> as one access modulo the size\<close>

text \<open>\<^verbatim>\<open>memcpy(dst, a+off, n)\<close> out of the array \<open>a\<close>: undefined when it leaves the array.\<close>

definition copy_out :: "'a list \<Rightarrow> nat \<Rightarrow> nat \<Rightarrow> 'a list option" where
  "copy_out a off n = (if off + n \<le> length a then Some (take n (drop off a)) else None)"

subsection \<open>Positions modulo the size\<close>

text \<open>The \<open>n\<close> elements from position \<open>p\<close> on, and the array after \<open>bs\<close> is stored from \<open>p\<close> on.\<close>

definition ring_span :: "'a list \<Rightarrow> nat \<Rightarrow> nat \<Rightarrow> 'a list" where
  "ring_span d p n = map (\<lambda>i. d ! ((p + i) mod length d)) [0..<n]"

definition ring_fill :: "'a list \<Rightarrow> nat \<Rightarrow> 'a list \<Rightarrow> 'a list" where
  "ring_fill d p bs =
     map (\<lambda>j. let k = (j + length d - p) mod length d in if k < length bs then bs ! k else d ! j) [0..<length d]"

lemma ring_span_length [simp]: "length (ring_span d p n) = n"
  by (simp add: ring_span_def)

lemma ring_span_nth [simp]: "i < n \<Longrightarrow> ring_span d p n ! i = d ! ((p + i) mod length d)"
  by (simp add: ring_span_def)

lemma ring_span_0 [simp]: "ring_span d p 0 = []"
  by (simp add: ring_span_def)

lemma ring_fill_length [simp]: "length (ring_fill d p bs) = length d"
  by (simp add: ring_fill_def)

lemma mod_less_length [simp]: "p < length d \<Longrightarrow> x mod length d < length d"
  by (intro mod_less_divisor) auto

lemma ring_fill_nth [simp]:
  "j < length d \<Longrightarrow>
   ring_fill d p bs ! j = (let k = (j + length d - p) mod length d in if k < length bs then bs ! k else d ! j)"
  by (simp add: ring_fill_def Let_def)

lemma ring_span_append:
  "ring_span d p (m + n) = ring_span d p m @ ring_span d ((p + m) mod length d) n"
proof (rule nth_equalityI)
  fix i assume "i < length (ring_span d p (m + n))"
  moreover have "((p + m) mod length d + (i - m)) mod length d = (p + i) mod length d" if "\<not> i < m"
    using that mod_add_left_eq [of "p + m" "length d" "i - m"] by (simp only: add.assoc le_add_diff_inverse not_less)
  ultimately show "ring_span d p (m + n) ! i = (ring_span d p m @ ring_span d ((p + m) mod length d) n) ! i"
    by (auto simp: nth_append)
qed simp

lemma ring_span_take: "m \<le> n \<Longrightarrow> take m (ring_span d p n) = ring_span d p m"
  by (rule nth_equalityI) auto

lemma ring_span_drop: "m \<le> n \<Longrightarrow> drop m (ring_span d p n) = ring_span d ((p + m) mod length d) (n - m)"
  using ring_span_append [of d p m "n - m"] by simp

lemma mod_within_two: "x < 2 * s \<Longrightarrow> x mod s = (if x < s then x else x - s)" for x s :: nat
  by (simp add: mod_if)

lemma mod_after_split:
  fixes p n s :: nat
  assumes "p \<le> s" "\<not> p + n \<le> s"
  shows "(p + n) mod s = (n - (s - p)) mod s"
proof -
  from assms have "p + n = (n - (s - p)) + s" by simp
  then show ?thesis using mod_add_self2 [of "n - (s - p)" s] by (simp only:)
qed

lemma mod_shift_back:
  fixes p i s :: nat
  assumes "p < s" "i < s"
  shows "((p + i) mod s + s - p) mod s = i"
proof (cases "p + i < s")
  case False
  then have "(p + i) mod s = p + i - s" using assms by (simp add: mod_within_two)
  with False assms show ?thesis by simp
qed simp

lemma mod_shift_past:
  fixes p i n s :: nat
  assumes "p < s" "i < n" "n \<le> s"
  shows "((p + i) mod s + s - (p + n) mod s) mod s = s - (n - i)"
proof -
  have pi: "(p + i) mod s = (if p + i < s then p + i else p + i - s)"
    and pn: "(p + n) mod s = (if p + n < s then p + n else p + n - s)"
    using assms by (simp_all add: mod_within_two)
  have "(p + i) mod s + s - (p + n) mod s = (if p + i < s \<and> \<not> p + n < s then 2 * s - (n - i) else s - (n - i))"
    unfolding pi pn using assms by auto
  then show ?thesis using assms by (simp add: mod_within_two)
qed

lemma ring_span_fill_same:
  assumes "p < length d" "length bs \<le> length d"
  shows "ring_span (ring_fill d p bs) p (length bs) = bs"
proof (rule nth_equalityI)
  fix i assume "i < length (ring_span (ring_fill d p bs) p (length bs))"
  with assms show "ring_span (ring_fill d p bs) p (length bs) ! i = bs ! i"
    by (simp add: Let_def mod_shift_back)
qed simp

lemma ring_span_fill_before:
  assumes "p < length d" "n + length bs \<le> length d"
  shows "ring_span (ring_fill d ((p + n) mod length d) bs) p n = ring_span d p n"
proof (rule nth_equalityI)
  fix i assume "i < length (ring_span (ring_fill d ((p + n) mod length d) bs) p n)"
  then have i: "i < n" by simp
  with assms have "((p + i) mod length d + length d - (p + n) mod length d) mod length d = length d - (n - i)"
    by (intro mod_shift_past) auto
  moreover have "\<not> length d - (n - i) < length bs" using i assms by simp
  ultimately show "ring_span (ring_fill d ((p + n) mod length d) bs) p n ! i = ring_span d p n ! i"
    using i assms(1) by (simp only: ring_span_nth ring_fill_nth ring_fill_length mod_less_length Let_def if_False)
qed simp

text \<open>One call of \<^verbatim>\<open>memcpy\<close> when the access ends before the end of the array, two otherwise.\<close>

lemma ring_span_straight [ring_eqs]: "p + n \<le> length d \<Longrightarrow> copy_out d p n = Some (ring_span d p n)"
  by (auto simp: copy_out_def intro!: nth_equalityI)

lemma ring_span_split:
  assumes "p \<le> length d" "length d < p + n" "n \<le> length d"
  shows "ring_span d p n = drop p d @ take (n - (length d - p)) d"
proof (rule nth_equalityI)
  fix i assume "i < length (ring_span d p n)"
  moreover have "(p + i) mod length d = (if p + i < length d then p + i else p + i - length d)" if "i < n"
    using that assms by (intro mod_within_two) auto
  ultimately show "ring_span d p n ! i = (drop p d @ take (n - (length d - p)) d) ! i"
    using assms by (auto simp: nth_append add.commute)
qed (use assms in auto)

lemma ring_fill_straight [ring_eqs]:
  assumes "p < length d" "p + length bs \<le> length d"
  shows "copy_into d p bs = Some (ring_fill d p bs)"
proof -
  have "take p d @ bs @ drop (p + length bs) d = ring_fill d p bs"
  proof (rule nth_equalityI)
    fix j assume "j < length (take p d @ bs @ drop (p + length bs) d)"
    then have j: "j < length d" using assms by simp
    then have "(j + length d - p) mod length d = (if j < p then j + length d - p else j - p)"
      using assms by (subst mod_within_two) auto
    with j assms show "(take p d @ bs @ drop (p + length bs) d) ! j = ring_fill d p bs ! j"
      by (auto simp: nth_append Let_def)
  qed (use assms in simp)
  with assms show ?thesis by (simp add: copy_into_def)
qed

lemma ring_fill_split:
  assumes "p < length d" "length d < p + length bs" "length bs \<le> length d"
  shows "take p d @ take (length d - p) bs = d1
    \<Longrightarrow> copy_into d1 0 (drop (length d - p) bs) = Some (ring_fill d p bs)"
proof -
  assume d1: "take p d @ take (length d - p) bs = d1"
  have "drop (length d - p) bs @ drop (length bs - (length d - p)) d1 = ring_fill d p bs"
  proof (rule nth_equalityI)
    fix j assume "j < length (drop (length d - p) bs @ drop (length bs - (length d - p)) d1)"
    then have j: "j < length d" using assms d1 [symmetric] by auto
    then have "(j + length d - p) mod length d = (if j < p then j + length d - p else j - p)"
      using assms by (subst mod_within_two) auto
    with j assms d1 [symmetric]
    show "(drop (length d - p) bs @ drop (length bs - (length d - p)) d1) ! j = ring_fill d p bs ! j"
      by (auto simp: nth_append Let_def add.commute [of j "length d"])
  qed (use assms d1 [symmetric] in auto)
  with assms d1 [symmetric] show ?thesis by (auto simp: copy_into_def)
qed

subsection \<open>The contract of a byte ring\<close>

text \<open>
  \<open>content\<close> are the bytes that were put and not yet got, \<open>room\<close> is how many more fit. A put that
  fits appends, a get of bytes that are there takes them from the front; both are defined then.
  The clients store records as a header followed by a body.
\<close>

locale byte_ring =
  fixes ok :: "'r \<Rightarrow> bool"
    and content :: "'r \<Rightarrow> 'a list"
    and room :: "'r \<Rightarrow> nat"
    and put :: "'r \<Rightarrow> 'a list \<Rightarrow> 'r option"
    and get :: "'r \<Rightarrow> nat \<Rightarrow> ('a list \<times> 'r) option"
  assumes put_ok: "ok r \<Longrightarrow> length bs \<le> room r
      \<Longrightarrow> \<exists>r'. put r bs = Some r' \<and> ok r' \<and> content r' = content r @ bs \<and> room r' + length bs = room r"
    and get_ok: "ok r \<Longrightarrow> n \<le> length (content r)
      \<Longrightarrow> \<exists>r'. get r n = Some (take n (content r), r') \<and> ok r' \<and> content r' = drop n (content r) \<and> room r' = room r + n"
begin

lemma put_record:
  assumes "ok r" "length h + length bs \<le> room r"
  shows "\<exists>r1 r2. put r h = Some r1 \<and> put r1 bs = Some r2 \<and> ok r2 \<and> content r2 = content r @ h @ bs
      \<and> room r2 + length h + length bs = room r"
proof -
  from assms obtain r1 where r1: "put r h = Some r1" "ok r1" "content r1 = content r @ h" "room r1 + length h = room r"
    using put_ok [of r h] by auto
  with assms obtain r2 where "put r1 bs = Some r2" "ok r2" "content r2 = content r1 @ bs" "room r2 + length bs = room r1"
    using put_ok [of r1 bs] by auto
  with r1 show ?thesis by auto
qed

lemma get_prefix:
  assumes "ok r" "content r = h @ rest"
  shows "\<exists>r'. get r (length h) = Some (h, r') \<and> ok r' \<and> content r' = rest \<and> room r' = room r + length h"
  using get_ok [of r "length h"] assms by simp

text \<open>The bytes in the ring and the free ones always add up to the same number.\<close>

lemma put_total:
  "ok r \<Longrightarrow> length bs \<le> room r \<Longrightarrow> put r bs = Some r' \<Longrightarrow> length (content r') + room r' = length (content r) + room r"
  using put_ok [of r bs] by auto

lemma get_total:
  "ok r \<Longrightarrow> n \<le> length (content r) \<Longrightarrow> get r n = Some (bs, r')
    \<Longrightarrow> length (content r') + room r' = length (content r) + room r"
  using get_ok [of r n] by auto

end

end
