(* ===== verification/Am_Userdata.thy ===== *)
theory Am_Userdata
  imports Byte_Ring Am_Time
begin

text \<open>
  The user data module, \<^verbatim>\<open>dvb/am_adp/am_userdata/am_userdata.c\<close>: packets of closed caption data
  wait in a ring buffer of 5 KB between the driver's thread, which writes them, and the
  application, which reads them one by one. A packet is stored as its length, a 32-bit
  little-endian \<^verbatim>\<open>int\<close>, followed by its bytes.

  The result of \<^verbatim>\<open>malloc\<close> is an argument: \<open>None\<close>, or the bytes the new block happens to hold. The
  positions \<^verbatim>\<open>pread\<close>, \<^verbatim>\<open>pwrite\<close> and \<^verbatim>\<open>size\<close> are never negative and are natural numbers; the sum of
  a position and the length of an array is below the range of \<^verbatim>\<open>ssize_t\<close>. The driver is the
  argument \<open>ud_driver\<close>; \<open>'d\<close> is the type of its \<^verbatim>\<open>drv_data\<close> and \<open>'e\<close> the state of the outside world.
\<close>

abbreviation (input) AM_MOD_USERDATA :: int where "AM_MOD_USERDATA \<equiv> 31"
abbreviation (input) USERDATA_DEV_COUNT :: nat where "USERDATA_DEV_COUNT \<equiv> 1"
abbreviation (input) USERDATA_BUF_SIZE :: nat where "USERDATA_BUF_SIZE \<equiv> 5120"

definition AM_USERDATA_ERR_INVALID_DEV_NO :: errcode where
  "AM_USERDATA_ERR_INVALID_DEV_NO = AM_ERROR_BASE AM_MOD_USERDATA + 2"

definition AM_USERDATA_ERR_CANNOT_OPEN_DEV :: errcode where
  "AM_USERDATA_ERR_CANNOT_OPEN_DEV = AM_ERROR_BASE AM_MOD_USERDATA + 4"

definition AM_USERDATA_ERR_NO_MEM :: errcode where
  "AM_USERDATA_ERR_NO_MEM = AM_ERROR_BASE AM_MOD_USERDATA + 6"

definition AM_USERDATA_ERR_SYS :: errcode where
  "AM_USERDATA_ERR_SYS = AM_ERROR_BASE AM_MOD_USERDATA + 8"

lemmas ud_err_defs [err_code] = AM_USERDATA_ERR_INVALID_DEV_NO_def AM_USERDATA_ERR_CANNOT_OPEN_DEV_def
  AM_USERDATA_ERR_NO_MEM_def AM_USERDATA_ERR_SYS_def

text \<open>The pointer \<^verbatim>\<open>data\<close>: null, to a block, or to a block that was freed.\<close>

datatype ud_data = Null | Freed | Block "byte list"

record ud_ring =
  rb_data :: ud_data
  rb_size :: nat
  rb_pread :: nat
  rb_pwrite :: nat
  rb_error :: int

subsection \<open>The ring buffer\<close>

definition userdata_ring_buf_init :: "byte list option \<Rightarrow> nat \<Rightarrow> ud_ring \<Rightarrow> int \<times> ud_ring" where
  "userdata_ring_buf_init m len rb =
     (let rb1 = rb\<lparr>rb_pread := 0, rb_pwrite := 0\<rparr> in
      case m of
        None \<Rightarrow> (-1, rb1\<lparr>rb_data := Null\<rparr>)
      | Some d \<Rightarrow> (0, rb1\<lparr>rb_data := Block d, rb_size := len, rb_error := 0\<rparr>))"

text \<open>Freeing a block twice is undefined.\<close>

definition userdata_ring_buf_deinit :: "ud_ring \<Rightarrow> ud_ring option" where
  "userdata_ring_buf_deinit rb =
     (let rb1 = rb\<lparr>rb_pread := 0, rb_pwrite := 0, rb_size := 0, rb_error := 0\<rparr> in
      case rb_data rb of
        Null \<Rightarrow> Some rb1
      | Freed \<Rightarrow> None
      | Block _ \<Rightarrow> Some (rb1\<lparr>rb_data := Freed\<rparr>))"

definition userdata_ring_buf_empty :: "ud_ring \<Rightarrow> bool" where
  "userdata_ring_buf_empty rb \<longleftrightarrow> rb_pread rb = rb_pwrite rb"

definition userdata_ring_buf_free :: "ud_ring \<Rightarrow> int" where
  "userdata_ring_buf_free rb =
     (let free = int (rb_pread rb) - int (rb_pwrite rb)
      in (if free \<le> 0 then free + int (rb_size rb) else free) - 1)"

definition userdata_ring_buf_avail :: "ud_ring \<Rightarrow> int" where
  "userdata_ring_buf_avail rb =
     (let avail = int (rb_pwrite rb) - int (rb_pread rb)
      in if avail < 0 then avail + int (rb_size rb) else avail)"

text \<open>
  The result holds the bytes that were stored to the caller's buffer: none when there is no
  block. Access to a freed block, outside of the block, or modulo 0 is undefined.
\<close>

definition userdata_ring_buf_read :: "ud_ring \<Rightarrow> nat \<Rightarrow> (byte list \<times> ud_ring) option" where
  "userdata_ring_buf_read rb len =
     (case rb_data rb of
        Null \<Rightarrow> Some ([], rb)
      | Freed \<Rightarrow> None
      | Block d \<Rightarrow>
          (let split = (if rb_pread rb + len > rb_size rb then rb_size rb - rb_pread rb else 0) in
           do { (part, todo, pread) \<leftarrow>
                  (if split > 0
                   then do { b \<leftarrow> copy_out d (rb_pread rb) split; Some (b, len - split, 0) }
                   else Some ([], len, rb_pread rb));
                rest \<leftarrow> copy_out d pread todo;
                (if rb_size rb = 0 then None
                 else Some (part @ rest, rb\<lparr>rb_pread := (pread + todo) mod rb_size rb\<rparr>)) }))"

definition userdata_ring_buf_write :: "ud_ring \<Rightarrow> byte list \<Rightarrow> (nat \<times> ud_ring) option" where
  "userdata_ring_buf_write rb buf =
     (case rb_data rb of
        Null \<Rightarrow> Some (0, rb)
      | Freed \<Rightarrow> None
      | Block d \<Rightarrow>
          (let len = length buf;
               split = (if rb_pwrite rb + len > rb_size rb then rb_size rb - rb_pwrite rb else 0) in
           do { (d1, todo, pwrite) \<leftarrow>
                  (if split > 0
                   then do { d1 \<leftarrow> copy_into d (rb_pwrite rb) (take split buf); Some (d1, drop split buf, 0) }
                   else Some (d, buf, rb_pwrite rb));
                d2 \<leftarrow> copy_into d1 pwrite todo;
                (if rb_size rb = 0 then None
                 else Some (len, rb\<lparr>rb_data := Block d2, rb_pwrite := (pwrite + length todo) mod rb_size rb\<rparr>)) }))"

text \<open>\<^verbatim>\<open>alloc\<close> says whether \<^verbatim>\<open>malloc(len)\<close> succeeds.\<close>

definition read_unused_data :: "bool \<Rightarrow> ud_ring \<Rightarrow> nat \<Rightarrow> ud_ring option" where
  "read_unused_data alloc rb len =
     (if alloc then map_option snd (userdata_ring_buf_read rb len) else Some rb)"

subsection \<open>The device\<close>

text \<open>
  \<open>ud_lock\<close> says whether the mutex is initialised, \<open>ud_blocks\<close> counts the ring buffers that were
  allocated and not freed, \<open>ud_writer\<close> whether \<^verbatim>\<open>write_package\<close> is set.
\<close>

record 'd ud_device =
  ud_dev_no :: int
  ud_drv_data :: 'd
  ud_open_cnt :: int
  ud_lock :: bool
  ud_pkg_buf :: ud_ring
  ud_writer :: bool
  ud_blocks :: nat

record ('d, 'e) ud_driver =
  drv_open :: "('d \<Rightarrow> 'e \<Rightarrow> (errcode \<times> 'd \<times> 'e) option) option"
  drv_close :: "('d \<Rightarrow> 'e \<Rightarrow> (errcode \<times> 'd \<times> 'e) option) option"

record ('d, 'e) ud_state =
  userdata_devices :: "'d ud_device list"
  ud_os :: 'e

text \<open>An \<^verbatim>\<open>int\<close> as its four bytes in memory.\<close>

definition int_bytes :: "int \<Rightarrow> byte list" where
  "int_bytes x = map (\<lambda>i. word_of_int (x div 256 ^ i)) [0..<4]"

definition bytes_int :: "byte list \<Rightarrow> int" where
  "bytes_int bs = to_int32 (\<Sum>i<4. uint (bs ! i) * 256 ^ i)"

definition userdata_get_dev :: "int \<Rightarrow> errcode + nat" where
  "userdata_get_dev dev_no =
     (if dev_no < 0 \<or> dev_no \<ge> int USERDATA_DEV_COUNT then Inl AM_USERDATA_ERR_INVALID_DEV_NO else Inr (nat dev_no))"

definition userdata_get_openned_dev :: "('d, 'e) ud_state \<Rightarrow> int \<Rightarrow> errcode + nat" where
  "userdata_get_openned_dev st dev_no =
     (case userdata_get_dev dev_no of
        Inl e \<Rightarrow> Inl e
      | Inr i \<Rightarrow> if ud_open_cnt (userdata_devices st ! i) = 0 then Inl AM_USERDATA_ERR_INVALID_DEV_NO else Inr i)"

definition userdata_package_write :: "'d ud_device \<Rightarrow> byte list \<Rightarrow> (int \<times> 'd ud_device) option" where
  "userdata_package_write dev buf =
     (if \<not> ud_lock dev then None
      else let cnt = userdata_ring_buf_free (ud_pkg_buf dev); sz = length buf in
        if cnt < to_int32 (int sz + 4) then Some (0, dev)
        else do { (_, rb1) \<leftarrow> userdata_ring_buf_write (ud_pkg_buf dev) (int_bytes (to_int32 (int sz)));
                  (_, rb2) \<leftarrow> userdata_ring_buf_write rb1 buf;
                  Some (to_int32 (int sz), dev\<lparr>ud_pkg_buf := rb2\<rparr>) })"

text \<open>
  The result is the return value, the bytes stored to the caller's buffer and the device. The
  length read is 0 when nothing was stored to it.
\<close>

definition userdata_package_read :: "bool \<Rightarrow> 'd ud_device \<Rightarrow> int \<Rightarrow> ((int \<times> byte list) \<times> 'd ud_device) option" where
  "userdata_package_read alloc dev sz =
     (if userdata_ring_buf_avail (ud_pkg_buf dev) > 4 then
        do { (hd, rb1) \<leftarrow> userdata_ring_buf_read (ud_pkg_buf dev) 4;
             let ud_cnt = (if hd = [] then 0 else bytes_int hd);
             let cnt = userdata_ring_buf_avail rb1;
             (if cnt < ud_cnt
              then do { rb2 \<leftarrow> read_unused_data alloc rb1 0; Some ((0, []), dev\<lparr>ud_pkg_buf := rb2\<rparr>) }
              else if ud_cnt > sz
              then if ud_cnt < 0 then None
                   else do { rb2 \<leftarrow> read_unused_data alloc rb1 (nat ud_cnt); Some ((0, []), dev\<lparr>ud_pkg_buf := rb2\<rparr>) }
              else if ud_cnt > 0
              then do { (bs, rb2) \<leftarrow> userdata_ring_buf_read rb1 (nat ud_cnt); Some ((ud_cnt, bs), dev\<lparr>ud_pkg_buf := rb2\<rparr>) }
              else Some ((0, []), dev\<lparr>ud_pkg_buf := rb1\<rparr>)) }
      else do { rb1 \<leftarrow> read_unused_data alloc (ud_pkg_buf dev) 0; Some ((0, []), dev\<lparr>ud_pkg_buf := rb1\<rparr>) })"

text \<open>
  Waiting gives up the lock: \<open>ws\<close> are the packets that the driver's thread writes meanwhile and
  \<open>timedout\<close> is the result of the wait.
\<close>

fun ud_writes :: "byte list list \<Rightarrow> 'd ud_device \<Rightarrow> 'd ud_device option" where
  "ud_writes [] dev = Some dev"
| "ud_writes (p # ps) dev = do { (_, dev1) \<leftarrow> userdata_package_write dev p; ud_writes ps dev1 }"

definition userdata_package_poll :: "bool \<Rightarrow> byte list list \<Rightarrow> 'd ud_device \<Rightarrow> (errcode \<times> 'd ud_device) option" where
  "userdata_package_poll timedout ws dev =
     (if userdata_ring_buf_avail (ud_pkg_buf dev) \<le> 0 then
        do { dev1 \<leftarrow> ud_writes ws dev;
             Some (if timedout then AM_FAILURE
                   else if userdata_ring_buf_avail (ud_pkg_buf dev1) \<le> 0 then AM_FAILURE else AM_SUCCESS, dev1) }
      else Some (AM_SUCCESS, dev))"

subsection \<open>Operations\<close>

definition AM_USERDATA_Open :: "('d, 'e) ud_driver \<Rightarrow> byte list option \<Rightarrow> int \<Rightarrow> ('d, 'e) ud_state
    \<Rightarrow> (errcode \<times> ('d, 'e) ud_state) option" where
  "AM_USERDATA_Open drv m dev_no st =
     (case userdata_get_dev dev_no of
        Inl err \<Rightarrow> Some (err, st)
      | Inr i \<Rightarrow>
         (let dev = userdata_devices st ! i in
          if ud_open_cnt dev \<noteq> 0
          then Some (AM_SUCCESS, st\<lparr>userdata_devices := (userdata_devices st)[i := dev\<lparr>ud_open_cnt := ud_open_cnt dev + 1\<rparr>]\<rparr>)
          else
            let rb = snd (userdata_ring_buf_init m USERDATA_BUF_SIZE (ud_pkg_buf dev));
                dev1 = dev\<lparr>ud_dev_no := dev_no, ud_writer := True, ud_pkg_buf := rb, ud_lock := True,
                           ud_blocks := ud_blocks dev + (if m = None then 0 else 1)\<rparr>
            in do { (ret, d, e) \<leftarrow> (case drv_open drv of
                                       None \<Rightarrow> Some (AM_SUCCESS, ud_drv_data dev1, ud_os st)
                                     | Some f \<Rightarrow> f (ud_drv_data dev1) (ud_os st));
                    let dev2 = dev1\<lparr>ud_drv_data := d\<rparr>;
                    let dev3 = (if ret = AM_SUCCESS then dev2\<lparr>ud_open_cnt := ud_open_cnt dev2 + 1\<rparr>
                                else dev2\<lparr>ud_lock := False\<rparr>);
                    Some (ret, st\<lparr>userdata_devices := (userdata_devices st)[i := dev3], ud_os := e\<rparr>) }))"

definition AM_USERDATA_Close :: "('d, 'e) ud_driver \<Rightarrow> int \<Rightarrow> ('d, 'e) ud_state
    \<Rightarrow> (errcode \<times> ('d, 'e) ud_state) option" where
  "AM_USERDATA_Close drv dev_no st =
     (case userdata_get_dev dev_no of
        Inl err \<Rightarrow> Some (err, st)
      | Inr i \<Rightarrow>
         (let dev = userdata_devices st ! i in
          if ud_open_cnt dev > 0
          then do { (dev1, e) \<leftarrow>
                      (if ud_open_cnt dev = 1
                       then do { (_, d, e) \<leftarrow> (case drv_close drv of
                                                  None \<Rightarrow> Some (AM_SUCCESS, ud_drv_data dev, ud_os st)
                                                | Some f \<Rightarrow> f (ud_drv_data dev) (ud_os st));
                                 rb \<leftarrow> userdata_ring_buf_deinit (ud_pkg_buf dev);
                                 Some (dev\<lparr>ud_drv_data := d, ud_lock := False, ud_pkg_buf := rb,
                                           ud_blocks := ud_blocks dev - (if rb_data rb = Null then 0 else 1)\<rparr>, e) }
                       else Some (dev, ud_os st));
                    Some (AM_SUCCESS, st\<lparr>userdata_devices := (userdata_devices st)[i := dev1\<lparr>ud_open_cnt := ud_open_cnt dev1 - 1\<rparr>],
                                         ud_os := e\<rparr>) }
          else Some (AM_SUCCESS, st)))"

definition AM_USERDATA_Read :: "bool \<Rightarrow> bool \<Rightarrow> byte list list \<Rightarrow> int \<Rightarrow> int \<Rightarrow> ('d, 'e) ud_state
    \<Rightarrow> ((int \<times> byte list) \<times> ('d, 'e) ud_state) option" where
  "AM_USERDATA_Read alloc timedout ws dev_no sz st =
     (case userdata_get_openned_dev st dev_no of
        Inl err \<Rightarrow> Some ((err, []), st)
      | Inr i \<Rightarrow>
         (let dev = userdata_devices st ! i in
          if \<not> ud_lock dev then None
          else do { (ret, dev1) \<leftarrow> userdata_package_poll timedout ws dev;
                    (out, dev2) \<leftarrow> (if ret = AM_SUCCESS then userdata_package_read alloc dev1 sz else Some ((-1, []), dev1));
                    Some (out, st\<lparr>userdata_devices := (userdata_devices st)[i := dev2]\<rparr>) }))"

subsection \<open>The ring buffer keeps its contract\<close>

definition ring_ok :: "ud_ring \<Rightarrow> bool" where
  "ring_ok rb \<longleftrightarrow>
     (case rb_data rb of Block d \<Rightarrow> length d = rb_size rb \<and> rb_pread rb < rb_size rb \<and> rb_pwrite rb < rb_size rb
      | _ \<Rightarrow> False)"

definition ring_content :: "ud_ring \<Rightarrow> byte list" where
  "ring_content rb =
     (case rb_data rb of Block d \<Rightarrow> ring_span d (rb_pread rb) (nat (userdata_ring_buf_avail rb)) | _ \<Rightarrow> [])"

definition ring_room :: "ud_ring \<Rightarrow> nat" where
  "ring_room rb = nat (userdata_ring_buf_free rb)"

abbreviation ring_put :: "ud_ring \<Rightarrow> byte list \<Rightarrow> ud_ring option" where
  "ring_put rb bs \<equiv> map_option snd (userdata_ring_buf_write rb bs)"

lemma ring_okE:
  assumes "ring_ok rb"
  obtains d where "rb_data rb = Block d" "length d = rb_size rb" "rb_pread rb < rb_size rb" "rb_pwrite rb < rb_size rb"
  using assms by (auto simp: ring_ok_def split: ud_data.splits)

text \<open>How many bytes are there, as a natural number, and where they end.\<close>

definition ring_used :: "ud_ring \<Rightarrow> nat" where
  "ring_used rb = nat (userdata_ring_buf_avail rb)"

lemma ring_used_bounds:
  assumes "ring_ok rb"
  shows "userdata_ring_buf_avail rb = int (ring_used rb)" and "ring_used rb < rb_size rb"
    and "rb_pwrite rb = (rb_pread rb + ring_used rb) mod rb_size rb"
    and "userdata_ring_buf_free rb = int (rb_size rb) - 1 - int (ring_used rb)"
  using assms
  by (auto elim!: ring_okE simp: ring_used_def userdata_ring_buf_avail_def userdata_ring_buf_free_def Let_def mod_within_two)

lemma ring_content_length: "ring_ok rb \<Longrightarrow> length (ring_content rb) = ring_used rb"
  by (auto elim!: ring_okE simp: ring_content_def ring_used_def)

lemma ring_room_used: "ring_ok rb \<Longrightarrow> ring_room rb = rb_size rb - 1 - ring_used rb"
  using ring_used_bounds(2,4) [of rb] by (simp add: ring_room_def)

text \<open>The position reached after an access of at most a full turn determines the bytes there.\<close>

lemma ring_used_eqI:
  assumes "ring_ok rb" "rb_pwrite rb = (rb_pread rb + n) mod rb_size rb" "n < rb_size rb"
  shows "ring_used rb = n"
  using assms
  by (auto elim!: ring_okE simp: ring_used_def userdata_ring_buf_avail_def Let_def mod_within_two split: if_splits)

lemma ring_read_span:
  assumes "ring_ok rb" "rb_data rb = Block d" "n \<le> rb_size rb"
  shows "userdata_ring_buf_read rb n
    = Some (ring_span d (rb_pread rb) n, rb\<lparr>rb_pread := (rb_pread rb + n) mod rb_size rb\<rparr>)"
proof (cases "rb_pread rb + n \<le> rb_size rb")
  case True
  with assms show ?thesis
    by (auto elim!: ring_okE simp: userdata_ring_buf_read_def ring_eqs)
next
  case False
  with assms have "(rb_pread rb + n) mod rb_size rb = (n - (rb_size rb - rb_pread rb)) mod rb_size rb"
    by (intro mod_after_split) (auto elim!: ring_okE)
  with False assms show ?thesis
    by (auto elim!: ring_okE simp: userdata_ring_buf_read_def copy_out_def ring_span_split)
qed

lemma ring_write_fill:
  assumes "ring_ok rb" "rb_data rb = Block d" "length bs \<le> rb_size rb"
  shows "userdata_ring_buf_write rb bs
    = Some (length bs, rb\<lparr>rb_data := Block (ring_fill d (rb_pwrite rb) bs),
                          rb_pwrite := (rb_pwrite rb + length bs) mod rb_size rb\<rparr>)"
proof (cases "rb_pwrite rb + length bs \<le> rb_size rb")
  case True
  with assms show ?thesis
    by (auto elim!: ring_okE simp: userdata_ring_buf_write_def ring_eqs Let_def)
next
  case False
  with assms have "(rb_pwrite rb + length bs) mod rb_size rb = (length bs - (rb_size rb - rb_pwrite rb)) mod rb_size rb"
    by (intro mod_after_split) (auto elim!: ring_okE)
  moreover from False assms
  have "copy_into d (rb_pwrite rb) (take (rb_size rb - rb_pwrite rb) bs)
      = Some (take (rb_pwrite rb) d @ take (rb_size rb - rb_pwrite rb) bs)"
    by (auto elim!: ring_okE simp: copy_into_def)
  moreover from False assms
  have "copy_into (take (rb_pwrite rb) d @ take (rb_size rb - rb_pwrite rb) bs) 0 (drop (rb_size rb - rb_pwrite rb) bs)
      = Some (ring_fill d (rb_pwrite rb) bs)"
    using ring_fill_split [of "rb_pwrite rb" d bs, OF _ _ _ refl] by (auto elim!: ring_okE)
  ultimately show ?thesis using False assms
    by (auto elim!: ring_okE simp: userdata_ring_buf_write_def Let_def)
qed

lemma ring_put_ok:
  assumes "ring_ok rb" "length bs \<le> ring_room rb"
  shows "\<exists>rb'. ring_put rb bs = Some rb' \<and> ring_ok rb' \<and> ring_content rb' = ring_content rb @ bs
      \<and> ring_room rb' + length bs = ring_room rb"
proof -
  from assms(1) obtain d where d: "rb_data rb = Block d" "length d = rb_size rb" "rb_pread rb < rb_size rb"
    "rb_pwrite rb < rb_size rb" by (rule ring_okE)
  note u = ring_used_bounds [OF assms(1)]
  from assms(2) ring_room_used [OF assms(1)] u(2) have fits: "ring_used rb + length bs < rb_size rb" by simp
  define rb' where "rb' = rb\<lparr>rb_data := Block (ring_fill d (rb_pwrite rb) bs),
                            rb_pwrite := (rb_pwrite rb + length bs) mod rb_size rb\<rparr>"
  have put: "ring_put rb bs = Some rb'"
    using ring_write_fill [OF assms(1) d(1), of bs] fits by (simp add: rb'_def)
  have ok: "ring_ok rb'" using d fits by (simp add: ring_ok_def rb'_def)
  have "rb_pwrite rb' = (rb_pread rb' + (ring_used rb + length bs)) mod rb_size rb'"
    by (simp add: rb'_def u(3) mod_simps ac_simps)
  with ok fits have used: "ring_used rb' = ring_used rb + length bs" by (intro ring_used_eqI) (simp_all add: rb'_def)
  have "ring_content rb' = ring_span (ring_fill d (rb_pwrite rb) bs) (rb_pread rb) (ring_used rb + length bs)"
    using used by (simp add: ring_content_def ring_used_def rb'_def)
  also have "\<dots> = ring_span d (rb_pread rb) (ring_used rb) @ bs"
    using d fits u(3) ring_span_fill_before [of "rb_pread rb" d "ring_used rb" bs] ring_span_fill_same [of "rb_pwrite rb" d bs]
    by (simp add: ring_span_append)
  finally have "ring_content rb' = ring_content rb @ bs" using d by (simp add: ring_content_def ring_used_def)
  with put ok used fits assms(1) show ?thesis by (auto simp: ring_room_used rb'_def)
qed

lemma ring_get_ok:
  assumes "ring_ok rb" "n \<le> length (ring_content rb)"
  shows "\<exists>rb'. userdata_ring_buf_read rb n = Some (take n (ring_content rb), rb') \<and> ring_ok rb'
      \<and> ring_content rb' = drop n (ring_content rb) \<and> ring_room rb' = ring_room rb + n"
proof -
  from assms(1) obtain d where d: "rb_data rb = Block d" "length d = rb_size rb" "rb_pread rb < rb_size rb"
    "rb_pwrite rb < rb_size rb" by (rule ring_okE)
  note u = ring_used_bounds [OF assms(1)]
  from assms have n: "n \<le> ring_used rb" by (simp add: ring_content_length)
  define rb' where "rb' = rb\<lparr>rb_pread := (rb_pread rb + n) mod rb_size rb\<rparr>"
  have get: "userdata_ring_buf_read rb n = Some (ring_span d (rb_pread rb) n, rb')"
    using ring_read_span [OF assms(1) d(1), of n] n u(2) by (simp add: rb'_def)
  have ok: "ring_ok rb'" using d by (simp add: ring_ok_def rb'_def)
  have "rb_pwrite rb' = (rb_pread rb' + (ring_used rb - n)) mod rb_size rb'"
    using n u(3) mod_add_left_eq [of "rb_pread rb + n" "rb_size rb" "ring_used rb - n"] by (simp add: rb'_def)
  with ok u(2) have used: "ring_used rb' = ring_used rb - n" by (intro ring_used_eqI) (simp_all add: rb'_def)
  have content: "ring_content rb = ring_span d (rb_pread rb) (ring_used rb)"
    using d by (simp add: ring_content_def ring_used_def)
  have "ring_content rb' = drop n (ring_content rb)"
    using used d n by (simp add: content ring_span_drop) (simp add: ring_content_def ring_used_def rb'_def)
  with get ok used n u(2) assms(1) show ?thesis
    by (auto simp: ring_room_used content ring_span_take rb'_def)
qed

interpretation ud_bytes: byte_ring ring_ok ring_content ring_room ring_put userdata_ring_buf_read
  by unfold_locales (rule ring_put_ok ring_get_ok; assumption)+

end
