(* ===== verification/Userdata_Aml.thy ===== *)
theory Userdata_Aml
  imports Am_Userdata
begin

text \<open>
  The user data driver, \<^verbatim>\<open>dvb/am_adp/am_userdata/aml/aml.c\<close>: a thread reads blocks from the video
  decoder, finds the closed caption packets in them, brings them into display order and hands
  them to \<^verbatim>\<open>write_package\<close>. Every function returns the list of the packets it hands over, in order;
  \<open>None\<close> is undefined behaviour. Memory for the packets held back is assumed to be there (the code
  does not test for it). The structures are read on a little-endian machine.
\<close>

unbundle bit_operations_syntax

abbreviation (input) INVALID_POC :: int where "INVALID_POC \<equiv> 0xFFFFFFF"
abbreviation (input) MAX_POC_CACHE :: nat where "MAX_POC_CACHE \<equiv> 5"
abbreviation (input) DMA_BLOCK_LEN :: nat where "DMA_BLOCK_LEN \<equiv> 8"

abbreviation (input) INVALID_TYPE :: nat where "INVALID_TYPE \<equiv> 0"
abbreviation (input) MPEG_CC_TYPE :: nat where "MPEG_CC_TYPE \<equiv> 1"
abbreviation (input) H264_CC_TYPE :: nat where "H264_CC_TYPE \<equiv> 2"
abbreviation (input) DIRECTV_CC_TYPE :: nat where "DIRECTV_CC_TYPE \<equiv> 3"
abbreviation (input) AVS_CC_TYPE :: nat where "AVS_CC_TYPE \<equiv> 4"

abbreviation (input) I_TYPE :: nat where "I_TYPE \<equiv> 1"
abbreviation (input) P_TYPE :: nat where "P_TYPE \<equiv> 2"
abbreviation (input) B_TYPE :: nat where "B_TYPE \<equiv> 3"

abbreviation (input) TOP_FIELD :: nat where "TOP_FIELD \<equiv> 1"
abbreviation (input) BOTTOM_FIELD :: nat where "BOTTOM_FIELD \<equiv> 2"
abbreviation (input) FRAME_PICTURE :: nat where "FRAME_PICTURE \<equiv> 3"

subsection \<open>Reordering of MPEG pictures\<close>

text \<open>\<open>reorder_n_bytes\<close> and \<open>reorder_buffer\<close> have two elements; the buffers have 128 bytes.\<close>

record aml_ud_reorder =
  picture_coding_type :: nat
  picture_structure :: nat
  picture_temporal_reference :: nat
  reorder_pictures :: "32 word"
  reorder_n_bytes :: "nat list"
  reorder_buffer :: "byte list list"

definition held_package :: "aml_ud_reorder \<Rightarrow> nat \<Rightarrow> byte list" where
  "held_package vd k = take (reorder_n_bytes vd ! k) (reorder_buffer vd ! k)"

definition hold_package :: "nat \<Rightarrow> byte list \<Rightarrow> nat \<Rightarrow> aml_ud_reorder \<Rightarrow> aml_ud_reorder option" where
  "hold_package k buf n vd =
     do { src \<leftarrow> copy_out buf 0 n;
          b \<leftarrow> copy_into (reorder_buffer vd ! k) 0 src;
          Some (vd\<lparr>reorder_buffer := (reorder_buffer vd)[k := b], reorder_n_bytes := (reorder_n_bytes vd)[k := n]\<rparr>) }"

definition aml_reorder_decode_cc_data :: "aml_ud_reorder \<Rightarrow> byte list \<Rightarrow> nat \<Rightarrow> (byte list list \<times> aml_ud_reorder) option" where
  "aml_reorder_decode_cc_data vd buf n_bytes =
     (let n = min n_bytes 128; r = reorder_pictures vd in
      if picture_structure vd = FRAME_PICTURE then
        do { vd1 \<leftarrow> hold_package 0 buf n vd;
             Some ((if r AND 5 \<noteq> 0 then [held_package vd 0] else []) @ (if r AND 2 \<noteq> 0 then [held_package vd 1] else []),
                   vd1\<lparr>reorder_pictures := 4\<rparr>) }
      else if picture_structure vd = TOP_FIELD then
        do { vd1 \<leftarrow> hold_package 0 buf n vd;
             Some (if r \<ge> 3 then [held_package vd 0] else [],
                   vd1\<lparr>reorder_pictures := (if r \<ge> 3 then r AND 2 else r) OR 1\<rparr>) }
      else if picture_structure vd = BOTTOM_FIELD then
        do { vd1 \<leftarrow> hold_package 1 buf n vd;
             Some (if r \<ge> 3 then if r \<ge> 4 then [held_package vd 0] else [held_package vd 1] else [],
                   vd1\<lparr>reorder_pictures := (if r \<ge> 3 then r AND 1 else r) OR 2\<rparr>) }
      else Some ([], vd))"

definition aml_reorder_user_data :: "aml_ud_reorder \<Rightarrow> byte list \<Rightarrow> nat \<Rightarrow> (byte list list \<times> aml_ud_reorder) option" where
  "aml_reorder_user_data vd buf n =
     (if picture_coding_type vd = I_TYPE \<or> picture_coding_type vd = P_TYPE
      then aml_reorder_decode_cc_data vd buf n
      else if picture_coding_type vd = B_TYPE
      then if reorder_pictures vd < 3 then Some ([], vd\<lparr>reorder_pictures := 0\<rparr>)
           else do { p \<leftarrow> copy_out buf 0 n; Some ([p], vd) }
      else Some ([], vd))"

subsection \<open>Reordering of H.264 pictures\<close>

text \<open>The list of blocks behind the header block \<^verbatim>\<open>p_header\<close>.\<close>

record aml_cc_block =
  i_poc :: int
  i_pic_type :: nat
  i_len :: nat
  p_buf :: "byte list"

definition aml_h264_get_min_poc :: "aml_cc_block list \<Rightarrow> int" where
  "aml_h264_get_min_poc bs = fold (\<lambda>b m. if m < i_poc b then m else i_poc b) bs INVALID_POC"

definition aml_h264_get_poc_num :: "aml_cc_block list \<Rightarrow> nat" where
  "aml_h264_get_poc_num bs = fold (\<lambda>_ n. n + 1) bs 0"

definition aml_h264_userdata_add :: "int \<Rightarrow> nat \<Rightarrow> nat \<Rightarrow> byte list \<Rightarrow> aml_cc_block list \<Rightarrow> aml_cc_block list option" where
  "aml_h264_userdata_add poc pic_type n buf bs =
     do { b \<leftarrow> copy_out buf 0 n; Some (bs @ [\<lparr>i_poc = poc, i_pic_type = pic_type, i_len = n, p_buf = b\<rparr>]) }"

text \<open>
  \<open>writer\<close> says whether \<^verbatim>\<open>write_package\<close> is set. When no block has the wanted number, the code follows
  a null pointer.
\<close>

definition aml_h264_userdata_push :: "bool \<Rightarrow> aml_cc_block list \<Rightarrow> int \<Rightarrow> (byte list list \<times> aml_cc_block list) option" where
  "aml_h264_userdata_push writer bs min_poc =
     (if \<not> writer then Some ([], bs)
      else let i = first_idx (\<lambda>b. min_poc = i_poc b) bs in
        if i \<ge> length bs then None
        else Some ([take (i_len (bs ! i)) (p_buf (bs ! i))], take i bs @ drop (Suc i) bs))"

text \<open>
  The loop \<^verbatim>\<open>while(p_header->p_next != NULL)\<close>; here \<open>None\<close> also stands for not returning.
\<close>

partial_function (option) aml_h264_flush :: "bool \<Rightarrow> aml_cc_block list \<Rightarrow> (byte list list \<times> aml_cc_block list) option" where
  "aml_h264_flush writer bs =
     (if bs = [] then Some ([], [])
      else do { (out1, bs1) \<leftarrow> aml_h264_userdata_push writer bs (aml_h264_get_min_poc bs);
                (out2, bs2) \<leftarrow> aml_h264_flush writer bs1;
                Some (out1 @ out2, bs2) })"

definition aml_h264_reorder_user_data :: "bool \<Rightarrow> nat \<Rightarrow> byte list \<Rightarrow> nat \<Rightarrow> int \<Rightarrow> aml_cc_block list
    \<Rightarrow> (byte list list \<times> aml_cc_block list) option" where
  "aml_h264_reorder_user_data writer pic_type buf n poc bs =
     (if poc = 0 then
        if bs = [] then do { bs1 \<leftarrow> aml_h264_userdata_add poc pic_type n buf bs; Some ([], bs1) }
        else do { (outs, bs1) \<leftarrow> aml_h264_flush writer bs;
                  bs2 \<leftarrow> aml_h264_userdata_add poc pic_type n buf bs1;
                  Some (outs, bs2) }
      else if aml_h264_get_poc_num bs > MAX_POC_CACHE then
        let min_poc = aml_h264_get_min_poc bs in
        do { (outs, bs1) \<leftarrow> (if min_poc \<noteq> INVALID_POC then aml_h264_userdata_push writer bs min_poc else Some ([], bs));
             bs2 \<leftarrow> aml_h264_userdata_add poc pic_type n buf bs1;
             Some (outs, bs2) }
      else do { bs1 \<leftarrow> aml_h264_userdata_add poc pic_type n buf bs; Some ([], bs1) })"

subsection \<open>The packets of the MPEG decoder\<close>

record aml_ud_header =
  uh_picture_structure :: nat
  uh_temporal_reference :: nat
  uh_picture_coding_type :: nat
  uh_index :: nat
  uh_offset :: nat
  uh_cc_data_start :: "byte list"
  uh_atsc_id :: nat

definition u32_at :: "byte list \<Rightarrow> nat \<Rightarrow> nat" where
  "u32_at b k = unat (b ! k) + 256 * unat (b ! (k + 1)) + 65536 * unat (b ! (k + 2)) + 16777216 * unat (b ! (k + 3))"

definition header_at :: "byte list \<Rightarrow> nat \<Rightarrow> aml_ud_header option" where
  "header_at b k =
     (if k + 16 \<le> length b
      then Some \<lparr>uh_picture_structure = u32_at b k mod 65536,
                 uh_temporal_reference = u32_at b k div 65536 mod 1024,
                 uh_picture_coding_type = u32_at b k div 67108864 mod 8,
                 uh_index = u32_at b (k + 4) mod 65536,
                 uh_offset = u32_at b (k + 4) div 65536,
                 uh_cc_data_start = take 4 (drop (k + 8) b),
                 uh_atsc_id = u32_at b (k + 12)\<rparr>
      else None)"

text \<open>The position \<open>cs\<close> in the array of 256 bytes is an \<^verbatim>\<open>uint8_t\<close>.\<close>

definition COPY_4_BYTES :: "byte list \<Rightarrow> nat \<Rightarrow> byte list \<times> byte \<Rightarrow> (byte list \<times> byte) option" where
  "COPY_4_BYTES b k = (\<lambda>(cc, cs).
     if k + 4 \<le> length b
     then Some (cc[unat cs := b ! (k + 3), unat (cs + 1) := b ! (k + 2), unat (cs + 2) := b ! (k + 1), unat (cs + 3) := b ! k], cs + 4)
     else None)"

definition is_cc_header :: "aml_ud_header \<Rightarrow> bool" where
  "is_cc_header uh \<longleftrightarrow> uh_atsc_id uh = 0x47413934 \<and> uh_cc_data_start uh ! 3 = 3"

text \<open>The first copy of the step is the block behind, unless a header begins there.\<close>

definition extract_copy :: "byte list \<Rightarrow> nat \<Rightarrow> int \<Rightarrow> byte list \<times> byte \<Rightarrow> (byte list \<times> byte) option" where
  "extract_copy ud p left ccs =
     do { ccs1 \<leftarrow> (if left \<ge> 20
                   then do { uh \<leftarrow> header_at ud (p + 4);
                             if uh_atsc_id uh \<noteq> 0x47413934 then COPY_4_BYTES ud (p + 4) ccs else Some ccs }
                   else Some ccs);
          COPY_4_BYTES ud p ccs1 }"

lemma extract_copy_cs:
  "extract_copy ud p left (cc, cs) = Some (cc', cs') \<Longrightarrow> cs' - cs = 4 \<or> cs' - cs = 8 \<and> left \<ge> 20"
  by (auto simp: extract_copy_def COPY_4_BYTES_def split: if_splits Option.bind_splits)

text \<open>
  The loop of \<^verbatim>\<open>aml_extract_package\<close>. The result is the number of headers seen, the bytes left, the
  array with its fill level, and the header of the packet.
\<close>

function extract_loop :: "byte list \<Rightarrow> nat \<Rightarrow> nat \<Rightarrow> int \<Rightarrow> byte list \<times> byte \<Rightarrow> aml_ud_header
    \<Rightarrow> (nat \<times> int \<times> (byte list \<times> byte) \<times> aml_ud_header) option" where
  "extract_loop ud p atsc_id_count left ccs pkg_header =
     (if left \<ge> 16 then
        (case header_at ud p of
           None \<Rightarrow> None
         | Some uh \<Rightarrow>
             if is_cc_header uh \<and> atsc_id_count = 0
             then do { ccs1 \<leftarrow> COPY_4_BYTES ud (p + 12) ccs;
                       ccs2 \<leftarrow> COPY_4_BYTES ud (p + 8) ccs1;
                       extract_loop ud (p + 16) 1 (left - 16) ccs2 uh }
             else if is_cc_header uh
             then Some (atsc_id_count + 1, left, ccs, pkg_header)
             else if atsc_id_count = 1
             then (case extract_copy ud p left ccs of
                     None \<Rightarrow> None
                   | Some ccs1 \<Rightarrow>
                       let copied = unat (snd ccs1 - snd ccs)
                       in extract_loop ud (p + copied) atsc_id_count (left - int copied) ccs1 pkg_header)
             else extract_loop ud (p + 4) atsc_id_count (left - 4) ccs pkg_header)
      else Some (atsc_id_count, left, ccs, pkg_header))"
  by pat_completeness auto
termination
proof (relation "measure (\<lambda>(ud, p, c, left, ccs, h). nat left)", goal_cases)
  case (3 ud p c left ccs h uh ccs1 copied)
  then obtain cc cs cc' cs' where "ccs = (cc, cs)" "ccs1 = (cc', cs')" by (cases ccs; cases ccs1)
  with 3 show ?case using extract_copy_cs [of ud p left cc cs cc' cs'] by auto
qed auto

declare extract_loop.simps [simp del]

text \<open>
  The result is the return value, \<^verbatim>\<open>*cc_size\<close>, the array \<^verbatim>\<open>cc_data\<close> and \<^verbatim>\<open>*pkg_header\<close>.
\<close>

definition aml_extract_package :: "byte list \<Rightarrow> int \<Rightarrow> byte list \<Rightarrow> aml_ud_header
    \<Rightarrow> (int \<times> byte \<times> byte list \<times> aml_ud_header) option" where
  "aml_extract_package ud ud_size cc_data pkg_header =
     (if ud_size < 12 then Some (ud_size, 0, cc_data, pkg_header)
      else do { (n, left, (cc, cs), h) \<leftarrow> extract_loop ud 0 0 ud_size (cc_data, 0) pkg_header;
                Some (if n < 2 then (ud_size, 0, cc, h) else (left, cs, cc, h)) })"

subsection \<open>Byte order and format of the stream\<close>

fun swap_bytes :: "nat \<Rightarrow> nat \<Rightarrow> nat \<Rightarrow> byte list \<Rightarrow> byte list option" where
  "swap_bytes 0 j k a = Some a"
| "swap_bytes (Suc m) j k a =
     (if j < length a \<and> k < length a then swap_bytes m (j + 1) (k - 1) (a[j := a ! k, k := a ! j]) else None)"

fun swap_blocks_loop :: "nat \<Rightarrow> nat \<Rightarrow> byte list \<Rightarrow> byte list option" where
  "swap_blocks_loop i 0 a = Some a"
| "swap_blocks_loop i (Suc n) a = do { a1 \<leftarrow> swap_bytes 4 (i * 8) (i * 8 + 7) a; swap_blocks_loop (i + 1) n a1 }"

definition aml_swap_data :: "byte list \<Rightarrow> int \<Rightarrow> byte list option" where
  "aml_swap_data user_data ud_size = swap_blocks_loop 0 (nat (ud_size sdiv 8)) user_data"

text \<open>\<^verbatim>\<open>a[k1] == v1 && a[k2] == v2 && ...\<close>, undefined when it reads outside of the array.\<close>

fun bytes_at :: "byte list \<Rightarrow> (nat \<times> byte) list \<Rightarrow> bool option" where
  "bytes_at a [] = Some True"
| "bytes_at a ((k, v) # kvs) = do { b \<leftarrow> Adp_Prelude.rd a k; if b = v then bytes_at a kvs else Some False }"

abbreviation (input) h264_mark :: "nat \<Rightarrow> (nat \<times> byte) list" where
  "h264_mark p \<equiv> [(p, 0xb5), (p + 3, 0x47), (p + 4, 0x41), (p + 5, 0x39), (p + 6, 0x34)]"
abbreviation (input) directv_mark :: "nat \<Rightarrow> (nat \<times> byte) list" where
  "directv_mark p \<equiv> [(p, 0xb5), (p + 1, 0), (p + 2, 0x2f)]"
abbreviation (input) avs_mark :: "nat \<Rightarrow> (nat \<times> byte) list" where
  "avs_mark p \<equiv> [(p, 0x47), (p + 1, 0x41), (p + 2, 0x39), (p + 3, 0x34)]"

definition aml_check_userdata_format :: "bool \<Rightarrow> byte list \<Rightarrow> int \<Rightarrow> nat option" where
  "aml_check_userdata_format alloc buf len =
     (if len \<le> 0 \<or> \<not> alloc then Some INVALID_TYPE
      else do { tmp0 \<leftarrow> copy_out buf 0 (nat len);
                tmp \<leftarrow> aml_swap_data tmp0 len;
                h264 \<leftarrow> bytes_at tmp (h264_mark 0);
                if h264 then Some H264_CC_TYPE
                else do { directv \<leftarrow> bytes_at tmp (directv_mark 0);
                          if directv then Some DIRECTV_CC_TYPE
                          else do { avs \<leftarrow> bytes_at tmp (avs_mark 0);
                                    Some (if avs then AVS_CC_TYPE else MPEG_CC_TYPE) } } })"

subsection \<open>The thread\<close>

text \<open>
  The variables of \<^verbatim>\<open>aml_userdata_thread\<close>: \<^verbatim>\<open>buf\<close> has 5120 bytes, \<^verbatim>\<open>cc_data\<close> 256. \<open>th_blocks\<close> is the list
  behind \<^verbatim>\<open>p_header\<close>.
\<close>

record aml_thread =
  th_buf :: "byte list"
  th_cc_data :: "byte list"
  th_left :: "32 word"
  th_format :: nat
  th_pheader :: aml_ud_header
  th_reorder :: aml_ud_reorder
  th_last_pkg_idx :: int
  th_blocks :: "aml_cc_block list"
  th_flush :: bool

abbreviation (input) TH_BUF_SIZE :: nat where "TH_BUF_SIZE \<equiv> 5120"

text \<open>\<^verbatim>\<open>memmove(a, a+off, n)\<close>.\<close>

definition move_down :: "byte list \<Rightarrow> nat \<Rightarrow> nat \<Rightarrow> byte list option" where
  "move_down a off n = do { src \<leftarrow> copy_out a off n; copy_into a 0 src }"

text \<open>One packet of the MPEG format: the body of \<^verbatim>\<open>if (cc_data_cnt > 0)\<close>.\<close>

definition mpeg_package :: "aml_ud_header \<Rightarrow> byte list \<Rightarrow> byte \<Rightarrow> aml_thread \<Rightarrow> (byte list list \<times> aml_thread) option" where
  "mpeg_package h cc cc_cnt th =
     (if cc_cnt > 0
      then do { (outs, vd) \<leftarrow> aml_reorder_user_data
                  ((th_reorder th)\<lparr>picture_coding_type := uh_picture_coding_type h, picture_structure := uh_picture_structure h,
                                   picture_temporal_reference := uh_temporal_reference h\<rparr>) cc (unat cc_cnt);
                Some (outs, th\<lparr>th_reorder := vd, th_last_pkg_idx := int (uh_index h)\<rparr>) }
      else Some ([], th))"

lemma extract_loop_short: "left < 16 \<Longrightarrow> extract_loop ud p n left ccs h = Some (n, left, ccs, h)"
  by (subst extract_loop.simps) simp

lemma extract_loop_long:
  assumes "left \<ge> 16" "header_at ud p = Some uh"
  shows "extract_loop ud p n left ccs h =
     (if is_cc_header uh \<and> n = 0
      then do { ccs1 \<leftarrow> COPY_4_BYTES ud (p + 12) ccs; ccs2 \<leftarrow> COPY_4_BYTES ud (p + 8) ccs1; extract_loop ud (p + 16) 1 (left - 16) ccs2 uh }
      else if is_cc_header uh then Some (n + 1, left, ccs, h)
      else if n = 1
      then do { ccs1 \<leftarrow> extract_copy ud p left ccs;
                extract_loop ud (p + unat (snd ccs1 - snd ccs)) n (left - int (unat (snd ccs1 - snd ccs))) ccs1 h }
      else extract_loop ud (p + 4) n (left - 4) ccs h)"
  using assms by (subst extract_loop.simps) (auto simp: Let_def split: Option.bind_split option.splits)

lemma extract_loop_left:
  "extract_loop ud p n left ccs h = Some (n', left', ccs', h') \<Longrightarrow> 0 \<le> left
    \<Longrightarrow> 0 \<le> left' \<and> left' \<le> left \<and> (n = 0 \<longrightarrow> n' > 0 \<longrightarrow> left' < left)"
proof (induction ud p n left ccs h rule: extract_loop.induct)
  case (1 ud p n left ccs h)
  show ?case
  proof (cases "left \<ge> 16")
    case True
    from "1.prems" True obtain uh where uh: "header_at ud p = Some uh"
      by (subst (asm) extract_loop.simps) (auto split: option.splits)
    note run = "1.prems"(1) [unfolded extract_loop_long [OF True uh]]
    consider (first) "is_cc_header uh \<and> n = 0" | (second) "is_cc_header uh" "n \<noteq> 0"
      | (copy) "\<not> is_cc_header uh" "n = 1" | (skip) "\<not> is_cc_header uh" "n \<noteq> 1"
      by blast
    then show ?thesis
    proof cases
      case first
      with run obtain ccs1 ccs2 where c: "COPY_4_BYTES ud (p + 12) ccs = Some ccs1" "COPY_4_BYTES ud (p + 8) ccs1 = Some ccs2"
        "extract_loop ud (p + 16) 1 (left - 16) ccs2 uh = Some (n', left', ccs', h')" by (auto split: Option.bind_splits)
      from "1.IH"(1) [OF True uh first c] True show ?thesis by auto
    next
      case copy
      with run obtain ccs1 where c: "extract_copy ud p left ccs = Some ccs1"
        "extract_loop ud (p + unat (snd ccs1 - snd ccs)) n (left - int (unat (snd ccs1 - snd ccs))) ccs1 h = Some (n', left', ccs', h')"
        by (auto split: Option.bind_splits)
      moreover have "uint (snd ccs1 - snd ccs) = 4 \<or> uint (snd ccs1 - snd ccs) = 8 \<and> left \<ge> 20"
        using extract_copy_cs [of ud p left "fst ccs" "snd ccs" "fst ccs1" "snd ccs1"] c(1) by auto
      ultimately show ?thesis using "1.IH"(2) [OF True uh _ _ _ c(1) refl] copy True by auto
    qed (use run True "1.IH"(3) [OF True uh] in auto)
  qed (use "1.prems" in \<open>simp add: extract_loop_short\<close>)
qed

lemma extract_package_left:
  assumes "aml_extract_package ud n cc h = Some (left, cs, cc', h')"
  shows "left \<le> n \<and> (0 \<le> n \<longrightarrow> 0 \<le> left) \<and> (cs > 0 \<longrightarrow> 12 \<le> n \<and> left < n)"
proof (cases "n < 12")
  case False
  with assms obtain k l cc1 cs1 h1 where run: "extract_loop ud 0 0 n (cc, 0) h = Some (k, l, (cc1, cs1), h1)"
    and res: "(left, cs, cc', h') = (if k < 2 then (n, 0, cc1, h1) else (l, cs1, cc1, h1))"
    by (auto simp: aml_extract_package_def split: Option.bind_splits prod.splits)
  from extract_loop_left [OF run] False res show ?thesis by (auto split: if_splits)
qed (use assms in \<open>auto simp: aml_extract_package_def\<close>)

lemma sint_uint_32: "sint w = (if uint w < 2 ^ 31 then uint w else uint w - 2 ^ 32)" for w :: "32 word"
proof -
  have "sint w = (uint w + 2 ^ 31) mod 2 ^ 32 - 2 ^ 31" using to_int32_eq [of "uint w"] by (simp add: to_int32_def)
  moreover have "uint w < 2 ^ 32" using uint_lt2p [of w] by simp
  moreover have "(uint w + 2 ^ 31) mod 2 ^ 32 = uint w + 2 ^ 31 - 2 ^ 32" if "uint w \<ge> 2 ^ 31" "uint w < 2 ^ 32"
    using that minus_mod_self2 [of "uint w + 2 ^ 31" "2 ^ 32"] mod_pos_pos_trivial [of "uint w + 2 ^ 31 - 2 ^ 32" "2 ^ 32"] by simp
  ultimately show ?thesis by auto
qed

lemma uint_eq_sint: "0 \<le> sint w \<Longrightarrow> uint w = sint w" for w :: "32 word"
  using uint_lt2p [of w] by (auto simp: sint_uint_32 split: if_splits)

lemma sint_less_two_31: "sint w < 2 ^ 31" for w :: "32 word"
  using uint_lt2p [of w] by (auto simp: sint_uint_32 split: if_splits)

function mpeg_loop :: "aml_thread \<Rightarrow> 32 word \<Rightarrow> (byte list list \<times> aml_thread) option" where
  "mpeg_loop th cnt =
     (case aml_extract_package (th_buf th) (sint cnt) (th_cc_data th) (th_pheader th) of
        None \<Rightarrow> None
      | Some (l, cc_cnt, cc, h) \<Rightarrow>
          let left = word_of_int l in
          (case mpeg_package h cc cc_cnt (th\<lparr>th_cc_data := cc, th_pheader := h\<rparr>) of
             None \<Rightarrow> None
           | Some (outs, th1) \<Rightarrow>
               (case (if left < cnt \<and> left > 0 then move_down (th_buf th1) (unat cnt - unat left) (unat left) else Some (th_buf th1)) of
                  None \<Rightarrow> None
                | Some buf \<Rightarrow>
                    let th2 = th1\<lparr>th_buf := buf, th_left := left\<rparr> in
                    if cc_cnt > 0 \<and> left > 0
                    then map_option (map_prod ((@) outs) (\<lambda>th. th)) (mpeg_loop th2 left)
                    else Some (outs, th2))))"
  by pat_completeness auto
termination
proof (relation "measure (\<lambda>(th, cnt). unat cnt)", goal_cases)
  case (2 th cnt r l r1 cc_cnt r2 cc h left)
  then have l: "12 \<le> sint cnt" "0 \<le> l" "l < sint cnt"
    using extract_package_left [of "th_buf th" "sint cnt" "th_cc_data th" "th_pheader th" l cc_cnt cc h] by auto
  moreover from l have "uint cnt = sint cnt" by (intro uint_eq_sint) simp
  moreover from l have "uint (word_of_int l :: 32 word) = l"
    using sint_less_two_31 [of cnt] by (simp add: uint_word_of_int)
  ultimately have "unat (word_of_int l :: 32 word) < unat cnt" by (simp add: unat_eq_nat_uint)
  then show ?case by (simp only: 2(5) in_measure prod.case)
qed simp

declare mpeg_loop.simps [simp del]

text \<open>\<^verbatim>\<open>while (min_bytes_valid%DMA_BLOCK_LEN) min_bytes_valid++;\<close>\<close>

function dma_round :: "nat \<Rightarrow> nat" where
  "dma_round n = (if n mod DMA_BLOCK_LEN \<noteq> 0 then dma_round (n + 1) else n)"
  by pat_completeness auto
termination
  by (relation "measure (\<lambda>n. (8 - n mod 8) mod 8)") (auto simp: mod_Suc)

declare dma_round.simps [simp del]

lemma dma_round_eq: "dma_round n = n + (8 - n mod 8) mod 8"
proof (induction n rule: dma_round.induct)
  case (1 n)
  show ?case
  proof (cases "n mod 8 = 0")
    case False
    then have "(8 - (n + 1) mod 8) mod 8 + 1 = (8 - n mod 8) mod 8" by (auto simp: mod_Suc)
    moreover from False have "dma_round n = dma_round (n + 1)" by (subst dma_round.simps) simp
    ultimately show ?thesis using 1 [OF False] by linarith
  qed (simp add: dma_round.simps)
qed

definition has_cc_mark :: "byte list \<Rightarrow> nat \<Rightarrow> bool option" where
  "has_cc_mark buf p =
     do { m1 \<leftarrow> bytes_at buf (h264_mark p);
          if m1 then Some True
          else do { m2 \<leftarrow> bytes_at buf (directv_mark p);
                    if m2 then Some True else bytes_at buf (avs_mark p) } }"

definition cc_min_bytes :: "nat \<Rightarrow> byte list \<Rightarrow> nat \<Rightarrow> nat option" where
  "cc_min_bytes fmt buf p =
     (if fmt = H264_CC_TYPE then map_option (\<lambda>b. 11 + unat (b AND 0x1F) * 3) (Adp_Prelude.rd buf (p + 8))
      else map_option (\<lambda>b. 8 + unat (b AND 0x1F) * 3) (Adp_Prelude.rd buf (p + 5)))"

lemma and_1F_le: "unat (b AND 0x1F) \<le> 31" for b :: byte
  using word_and_le1 [of b "0x1F"] by (simp add: word_le_nat_alt)

lemma cc_min_bytes_bounds: "cc_min_bytes fmt buf p = Some n \<Longrightarrow> 8 \<le> n \<and> n \<le> 104"
  using and_1F_le [of "buf ! (p + 8)"] and_1F_le [of "buf ! (p + 5)"]
  by (auto simp: cc_min_bytes_def Adp_Prelude.rd_def split: if_splits)

lemma cnt_sub_decreases:
  fixes cnt :: "32 word"
  assumes "0 < cnt" "cnt < 5120" "0 < r" "r < 5120"
  shows "(if cnt - of_nat r < 5120 then unat (cnt - of_nat r) else 0) < unat cnt"
proof -
  have r: "uint (of_nat r :: 32 word) = int r" using assms by (simp add: uint_nat unat_of_nat)
  have sub: "uint (cnt - of_nat r) = (if int r \<le> uint cnt then uint cnt - int r else uint cnt - int r + 2 ^ 32)"
    using uint_sub_if' [of cnt "of_nat r"] r by simp
  have pos: "0 < uint cnt" using assms(1) by (simp add: word_less_def)
  show ?thesis
  proof (cases "int r \<le> uint cnt")
    case True
    with sub assms(3) have "uint (cnt - of_nat r) < uint cnt" by simp
    with pos have "nat (uint (cnt - of_nat r)) < nat (uint cnt)" by (intro iffD2 [OF zless_nat_conj]) simp
    with pos show ?thesis by (simp only: unat_eq_nat_uint) (simp split: if_split)
  next
    case False
    with sub assms(4) pos have "uint (5120 :: 32 word) \<le> uint (cnt - of_nat r)" by simp
    then have "\<not> cnt - of_nat r < 5120" by (simp only: word_less_def not_less)
    moreover have "0 < unat cnt" using assms(1) by (simp add: unat_gt_0)
    ultimately show ?thesis by (simp only: if_False)
  qed
qed

text \<open>The packet found at \<open>p\<close>; in the H.264 format its first three bytes are skipped.\<close>

definition h264_package :: "bool \<Rightarrow> int \<Rightarrow> nat \<Rightarrow> nat \<Rightarrow> aml_thread \<Rightarrow> (byte list list \<times> aml_thread) option" where
  "h264_package writer poc p n th =
     (let skip = (if th_format th = H264_CC_TYPE then 3 else 0) in
      do { (outs, bs) \<leftarrow> aml_h264_reorder_user_data writer 0 (drop (p + skip) (th_buf th)) (n - skip) poc (th_blocks th);
           Some (outs, th\<lparr>th_blocks := bs,
                          th_reorder := (th_reorder th)\<lparr>picture_coding_type := 0, picture_structure := FRAME_PICTURE,
                                                      picture_temporal_reference := 2\<rparr>\<rparr>) })"

text \<open>The rest of the data is moved to the start of the buffer and brought back into the decoder's byte order.\<close>

definition h264_keep :: "nat \<Rightarrow> 32 word \<Rightarrow> aml_thread \<Rightarrow> (byte list list \<times> aml_thread) option" where
  "h264_keep p cnt th =
     do { b1 \<leftarrow> move_down (th_buf th) p (unat cnt);
          b2 \<leftarrow> aml_swap_data b1 (sint cnt);
          Some ([], th\<lparr>th_buf := b2, th_left := cnt\<rparr>) }"

text \<open>
  \<open>pocs\<close> are the picture numbers that the calls of \<^verbatim>\<open>ioctl(fd, AMSTREAM_IOC_UD_POC, ...)\<close> store, in order;
  a call that fails leaves 0.
\<close>

function h264_loop :: "bool \<Rightarrow> 32 word list \<Rightarrow> nat \<Rightarrow> 32 word \<Rightarrow> aml_thread \<Rightarrow> (byte list list \<times> aml_thread) option" where
  "h264_loop writer pocs p cnt th =
     (if cnt > 0 \<and> cnt < of_nat TH_BUF_SIZE then
        if cnt > of_nat DMA_BLOCK_LEN then
          (case has_cc_mark (th_buf th) p of
             None \<Rightarrow> None
           | Some found \<Rightarrow>
               if found then
                 (case cc_min_bytes (th_format th) (th_buf th) p of
                    None \<Rightarrow> None
                  | Some n \<Rightarrow>
                      if unat cnt \<ge> n then
                        (case h264_package writer (case pocs of [] \<Rightarrow> 0 | poc # _ \<Rightarrow> sint poc) p n th of
                           None \<Rightarrow> None
                         | Some (outs, th1) \<Rightarrow>
                             map_option (map_prod ((@) outs) (\<lambda>th. th))
                               (h264_loop writer (tl pocs) (p + dma_round n) (cnt - of_nat (dma_round n)) th1))
                      else h264_keep p cnt th)
               else h264_loop writer pocs (p + 8) (cnt - 8) th)
        else h264_keep p cnt th
      else Some ([], th))"
  by pat_completeness auto
termination
proof (relation "measure (\<lambda>(writer, pocs, p, cnt, th). if cnt < 5120 then unat cnt else 0)", goal_cases)
  case (2 writer pocs p cnt th found n)
  then have "8 \<le> n \<and> n \<le> 104" using cc_min_bytes_bounds by blast
  then have "0 < dma_round n" "dma_round n < 5120" using mod_less_divisor [of 8 "8 - n mod 8"] by (auto simp only: dma_round_eq)
  then have "(if cnt - of_nat (dma_round n) < 5120 then unat (cnt - of_nat (dma_round n)) else 0) < unat cnt"
    using 2 by (intro cnt_sub_decreases) auto
  with 2 show ?case by simp
next
  case (3 writer pocs p cnt th found)
  then have "(if cnt - 8 < 5120 then unat (cnt - 8) else 0) < unat cnt"
    using cnt_sub_decreases [of cnt 8, unfolded of_nat_numeral] by auto
  with 3 show ?case by (simp split: if_splits)
qed simp

declare h264_loop.simps [simp del]

text \<open>
  What one turn of the loop \<^verbatim>\<open>while (drv_data->running)\<close> gets from outside: whether \<^verbatim>\<open>poll\<close> reports
  data, the result of \<^verbatim>\<open>read\<close> (\<open>None\<close> is -1; never more than asked for), how often \<^verbatim>\<open>running\<close> is still seen
  set while the format is unknown, whether \<^verbatim>\<open>malloc\<close> succeeds, and the picture numbers.
\<close>

record ud_turn =
  t_poll :: bool
  t_read :: "byte list option"
  t_running :: nat
  t_alloc :: bool
  t_pocs :: "32 word list"

fun format_loop :: "nat \<Rightarrow> bool \<Rightarrow> byte list \<Rightarrow> 32 word \<Rightarrow> nat \<Rightarrow> nat option" where
  "format_loop 0 alloc buf cnt fmt = Some fmt"
| "format_loop (Suc k) alloc buf cnt fmt =
     (if cnt > 0 \<and> fmt = INVALID_TYPE
      then do { f \<leftarrow> aml_check_userdata_format alloc buf (sint cnt); format_loop k alloc buf cnt f }
      else Some fmt)"

text \<open>\<^verbatim>\<open>read(fd, buf+left, sizeof(buf)-left)\<close>: the buffer and the result, as an unsigned number.\<close>

definition ud_read :: "byte list option \<Rightarrow> 32 word \<Rightarrow> byte list \<Rightarrow> (32 word \<times> byte list) option" where
  "ud_read r left buf =
     (if unat left > TH_BUF_SIZE then None
      else (case r of
              None \<Rightarrow> Some (-1, buf)
            | Some bs \<Rightarrow>
                let got = take (TH_BUF_SIZE - unat left) bs
                in do { buf1 \<leftarrow> copy_into buf (unat left) got; Some (of_nat (length got), buf1) }))"

definition aml_userdata_turn :: "bool \<Rightarrow> ud_turn \<Rightarrow> aml_thread \<Rightarrow> (byte list list \<times> aml_thread) option" where
  "aml_userdata_turn writer t th =
     (if \<not> t_poll t then Some ([], th)
      else do { (cnt, buf) \<leftarrow> ud_read (t_read t) (th_left th) (th_buf th);
                let th1 = th\<lparr>th_buf := buf\<rparr>;
                if \<not> th_flush th1 then Some ([], th1\<lparr>th_flush := True\<rparr>)
                else do { fmt \<leftarrow> format_loop (t_running t) (t_alloc t) buf cnt (th_format th1);
                          let th2 = th1\<lparr>th_format := fmt\<rparr>;
                          if cnt = 0 then Some ([], th2)
                          else if fmt = MPEG_CC_TYPE then mpeg_loop th2 (cnt + th_left th2)
                          else if fmt = H264_CC_TYPE \<or> fmt = DIRECTV_CC_TYPE \<or> fmt = AVS_CC_TYPE
                          then do { buf2 \<leftarrow> aml_swap_data buf (sint (cnt + th_left th2));
                                    h264_loop writer (t_pocs t) 0 (cnt + th_left th2) (th2\<lparr>th_buf := buf2, th_left := 0\<rparr>) }
                          else Some ([], th2) } })"

fun aml_userdata_turns :: "bool \<Rightarrow> ud_turn list \<Rightarrow> aml_thread \<Rightarrow> (byte list list \<times> aml_thread) option" where
  "aml_userdata_turns writer [] th = Some ([], th)"
| "aml_userdata_turns writer (t # ts) th =
     do { (out1, th1) \<leftarrow> aml_userdata_turn writer t th;
          (out2, th2) \<leftarrow> aml_userdata_turns writer ts th1;
          Some (out1 @ out2, th2) }"

text \<open>The variables at the start of the thread; \<open>cc\<close> is the content of the uninitialised array \<^verbatim>\<open>cc_data\<close>.\<close>

definition aml_thread_init :: "byte list \<Rightarrow> aml_thread" where
  "aml_thread_init cc =
     \<lparr>th_buf = replicate TH_BUF_SIZE 0, th_cc_data = cc, th_left = 0, th_format = INVALID_TYPE,
      th_pheader = \<lparr>uh_picture_structure = 0, uh_temporal_reference = 0, uh_picture_coding_type = 0, uh_index = 0,
                   uh_offset = 0, uh_cc_data_start = replicate 4 0, uh_atsc_id = 0\<rparr>,
      th_reorder = \<lparr>picture_coding_type = 0, picture_structure = 0, picture_temporal_reference = 0, reorder_pictures = 0,
                   reorder_n_bytes = [0, 0], reorder_buffer = [replicate 128 0, replicate 128 0]\<rparr>,
      th_last_pkg_idx = -1, th_blocks = [], th_flush = False\<rparr>"

text \<open>The whole thread: at the end the blocks that are still held are freed, and their packets are lost.\<close>

definition aml_h264_userdata_del :: "aml_cc_block list \<Rightarrow> aml_cc_block list" where
  "aml_h264_userdata_del bs = fold (\<lambda>_. List.tl) bs bs"

definition aml_userdata_thread :: "bool \<Rightarrow> ud_turn list \<Rightarrow> byte list \<Rightarrow> (byte list list \<times> aml_thread) option" where
  "aml_userdata_thread writer ts cc =
     do { (outs, th) \<leftarrow> aml_userdata_turns writer ts (aml_thread_init cc);
          Some (outs, th\<lparr>th_blocks := aml_h264_userdata_del (th_blocks th)\<rparr>) }"

subsection \<open>Opening and closing\<close>

record aml_ud_drv_data =
  ud_fd :: int
  ud_running :: bool

text \<open>\<^verbatim>\<open>malloc\<close>, the device file and the creation of the thread belong to the outside world.\<close>

record 'e ud_host =
  h_ud_malloc :: "'e \<Rightarrow> bool \<times> 'e"
  h_ud_open :: "'e \<Rightarrow> int \<times> 'e"
  h_ud_close :: "int \<Rightarrow> 'e \<Rightarrow> 'e"
  h_ud_thread :: "'e \<Rightarrow> int \<times> 'e"
  h_ud_join :: "'e \<Rightarrow> 'e"

definition ud_aml_open :: "'e ud_host \<Rightarrow> aml_ud_drv_data option \<Rightarrow> 'e \<Rightarrow> errcode \<times> aml_ud_drv_data option \<times> 'e" where
  "ud_aml_open H d e =
     (case h_ud_malloc H e of (ok, e1) \<Rightarrow>
        if \<not> ok then (AM_USERDATA_ERR_NO_MEM, d, e1)
        else (case h_ud_open H e1 of (fd, e2) \<Rightarrow>
          if fd = -1 then (AM_USERDATA_ERR_CANNOT_OPEN_DEV, d, e2)
          else (case h_ud_thread H e2 of (rc, e3) \<Rightarrow>
            if rc \<noteq> 0 then (AM_USERDATA_ERR_SYS, None, h_ud_close H fd e3)
            else (AM_SUCCESS, Some \<lparr>ud_fd = fd, ud_running = True\<rparr>, e3))))"

text \<open>The device file is closed before the thread is told to stop.\<close>

definition ud_aml_close :: "'e ud_host \<Rightarrow> aml_ud_drv_data option \<Rightarrow> 'e \<Rightarrow> (errcode \<times> aml_ud_drv_data option \<times> 'e) option" where
  "ud_aml_close H d e =
     (case d of None \<Rightarrow> None | Some data \<Rightarrow> Some (AM_SUCCESS, None, h_ud_join H (h_ud_close H (ud_fd data) e)))"

definition aml_ud_drv :: "'e ud_host \<Rightarrow> (aml_ud_drv_data option, 'e) ud_driver" where
  "aml_ud_drv H = \<lparr>drv_open = Some (\<lambda>d e. Some (ud_aml_open H d e)), drv_close = Some (ud_aml_close H)\<rparr>"

end
