(* ===== verification/Userdata_Order.thy ===== *)
theory Userdata_Order
  imports Userdata_Aml "HOL-Library.Multiset"
begin

text \<open>
  What the user data driver computes: the byte order of the decoder's blocks is reversed by
  \<^verbatim>\<open>aml_swap_data\<close>, and the packets are brought from coded order into display order, by picture
  number for H.264 and by picture type for MPEG.
\<close>

subsection \<open>Byte order\<close>

definition mirror :: "nat \<Rightarrow> nat" where
  "mirror x = 8 * (x div 8) + (7 - x mod 8)"

lemma mirror_div [simp]: "mirror x div 8 = x div 8"
  by (simp add: mirror_def)

lemma mirror_mirror [simp]: "mirror (mirror x) = x"
proof -
  have "mirror x mod 8 = 7 - x mod 8" unfolding mirror_def mod_mult_self4 by (rule mod_less) simp
  then have "mirror (mirror x) = 8 * (x div 8) + (7 - (7 - x mod 8))" by (simp add: mirror_def [of "mirror x"])
  also have "\<dots> = x" using mod_less_divisor [of 8 x] mult_div_mod_eq [of 8 x] by linarith
  finally show ?thesis .
qed

lemma mirror_less: "x < 8 * n \<Longrightarrow> mirror x < 8 * n"
  by (metis mirror_div div_less_iff_less_mult mult.commute zero_less_numeral)

text \<open>The blocks from \<open>lo\<close> up to \<open>hi\<close> reversed.\<close>

definition swap_range :: "nat \<Rightarrow> nat \<Rightarrow> byte list \<Rightarrow> byte list" where
  "swap_range lo hi a = map (\<lambda>x. if lo \<le> x div 8 \<and> x div 8 < hi then a ! mirror x else a ! x) [0..<length a]"

lemma swap_range_length [simp]: "length (swap_range lo hi a) = length a"
  by (simp add: swap_range_def)

lemma swap_range_nth [simp]:
  "x < length a \<Longrightarrow> swap_range lo hi a ! x = (if lo \<le> x div 8 \<and> x div 8 < hi then a ! mirror x else a ! x)"
  by (simp add: swap_range_def)

lemma swap_block:
  assumes "8 * i + 8 \<le> length a"
  shows "swap_bytes 4 (i * 8) (i * 8 + 7) a = Some (swap_range i (Suc i) a)"
proof -
  define b where "b = a[8 * i := a ! (8 * i + 7), 8 * i + 7 := a ! (8 * i), 8 * i + 1 := a ! (8 * i + 6), 8 * i + 6 := a ! (8 * i + 1),
     8 * i + 2 := a ! (8 * i + 5), 8 * i + 5 := a ! (8 * i + 2), 8 * i + 3 := a ! (8 * i + 4), 8 * i + 4 := a ! (8 * i + 3)]"
  have "swap_bytes 4 (i * 8) (i * 8 + 7) a = Some b"
    using assms by (simp add: eval_nat_numeral b_def nth_list_update mult.commute)
  moreover have "b = swap_range i (Suc i) a"
  proof (rule nth_equalityI)
    fix x assume "x < length b"
    then have x: "x < length a" by (simp add: b_def)
    show "b ! x = swap_range i (Suc i) a ! x"
    proof (cases "x div 8 = i")
      case True
      then obtain k where k: "x = 8 * i + k" "k < 8" by (metis mod_less_divisor mult_div_mod_eq zero_less_numeral)
      then have "k = 0 \<or> k = 1 \<or> k = 2 \<or> k = 3 \<or> k = 4 \<or> k = 5 \<or> k = 6 \<or> k = 7" by auto
      with k assms show ?thesis by (auto simp: b_def nth_list_update mirror_def add.commute [of "8 * i"])
    next
      case False
      then have "x < 8 * i \<or> 8 * i + 7 < x" by (auto simp: not_less)
      with x False show ?thesis by (auto simp: b_def nth_list_update)
    qed
  qed (simp add: b_def)
  ultimately show ?thesis by simp
qed

lemma swap_blocks_eq:
  "8 * (i + n) \<le> length a \<Longrightarrow> swap_blocks_loop i n a = Some (swap_range i (i + n) a)"
proof (induction n arbitrary: i a)
  case (Suc n)
  have "swap_range (Suc i) (i + Suc n) (swap_range i (Suc i) a) = swap_range i (i + Suc n) a"
  proof (rule nth_equalityI)
    fix x assume "x < length (swap_range (Suc i) (i + Suc n) (swap_range i (Suc i) a))"
    moreover have "mirror x < length a" if "x div 8 < i + Suc n"
      using mirror_less [of x "i + Suc n"] that Suc.prems by (simp add: div_less_iff_less_mult mult.commute)
    ultimately show "swap_range (Suc i) (i + Suc n) (swap_range i (Suc i) a) ! x = swap_range i (i + Suc n) a ! x"
      by (auto simp: not_less_eq_eq)
  qed simp
  with Suc.prems Suc.IH [of "Suc i" "swap_range i (Suc i) a"] swap_block [of i a] show ?case by simp
qed (auto intro!: nth_equalityI)

lemma swap_data_eq:
  assumes "0 \<le> n" "n \<le> int (length a)"
  shows "aml_swap_data a n = Some (swap_range 0 (nat n div 8) a)"
proof -
  have "nat (n sdiv 8) = nat n div 8" using assms by (simp add: sdiv_smod_nonneg nat_div_distrib)
  moreover have "8 * (nat n div 8) \<le> length a" using assms by linarith
  ultimately show ?thesis by (simp add: aml_swap_data_def swap_blocks_eq)
qed

text \<open>
  Reversing the blocks of eight bytes is its own inverse: what the driver keeps for the next turn
  is exactly what the decoder delivered. Each block is reversed, the rest is left alone.
\<close>

theorem swap_data_roundtrip:
  assumes "0 \<le> n" "n \<le> int (length a)"
  shows "\<exists>b. aml_swap_data a n = Some b \<and> aml_swap_data b n = Some a \<and> length b = length a
      \<and> (\<forall>x < length a. b ! x = (if x < 8 * (nat n div 8) then a ! (8 * (x div 8) + (7 - x mod 8)) else a ! x))"
proof -
  have "mirror x < length a" if "x div 8 < nat n div 8" for x
    using mirror_less [of x "nat n div 8"] that assms by (simp add: div_less_iff_less_mult mult.commute)
  then have "swap_range 0 (nat n div 8) (swap_range 0 (nat n div 8) a) = a" by (auto intro!: nth_equalityI)
  with assms show ?thesis
    by (auto simp: swap_data_eq mirror_def div_less_iff_less_mult mult.commute)
qed

theorem swap_data_roundtrip_witness:
  "\<exists>b. aml_swap_data [1, 2, 3, 4, 5, 6, 7, 8, 9, 10] 10 = Some b \<and> aml_swap_data b 10 = Some [1, 2, 3, 4, 5, 6, 7, 8, 9, 10]"
  using swap_data_roundtrip [of 10 "[1, 2, 3, 4, 5, 6, 7, 8, 9, 10]"] by auto

subsection \<open>Display order of H.264 pictures\<close>

abbreviation block_data :: "aml_cc_block \<Rightarrow> byte list" where
  "block_data b \<equiv> take (i_len b) (p_buf b)"

lemma min_poc_Min: "aml_h264_get_min_poc bs = Min (insert INVALID_POC (i_poc ` set bs))"
proof -
  have "fold (\<lambda>b m. if m < i_poc b then m else i_poc b) bs m = fold min (map i_poc bs) m" for m
    by (induction bs arbitrary: m) (auto simp: min_def not_less le_less intro!: arg_cong [where f = "fold min _"])
  then show ?thesis using Min.set_eq_fold [of INVALID_POC "map i_poc bs"] by (simp add: aml_h264_get_min_poc_def)
qed

lemma min_poc_member:
  assumes "bs \<noteq> []" "\<forall>b \<in> set bs. i_poc b \<le> INVALID_POC"
  shows "\<exists>b \<in> set bs. i_poc b = aml_h264_get_min_poc bs" and "\<forall>b \<in> set bs. aml_h264_get_min_poc bs \<le> i_poc b"
proof -
  have "aml_h264_get_min_poc bs \<in> insert INVALID_POC (i_poc ` set bs)"
    unfolding min_poc_Min by (rule Min_in) auto
  moreover show le: "\<forall>b \<in> set bs. aml_h264_get_min_poc bs \<le> i_poc b" by (simp add: min_poc_Min)
  ultimately show "\<exists>b \<in> set bs. i_poc b = aml_h264_get_min_poc bs"
    using assms by (cases bs) force+
qed

text \<open>Pushing takes out the first block with the smallest number.\<close>

lemma push_min:
  assumes "bs \<noteq> []" "\<forall>b \<in> set bs. i_poc b \<le> INVALID_POC"
  obtains xs b ys where "bs = xs @ b # ys" "aml_h264_userdata_push True bs (aml_h264_get_min_poc bs) = Some ([block_data b], xs @ ys)"
    "\<forall>x \<in> set xs. i_poc b < i_poc x" "\<forall>y \<in> set ys. i_poc b \<le> i_poc y" "i_poc b = aml_h264_get_min_poc bs"
proof -
  define m where "m = aml_h264_get_min_poc bs"
  define i where "i = first_idx (\<lambda>b. m = i_poc b) bs"
  from min_poc_member [OF assms] have i: "i < length bs" and le: "\<forall>b \<in> set bs. m \<le> i_poc b"
    unfolding i_def first_idx_less_iff m_def by (auto simp: eq_commute)
  have m: "i_poc (bs ! i) = m" using first_idx_hit [of "\<lambda>b. m = i_poc b" bs] i by (simp add: i_def)
  show ?thesis
  proof (rule that [of "take i bs" "bs ! i" "drop (Suc i) bs"])
    show "bs = take i bs @ bs ! i # drop (Suc i) bs" using i by (rule id_take_nth_drop)
    show "aml_h264_userdata_push True bs (aml_h264_get_min_poc bs) = Some ([block_data (bs ! i)], take i bs @ drop (Suc i) bs)"
      using i by (simp add: aml_h264_userdata_push_def Let_def flip: m_def i_def)
    show "\<forall>x \<in> set (take i bs). i_poc (bs ! i) < i_poc x"
    proof
      fix x assume "x \<in> set (take i bs)"
      then obtain j where j: "j < i" "x = bs ! j" using i by (auto simp: in_set_conv_nth)
      then have "m \<noteq> i_poc x" using first_idx_before [of j "\<lambda>b. m = i_poc b" bs] by (simp add: i_def)
      moreover have "m \<le> i_poc x" using le j i by simp
      ultimately show "i_poc (bs ! i) < i_poc x" using m by simp
    qed
    show "\<forall>y \<in> set (drop (Suc i) bs). i_poc (bs ! i) \<le> i_poc y" using le m by (auto dest: in_set_dropD)
    show "i_poc (bs ! i) = aml_h264_get_min_poc bs" using m by (simp add: m_def)
  qed
qed

lemma sort_key_take_min:
  fixes f :: "'a \<Rightarrow> 'b::linorder"
  assumes "\<forall>x \<in> set xs. f b < f x" "\<forall>y \<in> set ys. f b \<le> f y"
  shows "sort_key f (xs @ b # ys) = b # sort_key f (xs @ ys)"
proof (rule properties_for_sort_key)
  fix k assume "k \<in> set (b # sort_key f (xs @ ys))"
  have "filter (\<lambda>x. f k = f x) (sort_key f (xs @ ys)) = filter (\<lambda>x. f k = f x) (xs @ ys)"
    using sort_key_stable [of f "f k" "xs @ ys"] by (simp add: eq_commute)
  moreover have "filter (\<lambda>x. f b = f x) xs = []" using assms(1) by (auto simp: filter_empty_conv)
  ultimately show "filter (\<lambda>x. f k = f x) (b # sort_key f (xs @ ys)) = filter (\<lambda>x. f k = f x) (xs @ b # ys)"
    by (cases "f k = f b") auto
qed (use assms in \<open>auto simp: less_imp_le\<close>)

lemma flush_sorts:
  "\<forall>b \<in> set bs. i_poc b \<le> INVALID_POC \<Longrightarrow> aml_h264_flush True bs = Some (map block_data (sort_key i_poc bs), [])"
proof (induction bs rule: length_induct)
  case (1 bs)
  show ?case
  proof (cases "bs = []")
    case False
    obtain xs b ys where p: "bs = xs @ b # ys"
      "aml_h264_userdata_push True bs (aml_h264_get_min_poc bs) = Some ([block_data b], xs @ ys)"
      "\<forall>x \<in> set xs. i_poc b < i_poc x" "\<forall>y \<in> set ys. i_poc b \<le> i_poc y" "i_poc b = aml_h264_get_min_poc bs"
      by (rule push_min [OF False 1(2)])
    with 1 have "aml_h264_flush True (xs @ ys) = Some (map block_data (sort_key i_poc (xs @ ys)), [])" by auto
    with p False show ?thesis by (subst aml_h264_flush.simps) (simp add: sort_key_take_min)
  qed (simp add: aml_h264_flush.simps)
qed

text \<open>
  A sequence of pictures, each with its number and its data, given to \<^verbatim>\<open>aml_h264_reorder_user_data\<close>.
\<close>

fun h264_pictures :: "(int \<times> byte list) list \<Rightarrow> aml_cc_block list \<Rightarrow> (byte list list \<times> aml_cc_block list) option" where
  "h264_pictures [] bs = Some ([], bs)"
| "h264_pictures ((poc, d) # ps) bs =
     do { (out1, bs1) \<leftarrow> aml_h264_reorder_user_data True 0 d (length d) poc bs;
          (out2, bs2) \<leftarrow> h264_pictures ps bs1;
          Some (out1 @ out2, bs2) }"

definition picture_block :: "int \<times> byte list \<Rightarrow> aml_cc_block" where
  "picture_block p = \<lparr>i_poc = fst p, i_pic_type = 0, i_len = length (snd p), p_buf = snd p\<rparr>"

lemma picture_block_sel [simp]: "i_poc (picture_block p) = fst p" "block_data (picture_block p) = snd p"
  by (simp_all add: picture_block_def)

lemma poc_num_length: "aml_h264_get_poc_num bs = length bs"
proof -
  have "fold (\<lambda>_ n. n + 1) bs n = n + length bs" for n :: nat by (induction bs arbitrary: n) auto
  then show ?thesis by (simp add: aml_h264_get_poc_num_def)
qed

lemma add_picture [simp]:
  "aml_h264_userdata_add poc 0 (length d) d (map picture_block held) = Some (map picture_block (held @ [(poc, d)]))"
  by (simp add: aml_h264_userdata_add_def copy_out_def picture_block_def)

lemma reorder_keep:
  "poc \<noteq> 0 \<Longrightarrow> length held \<le> 5
    \<Longrightarrow> aml_h264_reorder_user_data True 0 d (length d) poc (map picture_block held) = Some ([], map picture_block (held @ [(poc, d)]))"
  unfolding aml_h264_reorder_user_data_def by (simp add: poc_num_length)

lemma reorder_full:
  assumes "poc \<noteq> 0" "5 < length held" "\<forall>p \<in> set held. fst p < INVALID_POC"
  obtains xs b ys where "held = xs @ b # ys" "\<forall>p \<in> set (xs @ ys). fst b \<le> fst p"
    "aml_h264_reorder_user_data True 0 d (length d) poc (map picture_block held)
       = Some ([snd b], map picture_block (xs @ ys @ [(poc, d)]))"
proof -
  have "map picture_block held \<noteq> []" "\<forall>b \<in> set (map picture_block held). i_poc b \<le> INVALID_POC"
    using assms by (auto simp: less_imp_le)
  note held = this
  obtain xs' b' ys' where p: "map picture_block held = xs' @ b' # ys'"
    "aml_h264_userdata_push True (map picture_block held) (aml_h264_get_min_poc (map picture_block held)) = Some ([block_data b'], xs' @ ys')"
    "\<forall>x \<in> set xs'. i_poc b' < i_poc x" "\<forall>y \<in> set ys'. i_poc b' \<le> i_poc y"
    "i_poc b' = aml_h264_get_min_poc (map picture_block held)" by (rule push_min [OF held])
  from p(1) obtain xs b ys where h: "held = xs @ b # ys" "xs' = map picture_block xs" "b' = picture_block b" "ys' = map picture_block ys"
    by (auto simp: map_eq_append_conv map_eq_Cons_conv)
  have "aml_h264_get_min_poc (map picture_block held) \<noteq> INVALID_POC" using p(5) h assms(3) by auto
  moreover have "map picture_block xs @ map picture_block ys = map picture_block (xs @ ys)" by simp
  ultimately have "aml_h264_reorder_user_data True 0 d (length d) poc (map picture_block held)
      = Some ([snd b], map picture_block (xs @ ys @ [(poc, d)]))"
    unfolding aml_h264_reorder_user_data_def using assms(1,2) p(2) h(2-4)
    by (simp add: poc_num_length add_picture [of _ _ "xs @ ys", simplified])
  moreover have "\<forall>p \<in> set (xs @ ys). fst b \<le> fst p" using p(3,4) h(2-4) by (auto simp: less_imp_le)
  ultimately show thesis using h(1) that by blast
qed

text \<open>No picture comes more than five places too late.\<close>

definition poc_window :: "(int \<times> byte list) list \<Rightarrow> bool" where
  "poc_window ps \<longleftrightarrow> (\<forall>j < length ps. \<forall>i < length ps. i + MAX_POC_CACHE < j \<longrightarrow> fst (ps ! i) \<le> fst (ps ! j))"

text \<open>Of more than five pictures held, one is so old that all that follow have larger numbers.\<close>

lemma old_picture_held:
  assumes "mset held \<subseteq># mset pre" "5 < length held"
  shows "\<exists>i. i + 5 < length pre \<and> pre ! i \<in> set held"
proof (rule ccontr)
  assume no: "\<not> ?thesis"
  define k where "k = length pre - 5"
  have old: "x \<notin> set (take k pre)" if "x \<in> set held" for x
  proof
    assume "x \<in> set (take k pre)"
    then obtain i where "i < k" "pre ! i = x" by (auto simp: in_set_conv_nth)
    with no that show False by (auto simp: k_def less_diff_conv)
  qed
  have "count (mset held) x \<le> count (mset (drop k pre)) x" for x
  proof (cases "x \<in> set held")
    case True
    then have "count (mset (take k pre)) x = 0" using old by (simp add: count_eq_zero_iff)
    moreover have "mset pre = mset (take k pre) + mset (drop k pre)" by (metis append_take_drop_id mset_append)
    ultimately have "count (mset pre) x = count (mset (drop k pre)) x" by (simp only: count_union add_0)
    with mset_subset_eq_count [OF assms(1), of x] show ?thesis by (simp only:)
  next
    case False
    then have "count (mset held) x = 0" by simp
    then show ?thesis by (simp only: le0)
  qed
  then have "mset held \<subseteq># mset (drop k pre)" by (rule mset_subset_eqI)
  then have "length held \<le> length (drop k pre)" by (metis size_mset size_mset_mono)
  with assms(2) show False by (simp add: k_def)
qed

lemma old_picture_before:
  assumes "poc_window (pre @ suf)" "i + 5 < length pre" "p \<in> set suf"
  shows "fst (pre ! i) \<le> fst p"
proof -
  from assms(3) obtain j where j: "j < length suf" "p = suf ! j" by (auto simp: in_set_conv_nth)
  from assms(2) j(1) have "length pre + j < length (pre @ suf)" "i < length (pre @ suf)" "i + 5 < length pre + j" by auto
  with assms(1) have "fst ((pre @ suf) ! i) \<le> fst ((pre @ suf) ! (length pre + j))" unfolding poc_window_def by blast
  with assms(2) j show ?thesis by (simp add: nth_append)
qed

lemma picture_pushed:
  assumes "poc_window (pre @ p # suf)" "mset held \<subseteq># mset pre" "\<forall>p \<in> set (pre @ p # suf). fst p < INVALID_POC"
    and "fst p \<noteq> 0" "5 < length held"
  shows "\<exists>xs b ys. held = xs @ b # ys \<and> (\<forall>q \<in> set (xs @ ys @ p # suf). fst b \<le> fst q)
      \<and> aml_h264_reorder_user_data True 0 (snd p) (length (snd p)) (fst p) (map picture_block held)
          = Some ([snd b], map picture_block (xs @ ys @ [p]))"
proof -
  have "\<forall>q \<in> set held. fst q < INVALID_POC" using assms(2,3) by (auto dest: mset_subset_eqD simp flip: set_mset_mset)
  with assms(4,5) obtain xs b ys where b: "held = xs @ b # ys" "\<forall>q \<in> set (xs @ ys). fst b \<le> fst q"
    and step: "aml_h264_reorder_user_data True 0 (snd p) (length (snd p)) (fst p) (map picture_block held)
      = Some ([snd b], map picture_block (xs @ ys @ [(fst p, snd p)]))"
    by (rule reorder_full)
  obtain i where i: "i + 5 < length pre" "pre ! i \<in> set held" using old_picture_held [OF assms(2,5)] by blast
  have "fst b \<le> fst (pre ! i)" using i(2) b by auto
  then have "\<forall>q \<in> set (p # suf). fst b \<le> fst q" using old_picture_before [OF assms(1) i(1)] order_trans by blast
  with b step show ?thesis by (intro exI [of _ xs] exI [of _ b] exI [of _ ys]) auto
qed

lemma pictures_in_order:
  assumes "poc_window (pre @ suf)" "mset held \<subseteq># mset pre"
    and "\<forall>p \<in> set (pre @ suf). fst p < INVALID_POC" "\<forall>p \<in> set suf. fst p \<noteq> 0"
  shows "\<exists>outs held'. h264_pictures suf (map picture_block held) = Some (map snd outs, map picture_block held')
      \<and> mset outs + mset held' = mset held + mset suf \<and> sorted (map fst outs)
      \<and> (\<forall>p \<in> set outs. \<forall>q \<in> set held'. fst p \<le> fst q)"
  using assms
proof (induction suf arbitrary: pre held)
  case Nil
  show ?case by (rule exI [of _ "[]"], rule exI [of _ held]) simp
next
  case (Cons p suf)
  have pre: "poc_window ((pre @ [p]) @ suf)" "\<forall>q \<in> set ((pre @ [p]) @ suf). fst q < INVALID_POC" "\<forall>q \<in> set suf. fst q \<noteq> 0"
    using Cons.prems by auto
  show ?case
  proof (cases "length held \<le> 5")
    case True
    have "mset (held @ [p]) \<subseteq># mset (pre @ [p])" using Cons.prems(2) by simp
    from Cons.IH [OF pre(1) this pre(2,3)] reorder_keep [of "fst p" held "snd p"] True Cons.prems(4)
    show ?thesis by (cases p) (auto simp: ac_simps)
  next
    case False
    with picture_pushed [OF Cons.prems(1-3)] Cons.prems(4) obtain xs b ys where b: "held = xs @ b # ys"
      "\<forall>q \<in> set (xs @ ys @ p # suf). fst b \<le> fst q"
      and step: "aml_h264_reorder_user_data True 0 (snd p) (length (snd p)) (fst p) (map picture_block held)
        = Some ([snd b], map picture_block (xs @ ys @ [p]))" by auto
    have sub: "mset (xs @ ys @ [p]) \<subseteq># mset (pre @ [p])"
      using Cons.prems(2) b(1) subset_mset.order_trans [OF _ Cons.prems(2), of "mset (xs @ ys)"] by simp
    from Cons.IH [OF pre(1) sub pre(2,3)] obtain outs held' where
      run: "h264_pictures suf (map picture_block (xs @ ys @ [p])) = Some (map snd outs, map picture_block held')"
      and ms: "mset outs + mset held' = mset (xs @ ys @ [p]) + mset suf" and so: "sorted (map fst outs)"
      and le: "\<forall>p \<in> set outs. \<forall>q \<in> set held'. fst p \<le> fst q" by blast
    have "fst b \<le> fst q" if "q \<in> set outs \<union> set held'" for q
      using that b(2) arg_cong [OF ms, of set_mset] by auto
    with so le have "sorted (map fst (b # outs)) \<and> (\<forall>p \<in> set (b # outs). \<forall>q \<in> set held'. fst p \<le> fst q)" by auto
    moreover have "h264_pictures (p # suf) (map picture_block held) = Some (map snd (b # outs), map picture_block held')"
      using step run by (cases p) simp
    moreover have "mset (b # outs) + mset held' = mset held + mset (p # suf)" using ms b(1) by simp
    ultimately show ?thesis by blast
  qed
qed

lemma pictures_append:
  "h264_pictures (ps @ qs) bs
   = do { (out1, bs1) \<leftarrow> h264_pictures ps bs; (out2, bs2) \<leftarrow> h264_pictures qs bs1; Some (out1 @ out2, bs2) }"
proof (induction ps arbitrary: bs)
  case (Cons p ps)
  show ?case
    by (cases p; cases "aml_h264_reorder_user_data True 0 (snd p) (length (snd p)) (fst p) bs")
      (auto simp: Cons.IH split: Option.bind_splits)
qed (auto split: Option.bind_splits)

lemma insort_map: "insort_key i_poc (picture_block p) (map picture_block ps) = map picture_block (insort_key fst p ps)"
  by (induction ps) auto

lemma flush_pictures:
  assumes "\<forall>p \<in> set held. fst p < INVALID_POC"
  shows "aml_h264_reorder_user_data True 0 d (length d) 0 (map picture_block held)
    = Some (map snd (sort_key fst held), [picture_block (0, d)])"
proof -
  have "aml_h264_flush True (map picture_block held) = Some (map block_data (sort_key i_poc (map picture_block held)), [])"
    using assms by (intro flush_sorts) (auto simp: less_imp_le)
  moreover have "sort_key i_poc (map picture_block held) = map picture_block (sort_key fst held)"
    by (induction held) (simp_all add: insort_map)
  ultimately show ?thesis
    using add_picture [of 0 d "[]"] by (auto simp: aml_h264_reorder_user_data_def comp_def)
qed



subsection \<open>Display order of MPEG pictures\<close>

text \<open>The data of a sequence of frame pictures, each with its coding type, given to \<^verbatim>\<open>aml_reorder_user_data\<close>.\<close>

fun mpeg_pictures :: "(nat \<times> byte list) list \<Rightarrow> aml_ud_reorder \<Rightarrow> (byte list list \<times> aml_ud_reorder) option" where
  "mpeg_pictures [] vd = Some ([], vd)"
| "mpeg_pictures ((ty, d) # ps) vd =
     do { (out1, vd1) \<leftarrow> aml_reorder_user_data (vd\<lparr>picture_coding_type := ty, picture_structure := FRAME_PICTURE\<rparr>) d (length d);
          (out2, vd2) \<leftarrow> mpeg_pictures ps vd1;
          Some (out1 @ out2, vd2) }"

text \<open>
  In coded order an I or P picture comes before the B pictures that are displayed before it.
  A group is such a picture with the B pictures that follow it in the stream.
\<close>

type_synonym picture_group = "(nat \<times> byte list) \<times> byte list list"

definition coded_order :: "picture_group list \<Rightarrow> (nat \<times> byte list) list" where
  "coded_order gs = concat (map (\<lambda>(a, bs). a # map (Pair B_TYPE) bs) gs)"

fun display_order :: "byte list \<Rightarrow> picture_group list \<Rightarrow> byte list list" where
  "display_order h [] = []"
| "display_order h ((a, bs) # gs) = h # bs @ display_order (snd a) gs"

definition group_ok :: "picture_group \<Rightarrow> bool" where
  "group_ok g \<longleftrightarrow> fst (fst g) \<in> {I_TYPE, P_TYPE} \<and> length (snd (fst g)) \<le> 128"

definition reorder_ok :: "aml_ud_reorder \<Rightarrow> bool" where
  "reorder_ok vd \<longleftrightarrow> length (reorder_buffer vd) = 2 \<and> length (reorder_n_bytes vd) = 2
     \<and> (\<forall>k < 2. length (reorder_buffer vd ! k) = 128 \<and> reorder_n_bytes vd ! k \<le> 128)"

lemma hold_package_ok:
  assumes "reorder_ok vd" "k < 2" "n \<le> 128" "n \<le> length buf"
  shows "\<exists>vd'. hold_package k buf n vd = Some vd' \<and> reorder_ok vd' \<and> held_package vd' k = take n buf
      \<and> reorder_pictures vd' = reorder_pictures vd"
  using assms
  by (auto simp: hold_package_def copy_out_def copy_into_def reorder_ok_def held_package_def nth_list_update)

definition holds_frame :: "byte list \<Rightarrow> aml_ud_reorder \<Rightarrow> bool" where
  "holds_frame h vd \<longleftrightarrow> reorder_ok vd \<and> reorder_pictures vd = 4 \<and> held_package vd 0 = h"

lemma reorder_fields [simp]:
  "reorder_ok (vd\<lparr>picture_coding_type := ty, picture_structure := st\<rparr>) = reorder_ok vd"
  "held_package (vd\<lparr>picture_coding_type := ty, picture_structure := st\<rparr>) k = held_package vd k"
  "reorder_ok (vd\<lparr>reorder_pictures := r\<rparr>) = reorder_ok vd"
  "held_package (vd\<lparr>reorder_pictures := r\<rparr>) k = held_package vd k"
  by (simp_all add: reorder_ok_def held_package_def)

lemma anchor_frame:
  assumes "reorder_ok vd" "ty \<in> {I_TYPE, P_TYPE}" "length d \<le> 128"
  shows "\<exists>vd'. aml_reorder_user_data (vd\<lparr>picture_coding_type := ty, picture_structure := FRAME_PICTURE\<rparr>) d (length d)
      = Some ((if reorder_pictures vd AND 5 \<noteq> 0 then [held_package vd 0] else [])
              @ (if reorder_pictures vd AND 2 \<noteq> 0 then [held_package vd 1] else []), vd') \<and> holds_frame d vd'"
  using hold_package_ok [of "vd\<lparr>picture_coding_type := ty, picture_structure := FRAME_PICTURE\<rparr>" 0 "length d" d] assms
  by (auto simp: aml_reorder_user_data_def aml_reorder_decode_cc_data_def holds_frame_def Let_def)

lemma b_frames:
  "holds_frame h vd \<Longrightarrow> \<exists>vd'. mpeg_pictures (map (Pair B_TYPE) bs @ ps) vd
      = map_option (map_prod ((@) bs) (\<lambda>vd. vd)) (mpeg_pictures ps vd') \<and> holds_frame h vd'"
proof (induction bs arbitrary: vd)
  case Nil
  then show ?case by (intro exI [of _ vd]) (auto simp: option.map_ident map_prod_def split_beta option.map_comp)
next
  case (Cons b bs)
  let ?vd = "vd\<lparr>picture_coding_type := B_TYPE, picture_structure := FRAME_PICTURE\<rparr>"
  have "holds_frame h ?vd" using Cons.prems by (simp add: holds_frame_def)
  from Cons.IH [OF this] obtain vd' where "mpeg_pictures (map (Pair B_TYPE) bs @ ps) ?vd
      = map_option (map_prod ((@) bs) (\<lambda>vd. vd)) (mpeg_pictures ps vd')" "holds_frame h vd'" by blast
  moreover have "aml_reorder_user_data ?vd b (length b) = Some ([b], ?vd)"
    using Cons.prems by (simp add: aml_reorder_user_data_def holds_frame_def copy_out_def)
  ultimately show ?case by (intro exI [of _ vd']) (cases "mpeg_pictures ps vd'"; auto)
qed

lemma groups_in_order:
  assumes "holds_frame h vd" "\<forall>g \<in> set gs. group_ok g"
  shows "\<exists>vd'. mpeg_pictures (coded_order gs) vd = Some (display_order h gs, vd')
      \<and> holds_frame (last (h # map (snd \<circ> fst) gs)) vd'"
  using assms
proof (induction gs arbitrary: h vd)
  case Nil
  then show ?case by (auto simp: coded_order_def)
next
  case (Cons g gs)
  obtain ty d bs where g: "g = ((ty, d), bs)" by (metis surj_pair)
  have hd: "reorder_ok vd" "reorder_pictures vd = 4" "held_package vd 0 = h" using Cons.prems(1) by (auto simp: holds_frame_def)
  have "ty \<in> {I_TYPE, P_TYPE}" "length d \<le> 128" using Cons.prems(2) g by (auto simp: group_ok_def)
  from anchor_frame [OF hd(1) this] hd obtain vd1 where
    a: "aml_reorder_user_data (vd\<lparr>picture_coding_type := ty, picture_structure := FRAME_PICTURE\<rparr>) d (length d) = Some ([h], vd1)"
    "holds_frame d vd1" by auto
  from b_frames [OF a(2), of bs "coded_order gs"] obtain vd2 where
    b: "mpeg_pictures (map (Pair B_TYPE) bs @ coded_order gs) vd1 = map_option (map_prod ((@) bs) (\<lambda>vd. vd)) (mpeg_pictures (coded_order gs) vd2)"
    "holds_frame d vd2" by blast
  from Cons.IH [OF b(2)] Cons.prems(2) obtain vd3 where "mpeg_pictures (coded_order gs) vd2 = Some (display_order d gs, vd3)"
    "holds_frame (last (d # map (snd \<circ> fst) gs)) vd3" by (auto simp: comp_def)
  moreover have "coded_order (g # gs) = (ty, d) # map (Pair B_TYPE) bs @ coded_order gs" by (simp add: coded_order_def g)
  ultimately show ?case using a(1) b(1) by (simp add: g comp_def split: if_splits)
qed

text \<open>
  The closed captions of frame pictures come out in display order: every I or P picture is
  held back until the B pictures that follow it in the stream are handed over, none is lost,
  and the last one is still held.
\<close>

theorem mpeg_display_order:
  assumes "reorder_ok vd" "reorder_pictures vd = 0" "\<forall>g \<in> set ((a, bs) # gs). group_ok g"
  shows "\<exists>vd'. mpeg_pictures (coded_order ((a, bs) # gs)) vd = Some (bs @ display_order (snd a) gs, vd')
      \<and> reorder_pictures vd' = 4 \<and> held_package vd' 0 = last (snd a # map (snd \<circ> fst) gs)"
proof -
  obtain ty d where a: "a = (ty, d)" by (cases a)
  have "ty \<in> {I_TYPE, P_TYPE}" "length d \<le> 128" using assms(3) a by (auto simp: group_ok_def)
  from anchor_frame [OF assms(1) this] assms(2) obtain vd1 where
    "aml_reorder_user_data (vd\<lparr>picture_coding_type := ty, picture_structure := FRAME_PICTURE\<rparr>) d (length d) = Some ([], vd1)"
    and vd1: "holds_frame d vd1" by auto
  moreover from b_frames [OF vd1, of bs "coded_order gs"] obtain vd2 where
    "mpeg_pictures (map (Pair B_TYPE) bs @ coded_order gs) vd1 = map_option (map_prod ((@) bs) (\<lambda>vd. vd)) (mpeg_pictures (coded_order gs) vd2)"
    and vd2: "holds_frame d vd2" by blast
  moreover from groups_in_order [OF vd2, of gs] assms(3) obtain vd3 where
    "mpeg_pictures (coded_order gs) vd2 = Some (display_order d gs, vd3)" "holds_frame (last (d # map (snd \<circ> fst) gs)) vd3" by auto
  ultimately show ?thesis by (simp add: coded_order_def a holds_frame_def)
qed

theorem mpeg_display_order_witness:
  "\<exists>vd'. mpeg_pictures (coded_order (((1, [10]), []) # [((2, [13]), [[11], [12]]), ((2, [15]), [[14]])])) (th_reorder (aml_thread_init []))
      = Some ([] @ display_order (snd (1::nat, [10])) [((2, [13]), [[11], [12]]), ((2, [15]), [[14]])], vd')
      \<and> reorder_pictures vd' = 4 \<and> held_package vd' 0 = last (snd (1::nat, [10]) # map (snd \<circ> fst) [((2::nat, [13]), [[11], [12]]), ((2, [15]), [[14::byte]])])"
  by (rule mpeg_display_order) (auto simp: aml_thread_init_def reorder_ok_def group_ok_def less_Suc_eq numeral_2_eq_2)

end
