(* ===== verification/Userdata_Queue.thy ===== *)
theory Userdata_Queue
  imports Am_Userdata
begin

text \<open>
  What the user data module promises: a bounded first-in first-out queue of packets. The
  queue is the specification, the device with its ring of bytes implements it, whatever the order in
  which the driver's thread writes and the application reads.
\<close>

subsection \<open>The specification\<close>

definition q_bytes :: "byte list list \<Rightarrow> nat" where
  "q_bytes q = sum_list (map (\<lambda>p. length p + 4) q)"

text \<open>A packet is accepted when it fits with its length, and one byte stays unused.\<close>

definition q_write :: "byte list \<Rightarrow> byte list list \<Rightarrow> int \<times> byte list list" where
  "q_write p q = (if q_bytes q + length p + 4 < USERDATA_BUF_SIZE then (int (length p), q @ [p]) else (0, q))"

text \<open>
  A packet that is longer than the caller's buffer is dropped. An empty packet is not taken out
  while it is the only one.
\<close>

definition q_read :: "int \<Rightarrow> byte list list \<Rightarrow> (int \<times> byte list) \<times> byte list list" where
  "q_read sz q =
     (case q of
        [] \<Rightarrow> ((0, []), [])
      | p # ps \<Rightarrow>
          if p = [] \<and> ps = [] then ((0, []), q)
          else if int (length p) > sz then ((0, []), ps)
          else ((int (length p), p), ps))"

datatype ud_event = Write "byte list" | Read int bool "byte list list"

fun q_step :: "ud_event \<Rightarrow> byte list list \<Rightarrow> (int \<times> byte list) \<times> byte list list" where
  "q_step (Write p) q = (case q_write p q of (r, q') \<Rightarrow> ((r, []), q'))"
| "q_step (Read sz timedout ws) q =
     (if q \<noteq> [] then q_read sz q
      else let q1 = fold (\<lambda>p q. snd (q_write p q)) ws q
           in if timedout \<or> q1 = [] then ((-1, []), q1) else q_read sz q1)"

fun q_run :: "ud_event list \<Rightarrow> byte list list \<Rightarrow> (int \<times> byte list) list \<times> byte list list" where
  "q_run [] q = ([], q)"
| "q_run (ev # evs) q = (case q_step ev q of (o1, q1) \<Rightarrow> case q_run evs q1 of (os, q2) \<Rightarrow> (o1 # os, q2))"

text \<open>
  The implementation: a write by the driver's thread through \<^verbatim>\<open>write_package\<close>, and a read of
  the application on device 0 in which \<^verbatim>\<open>malloc\<close> succeeds.
\<close>

fun ud_step :: "ud_event \<Rightarrow> ('d, 'e) ud_state \<Rightarrow> ((int \<times> byte list) \<times> ('d, 'e) ud_state) option" where
  "ud_step (Write p) st =
     do { (r, dev) \<leftarrow> userdata_package_write (userdata_devices st ! 0) p;
          Some ((r, []), st\<lparr>userdata_devices := (userdata_devices st)[0 := dev]\<rparr>) }"
| "ud_step (Read sz timedout ws) st = AM_USERDATA_Read True timedout ws 0 sz st"

fun ud_run :: "ud_event list \<Rightarrow> ('d, 'e) ud_state \<Rightarrow> ((int \<times> byte list) list \<times> ('d, 'e) ud_state) option" where
  "ud_run [] st = Some ([], st)"
| "ud_run (ev # evs) st =
     do { (o1, st1) \<leftarrow> ud_step ev st; (os, st2) \<leftarrow> ud_run evs st1; Some (o1 # os, st2) }"

text \<open>The lengths that fit an \<^verbatim>\<open>int\<close> with the four bytes of the header.\<close>

fun ev_small :: "ud_event \<Rightarrow> bool" where
  "ev_small (Write p) \<longleftrightarrow> length p + 4 < 2 ^ 31"
| "ev_small (Read sz timedout ws) \<longleftrightarrow> (\<forall>p \<in> set ws. length p + 4 < 2 ^ 31)"

subsection \<open>Lengths as bytes\<close>

definition package :: "byte list \<Rightarrow> byte list" where
  "package p = int_bytes (int (length p)) @ p"

lemma int_bytes_length [simp]: "length (int_bytes x) = 4"
  by (simp add: int_bytes_def)

lemma package_length [simp]: "length (package p) = length p + 4"
  by (simp add: package_def)

lemma concat_package_length: "length (concat (map package q)) = q_bytes q"
  by (induction q) (simp_all add: q_bytes_def)

lemma byte_digits:
  fixes x a b c :: int
  assumes "x = a * 256 + r0" "a = b * 256 + r1" "b = c * 256 + r2"
  shows "c * 16777216 + (r2 * 65536 + (r1 * 256 + r0)) = x"
  using assms by simp

lemma bytes_int_bytes:
  assumes "0 \<le> x" "x < 2 ^ 31"
  shows "bytes_int (int_bytes x) = x"
proof -
  have nth: "uint (int_bytes x ! i) = (x div 256 ^ i) mod 256" if "i < 4" for i
    using that by (simp add: int_bytes_def uint_word_of_int)
  have "(\<Sum>i<4. uint (int_bytes x ! i) * 256 ^ i) = (\<Sum>i<4. (x div 256 ^ i) mod 256 * 256 ^ i)"
    using nth by simp
  also have "\<dots> = x"
  proof -
    have "x div 65536 = x div 256 div 256" "x div 16777216 = x div 256 div 256 div 256"
      by (simp_all add: zdiv_zmult2_eq [symmetric])
    moreover have "x div 256 div 256 div 256 mod 256 = x div 256 div 256 div 256" using assms by simp
    ultimately show ?thesis
      by (simp add: eval_nat_numeral lessThan_Suc) (rule byte_digits; simp only: div_mult_mod_eq)
  qed
  finally show ?thesis using assms by (simp add: bytes_int_def to_int32_id)
qed

subsection \<open>The simulation\<close>

definition dev_rel :: "'d ud_device \<Rightarrow> byte list list \<Rightarrow> bool" where
  "dev_rel dev q \<longleftrightarrow> ud_open_cnt dev > 0 \<and> ud_lock dev \<and> ring_ok (ud_pkg_buf dev)
     \<and> rb_size (ud_pkg_buf dev) = USERDATA_BUF_SIZE \<and> ring_content (ud_pkg_buf dev) = concat (map package q)"

definition ud_rel :: "('d, 'e) ud_state \<Rightarrow> byte list list \<Rightarrow> bool" where
  "ud_rel st q \<longleftrightarrow> (\<exists>dev. userdata_devices st = [dev] \<and> dev_rel dev q)"

lemma ring_write_size: "userdata_ring_buf_write rb bs = Some (n, rb') \<Longrightarrow> rb_size rb' = rb_size rb"
  by (auto simp: userdata_ring_buf_write_def Let_def split: ud_data.splits if_splits Option.bind_splits)

lemma ring_read_size: "userdata_ring_buf_read rb n = Some (bs, rb') \<Longrightarrow> rb_size rb' = rb_size rb"
  by (auto simp: userdata_ring_buf_read_def Let_def split: ud_data.splits if_splits Option.bind_splits)

lemma ring_read_zero: "ring_ok rb \<Longrightarrow> userdata_ring_buf_read rb 0 = Some ([], rb)"
  by (erule ring_okE) (simp add: userdata_ring_buf_read_def copy_out_def)

lemma dev_rel_used:
  assumes "dev_rel dev q"
  shows "userdata_ring_buf_avail (ud_pkg_buf dev) = int (q_bytes q)"
    and "userdata_ring_buf_free (ud_pkg_buf dev) = 5119 - int (q_bytes q)"
    and "ring_room (ud_pkg_buf dev) = 5119 - q_bytes q"
    and "q_bytes q < 5120"
proof -
  from assms have ok: "ring_ok (ud_pkg_buf dev)" and sz: "rb_size (ud_pkg_buf dev) = 5120"
    and c: "ring_content (ud_pkg_buf dev) = concat (map package q)"
    by (auto simp: dev_rel_def)
  have used: "ring_used (ud_pkg_buf dev) = q_bytes q"
    using ring_content_length [OF ok] c concat_package_length [of q] by simp
  note b = ring_used_bounds [OF ok, unfolded used sz]
  show "userdata_ring_buf_avail (ud_pkg_buf dev) = int (q_bytes q)" by (rule b)
  show "userdata_ring_buf_free (ud_pkg_buf dev) = 5119 - int (q_bytes q)" using b by simp
  show "ring_room (ud_pkg_buf dev) = 5119 - q_bytes q" using ring_room_used [OF ok] used sz by simp
  show "q_bytes q < 5120" by (rule b)
qed

lemma q_bytes_0_iff [simp]: "q_bytes q = 0 \<longleftrightarrow> q = []"
  by (cases q) (simp_all add: q_bytes_def)

lemma package_write_rel:
  assumes "dev_rel dev q" "length p + 4 < 2 ^ 31"
  shows "\<exists>dev'. userdata_package_write dev p = Some (fst (q_write p q), dev') \<and> dev_rel dev' (snd (q_write p q))"
proof -
  note u = dev_rel_used [OF assms(1)]
  from assms(1) have d: "ud_lock dev" "ud_open_cnt dev > 0" "ring_ok (ud_pkg_buf dev)" "rb_size (ud_pkg_buf dev) = 5120"
    "ring_content (ud_pkg_buf dev) = concat (map package q)" by (auto simp: dev_rel_def)
  have i: "to_int32 (int (length p) + 4) = int (length p) + 4" "to_int32 (int (length p)) = int (length p)"
    using assms(2) by (auto intro!: to_int32_id)
  show ?thesis
  proof (cases "q_bytes q + length p + 4 < 5120")
    case True
    with u(3) have "length (int_bytes (int (length p))) + length p \<le> ring_room (ud_pkg_buf dev)" by simp
    from ud_bytes.put_record [OF d(3) this] obtain r1 r2 where r: "ring_put (ud_pkg_buf dev) (int_bytes (int (length p))) = Some r1" "ring_put r1 p = Some r2"
      "ring_ok r2" "ring_content r2 = ring_content (ud_pkg_buf dev) @ package p"
      by (auto simp: package_def)
    moreover from r d(4) have "rb_size r2 = 5120" by (auto dest!: ring_write_size)
    ultimately show ?thesis using d u(2) i True
      by (auto simp: userdata_package_write_def q_write_def dev_rel_def Let_def)
  next
    case False
    with assms(1) d u(2) i show ?thesis by (auto simp: userdata_package_write_def q_write_def Let_def)
  qed
qed

lemma ud_writes_rel:
  assumes "dev_rel dev q" "\<forall>p \<in> set ws. length p + 4 < 2 ^ 31"
  shows "\<exists>dev'. ud_writes ws dev = Some dev' \<and> dev_rel dev' (fold (\<lambda>p q. snd (q_write p q)) ws q)"
  using assms
proof (induction ws arbitrary: dev q)
  case (Cons p ws)
  then obtain dev1 where "userdata_package_write dev p = Some (fst (q_write p q), dev1)" "dev_rel dev1 (snd (q_write p q))"
    using package_write_rel [of dev q p] by auto
  moreover from this Cons.prems Cons.IH obtain dev' where "ud_writes ws dev1 = Some dev'"
    "dev_rel dev' (fold (\<lambda>p q. snd (q_write p q)) ws (snd (q_write p q)))" by fastforce
  ultimately show ?case by simp
qed simp

lemma dev_rel_ring:
  "dev_rel dev q \<Longrightarrow> ring_ok rb \<Longrightarrow> rb_size rb = 5120 \<Longrightarrow> ring_content rb = concat (map package q')
    \<Longrightarrow> dev_rel (dev\<lparr>ud_pkg_buf := rb\<rparr>) q'"
  by (simp add: dev_rel_def)

lemma read_nothing_rel:
  assumes "dev_rel dev q"
  shows "\<exists>rb. read_unused_data True (ud_pkg_buf dev) 0 = Some rb \<and> dev_rel (dev\<lparr>ud_pkg_buf := rb\<rparr>) q"
proof -
  from assms have d: "ring_ok (ud_pkg_buf dev)" "rb_size (ud_pkg_buf dev) = 5120"
    "ring_content (ud_pkg_buf dev) = concat (map package q)" by (auto simp: dev_rel_def)
  with assms show ?thesis by (auto simp: read_unused_data_def ring_read_zero intro!: dev_rel_ring)
qed

lemma q_read_short: "q_bytes q \<le> 4 \<Longrightarrow> q_read sz q = ((0, []), q)"
  by (cases q; cases "tl q") (auto simp: q_read_def q_bytes_def)

lemma package_read_rel:
  assumes "dev_rel dev q"
  shows "\<exists>dev'. userdata_package_read True dev sz = Some (fst (q_read sz q), dev') \<and> dev_rel dev' (snd (q_read sz q))"
proof (cases "q_bytes q \<le> 4")
  case True
  with read_nothing_rel [OF assms] dev_rel_used(1) [OF assms] show ?thesis
    by (auto simp: userdata_package_read_def q_read_short)
next
  case False
  then obtain p ps where q: "q = p # ps" by (cases q) (auto simp: q_bytes_def)
  note u = dev_rel_used [OF assms]
  from assms have d: "ring_ok (ud_pkg_buf dev)" "rb_size (ud_pkg_buf dev) = 5120"
    and "ring_content (ud_pkg_buf dev) = int_bytes (int (length p)) @ (p @ concat (map package ps))"
    by (auto simp: dev_rel_def package_def q)
  from ud_bytes.get_prefix [OF this(1,3)] obtain r1 where r1:
    "userdata_ring_buf_read (ud_pkg_buf dev) 4 = Some (int_bytes (int (length p)), r1)"
    "ring_ok r1" "ring_content r1 = p @ concat (map package ps)" by auto
  from ud_bytes.get_prefix [OF r1(2,3)] obtain r2 where r2: "userdata_ring_buf_read r1 (length p) = Some (p, r2)"
    "ring_ok r2" "ring_content r2 = concat (map package ps)" by auto
  from r1 r2 d have sz: "rb_size r1 = 5120" "rb_size r2 = 5120" by (auto dest!: ring_read_size)
  have len: "bytes_int (int_bytes (int (length p))) = int (length p)"
    using u(4) by (intro bytes_int_bytes) (auto simp: q q_bytes_def)
  have "userdata_ring_buf_avail r1 = int (length p + q_bytes ps)"
    using ring_used_bounds(1) [OF r1(2)] ring_content_length [OF r1(2)] r1(3) by (simp add: concat_package_length)
  moreover have "int_bytes x \<noteq> []" for x using int_bytes_length [of x] by (metis length_0_conv zero_neq_numeral)
  moreover have "q_read sz q = (if int (length p) > sz then ((0, []), ps) else ((int (length p), p), ps))"
    using False by (auto simp: q_read_def q q_bytes_def)
  moreover have "r2 = r1" if "p = []" using r2(1) that ring_read_zero [OF r1(2)] by simp
  ultimately show ?thesis
    using False u(1) r1 r2 len sz assms
    by (auto simp: userdata_package_read_def read_unused_data_def Let_def intro!: dev_rel_ring)
qed

lemma poll_rel:
  assumes "dev_rel dev q" "\<forall>p \<in> set ws. length p + 4 < 2 ^ 31"
  defines "q1 \<equiv> if q = [] then fold (\<lambda>p q. snd (q_write p q)) ws q else q"
  shows "\<exists>dev'. userdata_package_poll timedout ws dev
      = Some (if q = [] \<and> (timedout \<or> q1 = []) then AM_FAILURE else AM_SUCCESS, dev') \<and> dev_rel dev' q1"
proof (cases "q = []")
  case True
  with ud_writes_rel [OF assms(1,2)] obtain dev' where "ud_writes ws dev = Some dev'" "dev_rel dev' q1"
    by (auto simp: q1_def)
  with True dev_rel_used(1) [OF assms(1)] dev_rel_used(1) [of dev' q1] show ?thesis
    by (auto simp: userdata_package_poll_def)
next
  case False
  with assms dev_rel_used(1) [OF assms(1)] q_bytes_0_iff [of q] show ?thesis
    by (auto simp: userdata_package_poll_def simp del: q_bytes_0_iff)
qed

lemma ud_step_rel:
  assumes "ud_rel st q" "ev_small ev"
  shows "\<exists>st'. ud_step ev st = Some (fst (q_step ev q), st') \<and> ud_rel st' (snd (q_step ev q))"
proof -
  from assms(1) obtain dev where dev: "userdata_devices st = [dev]" "dev_rel dev q" by (auto simp: ud_rel_def)
  show ?thesis
  proof (cases ev)
    case (Write p)
    with assms(2) dev package_write_rel [OF dev(2), of p] show ?thesis
      by (auto simp: ud_rel_def split: prod.splits)
  next
    case (Read sz timedout ws)
    define q1 where "q1 = (if q = [] then fold (\<lambda>p q. snd (q_write p q)) ws q else q)"
    from Read assms(2) poll_rel [OF dev(2), of ws timedout] obtain dev1 where poll: "userdata_package_poll timedout ws dev
        = Some (if q = [] \<and> (timedout \<or> q1 = []) then AM_FAILURE else AM_SUCCESS, dev1)" "dev_rel dev1 q1"
      by (auto simp: q1_def)
    from package_read_rel [OF this(2), of sz] obtain dev2 where
      "userdata_package_read True dev1 sz = Some (fst (q_read sz q1), dev2)" "dev_rel dev2 (snd (q_read sz q1))" by auto
    moreover have "userdata_get_openned_dev st 0 = Inr 0" "ud_lock dev"
      using dev by (auto simp: userdata_get_openned_dev_def userdata_get_dev_def dev_rel_def)
    ultimately show ?thesis using Read poll dev(1)
      by (auto simp: AM_USERDATA_Read_def ud_rel_def q1_def Let_def)
  qed
qed

lemma ud_run_rel:
  assumes "ud_rel st q" "\<forall>ev \<in> set evs. ev_small ev"
  shows "\<exists>st'. ud_run evs st = Some (fst (q_run evs q), st') \<and> ud_rel st' (snd (q_run evs q))"
  using assms
proof (induction evs arbitrary: st q)
  case (Cons ev evs)
  then obtain st1 where "ud_step ev st = Some (fst (q_step ev q), st1)" "ud_rel st1 (snd (q_step ev q))"
    using ud_step_rel [of st q ev] by auto
  moreover from this Cons.prems Cons.IH obtain st2 where "ud_run evs st1 = Some (fst (q_run evs (snd (q_step ev q))), st2)"
    "ud_rel st2 (snd (q_run evs (snd (q_step ev q))))" by fastforce
  ultimately show ?case by (auto split: prod.splits)
qed simp

text \<open>A device that was just opened is an empty queue.\<close>

lemma open_rel:
  assumes "AM_USERDATA_Open drv (Some m) 0 st = Some (AM_SUCCESS, st')" "length m = USERDATA_BUF_SIZE"
    and "length (userdata_devices st) = USERDATA_DEV_COUNT" "ud_open_cnt (userdata_devices st ! 0) = 0"
  shows "ud_rel st' []"
proof -
  from assms(3) obtain dev where "userdata_devices st = [dev]" by (auto simp: length_Suc_conv)
  with assms show ?thesis
    by (auto simp: AM_USERDATA_Open_def userdata_get_dev_def userdata_ring_buf_init_def ud_rel_def dev_rel_def ring_ok_def
        ring_content_def userdata_ring_buf_avail_def Let_def split: Option.bind_splits if_splits)
qed

subsection \<open>Properties\<close>

text \<open>
  C5: After the device is opened, every sequence of packets written by the driver's thread and reads
  by the application, those that wait and time out included, is defined and returns exactly what
  a queue of packets returns: each packet once, whole and in the order written, except those
  that do not fit the buffer, which are refused, and those that do not fit the caller's buffer,
  which are dropped. In particular the branch that the code calls impossible is never taken.
\<close>

theorem packages_refine_queue:
  assumes "AM_USERDATA_Open drv (Some m) 0 st = Some (AM_SUCCESS, st')" "length m = USERDATA_BUF_SIZE"
    and "length (userdata_devices st) = USERDATA_DEV_COUNT" "ud_open_cnt (userdata_devices st ! 0) = 0"
    and "\<forall>ev \<in> set evs. ev_small ev"
  shows "map_option fst (ud_run evs st') = Some (fst (q_run evs []))"
  using ud_run_rel [OF open_rel [OF assms(1-4)] assms(5)] by auto

definition example_dev :: "unit ud_device" where
  "example_dev = \<lparr>ud_dev_no = 0, ud_drv_data = (), ud_open_cnt = 0, ud_lock = False,
     ud_pkg_buf = \<lparr>rb_data = Null, rb_size = 0, rb_pread = 0, rb_pwrite = 0, rb_error = 0\<rparr>, ud_writer = False, ud_blocks = 0\<rparr>"

definition example_ud :: "(unit, unit) ud_state" where
  "example_ud = \<lparr>userdata_devices = [example_dev], ud_os = ()\<rparr>"

definition example_opened :: "(unit, unit) ud_state" where
  "example_opened = \<lparr>userdata_devices = [example_dev\<lparr>ud_open_cnt := 1, ud_lock := True, ud_writer := True, ud_blocks := 1,
     ud_pkg_buf := \<lparr>rb_data = Block (replicate 5120 0), rb_size = 5120, rb_pread = 0, rb_pwrite = 0, rb_error = 0\<rparr>\<rparr>],
     ud_os = ()\<rparr>"

lemma example_open:
  "AM_USERDATA_Open \<lparr>drv_open = None, drv_close = None\<rparr> (Some (replicate 5120 0)) 0 example_ud = Some (AM_SUCCESS, example_opened)"
  by (simp add: AM_USERDATA_Open_def userdata_get_dev_def example_ud_def example_dev_def example_opened_def
      userdata_ring_buf_init_def)

theorem packages_refine_queue_witness:
  "map_option fst (ud_run [Read 8 False [[1, 2], [3, 4, 5]], Read 2 False [], Write [6], Read 8 False [], Read 8 True []] example_opened)
     = Some [(2, [1, 2]), (0, []), (1, []), (1, [6]), (-1, [])]"
  using packages_refine_queue [OF example_open, of "[Read 8 False [[1, 2], [3, 4, 5]], Read 2 False [], Write [6], Read 8 False [], Read 8 True []]"]
  by (simp add: example_ud_def example_dev_def q_write_def q_read_def q_bytes_def)

text \<open>
  A read from a device that is not open returns the error code as the number of bytes, which is
  positive and larger than any buffer.
\<close>

theorem unopened_read_counts_bytes:
  assumes "dev_no < 0 \<or> dev_no \<ge> int USERDATA_DEV_COUNT \<or> ud_open_cnt (userdata_devices st ! nat dev_no) = 0"
  shows "\<exists>n. AM_USERDATA_Read alloc timedout ws dev_no sz st = Some ((n, []), st) \<and> n > int USERDATA_BUF_SIZE"
  using assms
  by (auto simp: AM_USERDATA_Read_def userdata_get_openned_dev_def userdata_get_dev_def err_code)

theorem unopened_read_counts_bytes_witness:
  "\<exists>n. AM_USERDATA_Read True False [] 0 16 example_ud = Some ((n, []), example_ud) \<and> n > int USERDATA_BUF_SIZE"
  by (rule unopened_read_counts_bytes) (simp add: example_ud_def example_dev_def)

text \<open>
  A driver that fails to open leaves the ring buffer allocated, and the next open overwrites the
  only pointer to it: a block is lost with each attempt.
\<close>

theorem failed_open_leaks_ring:
  assumes "length (userdata_devices st) = USERDATA_DEV_COUNT" "ud_open_cnt (userdata_devices st ! 0) = 0"
    and "drv_open drv = Some (\<lambda>d e. Some (err, d, e))" "err \<noteq> AM_SUCCESS"
  shows "\<exists>st1 st2. AM_USERDATA_Open drv (Some m1) 0 st = Some (err, st1) \<and> AM_USERDATA_Open drv (Some m2) 0 st1 = Some (err, st2)
      \<and> rb_data (ud_pkg_buf (userdata_devices st2 ! 0)) = Block m2
      \<and> ud_blocks (userdata_devices st2 ! 0) = ud_blocks (userdata_devices st ! 0) + 2"
  using assms
  by (auto simp: AM_USERDATA_Open_def userdata_get_dev_def userdata_ring_buf_init_def length_Suc_conv)

theorem failed_open_leaks_ring_witness:
  "\<exists>st1 st2. AM_USERDATA_Open \<lparr>drv_open = Some (\<lambda>d e. Some (5, d, e)), drv_close = None\<rparr> (Some [1]) 0 example_ud = Some (5, st1)
      \<and> AM_USERDATA_Open \<lparr>drv_open = Some (\<lambda>d e. Some (5, d, e)), drv_close = None\<rparr> (Some [2]) 0 st1 = Some (5, st2)
      \<and> rb_data (ud_pkg_buf (userdata_devices st2 ! 0)) = Block [2]
      \<and> ud_blocks (userdata_devices st2 ! 0) = ud_blocks (userdata_devices example_ud ! 0) + 2"
  by (rule failed_open_leaks_ring) (simp_all add: example_ud_def example_dev_def)

end
