(* ===== verification/Userdata_Thread.thy ===== *)
theory Userdata_Thread
  imports Userdata_Order Userdata_Queue
begin

text \<open>
  The driver's thread as a whole: whatever the decoder delivers, it stays inside its buffers, and
  every packet it hands over fits the module's queue. The exceptions are a failing \<^verbatim>\<open>read\<close>, and a
  buffer that fills up.
\<close>

subsection \<open>The thread stays inside its buffers\<close>

text \<open>The packets handed over are not empty and shorter than 256 bytes.\<close>

definition packet_ok :: "byte list \<Rightarrow> bool" where
  "packet_ok p \<longleftrightarrow> p \<noteq> [] \<and> length p < 256"

definition blocks_ok :: "aml_cc_block list \<Rightarrow> bool" where
  "blocks_ok bs \<longleftrightarrow> (\<forall>b \<in> set bs. i_poc b \<le> INVALID_POC \<and> packet_ok (block_data b))"

text \<open>Only the combinations 0 to 4 occur, and a picture that is held is not empty.\<close>

definition reorder_inv :: "aml_ud_reorder \<Rightarrow> bool" where
  "reorder_inv vd \<longleftrightarrow> reorder_ok vd \<and> reorder_pictures vd \<in> {0, 1, 2, 3, 4}
     \<and> (reorder_pictures vd \<in> {1, 3, 4} \<longrightarrow> packet_ok (held_package vd 0))
     \<and> (reorder_pictures vd \<in> {2, 3} \<longrightarrow> packet_ok (held_package vd 1))"

definition thread_ok :: "aml_thread \<Rightarrow> bool" where
  "thread_ok th \<longleftrightarrow> length (th_buf th) = TH_BUF_SIZE \<and> length (th_cc_data th) = 256 \<and> unat (th_left th) \<le> TH_BUF_SIZE
     \<and> reorder_inv (th_reorder th) \<and> blocks_ok (th_blocks th) \<and> (th_format th = INVALID_TYPE \<longrightarrow> th_left th = 0)"

lemma COPY_4_BYTES_ok: "k + 4 \<le> length b \<Longrightarrow> \<exists>cc'. COPY_4_BYTES b k (cc, cs) = Some (cc', cs + 4) \<and> length cc' = length cc"
  by (simp add: COPY_4_BYTES_def)

lemma extract_copy_ok:
  assumes "16 \<le> left" "int p + left \<le> int (length ud)"
  shows "\<exists>cc' cs'. extract_copy ud p left (cc, cs) = Some (cc', cs') \<and> length cc' = length cc"
proof -
  have h: "\<exists>uh. header_at ud (p + 4) = Some uh" if "20 \<le> left" using that assms by (auto simp: header_at_def)
  have c: "\<exists>cc1. COPY_4_BYTES ud p (cc, cs) = Some (cc1, cs + 4) \<and> length cc1 = length cc" for cc cs
    using assms by (intro COPY_4_BYTES_ok) linarith
  have c4: "\<exists>cc1. COPY_4_BYTES ud (p + 4) (cc, cs) = Some (cc1, cs + 4) \<and> length cc1 = length cc" if "20 \<le> left" for cc cs
    using assms that by (intro COPY_4_BYTES_ok) linarith
  show ?thesis
  proof (cases "20 \<le> left")
    case True
    with h obtain uh where "header_at ud (p + 4) = Some uh" by blast
    moreover from c4 [OF True] obtain cc1 where "COPY_4_BYTES ud (p + 4) (cc, cs) = Some (cc1, cs + 4)" "length cc1 = length cc" by blast
    ultimately show ?thesis using True c [of cc1 "cs + 4"] c [of cc cs] by (auto simp: extract_copy_def)
  qed (use c [of cc cs] in \<open>auto simp: extract_copy_def\<close>)
qed

lemma extract_loop_ok:
  "int p + left \<le> int (length ud) \<Longrightarrow> 0 \<le> left
    \<Longrightarrow> \<exists>n' left' cc' cs' h'. extract_loop ud p n left ccs h = Some (n', left', (cc', cs'), h') \<and> length cc' = length (fst ccs)"
proof (induction ud p n left ccs h rule: extract_loop.induct)
  case (1 ud p n left ccs h)
  show ?case
  proof (cases "left \<ge> 16")
    case True
    then obtain uh where uh: "header_at ud p = Some uh" using "1.prems" by (auto simp: header_at_def)
    note long = extract_loop_long [OF True uh, of n ccs h]
    obtain cc cs where ccs: "ccs = (cc, cs)" by (cases ccs)
    have "p + 12 + 4 \<le> length ud" "p + 8 + 4 \<le> length ud" using "1.prems" True by linarith+
    note copy = COPY_4_BYTES_ok [OF this(1)] COPY_4_BYTES_ok [OF this(2)]
    obtain ccs1 where e: "extract_copy ud p left ccs = Some ccs1" "length (fst ccs1) = length cc"
      using extract_copy_ok [OF True "1.prems"(1), of cc cs] ccs by force
    have "uint (snd ccs1 - snd ccs) = 4 \<or> uint (snd ccs1 - snd ccs) = 8 \<and> left \<ge> 20"
      using extract_copy_cs [of ud p left "fst ccs" "snd ccs" "fst ccs1" "snd ccs1"] e(1) by auto
    then have le: "int (unat (snd ccs1 - snd ccs)) \<le> left" using True by auto
    show ?thesis
    proof (cases "is_cc_header uh \<and> n = 0")
      case first: True
      obtain cc1 where c1: "COPY_4_BYTES ud (p + 12) ccs = Some (cc1, cs + 4)" "length cc1 = length cc" using copy(1) ccs by blast
      obtain cc2 where c2: "COPY_4_BYTES ud (p + 8) (cc1, cs + 4) = Some (cc2, cs + 4 + 4)" "length cc2 = length cc1"
        using copy(2) by blast
      show ?thesis using "1.IH"(1) [OF True uh first c1(1) c2(1)] "1.prems" True long first c1 c2 ccs by auto
    next
      case notfirst: False
      show ?thesis
        using "1.IH"(2) [OF True uh notfirst _ _ e(1) refl] "1.IH"(3) [OF True uh notfirst] "1.prems" long notfirst e le ccs True
        by (auto split: if_splits)
    qed
  qed (cases ccs; simp add: extract_loop_short)
qed

lemma held_other: "hold_package k buf n vd = Some vd' \<Longrightarrow> j \<noteq> k \<Longrightarrow> held_package vd' j = held_package vd j"
  by (auto simp: hold_package_def held_package_def split: Option.bind_splits)

lemma reorder_inv_cases:
  assumes "reorder_inv vd"
  obtains "reorder_pictures vd = 0" | "reorder_pictures vd = 1" "packet_ok (held_package vd 0)"
  | "reorder_pictures vd = 2" "packet_ok (held_package vd 1)"
  | "reorder_pictures vd = 3" "packet_ok (held_package vd 0)" "packet_ok (held_package vd 1)"
  | "reorder_pictures vd = 4" "packet_ok (held_package vd 0)"
  using assms unfolding reorder_inv_def by blast

lemma reorder_invI:
  assumes "reorder_ok vd" "r \<in> {0, 1, 2, 3, 4}" "r \<in> {1, 3, 4} \<Longrightarrow> packet_ok (held_package vd 0)"
    "r \<in> {2, 3} \<Longrightarrow> packet_ok (held_package vd 1)"
  shows "reorder_inv (vd\<lparr>reorder_pictures := r\<rparr>)"
  using assms by (simp add: reorder_inv_def)

text \<open>A new picture in buffer \<open>k\<close>; \<open>r'\<close> is the combination that is left of the old ones.\<close>

lemma hold_inv:
  assumes "reorder_inv vd" "k < 2" "0 < n" "n \<le> 128" "n \<le> length buf"
  shows "\<exists>vd1. hold_package k buf n vd = Some vd1 \<and> reorder_ok vd1 \<and> packet_ok (held_package vd1 k)
      \<and> (\<forall>j. j \<noteq> k \<longrightarrow> held_package vd1 j = held_package vd j)"
proof -
  have "reorder_ok vd" using assms(1) by (simp add: reorder_inv_def)
  from hold_package_ok [OF this assms(2,4,5)] obtain vd1 where vd1: "hold_package k buf n vd = Some vd1" "reorder_ok vd1"
    "held_package vd1 k = take n buf" by blast
  moreover have "packet_ok (take n buf)" unfolding packet_ok_def using assms(3-5) by (cases buf) auto
  ultimately show ?thesis using held_other [OF vd1(1)] by auto
qed

lemma decode_frame_ok:
  assumes "reorder_inv vd" "0 < n" "n \<le> length buf" "picture_structure vd = FRAME_PICTURE"
  shows "\<exists>outs vd'. aml_reorder_decode_cc_data vd buf n = Some (outs, vd') \<and> reorder_inv vd' \<and> list_all packet_ok outs"
proof -
  have m: "(0::nat) < 2" "0 < min n 128" "min n 128 \<le> 128" "min n 128 \<le> length buf" using assms(2,3) by simp_all
  obtain vd1 where vd1: "hold_package 0 buf (min n 128) vd = Some vd1" "reorder_ok vd1" "packet_ok (held_package vd1 0)"
    using hold_inv [OF assms(1) m] by blast
  have "reorder_inv (vd1\<lparr>reorder_pictures := 4\<rparr>)" using vd1 by (intro reorder_invI) simp_all
  note inv = this
  from assms(1) show ?thesis
    by (cases rule: reorder_inv_cases) (use inv in \<open>simp_all add: aml_reorder_decode_cc_data_def assms(4) vd1(1)\<close>)
qed

lemma decode_top_ok:
  assumes "reorder_inv vd" "0 < n" "n \<le> length buf" "picture_structure vd = TOP_FIELD"
  shows "\<exists>outs vd'. aml_reorder_decode_cc_data vd buf n = Some (outs, vd') \<and> reorder_inv vd' \<and> list_all packet_ok outs"
proof -
  have m: "(0::nat) < 2" "0 < min n 128" "min n 128 \<le> 128" "min n 128 \<le> length buf" using assms(2,3) by simp_all
  obtain vd1 where vd1: "hold_package 0 buf (min n 128) vd = Some vd1" "reorder_ok vd1" "packet_ok (held_package vd1 0)"
    "held_package vd1 1 = held_package vd 1"
    using hold_inv [OF assms(1) m] by auto
  have "reorder_inv (vd1\<lparr>reorder_pictures := 1\<rparr>)" using vd1 by (intro reorder_invI) simp_all
  moreover have "reorder_inv (vd1\<lparr>reorder_pictures := 3\<rparr>)" if "packet_ok (held_package vd 1)"
    using vd1 that by (intro reorder_invI) simp_all
  note inv = calculation this
  from assms(1) show ?thesis
    by (cases rule: reorder_inv_cases) (use inv in \<open>simp_all add: aml_reorder_decode_cc_data_def assms(4) vd1(1)\<close>)
qed

lemma decode_bottom_ok:
  assumes "reorder_inv vd" "0 < n" "n \<le> length buf" "picture_structure vd = BOTTOM_FIELD"
  shows "\<exists>outs vd'. aml_reorder_decode_cc_data vd buf n = Some (outs, vd') \<and> reorder_inv vd' \<and> list_all packet_ok outs"
proof -
  have m: "(1::nat) < 2" "0 < min n 128" "min n 128 \<le> 128" "min n 128 \<le> length buf" using assms(2,3) by simp_all
  obtain vd1 where vd1: "hold_package 1 buf (min n 128) vd = Some vd1" "reorder_ok vd1" "packet_ok (held_package vd1 1)"
    "held_package vd1 0 = held_package vd 0"
    using hold_inv [OF assms(1) m] by auto
  have "reorder_inv (vd1\<lparr>reorder_pictures := 2\<rparr>)" using vd1 by (intro reorder_invI) simp_all
  moreover have "reorder_inv (vd1\<lparr>reorder_pictures := 3\<rparr>)" if "packet_ok (held_package vd 0)"
    using vd1 that by (intro reorder_invI) simp_all
  note inv = calculation this
  from assms(1) show ?thesis
    by (cases rule: reorder_inv_cases) (use inv in \<open>simp_all add: aml_reorder_decode_cc_data_def assms(4) vd1(1) [simplified] word_le_def\<close>)
qed

lemma decode_cc_data_ok:
  assumes "reorder_inv vd" "0 < n" "n \<le> length buf"
  shows "\<exists>outs vd'. aml_reorder_decode_cc_data vd buf n = Some (outs, vd') \<and> reorder_inv vd' \<and> list_all packet_ok outs"
proof -
  have "\<exists>outs vd'. aml_reorder_decode_cc_data vd buf n = Some (outs, vd') \<and> reorder_inv vd' \<and> list_all packet_ok outs"
    if "picture_structure vd \<noteq> 1" "picture_structure vd \<noteq> 2" "picture_structure vd \<noteq> 3"
    using assms(1) that by (simp add: aml_reorder_decode_cc_data_def Let_def)
  then show ?thesis
    using decode_frame_ok [OF assms] decode_top_ok [OF assms] decode_bottom_ok [OF assms] by blast
qed

lemma reorder_user_data_ok:
  assumes "reorder_inv vd" "0 < n" "n \<le> length buf" "n < 256"
  shows "\<exists>outs vd'. aml_reorder_user_data vd buf n = Some (outs, vd') \<and> reorder_inv vd' \<and> list_all packet_ok outs"
proof -
  consider "picture_coding_type vd \<in> {I_TYPE, P_TYPE}" | "picture_coding_type vd = B_TYPE" "reorder_pictures vd < 3"
    | "picture_coding_type vd = B_TYPE" "\<not> reorder_pictures vd < 3" | "picture_coding_type vd \<notin> {1, 2, 3}" by blast
  then show ?thesis
  proof cases
    case 1
    with decode_cc_data_ok [OF assms(1-3)] show ?thesis by (auto simp: aml_reorder_user_data_def)
  next
    case 2
    have "reorder_inv (vd\<lparr>reorder_pictures := 0\<rparr>)" using assms(1) by (intro reorder_invI) (simp_all add: reorder_inv_def)
    with 2 show ?thesis by (simp add: aml_reorder_user_data_def)
  next
    case 3
    have "packet_ok (take n buf)" using assms by (cases buf) (auto simp: packet_ok_def)
    with 3 assms(1,3) show ?thesis by (simp add: aml_reorder_user_data_def copy_out_def)
  next
    case 4
    with assms(1) show ?thesis by (simp add: aml_reorder_user_data_def)
  qed
qed

lemma extract_package_ok:
  assumes "0 \<le> n" "n \<le> int (length ud)"
  shows "\<exists>left cs cc' h'. aml_extract_package ud n cc h = Some (left, cs, cc', h') \<and> length cc' = length cc"
proof (cases "n < 12")
  case False
  from extract_loop_ok [of 0 n ud 0 "(cc, 0)" h] assms obtain k l cc' cs' h' where
    "extract_loop ud 0 0 n (cc, 0) h = Some (k, l, (cc', cs'), h')" "length cc' = length cc" by auto
  with False show ?thesis by (auto simp: aml_extract_package_def)
qed (simp add: aml_extract_package_def)

lemma mpeg_package_ok:
  assumes "thread_ok th" "length cc = 256"
  shows "\<exists>outs th'. mpeg_package h cc cs th = Some (outs, th') \<and> thread_ok th' \<and> list_all packet_ok outs
      \<and> th_format th' = th_format th"
proof (cases "cs > 0")
  case True
  let ?vd = "(th_reorder th)\<lparr>picture_coding_type := uh_picture_coding_type h, picture_structure := uh_picture_structure h,
      picture_temporal_reference := uh_temporal_reference h\<rparr>"
  have inv: "reorder_inv ?vd" using assms(1) by (simp add: thread_ok_def reorder_inv_def reorder_ok_def held_package_def)
  have n: "0 < unat cs" "unat cs < 256" using True unsigned_less [of cs, where ?'a = nat] by (simp_all add: unat_gt_0)
  with assms(2) reorder_user_data_ok [OF inv, of "unat cs" cc] obtain outs vd where
    "aml_reorder_user_data ?vd cc (unat cs) = Some (outs, vd)" "reorder_inv vd" "list_all packet_ok outs" by auto
  with True assms show ?thesis by (simp add: mpeg_package_def thread_ok_def)
qed (use assms in \<open>simp add: mpeg_package_def\<close>)

lemma move_down_ok: "off + n \<le> length a \<Longrightarrow> \<exists>a'. move_down a off n = Some a' \<and> length a' = length a"
  by (auto simp: move_down_def copy_out_def copy_into_def)

lemma small_word:
  fixes w :: "32 word"
  assumes "unat w \<le> TH_BUF_SIZE"
  shows "uint w \<le> int TH_BUF_SIZE" and "sint w = uint w"
proof -
  have "int (unat w) \<le> int 5120" using assms by (simp only: of_nat_le_iff)
  then show le: "uint w \<le> int TH_BUF_SIZE" by simp
  then show "sint w = uint w" by (simp add: sint_uint_32)
qed

lemma mpeg_loop_ok:
  assumes "thread_ok th" "unat cnt \<le> TH_BUF_SIZE" "th_format th = MPEG_CC_TYPE"
  shows "\<exists>outs th'. mpeg_loop th cnt = Some (outs, th') \<and> thread_ok th' \<and> list_all packet_ok outs"
  using assms
proof (induction "unat cnt" arbitrary: th cnt rule: less_induct)
  case less
  note s = small_word [OF less.prems(2)]
  from less.prems have buf: "length (th_buf th) = 5120" "length (th_cc_data th) = 256" by (auto simp: thread_ok_def)
  from extract_package_ok [of "sint cnt" "th_buf th" "th_cc_data th" "th_pheader th"] s buf obtain l cs cc h where
    e: "aml_extract_package (th_buf th) (sint cnt) (th_cc_data th) (th_pheader th) = Some (l, cs, cc, h)" "length cc = 256" by auto
  from extract_package_left [OF e(1)] s have l: "0 \<le> l" "l \<le> uint cnt" "cs > 0 \<Longrightarrow> l < uint cnt" by auto
  define left where "left = (word_of_int l :: 32 word)"
  have left: "uint left = l" using l s(1) by (simp add: left_def uint_word_of_int)
  have "uint left \<le> uint cnt" using l(2) left by simp
  then have le: "unat left \<le> unat cnt" by (simp only: word_le_def [symmetric] word_le_nat_alt)
  have "thread_ok (th\<lparr>th_cc_data := cc, th_pheader := h\<rparr>)" using less.prems(1) e(2) by (simp add: thread_ok_def)
  from mpeg_package_ok [OF this e(2), of h cs] obtain outs th1 where
    p: "mpeg_package h cc cs (th\<lparr>th_cc_data := cc, th_pheader := h\<rparr>) = Some (outs, th1)" "thread_ok th1" "list_all packet_ok outs"
    "th_format th1 = MPEG_CC_TYPE" using less.prems(3) by auto
  have "length (th_buf th1) = 5120" using p(2) by (simp add: thread_ok_def)
  moreover from this move_down_ok [of "unat cnt - unat left" "unat left" "th_buf th1"] le less.prems(2) obtain a where
    "move_down (th_buf th1) (unat cnt - unat left) (unat left) = Some a" "length a = 5120" by auto
  ultimately obtain b where
    b: "(if left < cnt \<and> left > 0 then move_down (th_buf th1) (unat cnt - unat left) (unat left) else Some (th_buf th1)) = Some b"
    "length b = 5120" by (cases "left < cnt \<and> left > 0") auto
  define th2 where "th2 = th1\<lparr>th_buf := b, th_left := left\<rparr>"
  have th2: "thread_ok th2" "th_format th2 = MPEG_CC_TYPE" using p(2,4) b(2) le less.prems(2) by (simp_all add: thread_ok_def th2_def)
  have run: "mpeg_loop th cnt = (if cs > 0 \<and> left > 0 then map_option (map_prod ((@) outs) (\<lambda>th. th)) (mpeg_loop th2 left) else Some (outs, th2))"
    by (subst mpeg_loop.simps) (simp only: e(1) p(1) b(1) option.case prod.case Let_def left_def [symmetric] th2_def [symmetric])
  show ?case
  proof (cases "cs > 0 \<and> left > 0")
    case True
    then have "uint left < uint cnt" using l(3) left by simp
    then have lt: "unat left < unat cnt" by (simp only: word_less_def [symmetric] word_less_nat_alt)
    from less.hyps [OF lt th2(1) _ th2(2)] le less.prems(2) run True p(3) show ?thesis by auto
  qed (use run th2 p(3) in auto)
qed

lemma push_ok:
  assumes "blocks_ok bs" "bs \<noteq> []"
  shows "\<exists>p bs'. aml_h264_userdata_push True bs (aml_h264_get_min_poc bs) = Some ([p], bs') \<and> blocks_ok bs' \<and> packet_ok p"
proof -
  have "\<forall>b \<in> set bs. i_poc b \<le> INVALID_POC" using assms(1) by (simp add: blocks_ok_def)
  then obtain xs b ys where p: "bs = xs @ b # ys"
    "aml_h264_userdata_push True bs (aml_h264_get_min_poc bs) = Some ([block_data b], xs @ ys)"
    "\<forall>x \<in> set xs. i_poc b < i_poc x" "\<forall>y \<in> set ys. i_poc b \<le> i_poc y" "i_poc b = aml_h264_get_min_poc bs"
    by (rule push_min [OF assms(2)])
  with assms(1) show ?thesis by (auto simp: blocks_ok_def)
qed

lemma add_ok:
  assumes "blocks_ok bs" "poc \<le> INVALID_POC" "0 < n" "n < 256" "n \<le> length buf"
  shows "\<exists>bs'. aml_h264_userdata_add poc ty n buf bs = Some bs' \<and> blocks_ok bs'"
proof -
  have "packet_ok (take n buf)" using assms(3-5) by (cases buf) (auto simp: packet_ok_def)
  with assms show ?thesis by (auto simp: aml_h264_userdata_add_def copy_out_def blocks_ok_def)
qed

lemma h264_reorder_ok:
  assumes "blocks_ok bs" "poc \<le> INVALID_POC" "0 < n" "n < 256" "n \<le> length buf"
  shows "\<exists>outs bs'. aml_h264_reorder_user_data True ty buf n poc bs = Some (outs, bs') \<and> blocks_ok bs' \<and> list_all packet_ok outs"
proof -
  note add = add_ok [OF _ assms(2-5), of _ ty]
  have nil: "blocks_ok []" by (simp add: blocks_ok_def)
  have flush: "aml_h264_flush True bs = Some (map block_data (sort_key i_poc bs), [])"
    using assms(1) by (intro flush_sorts) (simp add: blocks_ok_def)
  have outs: "list_all packet_ok (map block_data (sort_key i_poc bs))"
    using assms(1) by (auto simp: blocks_ok_def list_all_iff)
  consider "poc = 0" | "poc \<noteq> 0" "aml_h264_get_poc_num bs \<le> 5" | "poc \<noteq> 0" "aml_h264_get_poc_num bs > 5" by linarith
  then show ?thesis
  proof cases
    case 1
    with add [OF nil] flush outs show ?thesis by (auto simp: aml_h264_reorder_user_data_def)
  next
    case 2
    with add [OF assms(1)] show ?thesis by (auto simp: aml_h264_reorder_user_data_def)
  next
    case 3
    then have "bs \<noteq> []" by (auto simp: poc_num_length)
    from push_ok [OF assms(1) this] obtain p bs' where
      "aml_h264_userdata_push True bs (aml_h264_get_min_poc bs) = Some ([p], bs')" "blocks_ok bs'" "packet_ok p" by blast
    with 3 add [of bs'] add [OF assms(1)] show ?thesis by (auto simp: aml_h264_reorder_user_data_def Let_def)
  qed
qed

lemma bytes_at_ok: "\<forall>kv \<in> set kvs. fst kv < length a \<Longrightarrow> bytes_at a kvs \<noteq> None"
proof (induction kvs)
  case (Cons kv kvs)
  then show ?case by (cases kv) auto
qed simp

lemma has_cc_mark_ok:
  assumes "p + 6 < length buf"
  shows "has_cc_mark buf p \<noteq> None"
proof -
  have "bytes_at buf (h264_mark p) \<noteq> None" "bytes_at buf (directv_mark p) \<noteq> None" "bytes_at buf (avs_mark p) \<noteq> None"
    using assms by (intro bytes_at_ok; simp)+
  then show ?thesis by (auto simp: has_cc_mark_def simp del: bytes_at.simps)
qed

lemma swap_data_ok: "0 \<le> n \<Longrightarrow> n \<le> int (length a) \<Longrightarrow> \<exists>b. aml_swap_data a n = Some b \<and> length b = length a"
  by (simp add: swap_data_eq)

lemma h264_keep_ok:
  assumes "thread_ok th" "th_format th \<noteq> INVALID_TYPE" "p + unat cnt \<le> TH_BUF_SIZE"
  shows "\<exists>th'. h264_keep p cnt th = Some ([], th') \<and> thread_ok th'"
proof -
  have len: "length (th_buf th) = 5120" using assms(1) by (simp add: thread_ok_def)
  from move_down_ok [of p "unat cnt" "th_buf th"] assms(3) len obtain b where
    b: "move_down (th_buf th) p (unat cnt) = Some b" "length b = 5120" by auto
  have "unat cnt \<le> TH_BUF_SIZE" using assms(3) by simp
  note small = small_word [OF this]
  with swap_data_ok [of "sint cnt" b] b(2) obtain b' where "aml_swap_data b (sint cnt) = Some b'" "length b' = 5120" by auto
  with assms b show ?thesis by (simp add: h264_keep_def thread_ok_def)
qed

lemma h264_package_ok:
  assumes "thread_ok th" "poc \<le> INVALID_POC" "8 \<le> n" "n \<le> 104" "p + n \<le> TH_BUF_SIZE"
  shows "\<exists>outs th'. h264_package True poc p n th = Some (outs, th') \<and> thread_ok th' \<and> list_all packet_ok outs
      \<and> th_format th' = th_format th"
proof -
  define skip where "skip = (if th_format th = H264_CC_TYPE then 3 else 0 :: nat)"
  have "skip \<le> 3" by (simp add: skip_def)
  moreover have "length (th_buf th) = 5120" "blocks_ok (th_blocks th)" using assms(1) by (simp_all add: thread_ok_def)
  moreover from calculation assms(3-5) have "0 < n - skip" "n - skip < 256" "n - skip \<le> length (drop (p + skip) (th_buf th))" by auto
  ultimately obtain outs bs where
    "aml_h264_reorder_user_data True 0 (drop (p + skip) (th_buf th)) (n - skip) poc (th_blocks th) = Some (outs, bs)"
    "blocks_ok bs" "list_all packet_ok outs"
    using h264_reorder_ok [of "th_blocks th" poc "n - skip" "drop (p + skip) (th_buf th)" 0] assms(2) by blast
  with assms(1) show ?thesis
    by (simp add: h264_package_def thread_ok_def reorder_inv_def reorder_ok_def held_package_def flip: skip_def)
qed

text \<open>After a packet either the rest lies inside the buffer, or the count has wrapped around and the loop ends.\<close>

lemma cnt_sub_inside:
  fixes cnt :: "32 word"
  assumes "p + unat cnt \<le> TH_BUF_SIZE" "r < 5120" "cnt - of_nat r < of_nat TH_BUF_SIZE"
  shows "p + r + unat (cnt - of_nat r) \<le> TH_BUF_SIZE"
proof (cases "(of_nat r :: 32 word) \<le> cnt")
  case True
  have r: "unat (of_nat r :: 32 word) = r" using assms(2) by (simp add: unat_of_nat)
  with True have "r \<le> unat cnt" by (simp only: word_le_nat_alt)
  moreover have "unat (cnt - of_nat r) = unat cnt - r" using True r by (simp add: unat_sub)
  ultimately show ?thesis using assms(1) by simp
next
  case False
  have r: "uint (of_nat r :: 32 word) = int r" using assms(2) by (simp add: uint_nat unat_of_nat)
  have "\<not> int r \<le> uint cnt" using False unfolding word_le_def r .
  then have "uint (cnt - of_nat r) = uint cnt - int r + 2 ^ 32" using uint_sub_if' [of cnt "of_nat r"] r by simp
  moreover have "uint (cnt - of_nat r) < 5120" using assms(3) by (simp add: word_less_def)
  ultimately show ?thesis using assms(2) uint_ge_0 [of cnt] by simp
qed

lemma dma_round_less: "dma_round n < n + 8"
proof -
  have "(8 - n mod 8) mod 8 < 8" by (rule mod_less_divisor) simp
  then show ?thesis by (simp only: dma_round_eq nat_add_left_cancel_less)
qed

lemma h264_loop_ok:
  assumes "thread_ok th" "th_format th \<noteq> INVALID_TYPE" "cnt < of_nat TH_BUF_SIZE \<longrightarrow> p + unat cnt \<le> TH_BUF_SIZE"
    and "\<forall>poc \<in> set pocs. sint poc \<le> INVALID_POC"
  shows "\<exists>outs th'. h264_loop True pocs p cnt th = Some (outs, th') \<and> thread_ok th' \<and> list_all packet_ok outs"
  using assms
proof (induction True pocs p cnt th rule: h264_loop.induct)
  case (1 pocs p cnt th)
  show ?case
  proof (cases "cnt > 0 \<and> cnt < of_nat TH_BUF_SIZE \<and> cnt > of_nat DMA_BLOCK_LEN")
    case False
    then show ?thesis using "1.prems" h264_keep_ok [OF "1.prems"(1,2), of p cnt] by (subst h264_loop.simps) auto
  next
    case True
    then have c: "cnt > 0 \<and> cnt < of_nat TH_BUF_SIZE" "cnt > of_nat DMA_BLOCK_LEN" by auto
    have inside: "p + unat cnt \<le> TH_BUF_SIZE" using "1.prems"(3) c by blast
    have "8 < unat cnt" using c(2) by (simp add: word_less_nat_alt)
    then have p: "p + 8 < length (th_buf th)" using inside "1.prems"(1) by (simp add: thread_ok_def)
    then obtain found where f: "has_cc_mark (th_buf th) p = Some found" using has_cc_mark_ok [of p "th_buf th"] by auto
    show ?thesis
    proof (cases found)
      case False
      have "p + 8 + unat (cnt - of_nat 8) \<le> TH_BUF_SIZE" if "cnt - of_nat 8 < of_nat TH_BUF_SIZE"
        using cnt_sub_inside [OF inside _ that] by simp
      with "1.hyps"(2) [OF c f False "1.prems"(1,2) _ "1.prems"(4)] f False c show ?thesis by (subst h264_loop.simps) simp
    next
      case found: True
      obtain n where n: "cc_min_bytes (th_format th) (th_buf th) p = Some n" using p by (cases "th_format th = 2") (auto simp: cc_min_bytes_def)
      note bounds = cc_min_bytes_bounds [OF n]
      show ?thesis
      proof (cases "n \<le> unat cnt")
        case False
        with f found n c h264_keep_ok [OF "1.prems"(1,2) inside] show ?thesis by (subst h264_loop.simps) auto
      next
        case le: True
        let ?poc = "case pocs of [] \<Rightarrow> 0 | poc # _ \<Rightarrow> sint poc"
        have poc: "?poc \<le> INVALID_POC" using "1.prems"(4) by (cases pocs) auto
        obtain outs th1 where pk: "h264_package True ?poc p n th = Some (outs, th1)" "thread_ok th1" "list_all packet_ok outs"
          "th_format th1 = th_format th" using h264_package_ok [OF "1.prems"(1) poc] bounds le inside by force
        have "dma_round n < 5120" using bounds dma_round_less [of n] by simp
        then have in': "cnt - of_nat (dma_round n) < of_nat TH_BUF_SIZE \<longrightarrow> p + dma_round n + unat (cnt - of_nat (dma_round n)) \<le> TH_BUF_SIZE"
          using cnt_sub_inside [OF inside] by blast
        have "\<forall>poc \<in> set (tl pocs). sint poc \<le> INVALID_POC" using "1.prems"(4) by (cases pocs) auto
        with "1.hyps"(1) [OF c f found n le pk(1) refl pk(2) _ in'] "1.prems"(2) pk f found n c le
        show ?thesis by (subst h264_loop.simps) auto
      qed
    qed
  qed
qed

lemma format_loop_ok:
  assumes "fmt = INVALID_TYPE \<longrightarrow> cnt > 0 \<longrightarrow> 6 < unat cnt \<and> unat cnt \<le> length buf" "length buf = TH_BUF_SIZE"
  shows "\<exists>f. format_loop k alloc buf cnt fmt = Some f \<and> (fmt \<noteq> INVALID_TYPE \<longrightarrow> f = fmt)"
  using assms
proof (induction k arbitrary: fmt)
  case (Suc k)
  have check: "\<exists>f. aml_check_userdata_format alloc buf (sint cnt) = Some f" if "fmt = INVALID_TYPE" "cnt > 0"
  proof (cases "alloc \<and> sint cnt > 0")
    case True
    have "unat cnt \<le> TH_BUF_SIZE" using Suc.prems that by simp
    note small = small_word [OF this]
    define n where "n = nat (uint cnt)"
    have n: "6 < n" "n \<le> length buf" using Suc.prems that by (simp_all add: n_def)
    obtain tmp where "aml_swap_data (take n buf) (uint cnt) = Some tmp" "length tmp = n"
      using swap_data_ok [of "uint cnt" "take n buf"] n by (auto simp: n_def)
    moreover have "bytes_at tmp (h264_mark 0) \<noteq> None" "bytes_at tmp (directv_mark 0) \<noteq> None" "bytes_at tmp (avs_mark 0) \<noteq> None"
      using calculation(2) n(1) by (intro bytes_at_ok; simp)+
    ultimately show ?thesis using True n(2) small(2)
      by (auto simp: aml_check_userdata_format_def copy_out_def n_def simp del: bytes_at.simps split: if_splits)
  qed (auto simp: aml_check_userdata_format_def)
  show ?case
  proof (cases "cnt > 0 \<and> fmt = INVALID_TYPE")
    case True
    with check obtain f where "aml_check_userdata_format alloc buf (sint cnt) = Some f" by blast
    moreover obtain f' where "format_loop k alloc buf cnt f = Some f'" using Suc.IH [of f] Suc.prems True by blast
    ultimately show ?thesis using True by simp
  qed auto
qed simp

text \<open>What the decoder may deliver: reads do not fail, the first bytes come in one piece, picture numbers are below the mark.\<close>

definition turn_ok :: "ud_turn \<Rightarrow> bool" where
  "turn_ok t \<longleftrightarrow> (\<exists>bs. t_read t = Some bs \<and> (bs = [] \<or> 6 < length bs)) \<and> (\<forall>poc \<in> set (t_pocs t). sint poc \<le> INVALID_POC)"

lemma ud_read_ok:
  assumes "thread_ok th"
  shows "\<exists>cnt buf. ud_read (Some bs) (th_left th) (th_buf th) = Some (cnt, buf) \<and> length buf = TH_BUF_SIZE
      \<and> unat cnt = min (length bs) (TH_BUF_SIZE - unat (th_left th))
      \<and> unat (cnt + th_left th) = unat cnt + unat (th_left th) \<and> unat (cnt + th_left th) \<le> TH_BUF_SIZE"
proof -
  define n where "n = min (length bs) (TH_BUF_SIZE - unat (th_left th))"
  have len: "length (th_buf th) = 5120" "unat (th_left th) \<le> 5120" using assms by (auto simp: thread_ok_def)
  have u: "unat (of_nat n :: 32 word) = n" by (simp add: n_def unat_of_nat)
  have "n + unat (th_left th) \<le> 5120" using len(2) by (auto simp: n_def)
  then have "unat (of_nat n + th_left th) = n + unat (th_left th)" using u by (simp add: unat_word_ariths)
  moreover have "length (take (5120 - unat (th_left th)) bs) = n" by (simp add: n_def)
  ultimately show ?thesis using len u \<open>n + unat (th_left th) \<le> 5120\<close>
    by (auto simp: ud_read_def copy_into_def simp flip: n_def)
qed

lemma userdata_turn_ok:
  assumes "thread_ok th" "turn_ok t"
  shows "\<exists>outs th'. aml_userdata_turn True t th = Some (outs, th') \<and> thread_ok th' \<and> list_all packet_ok outs"
proof (cases "t_poll t")
  case poll: True
  from assms(2) obtain bs where bs: "t_read t = Some bs" "bs = [] \<or> 6 < length bs"
    and pocs: "\<forall>poc \<in> set (t_pocs t). sint poc \<le> INVALID_POC" by (auto simp: turn_ok_def)
  obtain cnt buf where r: "ud_read (Some bs) (th_left th) (th_buf th) = Some (cnt, buf)" "length buf = 5120"
    "unat cnt = min (length bs) (5120 - unat (th_left th))"
    "unat (cnt + th_left th) = unat cnt + unat (th_left th)" "unat (cnt + th_left th) \<le> 5120"
    using ud_read_ok [OF assms(1), of bs] by blast
  have th1: "thread_ok (th\<lparr>th_buf := buf\<rparr>)" using assms(1) r(2) by (simp add: thread_ok_def)
  show ?thesis
  proof (cases "th_flush th")
    case False
    with poll bs r th1 show ?thesis by (simp add: aml_userdata_turn_def thread_ok_def)
  next
    case flush: True
    have "th_format th = INVALID_TYPE \<longrightarrow> cnt > 0 \<longrightarrow> 6 < unat cnt \<and> unat cnt \<le> length buf"
      using assms(1) r(2,3) bs(2) by (auto simp: thread_ok_def word_less_nat_alt)
    from format_loop_ok [OF this r(2)] obtain f where f: "format_loop (t_running t) (t_alloc t) buf cnt (th_format th) = Some f"
      "th_format th \<noteq> INVALID_TYPE \<longrightarrow> f = th_format th" by blast
    define th2 where "th2 = th\<lparr>th_buf := buf, th_format := f\<rparr>"
    have th2: "thread_ok th2" "th_left th2 = th_left th" "th_format th2 = f"
      using th1 f(2) assms(1) by (auto simp: thread_ok_def th2_def)
    note small = small_word [OF r(5)]
    obtain buf2 where sw: "aml_swap_data buf (sint (cnt + th_left th)) = Some buf2" "length buf2 = 5120"
      using swap_data_ok [of "sint (cnt + th_left th)" buf] small r(2) by auto
    have th3: "thread_ok (th2\<lparr>th_buf := buf2, th_left := 0\<rparr>)" using th2(1) sw(2) by (simp add: thread_ok_def)
    note run = poll bs(1) r(1) flush f(1)
    consider "cnt = 0 \<or> f \<notin> {1, 2, 3, 4}" | "cnt \<noteq> 0" "f = 1" | "cnt \<noteq> 0" "f \<in> {2, 3, 4}" by blast
    then show ?thesis
    proof cases
      case 1
      with run th2 show ?thesis by (auto simp: aml_userdata_turn_def Let_def th2_def)
    next
      case 2
      with run mpeg_loop_ok [OF th2(1) r(5)] th2 show ?thesis by (auto simp: aml_userdata_turn_def Let_def th2_def)
    next
      case 3
      with run sw(1) h264_loop_ok [OF th3, of "cnt + th_left th" 0 "t_pocs t"] th2 pocs r(5)
      show ?thesis by (auto simp: aml_userdata_turn_def Let_def th2_def)
    qed
  qed
qed (use assms(1) in \<open>simp add: aml_userdata_turn_def\<close>)

lemma userdata_turns_ok:
  "thread_ok th \<Longrightarrow> \<forall>t \<in> set ts. turn_ok t
    \<Longrightarrow> \<exists>outs th'. aml_userdata_turns True ts th = Some (outs, th') \<and> thread_ok th' \<and> list_all packet_ok outs"
proof (induction ts arbitrary: th)
  case (Cons t ts)
  then obtain out1 th1 where t: "aml_userdata_turn True t th = Some (out1, th1)" "thread_ok th1" "list_all packet_ok out1"
    using userdata_turn_ok [of th t] by auto
  moreover from Cons.IH [OF t(2)] Cons.prems(2) obtain out2 th2 where "aml_userdata_turns True ts th1 = Some (out2, th2)" "thread_ok th2"
    "list_all packet_ok out2" by auto
  ultimately show ?case by simp
qed simp

lemma thread_init_ok: "length cc = 256 \<Longrightarrow> thread_ok (aml_thread_init cc)"
  by (auto simp: thread_ok_def aml_thread_init_def reorder_inv_def reorder_ok_def blocks_ok_def less_2_cases_iff)

subsection \<open>Properties\<close>


definition example_turns :: "ud_turn list" where
  "example_turns =
     [\<lparr>t_poll = True, t_read = Some [], t_running = 1, t_alloc = True, t_pocs = []\<rparr>,
      \<lparr>t_poll = True, t_read = Some [0x39, 0x41, 0x47, 0x31, 0, 0, 0, 0xb5], t_running = 1, t_alloc = True, t_pocs = [4, 0]\<rparr>]"


text \<open>Writing one packet to the empty queue and reading it with a large buffer.\<close>

abbreviation write_read :: "byte list \<Rightarrow> ud_event list" where
  "write_read p \<equiv> [Write p, Read 256 False []]"

lemma q_run_append: "q_run (es @ fs) q = (case q_run es q of (o1, q1) \<Rightarrow> case q_run fs q1 of (o2, q2) \<Rightarrow> (o1 @ o2, q2))"
  by (induction es arbitrary: q) (auto split: prod.splits)

lemma q_run_write_read:
  "list_all packet_ok ps
    \<Longrightarrow> q_run (concat (map write_read ps)) [] = (concat (map (\<lambda>p. [(int (length p), []), (int (length p), p)]) ps), [])"
proof (induction ps)
  case (Cons p ps)
  then have "q_run (write_read p) [] = ([(int (length p), []), (int (length p), p)], [])"
    by (auto simp: packet_ok_def q_write_def q_read_def q_bytes_def)
  moreover have "q_run (concat (map write_read ps)) [] = (concat (map (\<lambda>p. [(int (length p), []), (int (length p), p)]) ps), [])"
    using Cons by simp
  ultimately show ?case by (simp only: list.map concat.simps q_run_append prod.case)
qed simp



text \<open>No caption header at any of the positions that the extraction looks at.\<close>

definition no_cc_header :: "byte list \<Rightarrow> bool" where
  "no_cc_header ud \<longleftrightarrow> (\<forall>k < length ud. case header_at ud (4 * k) of None \<Rightarrow> True | Some uh \<Rightarrow> \<not> is_cc_header uh)"

lemma extract_loop_no_header:
  assumes "no_cc_header ud" "int (4 * k) + left \<le> int (length ud)"
  shows "\<exists>left'. extract_loop ud (4 * k) 0 left ccs h = Some (0, left', ccs, h)"
  using assms
proof (induction "nat left" arbitrary: left k rule: less_induct)
  case less
  show ?case
  proof (cases "left \<ge> 16")
    case True
    then obtain uh where uh: "header_at ud (4 * k) = Some uh" using less.prems(2) by (auto simp: header_at_def)
    have "k < length ud" using less.prems(2) True by linarith
    with uh less.prems(1) have "\<not> is_cc_header uh" by (auto simp: no_cc_header_def)
    with extract_loop_long [OF True uh] have "extract_loop ud (4 * k) 0 left ccs h = extract_loop ud (4 * (k + 1)) 0 (left - 4) ccs h"
      by (simp add: algebra_simps)
    with less.hyps [of "left - 4" "k + 1"] less.prems True show ?thesis by simp
  qed (simp add: extract_loop_short)
qed

lemma extract_package_no_header:
  assumes "no_cc_header ud" "n \<le> int (length ud)"
  shows "aml_extract_package ud n cc h = Some (n, 0, cc, h)"
  using extract_loop_no_header [of ud 0 n "(cc, 0)" h] assms by (auto simp: aml_extract_package_def)

lemma mpeg_loop_nothing:
  assumes "aml_extract_package (th_buf th) (sint cnt) (th_cc_data th) (th_pheader th) = Some (sint cnt, 0, th_cc_data th, th_pheader th)"
  shows "mpeg_loop th cnt = Some ([], th\<lparr>th_left := cnt\<rparr>)"
  by (subst mpeg_loop.simps) (simp add: assms mpeg_package_def)

lemma same_format: "th_format th = f \<Longrightarrow> th\<lparr>th_format := f\<rparr> = th"
  by (cases th) simp

lemma full_buffer_turn:
  assumes "length (th_buf th) = TH_BUF_SIZE" "th_left th = of_nat TH_BUF_SIZE" "th_flush th" "th_format th \<noteq> INVALID_TYPE" "t_read t \<noteq> None"
  shows "aml_userdata_turn writer t th = Some ([], th)"
proof -
  from assms(5) obtain bs where "t_read t = Some bs" by blast
  moreover have "format_loop k a b 0 f = Some f" for k a b f by (cases k) simp_all
  ultimately show ?thesis using assms(1-4) by (auto simp: aml_userdata_turn_def ud_read_def copy_into_def Let_def)
qed

lemma full_buffer_turns:
  assumes "length (th_buf th) = TH_BUF_SIZE" "th_left th = of_nat TH_BUF_SIZE" "th_flush th" "th_format th \<noteq> INVALID_TYPE"
  shows "\<forall>t \<in> set ts. t_read t \<noteq> None \<Longrightarrow> aml_userdata_turns writer ts th = Some ([], th)"
  by (induction ts) (simp_all add: full_buffer_turn [OF assms])

text \<open>
  A buffer full of user data without captions stops the MPEG format for good: nothing of it is
  ever discarded, there is no room to read more, and whatever the decoder delivers afterwards, no
  packet is handed over again.
\<close>

theorem full_buffer_stalls:
  assumes "length (th_buf th) = TH_BUF_SIZE" "th_left th = 0" "th_flush th" "th_format th = MPEG_CC_TYPE"
    and "t_poll t" "t_read t = Some bs" "length bs = TH_BUF_SIZE" "no_cc_header bs"
    and "\<forall>t \<in> set ts. t_read t \<noteq> None"
  shows "aml_userdata_turns writer (t # ts) th = Some ([], th\<lparr>th_buf := bs, th_left := of_nat TH_BUF_SIZE\<rparr>)"
proof -
  have "aml_extract_package bs (sint (5120 :: 32 word)) (th_cc_data th) (th_pheader th) = Some (5120, 0, th_cc_data th, th_pheader th)"
    using extract_package_no_header [OF assms(8), of 5120] assms(7) by simp
  then have "mpeg_loop (th\<lparr>th_buf := bs\<rparr>) 5120 = Some ([], th\<lparr>th_buf := bs, th_left := 5120\<rparr>)"
    using mpeg_loop_nothing [of "th\<lparr>th_buf := bs\<rparr>" 5120] by simp
  moreover have "format_loop k a b c MPEG_CC_TYPE = Some MPEG_CC_TYPE" for k a b c by (cases k) simp_all
  ultimately have "aml_userdata_turn writer t th = Some ([], th\<lparr>th_buf := bs, th_left := 5120\<rparr>)"
    using assms(1-7) by (simp add: aml_userdata_turn_def ud_read_def copy_into_def Let_def same_format)
  with full_buffer_turns [of "th\<lparr>th_buf := bs, th_left := 5120\<rparr>" ts writer] assms(3,4,7,9) show ?thesis by simp
qed

definition mpeg_thread :: "aml_thread" where
  "mpeg_thread = (aml_thread_init (replicate 256 0))\<lparr>th_flush := True, th_format := MPEG_CC_TYPE\<rparr>"

lemma no_cc_header_zeros: "no_cc_header (replicate 5120 0)"
  by (auto simp: no_cc_header_def header_at_def is_cc_header_def u32_at_def)

theorem full_buffer_stalls_witness:
  "aml_userdata_turns True (\<lparr>t_poll = True, t_read = Some (replicate 5120 0), t_running = 1, t_alloc = True, t_pocs = []\<rparr> # example_turns) mpeg_thread
     = Some ([], mpeg_thread\<lparr>th_buf := replicate 5120 0, th_left := of_nat TH_BUF_SIZE\<rparr>)"
  by (rule full_buffer_stalls) (simp_all add: mpeg_thread_def aml_thread_init_def example_turns_def no_cc_header_zeros)

text \<open>
  A failing \<^verbatim>\<open>read\<close> is taken for 4294967295 bytes. In the MPEG format the number is stored as the
  length of the rest, and the next read writes outside of the buffer.
\<close>

theorem failed_read_leaves_buffer:
  assumes "th_left th = 0" "th_flush th" "th_format th = MPEG_CC_TYPE" "t_poll t1" "t_read t1 = None" "t_poll t2"
  shows "aml_userdata_turn writer t1 th = Some ([], th\<lparr>th_left := -1\<rparr>) \<and> aml_userdata_turns writer [t1, t2] th = None"
proof -
  have "mpeg_loop th (-1) = Some ([], th\<lparr>th_left := -1\<rparr>)"
    by (rule mpeg_loop_nothing) (simp add: aml_extract_package_def)
  moreover have "format_loop k a b c MPEG_CC_TYPE = Some MPEG_CC_TYPE" for k a b c by (cases k) simp_all
  ultimately have "aml_userdata_turn writer t1 th = Some ([], th\<lparr>th_left := -1\<rparr>)"
    using assms(1-5) by (simp add: aml_userdata_turn_def ud_read_def Let_def same_format)
  moreover have "unat (-1 :: 32 word) = 4294967295" by (simp add: unsigned_minus_1_eq_mask mask_eq_exp_minus_1)
  then have "aml_userdata_turn writer t2 (th\<lparr>th_left := -1\<rparr>) = None"
    using assms(6) by (simp add: aml_userdata_turn_def ud_read_def)
  ultimately show ?thesis by simp
qed

theorem failed_read_leaves_buffer_witness:
  "aml_userdata_turn True \<lparr>t_poll = True, t_read = None, t_running = 1, t_alloc = True, t_pocs = []\<rparr> mpeg_thread = Some ([], mpeg_thread\<lparr>th_left := -1\<rparr>)
   \<and> aml_userdata_turns True [\<lparr>t_poll = True, t_read = None, t_running = 1, t_alloc = True, t_pocs = []\<rparr>,
       \<lparr>t_poll = True, t_read = Some [1], t_running = 1, t_alloc = True, t_pocs = []\<rparr>] mpeg_thread = None"
  by (rule failed_read_leaves_buffer) (simp_all add: mpeg_thread_def aml_thread_init_def)

end
