(* ===== verification/Am_Smc.thy ===== *)
theory Am_Smc
  imports Am_Userdata
begin

text \<open>
  The smart card module, \<^verbatim>\<open>dvb/am_adp/am_smc/am_smc.c\<close>: a device with a status thread, reading and
  writing with a deadline, and the transfer of commands by the protocols T=0, T=1 and T=14. The
  driver is the argument \<open>smc_driver\<close>, a record of functions on the descriptor in \<^verbatim>\<open>drv_data\<close> and the state
  \<open>'e\<close> of the outside world, which also holds the clock. A missing function is \<open>None\<close>.

  The ring buffers \<^verbatim>\<open>txbuf\<close> and \<^verbatim>\<open>rxbuf\<close> have the code of the user data module without its test
  for a null pointer; the interpretation of the ring contract is carried over from there.
  Differences of times are computed in 32 bits and wrap.
\<close>

abbreviation (input) AM_MOD_SMC :: int where "AM_MOD_SMC \<equiv> 8"
abbreviation (input) SMC_BUF_SIZE :: nat where "SMC_BUF_SIZE \<equiv> 1024"
abbreviation (input) SMC_DEV_COUNT :: nat where "SMC_DEV_COUNT \<equiv> 1"
abbreviation (input) AM_SMC_MAX_ATR_LEN :: int where "AM_SMC_MAX_ATR_LEN \<equiv> 33"
abbreviation (input) DELAY_MUL :: int where "DELAY_MUL \<equiv> 2"
abbreviation (input) AM_SMC_CARD_OUT :: int where "AM_SMC_CARD_OUT \<equiv> 0"
abbreviation (input) AM_SMC_CARD_IN :: int where "AM_SMC_CARD_IN \<equiv> 1"

definition AM_SMC_ERR_INVALID_DEV_NO :: errcode where "AM_SMC_ERR_INVALID_DEV_NO = AM_ERROR_BASE AM_MOD_SMC + 1"
definition AM_SMC_ERR_BUSY :: errcode where "AM_SMC_ERR_BUSY = AM_ERROR_BASE AM_MOD_SMC + 2"
definition AM_SMC_ERR_NOT_OPENNED :: errcode where "AM_SMC_ERR_NOT_OPENNED = AM_ERROR_BASE AM_MOD_SMC + 3"
definition AM_SMC_ERR_CANNOT_OPEN_DEV :: errcode where "AM_SMC_ERR_CANNOT_OPEN_DEV = AM_ERROR_BASE AM_MOD_SMC + 4"
definition AM_SMC_ERR_CANNOT_CREATE_THREAD :: errcode where "AM_SMC_ERR_CANNOT_CREATE_THREAD = AM_ERROR_BASE AM_MOD_SMC + 5"
definition AM_SMC_ERR_TIMEOUT :: errcode where "AM_SMC_ERR_TIMEOUT = AM_ERROR_BASE AM_MOD_SMC + 6"
definition AM_SMC_ERR_NOT_SUPPORTED :: errcode where "AM_SMC_ERR_NOT_SUPPORTED = AM_ERROR_BASE AM_MOD_SMC + 7"
definition AM_SMC_ERR_IO :: errcode where "AM_SMC_ERR_IO = AM_ERROR_BASE AM_MOD_SMC + 8"
definition AM_SMC_ERR_BUF_TOO_SMALL :: errcode where "AM_SMC_ERR_BUF_TOO_SMALL = AM_ERROR_BASE AM_MOD_SMC + 9"

lemmas smc_err_defs [err_code] = AM_SMC_ERR_INVALID_DEV_NO_def AM_SMC_ERR_BUSY_def AM_SMC_ERR_NOT_OPENNED_def
  AM_SMC_ERR_CANNOT_OPEN_DEV_def AM_SMC_ERR_CANNOT_CREATE_THREAD_def AM_SMC_ERR_TIMEOUT_def AM_SMC_ERR_NOT_SUPPORTED_def
  AM_SMC_ERR_IO_def AM_SMC_ERR_BUF_TOO_SMALL_def

subsection \<open>Ring buffers\<close>

text \<open>\<open>sr_data\<close> is \<open>None\<close> while the pointer is null.\<close>

record smc_ring =
  sr_data :: "byte list option"
  sr_size :: nat
  sr_pread :: nat
  sr_pwrite :: nat
  sr_error :: int

definition ringbuffer_init :: "byte list \<Rightarrow> smc_ring \<Rightarrow> smc_ring" where
  "ringbuffer_init buff rbuf = rbuf\<lparr>sr_pread := 0, sr_pwrite := 0, sr_data := Some buff, sr_size := SMC_BUF_SIZE, sr_error := 0\<rparr>"

definition ringbuffer_read :: "smc_ring \<Rightarrow> nat \<Rightarrow> (byte list \<times> smc_ring) option" where
  "ringbuffer_read rbuf len =
     (case sr_data rbuf of
        None \<Rightarrow> None
      | Some d \<Rightarrow>
          (let split = (if sr_pread rbuf + len > sr_size rbuf then sr_size rbuf - sr_pread rbuf else 0) in
           do { (part, todo, pread) \<leftarrow>
                  (if split > 0
                   then do { b \<leftarrow> copy_out d (sr_pread rbuf) split; Some (b, len - split, 0) }
                   else Some ([], len, sr_pread rbuf));
                rest \<leftarrow> copy_out d pread todo;
                (if sr_size rbuf = 0 then None
                 else Some (part @ rest, rbuf\<lparr>sr_pread := (pread + todo) mod sr_size rbuf\<rparr>)) }))"

definition ringbuffer_write :: "smc_ring \<Rightarrow> byte list \<Rightarrow> (nat \<times> smc_ring) option" where
  "ringbuffer_write rbuf buf =
     (case sr_data rbuf of
        None \<Rightarrow> None
      | Some d \<Rightarrow>
          (let len = length buf;
               split = (if sr_pwrite rbuf + len > sr_size rbuf then sr_size rbuf - sr_pwrite rbuf else 0) in
           do { (d1, todo, pwrite) \<leftarrow>
                  (if split > 0
                   then do { d1 \<leftarrow> copy_into d (sr_pwrite rbuf) (take split buf); Some (d1, drop split buf, 0) }
                   else Some (d, buf, sr_pwrite rbuf));
                d2 \<leftarrow> copy_into d1 pwrite todo;
                (if sr_size rbuf = 0 then None
                 else Some (len, rbuf\<lparr>sr_data := Some d2, sr_pwrite := (pwrite + length todo) mod sr_size rbuf\<rparr>)) }))"

definition ringbuffer_avail :: "smc_ring \<Rightarrow> int" where
  "ringbuffer_avail rbuf =
     (let avail = int (sr_pwrite rbuf) - int (sr_pread rbuf)
      in if avail < 0 then avail + int (sr_size rbuf) else avail)"

definition ringbuffer_flush :: "smc_ring \<Rightarrow> smc_ring" where
  "ringbuffer_flush rbuf = rbuf\<lparr>sr_pread := sr_pwrite rbuf, sr_error := 0\<rparr>"

definition ringbuffer_reset :: "smc_ring \<Rightarrow> smc_ring" where
  "ringbuffer_reset rbuf = rbuf\<lparr>sr_pread := 0, sr_pwrite := 0, sr_error := 0\<rparr>"

subsection \<open>Device and driver\<close>

record AM_SMC_Param =
  sp_f :: int
  sp_d :: int
  sp_n :: int
  sp_bwi :: int
  sp_cwi :: int
  sp_bgt :: int
  sp_freq :: int
  sp_recv_invert :: int
  sp_recv_lsb_msb :: int
  sp_recv_no_parity :: int
  sp_recv_parity :: int
  sp_xmit_invert :: int
  sp_xmit_lsb_msb :: int
  sp_xmit_retries :: int
  sp_xmit_repeat_dis :: int
  sp_xmit_parity :: int

text \<open>
  The functions get \<^verbatim>\<open>drv_data\<close>. What a function does not store is \<open>None\<close>; \<^verbatim>\<open>read\<close> and \<^verbatim>\<open>write\<close> return the new value
  of \<^verbatim>\<open>*len\<close>, and \<^verbatim>\<open>read\<close> the bytes it stores.
\<close>

record 'e smc_driver =
  sd_open :: "(int \<Rightarrow> int \<Rightarrow> 'e \<Rightarrow> (errcode \<times> int) \<times> 'e) option"
  sd_close :: "(int \<Rightarrow> 'e \<Rightarrow> errcode \<times> 'e) option"
  sd_get_status :: "(int \<Rightarrow> 'e \<Rightarrow> (errcode \<times> int option) \<times> 'e) option"
  sd_reset :: "(int \<Rightarrow> 'e \<Rightarrow> (errcode \<times> byte list option) \<times> 'e) option"
  sd_read :: "int \<Rightarrow> int \<Rightarrow> int \<Rightarrow> 'e \<Rightarrow> (errcode \<times> byte list \<times> int) \<times> 'e"
  sd_write :: "int \<Rightarrow> byte list \<Rightarrow> int \<Rightarrow> 'e \<Rightarrow> (errcode \<times> int) \<times> 'e"
  sd_get_param :: "(int \<Rightarrow> 'e \<Rightarrow> (errcode \<times> AM_SMC_Param option) \<times> 'e) option"
  sd_set_param :: "(int \<Rightarrow> AM_SMC_Param \<Rightarrow> 'e \<Rightarrow> errcode \<times> 'e) option"
  sd_active :: "(int \<Rightarrow> 'e \<Rightarrow> errcode \<times> 'e) option"
  sd_deactive :: "(int \<Rightarrow> 'e \<Rightarrow> errcode \<times> 'e) option"
  sd_parse_atr :: "(int \<Rightarrow> byte list \<Rightarrow> 'e \<Rightarrow> errcode \<times> 'e) option"
  sd_clock :: "'e \<Rightarrow> int \<times> 'e"

text \<open>
  \<open>sm_lock\<close> says whether the mutex is initialised, \<open>sm_thread\<close> whether \<^verbatim>\<open>status_thread\<close> is a running thread,
  \<open>sm_run_cb\<close> is the flag \<^verbatim>\<open>SMC_FL_RUN_CB\<close>. A callback is identified by a number.
\<close>

record AM_SMC_Device =
  sm_dev_no :: int
  sm_drv_data :: int
  sm_openned :: bool
  sm_enable_thread :: bool
  sm_thread :: bool
  sm_lock :: bool
  sm_run_cb :: bool
  sm_cb :: "nat option"
  sm_user_data :: nat

record 'e smc_state =
  smc_devices :: "AM_SMC_Device list"
  txbuf :: smc_ring
  rxbuf :: smc_ring
  smc_os :: 'e

definition upd_smc :: "nat \<Rightarrow> (AM_SMC_Device \<Rightarrow> AM_SMC_Device) \<Rightarrow> 'e smc_state \<Rightarrow> 'e smc_state" where
  "upd_smc i f st = st\<lparr>smc_devices := (smc_devices st)[i := f (smc_devices st ! i)]\<rparr>"

definition smc_get_dev :: "int \<Rightarrow> errcode + nat" where
  "smc_get_dev dev_no =
     (if dev_no < 0 \<or> dev_no \<ge> int SMC_DEV_COUNT then Inl AM_SMC_ERR_INVALID_DEV_NO else Inr (nat dev_no))"

definition smc_get_openned_dev :: "'e smc_state \<Rightarrow> int \<Rightarrow> errcode + nat" where
  "smc_get_openned_dev st dev_no =
     (case smc_get_dev dev_no of
        Inl err \<Rightarrow> Inl err
      | Inr i \<Rightarrow> if \<not> sm_openned (smc_devices st ! i) then Inl AM_SMC_ERR_NOT_OPENNED else Inr i)"

subsection \<open>Reading and writing with a deadline\<close>

text \<open>
  The loop of \<^verbatim>\<open>smc_read\<close>: \<open>pos\<close> is \<^verbatim>\<open>ptr - buf\<close> and also \<^verbatim>\<open>cnt\<close>. It need not end when the driver returns
  without data; \<open>None\<close> stands for not returning and for leaving the caller's buffer.
\<close>

partial_function (option) smc_read_loop :: "'e smc_driver \<Rightarrow> int \<Rightarrow> int \<Rightarrow> int \<Rightarrow> int \<Rightarrow> int \<Rightarrow> int \<Rightarrow> errcode \<Rightarrow> byte list \<Rightarrow> 'e
    \<Rightarrow> ((errcode \<times> int \<times> byte list) \<times> 'e) option" where
  "smc_read_loop drv fd timeout until now left pos ret buf e =
     (if left = 0 then Some ((ret, pos, buf), e)
      else case sd_read drv fd left (if timeout \<ge> 0 then to_int32 (until - now) else -1) e of
        ((r, bs, tlen), e1) \<Rightarrow>
          do { buf1 \<leftarrow> (if pos < 0 then None else copy_into buf (nat pos) bs);
               if r < 0 then Some ((r, pos, buf1), e1)
               else if timeout \<ge> 0
               then (case sd_clock drv e1 of
                       (now1, e2) \<Rightarrow>
                         if left - tlen \<noteq> 0 \<and> to_int32 (now1 - until) \<ge> 0
                         then Some ((AM_SMC_ERR_TIMEOUT, pos + tlen, buf1), e2)
                         else smc_read_loop drv fd timeout until now1 (left - tlen) (pos + tlen) r buf1 e2)
               else smc_read_loop drv fd timeout until now (left - tlen) (pos + tlen) r buf1 e1 })"

definition smc_read :: "'e smc_driver \<Rightarrow> int \<Rightarrow> byte list \<Rightarrow> int \<Rightarrow> int \<Rightarrow> 'e \<Rightarrow> ((errcode \<times> int \<times> byte list) \<times> 'e) option" where
  "smc_read drv fd buf len timeout e =
     (if timeout \<ge> 0
      then (case sd_clock drv e of (now, e1) \<Rightarrow> smc_read_loop drv fd timeout (to_int32 (now + timeout)) now len 0 AM_SUCCESS buf e1)
      else smc_read_loop drv fd timeout 0 0 len 0 AM_SUCCESS buf e)"

partial_function (option) smc_write_loop :: "'e smc_driver \<Rightarrow> int \<Rightarrow> int \<Rightarrow> int \<Rightarrow> int \<Rightarrow> int \<Rightarrow> int \<Rightarrow> errcode \<Rightarrow> byte list \<Rightarrow> 'e
    \<Rightarrow> ((errcode \<times> int) \<times> 'e) option" where
  "smc_write_loop drv fd timeout until now left pos ret buf e =
     (if left = 0 then Some ((ret, pos), e)
      else do { src \<leftarrow> (if pos < 0 \<or> left < 0 then None else copy_out buf (nat pos) (nat left));
                (case sd_write drv fd src (if timeout \<ge> 0 then to_int32 (until - now) else -1) e of
                   ((r, tlen), e1) \<Rightarrow>
                     if r < 0 then Some ((r, pos), e1)
                     else if timeout \<ge> 0
                     then (case sd_clock drv e1 of
                             (now1, e2) \<Rightarrow>
                               if left - tlen \<noteq> 0 \<and> to_int32 (now1 - until) \<ge> 0
                               then Some ((AM_SMC_ERR_TIMEOUT, pos + tlen), e2)
                               else smc_write_loop drv fd timeout until now1 (left - tlen) (pos + tlen) r buf e2)
                     else smc_write_loop drv fd timeout until now (left - tlen) (pos + tlen) r buf e1) })"

definition smc_write :: "'e smc_driver \<Rightarrow> int \<Rightarrow> byte list \<Rightarrow> int \<Rightarrow> int \<Rightarrow> 'e \<Rightarrow> ((errcode \<times> int) \<times> 'e) option" where
  "smc_write drv fd buf len timeout e =
     (if timeout \<ge> 0
      then (case sd_clock drv e of (now, e1) \<Rightarrow> smc_write_loop drv fd timeout (to_int32 (now + timeout)) now len 0 AM_SUCCESS buf e1)
      else smc_write_loop drv fd timeout 0 0 len 0 AM_SUCCESS buf e)"

subsection \<open>The protocols\<close>

unbundle bit_operations_syntax

text \<open>
  The variables of \<^verbatim>\<open>AM_SMC_TransferT0\<close>: \<open>t_byte\<close> is \<^verbatim>\<open>byte\<close>, \<open>t_buf\<close> the array of 255 bytes, \<open>t_recv\<close> the caller's
  buffer.
\<close>

record 'e t0_vars =
  t_tx :: smc_ring
  t_rx :: smc_ring
  t_recv :: "byte list"
  t_buf :: "byte list"
  t_byte :: byte
  t_rxlen :: byte
  t_env :: 'e

text \<open>\<^verbatim>\<open>smc_read(dev, buf, n, NULL, 5000*DELAY_MUL)\<close>, and the bytes read into \<^verbatim>\<open>rxbuf\<close>. The result is \<^verbatim>\<open>ret\<close>.\<close>

definition t0_read_data :: "'e smc_driver \<Rightarrow> int \<Rightarrow> nat \<Rightarrow> 'e t0_vars \<Rightarrow> (errcode \<times> 'e t0_vars) option" where
  "t0_read_data drv fd n v =
     do { ((r, _, buf), e) \<leftarrow> smc_read drv fd (t_buf v) (int n) (5000 * DELAY_MUL) (t_env v);
          let v1 = v\<lparr>t_buf := buf, t_env := e\<rparr>;
          if r \<noteq> AM_SUCCESS then Some (r, v1)
          else do { src \<leftarrow> copy_out buf 0 n; (_, rx) \<leftarrow> ringbuffer_write (t_rx v1) src; Some (AM_SUCCESS, v1\<lparr>t_rx := rx\<rparr>) } }"

text \<open>The rest of the command is sent.\<close>

definition t0_send_rest :: "'e smc_driver \<Rightarrow> int \<Rightarrow> nat \<Rightarrow> 'e t0_vars \<Rightarrow> (errcode \<times> 'e t0_vars) option" where
  "t0_send_rest drv fd cnt v =
     do { (bs, tx) \<leftarrow> ringbuffer_read (t_tx v) cnt;
          buf \<leftarrow> copy_into (t_buf v) 0 bs;
          ((r, _), e) \<leftarrow> smc_write drv fd buf (int cnt) (5000 * DELAY_MUL) (t_env v);
          Some (r, v\<lparr>t_tx := tx, t_buf := buf, t_env := e\<rparr>) }"

text \<open>The second status byte is read to the caller's buffer.\<close>

definition t0_status :: "'e smc_driver \<Rightarrow> int \<Rightarrow> 'e t0_vars \<Rightarrow> (errcode \<times> 'e t0_vars) option" where
  "t0_status drv fd v =
     do { (_, rx1) \<leftarrow> ringbuffer_write (t_rx v) [t_byte v];
          ((r, _, recv), e) \<leftarrow> smc_read drv fd (t_recv v) 1 (1000 * DELAY_MUL) (t_env v);
          let v1 = v\<lparr>t_rx := rx1, t_recv := recv, t_env := e\<rparr>;
          if r \<noteq> AM_SUCCESS then Some (r, v1)
          else do { sw2 \<leftarrow> Adp_Prelude.rd recv 0; (_, rx2) \<leftarrow> ringbuffer_write rx1 [sw2]; Some (AM_SUCCESS, v1\<lparr>t_rx := rx2\<rparr>) } }"

text \<open>The loop \<^verbatim>\<open>while(1)\<close>; \<open>ins\<close> is \<^verbatim>\<open>INS_BYTE\<close>. \<open>None\<close> also stands for not returning.\<close>

partial_function (option) t0_loop :: "'e smc_driver \<Rightarrow> int \<Rightarrow> byte \<Rightarrow> 'e t0_vars \<Rightarrow> (errcode \<times> 'e t0_vars) option" where
  "t0_loop drv fd ins v =
     do { ((r, _, b), e) \<leftarrow> smc_read drv fd [t_byte v] 1 (1000 * DELAY_MUL) (t_env v);
          let byte = b ! 0;
          let v1 = v\<lparr>t_byte := byte, t_env := e\<rparr>;
          if r \<noteq> AM_SUCCESS then Some (r, v1)
          else if byte = 0x60 then t0_loop drv fd ins v1
          else if byte AND 0xF0 = 0x60 then t0_status drv fd v1
          else if byte AND 0xF0 = 0x90 then t0_status drv fd v1
          else if byte = ins \<or> byte = ins XOR 0x01
          then do { (r2, v2) \<leftarrow> (let cnt = ringbuffer_avail (t_tx v1) in
                                 if cnt > 0 then t0_send_rest drv fd (nat cnt) v1 else t0_read_data drv fd (unat (t_rxlen v1)) v1);
                    if r2 \<noteq> AM_SUCCESS then Some (r2, v2) else t0_loop drv fd ins v2 }
          else if byte = ins XOR 0xff \<or> byte = ins XOR 0xfe
          then do { (r2, v2) \<leftarrow> t0_read_data drv fd 1 v1;
                    if r2 \<noteq> AM_SUCCESS then Some (r2, v2) else t0_loop drv fd ins (v2\<lparr>t_rxlen := t_rxlen v2 - 1\<rparr>) }
          else Some (AM_SMC_ERR_IO, v1) }"

text \<open>\<open>byte\<close> is the content of the uninitialised variable. The result is the error code, \<^verbatim>\<open>*rlen\<close> (\<open>None\<close> when not stored) and the buffer.\<close>

definition AM_SMC_TransferT0 :: "'e smc_driver \<Rightarrow> byte \<Rightarrow> int \<Rightarrow> byte list \<Rightarrow> nat \<Rightarrow> byte list \<Rightarrow> 'e smc_state
    \<Rightarrow> ((errcode \<times> int option \<times> byte list) \<times> 'e smc_state) option" where
  "AM_SMC_TransferT0 drv byte dev_no send slen recv st =
     do { ins \<leftarrow> Adp_Prelude.rd send 1;
          p3 \<leftarrow> Adp_Prelude.rd send 4;
          src \<leftarrow> copy_out send 0 slen;
          (_, tx) \<leftarrow> ringbuffer_write (ringbuffer_reset (txbuf st)) src;
          let rx = ringbuffer_reset (rxbuf st);
          (case smc_get_openned_dev st dev_no of
             Inl err \<Rightarrow> Some ((err, None, recv), st\<lparr>txbuf := tx, rxbuf := rx\<rparr>)
           | Inr i \<Rightarrow>
               let dev = smc_devices st ! i; fd = sm_drv_data dev in
               if \<not> sm_lock dev then None
               else do { (hdr, tx1) \<leftarrow> ringbuffer_read tx 5;
                         buf \<leftarrow> copy_into (replicate 255 0) 0 hdr;
                         ((r, _), e) \<leftarrow> smc_write drv fd buf 5 (1000 * DELAY_MUL) (smc_os st);
                         let v = \<lparr>t_tx = tx1, t_rx = rx, t_recv = recv, t_buf = buf, t_byte = byte,
                                  t_rxlen = (if slen = 5 then p3 else 0), t_env = e\<rparr>;
                         (ret, v1) \<leftarrow> (if r \<noteq> AM_SUCCESS then Some (r, v) else t0_loop drv fd ins v);
                         let rlen = ringbuffer_avail (t_rx v1);
                         (bs, rx1) \<leftarrow> ringbuffer_read (t_rx v1) (nat rlen);
                         recv1 \<leftarrow> copy_into (t_recv v1) 0 bs;
                         Some ((ret, Some rlen, recv1), st\<lparr>txbuf := t_tx v1, rxbuf := rx1, smc_os := t_env v1\<rparr>) }) }"

text \<open>
  Header of \<open>hlen\<close> bytes, of which the last is the length of the rest less one byte, then the rest: T=1 and T=14
  differ in \<open>hlen\<close> only.
\<close>

definition t1_transfer :: "nat \<Rightarrow> 'e smc_driver \<Rightarrow> int \<Rightarrow> byte list \<Rightarrow> nat \<Rightarrow> byte list \<Rightarrow> 'e
    \<Rightarrow> ((errcode \<times> int option \<times> byte list) \<times> 'e) option" where
  "t1_transfer hlen drv fd send slen recv e =
     do { ((r1, _), e1) \<leftarrow> smc_write drv fd send (int slen) 1000 e;
          if r1 \<noteq> AM_SUCCESS then Some ((r1, None, recv), e1)
          else do { ((r2, _, recv1), e2) \<leftarrow> smc_read drv fd recv (int hlen) 1000 e1;
                    if r2 \<noteq> AM_SUCCESS then Some ((r2, None, recv1), e2)
                    else do { l \<leftarrow> Adp_Prelude.rd recv1 (hlen - 1);
                              ((r3, _, rest), e3) \<leftarrow> smc_read drv fd (drop hlen recv1) (int (unat l) + 1) 2000 e2;
                              let recv2 = take hlen recv1 @ rest;
                              if r3 \<noteq> AM_SUCCESS then Some ((r3, None, recv2), e3)
                              else do { l2 \<leftarrow> Adp_Prelude.rd recv2 (hlen - 1);
                                        Some ((AM_SUCCESS, Some (int (unat l2) + int hlen + 1), recv2), e3) } } } }"

definition with_smc :: "'e smc_state \<Rightarrow> int \<Rightarrow> (errcode \<Rightarrow> 'r) \<Rightarrow> (int \<Rightarrow> 'e \<Rightarrow> ('r \<times> 'e) option) \<Rightarrow> ('r \<times> 'e smc_state) option" where
  "with_smc st dev_no fail f =
     (case smc_get_openned_dev st dev_no of
        Inl err \<Rightarrow> Some (fail err, st)
      | Inr i \<Rightarrow>
          if \<not> sm_lock (smc_devices st ! i) then None
          else map_option (map_prod (\<lambda>r. r) (\<lambda>e. st\<lparr>smc_os := e\<rparr>)) (f (sm_drv_data (smc_devices st ! i)) (smc_os st)))"

definition AM_SMC_TransferT1 :: "'e smc_driver \<Rightarrow> int \<Rightarrow> byte list \<Rightarrow> nat \<Rightarrow> byte list \<Rightarrow> 'e smc_state
    \<Rightarrow> ((errcode \<times> int option \<times> byte list) \<times> 'e smc_state) option" where
  "AM_SMC_TransferT1 drv dev_no send slen recv st =
     with_smc st dev_no (\<lambda>err. (err, None, recv)) (\<lambda>fd e. t1_transfer 3 drv fd send slen recv e)"

definition AM_SMC_TransferT14 :: "'e smc_driver \<Rightarrow> int \<Rightarrow> byte list \<Rightarrow> nat \<Rightarrow> byte list \<Rightarrow> 'e smc_state
    \<Rightarrow> ((errcode \<times> int option \<times> byte list) \<times> 'e smc_state) option" where
  "AM_SMC_TransferT14 drv dev_no send slen recv st =
     with_smc st dev_no (\<lambda>err. (err, None, recv)) (\<lambda>fd e. t1_transfer 8 drv fd send slen recv e)"

subsection \<open>Operations\<close>

text \<open>\<open>created\<close> says whether \<^verbatim>\<open>pthread_create\<close> succeeds; \<open>rxa\<close> and \<open>txa\<close> are the arrays \<^verbatim>\<open>smc_rxbuf\<close> and \<^verbatim>\<open>smc_txbuf\<close>.\<close>

definition AM_SMC_Open :: "'e smc_driver \<Rightarrow> bool \<Rightarrow> byte list \<Rightarrow> byte list \<Rightarrow> int \<Rightarrow> bool \<Rightarrow> 'e smc_state \<Rightarrow> errcode \<times> 'e smc_state" where
  "AM_SMC_Open drv created rxa txa dev_no thread st =
     (case smc_get_dev dev_no of
        Inl err \<Rightarrow> (err, st)
      | Inr i \<Rightarrow>
          let dev = smc_devices st ! i in
          if sm_openned dev then (AM_SMC_ERR_BUSY, st)
          else
            (case (case sd_open drv of None \<Rightarrow> ((AM_SUCCESS, sm_drv_data dev), smc_os st)
                   | Some f \<Rightarrow> f dev_no (sm_drv_data dev) (smc_os st)) of
               ((r, d), e) \<Rightarrow>
                 let st1 = (upd_smc i (\<lambda>dev. dev\<lparr>sm_dev_no := dev_no, sm_drv_data := d\<rparr>) st)\<lparr>smc_os := e\<rparr> in
                 if r \<noteq> AM_SUCCESS then (r, st1)
                 else
                   let st2 = upd_smc i (\<lambda>dev. dev\<lparr>sm_lock := True, sm_enable_thread := thread, sm_openned := True, sm_run_cb := False\<rparr>) st1 in
                   if thread \<and> \<not> created
                   then (AM_SMC_ERR_CANNOT_CREATE_THREAD,
                         (upd_smc i (\<lambda>dev. dev\<lparr>sm_lock := False\<rparr>) st2)\<lparr>smc_os := (case sd_close drv of None \<Rightarrow> e | Some f \<Rightarrow> snd (f d e))\<rparr>)
                   else (AM_SUCCESS,
                         (upd_smc i (\<lambda>dev. dev\<lparr>sm_thread := thread\<rparr>) st2)\<lparr>rxbuf := ringbuffer_init rxa (rxbuf st), txbuf := ringbuffer_init txa (txbuf st)\<rparr>)))"

text \<open>Joining a thread that was never created is undefined.\<close>

definition AM_SMC_Close :: "'e smc_driver \<Rightarrow> int \<Rightarrow> 'e smc_state \<Rightarrow> (errcode \<times> 'e smc_state) option" where
  "AM_SMC_Close drv dev_no st =
     (case smc_get_openned_dev st dev_no of
        Inl err \<Rightarrow> Some (err, st)
      | Inr i \<Rightarrow>
          let dev = smc_devices st ! i in
          if sm_enable_thread dev \<and> \<not> sm_thread dev then None
          else Some (AM_SUCCESS,
                 (upd_smc i (\<lambda>dev. dev\<lparr>sm_enable_thread := False, sm_thread := False, sm_lock := False, sm_openned := False\<rparr>) st)
                   \<lparr>smc_os := (case sd_close drv of None \<Rightarrow> smc_os st | Some f \<Rightarrow> snd (f (sm_drv_data dev) (smc_os st)))\<rparr>))"

text \<open>The functions that need a function of the driver: \<open>g\<close> is that function, \<open>none\<close> what is stored when it is missing.\<close>

definition smc_forward :: "'e smc_state \<Rightarrow> int \<Rightarrow> 'r \<Rightarrow> (int \<Rightarrow> 'e \<Rightarrow> (errcode \<times> 'r) \<times> 'e) option \<Rightarrow> ((errcode \<times> 'r) \<times> 'e smc_state) option" where
  "smc_forward st dev_no none g =
     (case smc_get_openned_dev st dev_no of
        Inl err \<Rightarrow> Some ((err, none), st)
      | Inr i \<Rightarrow>
         (case g of
            None \<Rightarrow> Some ((AM_SMC_ERR_NOT_SUPPORTED, none), st)
          | Some f \<Rightarrow>
              if \<not> sm_lock (smc_devices st ! i) then None
              else (case f (sm_drv_data (smc_devices st ! i)) (smc_os st) of (r, e) \<Rightarrow> Some (r, st\<lparr>smc_os := e\<rparr>))))"

abbreviation plain :: "(int \<Rightarrow> 'e \<Rightarrow> errcode \<times> 'e) \<Rightarrow> int \<Rightarrow> 'e \<Rightarrow> (errcode \<times> unit) \<times> 'e" where
  "plain f \<equiv> (\<lambda>fd e. case f fd e of (r, e1) \<Rightarrow> ((r, ()), e1))"

definition AM_SMC_GetCardStatus :: "'e smc_driver \<Rightarrow> int \<Rightarrow> 'e smc_state \<Rightarrow> ((errcode \<times> int option) \<times> 'e smc_state) option" where
  "AM_SMC_GetCardStatus drv dev_no st = smc_forward st dev_no None (sd_get_status drv)"

text \<open>\<open>sz\<close> is \<^verbatim>\<open>*len\<close> when both pointers are given, else \<open>None\<close>. The answer is the bytes stored to the buffer used.\<close>

definition AM_SMC_Reset :: "'e smc_driver \<Rightarrow> int \<Rightarrow> int option \<Rightarrow> 'e smc_state \<Rightarrow> ((errcode \<times> byte list option) \<times> 'e smc_state) option" where
  "AM_SMC_Reset drv dev_no sz st =
     (case sz of
        Some len \<Rightarrow> if len < AM_SMC_MAX_ATR_LEN then Some ((AM_SMC_ERR_BUF_TOO_SMALL, None), st)
                    else smc_forward st dev_no None (sd_reset drv)
      | None \<Rightarrow> smc_forward st dev_no None (sd_reset drv))"

text \<open>\<^verbatim>\<open>AM_SMC_Read\<close> and \<^verbatim>\<open>AM_SMC_Write\<close> drop the number of bytes, the extended functions store it.\<close>

definition AM_SMC_ReadEx :: "'e smc_driver \<Rightarrow> int \<Rightarrow> byte list \<Rightarrow> int \<Rightarrow> int \<Rightarrow> 'e smc_state
    \<Rightarrow> ((errcode \<times> int option \<times> byte list) \<times> 'e smc_state) option" where
  "AM_SMC_ReadEx drv dev_no data len timeout st =
     with_smc st dev_no (\<lambda>err. (err, None, data))
       (\<lambda>fd e. map_option (\<lambda>((r, n, buf), e1). ((r, Some n, buf), e1)) (smc_read drv fd data len timeout e))"

definition AM_SMC_WriteEx :: "'e smc_driver \<Rightarrow> int \<Rightarrow> byte list \<Rightarrow> int \<Rightarrow> int \<Rightarrow> 'e smc_state
    \<Rightarrow> ((errcode \<times> int option) \<times> 'e smc_state) option" where
  "AM_SMC_WriteEx drv dev_no data len timeout st =
     with_smc st dev_no (\<lambda>err. (err, None))
       (\<lambda>fd e. map_option (\<lambda>((r, n), e1). ((r, Some n), e1)) (smc_write drv fd data len timeout e))"

definition AM_SMC_Read :: "'e smc_driver \<Rightarrow> int \<Rightarrow> byte list \<Rightarrow> int \<Rightarrow> int \<Rightarrow> 'e smc_state \<Rightarrow> ((errcode \<times> byte list) \<times> 'e smc_state) option" where
  "AM_SMC_Read drv dev_no data len timeout st =
     with_smc st dev_no (\<lambda>err. (err, data))
       (\<lambda>fd e. map_option (\<lambda>((r, n, buf), e1). ((r, buf), e1)) (smc_read drv fd data len timeout e))"

definition AM_SMC_Write :: "'e smc_driver \<Rightarrow> int \<Rightarrow> byte list \<Rightarrow> int \<Rightarrow> int \<Rightarrow> 'e smc_state \<Rightarrow> (errcode \<times> 'e smc_state) option" where
  "AM_SMC_Write drv dev_no data len timeout st =
     with_smc st dev_no (\<lambda>err. err)
       (\<lambda>fd e. map_option (\<lambda>((r, n), e1). (r, e1)) (smc_write drv fd data len timeout e))"

definition AM_SMC_Active :: "'e smc_driver \<Rightarrow> int \<Rightarrow> 'e smc_state \<Rightarrow> ((errcode \<times> unit) \<times> 'e smc_state) option" where
  "AM_SMC_Active drv dev_no st = smc_forward st dev_no () (map_option plain (sd_active drv))"

definition AM_SMC_Deactive :: "'e smc_driver \<Rightarrow> int \<Rightarrow> 'e smc_state \<Rightarrow> ((errcode \<times> unit) \<times> 'e smc_state) option" where
  "AM_SMC_Deactive drv dev_no st = smc_forward st dev_no () (map_option plain (sd_deactive drv))"

definition AM_SMC_PraseATR :: "'e smc_driver \<Rightarrow> int \<Rightarrow> byte list \<Rightarrow> 'e smc_state \<Rightarrow> ((errcode \<times> unit) \<times> 'e smc_state) option" where
  "AM_SMC_PraseATR drv dev_no atr st = smc_forward st dev_no () (map_option (\<lambda>f. plain (\<lambda>fd. f fd atr)) (sd_parse_atr drv))"

definition AM_SMC_GetParam :: "'e smc_driver \<Rightarrow> int \<Rightarrow> 'e smc_state \<Rightarrow> ((errcode \<times> AM_SMC_Param option) \<times> 'e smc_state) option" where
  "AM_SMC_GetParam drv dev_no st = smc_forward st dev_no None (sd_get_param drv)"

definition AM_SMC_SetParam :: "'e smc_driver \<Rightarrow> int \<Rightarrow> AM_SMC_Param \<Rightarrow> 'e smc_state \<Rightarrow> ((errcode \<times> unit) \<times> 'e smc_state) option" where
  "AM_SMC_SetParam drv dev_no para st = smc_forward st dev_no () (map_option (\<lambda>f. plain (\<lambda>fd. f fd para)) (sd_set_param drv))"

subsection \<open>Callback and status thread\<close>

definition AM_SMC_GetCallback :: "int \<Rightarrow> 'e smc_state \<Rightarrow> (errcode \<times> (nat option \<times> nat) option) option" where
  "AM_SMC_GetCallback dev_no st =
     (case smc_get_openned_dev st dev_no of
        Inl err \<Rightarrow> Some (err, None)
      | Inr i \<Rightarrow> let dev = smc_devices st ! i in if \<not> sm_lock dev then None else Some (AM_SUCCESS, Some (sm_cb dev, sm_user_data dev)))"

text \<open>
  \<open>self\<close> says whether the caller is the status thread. \<open>Inl\<close> means that the caller waits for the callback to end.
\<close>

definition AM_SMC_SetCallback :: "bool \<Rightarrow> int \<Rightarrow> nat option \<Rightarrow> nat \<Rightarrow> 'e smc_state \<Rightarrow> ((unit + errcode) \<times> 'e smc_state) option" where
  "AM_SMC_SetCallback self dev_no cb data st =
     (case smc_get_openned_dev st dev_no of
        Inl err \<Rightarrow> Some (Inr err, st)
      | Inr i \<Rightarrow>
          let dev = smc_devices st ! i in
          if \<not> sm_lock dev then None
          else if sm_run_cb dev \<and> \<not> self then Some (Inl (), st)
          else Some (Inr AM_SUCCESS, upd_smc i (\<lambda>dev. dev\<lparr>sm_cb := cb, sm_user_data := data\<rparr>) st))"

datatype smc_call = StatusCb nat int int nat | CardEvent int bool

text \<open>
  A turn of \<^verbatim>\<open>smc_status_thread\<close> has two locked parts: the status is read and, when it changed, the flag is
  set; then the callback and the event are called without the lock; then the flag is cleared. \<open>junk\<close> is what the variable
  \<^verbatim>\<open>status\<close> happens to hold. The result of the first part is the new \<^verbatim>\<open>old_status\<close> and the calls.
\<close>

definition smc_status_check :: "'e smc_driver \<Rightarrow> nat \<Rightarrow> int \<Rightarrow> int \<Rightarrow> 'e smc_state \<Rightarrow> ((int \<times> smc_call list) \<times> 'e smc_state) option" where
  "smc_status_check drv i junk old_status st =
     (case sd_get_status drv of
        None \<Rightarrow> None
      | Some f \<Rightarrow>
          let dev = smc_devices st ! i in
          if \<not> sm_lock dev then None
          else (case f (sm_drv_data dev) (smc_os st) of
                  ((_, s), e) \<Rightarrow>
                    let status = (case s of None \<Rightarrow> junk | Some x \<Rightarrow> x); st1 = st\<lparr>smc_os := e\<rparr> in
                    if status = old_status then Some ((old_status, []), st1)
                    else Some ((status, (case sm_cb dev of None \<Rightarrow> [] | Some cb \<Rightarrow> [StatusCb cb (sm_dev_no dev) status (sm_user_data dev)])
                                        @ [CardEvent (sm_dev_no dev) (status \<noteq> AM_SMC_CARD_OUT)]),
                               upd_smc i (\<lambda>dev. dev\<lparr>sm_run_cb := True\<rparr>) st1)))"

definition smc_status_done :: "nat \<Rightarrow> 'e smc_state \<Rightarrow> 'e smc_state" where
  "smc_status_done i st = upd_smc i (\<lambda>dev. dev\<lparr>sm_run_cb := False\<rparr>) st"

fun smc_status_turns :: "'e smc_driver \<Rightarrow> nat \<Rightarrow> int list \<Rightarrow> int \<Rightarrow> 'e smc_state \<Rightarrow> ((int \<times> smc_call list) \<times> 'e smc_state) option" where
  "smc_status_turns drv i [] old_status st = Some ((old_status, []), st)"
| "smc_status_turns drv i (junk # js) old_status st =
     do { ((s1, calls1), st1) \<leftarrow> smc_status_check drv i junk old_status st;
          ((s2, calls2), st2) \<leftarrow> smc_status_turns drv i js s1 (if s1 = old_status then st1 else smc_status_done i st1);
          Some ((s2, calls1 @ calls2), st2) }"

end
