(* ===== verification/Smc_Aml.thy ===== *)
theory Smc_Aml
  imports Am_Smc
begin

text \<open>
  The kernel driver of the smart card module, \<^verbatim>\<open>dvb/am_adp/am_smc/aml/aml.c\<close>. The calls of the kernel and the
  clock are the argument \<open>smc_host\<close>. A failing call is \<open>None\<close>; \<^verbatim>\<open>poll\<close> and \<^verbatim>\<open>write\<close> return their result.
\<close>

record 'e smc_host =
  k_open :: "int \<Rightarrow> 'e \<Rightarrow> int \<times> 'e"
  k_close :: "int \<Rightarrow> 'e \<Rightarrow> 'e"
  k_get_status :: "int \<Rightarrow> 'e \<Rightarrow> int option \<times> 'e"
  k_reset :: "int \<Rightarrow> 'e \<Rightarrow> byte list option \<times> 'e"
  k_poll :: "int \<Rightarrow> bool \<Rightarrow> int \<Rightarrow> 'e \<Rightarrow> int \<times> 'e"
  k_read :: "int \<Rightarrow> int \<Rightarrow> 'e \<Rightarrow> byte list option \<times> 'e"
  k_write :: "int \<Rightarrow> byte list \<Rightarrow> 'e \<Rightarrow> int \<times> 'e"
  k_get_param :: "int \<Rightarrow> 'e \<Rightarrow> AM_SMC_Param option \<times> 'e"
  k_set_param :: "int \<Rightarrow> AM_SMC_Param \<Rightarrow> 'e \<Rightarrow> bool \<times> 'e"
  k_active :: "int \<Rightarrow> 'e \<Rightarrow> bool \<times> 'e"
  k_deactive :: "int \<Rightarrow> 'e \<Rightarrow> bool \<times> 'e"
  k_clock :: "'e \<Rightarrow> int \<times> 'e"

definition smc_aml_open :: "'e smc_host \<Rightarrow> int \<Rightarrow> int \<Rightarrow> 'e \<Rightarrow> (errcode \<times> int) \<times> 'e" where
  "smc_aml_open H dev_no drv_data e =
     (case k_open H dev_no e of (fd, e1) \<Rightarrow> if fd = -1 then ((AM_SMC_ERR_CANNOT_OPEN_DEV, drv_data), e1) else ((AM_SUCCESS, fd), e1))"

definition smc_aml_close :: "'e smc_host \<Rightarrow> int \<Rightarrow> 'e \<Rightarrow> errcode \<times> 'e" where
  "smc_aml_close H fd e = (AM_SUCCESS, k_close H fd e)"

definition smc_aml_get_status :: "'e smc_host \<Rightarrow> int \<Rightarrow> 'e \<Rightarrow> (errcode \<times> int option) \<times> 'e" where
  "smc_aml_get_status H fd e =
     (case k_get_status H fd e of
        (None, e1) \<Rightarrow> ((AM_SMC_ERR_IO, None), e1)
      | (Some ds, e1) \<Rightarrow> ((AM_SUCCESS, Some (if ds \<noteq> 0 then AM_SMC_CARD_IN else AM_SMC_CARD_OUT)), e1))"

definition smc_aml_reset :: "'e smc_host \<Rightarrow> int \<Rightarrow> 'e \<Rightarrow> (errcode \<times> byte list option) \<times> 'e" where
  "smc_aml_reset H fd e =
     (case k_reset H fd e of
        (None, e1) \<Rightarrow> ((AM_SMC_ERR_IO, None), e1)
      | (Some atr, e1) \<Rightarrow> ((AM_SUCCESS, Some atr), e1))"

definition smc_aml_read :: "'e smc_host \<Rightarrow> int \<Rightarrow> int \<Rightarrow> int \<Rightarrow> 'e \<Rightarrow> (errcode \<times> byte list \<times> int) \<times> 'e" where
  "smc_aml_read H fd len timeout e =
     (case k_poll H fd False timeout e of
        (ret, e1) \<Rightarrow>
          if ret \<noteq> 1 then ((AM_SMC_ERR_TIMEOUT, [], len), e1)
          else (case k_read H fd len e1 of
                  (None, e2) \<Rightarrow> ((AM_SMC_ERR_IO, [], len), e2)
                | (Some bs, e2) \<Rightarrow> ((AM_SUCCESS, bs, int (length bs)), e2)))"

definition smc_aml_write :: "'e smc_host \<Rightarrow> int \<Rightarrow> byte list \<Rightarrow> int \<Rightarrow> 'e \<Rightarrow> (errcode \<times> int) \<times> 'e" where
  "smc_aml_write H fd data timeout e =
     (case k_poll H fd True timeout e of
        (ret, e1) \<Rightarrow>
          if ret \<noteq> 1 then ((AM_SMC_ERR_TIMEOUT, int (length data)), e1)
          else (case k_write H fd data e1 of
                  (ret, e2) \<Rightarrow> if ret < 0 then ((AM_SMC_ERR_IO, int (length data)), e2) else ((AM_SUCCESS, ret), e2)))"

definition smc_aml_get_param :: "'e smc_host \<Rightarrow> int \<Rightarrow> 'e \<Rightarrow> (errcode \<times> AM_SMC_Param option) \<times> 'e" where
  "smc_aml_get_param H fd e =
     (case k_get_param H fd e of
        (None, e1) \<Rightarrow> ((AM_SMC_ERR_IO, None), e1)
      | (Some p, e1) \<Rightarrow> ((AM_SUCCESS, Some p), e1))"

definition smc_aml_set_param :: "'e smc_host \<Rightarrow> int \<Rightarrow> AM_SMC_Param \<Rightarrow> 'e \<Rightarrow> errcode \<times> 'e" where
  "smc_aml_set_param H fd p e = (case k_set_param H fd p e of (ok, e1) \<Rightarrow> (if ok then AM_SUCCESS else AM_SMC_ERR_IO, e1))"

definition smc_aml_active :: "'e smc_host \<Rightarrow> int \<Rightarrow> 'e \<Rightarrow> errcode \<times> 'e" where
  "smc_aml_active H fd e = (case k_active H fd e of (ok, e1) \<Rightarrow> (if ok then AM_SUCCESS else AM_SMC_ERR_IO, e1))"

definition smc_aml_deactive :: "'e smc_host \<Rightarrow> int \<Rightarrow> 'e \<Rightarrow> errcode \<times> 'e" where
  "smc_aml_deactive H fd e = (case k_deactive H fd e of (ok, e1) \<Rightarrow> (if ok then AM_SUCCESS else AM_SMC_ERR_IO, e1))"

definition aml_smc_drv :: "'e smc_host \<Rightarrow> 'e smc_driver" where
  "aml_smc_drv H =
     \<lparr>sd_open = Some (smc_aml_open H), sd_close = Some (smc_aml_close H), sd_get_status = Some (smc_aml_get_status H),
      sd_reset = Some (smc_aml_reset H), sd_read = smc_aml_read H, sd_write = smc_aml_write H,
      sd_get_param = Some (smc_aml_get_param H), sd_set_param = Some (smc_aml_set_param H),
      sd_active = Some (smc_aml_active H), sd_deactive = Some (smc_aml_deactive H), sd_parse_atr = None, sd_clock = k_clock H\<rparr>"

end
