(* ===== verification/Smc_Link.thy ===== *)
theory Smc_Link
  imports Smc_Aml
begin

text \<open>
  The ring buffers of the smart card module keep the contract of byte rings, and the contract \<open>smc_link\<close> of a
  driver over which the card's bytes arrive in time, in whatever portions: under it, reading and writing with
  a deadline move exactly the bytes asked for.
\<close>

subsection \<open>The ring buffers keep the contract\<close>

definition as_ud :: "smc_ring \<Rightarrow> ud_ring" where
  "as_ud r = \<lparr>rb_data = (case sr_data r of None \<Rightarrow> Freed | Some d \<Rightarrow> Block d), rb_size = sr_size r, rb_pread = sr_pread r,
     rb_pwrite = sr_pwrite r, rb_error = sr_error r\<rparr>"

definition of_ud :: "ud_ring \<Rightarrow> smc_ring" where
  "of_ud r = \<lparr>sr_data = (case rb_data r of Block d \<Rightarrow> Some d | _ \<Rightarrow> None), sr_size = rb_size r, sr_pread = rb_pread r,
     sr_pwrite = rb_pwrite r, sr_error = rb_error r\<rparr>"

abbreviation smc_put :: "smc_ring \<Rightarrow> byte list \<Rightarrow> smc_ring option" where
  "smc_put r bs \<equiv> map_option snd (ringbuffer_write r bs)"

lemma of_ud_as_ud [simp]: "of_ud (as_ud r) = r"
  by (cases r) (auto simp: of_ud_def as_ud_def split: option.splits)

lemma ringbuffer_read_ud: "ringbuffer_read r n = map_option (map_prod (\<lambda>b. b) of_ud) (userdata_ring_buf_read (as_ud r) n)"
  by (cases "sr_data r")
    (auto simp: ringbuffer_read_def userdata_ring_buf_read_def as_ud_def of_ud_def Let_def split: Option.bind_split)

lemma ringbuffer_write_ud: "ringbuffer_write r bs = map_option (map_prod (\<lambda>n. n) of_ud) (userdata_ring_buf_write (as_ud r) bs)"
  by (cases "sr_data r")
    (auto simp: ringbuffer_write_def userdata_ring_buf_write_def as_ud_def of_ud_def Let_def split: Option.bind_split)

lemma as_ud_of_ud: "ring_ok r \<Longrightarrow> as_ud (of_ud r) = r"
  by (erule ring_okE) (simp add: as_ud_def of_ud_def)

interpretation smc_bytes: byte_ring "\<lambda>r. ring_ok (as_ud r)" "\<lambda>r. ring_content (as_ud r)" "\<lambda>r. ring_room (as_ud r)"
  smc_put ringbuffer_read
proof
  fix r :: smc_ring and bs :: "byte list"
  assume "ring_ok (as_ud r)" "length bs \<le> ring_room (as_ud r)"
  from ud_bytes.put_ok [OF this] show "\<exists>r'. smc_put r bs = Some r' \<and> ring_ok (as_ud r')
      \<and> ring_content (as_ud r') = ring_content (as_ud r) @ bs \<and> ring_room (as_ud r') + length bs = ring_room (as_ud r)"
    by (auto simp: ringbuffer_write_ud as_ud_of_ud)
next
  fix r :: smc_ring and n :: nat
  assume "ring_ok (as_ud r)" "n \<le> length (ring_content (as_ud r))"
  from ud_bytes.get_ok [OF this] show "\<exists>r'. ringbuffer_read r n = Some (take n (ring_content (as_ud r)), r') \<and> ring_ok (as_ud r')
      \<and> ring_content (as_ud r') = drop n (ring_content (as_ud r)) \<and> ring_room (as_ud r') = ring_room (as_ud r) + n"
    by (auto simp: ringbuffer_read_ud as_ud_of_ud)
qed

text \<open>Filled rings, as the transfers see them.\<close>

definition holds :: "smc_ring \<Rightarrow> byte list \<Rightarrow> bool" where
  "holds r bs \<longleftrightarrow> ring_ok (as_ud r) \<and> sr_size r = SMC_BUF_SIZE \<and> ring_content (as_ud r) = bs"

lemma as_ud_positions [simp]:
  "rb_size (as_ud r) = sr_size r" "rb_pread (as_ud r) = sr_pread r" "rb_pwrite (as_ud r) = sr_pwrite r"
  by (simp_all add: as_ud_def)

lemma holds_length: "holds r bs \<Longrightarrow> ringbuffer_avail r = int (length bs) \<and> ring_room (as_ud r) = 1023 - length bs \<and> length bs < 1024"
proof -
  assume h: "holds r bs"
  then have ok: "ring_ok (as_ud r)" and c: "ring_content (as_ud r) = bs" and s: "rb_size (as_ud r) = 1024"
    by (auto simp: holds_def)
  have "ringbuffer_avail r = userdata_ring_buf_avail (as_ud r)"
    by (simp add: ringbuffer_avail_def userdata_ring_buf_avail_def Let_def)
  then show ?thesis
    using ring_used_bounds [OF ok] ring_content_length [OF ok] ring_room_used [OF ok] c s by simp
qed

lemma ring_write_size_smc: "ringbuffer_write r bs = Some (n, r') \<Longrightarrow> sr_size r' = sr_size r"
  by (auto simp: ringbuffer_write_def Let_def split: option.splits if_splits Option.bind_splits)

lemma ring_read_size_smc: "ringbuffer_read r n = Some (bs, r') \<Longrightarrow> sr_size r' = sr_size r"
  by (auto simp: ringbuffer_read_def Let_def split: option.splits if_splits Option.bind_splits)

lemma holds_write:
  assumes "holds r bs" "length bs + length cs < SMC_BUF_SIZE"
  shows "\<exists>n r'. ringbuffer_write r cs = Some (n, r') \<and> holds r' (bs @ cs)"
proof -
  have "ring_ok (as_ud r)" "length cs \<le> ring_room (as_ud r)" using assms holds_length [OF assms(1)] by (auto simp: holds_def)
  from smc_bytes.put_ok [OF this] obtain n r' where "ringbuffer_write r cs = Some (n, r')" "ring_ok (as_ud r')"
    "ring_content (as_ud r') = ring_content (as_ud r) @ cs" by auto
  with assms(1) show ?thesis by (auto simp: holds_def dest: ring_write_size_smc)
qed

lemma holds_read:
  assumes "holds r bs" "n \<le> length bs"
  shows "\<exists>r'. ringbuffer_read r n = Some (take n bs, r') \<and> holds r' (drop n bs)"
proof -
  have "ring_ok (as_ud r)" "n \<le> length (ring_content (as_ud r))" using assms by (auto simp: holds_def)
  from smc_bytes.get_ok [OF this] obtain r' where "ringbuffer_read r n = Some (take n (ring_content (as_ud r)), r')"
    "ring_ok (as_ud r')" "ring_content (as_ud r') = drop n (ring_content (as_ud r))" by auto
  with assms(1) show ?thesis by (auto simp: holds_def dest: ring_read_size_smc)
qed

subsection \<open>A link that delivers\<close>

lemma to_int32_late: "to_int32 (c - to_int32 (c0 + timeout)) = to_int32 (c - c0 - timeout)"
proof -
  have "(c - ((c0 + timeout + 2147483648) mod 4294967296 - 2147483648) + 2147483648) mod 4294967296
      = (c - c0 - timeout + 2147483648) mod (4294967296 :: int)"
    by (simp add: mod_simps mod_eq_dvd_iff)
  then show ?thesis by (simp add: to_int32_eq)
qed

text \<open>
  \<open>inbox\<close> are the bytes that the card is going to send, \<open>outbox\<close> those that it was sent. A read of at most what the
  card sends brings at least one byte, a write takes at least one byte, in any portions; the clock, which may have
  wrapped, stays in one second from \<open>t\<close>.
\<close>

locale smc_link =
  fixes drv :: "'e smc_driver"
    and fd :: int
    and inbox :: "'e \<Rightarrow> byte list"
    and outbox :: "'e \<Rightarrow> byte list"
    and t :: int
  assumes clock: "\<exists>c. sd_clock drv e = (c, e) \<and> t \<le> c \<and> c < t + 1000"
    and read_some: "0 < n \<Longrightarrow> n \<le> length (inbox e)
      \<Longrightarrow> \<exists>bs e'. sd_read drv fd (int n) ms e = ((AM_SUCCESS, bs, int (length bs)), e') \<and> bs \<noteq> [] \<and> length bs \<le> n
            \<and> inbox e = bs @ inbox e' \<and> outbox e' = outbox e"
    and write_some: "data \<noteq> []
      \<Longrightarrow> \<exists>k e'. sd_write drv fd data ms e = ((AM_SUCCESS, int k), e') \<and> 0 < k \<and> k \<le> length data
            \<and> outbox e' = outbox e @ take k data \<and> inbox e' = inbox e"
begin

lemma not_late:
  assumes "t \<le> c0" "c0 < t + 1000" "1000 \<le> timeout" "timeout < 2 ^ 30"
  shows "\<exists>c. sd_clock drv e = (c, e) \<and> to_int32 (c - to_int32 (c0 + timeout)) < 0"
proof -
  obtain c where c: "sd_clock drv e = (c, e)" "t \<le> c" "c < t + 1000" using clock by blast
  then have "to_int32 (c - c0 - timeout) = c - c0 - timeout" using assms by (intro to_int32_id) auto
  with c assms show ?thesis by (auto simp: to_int32_late)
qed

lemma read_loop_exact:
  assumes "left \<le> length (inbox e)" "pos + left \<le> length buf" "t \<le> c0" "c0 < t + 1000" "1000 \<le> timeout" "timeout < 2 ^ 30"
  shows "\<exists>e'. smc_read_loop drv fd timeout (to_int32 (c0 + timeout)) now (int left) (int pos) AM_SUCCESS buf e
      = Some ((AM_SUCCESS, int (pos + left), take pos buf @ take left (inbox e) @ drop (pos + left) buf), e')
      \<and> inbox e' = drop left (inbox e) \<and> outbox e' = outbox e"
  using assms(1,2)
proof (induction left arbitrary: pos buf e now rule: less_induct)
  case (less left)
  show ?case
  proof (cases "left = 0")
    case True
    then show ?thesis by (subst smc_read_loop.simps) simp
  next
    case False
    then obtain bs e1 where r: "sd_read drv fd (int left) (to_int32 (to_int32 (c0 + timeout) - now)) e = ((AM_SUCCESS, bs, int (length bs)), e1)"
      "bs \<noteq> []" "length bs \<le> left" "inbox e = bs @ inbox e1" "outbox e1 = outbox e"
      using read_some [of left e] less.prems(1) by blast
    define buf1 where "buf1 = take pos buf @ bs @ drop (pos + length bs) buf"
    have c: "copy_into buf pos bs = Some buf1" using less.prems(2) r(3) by (simp add: copy_into_def buf1_def)
    obtain now1 where n1: "sd_clock drv e1 = (now1, e1)" "to_int32 (now1 - to_int32 (c0 + timeout)) < 0"
      using not_late [OF assms(3-6)] by blast
    have smaller: "left - length bs < left" "left - length bs \<le> length (inbox e1)" "pos + length bs + (left - length bs) \<le> length buf1"
      using False less.prems r(2-4) by (auto simp: buf1_def)
    have pl: "pos + length bs + (left - length bs) = pos + left" using r(3) by simp
    obtain e' where ih: "smc_read_loop drv fd timeout (to_int32 (c0 + timeout)) now1 (int (left - length bs)) (int (pos + length bs)) AM_SUCCESS buf1 e1
        = Some ((AM_SUCCESS, int (pos + left),
                 take (pos + length bs) buf1 @ take (left - length bs) (inbox e1) @ drop (pos + left) buf1), e')"
      "inbox e' = drop (left - length bs) (inbox e1)" "outbox e' = outbox e1"
      using less.IH [OF smaller] unfolding pl by blast
    have bufs: "take (pos + length bs) buf1 = take pos buf @ bs" "drop (pos + left) buf1 = drop (pos + left) buf"
      using less.prems(2) r(3) by (simp_all add: buf1_def add.commute)
    have boxes: "take left (inbox e) = bs @ take (left - length bs) (inbox e1)" "drop left (inbox e) = drop (left - length bs) (inbox e1)"
      using r(3,4) by simp_all
    have "smc_read_loop drv fd timeout (to_int32 (c0 + timeout)) now (int left) (int pos) AM_SUCCESS buf e
        = smc_read_loop drv fd timeout (to_int32 (c0 + timeout)) now1 (int (left - length bs)) (int (pos + length bs)) AM_SUCCESS buf1 e1"
      using False assms(5) n1 c by (subst smc_read_loop.simps) (simp add: r(1,3) of_nat_diff)
    then show ?thesis unfolding boxes ih(1) bufs using ih(2,3) r(5) by (intro exI [of _ e']) simp
  qed
qed

lemma read_exact:
  assumes "n \<le> length (inbox e)" "n \<le> length buf" "1000 \<le> timeout" "timeout < 2 ^ 30"
  shows "\<exists>e'. smc_read drv fd buf (int n) timeout e = Some ((AM_SUCCESS, int n, take n (inbox e) @ drop n buf), e')
      \<and> inbox e' = drop n (inbox e) \<and> outbox e' = outbox e"
proof -
  obtain c where c: "sd_clock drv e = (c, e)" "t \<le> c" "c < t + 1000" using clock by blast
  then show ?thesis using read_loop_exact [of n e 0 buf c timeout c] assms by (simp add: smc_read_def)
qed

lemma write_loop_exact:
  assumes "pos + left \<le> length buf" "t \<le> c0" "c0 < t + 1000" "1000 \<le> timeout" "timeout < 2 ^ 30"
  shows "\<exists>e'. smc_write_loop drv fd timeout (to_int32 (c0 + timeout)) now (int left) (int pos) AM_SUCCESS buf e
      = Some ((AM_SUCCESS, int (pos + left)), e') \<and> inbox e' = inbox e \<and> outbox e' = outbox e @ take left (drop pos buf)"
  using assms(1)
proof (induction left arbitrary: pos e now rule: less_induct)
  case (less left)
  show ?case
  proof (cases "left = 0")
    case True
    then show ?thesis by (subst smc_write_loop.simps) simp
  next
    case False
    define src where "src = take left (drop pos buf)"
    have src: "copy_out buf pos left = Some src" "src \<noteq> []" "length src = left" using less.prems False by (auto simp: copy_out_def src_def)
    then obtain k e1 where w: "sd_write drv fd src (to_int32 (to_int32 (c0 + timeout) - now)) e = ((AM_SUCCESS, int k), e1)"
      "0 < k" "k \<le> left" "outbox e1 = outbox e @ take k src" "inbox e1 = inbox e"
      using write_some by metis
    obtain now1 where n1: "sd_clock drv e1 = (now1, e1)" "to_int32 (now1 - to_int32 (c0 + timeout)) < 0"
      using not_late [OF assms(2-5)] by blast
    have smaller: "left - k < left" "pos + k + (left - k) \<le> length buf" using w(2,3) less.prems by auto
    obtain e' where "smc_write_loop drv fd timeout (to_int32 (c0 + timeout)) now1 (int (left - k)) (int (pos + k)) AM_SUCCESS buf e1
        = Some ((AM_SUCCESS, int (pos + k + (left - k))), e')" "inbox e' = inbox e1"
      "outbox e' = outbox e1 @ take (left - k) (drop (pos + k) buf)"
      using less.IH [OF smaller] by blast
    moreover have "take k src @ take (left - k) (drop (pos + k) buf) = src"
    proof -
      have "take k src = take k (drop pos buf)" using w(3) by (simp add: src_def min_absorb1)
      then show ?thesis using w(3) by (metis src_def take_add drop_drop add.commute le_add_diff_inverse)
    qed
    moreover have "smc_write_loop drv fd timeout (to_int32 (c0 + timeout)) now (int left) (int pos) AM_SUCCESS buf e
        = smc_write_loop drv fd timeout (to_int32 (c0 + timeout)) now1 (int (left - k)) (int (pos + k)) AM_SUCCESS buf e1"
      using False assms(4) n1 src(1) by (subst smc_write_loop.simps) (simp add: w(1,3) of_nat_diff)
    ultimately show ?thesis using w(3-5) by (metis append.assoc le_add_diff_inverse add.assoc src_def)
  qed
qed

lemma write_exact:
  assumes "n \<le> length buf" "1000 \<le> timeout" "timeout < 2 ^ 30"
  shows "\<exists>e'. smc_write drv fd buf (int n) timeout e = Some ((AM_SUCCESS, int n), e')
      \<and> inbox e' = inbox e \<and> outbox e' = outbox e @ take n buf"
proof -
  obtain c where c: "sd_clock drv e = (c, e)" "t \<le> c" "c < t + 1000" using clock by blast
  then show ?thesis using write_loop_exact [of 0 n buf c timeout c e] assms by (simp add: smc_write_def)
qed

end

end
