(* ===== verification/Smc_Transfer.thy ===== *)
theory Smc_Transfer
  imports Smc_Link
begin

text \<open>
  The transfers by T=0, T=1 and T=14 over a link that delivers: what the card is sent and what the caller gets.
  The steps of the T=0 loop are proved once in the contract \<open>smc_link\<close>; the kernel driver of the module
  keeps that contract when the kernel delivers.
\<close>

unbundle bit_operations_syntax

subsection \<open>Procedure bytes\<close>

text \<open>
  What a card sends before the status bytes \<^verbatim>\<open>SW1 SW2\<close>: a null byte to gain time, an acknowledge with all remaining data, or
  an acknowledge with one byte of data. The flag says that the card asks for the programming voltage.
\<close>

datatype t0_proc = Wait | Rest bool "byte list" | Single bool byte

fun t0_wire :: "byte \<Rightarrow> t0_proc \<Rightarrow> byte list" where
  "t0_wire ins Wait = [0x60]"
| "t0_wire ins (Rest vpp bs) = (if vpp then ins XOR 0x01 else ins) # bs"
| "t0_wire ins (Single vpp b) = [if vpp then ins XOR 0xfe else ins XOR 0xff, b]"

fun t0_data :: "t0_proc \<Rightarrow> byte list" where
  "t0_data Wait = []"
| "t0_data (Rest vpp bs) = bs"
| "t0_data (Single vpp b) = [b]"

text \<open>A card that answers a command for \<open>n\<close> bytes: single bytes while some are missing, all the missing ones at the end.\<close>

fun t0_answer :: "nat \<Rightarrow> t0_proc list \<Rightarrow> bool" where
  "t0_answer n [] \<longleftrightarrow> True"
| "t0_answer n (Wait # ps) \<longleftrightarrow> t0_answer n ps"
| "t0_answer n (Rest vpp bs # ps) \<longleftrightarrow> length bs = n \<and> (\<forall>p \<in> set ps. p = Wait)"
| "t0_answer n (Single vpp b # ps) \<longleftrightarrow> n > 0 \<and> t0_answer (n - 1) ps"

lemma t0_answer_waits: "\<forall>p \<in> set ps. p = Wait \<Longrightarrow> t0_answer n ps"
  by (induction ps) auto

lemma t0_answer_length: "t0_answer n ps \<Longrightarrow> length (concat (map t0_data ps)) \<le> n"
proof (induction n ps rule: t0_answer.induct)
  case (3 n vpp bs ps)
  then have "concat (map t0_data ps) = []" by auto
  with 3 show ?case by simp
qed auto

definition t0_ins_ok :: "byte \<Rightarrow> bool" where
  "t0_ins_ok ins \<longleftrightarrow> ins AND 0xF0 \<noteq> 0x60 \<and> ins AND 0xF0 \<noteq> 0x90"

definition t0_sw_ok :: "byte \<Rightarrow> bool" where
  "t0_sw_ok sw \<longleftrightarrow> sw \<noteq> 0x60 \<and> (sw AND 0xF0 = 0x60 \<or> sw AND 0xF0 = 0x90)"

lemma xor_high: "(ins XOR m) AND 0xF0 = (ins AND 0xF0) XOR (m AND 0xF0)" for ins m :: byte
  by (rule bit.conj_xor_distrib2)

lemma xor_high_changes: "x XOR 0xF0 \<noteq> x" for x :: byte
proof
  assume "x XOR 0xF0 = x"
  then have "x XOR (x XOR 0xF0) = x XOR x" by (simp only:)
  then show False by (simp only: bit.xor_left_self bit.xor_self) simp
qed

lemma ack_rest: "t0_ins_ok ins \<Longrightarrow> b = ins \<or> b = ins XOR 0x01 \<Longrightarrow> b \<noteq> 0x60 \<and> b AND 0xF0 \<noteq> 0x60 \<and> b AND 0xF0 \<noteq> 0x90"
proof -
  assume ok: "t0_ins_ok ins" and b: "b = ins \<or> b = ins XOR 0x01"
  then have "b AND 0xF0 = ins AND 0xF0" by (auto simp: xor_high)
  with ok show ?thesis by (auto simp: t0_ins_ok_def)
qed

lemma ack_single:
  assumes "t0_ins_ok ins" "b = ins XOR 0xff \<or> b = ins XOR 0xfe"
  shows "b \<noteq> 0x60 \<and> b AND 0xF0 \<noteq> 0x60 \<and> b AND 0xF0 \<noteq> 0x90 \<and> b \<noteq> ins \<and> b \<noteq> ins XOR 0x01"
proof -
  have h: "b AND 0xF0 = (ins AND 0xF0) XOR 0xF0" using assms(2) by (auto simp: xor_high)
  have "x XOR 0xF0 = y \<longleftrightarrow> x = y XOR 0xF0" for x y :: byte by (metis xor.assoc xor.right_neutral xor_self_eq)
  then have "b AND 0xF0 \<noteq> 0x60" "b AND 0xF0 \<noteq> 0x90" using assms(1) h by (auto simp: t0_ins_ok_def)
  moreover have "b AND 0xF0 \<noteq> ins AND 0xF0"
    using xor_high_changes [of "ins AND 0xF0"] h by auto
  ultimately show ?thesis by (auto simp: xor_high)
qed

subsection \<open>Steps of the loop\<close>

text \<open>The state of the transfer: what is left to send, what was received, how many bytes are expected, what the card still sends and was sent.\<close>

definition t0_at :: "('e \<Rightarrow> byte list) \<Rightarrow> ('e \<Rightarrow> byte list) \<Rightarrow> 'e t0_vars \<Rightarrow> byte list \<Rightarrow> byte list \<Rightarrow> nat \<Rightarrow> byte list \<Rightarrow> byte list \<Rightarrow> byte list \<Rightarrow> bool" where
  "t0_at inbox outbox v tx rx n recv inb outb \<longleftrightarrow> holds (t_tx v) tx \<and> holds (t_rx v) rx \<and> unat (t_rxlen v) = n \<and> t_recv v = recv
     \<and> length (t_buf v) = 255 \<and> inbox (t_env v) = inb \<and> outbox (t_env v) = outb"

text \<open>An open device whose rings have their arrays, as \<^verbatim>\<open>AM_SMC_Open\<close> leaves it.\<close>

definition smc_ring_alloc :: "smc_ring \<Rightarrow> bool" where
  "smc_ring_alloc r \<longleftrightarrow> sr_size r = SMC_BUF_SIZE \<and> (case sr_data r of None \<Rightarrow> False | Some d \<Rightarrow> length d = SMC_BUF_SIZE)"

definition smc_ready :: "int \<Rightarrow> 'e smc_state \<Rightarrow> bool" where
  "smc_ready fd st \<longleftrightarrow> length (smc_devices st) = SMC_DEV_COUNT \<and> sm_openned (smc_devices st ! 0) \<and> sm_lock (smc_devices st ! 0)
     \<and> sm_drv_data (smc_devices st ! 0) = fd \<and> smc_ring_alloc (txbuf st) \<and> smc_ring_alloc (rxbuf st)"

lemma reset_holds: "smc_ring_alloc r \<Longrightarrow> holds (ringbuffer_reset r) []"
  by (auto simp: smc_ring_alloc_def holds_def ringbuffer_reset_def as_ud_def ring_ok_def ring_content_def userdata_ring_buf_avail_def
      split: option.splits)

lemma holds_alloc: "holds r bs \<Longrightarrow> smc_ring_alloc r"
  by (auto simp: smc_ring_alloc_def holds_def as_ud_def ring_ok_def split: option.splits)

lemma smc_ready_dev: "smc_ready fd st \<Longrightarrow> smc_get_openned_dev st 0 = Inr 0"
  by (simp add: smc_ready_def smc_get_openned_dev_def smc_get_dev_def)

context smc_link
begin

abbreviation at where "at \<equiv> t0_at inbox outbox"

lemma read_byte:
  assumes "at v tx rx n recv (b # inb) outb"
  shows "\<exists>e. smc_read drv fd [t_byte v] 1 2000 (t_env v) = Some ((AM_SUCCESS, 1, [b]), e)
      \<and> at (v\<lparr>t_byte := b, t_env := e\<rparr>) tx rx n recv inb outb"
  using read_exact [of 1 "t_env v" "[t_byte v]" 2000] assms by (auto simp: t0_at_def)

lemma step_wait:
  assumes "at v tx rx n recv (0x60 # inb) outb"
  shows "\<exists>v'. t0_loop drv fd ins v = t0_loop drv fd ins v' \<and> at v' tx rx n recv inb outb"
  using read_byte [OF assms] by (subst t0_loop.simps) auto

lemma read_data:
  assumes "at v tx rx n recv (bs @ inb) outb" "length bs \<le> 255" "length rx + length bs < 1024"
  shows "\<exists>v'. t0_read_data drv fd (length bs) v = Some (AM_SUCCESS, v') \<and> at v' tx (rx @ bs) n recv inb outb"
proof -
  obtain e where e: "smc_read drv fd (t_buf v) (int (length bs)) 10000 (t_env v)
      = Some ((AM_SUCCESS, int (length bs), bs @ drop (length bs) (t_buf v)), e)" "inbox e = inb" "outbox e = outb"
    using read_exact [of "length bs" "t_env v" "t_buf v" 10000] assms(1,2) by (auto simp: t0_at_def)
  obtain k r where "ringbuffer_write (t_rx v) bs = Some (k, r)" "holds r (rx @ bs)"
    using holds_write [of "t_rx v" rx bs] assms(1,3) by (auto simp: t0_at_def)
  with e assms(1,2) show ?thesis by (auto simp: t0_read_data_def t0_at_def copy_out_def)
qed

lemma send_rest:
  assumes "at v tx rx n recv inb outb" "length tx \<le> 255"
  shows "\<exists>v'. t0_send_rest drv fd (length tx) v = Some (AM_SUCCESS, v') \<and> at v' [] rx n recv inb (outb @ tx)"
proof -
  obtain r where r: "ringbuffer_read (t_tx v) (length tx) = Some (tx, r)" "holds r []"
    using holds_read [of "t_tx v" tx "length tx"] assms(1) by (auto simp: t0_at_def)
  define buf where "buf = tx @ drop (length tx) (t_buf v)"
  have b: "copy_into (t_buf v) 0 tx = Some buf" "length buf = 255" "take (length tx) buf = tx"
    using assms by (auto simp: t0_at_def copy_into_def buf_def)
  obtain e where "smc_write drv fd buf (int (length tx)) 10000 (t_env v) = Some ((AM_SUCCESS, int (length tx)), e)"
    "inbox e = inb" "outbox e = outb @ tx"
    using write_exact [of "length tx" buf 10000 "t_env v"] assms b by (auto simp: t0_at_def)
  with r b assms(1) show ?thesis by (auto simp: t0_send_rest_def t0_at_def)
qed

lemma step_rest:
  assumes "at v [] rx n recv (t0_wire ins (Rest vpp bs) @ inb) outb" "length bs = n" "n \<le> 255" "length rx + n < 1024" "t0_ins_ok ins"
  shows "\<exists>v'. t0_loop drv fd ins v = t0_loop drv fd ins v' \<and> at v' [] (rx @ bs) n recv inb outb"
proof -
  define b where "b = (if vpp then ins XOR 0x01 else ins)"
  then have ack: "b = ins \<or> b = ins XOR 0x01" "b \<noteq> 0x60 \<and> b AND 0xF0 \<noteq> 0x60 \<and> b AND 0xF0 \<noteq> 0x90"
    using ack_rest [OF assms(5), of b] by auto
  have "at v [] rx n recv (b # bs @ inb) outb" using assms(1) by (simp add: b_def)
  from read_byte [OF this] obtain e where
    e: "smc_read drv fd [t_byte v] 1 2000 (t_env v) = Some ((AM_SUCCESS, 1, [b]), e)"
      "at (v\<lparr>t_byte := b, t_env := e\<rparr>) [] rx n recv (bs @ inb) outb" by blast
  moreover obtain v' where "t0_read_data drv fd (length bs) (v\<lparr>t_byte := b, t_env := e\<rparr>) = Some (AM_SUCCESS, v')"
    "at v' [] (rx @ bs) n recv inb outb" using read_data [OF e(2)] assms(2-4) by auto
  moreover have "unat (t_rxlen v) = length bs" "ringbuffer_avail (t_tx v) = 0"
    using assms(1,2) holds_length [of "t_tx v" "[]"] by (auto simp: t0_at_def)
  ultimately show ?thesis using ack by (subst t0_loop.simps) (auto simp: Let_def)
qed

lemma step_send:
  assumes "at v tx rx n recv (t0_wire ins (Rest vpp []) @ inb) outb" "tx \<noteq> []" "length tx \<le> 255" "t0_ins_ok ins"
  shows "\<exists>v'. t0_loop drv fd ins v = t0_loop drv fd ins v' \<and> at v' [] rx n recv inb (outb @ tx)"
proof -
  define b where "b = (if vpp then ins XOR 0x01 else ins)"
  then have ack: "b = ins \<or> b = ins XOR 0x01" "b \<noteq> 0x60 \<and> b AND 0xF0 \<noteq> 0x60 \<and> b AND 0xF0 \<noteq> 0x90"
    using ack_rest [OF assms(4), of b] by auto
  have "at v tx rx n recv (b # inb) outb" using assms(1) by (simp add: b_def)
  from read_byte [OF this] obtain e where
    e: "smc_read drv fd [t_byte v] 1 2000 (t_env v) = Some ((AM_SUCCESS, 1, [b]), e)"
      "at (v\<lparr>t_byte := b, t_env := e\<rparr>) tx rx n recv inb outb" by blast
  moreover obtain v' where "t0_send_rest drv fd (length tx) (v\<lparr>t_byte := b, t_env := e\<rparr>) = Some (AM_SUCCESS, v')"
    "at v' [] rx n recv inb (outb @ tx)" using send_rest [OF e(2)] assms(3) by auto
  moreover have "ringbuffer_avail (t_tx v) = int (length tx)"
    using assms(1) holds_length [of "t_tx v" tx] by (auto simp: t0_at_def)
  ultimately show ?thesis using ack assms(2) by (subst t0_loop.simps) (auto simp: Let_def)
qed

lemma step_single:
  assumes "at v tx rx n recv (t0_wire ins (Single vpp c) @ inb) outb" "0 < n" "length rx + 1 < 1024" "t0_ins_ok ins"
  shows "\<exists>v'. t0_loop drv fd ins v = t0_loop drv fd ins v' \<and> at v' tx (rx @ [c]) (n - 1) recv inb outb"
proof -
  define b where "b = (if vpp then ins XOR 0xfe else ins XOR 0xff)"
  then have ack: "b = ins XOR 0xff \<or> b = ins XOR 0xfe" by auto
  note others = ack_single [OF assms(4) ack]
  have "at v tx rx n recv (b # [c] @ inb) outb" using assms(1) by (simp add: b_def)
  from read_byte [OF this] obtain e where
    e: "smc_read drv fd [t_byte v] 1 2000 (t_env v) = Some ((AM_SUCCESS, 1, [b]), e)"
      "at (v\<lparr>t_byte := b, t_env := e\<rparr>) tx rx n recv ([c] @ inb) outb" by blast
  moreover obtain v' where v': "t0_read_data drv fd 1 (v\<lparr>t_byte := b, t_env := e\<rparr>) = Some (AM_SUCCESS, v')"
    "at v' tx (rx @ [c]) n recv inb outb" using read_data [OF e(2)] assms(3) by auto
  moreover have "t_rxlen v' \<noteq> 0" using v'(2) assms(2) by (auto simp: t0_at_def)
  moreover from this have "at (v'\<lparr>t_rxlen := t_rxlen v' - 1\<rparr>) tx (rx @ [c]) (n - 1) recv inb outb"
    using v'(2) assms(2) by (auto simp: t0_at_def unat_minus_one)
  ultimately show ?thesis using ack others by (subst t0_loop.simps) auto
qed

lemma step_status:
  assumes "at v tx rx n recv (sw1 # sw2 # inb) outb" "t0_sw_ok sw1" "recv \<noteq> []" "length rx + 2 < 1024"
  shows "\<exists>v'. t0_loop drv fd ins v = Some (AM_SUCCESS, v') \<and> at v' tx (rx @ [sw1, sw2]) n (sw2 # drop 1 recv) inb outb"
proof -
  obtain e where e: "smc_read drv fd [t_byte v] 1 2000 (t_env v) = Some ((AM_SUCCESS, 1, [sw1]), e)"
      "at (v\<lparr>t_byte := sw1, t_env := e\<rparr>) tx rx n recv (sw2 # inb) outb" using read_byte [OF assms(1)] by blast
  define v1 where "v1 = v\<lparr>t_byte := sw1, t_env := e\<rparr>"
  have v1: "t_byte v1 = sw1" "at v1 tx rx n recv (sw2 # inb) outb" using e(2) by (auto simp: v1_def)
  obtain k1 r1 where w1: "ringbuffer_write (t_rx v1) [sw1] = Some (k1, r1)" "holds r1 (rx @ [sw1])"
    using holds_write [of "t_rx v1" rx "[sw1]"] v1(2) assms(4) by (auto simp: t0_at_def)
  obtain k2 r2 where w2: "ringbuffer_write r1 [sw2] = Some (k2, r2)" "holds r2 (rx @ [sw1, sw2])"
    using holds_write [OF w1(2), of "[sw2]"] assms(4) by auto
  obtain e2 where e2: "smc_read drv fd recv 1 2000 (t_env v1) = Some ((AM_SUCCESS, 1, sw2 # drop 1 recv), e2)"
    "inbox e2 = inb" "outbox e2 = outb"
    using read_exact [of 1 "t_env v1" recv 2000] v1(2) assms(3) by (cases recv) (auto simp: t0_at_def)
  have "\<exists>v'. t0_status drv fd v1 = Some (AM_SUCCESS, v') \<and> at v' tx (rx @ [sw1, sw2]) n (sw2 # drop 1 recv) inb outb"
    using v1 w1 w2 e2 by (auto simp: t0_status_def t0_at_def rd_def)
  then show ?thesis using e(1) assms(2) by (subst t0_loop.simps) (auto simp: t0_sw_ok_def v1_def)
qed

subsection \<open>Whole transfers\<close>

text \<open>A conversation until the status bytes.\<close>

lemma loop_incoming:
  assumes "t0_answer n ps" "at v [] rx n recv (concat (map (t0_wire ins) ps) @ sw1 # sw2 # inb) outb"
    "n \<le> 255" "length rx + length (concat (map t0_data ps)) + 2 < 1024" "t0_ins_ok ins" "t0_sw_ok sw1" "recv \<noteq> []"
  shows "\<exists>v' n'. t0_loop drv fd ins v = Some (AM_SUCCESS, v')
      \<and> at v' [] (rx @ concat (map t0_data ps) @ [sw1, sw2]) n' (sw2 # drop 1 recv) inb outb"
  using assms(1-4)
proof (induction ps arbitrary: n v rx)
  case Nil
  then show ?case using step_status [OF _ assms(6,7), of v "[]" rx n sw2 inb outb] by fastforce
next
  case (Cons p ps)
  have "\<exists>v' n'. t0_loop drv fd ins v = t0_loop drv fd ins v' \<and> t0_answer n' ps \<and> n' \<le> 255
      \<and> at v' [] (rx @ t0_data p) n' recv (concat (map (t0_wire ins) ps) @ sw1 # sw2 # inb) outb"
  proof (cases p)
    case Wait
    then show ?thesis using step_wait [of v "[]" rx n recv "concat (map (t0_wire ins) ps) @ sw1 # sw2 # inb"] Cons.prems by force
  next
    case (Rest vpp bs)
    then show ?thesis
      using step_rest [of v rx n recv ins vpp bs "concat (map (t0_wire ins) ps) @ sw1 # sw2 # inb" outb] Cons.prems assms(5)
      by (auto simp: t0_answer_waits)
  next
    case (Single vpp c)
    then obtain v' where "t0_loop drv fd ins v = t0_loop drv fd ins v'"
      "at v' [] (rx @ [c]) (n - 1) recv (concat (map (t0_wire ins) ps) @ sw1 # sw2 # inb) outb"
      using step_single [of v "[]" rx n recv ins vpp c "concat (map (t0_wire ins) ps) @ sw1 # sw2 # inb" outb] Cons.prems assms(5)
      by auto
    with Single Cons.prems(1,3) show ?thesis by (intro exI [of _ v'] exI [of _ "n - 1"]) auto
  qed
  then obtain v' n' where "t0_loop drv fd ins v = t0_loop drv fd ins v'" "t0_answer n' ps" "n' \<le> 255"
    "at v' [] (rx @ t0_data p) n' recv (concat (map (t0_wire ins) ps) @ sw1 # sw2 # inb) outb" by blast
  with Cons.IH [of n' v' "rx @ t0_data p"] Cons.prems(4) show ?case by simp
qed

text \<open>The body of the transfer around the loop.\<close>

lemma transfer_t0:
  assumes ready: "smc_ready fd st" and small: "length data < 1019"
    and loop: "\<And>v. at v data [] (if data = [] then unat p3 else 0) recv (inbox (smc_os st)) (outbox (smc_os st) @ [cla, ins, p1, p2, p3])
      \<Longrightarrow> \<exists>v' n' tx. t0_loop drv fd ins v = Some (AM_SUCCESS, v') \<and> at v' tx bs n' recv' inb outb"
    and fits: "length bs \<le> length recv'"
  shows "\<exists>st'. AM_SMC_TransferT0 drv byte 0 ([cla, ins, p1, p2, p3] @ data) (5 + length data) recv st
        = Some ((AM_SUCCESS, Some (int (length bs)), bs @ drop (length bs) recv'), st')
      \<and> smc_ready fd st' \<and> inbox (smc_os st') = inb \<and> outbox (smc_os st') = outb"
proof -
  define header where "header = [cla, ins, p1, p2, p3]"
  then have h: "length header = 5" by simp
  obtain k tx where tx: "ringbuffer_write (ringbuffer_reset (txbuf st)) (header @ data) = Some (k, tx)" "holds tx (header @ data)"
    using holds_write [OF reset_holds, of "txbuf st" "header @ data"] ready small h by (auto simp: smc_ready_def)
  obtain tx1 where tx1: "ringbuffer_read tx 5 = Some (header, tx1)" "holds tx1 data"
    using holds_read [OF tx(2), of 5] h by auto
  define buf where "buf = header @ drop 5 (replicate 255 (0 :: byte))"
  have buf: "copy_into (replicate 255 0) 0 header = Some buf" "length buf = 255" "take 5 buf = header"
    using h by (simp_all add: copy_into_def buf_def)
  obtain e where e: "smc_write drv fd buf 5 2000 (smc_os st) = Some ((AM_SUCCESS, 5), e)" "inbox e = inbox (smc_os st)"
    "outbox e = outbox (smc_os st) @ header"
    using write_exact [of 5 buf 2000 "smc_os st"] buf by auto
  define v where "v = \<lparr>t_tx = tx1, t_rx = ringbuffer_reset (rxbuf st), t_recv = recv, t_buf = buf, t_byte = byte,
    t_rxlen = (if data = [] then p3 else 0), t_env = e\<rparr>"
  have "at v data [] (if data = [] then unat p3 else 0) recv (inbox (smc_os st)) (outbox (smc_os st) @ header)"
    using tx1 buf e ready by (simp add: t0_at_def v_def smc_ready_def reset_holds)
  from loop [OF this [unfolded header_def]] obtain v' n' tx' where
    v': "t0_loop drv fd ins v = Some (AM_SUCCESS, v')" "at v' tx' bs n' recv' inb outb" by blast
  obtain rx where "ringbuffer_read (t_rx v') (length bs) = Some (bs, rx)" "holds rx []"
    using holds_read [of "t_rx v'" bs "length bs"] v'(2) by (auto simp: t0_at_def)
  moreover have "ringbuffer_avail (t_rx v') = int (length bs)" using holds_length [of "t_rx v'" bs] v'(2) by (simp add: t0_at_def)
  moreover have "Adp_Prelude.rd (header @ data) 1 = Some ins" "Adp_Prelude.rd (header @ data) 4 = Some p3"
    "copy_out (header @ data) 0 (5 + length data) = Some (header @ data)"
    by (simp_all add: rd_def copy_out_def header_def)
  ultimately show ?thesis
    using tx tx1 buf(1) e v' ready fits unfolding header_def [symmetric]
    by (auto simp: AM_SMC_TransferT0_def smc_ready_dev v_def [symmetric] t0_at_def copy_into_def smc_ready_def dest: holds_alloc)
qed

lemma incoming:
  assumes "smc_ready fd st" "t0_ins_ok ins" "t0_sw_ok sw1" "t0_answer (unat p3) ps"
    "inbox (smc_os st) = concat (map (t0_wire ins) ps) @ sw1 # sw2 # inb" "length (concat (map t0_data ps)) + 2 \<le> length recv"
  shows "\<exists>st'. AM_SMC_TransferT0 drv byte 0 [cla, ins, p1, p2, p3] 5 recv st
        = Some ((AM_SUCCESS, Some (int (length (concat (map t0_data ps)) + 2)),
                 concat (map t0_data ps) @ [sw1, sw2] @ drop (length (concat (map t0_data ps)) + 2) recv), st')
      \<and> smc_ready fd st' \<and> inbox (smc_os st') = inb \<and> outbox (smc_os st') = outbox (smc_os st) @ [cla, ins, p1, p2, p3]"
proof -
  let ?data = "concat (map t0_data ps)"
  have n: "unat p3 \<le> 255" using unsigned_less [of p3, where 'a = nat] by simp
  have recv: "recv \<noteq> []" using assms(6) by auto
  have loop: "\<exists>v' n' tx. t0_loop drv fd ins v = Some (AM_SUCCESS, v')
      \<and> at v' tx (?data @ [sw1, sw2]) n' (sw2 # drop 1 recv) inb (outbox (smc_os st) @ [cla, ins, p1, p2, p3])"
    if start: "at v [] [] (unat p3) recv (inbox (smc_os st)) (outbox (smc_os st) @ [cla, ins, p1, p2, p3])" for v
    using loop_incoming [OF assms(4) start [unfolded assms(5)] n _ assms(2,3) recv] t0_answer_length [OF assms(4)] n by fastforce
  show ?thesis
    using transfer_t0 [OF assms(1), of "[]" p3 recv cla ins p1 p2 "?data @ [sw1, sw2]" "sw2 # drop 1 recv" inb, simplified, OF loop [simplified]] assms(6)
    by (simp add: drop_Cons')
qed

lemma waits_then_send:
  assumes "at v tx rx n recv (replicate m 0x60 @ t0_wire ins (Rest vpp []) @ inb) outb" "tx \<noteq> []" "length tx \<le> 255" "t0_ins_ok ins"
  shows "\<exists>v'. t0_loop drv fd ins v = t0_loop drv fd ins v' \<and> at v' [] rx n recv inb (outb @ tx)"
  using assms(1)
proof (induction m arbitrary: v)
  case 0
  then show ?case using step_send [OF _ assms(2-4)] by simp
next
  case (Suc m)
  then show ?case using step_wait [of v tx rx n recv _ outb ins] by fastforce
qed

text \<open>The card lets the header pass, asks for the data and answers with the status.\<close>

lemma outgoing:
  assumes "smc_ready fd st" "t0_ins_ok ins" "t0_sw_ok sw1" "data \<noteq> []" "length data \<le> 255" "2 \<le> length recv"
    "inbox (smc_os st) = replicate m1 0x60 @ t0_wire ins (Rest vpp []) @ replicate m2 0x60 @ [sw1, sw2] @ inb"
  shows "\<exists>st'. AM_SMC_TransferT0 drv byte 0 ([cla, ins, p1, p2, p3] @ data) (5 + length data) recv st
        = Some ((AM_SUCCESS, Some 2, [sw1, sw2] @ drop 2 recv), st')
      \<and> smc_ready fd st' \<and> inbox (smc_os st') = inb \<and> outbox (smc_os st') = outbox (smc_os st) @ [cla, ins, p1, p2, p3] @ data"
proof -
  have recv: "recv \<noteq> []" using assms(6) by auto
  have waits: "replicate m2 0x60 = concat (map (t0_wire ins) (replicate m2 Wait))" by (induction m2) auto
  have loop: "\<exists>v' n' tx. t0_loop drv fd ins v = Some (AM_SUCCESS, v')
      \<and> at v' tx [sw1, sw2] n' (sw2 # drop 1 recv) inb (outbox (smc_os st) @ [cla, ins, p1, p2, p3] @ data)"
    if start: "at v data [] 0 recv (inbox (smc_os st)) (outbox (smc_os st) @ [cla, ins, p1, p2, p3])" for v
  proof -
    obtain v1 where v1: "t0_loop drv fd ins v = t0_loop drv fd ins v1"
      "at v1 [] [] 0 recv (replicate m2 0x60 @ [sw1, sw2] @ inb) (outbox (smc_os st) @ [cla, ins, p1, p2, p3] @ data)"
      using waits_then_send [OF start [unfolded assms(7)] assms(4,5,2)] by auto
    have "t0_answer 0 (replicate m2 Wait)" "concat (map t0_data (replicate m2 Wait)) = []" by (induction m2) auto
    from loop_incoming [OF this(1) v1(2) [unfolded waits append.simps] _ _ assms(2,3) recv] this(2) v1(1) show ?thesis by auto
  qed
  show ?thesis
    using transfer_t0 [OF assms(1), of data p3 recv cla ins p1 p2 "[sw1, sw2]" "sw2 # drop 1 recv" inb
        "outbox (smc_os st) @ [cla, ins, p1, p2, p3] @ data"] loop assms(4-6)
    by (simp add: numeral_2_eq_2)
qed

text \<open>Blocks of T=1 and T=14: a header that ends with the length of the rest, and the rest with its check byte.\<close>

lemma block_transfer:
  assumes "length header = hlen" "0 < hlen" "length body = unat (header ! (hlen - 1)) + 1" "hlen + length body \<le> length recv"
    "inbox e = header @ body @ inb"
  shows "\<exists>e'. t1_transfer hlen drv fd send (length send) recv e
        = Some ((AM_SUCCESS, Some (int (hlen + length body)), header @ body @ drop (hlen + length body) recv), e')
      \<and> inbox e' = inb \<and> outbox e' = outbox e @ send"
proof -
  obtain e1 where e1: "smc_write drv fd send (int (length send)) 1000 e = Some ((AM_SUCCESS, int (length send)), e1)"
    "inbox e1 = header @ body @ inb" "outbox e1 = outbox e @ send"
    using write_exact [of "length send" send 1000 e] assms(5) by auto
  obtain e2 where e2: "smc_read drv fd recv (int hlen) 1000 e1 = Some ((AM_SUCCESS, int hlen, header @ drop hlen recv), e2)"
    "inbox e2 = body @ inb" "outbox e2 = outbox e @ send"
    using read_exact [of hlen e1 recv 1000] e1 assms(1,4) by auto
  have "length body \<le> length (drop hlen recv)" using assms(4) by simp
  then obtain e3 where e3: "smc_read drv fd (drop hlen recv) (int (length body)) 2000 e2
      = Some ((AM_SUCCESS, int (length body), body @ drop (length body) (drop hlen recv)), e3)"
    "inbox e3 = inb" "outbox e3 = outbox e @ send"
    using read_exact [of "length body" e2 "drop hlen recv" 2000] e2 by auto
  have "Adp_Prelude.rd (header @ xs) (hlen - 1) = Some (header ! (hlen - 1))" for xs
    using assms(1,2) by (auto simp: rd_def nth_append)
  moreover have "int (length body) = int (unat (header ! (hlen - 1))) + 1" using assms(3) by simp
  ultimately show ?thesis
    using e1(1) e2(1) e3 assms(1) by (auto simp: t1_transfer_def add.commute)
qed

end

subsection \<open>The kernel driver keeps the contract\<close>

text \<open>
  What the kernel does with the descriptor \<open>fd\<close> while the card sends \<open>inbox\<close>: a wait for input ends with data, a wait for
  room ends with room, a read brings at least one and at most the number of bytes asked for, a write takes at
  least one byte.
\<close>

definition smc_kernel_delivers :: "'e smc_host \<Rightarrow> int \<Rightarrow> ('e \<Rightarrow> byte list) \<Rightarrow> ('e \<Rightarrow> byte list) \<Rightarrow> int \<Rightarrow> bool" where
  "smc_kernel_delivers H fd inbox outbox t \<longleftrightarrow>
     (\<forall>e. \<exists>c. k_clock H e = (c, e) \<and> t \<le> c \<and> c < t + 1000)
     \<and> (\<forall>e ms n. 0 < n \<and> n \<le> length (inbox e) \<longrightarrow>
          (\<exists>e1 bs e2. k_poll H fd False ms e = (1, e1) \<and> k_read H fd (int n) e1 = (Some bs, e2) \<and> bs \<noteq> [] \<and> length bs \<le> n
             \<and> inbox e = bs @ inbox e2 \<and> outbox e2 = outbox e))
     \<and> (\<forall>e ms data. data \<noteq> [] \<longrightarrow>
          (\<exists>e1 k e2. k_poll H fd True ms e = (1, e1) \<and> k_write H fd data e1 = (int k, e2) \<and> 0 < k \<and> k \<le> length data
             \<and> outbox e2 = outbox e @ take k data \<and> inbox e2 = inbox e))"

lemma aml_smc_link:
  assumes "smc_kernel_delivers H fd inbox outbox t"
  shows "smc_link (aml_smc_drv H) fd inbox outbox t"
proof
  fix e
  show "\<exists>c. sd_clock (aml_smc_drv H) e = (c, e) \<and> t \<le> c \<and> c < t + 1000"
    using assms by (simp add: smc_kernel_delivers_def aml_smc_drv_def)
next
  fix n e ms assume n: "0 < n" "n \<le> length (inbox e)"
  from assms n have "\<exists>e1 bs e2. k_poll H fd False ms e = (1, e1) \<and> k_read H fd (int n) e1 = (Some bs, e2) \<and> bs \<noteq> [] \<and> length bs \<le> n
      \<and> inbox e = bs @ inbox e2 \<and> outbox e2 = outbox e" unfolding smc_kernel_delivers_def by blast
  then show "\<exists>bs e'. sd_read (aml_smc_drv H) fd (int n) ms e = ((AM_SUCCESS, bs, int (length bs)), e') \<and> bs \<noteq> [] \<and> length bs \<le> n
      \<and> inbox e = bs @ inbox e' \<and> outbox e' = outbox e"
    by (fastforce simp: aml_smc_drv_def smc_aml_read_def)
next
  fix data e ms assume d: "data \<noteq> ([] :: byte list)"
  from assms d have "\<exists>e1 k e2. k_poll H fd True ms e = (1, e1) \<and> k_write H fd data e1 = (int k, e2) \<and> 0 < k \<and> k \<le> length data
      \<and> outbox e2 = outbox e @ take k data \<and> inbox e2 = inbox e" unfolding smc_kernel_delivers_def by blast
  then show "\<exists>k e'. sd_write (aml_smc_drv H) fd data ms e = ((AM_SUCCESS, int k), e') \<and> 0 < k \<and> k \<le> length data
      \<and> outbox e' = outbox e @ take k data \<and> inbox e' = inbox e"
    by (fastforce simp: aml_smc_drv_def smc_aml_write_def)
qed

text \<open>A kernel that moves at most four bytes at a time.\<close>

record smc_wire =
  w_in :: "byte list"
  w_out :: "byte list"

definition wire_host :: "smc_wire smc_host" where
  "wire_host =
     \<lparr>k_open = (\<lambda>no e. (3, e)), k_close = (\<lambda>fd e. e), k_get_status = (\<lambda>fd e. (Some 1, e)), k_reset = (\<lambda>fd e. (Some [0x3b, 0], e)),
      k_poll = (\<lambda>fd out ms e. (1, e)),
      k_read = (\<lambda>fd n e. let k = min 4 (nat n) in (Some (take k (w_in e)), e\<lparr>w_in := drop k (w_in e)\<rparr>)),
      k_write = (\<lambda>fd data e. let k = min 4 (length data) in (int k, e\<lparr>w_out := w_out e @ take k data\<rparr>)),
      k_get_param = (\<lambda>fd e. (None, e)), k_set_param = (\<lambda>fd p e. (True, e)), k_active = (\<lambda>fd e. (True, e)),
      k_deactive = (\<lambda>fd e. (True, e)), k_clock = (\<lambda>e. (0, e))\<rparr>"

lemma wire_delivers: "smc_kernel_delivers wire_host fd w_in w_out 0"
  by (auto simp: smc_kernel_delivers_def wire_host_def Let_def)

interpretation wire: smc_link "aml_smc_drv wire_host" fd w_in w_out 0 for fd
  by (rule aml_smc_link [OF wire_delivers])

subsection \<open>Transfers through the kernel driver\<close>

text \<open>Opening a closed device makes it ready.\<close>

lemma open_ready:
  assumes "length (smc_devices st) = 1" "\<not> sm_openned (smc_devices st ! 0)" "length rxa = 1024" "length txa = 1024"
    "k_open H 0 (smc_os st) = (fd, e)" "fd \<noteq> -1" "thread \<longrightarrow> created"
  shows "\<exists>st'. AM_SMC_Open (aml_smc_drv H) created rxa txa 0 thread st = (AM_SUCCESS, st') \<and> smc_ready fd st' \<and> smc_os st' = e"
  using assms
  by (auto simp: AM_SMC_Open_def smc_get_dev_def aml_smc_drv_def smc_aml_open_def upd_smc_def smc_ready_def smc_ring_alloc_def
      ringbuffer_init_def Let_def)

end
