(* ===== verification/Smc_Facts.thy ===== *)
theory Smc_Facts
  imports Smc_Transfer
begin

text \<open>
  What the smart card module does for its caller: commands and answers by T=0, T=1 and T=14 through the kernel driver,
  the reports of the status thread, and the places where the module fails.
\<close>

unbundle bit_operations_syntax

subsection \<open>Commands\<close>

text \<open>
  C8: A T=0 command that asks the card for \<^verbatim>\<open>P3\<close> bytes, through the kernel driver on an open device: whatever mixture of null bytes,
  acknowledges of single bytes and of the whole rest, with or without the request for the programming voltage, the card
  chooses, in whatever portions the kernel moves the bytes, the transfer ends, the card has been sent exactly the header,
  and the caller gets the data in order followed by the two status bytes, with their exact number; the rest of
  its buffer and what the card sends later stay as they were.
\<close>

theorem t0_command_for_data:
  assumes "smc_kernel_delivers H fd inbox outbox t" "smc_ready fd st" "t0_ins_ok ins" "t0_sw_ok sw1" "t0_answer (unat p3) ps"
    and "inbox (smc_os st) = concat (map (t0_wire ins) ps) @ sw1 # sw2 # inb"
    and "length (concat (map t0_data ps)) + 2 \<le> length recv"
  shows "\<exists>st'. AM_SMC_TransferT0 (aml_smc_drv H) byte 0 [cla, ins, p1, p2, p3] 5 recv st
        = Some ((AM_SUCCESS, Some (int (length (concat (map t0_data ps)) + 2)),
                 concat (map t0_data ps) @ [sw1, sw2] @ drop (length (concat (map t0_data ps)) + 2) recv), st')
      \<and> smc_ready fd st' \<and> inbox (smc_os st') = inb \<and> outbox (smc_os st') = outbox (smc_os st) @ [cla, ins, p1, p2, p3]"
  by (rule smc_link.incoming [OF aml_smc_link [OF assms(1)] assms(2-7)])

definition wire_state :: "byte list \<Rightarrow> smc_wire smc_state" where
  "wire_state inb = \<lparr>smc_devices = [\<lparr>sm_dev_no = 0, sm_drv_data = 3, sm_openned = True, sm_enable_thread = False, sm_thread = False,
       sm_lock = True, sm_run_cb = False, sm_cb = None, sm_user_data = 0\<rparr>],
     txbuf = ringbuffer_init (replicate 1024 0) \<lparr>sr_data = None, sr_size = 0, sr_pread = 0, sr_pwrite = 0, sr_error = 0\<rparr>,
     rxbuf = ringbuffer_init (replicate 1024 0) \<lparr>sr_data = None, sr_size = 0, sr_pread = 0, sr_pwrite = 0, sr_error = 0\<rparr>,
     smc_os = \<lparr>w_in = inb, w_out = []\<rparr>\<rparr>"

lemma wire_state_ready: "smc_ready 3 (wire_state inb)"
  by (simp add: smc_ready_def wire_state_def smc_ring_alloc_def ringbuffer_init_def)

lemma wire_state_boxes [simp]: "w_in (smc_os (wire_state inb)) = inb" "w_out (smc_os (wire_state inb)) = []"
  by (simp_all add: wire_state_def)

theorem t0_command_for_data_witness:
  "\<exists>st'. AM_SMC_TransferT0 (aml_smc_drv wire_host) 0 0 [0, 0xb0, 0, 0, 3] 5 (replicate 6 0) (wire_state [0x60, 0x4f, 7, 0xb0, 8, 9, 0x90, 0])
        = Some ((AM_SUCCESS, Some 5, [7, 8, 9, 0x90, 0, 0]), st')
      \<and> smc_ready 3 st' \<and> w_in (smc_os st') = [] \<and> w_out (smc_os st') = [0, 0xb0, 0, 0, 3]"
  using t0_command_for_data [OF wire_delivers wire_state_ready, of "0xb0" "0x90" 3 "[Wait, Single False 7, Rest False [8, 9]]"
      "[0x60, 0x4f, 7, 0xb0, 8, 9, 0x90, 0]" 0 "[]" "replicate 6 0" 0 0 0 0]
  by (simp add: t0_ins_ok_def t0_sw_ok_def)

text \<open>
  C9: A T=0 command with one to 255 bytes of data for the card: after any number of null bytes and the acknowledge of the card the
  module sends exactly the data, after the header and nothing else, and gives the two status bytes to the caller.
\<close>

theorem t0_command_with_data:
  assumes "smc_kernel_delivers H fd inbox outbox t" "smc_ready fd st" "t0_ins_ok ins" "t0_sw_ok sw1"
    and "data \<noteq> []" "length data \<le> 255" "2 \<le> length recv"
    and "inbox (smc_os st) = replicate m1 0x60 @ t0_wire ins (Rest vpp []) @ replicate m2 0x60 @ [sw1, sw2] @ inb"
  shows "\<exists>st'. AM_SMC_TransferT0 (aml_smc_drv H) byte 0 ([cla, ins, p1, p2, p3] @ data) (5 + length data) recv st
        = Some ((AM_SUCCESS, Some 2, [sw1, sw2] @ drop 2 recv), st')
      \<and> smc_ready fd st' \<and> inbox (smc_os st') = inb
      \<and> outbox (smc_os st') = outbox (smc_os st) @ [cla, ins, p1, p2, p3] @ data"
  by (rule smc_link.outgoing [OF aml_smc_link [OF assms(1)] assms(2-8)])

theorem t0_command_with_data_witness:
  "\<exists>st'. AM_SMC_TransferT0 (aml_smc_drv wire_host) 0 0 ([0, 0xd6, 0, 0, 6] @ [1, 2, 3, 4, 5, 6]) (5 + length [1, 2, 3, 4, 5, 6 :: byte]) [0, 0]
          (wire_state [0x60, 0xd7, 0x90, 0])
        = Some ((AM_SUCCESS, Some 2, [0x90, 0]), st')
      \<and> smc_ready 3 st' \<and> w_in (smc_os st') = [] \<and> w_out (smc_os st') = [0, 0xd6, 0, 0, 6, 1, 2, 3, 4, 5, 6]"
  using t0_command_with_data [OF wire_delivers wire_state_ready, of "0xd6" "0x90" "[1, 2, 3, 4, 5, 6]" "[0, 0]"
      "[0x60, 0xd7, 0x90, 0]" 1 True 0 0 "[]" 0 0 0 0 6]
  by (simp add: t0_ins_ok_def t0_sw_ok_def)

text \<open>
  A block of T=1, through the kernel driver on an open device: the card is sent exactly the caller's block, and the caller gets exactly the
  card's block, three bytes of prologue, the bytes that the third byte announces and the check byte, with its
  length. The result of T=14 is the same with a prologue of eight bytes.
\<close>

theorem block_transfer_exact:
  assumes "smc_kernel_delivers H fd inbox outbox t" "smc_ready fd st"
    and "inbox (smc_os st) = header @ body @ inb" "length header + length body \<le> length recv"
    and "length body = unat (header ! (length header - 1)) + 1"
    and "(length header = 3 \<and> transfer = AM_SMC_TransferT1) \<or> (length header = 8 \<and> transfer = AM_SMC_TransferT14)"
  shows "\<exists>st'. transfer (aml_smc_drv H) 0 send (length send) recv st
        = Some ((AM_SUCCESS, Some (int (length header + length body)), header @ body @ drop (length header + length body) recv), st')
      \<and> smc_ready fd st' \<and> inbox (smc_os st') = inb \<and> outbox (smc_os st') = outbox (smc_os st) @ send"
proof -
  have "0 < length header" using assms(6) by auto
  then obtain e' where e': "t1_transfer (length header) (aml_smc_drv H) fd send (length send) recv (smc_os st)
      = Some ((AM_SUCCESS, Some (int (length header + length body)), header @ body @ drop (length header + length body) recv), e')"
    "inbox e' = inb" "outbox e' = outbox (smc_os st) @ send"
    using smc_link.block_transfer [OF aml_smc_link [OF assms(1)] refl _ assms(5,4,3)] by blast
  have "smc_ready fd (st\<lparr>smc_os := e'\<rparr>)" using assms(2) by (simp add: smc_ready_def)
  then show ?thesis using assms(2,6) e'
    by (auto simp: AM_SMC_TransferT1_def AM_SMC_TransferT14_def with_smc_def smc_ready_dev smc_ready_def)
qed

theorem block_transfer_exact_witness:
  "\<exists>st'. AM_SMC_TransferT1 (aml_smc_drv wire_host) 0 [0, 0xc1, 1, 0xfe, 0x3e] 5 (replicate 8 0) (wire_state [0, 0xe1, 1, 0xfe, 0x1e, 0x99])
        = Some ((AM_SUCCESS, Some 5, [0, 0xe1, 1, 0xfe, 0x1e, 0, 0, 0]), st')
      \<and> smc_ready 3 st' \<and> w_in (smc_os st') = [0x99] \<and> w_out (smc_os st') = [0, 0xc1, 1, 0xfe, 0x3e]"
  using block_transfer_exact [OF wire_delivers wire_state_ready, of "[0, 0xe1, 1, 0xfe, 0x1e, 0x99]" "[0, 0xe1, 1]" "[0xfe, 0x1e]" "[0x99]"
      "replicate 8 0" AM_SMC_TransferT1 "[0, 0xc1, 1, 0xfe, 0x3e]"]
  by (simp add: numeral_eq_Suc)

subsection \<open>The status thread\<close>

text \<open>The statuses that \<open>n\<close> calls of the driver report, and the calls that the thread makes for one of them.\<close>

fun smc_statuses :: "(int \<Rightarrow> 'e \<Rightarrow> (errcode \<times> int option) \<times> 'e) \<Rightarrow> int \<Rightarrow> nat \<Rightarrow> 'e \<Rightarrow> (int list \<times> 'e) option" where
  "smc_statuses f fd 0 e = Some ([], e)"
| "smc_statuses f fd (Suc n) e =
     (case f fd e of
        ((_, None), e1) \<Rightarrow> None
      | ((_, Some s), e1) \<Rightarrow> map_option (map_prod ((#) s) (\<lambda>e. e)) (smc_statuses f fd n e1))"

definition status_report :: "AM_SMC_Device \<Rightarrow> int \<Rightarrow> smc_call list" where
  "status_report dev s =
     (case sm_cb dev of None \<Rightarrow> [] | Some cb \<Rightarrow> [StatusCb cb (sm_dev_no dev) s (sm_user_data dev)])
       @ [CardEvent (sm_dev_no dev) (s \<noteq> AM_SMC_CARD_OUT)]"

text \<open>A status other than the one before is reported.\<close>

fun status_changes :: "int \<Rightarrow> int list \<Rightarrow> int list" where
  "status_changes old [] = []"
| "status_changes old (s # ss) = (if s = old then status_changes old ss else s # status_changes s ss)"

lemma status_changes_remdups: "status_changes old ss = tl (remdups_adj (old # ss))"
  by (induction old ss rule: status_changes.induct) auto

lemma upd_smc_run_cb:
  "length (smc_devices st) = 1 \<Longrightarrow> \<not> sm_run_cb (smc_devices st ! 0)
    \<Longrightarrow> smc_status_done 0 (upd_smc 0 (\<lambda>dev. dev\<lparr>sm_run_cb := True\<rparr>) (st\<lparr>smc_os := e\<rparr>)) = st\<lparr>smc_os := e\<rparr>"
  by (cases st; cases "smc_devices st") (auto simp: smc_status_done_def upd_smc_def)

text \<open>
  C16: While the driver can read the status, the status thread of an open device reports every change of the status once, in order,
  first the status found at the start, by the callback with the user data and by an event with the device number, and
  reports nothing else; afterwards the device is as before, so that a waiting \<^verbatim>\<open>AM_SMC_SetCallback\<close> goes on.
\<close>

theorem status_thread_reports_changes:
  assumes "sd_get_status drv = Some f" "length (smc_devices st) = 1" "sm_lock (smc_devices st ! 0)" "\<not> sm_run_cb (smc_devices st ! 0)"
    and "smc_statuses f (sm_drv_data (smc_devices st ! 0)) (length js) (smc_os st) = Some (ss, e)"
  shows "smc_status_turns drv 0 js old st
      = Some ((last (old # ss), concat (map (status_report (smc_devices st ! 0)) (tl (remdups_adj (old # ss))))), st\<lparr>smc_os := e\<rparr>)"
  using assms unfolding status_changes_remdups [symmetric]
proof (induction js arbitrary: old st ss)
  case Nil
  then show ?case by simp
next
  case (Cons j js)
  let ?dev = "smc_devices st ! 0"
  obtain r s e1 ss1 where f: "f (sm_drv_data ?dev) (smc_os st) = ((r, Some s), e1)" "ss = s # ss1"
    "smc_statuses f (sm_drv_data ?dev) (length js) e1 = Some (ss1, e)"
    using Cons.prems(5) by (auto split: prod.splits option.splits)
  have ih: "smc_status_turns drv 0 js s (st\<lparr>smc_os := e1\<rparr>)
      = Some ((last (s # ss1), concat (map (status_report ?dev) (status_changes s ss1))), st\<lparr>smc_os := e\<rparr>)"
    using Cons.IH [of "st\<lparr>smc_os := e1\<rparr>" ss1 s] Cons.prems(1-4) f(3) by simp
  have "smc_status_check drv 0 j old st = Some ((s, if s = old then [] else status_report ?dev s),
      (if s = old then (\<lambda>x. x) else upd_smc 0 (\<lambda>dev. dev\<lparr>sm_run_cb := True\<rparr>)) (st\<lparr>smc_os := e1\<rparr>))"
    using f(1) Cons.prems(1-4) by (simp add: smc_status_check_def status_report_def Let_def split: option.split)
  then show ?case using ih f(2) Cons.prems(2,4) by (cases "s = old") (simp_all add: upd_smc_run_cb)
qed

definition card_host :: "int list smc_host" where
  "card_host =
     \<lparr>k_open = (\<lambda>no e. (3, e)), k_close = (\<lambda>fd e. e), k_get_status = (\<lambda>fd e. (Some (hd e), tl e)), k_reset = (\<lambda>fd e. (None, e)),
      k_poll = (\<lambda>fd out ms e. (0, e)), k_read = (\<lambda>fd n e. (None, e)), k_write = (\<lambda>fd data e. (-1, e)),
      k_get_param = (\<lambda>fd e. (None, e)), k_set_param = (\<lambda>fd p e. (False, e)), k_active = (\<lambda>fd e. (False, e)),
      k_deactive = (\<lambda>fd e. (False, e)), k_clock = (\<lambda>e. (0, e))\<rparr>"

definition card_state :: "int list smc_state" where
  "card_state = \<lparr>smc_devices = [\<lparr>sm_dev_no = 0, sm_drv_data = 3, sm_openned = True, sm_enable_thread = True, sm_thread = True,
       sm_lock = True, sm_run_cb = False, sm_cb = Some 7, sm_user_data = 9\<rparr>],
     txbuf = ringbuffer_init (replicate 1024 0) \<lparr>sr_data = None, sr_size = 0, sr_pread = 0, sr_pwrite = 0, sr_error = 0\<rparr>,
     rxbuf = ringbuffer_init (replicate 1024 0) \<lparr>sr_data = None, sr_size = 0, sr_pread = 0, sr_pwrite = 0, sr_error = 0\<rparr>,
     smc_os = [0, 1, 1, 0]\<rparr>"

theorem status_thread_reports_changes_witness:
  "smc_status_turns (aml_smc_drv card_host) 0 [5, 6, 7, 8] (-1) card_state
     = Some ((0, [StatusCb 7 0 0 9, CardEvent 0 False, StatusCb 7 0 1 9, CardEvent 0 True, StatusCb 7 0 0 9, CardEvent 0 False]),
             card_state\<lparr>smc_os := []\<rparr>)"
  using status_thread_reports_changes [of "aml_smc_drv card_host" "smc_aml_get_status card_host" card_state "[5, 6, 7, 8]" "[0, 1, 1, 0]" "[]" "-1"]
  by (simp add: aml_smc_drv_def card_state_def smc_aml_get_status_def card_host_def status_report_def)

subsection \<open>Failures\<close>

text \<open>
  When the card does not answer, \<^verbatim>\<open>AM_SMC_ReadEx\<close> through the kernel driver returns the code for a timeout, and yet reports as the number
  of bytes read all that were asked for, although the caller's buffer is untouched: the driver leaves the length as it
  was, and the loop takes only negative codes for errors, which the module does not have.
\<close>

theorem timeout_counts_all_bytes:
  assumes "smc_ready fd st" "\<And>ms e. k_poll H fd False ms e = (0, e)" "\<And>e. \<exists>c. k_clock H e = (c, e)" "0 < len"
  shows "AM_SMC_ReadEx (aml_smc_drv H) 0 data len timeout st = Some ((AM_SMC_ERR_TIMEOUT, Some len, data), st)"
proof -
  have drv: "sd_read (aml_smc_drv H) fd n ms e = ((AM_SMC_ERR_TIMEOUT, [], n), e)" "sd_clock (aml_smc_drv H) = k_clock H" for n ms e
    using assms(2) by (simp_all add: aml_smc_drv_def smc_aml_read_def)
  have "smc_read_loop (aml_smc_drv H) fd timeout until now len 0 AM_SUCCESS data e = Some ((AM_SMC_ERR_TIMEOUT, len, data), e)" for until now e
  proof -
    obtain c where "k_clock H e = (c, e)" using assms(3) by blast
    moreover have "smc_read_loop (aml_smc_drv H) fd timeout until n 0 len AM_SMC_ERR_TIMEOUT data e = Some ((AM_SMC_ERR_TIMEOUT, len, data), e)" for n
      by (subst smc_read_loop.simps) simp
    moreover have "\<not> AM_SMC_ERR_TIMEOUT < 0" by (simp add: err_code)
    ultimately show ?thesis using assms(4) by (subst smc_read_loop.simps) (simp add: drv copy_into_def)
  qed
  moreover obtain c where "k_clock H (smc_os st) = (c, smc_os st)" using assms(3) by blast
  ultimately have "smc_read (aml_smc_drv H) fd data len timeout (smc_os st) = Some ((AM_SMC_ERR_TIMEOUT, len, data), smc_os st)"
    by (simp add: smc_read_def drv)
  then show ?thesis using assms(1) by (simp add: AM_SMC_ReadEx_def with_smc_def smc_ready_dev) (simp add: smc_ready_def)
qed

theorem timeout_counts_all_bytes_witness:
  "AM_SMC_ReadEx (aml_smc_drv card_host) 0 [0, 0] 2 100 card_state = Some ((AM_SMC_ERR_TIMEOUT, Some 2, [0, 0]), card_state)"
  by (rule timeout_counts_all_bytes [of 3])
    (simp_all add: smc_ready_def card_state_def card_host_def smc_ring_alloc_def ringbuffer_init_def)

text \<open>
  When the status thread cannot be created, \<^verbatim>\<open>AM_SMC_Open\<close> closes the driver and destroys the lock, but leaves the device marked as open:
  every later \<^verbatim>\<open>AM_SMC_Open\<close> fails with \<^verbatim>\<open>AM_SMC_ERR_BUSY\<close>, \<^verbatim>\<open>AM_SMC_Close\<close> joins a thread that does not exist, and
  a transfer takes the destroyed lock.
\<close>

theorem failed_thread_blocks_device:
  assumes "length (smc_devices st) = 1" "\<not> sm_openned (smc_devices st ! 0)" "\<not> sm_thread (smc_devices st ! 0)"
    and "k_open H 0 (smc_os st) = (fd, e)" "fd \<noteq> -1"
  shows "\<exists>st'. AM_SMC_Open (aml_smc_drv H) False rxa txa 0 True st = (AM_SMC_ERR_CANNOT_CREATE_THREAD, st')
      \<and> smc_os st' = k_close H fd e
      \<and> AM_SMC_Open (aml_smc_drv H) created rxa txa 0 thread st' = (AM_SMC_ERR_BUSY, st')
      \<and> AM_SMC_Close (aml_smc_drv H) 0 st' = None
      \<and> AM_SMC_TransferT1 (aml_smc_drv H) 0 send slen recv st' = None"
  using assms
  by (auto simp: AM_SMC_Open_def smc_get_dev_def aml_smc_drv_def smc_aml_open_def smc_aml_close_def upd_smc_def AM_SMC_Close_def
      AM_SMC_TransferT1_def with_smc_def smc_get_openned_dev_def Let_def)

theorem failed_thread_blocks_device_witness:
  "\<exists>st'. AM_SMC_Open (aml_smc_drv card_host) False [] [] 0 True
          (upd_smc 0 (\<lambda>dev. dev\<lparr>sm_openned := False, sm_thread := False\<rparr>) card_state) = (AM_SMC_ERR_CANNOT_CREATE_THREAD, st')
      \<and> smc_os st' = [0, 1, 1, 0]
      \<and> AM_SMC_Open (aml_smc_drv card_host) True [] [] 0 True st' = (AM_SMC_ERR_BUSY, st')
      \<and> AM_SMC_Close (aml_smc_drv card_host) 0 st' = None
      \<and> AM_SMC_TransferT1 (aml_smc_drv card_host) 0 [1] 1 [] st' = None"
  using failed_thread_blocks_device [of "upd_smc 0 (\<lambda>dev. dev\<lparr>sm_openned := False, sm_thread := False\<rparr>) card_state" card_host 3 "[0, 1, 1, 0]" "[]" "[]"
      True True "[1]" 1 "[]"]
  by (simp add: card_state_def card_host_def upd_smc_def)

text \<open>
  Before the first \<^verbatim>\<open>AM_SMC_Open\<close> a transfer by T=0 writes through a null pointer, where T=1 returns an error: the command is stored
  in the ring before the device is looked up.
\<close>

theorem t0_before_open_undefined:
  assumes "sr_data (txbuf st) = None"
  shows "AM_SMC_TransferT0 drv byte dev_no send slen recv st = None"
proof -
  have "ringbuffer_write (ringbuffer_reset (txbuf st)) src = None" for src
    using assms by (simp add: ringbuffer_write_def ringbuffer_reset_def)
  then show ?thesis by (simp add: AM_SMC_TransferT0_def split: Option.bind_split)
qed

text \<open>
  The status thread ignores the result of the driver: when the status cannot be read, it reports a card in or out by the content of an
  uninitialised variable.
\<close>

theorem unreadable_status_reported:
  assumes "length (smc_devices st) = 1" "sm_lock (smc_devices st ! 0)" "\<And>e. k_get_status H (sm_drv_data (smc_devices st ! 0)) e = (None, e)"
    and "junk \<noteq> old"
  shows "\<exists>st'. smc_status_check (aml_smc_drv H) 0 junk old st = Some ((junk, status_report (smc_devices st ! 0) junk), st')"
  using assms by (auto simp: smc_status_check_def status_report_def aml_smc_drv_def smc_aml_get_status_def Let_def split: option.split)

end
