(* ===== verification/Am_Ad.thy ===== *)
theory Am_Ad
  imports Dvr_Recorder Am_Pes
begin

text \<open>
  Audio description, \<^verbatim>\<open>dvb/am_adp/am_ad/am_ad.c\<close>: a client of the demux layer and of the PES parser. Each object has
  a filter of a demux device whose data goes to a parser, and the packets of the parser go to the callback of the
  application. The objects live in a heap, because the demux layer and the parser keep pointers to them; using an
  object that was freed is undefined. The dump of the data to files is left out.

  The calls into the demux layer are those of \<open>dmx_api\<close> and of the record \<open>dmx_session\<close>; \<open>adp_dmx_session\<close> is the
  demux layer of this development with its two drivers.
\<close>

definition AM_AD_ERR_INVALID_PARAM :: errcode where "AM_AD_ERR_INVALID_PARAM = AM_ERROR_BASE 33 + 1"
definition AM_AD_ERR_INVALID_HANDLE :: errcode where "AM_AD_ERR_INVALID_HANDLE = AM_ERROR_BASE 33 + 2"
definition AM_AD_ERR_NO_MEM :: errcode where "AM_AD_ERR_NO_MEM = AM_ERROR_BASE 33 + 6"

lemmas ad_codes [err_code, simp] = AM_AD_ERR_INVALID_PARAM_def AM_AD_ERR_INVALID_HANDLE_def AM_AD_ERR_NO_MEM_def

record 'm dmx_session =
  ses_open :: "int \<Rightarrow> AM_DMX_OpenPara \<Rightarrow> 'm \<Rightarrow> (errcode \<times> 'm) option"
  ses_close :: "int \<Rightarrow> 'm \<Rightarrow> (errcode \<times> 'm) option"
  ses_set_cb :: "int \<Rightarrow> int \<Rightarrow> ptr option \<Rightarrow> ptr \<Rightarrow> 'm \<Rightarrow> (errcode \<times> 'm) option"

definition adp_dmx_session :: "'k kernel \<Rightarrow> bool \<Rightarrow> 'k dmx_priv dmx_devices dmx_session" where
  "adp_dmx_session K thr = \<lparr>ses_open = AM_DMX_Open (linux_dvb_dmx_drv K) (dvr_dmx_drv K) thr, ses_close = AM_DMX_Close,
     ses_set_cb = AM_DMX_SetCallback\<rparr>"

record AM_AD_Para =
  ad_dmx_id :: int
  ad_pid :: int

text \<open>The field \<^verbatim>\<open>cb\<close> is not initialised by \<^verbatim>\<open>AM_AD_Create\<close>; \<open>user\<close> is only read together with it.\<close>

datatype ad_cb = CbUnset | CbNull | Cb ptr

record AM_AD_Data =
  ad_para :: AM_AD_Para
  ad_filter :: int
  ad_h_pes :: "ptr AM_PES_Parser option"
  ad_callback_fn :: ad_cb
  ad_user :: ptr

type_synonym ad_heap = "ptr \<rightharpoonup> AM_AD_Data"

text \<open>A call of the application: function, data, length, user data.\<close>

type_synonym ad_call = "ptr \<times> byte list \<times> int \<times> ptr"

subsection \<open>Creating and destroying\<close>

text \<open>The label \<^verbatim>\<open>error\<close>, once the device is open.\<close>

definition ad_error :: "'m dmx_api \<Rightarrow> 'm dmx_session \<Rightarrow> int \<Rightarrow> int \<Rightarrow> 'm \<Rightarrow> 'm option" where
  "ad_error api ses dmx fil m =
     do { m1 \<leftarrow> (if fil \<noteq> -1 then map_option snd (api_free api dmx fil m) else Some m);
          map_option snd (ses_close ses dmx m1) }"

text \<open>
  \<open>fn\<close> is the address of \<^verbatim>\<open>ad_callback\<close>, \<open>mem\<close> the result of \<^verbatim>\<open>malloc\<close> for the object, \<open>pmem\<close> says whether the parser gets memory. The
  result is the code and \<^verbatim>\<open>*handle\<close>.
\<close>

definition AM_AD_Create :: "'m dmx_api \<Rightarrow> 'm dmx_session \<Rightarrow> ptr \<Rightarrow> ptr option \<Rightarrow> bool \<Rightarrow> AM_AD_Para option \<Rightarrow> ad_heap \<Rightarrow> 'm
    \<Rightarrow> ((errcode \<times> ptr option) \<times> ad_heap \<times> 'm) option" where
  "AM_AD_Create api ses fn mem pmem para hp m =
     (case para of
        None \<Rightarrow> Some ((AM_AD_ERR_INVALID_PARAM, None), hp, m)
      | Some p \<Rightarrow>
         (case mem of
            None \<Rightarrow> Some ((AM_AD_ERR_NO_MEM, None), hp, m)
          | Some ad \<Rightarrow>
              do { (r1, m1) \<leftarrow> ses_open ses (ad_dmx_id p) \<lparr>use_sw_filter = False, dvr_fifo_no = 0, dvr_buf_size = 0\<rparr> m;
                   if r1 \<noteq> AM_SUCCESS then Some ((r1, None), hp, m1)
                   else do { ((r2, h), m2) \<leftarrow> api_alloc api (ad_dmx_id p) m1;
                             let fil = (case h of None \<Rightarrow> -1 | Some x \<Rightarrow> int x);
                             let fail = (\<lambda>r m. map_option (\<lambda>m'. ((r, None), hp, m')) (ad_error api ses (ad_dmx_id p) fil m));
                             if r2 \<noteq> AM_SUCCESS then fail r2 m2
                             else do { (r3, m3) \<leftarrow> api_set_pes api (ad_dmx_id p) fil
                                          \<lparr>pes_pid = ad_pid p, pes_input = DMX_IN_FRONTEND, pes_output = DMX_OUT_TAP, pes_type = DMX_PES_OTHER\<rparr> m2;
                                       if r3 \<noteq> AM_SUCCESS then fail r3 m3
                                       else do { (r4, m4) \<leftarrow> ses_set_cb ses (ad_dmx_id p) fil (Some fn) ad m3;
                                                 if r4 \<noteq> AM_SUCCESS then fail r4 m4
                                                 else (case AM_PES_Create pmem (Some \<lparr>packet = True, payload_only = True, pes_user_data = ad\<rparr>) of
                                                         (r5, pes) \<Rightarrow>
                                                           if r5 \<noteq> AM_SUCCESS then fail r5 m4
                                                           else Some ((AM_SUCCESS, Some ad),
                                                                  hp(ad \<mapsto> \<lparr>ad_para = p, ad_filter = fil, ad_h_pes = pes,
                                                                              ad_callback_fn = CbUnset, ad_user = 0\<rparr>), m4)) } } } }))"

text \<open>A handle is \<open>None\<close> when it is null. The results of the calls are ignored; the parser is freed with the object.\<close>

definition AM_AD_Destroy :: "'m dmx_api \<Rightarrow> 'm dmx_session \<Rightarrow> ptr option \<Rightarrow> ad_heap \<Rightarrow> 'm \<Rightarrow> (errcode \<times> ad_heap \<times> 'm) option" where
  "AM_AD_Destroy api ses handle hp m =
     (case handle of
        None \<Rightarrow> Some (AM_AD_ERR_INVALID_HANDLE, hp, m)
      | Some a \<Rightarrow>
          do { ad \<leftarrow> hp a;
               (_, m1) \<leftarrow> api_free api (ad_dmx_id (ad_para ad)) (ad_filter ad) m;
               (_, m2) \<leftarrow> ses_close ses (ad_dmx_id (ad_para ad)) m1;
               Some (AM_SUCCESS, hp(a := None), m2) })"

definition AM_AD_Start :: "'m dmx_api \<Rightarrow> ptr option \<Rightarrow> ad_heap \<Rightarrow> 'm \<Rightarrow> (errcode \<times> 'm) option" where
  "AM_AD_Start api handle hp m =
     (case handle of
        None \<Rightarrow> Some (AM_AD_ERR_INVALID_HANDLE, m)
      | Some a \<Rightarrow> do { ad \<leftarrow> hp a; (_, m1) \<leftarrow> api_start api (ad_dmx_id (ad_para ad)) (ad_filter ad) m; Some (AM_SUCCESS, m1) })"

definition AM_AD_Stop :: "'m dmx_api \<Rightarrow> ptr option \<Rightarrow> ad_heap \<Rightarrow> 'm \<Rightarrow> (errcode \<times> 'm) option" where
  "AM_AD_Stop api handle hp m =
     (case handle of
        None \<Rightarrow> Some (AM_AD_ERR_INVALID_HANDLE, m)
      | Some a \<Rightarrow> do { ad \<leftarrow> hp a; (_, m1) \<leftarrow> api_stop api (ad_dmx_id (ad_para ad)) (ad_filter ad) m; Some (AM_SUCCESS, m1) })"

definition AM_AD_SetVolume :: "ptr option \<Rightarrow> int \<Rightarrow> errcode" where
  "AM_AD_SetVolume handle vol = (case handle of None \<Rightarrow> AM_AD_ERR_INVALID_HANDLE | Some a \<Rightarrow> AM_SUCCESS)"

text \<open>\<^verbatim>\<open>AM_AD_SetCallback\<close> does not check the handle.\<close>

definition AM_AD_SetCallback :: "ptr option \<Rightarrow> ptr option \<Rightarrow> ptr \<Rightarrow> ad_heap \<Rightarrow> (errcode \<times> ad_heap) option" where
  "AM_AD_SetCallback handle cb user hp =
     do { a \<leftarrow> handle;
          ad \<leftarrow> hp a;
          Some (AM_SUCCESS, hp(a \<mapsto> ad\<lparr>ad_callback_fn := (case cb of None \<Rightarrow> CbNull | Some f \<Rightarrow> Cb f), ad_user := user\<rparr>)) }"

subsection \<open>Data\<close>

text \<open>One packet of the parser \<open>h\<close>. An uninitialised function pointer may be anything.\<close>

definition pes_packet_callback :: "ad_heap \<Rightarrow> ptr AM_PES_Parser option \<Rightarrow> pes_call \<Rightarrow> ad_call list option" where
  "pes_packet_callback hp h call =
     (case AM_PES_GetUserData h of
        None \<Rightarrow> Some []
      | Some a \<Rightarrow>
          do { ad \<leftarrow> hp a;
               (case ad_callback_fn ad of
                  CbUnset \<Rightarrow> None
                | CbNull \<Rightarrow> Some []
                | Cb f \<Rightarrow> Some [(f, fst call, snd call, ad_user ad)]) })"

fun pes_packet_callbacks :: "ad_heap \<Rightarrow> ptr AM_PES_Parser option \<Rightarrow> pes_call list \<Rightarrow> ad_call list option" where
  "pes_packet_callbacks hp h [] = Some []"
| "pes_packet_callbacks hp h (c # cs) =
     do { xs \<leftarrow> pes_packet_callback hp h c; ys \<leftarrow> pes_packet_callbacks hp h cs; Some (xs @ ys) }"

text \<open>\<^verbatim>\<open>ad_callback\<close> for the object \<open>a\<close>; a null pointer for the data is refused by the parser like an empty chunk.\<close>

definition ad_callback :: "bool \<Rightarrow> byte list option \<Rightarrow> ptr \<Rightarrow> ad_heap \<Rightarrow> (ad_call list \<times> ad_heap) option" where
  "ad_callback mem data a hp =
     do { ad \<leftarrow> hp a;
          (_, h, calls) \<leftarrow> AM_PES_Decode mem (case data of None \<Rightarrow> [] | Some d \<Rightarrow> d) (ad_h_pes ad);
          xs \<leftarrow> pes_packet_callbacks hp (ad_h_pes ad) calls;
          Some (xs, hp(a \<mapsto> ad\<lparr>ad_h_pes := h\<rparr>)) }"

text \<open>The calls that the demux layer makes, of which those of \<^verbatim>\<open>ad_callback\<close> concern this module.\<close>

fun ad_dispatch :: "ptr \<Rightarrow> dmx_call list \<Rightarrow> ad_heap \<Rightarrow> (ad_call list \<times> ad_heap) option" where
  "ad_dispatch fn [] hp = Some ([], hp)"
| "ad_dispatch fn ((cb, dev, fil, data, len, user) # cs) hp =
     do { (xs, hp1) \<leftarrow> (if cb = fn then ad_callback True data user hp else Some ([], hp));
          (ys, hp2) \<leftarrow> ad_dispatch fn cs hp1;
          Some (xs @ ys, hp2) }"

end
