(* ===== verification/Ad_Facts.thy ===== *)
theory Ad_Facts
  imports Am_Ad
begin

text \<open>
  Audio description over the demux layer: objects take one filter and one opening of their device and return both on
  every path, the payload of a stream reaches the application, and where the module fails. The contract \<open>demux_session\<close>
  extends that of the recorder by opening, closing and setting callbacks.
\<close>

subsection \<open>What the module relies on\<close>

locale demux_session = demux_filters api minv held
  for api :: "'m dmx_api" and minv :: "'m \<Rightarrow> bool" and held :: "'m \<Rightarrow> int \<Rightarrow> nat set" +
  fixes ses :: "'m dmx_session"
    and openings :: "'m \<Rightarrow> int \<Rightarrow> int"
  assumes open_law: "minv m \<Longrightarrow> \<exists>r m'. ses_open ses n para m = Some (r, m') \<and> minv m' \<and> held m' n = held m n \<and>
      openings m' n = openings m n + (if r = AM_SUCCESS then 1 else 0)"
    and close_law: "minv m \<Longrightarrow> 0 < openings m n \<Longrightarrow> \<exists>m'. ses_close ses n m = Some (AM_SUCCESS, m') \<and> minv m' \<and>
      openings m' n = openings m n - 1 \<and> held m' n = (if openings m n = 1 then {} else held m n)"
    and set_cb_law: "minv m \<Longrightarrow> x \<in> held m n \<Longrightarrow>
      \<exists>m'. ses_set_cb ses n (int x) cb u m = Some (AM_SUCCESS, m') \<and> minv m' \<and> held m' n = held m n \<and> openings m' n = openings m n"
    and alloc_openings: "minv m \<Longrightarrow> api_alloc api n m = Some (rh, m') \<Longrightarrow> openings m' n = openings m n"
    and alloc_fail: "minv m \<Longrightarrow> api_alloc api n m = Some ((r, Some x), m') \<Longrightarrow> r = AM_SUCCESS"
    and set_pes_openings: "minv m \<Longrightarrow> api_set_pes api n h p m = Some (r, m') \<Longrightarrow> openings m' n = openings m n"
    and free_openings: "minv m \<Longrightarrow> api_free api n h m = Some (r, m') \<Longrightarrow> openings m' n = openings m n"
    and closed_empty: "minv m \<Longrightarrow> openings m n \<le> 0 \<Longrightarrow> held m n = {}"
    and openings_nonneg: "minv m \<Longrightarrow> 0 \<le> openings m n"
begin

text \<open>The error path returns what was taken.\<close>

lemma error_returns:
  assumes "minv m" "0 < openings m n" "fil = -1 \<and> taken = {} \<or> (\<exists>x. fil = int x \<and> x \<in> held m n \<and> taken = {x})"
  shows "\<exists>m'. ad_error api ses n fil m = Some m' \<and> minv m' \<and> openings m' n = openings m n - 1 \<and>
    held m' n = (if openings m n = 1 then {} else held m n - taken)"
proof -
  obtain m1 where m1: "(if fil \<noteq> -1 then map_option snd (api_free api n fil m) else Some m) = Some m1" "minv m1"
    "held m1 n = held m n - taken" "openings m1 n = openings m n"
  proof (cases "fil = -1")
    case True
    with assms(1,3) show thesis by (intro that [of m]) auto
  next
    case False
    with assms(3) obtain x where x: "fil = int x" "x \<in> held m n" "taken = {x}" by auto
    from free_law [OF assms(1) x(2)] obtain m1 where "api_free api n (int x) m = Some (0, m1)" "minv m1" "held m1 n = held m n - {x}"
      by blast
    with x False free_openings [OF assms(1)] show thesis by (intro that [of m1]) auto
  qed
  obtain m2 where "ses_close ses n m1 = Some (0, m2)" "minv m2" "openings m2 n = openings m n - 1"
    "held m2 n = (if openings m n = 1 then {} else held m n - taken)"
    using close_law [OF m1(2), of n] assms(2) m1(3,4) by auto
  then show ?thesis unfolding ad_error_def m1(1) by simp
qed

definition restored where
  "restored m m' n \<longleftrightarrow> minv m' \<and> openings m' n = openings m n \<and> held m' n = held m n"

lemma error_restores:
  assumes "minv m" "minv m'" "openings m' n = openings m n + 1"
    and "fil = -1 \<and> held m' n = held m n \<or> (\<exists>x. fil = int x \<and> x \<notin> held m n \<and> held m' n = insert x (held m n))"
  shows "\<exists>m''. ad_error api ses n fil m' = Some m'' \<and> restored m m'' n"
proof -
  obtain taken where t: "fil = -1 \<and> taken = {} \<or> (\<exists>x. fil = int x \<and> x \<in> held m' n \<and> taken = {x})" "held m' n - taken = held m n"
    using assms(4)
  proof (elim disjE exE conjE)
    fix x assume "fil = int x" "x \<notin> held m n" "held m' n = insert x (held m n)"
    then show thesis by (intro that [of "{x}"]) auto
  qed (use that [of "{}"] in auto)
  have "0 < openings m' n" "openings m' n = 1 \<longrightarrow> held m n = {}"
    using assms(3) openings_nonneg [OF assms(1), of n] closed_empty [OF assms(1), of n] by auto
  with error_returns [OF assms(2) _ t(1)] t(2) assms(3) show ?thesis by (auto simp: restored_def)
qed

text \<open>Opening and allocating either fail and restore, or give one more opening and one more filter.\<close>

lemma create_balanced:
  assumes "minv m"
  shows "\<exists>r h hp' m'. AM_AD_Create api ses fn (Some a) pmem (Some p) hp m = Some ((r, h), hp', m') \<and>
    (if r = AM_SUCCESS
     then h = Some a \<and> minv m' \<and> openings m' (ad_dmx_id p) = openings m (ad_dmx_id p) + 1 \<and>
       (\<exists>x. x \<notin> held m (ad_dmx_id p) \<and> held m' (ad_dmx_id p) = insert x (held m (ad_dmx_id p)) \<and>
          hp' = hp(a \<mapsto> \<lparr>ad_para = p, ad_filter = int x,
             ad_h_pes = Some \<lparr>pes_buf = [], pes_len = 0, pes_para = \<lparr>packet = True, payload_only = True, pes_user_data = a\<rparr>\<rparr>,
             ad_callback_fn = CbUnset, ad_user = 0\<rparr>))
     else h = None \<and> hp' = hp \<and> restored m m' (ad_dmx_id p))"
proof -
  let ?n = "ad_dmx_id p"
  let ?pp = "\<lparr>pes_pid = ad_pid p, pes_input = DMX_IN_FRONTEND, pes_output = DMX_OUT_TAP, pes_type = DMX_PES_OTHER\<rparr>"
  let ?op = "\<lparr>use_sw_filter = False, dvr_fifo_no = 0, dvr_buf_size = 0\<rparr>"
  obtain r1 m1 where m1: "ses_open ses ?n ?op m = Some (r1, m1)" "minv m1" "held m1 ?n = held m ?n"
    "openings m1 ?n = openings m ?n + (if r1 = AM_SUCCESS then 1 else 0)" using open_law [OF assms] by blast
  obtain r2 h m2 where m2: "api_alloc api ?n m1 = Some ((r2, h), m2)" "minv m2"
    "if r2 = AM_SUCCESS then \<exists>x. h = Some x \<and> x \<notin> held m1 ?n \<and> held m2 ?n = insert x (held m1 ?n) else held m2 ?n = held m1 ?n"
    using alloc_law [OF m1(2)] by blast
  note c2 = alloc_openings [OF m1(2) m2(1)]
  consider (open_fails) "r1 \<noteq> AM_SUCCESS" | (alloc_fails) "r1 = AM_SUCCESS" "r2 \<noteq> AM_SUCCESS"
    | (taken) x where "r1 = AM_SUCCESS" "r2 = AM_SUCCESS" "h = Some x" "x \<notin> held m ?n" "held m2 ?n = insert x (held m ?n)"
    using m1(3) m2(3) by (cases "r2 = AM_SUCCESS") auto
  then show ?thesis
  proof cases
    case open_fails
    with m1 show ?thesis by (auto simp: AM_AD_Create_def restored_def)
  next
    case alloc_fails
    with alloc_fail [OF m1(2), of ?n r2 _ m2] m2(1) have h: "h = None" by (cases h) auto
    obtain m' where "ad_error api ses ?n (-1) m2 = Some m'" "restored m m' ?n"
      using error_restores [OF assms m2(2), of ?n "-1"] alloc_fails m1 m2(3) c2 by auto
    with alloc_fails h m1(1) m2(1) show ?thesis by (simp add: AM_AD_Create_def)
  next
    case taken
    obtain r3 m3 where m3: "api_set_pes api ?n (int x) ?pp m2 = Some (r3, m3)" "minv m3" "held m3 ?n = held m2 ?n"
      using set_pes_law [OF m2(2)] by blast
    have c3: "openings m3 ?n = openings m ?n + 1" using set_pes_openings [OF m2(2) m3(1)] c2 m1(4) taken(1) by simp
    obtain m4 where m4: "ses_set_cb ses ?n (int x) (Some fn) a m3 = Some (AM_SUCCESS, m4)" "minv m4" "held m4 ?n = held m3 ?n"
      "openings m4 ?n = openings m3 ?n" using set_cb_law [OF m3(2), of x ?n "Some fn" a] m3(3) taken(5) by auto
    obtain m' where e3: "ad_error api ses ?n (int x) m3 = Some m'" "restored m m' ?n"
      using error_restores [OF assms m3(2) c3, of "int x"] m3(3) taken(4,5) by auto
    obtain m'' where e4: "ad_error api ses ?n (int x) m4 = Some m''" "restored m m'' ?n"
      using error_restores [OF assms m4(2), of ?n "int x"] m3(3) m4(3,4) c3 taken(4,5) by auto
    show ?thesis
    proof (cases "r3 = AM_SUCCESS \<and> pmem")
      case True
      with taken m1(1) m2(1) m3(1,3) m4 c3 show ?thesis by (auto simp: AM_AD_Create_def AM_PES_Create_def)
    next
      case False
      with taken m1(1) m2(1) m3(1) m4(1) e3 e4 show ?thesis
        by (cases "r3 = AM_SUCCESS") (auto simp: AM_AD_Create_def AM_PES_Create_def)
    qed
  qed
qed

lemma destroy_returns:
  assumes "minv m" "hp a = Some ad" "ad_filter ad = int x" "x \<in> held m (ad_dmx_id (ad_para ad))"
  shows "\<exists>m'. AM_AD_Destroy api ses (Some a) hp m = Some (AM_SUCCESS, hp(a := None), m') \<and> minv m' \<and>
    openings m' (ad_dmx_id (ad_para ad)) = openings m (ad_dmx_id (ad_para ad)) - 1 \<and>
    held m' (ad_dmx_id (ad_para ad)) = (if openings m (ad_dmx_id (ad_para ad)) = 1 then {} else held m (ad_dmx_id (ad_para ad)) - {x})"
proof -
  let ?n = "ad_dmx_id (ad_para ad)"
  have "0 < openings m ?n" using closed_empty [OF assms(1), of ?n] assms(4) by fastforce
  moreover obtain m1 where m1: "api_free api ?n (int x) m = Some (0, m1)" "minv m1" "held m1 ?n = held m ?n - {x}"
    using free_law [OF assms(1,4)] by blast
  moreover have "openings m1 ?n = openings m ?n" by (rule free_openings [OF assms(1) m1(1)])
  ultimately show ?thesis using close_law [OF m1(2), of ?n] assms(2,3) by (auto simp: AM_AD_Destroy_def)
qed

end

subsection \<open>The demux layer keeps the contract\<close>

definition dmx_openings :: "'d dmx_devices \<Rightarrow> int \<Rightarrow> int" where
  "dmx_openings m n = (if 0 \<le> n \<and> n < 2 then open_count (m ! nat n) else 0)"

lemma opened_dev:
  assumes "0 < dmx_openings m n"
  obtains i where "n = int i" "i < 2" "0 < open_count (m ! i)" "dmx_get_openned_dev n m = Inr i" "dmx_openings m n = open_count (m ! i)"
  using assms that [of "nat n"] by (auto simp: dmx_openings_def openned_iff split: if_splits)

lemma with_openned_openings:
  assumes "sys_ok K m" "with_openned fail n body m = Some (r, m')"
    and keep: "\<And>dev r dev'. dmx_dev_inv dev \<Longrightarrow> body dev = Some (r, dev') \<Longrightarrow> dmx_dev_inv dev' \<and> same_frame dev dev'"
  shows "dmx_openings m' n = dmx_openings m n"
proof (cases "dmx_get_openned_dev n m")
  case (Inr i)
  with assms(2) obtain dev where b: "body (m ! i) = Some (r, dev)" "m' = m[i := dev]"
    by (auto simp: with_openned_def split: option.splits prod.splits)
  have i: "n = int i" "i < 2" using Inr by (simp_all add: openned_iff)
  with assms(1) have "dmx_dev_inv (m ! i)" by (auto simp: sys_ok_def sys_dev_ok_def)
  with keep [OF _ b(1)] i b(2) sys_okD(1) [OF assms(1)] show ?thesis by (simp add: dmx_openings_def same_frame_def)
qed (use assms(2) in \<open>simp add: with_openned_def\<close>)

lemma open_dev_filters:
  "dmx_open_dev hw sw thr n para dev = Some (r, dev') \<Longrightarrow> filters dev' = filters dev \<and>
    open_count dev' = (if 0 < open_count dev then open_count dev + 1 else if r = AM_SUCCESS then 1 else open_count dev) \<and>
    (0 < open_count dev \<longrightarrow> r = AM_SUCCESS)"
  by (auto simp: dmx_open_dev_def Let_def split: if_splits option.splits prod.splits elim!: drv_call_cases)

lemma session_open:
  assumes "dmx_minv K m"
  shows "\<exists>r m'. AM_DMX_Open (linux_dvb_dmx_drv K) (dvr_dmx_drv K) thr n para m = Some (r, m') \<and> dmx_minv K m' \<and>
    dmx_held m' n = dmx_held m n \<and> dmx_openings m' n = dmx_openings m n + (if r = AM_SUCCESS then 1 else 0)"
proof -
  have ok: "sys_ok K m" using assms by (simp add: dmx_minv_def)
  obtain r m' where o: "AM_DMX_Open (linux_dvb_dmx_drv K) (dvr_dmx_drv K) thr n para m = Some (r, m')" "sys_ok K m'"
    using sys_open_ok [OF ok] by blast
  have "dmx_held m' n = dmx_held m n \<and> dmx_openings m' n = dmx_openings m n + (if r = AM_SUCCESS then 1 else 0)"
  proof (cases "0 \<le> n \<and> n < 2")
    case True
    then obtain i where i: "n = int i" "i < 2" by (metis nonneg_int_cases of_nat_less_iff of_nat_numeral)
    with o(1) obtain dev where d: "dmx_open_dev (linux_dvb_dmx_drv K) (dvr_dmx_drv K) thr n para (m ! i) = Some (r, dev)" "m' = m[i := dev]"
      by (auto simp: AM_DMX_Open_def dmx_get_dev_def split: option.splits prod.splits)
    have s: "sys_dev_ok K (m ! i)" by (rule sys_okD(2) [OF ok i(2)])
    then have "0 \<le> open_count (m ! i)" "open_count (m ! i) = 0 \<Longrightarrow> \<forall>j < 32. \<not> f_used (filters (m ! i) ! j)"
      by (auto simp: sys_dev_ok_def dmx_dev_inv_def)
    with open_dev_filters [OF d(1)] d(2) i sys_okD(1) [OF ok] show ?thesis
      by (auto simp: dmx_held_def dmx_openings_def)
  qed (use o(1) in \<open>auto simp: AM_DMX_Open_def dmx_get_dev_def dmx_held_def dmx_openings_def\<close>)
  with o assms show ?thesis by (auto simp: dmx_minv_def)
qed

lemma session_close:
  assumes "dmx_minv K m" "0 < dmx_openings m n"
  shows "\<exists>m'. AM_DMX_Close n m = Some (AM_SUCCESS, m') \<and> dmx_minv K m' \<and> dmx_openings m' n = dmx_openings m n - 1 \<and>
    dmx_held m' n = (if dmx_openings m n = 1 then {} else dmx_held m n)"
proof -
  have rel: "stop_reliable K" and ok: "sys_ok K m" using assms(1) by (simp_all add: dmx_minv_def)
  obtain i where i: "n = int i" "i < 2" "0 < open_count (m ! i)" "dmx_get_openned_dev n m = Inr i" "dmx_openings m n = open_count (m ! i)"
    by (rule opened_dev [OF assms(2)])
  have s: "sys_dev_ok K (m ! i)" by (rule sys_okD(2) [OF ok i(2)])
  from close_body [OF rel] i(3) s obtain r dev where d: "dmx_close_dev (m ! i) = Some (r, dev)" "sys_dev_ok K dev"
    unfolding body_ok_def by blast
  have c: "r = 0" "open_count dev = open_count (m ! i) - 1" "open_count (m ! i) \<noteq> 1 \<longrightarrow> filters dev = filters (m ! i)"
    using d(1) s i(3) close_dev_inv [OF _ i(3) d(1)]
    by (auto simp: dmx_close_dev_def sys_dev_ok_def split: if_splits option.splits prod.splits)
  with d i ok rel sys_okD(1) [OF ok] show ?thesis
    by (auto simp: AM_DMX_Close_def with_openned_def dmx_minv_def dmx_openings_def dmx_held_def intro: sys_ok_update)
qed

lemma session_set_cb:
  assumes "dmx_minv K m" "x \<in> dmx_held m n"
  shows "\<exists>m'. AM_DMX_SetCallback n (int x) cb u m = Some (AM_SUCCESS, m') \<and> dmx_minv K m' \<and> dmx_held m' n = dmx_held m n \<and>
    dmx_openings m' n = dmx_openings m n"
proof -
  have ok: "sys_ok K m" using assms(1) by (simp add: dmx_minv_def)
  obtain i where i: "dmx_get_openned_dev n m = Inr i" using assms(2) by (cases "dmx_get_openned_dev n m") (auto dest: held_closed)
  then have i2: "n = int i" "i < 2" "0 < open_count (m ! i)" by (simp_all add: openned_iff)
  have "dmx_get_used_filter (m ! i) (int x) = Inr x" using assms(2) held_open [OF i] by (simp add: used_filter_iff)
  then have sc: "AM_DMX_SetCallback n (int x) cb u m
      = Some (AM_SUCCESS, m[i := upd_filter x (\<lambda>f. f\<lparr>f_cb := cb, f_user_data := u\<rparr>) (m ! i)])"
    using i by (simp add: AM_DMX_SetCallback_def with_openned_def dmx_set_callback_def)
  have "sys_ok K (m[i := upd_filter x (\<lambda>f. f\<lparr>f_cb := cb, f_user_data := u\<rparr>) (m ! i)])"
    using with_openned_keeps [OF ok callback_body] sc unfolding AM_DMX_SetCallback_def by blast
  with sc assms(1) i2 sys_okD(1) [OF ok] show ?thesis
    by (auto simp: dmx_minv_def dmx_held_def dmx_openings_def nth_update_if)
qed

interpretation ad: demux_session adp_dmx_api "dmx_minv K" dmx_held "adp_dmx_session K thr" dmx_openings for K :: "'k kernel" and thr
proof (unfold_locales, goal_cases)
  case (1 m n para)
  from session_open [OF this, of thr n para] show ?case by (simp add: adp_dmx_session_def)
next
  case (2 m n)
  from session_close [OF this] show ?case by (simp add: adp_dmx_session_def)
next
  case (3 m x n cb u)
  then show ?case using session_set_cb by (simp add: adp_dmx_session_def)
next
  case (4 m n rh m')
  then show ?case
    using with_openned_openings [of K m "\<lambda>e. (e, None)" n dmx_allocate_filter rh m'] allocate_filter_inv
    by (auto simp: adp_dmx_api_def AM_DMX_AllocateFilter_def dmx_minv_def)
next
  case (5 m n r x m')
  then show ?case
    by (auto simp: adp_dmx_api_def AM_DMX_AllocateFilter_def with_openned_def dmx_allocate_filter_def Let_def
        split: sum.splits option.splits if_splits prod.splits)
next
  case (6 m n h p r m')
  then show ?case
    using with_openned_openings [of K m "\<lambda>e. e" n _ r m'] set_filter_inv
    by (fastforce simp: adp_dmx_api_def AM_DMX_SetPesFilter_def dmx_minv_def)
next
  case (7 m n h r m')
  then show ?case
    using with_openned_openings [of K m "\<lambda>e. e" n _ r m'] free_handle_inv
    by (fastforce simp: adp_dmx_api_def AM_DMX_FreeFilter_def dmx_minv_def)
next
  case (8 m n)
  then show ?case by (auto simp: dmx_openings_def dmx_held_def split: if_splits)
next
  case (9 m n)
  then have "0 \<le> n \<and> n < 2 \<Longrightarrow> sys_dev_ok K (m ! nat n)" by (auto simp: dmx_minv_def sys_ok_def)
  then show ?case by (auto simp: dmx_openings_def sys_dev_ok_def dmx_dev_inv_def)
qed

subsection \<open>Filters and openings\<close>

text \<open>
  C19: Audio description over the demux layer and a kernel that never refuses to stop a filter, in every reachable state of the demux layer:
  creating an object is defined, whatever fails inside; when it fails, the device is open as often as
  before and the same filters are in use; when it succeeds, the object has exactly one filter, which was free, and one opening,
  and destroying it returns both and the memory.
\<close>

theorem ad_takes_and_returns:
  assumes "stop_reliable K" "dmx_reach (linux_dvb_dmx_drv K) (dvr_dmx_drv K) m" "hp a = None"
  shows "\<exists>r h hp' m'. AM_AD_Create adp_dmx_api (adp_dmx_session K thr) fn (Some a) pmem (Some p) hp m = Some ((r, h), hp', m') \<and>
    (if r = AM_SUCCESS
     then h = Some a \<and> dmx_openings m' (ad_dmx_id p) = dmx_openings m (ad_dmx_id p) + 1 \<and>
       (\<exists>x. x \<notin> dmx_held m (ad_dmx_id p) \<and> dmx_held m' (ad_dmx_id p) = insert x (dmx_held m (ad_dmx_id p))) \<and>
       (\<exists>m''. AM_AD_Destroy adp_dmx_api (adp_dmx_session K thr) (Some a) hp' m' = Some (AM_SUCCESS, hp, m'') \<and>
          dmx_openings m'' (ad_dmx_id p) = dmx_openings m (ad_dmx_id p) \<and> dmx_held m'' (ad_dmx_id p) = dmx_held m (ad_dmx_id p))
     else h = None \<and> hp' = hp \<and> dmx_openings m' (ad_dmx_id p) = dmx_openings m (ad_dmx_id p) \<and>
       dmx_held m' (ad_dmx_id p) = dmx_held m (ad_dmx_id p))"
proof -
  let ?n = "ad_dmx_id p"
  have inv: "dmx_minv K m" using assms(1) sys_reach [OF assms(1,2)] by (simp add: dmx_minv_def)
  obtain r h hp' m' where c: "AM_AD_Create adp_dmx_api (adp_dmx_session K thr) fn (Some a) pmem (Some p) hp m = Some ((r, h), hp', m')"
    and d: "if r = AM_SUCCESS
     then h = Some a \<and> dmx_minv K m' \<and> dmx_openings m' ?n = dmx_openings m ?n + 1 \<and>
       (\<exists>x. x \<notin> dmx_held m ?n \<and> dmx_held m' ?n = insert x (dmx_held m ?n) \<and>
          hp' = hp(a \<mapsto> \<lparr>ad_para = p, ad_filter = int x,
             ad_h_pes = Some \<lparr>pes_buf = [], pes_len = 0, pes_para = \<lparr>packet = True, payload_only = True, pes_user_data = a\<rparr>\<rparr>,
             ad_callback_fn = CbUnset, ad_user = 0\<rparr>))
     else h = None \<and> hp' = hp \<and> ad.restored K m m' ?n"
    using ad.create_balanced [OF inv] by blast
  show ?thesis
  proof (cases "r = AM_SUCCESS")
    case True
    with d obtain x ad where x: "x \<notin> dmx_held m ?n" "dmx_held m' ?n = insert x (dmx_held m ?n)" "dmx_minv K m'" "h = Some a"
      "dmx_openings m' ?n = dmx_openings m ?n + 1" "hp' = hp(a \<mapsto> ad)" "ad_filter ad = int x" "ad_para ad = p" by auto
    have "dmx_openings m' ?n = 1 \<Longrightarrow> dmx_held m ?n = {}" using ad.closed_empty [OF inv, of ?n] x(5) by simp
    moreover have "hp'(a := None) = hp" using x(6) assms(3) by auto
    ultimately have "\<exists>m''. AM_AD_Destroy adp_dmx_api (adp_dmx_session K thr) (Some a) hp' m' = Some (AM_SUCCESS, hp, m'') \<and>
        dmx_openings m'' ?n = dmx_openings m ?n \<and> dmx_held m'' ?n = dmx_held m ?n"
      using ad.destroy_returns [OF x(3), of hp' a ad x thr] x by auto
    with c True x show ?thesis by auto
  next
    case False
    with c d show ?thesis by (auto simp: ad.restored_def)
  qed
qed

theorem ad_takes_and_returns_witness:
  "\<exists>r h hp' m'. AM_AD_Create adp_dmx_api (adp_dmx_session (quiet_kernel []) True) 7 (Some 100) True (Some \<lparr>ad_dmx_id = 0, ad_pid = 0x1FF\<rparr>) Map.empty opened_once
       = Some ((r, h), hp', m') \<and>
    (if r = AM_SUCCESS
     then h = Some 100 \<and> dmx_openings m' 0 = 2 \<and> (\<exists>x. x \<notin> dmx_held opened_once 0 \<and> dmx_held m' 0 = insert x (dmx_held opened_once 0)) \<and>
       (\<exists>m''. AM_AD_Destroy adp_dmx_api (adp_dmx_session (quiet_kernel []) True) (Some 100) hp' m' = Some (AM_SUCCESS, Map.empty, m'') \<and>
          dmx_openings m'' 0 = 1 \<and> dmx_held m'' 0 = dmx_held opened_once 0)
     else h = None \<and> hp' = Map.empty \<and> dmx_openings m' 0 = 1 \<and> dmx_held m' 0 = dmx_held opened_once 0)"
proof -
  have o: "dmx_openings opened_once 0 = 1" by (simp add: dmx_openings_def opened_once_def dmx_init_def)
  show ?thesis
    using ad_takes_and_returns [OF quiet_reliable opened_once_reach, of Map.empty 100 True 7 True "\<lparr>ad_dmx_id = 0, ad_pid = 0x1FF\<rparr>"]
    by (simp only: AM_AD_Para.simps o one_add_one simp_thms)
qed

subsection \<open>From the demux layer to the application\<close>

text \<open>The chunks of the object \<open>a\<close> among the calls of the demux layer.\<close>

definition ad_chunks :: "ptr \<Rightarrow> dmx_call list \<Rightarrow> byte list list" where
  "ad_chunks fn calls = map (\<lambda>(cb, dev, fil, data, len, user). case data of None \<Rightarrow> [] | Some d \<Rightarrow> d) (filter (\<lambda>c. fst c = fn) calls)"

definition calls_for :: "ptr \<Rightarrow> ptr \<Rightarrow> dmx_call list \<Rightarrow> bool" where
  "calls_for fn a calls \<longleftrightarrow> list_all (\<lambda>(cb, dev, fil, data, len, user). cb = fn \<longrightarrow> user = a) calls"

lemma decode_keeps_para:
  "AM_PES_Decode mem d (Some ps) = Some (r, h, calls) \<Longrightarrow> \<exists>ps'. h = Some ps' \<and> pes_para ps' = pes_para ps"
  by (auto simp: AM_PES_Decode_def Let_def split: if_splits option.splits prod.splits)

lemma packet_callbacks_set:
  assumes "hp a = Some ad" "ad_callback_fn ad = Cb f" "pes_user_data (pes_para ps) = a"
  shows "pes_packet_callbacks hp (Some ps) calls = Some (map (\<lambda>c. (f, fst c, snd c, ad_user ad)) calls)"
  using assms by (induction calls) (auto simp: pes_packet_callback_def AM_PES_GetUserData_def)

text \<open>An empty chunk is refused and changes nothing, so that the parser sees the stream of the other chunks.\<close>

lemma dispatch_feed:
  assumes "calls_for fn a calls" "hp a = Some ad" "ad_callback_fn ad = Cb f" "ad_h_pes ad = Some ps" "pes_user_data (pes_para ps) = a"
    and "pes_feed (filter (\<lambda>c. c \<noteq> []) (ad_chunks fn calls)) (Some ps) = Some (h, pcs)"
  shows "ad_dispatch fn calls hp = Some (map (\<lambda>c. (f, fst c, snd c, ad_user ad)) pcs, hp(a \<mapsto> ad\<lparr>ad_h_pes := h\<rparr>))"
  using assms
proof (induction calls arbitrary: hp ad ps pcs)
  case Nil
  then show ?case by (auto simp: ad_chunks_def)
next
  case (Cons c calls)
  obtain cb dev fil data len user where c: "c = (cb, dev, fil, data, len, user)" by (cases c)
  define d where "d = (case data of None \<Rightarrow> [] | Some d \<Rightarrow> d)"
  have rest: "calls_for fn a calls" using Cons.prems(1) by (simp add: calls_for_def)
  consider (other) "cb \<noteq> fn" | (empty) "cb = fn" "d = []" | (chunk) "cb = fn" "d \<noteq> []" by blast
  then show ?case
  proof cases
    case other
    with Cons.prems(6) c have "pes_feed (filter (\<lambda>c. c \<noteq> []) (ad_chunks fn calls)) (Some ps) = Some (h, pcs)" by (simp add: ad_chunks_def)
    from Cons.IH [of hp ad ps pcs, OF rest Cons.prems(2-5) this] other c show ?thesis by simp
  next
    case empty
    with Cons.prems(6) c have "pes_feed (filter (\<lambda>c. c \<noteq> []) (ad_chunks fn calls)) (Some ps) = Some (h, pcs)"
      by (simp add: ad_chunks_def d_def)
    note ih = Cons.IH [of hp ad ps pcs, OF rest Cons.prems(2-5) this]
    have "user = a" using Cons.prems(1) c empty by (simp add: calls_for_def)
    moreover have "hp(a \<mapsto> ad\<lparr>ad_h_pes := Some ps\<rparr>) = hp" using Cons.prems(2,4) by (intro ext) (cases ad, auto)
    ultimately show ?thesis using ih empty c Cons.prems(2,4) by (simp add: ad_callback_def d_def [symmetric] AM_PES_Decode_def)
  next
    case chunk
    with Cons.prems(6) c obtain r h1 pcs1 pcs2 where dec: "AM_PES_Decode True d (Some ps) = Some (r, h1, pcs1)"
      "pes_feed (filter (\<lambda>c. c \<noteq> []) (ad_chunks fn calls)) h1 = Some (h, pcs2)" "pcs = pcs1 @ pcs2"
      by (auto simp: ad_chunks_def d_def split: option.splits prod.splits)
    obtain ps1 where ps1: "h1 = Some ps1" "pes_para ps1 = pes_para ps" using decode_keeps_para [OF dec(1)] by blast
    have "user = a" using Cons.prems(1) c chunk by (simp add: calls_for_def)
    then have cb: "ad_callback True data user hp = Some (map (\<lambda>c. (f, fst c, snd c, ad_user ad)) pcs1, hp(a \<mapsto> ad\<lparr>ad_h_pes := h1\<rparr>))"
      using Cons.prems(2,4) dec(1) packet_callbacks_set [of hp a, OF Cons.prems(2,3,5)] by (simp add: ad_callback_def d_def [symmetric])
    have "ad_dispatch fn calls (hp(a \<mapsto> ad\<lparr>ad_h_pes := h1\<rparr>))
        = Some (map (\<lambda>c. (f, fst c, snd c, ad_user ad)) pcs2, hp(a \<mapsto> ad\<lparr>ad_h_pes := h\<rparr>))"
      using Cons.IH [OF rest, of "hp(a \<mapsto> ad\<lparr>ad_h_pes := h1\<rparr>)" "ad\<lparr>ad_h_pes := h1\<rparr>" ps1 pcs2] Cons.prems(3,5) ps1 dec(2)
      by (simp add: fun_upd_same del: fun_upd_apply)
    then show ?thesis using cb chunk c dec(3) by (simp del: fun_upd_apply)
  qed
qed

lemma created_object:
  assumes "AM_AD_Create api ses fn (Some a) pmem (Some p) hp m = Some ((AM_SUCCESS, h), hp1, m1)"
  shows "h = Some a \<and> (\<exists>ad. hp1 = hp(a \<mapsto> ad) \<and> ad_callback_fn ad = CbUnset \<and>
    ad_h_pes ad = Some \<lparr>pes_buf = [], pes_len = 0, pes_para = \<lparr>packet = True, payload_only = True, pes_user_data = a\<rparr>\<rparr>)"
  using assms by (auto simp: AM_AD_Create_def AM_PES_Create_def Let_def split: Option.bind_splits prod.splits if_splits option.splits)

lemma concat_filter_nonempty: "concat (filter (\<lambda>c. c \<noteq> []) cs) = concat cs"
  by (induction cs) auto

text \<open>
  C20: The whole way from the demux layer to the application: after an object is created and its callback set, whatever calls the data thread makes, for this
  object and for other clients in between, time-outs and empty reads included, however the stream of well-formed PES packets is
  cut into chunks, the application is called once for every packet, in order, with the payload without its header,
  the length of the payload and its own user data, and nothing runs into undefined behaviour.
\<close>

theorem ad_stream_delivered:
  assumes "AM_AD_Create api ses fn (Some a) pmem (Some p) hp m = Some ((AM_SUCCESS, h), hp1, m1)"
    and "AM_AD_SetCallback h (Some f) u hp1 = Some (r, hp2)"
    and "\<forall>pkt \<in> set pkts. pes_packet True pkt" "calls_for fn a calls" "concat (ad_chunks fn calls) = concat pkts"
  shows "\<exists>hp3. ad_dispatch fn calls hp2 = Some (map (\<lambda>pkt. (f, fst (pes_deliver True pkt), snd (pes_deliver True pkt), u)) pkts, hp3)"
proof -
  let ?ps = "\<lparr>pes_buf = [], pes_len = 0, pes_para = \<lparr>packet = True, payload_only = True, pes_user_data = a\<rparr>\<rparr>"
  obtain ad where ad: "h = Some a" "hp1 = hp(a \<mapsto> ad)" "ad_h_pes ad = Some ?ps" using created_object [OF assms(1)] by blast
  let ?ad = "ad\<lparr>ad_callback_fn := Cb f, ad_user := u\<rparr>"
  have hp2: "hp2 a = Some ?ad" using assms(2) ad by (auto simp: AM_AD_SetCallback_def)
  let ?cs = "filter (\<lambda>c. c \<noteq> []) (ad_chunks fn calls)"
  have "concat ?cs = concat pkts" using assms(5) concat_filter_nonempty by metis
  moreover have "pes_rest True [] pkts"
    using assms(3) pes_packet_nonempty by (cases pkts) (auto simp: pes_rest_def strict_prefix_def)
  ultimately obtain ps' where "pes_feed ?cs (Some ?ps) = Some (Some ps', map (pes_deliver True) pkts)"
    using pes_feed_stream [of ?ps pkts ?cs] assms(3) by (auto simp: pes_inv_def pes_pending_def)
  from dispatch_feed [of fn a calls hp2, OF assms(4) hp2 _ _ _ this] ad(3) show ?thesis by auto
qed

definition ad_example :: "(nat \<times> nat) list dmx_api" where
  "ad_example = \<lparr>api_alloc = (\<lambda>n m. Some ((0, Some 4), m)), api_set_pes = (\<lambda>n h p m. Some (0, m)), api_start = (\<lambda>n h m. Some (0, m)),
     api_stop = (\<lambda>n h m. Some (0, m)), api_free = (\<lambda>n h m. Some (0, m))\<rparr>"

definition ad_example_session :: "(nat \<times> nat) list dmx_session" where
  "ad_example_session = \<lparr>ses_open = (\<lambda>n p m. Some (0, m)), ses_close = (\<lambda>n m. Some (0, m)), ses_set_cb = (\<lambda>n h cb u m. Some (0, m))\<rparr>"

lemma ad_example_create:
  "\<exists>hp1. AM_AD_Create ad_example ad_example_session 7 (Some 100) True (Some \<lparr>ad_dmx_id = 0, ad_pid = 0x1FF\<rparr>) Map.empty [] = Some ((AM_SUCCESS, Some 100), hp1, [])
     \<and> (\<exists>hp2. AM_AD_SetCallback (Some 100) (Some 8) 9 hp1 = Some (AM_SUCCESS, hp2))"
  by (simp add: AM_AD_Create_def AM_PES_Create_def ad_example_def ad_example_session_def AM_AD_SetCallback_def)

theorem ad_stream_delivered_witness:
  "\<exists>hp1 hp2 hp3. AM_AD_Create ad_example ad_example_session 7 (Some 100) True (Some \<lparr>ad_dmx_id = 0, ad_pid = 0x1FF\<rparr>) Map.empty []
         = Some ((AM_SUCCESS, Some 100), hp1, []) \<and>
     AM_AD_SetCallback (Some 100) (Some 8) 9 hp1 = Some (AM_SUCCESS, hp2) \<and>
     ad_dispatch 7 [(7, 0, 4, Some [0, 0, 1, 0xC0, 0, 5], 6, 100), (7, 0, 4, None, 0, 100), (3, 0, 5, Some [1], 1, 2),
         (7, 0, 4, Some [0x80, 0, 0, 0xAA, 0xBB], 5, 100)] hp2
       = Some ([(8, [0xAA, 0xBB], 2, 9)], hp3)"
proof -
  obtain hp1 hp2 where c: "AM_AD_Create ad_example ad_example_session 7 (Some 100) True (Some \<lparr>ad_dmx_id = 0, ad_pid = 0x1FF\<rparr>) Map.empty []
      = Some ((AM_SUCCESS, Some 100), hp1, [])" "AM_AD_SetCallback (Some 100) (Some 8) 9 hp1 = Some (AM_SUCCESS, hp2)"
    using ad_example_create by blast
  have "\<exists>hp3. ad_dispatch 7 [(7, 0, 4, Some [0, 0, 1, 0xC0, 0, 5], 6, 100), (7, 0, 4, None, 0, 100), (3, 0, 5, Some [1], 1, 2),
         (7, 0, 4, Some [0x80, 0, 0, 0xAA, 0xBB], 5, 100)] hp2
      = Some (map (\<lambda>pkt. (8, fst (pes_deliver True pkt), snd (pes_deliver True pkt), 9)) [[0, 0, 1, 0xC0, 0, 5, 0x80, 0, 0, 0xAA, 0xBB]], hp3)"
    by (rule ad_stream_delivered [OF c]) (simp_all add: pes_packet_def be16_def calls_for_def ad_chunks_def)
  with c show ?thesis by (auto simp: pes_deliver_def pes_hlen_def)
qed

subsection \<open>Failures\<close>

text \<open>
  \<^verbatim>\<open>AM_AD_Create\<close> does not initialise the callback: when a packet is complete before \<^verbatim>\<open>AM_AD_SetCallback\<close> was called, the module jumps to
  whatever the memory of the object contained.
\<close>

theorem ad_callback_uninitialised:
  assumes "AM_AD_Create api ses fn (Some a) pmem (Some p) hp m = Some ((AM_SUCCESS, h), hp1, m1)" "pes_packet True pkt"
  shows "ad_dispatch fn [(fn, n, fil, Some pkt, length pkt, a)] hp1 = None"
proof -
  let ?ps = "\<lparr>pes_buf = [], pes_len = 0, pes_para = \<lparr>packet = True, payload_only = True, pes_user_data = a\<rparr>\<rparr>"
  obtain ad where ad: "hp1 a = Some ad" "ad_callback_fn ad = CbUnset" "ad_h_pes ad = Some ?ps"
    using created_object [OF assms(1)] by auto
  obtain ps' where "AM_PES_Decode True pkt (Some ?ps) = Some (AM_SUCCESS, Some ps', [pes_deliver True pkt])"
    using pes_decode_packets [of ?ps pkt "[pkt]" "[]" "[]"] assms(2) pes_packet_nonempty [OF assms(2)]
    by (auto simp: pes_inv_def pes_pending_def pes_rest_def)
  with ad show ?thesis by (simp add: ad_callback_def pes_packet_callback_def AM_PES_GetUserData_def)
qed

theorem ad_callback_uninitialised_witness:
  "\<exists>hp1. AM_AD_Create ad_example ad_example_session 7 (Some 100) True (Some \<lparr>ad_dmx_id = 0, ad_pid = 0x1FF\<rparr>) Map.empty []
      = Some ((AM_SUCCESS, Some 100), hp1, []) \<and>
     ad_dispatch 7 [(7, 0, 4, Some [0, 0, 1, 0xC0, 0, 4, 0x80, 0, 0, 0xAA], length [0, 0, 1, 0xC0, 0, 4, 0x80, 0, 0, 0xAA :: byte], 100)] hp1 = None"
proof -
  obtain hp1 where c: "AM_AD_Create ad_example ad_example_session 7 (Some 100) True (Some \<lparr>ad_dmx_id = 0, ad_pid = 0x1FF\<rparr>) Map.empty []
      = Some ((AM_SUCCESS, Some 100), hp1, [])" using ad_example_create by blast
  have "pes_packet True [0, 0, 1, 0xC0, 0, 4, 0x80, 0, 0, 0xAA]" by (simp add: pes_packet_def be16_def)
  from ad_callback_uninitialised [OF c this] c show ?thesis by blast
qed

text \<open>Freeing a filter leaves the callbacks of all filters in place.\<close>

definition same_cbs :: "AM_DMX_Filter list \<Rightarrow> AM_DMX_Filter list \<Rightarrow> bool" where
  "same_cbs fs gs \<longleftrightarrow> map (\<lambda>f. (f_cb f, f_user_data f)) gs = map (\<lambda>f. (f_cb f, f_user_data f)) fs"

lemma same_cbs_refl [simp]: "same_cbs fs fs"
  by (simp add: same_cbs_def)

lemma same_cbs_trans: "same_cbs fs gs \<Longrightarrow> same_cbs gs hs \<Longrightarrow> same_cbs fs hs"
  by (simp add: same_cbs_def)

lemma same_cbs_update: "f_cb g = f_cb (fs ! i) \<Longrightarrow> f_user_data g = f_user_data (fs ! i) \<Longrightarrow> same_cbs fs (fs[i := g])"
proof -
  assume "f_cb g = f_cb (fs ! i)" "f_user_data g = f_user_data (fs ! i)"
  then have "map (\<lambda>f. (f_cb f, f_user_data f)) (fs[i := g]) = map (\<lambda>f. (f_cb f, f_user_data f)) (fs[i := fs ! i])"
    by (simp only: map_update)
  then show ?thesis by (simp add: same_cbs_def)
qed

lemma same_cbs_set:
  "same_cbs fs gs \<Longrightarrow> f_cb g = f_cb (gs ! i) \<Longrightarrow> f_user_data g = f_user_data (gs ! i) \<Longrightarrow> same_cbs fs (gs[i := g])"
  using same_cbs_trans same_cbs_update by blast

lemma same_cbs_nth: "same_cbs fs gs \<Longrightarrow> i < length fs \<Longrightarrow> f_cb (gs ! i) = f_cb (fs ! i) \<and> f_user_data (gs ! i) = f_user_data (fs ! i)"
  unfolding same_cbs_def by (metis (mono_tags, lifting) length_map nth_map prod.inject)

lemma stop_filter_cbs: "dmx_stop_filter i dev = Some (r, dev') \<Longrightarrow> same_cbs (filters dev) (filters dev')"
  by (erule stop_filter_shape) (auto intro!: same_cbs_update)

lemma free_filter_cbs: "dmx_free_filter i dev = Some (r, dev') \<Longrightarrow> same_cbs (filters dev) (filters dev')"
  by (auto simp: dmx_free_filter_def split: if_splits option.splits prod.splits dest!: stop_filter_cbs
      elim!: drv_call_cases intro!: same_cbs_set)

lemma free_filters_cbs: "dmx_free_filters is dev = Some dev' \<Longrightarrow> same_cbs (filters dev) (filters dev')"
  by (induction "is" arbitrary: dev) (auto split: option.splits prod.splits dest!: free_filter_cbs intro: same_cbs_trans)

lemma close_dev_cbs: "dmx_close_dev dev = Some (r, dev') \<Longrightarrow> same_cbs (filters dev) (filters dev')"
  by (auto simp: dmx_close_dev_def split: if_splits option.splits prod.splits dest!: free_filters_cbs elim!: drv_call_cases)

text \<open>
  Destroying an object leaves the pointer to it in the slot of its filter: the demux layer keeps callback and user data of a
  freed filter, so that data for the next user of the slot, unless it sets a callback of its own as the recorder does not, goes to
  the freed object.
\<close>

theorem ad_destroyed_object_called:
  assumes "stop_reliable K" "dmx_reach (linux_dvb_dmx_drv K) (dvr_dmx_drv K) m" "i < 2" "x < 32"
    and "hp a = Some ad" "ad_dmx_id (ad_para ad) = int i" "ad_filter ad = int x" "x \<in> dmx_held m (int i)"
    and "f_cb (filters (m ! i) ! x) = Some fn" "f_user_data (filters (m ! i) ! x) = a"
  shows "\<exists>hp' m'. AM_AD_Destroy adp_dmx_api (adp_dmx_session K thr) (Some a) hp m = Some (AM_SUCCESS, hp', m') \<and>
    f_cb (filters (m' ! i) ! x) = Some fn \<and> f_user_data (filters (m' ! i) ! x) = a \<and>
    ad_dispatch fn [(fn, int i, x, Some d, length d, f_user_data (filters (m' ! i) ! x))] hp' = None"
proof -
  have inv: "dmx_minv K m" using assms(1) sys_reach [OF assms(1,2)] by (simp add: dmx_minv_def)
  have len: "length m = 2" using inv by (simp add: dmx_minv_def sys_ok_def)
  have op: "0 < open_count (m ! i)" using assms(8) by (auto simp: dmx_held_def split: if_splits)
  obtain m' where d: "AM_AD_Destroy adp_dmx_api (adp_dmx_session K thr) (Some a) hp m = Some (AM_SUCCESS, hp(a := None), m')"
    using ad.destroy_returns [where hp = hp and a = a, OF inv assms(5,7)] assms(6,8) by auto
  then obtain r1 m1 r2 where f: "AM_DMX_FreeFilter (int i) (int x) m = Some (r1, m1)" "AM_DMX_Close (int i) m1 = Some (r2, m')"
    using assms(5-7) by (auto simp: AM_AD_Destroy_def adp_dmx_api_def adp_dmx_session_def split: Option.bind_splits prod.splits)
  have s1: "same_cbs (filters (m ! i)) (filters (m1 ! i)) \<and> length m1 = 2"
    using f(1) assms(3) op len
    by (auto simp: AM_DMX_FreeFilter_def with_openned_body dmx_free_handle_def split: sum.splits dest: free_filter_cbs)
  have "same_cbs (filters (m1 ! i)) (filters (m' ! i))"
  proof (cases "0 < open_count (m1 ! i)")
    case True
    with f(2) assms(3) s1 show ?thesis by (auto simp: AM_DMX_Close_def with_openned_body dest: close_dev_cbs)
  next
    case False
    with f(2) assms(3) show ?thesis by (auto simp: AM_DMX_Close_def with_openned_def dmx_get_openned_dev_def dmx_get_dev_def)
  qed
  with s1 have cbs: "same_cbs (filters (m ! i)) (filters (m' ! i))" by (auto intro: same_cbs_trans)
  have "length (filters (m ! i)) = 32" using inv assms(3) by (simp add: dmx_minv_def sys_ok_def sys_dev_ok_def dmx_dev_inv_def tab_ok_def)
  from same_cbs_nth [OF cbs] this assms(4,9,10) d show ?thesis by (auto simp: ad_callback_def)
qed

lemma first_idx_replicate: "P x \<Longrightarrow> 0 < n \<Longrightarrow> first_idx P (replicate n x) = 0"
  by (cases n) auto

lemma callback_state:
  "\<exists>m. dmx_reach (linux_dvb_dmx_drv (quiet_kernel [])) (dvr_dmx_drv (quiet_kernel [])) m \<and> 0 \<in> dmx_held m (int 0) \<and>
     f_cb (filters (m ! 0) ! 0) = Some 7 \<and> f_user_data (filters (m ! 0) ! 0) = 100"
proof -
  have "length (filters (opened_once ! 0)) = 32" "length opened_once = 2" "0 < open_count (opened_once ! 0)"
    "filters (opened_once ! 0) = replicate 32 filter0" "drv (opened_once ! 0) = linux_dvb_dmx_drv (quiet_kernel [])"
    "drv_data (opened_once ! 0) = \<lparr>priv = DrvDvb (replicate 32 None), kern = 3\<rparr>"
    by (simp_all add: opened_once_def dmx_init_def numeral_2_eq_2)
  note o = this
  have "\<not> f_used filter0" by (simp add: filter0_def)
  then obtain dev where dev: "dmx_allocate_filter (opened_once ! 0) = Some ((0, Some 0), dev)" "f_used (filters dev ! 0)"
    "open_count dev = open_count (opened_once ! 0)" "length (filters dev) = 32"
    using o by (simp add: dmx_allocate_filter_def first_idx_replicate linux_dvb_dmx_drv_def dvb_alloc_filter_def quiet_kernel_def Let_def)
  define m1 where "m1 = opened_once[0 := dev]"
  have a: "AM_DMX_AllocateFilter 0 opened_once = Some ((0, Some 0), m1)"
    using dev o with_openned_body [of 0 opened_once "\<lambda>e. (e, None)" dmx_allocate_filter] by (simp add: AM_DMX_AllocateFilter_def m1_def)
  define m2 where "m2 = opened_once[0 := upd_filter 0 (\<lambda>f. f\<lparr>f_cb := Some 7, f_user_data := 100\<rparr>) dev]"
  have b: "AM_DMX_SetCallback 0 0 (Some 7) 100 m1 = Some (0, m2)"
    using dev o with_openned_body [of 0 m1 "\<lambda>e. e" "dmx_set_callback 0 (Some 7) 100"]
    by (simp add: AM_DMX_SetCallback_def m1_def m2_def dmx_set_callback_def dmx_get_used_filter_def)
  have "dmx_reach (linux_dvb_dmx_drv (quiet_kernel [])) (dvr_dmx_drv (quiet_kernel [])) m2"
    by (rule dmx_reach.step [OF dmx_reach.step [OF opened_once_reach dmx_step.allocate [OF a]] dmx_step.set_cb [OF b]])
  moreover have "0 \<in> dmx_held m2 (int 0)" "f_cb (filters (m2 ! 0) ! 0) = Some 7" "f_user_data (filters (m2 ! 0) ! 0) = 100"
    using dev o by (simp_all add: dmx_held_def m2_def)
  ultimately show ?thesis by blast
qed

theorem ad_destroyed_object_called_witness:
  "\<exists>m hp' m'. AM_AD_Destroy adp_dmx_api (adp_dmx_session (quiet_kernel []) True) (Some 100)
        [100 \<mapsto> \<lparr>ad_para = \<lparr>ad_dmx_id = 0, ad_pid = 5\<rparr>, ad_filter = 0, ad_h_pes = None, ad_callback_fn = CbNull, ad_user = 0\<rparr>] m
      = Some (AM_SUCCESS, hp', m') \<and>
    f_cb (filters (m' ! 0) ! 0) = Some 7 \<and> f_user_data (filters (m' ! 0) ! 0) = 100 \<and>
    ad_dispatch 7 [(7, 0, 0, Some [1], 1, f_user_data (filters (m' ! 0) ! 0))] hp' = None"
proof -
  obtain m where m: "dmx_reach (linux_dvb_dmx_drv (quiet_kernel [])) (dvr_dmx_drv (quiet_kernel [])) m" "0 \<in> dmx_held m (int 0)"
    "f_cb (filters (m ! 0) ! 0) = Some 7" "f_user_data (filters (m ! 0) ! 0) = 100" using callback_state by blast
  let ?ad = "\<lparr>ad_para = \<lparr>ad_dmx_id = 0, ad_pid = 5\<rparr>, ad_filter = 0, ad_h_pes = None, ad_callback_fn = CbNull, ad_user = 0\<rparr>"
  have "\<exists>hp' m'. AM_AD_Destroy adp_dmx_api (adp_dmx_session (quiet_kernel []) True) (Some 100) [100 \<mapsto> ?ad] m = Some (AM_SUCCESS, hp', m') \<and>
    f_cb (filters (m' ! 0) ! 0) = Some 7 \<and> f_user_data (filters (m' ! 0) ! 0) = 100 \<and>
    ad_dispatch 7 [(7, int 0, 0, Some [1], length [1 :: byte], f_user_data (filters (m' ! 0) ! 0))] hp' = None"
    by (rule ad_destroyed_object_called [OF quiet_reliable m(1), of 0 0 "[100 \<mapsto> ?ad]" 100 ?ad]) (use m(2-4) in simp_all)
  then show ?thesis by auto
qed

end
