(* ===== verification/Am_Fend.thy ===== *)
theory Am_Fend
  imports Adp_Prelude
begin

text \<open>
  The DVB front end, \<^verbatim>\<open>dvb/am_adp/am_fend/am_fend.c\<close>: the device table, the functions that forward to the driver, the
  data of the blind scan. The thread that reports events is in \<open>Fend_Thread\<close>, the blind scan in \<open>Fend_Blind\<close>. The driver is the argument \<open>fend_driver\<close>, a record of
  functions on the descriptor in \<^verbatim>\<open>drv_data\<close> and the state \<open>'e\<close> of the outside world; a missing function is \<open>None\<close>.
  The structures of the kernel that the module only passes on are numbers.

  An operation that waits for a condition variable is split at the wait; \<open>Inl ()\<close> says that it has to wait.
\<close>

abbreviation (input) AM_MOD_FEND :: int where "AM_MOD_FEND \<equiv> 10"
abbreviation (input) FEND_DEV_COUNT :: nat where "FEND_DEV_COUNT \<equiv> 2"
abbreviation (input) FEND_WAIT_TIMEOUT :: int where "FEND_WAIT_TIMEOUT \<equiv> 500"
abbreviation (input) FEND_BS_MAX_CHANNEL :: nat where "FEND_BS_MAX_CHANNEL \<equiv> 128"

definition AM_FEND_ERR_INVALID_DEV_NO :: errcode where "AM_FEND_ERR_INVALID_DEV_NO = AM_ERROR_BASE AM_MOD_FEND + 3"
definition AM_FEND_ERR_CANNOT_CREATE_THREAD :: errcode where "AM_FEND_ERR_CANNOT_CREATE_THREAD = AM_ERROR_BASE AM_MOD_FEND + 5"
definition AM_FEND_ERR_NOT_SUPPORTED :: errcode where "AM_FEND_ERR_NOT_SUPPORTED = AM_ERROR_BASE AM_MOD_FEND + 6"
definition AM_FEND_ERR_CANNOT_OPEN :: errcode where "AM_FEND_ERR_CANNOT_OPEN = AM_ERROR_BASE AM_MOD_FEND + 7"
definition AM_FEND_ERR_TIMEOUT :: errcode where "AM_FEND_ERR_TIMEOUT = AM_ERROR_BASE AM_MOD_FEND + 8"
definition AM_FEND_ERR_INVOKE_IN_CB :: errcode where "AM_FEND_ERR_INVOKE_IN_CB = AM_ERROR_BASE AM_MOD_FEND + 9"
definition AM_FEND_ERR_BLINDSCAN :: errcode where "AM_FEND_ERR_BLINDSCAN = AM_ERROR_BASE AM_MOD_FEND + 11"

lemmas fend_codes [err_code] = AM_FEND_ERR_INVALID_DEV_NO_def AM_FEND_ERR_CANNOT_CREATE_THREAD_def AM_FEND_ERR_NOT_SUPPORTED_def
  AM_FEND_ERR_CANNOT_OPEN_def AM_FEND_ERR_TIMEOUT_def AM_FEND_ERR_INVOKE_IN_CB_def AM_FEND_ERR_BLINDSCAN_def

subsection \<open>Parameters and events\<close>

text \<open>
  The union of \<^verbatim>\<open>dvb_frontend_parameters\<close> is its 32 bit words; the symbol rates are its first word, the modulation of QAM
  the third and that of VSB the first.
\<close>

record fend_parameters =
  frequency :: "32 word"
  inversion :: int
  param_u :: "32 word list"

definition qpsk_symbol_rate :: "fend_parameters \<Rightarrow> 32 word" where "qpsk_symbol_rate p = param_u p ! 0"
definition qam_symbol_rate :: "fend_parameters \<Rightarrow> 32 word" where "qam_symbol_rate p = param_u p ! 0"
definition qam_modulation :: "fend_parameters \<Rightarrow> 32 word" where "qam_modulation p = param_u p ! 2"
definition vsb_modulation :: "fend_parameters \<Rightarrow> 32 word" where "vsb_modulation p = param_u p ! 0"

abbreviation (input) FE_QPSK :: int where "FE_QPSK \<equiv> 0"
abbreviation (input) FE_QAM :: int where "FE_QAM \<equiv> 1"
abbreviation (input) FE_OFDM :: int where "FE_OFDM \<equiv> 2"
abbreviation (input) FE_ATSC :: int where "FE_ATSC \<equiv> 3"
abbreviation (input) FE_ANALOG :: int where "FE_ANALOG \<equiv> 4"
abbreviation (input) FE_DTMB :: int where "FE_DTMB \<equiv> 5"
abbreviation (input) FE_ISDBT :: int where "FE_ISDBT \<equiv> 6"

definition fend_para_equal :: "int \<Rightarrow> fend_parameters \<Rightarrow> fend_parameters \<Rightarrow> bool" where
  "fend_para_equal type p1 p2 =
     (if frequency p1 \<noteq> frequency p2 then False
      else if type = FE_QPSK then \<not> (qpsk_symbol_rate p1 \<noteq> qpsk_symbol_rate p2)
      else if type = FE_QAM
      then (if qam_symbol_rate p1 \<noteq> qam_symbol_rate p2 then False else \<not> (qam_modulation p1 \<noteq> qam_modulation p2))
      else if type = FE_OFDM \<or> type = FE_DTMB \<or> type = FE_ISDBT \<or> type = FE_ANALOG then True
      else if type = FE_ATSC then \<not> (vsb_modulation p1 \<noteq> vsb_modulation p2)
      else False)"

record fend_event =
  ev_status :: "32 word"
  ev_parameters :: fend_parameters

datatype bs_kind = BLINDSCAN_NONEDO | BLINDSCAN_UPDATESTARTFREQ | BLINDSCAN_UPDATEPROCESS | BLINDSCAN_UPDATERESULTFREQ

text \<open>
  The union of the event of the kernel is its parameters; their first word, the frequency, is also the start frequency, and its lower half the
  progress.
\<close>

record bs_event =
  be_status :: bs_kind
  be_param :: fend_parameters

definition m_uiprogress :: "bs_event \<Rightarrow> 16 word" where
  "m_uiprogress ev = ucast (frequency (be_param ev))"

definition m_uistartfreq_khz :: "bs_event \<Rightarrow> 32 word" where
  "m_uistartfreq_khz ev = frequency (be_param ev)"

record bs_para =
  minfrequency :: "32 word"
  maxfrequency :: "32 word"
  minSymbolRate :: "32 word"
  maxSymbolRate :: "32 word"
  frequencyRange :: "32 word"
  frequencyStep :: "32 word"
  bs_timeout :: int

record bs_setting =
  m_uiChannelCount :: "16 word"
  channels :: "fend_parameters list"
  bsEvent :: bs_event
  bsPara :: bs_para

text \<open>The parameter box of the tuner; the reserved field is never written.\<close>

abbreviation (input) TUNER_CMD_SET_CVBS_AMP_OUT :: nat where "TUNER_CMD_SET_CVBS_AMP_OUT \<equiv> 9"

record tuner_param =
  tp_cmd :: nat
  tp_parm :: "32 word"

subsection \<open>Driver, device and state\<close>

record 'e fend_driver =
  fe_open :: "(int \<Rightarrow> int \<Rightarrow> int \<Rightarrow> 'e \<Rightarrow> (errcode \<times> int) \<times> 'e) option"
  fe_set_mode :: "(int \<Rightarrow> int \<Rightarrow> 'e \<Rightarrow> errcode \<times> 'e) option"
  fe_get_info :: "(int \<Rightarrow> 'e \<Rightarrow> (errcode \<times> nat option) \<times> 'e) option"
  fe_get_ts :: "(int \<Rightarrow> 'e \<Rightarrow> (errcode \<times> int option) \<times> 'e) option"
  fe_set_para :: "(int \<Rightarrow> fend_parameters \<Rightarrow> 'e \<Rightarrow> errcode \<times> 'e) option"
  fe_get_para :: "(int \<Rightarrow> 'e \<Rightarrow> (errcode \<times> fend_parameters option) \<times> 'e) option"
  fe_get_status :: "(int \<Rightarrow> 'e \<Rightarrow> (errcode \<times> 32 word option) \<times> 'e) option"
  fe_get_snr :: "(int \<Rightarrow> 'e \<Rightarrow> (errcode \<times> int option) \<times> 'e) option"
  fe_get_ber :: "(int \<Rightarrow> 'e \<Rightarrow> (errcode \<times> int option) \<times> 'e) option"
  fe_get_strength :: "(int \<Rightarrow> 'e \<Rightarrow> (errcode \<times> int option) \<times> 'e) option"
  fe_wait_event :: "(int \<Rightarrow> int \<Rightarrow> 'e \<Rightarrow> (errcode \<times> fend_event option) \<times> 'e) option"
  fe_set_delay :: "(int \<Rightarrow> int \<Rightarrow> 'e \<Rightarrow> errcode \<times> 'e) option"
  fe_diseqc_reset_overload :: "(int \<Rightarrow> 'e \<Rightarrow> errcode \<times> 'e) option"
  fe_diseqc_send_master_cmd :: "(int \<Rightarrow> byte list \<Rightarrow> 'e \<Rightarrow> errcode \<times> 'e) option"
  fe_diseqc_recv_slave_reply :: "(int \<Rightarrow> 'e \<Rightarrow> (errcode \<times> byte list option) \<times> 'e) option"
  fe_diseqc_send_burst :: "(int \<Rightarrow> int \<Rightarrow> 'e \<Rightarrow> errcode \<times> 'e) option"
  fe_set_tone :: "(int \<Rightarrow> int \<Rightarrow> 'e \<Rightarrow> errcode \<times> 'e) option"
  fe_set_voltage :: "(int \<Rightarrow> int \<Rightarrow> 'e \<Rightarrow> errcode \<times> 'e) option"
  fe_enable_high_lnb_voltage :: "(int \<Rightarrow> int \<Rightarrow> 'e \<Rightarrow> errcode \<times> 'e) option"
  fe_close :: "(int \<Rightarrow> 'e \<Rightarrow> errcode \<times> 'e) option"
  fe_set_prop :: "(int \<Rightarrow> nat \<Rightarrow> 'e \<Rightarrow> errcode \<times> 'e) option"
  fe_get_prop :: "(int \<Rightarrow> 'e \<Rightarrow> (errcode \<times> nat option) \<times> 'e) option"
  fe_blindscan_scan :: "(int \<Rightarrow> bs_para \<Rightarrow> 'e \<Rightarrow> errcode \<times> 'e) option"
  fe_blindscan_getscanevent :: "(int \<Rightarrow> 'e \<Rightarrow> (errcode \<times> bs_event option) \<times> 'e) option"
  fe_blindscan_cancel :: "(int \<Rightarrow> 'e \<Rightarrow> errcode \<times> 'e) option"
  fe_fine_tune :: "(int \<Rightarrow> 32 word \<Rightarrow> 'e \<Rightarrow> errcode \<times> 'e) option"
  fe_set_cvbs_amp_out :: "(int \<Rightarrow> tuner_param \<Rightarrow> 'e \<Rightarrow> errcode \<times> 'e) option"
  fe_get_atv_status :: "(int \<Rightarrow> 'e \<Rightarrow> (errcode \<times> nat option) \<times> 'e) option"
  fe_set_afc :: "(int \<Rightarrow> 32 word \<Rightarrow> 'e \<Rightarrow> errcode \<times> 'e) option"

text \<open>
  A callback is a function of the application or \<^verbatim>\<open>fend_lock_cb\<close>; its user data is a pointer of the application or the variable \<^verbatim>\<open>lockp\<close> of
  the call of \<^verbatim>\<open>AM_FEND_Lock\<close> by a thread.
\<close>

datatype fend_fn = App nat | LockFn
datatype fend_ptr = Ptr nat | Frame nat

record fend_lock_para =
  lp_para :: fend_parameters
  lp_status :: "32 word option"
  lp_old_cb :: "fend_fn option"
  lp_old_data :: fend_ptr

text \<open>
  \<open>fd_lock\<close> says whether the mutex is initialised, \<open>fd_thread\<close> and \<open>fd_bs_thread\<close> whether there is a thread to join,
  \<open>fd_run_cb\<close> and \<open>fd_fl_lock\<close> are the flags \<^verbatim>\<open>FEND_FL_RUN_CB\<close> and \<^verbatim>\<open>FEND_FL_LOCK\<close>.
\<close>

record fend_device =
  fd_dev_no :: int
  fd_drv_data :: int
  fd_open_count :: int
  fd_enable_thread :: bool
  fd_thread :: bool
  fd_lock :: bool
  fd_run_cb :: bool
  fd_fl_lock :: bool
  fd_cb :: "fend_fn option"
  fd_curr_mode :: int
  fd_user_data :: fend_ptr
  fd_enable_cb :: bool
  fd_enable_blindscan_thread :: bool
  fd_bs_thread :: bool
  fd_blindscan_cb :: "nat option"
  fd_blindscan_cb_user_data :: nat
  fd_bs_setting :: bs_setting

text \<open>\<open>fend_frames\<close> are the variables \<^verbatim>\<open>lockp\<close> of the calls of \<^verbatim>\<open>AM_FEND_Lock\<close> in progress, by thread.\<close>

record 'e fend_state =
  fend_devices :: "fend_device list"
  fend_frames :: "nat \<rightharpoonup> fend_lock_para"
  fend_os :: 'e

definition upd_fend :: "nat \<Rightarrow> (fend_device \<Rightarrow> fend_device) \<Rightarrow> 'e fend_state \<Rightarrow> 'e fend_state" where
  "upd_fend i f st = st\<lparr>fend_devices := (fend_devices st)[i := f (fend_devices st ! i)]\<rparr>"

definition fend_get_dev :: "int \<Rightarrow> errcode + nat" where
  "fend_get_dev dev_no =
     (if dev_no < 0 \<or> dev_no \<ge> int FEND_DEV_COUNT then Inl AM_FEND_ERR_INVALID_DEV_NO else Inr (nat dev_no))"

definition fend_get_openned_dev :: "'e fend_state \<Rightarrow> int \<Rightarrow> errcode + nat" where
  "fend_get_openned_dev st dev_no =
     (case fend_get_dev dev_no of
        Inl err \<Rightarrow> Inl err
      | Inr i \<Rightarrow> if fd_open_count (fend_devices st ! i) \<le> 0 then Inl AM_FEND_ERR_INVALID_DEV_NO else Inr i)"

subsection \<open>Opening and closing\<close>

text \<open>\<open>created\<close> says whether \<^verbatim>\<open>pthread_create\<close> succeeds.\<close>

definition AM_FEND_Open :: "'e fend_driver \<Rightarrow> bool \<Rightarrow> int \<Rightarrow> int \<Rightarrow> 'e fend_state \<Rightarrow> errcode \<times> 'e fend_state" where
  "AM_FEND_Open drv created dev_no mode st =
     (case fend_get_dev dev_no of
        Inl err \<Rightarrow> (err, st)
      | Inr i \<Rightarrow>
          let dev = fend_devices st ! i in
          if fd_open_count dev > 0 then (AM_SUCCESS, upd_fend i (\<lambda>dev. dev\<lparr>fd_open_count := fd_open_count dev + 1\<rparr>) st)
          else
            (case (case fe_open drv of None \<Rightarrow> ((AM_SUCCESS, fd_drv_data dev), fend_os st)
                   | Some f \<Rightarrow> f (fd_dev_no dev) mode (fd_drv_data dev) (fend_os st)) of
               ((r, d), e) \<Rightarrow>
                 let st1 = (upd_fend i (\<lambda>dev. dev\<lparr>fd_drv_data := d\<rparr>) st)\<lparr>fend_os := e\<rparr> in
                 if r \<noteq> AM_SUCCESS then (r, st1)
                 else
                   let st2 = upd_fend i (\<lambda>dev. dev\<lparr>fd_lock := True, fd_dev_no := dev_no, fd_open_count := 1, fd_enable_thread := True,
                         fd_run_cb := False, fd_fl_lock := False, fd_enable_cb := True, fd_curr_mode := mode\<rparr>) st1 in
                   if \<not> created
                   then (AM_FEND_ERR_CANNOT_CREATE_THREAD,
                         (upd_fend i (\<lambda>dev. dev\<lparr>fd_lock := False, fd_open_count := 0\<rparr>) st2)
                           \<lparr>fend_os := (case fe_close drv of None \<Rightarrow> e | Some f \<Rightarrow> snd (f d e))\<rparr>)
                   else (AM_SUCCESS, upd_fend i (\<lambda>dev. dev\<lparr>fd_thread := True\<rparr>) st2)))"

definition AM_FEND_Close :: "'e fend_driver \<Rightarrow> int \<Rightarrow> 'e fend_state \<Rightarrow> (errcode \<times> 'e fend_state) option" where
  "AM_FEND_Close drv dev_no st =
     (case fend_get_openned_dev st dev_no of
        Inl err \<Rightarrow> Some (err, st)
      | Inr i \<Rightarrow>
          let dev = fend_devices st ! i in
          if fd_open_count dev = 1
          then (if \<not> fd_thread dev then None
                else Some (AM_SUCCESS,
                  (upd_fend i (\<lambda>dev. dev\<lparr>fd_enable_cb := False, fd_enable_thread := False, fd_thread := False, fd_lock := False,
                       fd_open_count := fd_open_count dev - 1\<rparr>) st)
                    \<lparr>fend_os := (case fe_close drv of None \<Rightarrow> fend_os st | Some f \<Rightarrow> snd (f (fd_drv_data dev) (fend_os st)))\<rparr>))
          else Some (AM_SUCCESS, upd_fend i (\<lambda>dev. dev\<lparr>fd_open_count := fd_open_count dev - 1\<rparr>) st))"

subsection \<open>Functions that forward to the driver\<close>

text \<open>
  \<open>g\<close> is the function of the driver, \<open>none\<close> what is stored when it is not called, \<open>self\<close> whether the caller is the event thread where
  the function asks for that.
\<close>

definition fend_forward :: "bool \<Rightarrow> 'e fend_state \<Rightarrow> int \<Rightarrow> 'r \<Rightarrow> (int \<Rightarrow> 'e \<Rightarrow> (errcode \<times> 'r) \<times> 'e) option
    \<Rightarrow> ((errcode \<times> 'r) \<times> 'e fend_state) option" where
  "fend_forward self st dev_no none g =
     (case fend_get_openned_dev st dev_no of
        Inl err \<Rightarrow> Some ((err, none), st)
      | Inr i \<Rightarrow>
         (case g of
            None \<Rightarrow> Some ((AM_FEND_ERR_NOT_SUPPORTED, none), st)
          | Some f \<Rightarrow>
              if self then Some ((AM_FEND_ERR_INVOKE_IN_CB, none), st)
              else if \<not> fd_lock (fend_devices st ! i) then None
              else (case f (fd_drv_data (fend_devices st ! i)) (fend_os st) of (r, e) \<Rightarrow> Some (r, st\<lparr>fend_os := e\<rparr>))))"

abbreviation fplain :: "(int \<Rightarrow> 'e \<Rightarrow> errcode \<times> 'e) option \<Rightarrow> (int \<Rightarrow> 'e \<Rightarrow> (errcode \<times> unit) \<times> 'e) option" where
  "fplain \<equiv> map_option (\<lambda>f fd e. case f fd e of (r, e1) \<Rightarrow> ((r, ()), e1))"

abbreviation farg :: "'a \<Rightarrow> (int \<Rightarrow> 'a \<Rightarrow> 'e \<Rightarrow> errcode \<times> 'e) option \<Rightarrow> (int \<Rightarrow> 'e \<Rightarrow> (errcode \<times> unit) \<times> 'e) option" where
  "farg x g \<equiv> fplain (map_option (\<lambda>f fd. f fd x) g)"

type_synonym 'e fend_result = "((errcode \<times> unit) \<times> 'e fend_state) option"

definition AM_FEND_SetMode :: "'e fend_driver \<Rightarrow> int \<Rightarrow> int \<Rightarrow> 'e fend_state \<Rightarrow> 'e fend_result" where
  "AM_FEND_SetMode drv dev_no mode st = fend_forward False st dev_no () (farg mode (fe_set_mode drv))"

definition AM_FEND_GetInfo :: "'e fend_driver \<Rightarrow> int \<Rightarrow> 'e fend_state \<Rightarrow> ((errcode \<times> nat option) \<times> 'e fend_state) option" where
  "AM_FEND_GetInfo drv dev_no st = fend_forward False st dev_no None (fe_get_info drv)"

definition AM_FEND_GetTSSource :: "'e fend_driver \<Rightarrow> int \<Rightarrow> 'e fend_state \<Rightarrow> ((errcode \<times> int option) \<times> 'e fend_state) option" where
  "AM_FEND_GetTSSource drv dev_no st = fend_forward False st dev_no None (fe_get_ts drv)"

definition AM_FEND_SetPara :: "'e fend_driver \<Rightarrow> int \<Rightarrow> fend_parameters \<Rightarrow> 'e fend_state \<Rightarrow> 'e fend_result" where
  "AM_FEND_SetPara drv dev_no para st = fend_forward False st dev_no () (farg para (fe_set_para drv))"

definition AM_FEND_SetProp :: "'e fend_driver \<Rightarrow> int \<Rightarrow> nat \<Rightarrow> 'e fend_state \<Rightarrow> 'e fend_result" where
  "AM_FEND_SetProp drv dev_no prop st = fend_forward False st dev_no () (farg prop (fe_set_prop drv))"

definition AM_FEND_GetPara :: "'e fend_driver \<Rightarrow> int \<Rightarrow> 'e fend_state \<Rightarrow> ((errcode \<times> fend_parameters option) \<times> 'e fend_state) option" where
  "AM_FEND_GetPara drv dev_no st = fend_forward False st dev_no None (fe_get_para drv)"

definition AM_FEND_GetProp :: "'e fend_driver \<Rightarrow> int \<Rightarrow> 'e fend_state \<Rightarrow> ((errcode \<times> nat option) \<times> 'e fend_state) option" where
  "AM_FEND_GetProp drv dev_no st = fend_forward False st dev_no None (fe_get_prop drv)"

definition AM_FEND_GetStatus :: "'e fend_driver \<Rightarrow> int \<Rightarrow> 'e fend_state \<Rightarrow> ((errcode \<times> 32 word option) \<times> 'e fend_state) option" where
  "AM_FEND_GetStatus drv dev_no st = fend_forward False st dev_no None (fe_get_status drv)"

definition AM_FEND_GetSNR :: "'e fend_driver \<Rightarrow> int \<Rightarrow> 'e fend_state \<Rightarrow> ((errcode \<times> int option) \<times> 'e fend_state) option" where
  "AM_FEND_GetSNR drv dev_no st = fend_forward False st dev_no None (fe_get_snr drv)"

definition AM_FEND_GetBER :: "'e fend_driver \<Rightarrow> int \<Rightarrow> 'e fend_state \<Rightarrow> ((errcode \<times> int option) \<times> 'e fend_state) option" where
  "AM_FEND_GetBER drv dev_no st = fend_forward False st dev_no None (fe_get_ber drv)"

definition AM_FEND_GetStrength :: "'e fend_driver \<Rightarrow> int \<Rightarrow> 'e fend_state \<Rightarrow> ((errcode \<times> int option) \<times> 'e fend_state) option" where
  "AM_FEND_GetStrength drv dev_no st = fend_forward False st dev_no None (fe_get_strength drv)"

text \<open>\<^verbatim>\<open>AM_FEND_SetThreadDelay\<close> asks for \<^verbatim>\<open>set_para\<close> and calls \<^verbatim>\<open>set_delay\<close> if there is one.\<close>

definition AM_FEND_SetThreadDelay :: "'e fend_driver \<Rightarrow> bool \<Rightarrow> int \<Rightarrow> int \<Rightarrow> 'e fend_state \<Rightarrow> 'e fend_result" where
  "AM_FEND_SetThreadDelay drv self dev_no delay st =
     fend_forward self st dev_no ()
       (case fe_set_para drv of
          None \<Rightarrow> None
        | Some _ \<Rightarrow> (case fe_set_delay drv of None \<Rightarrow> Some (\<lambda>fd e. ((AM_SUCCESS, ()), e)) | Some f \<Rightarrow> farg delay (Some f)))"

definition AM_FEND_DiseqcResetOverload :: "'e fend_driver \<Rightarrow> bool \<Rightarrow> int \<Rightarrow> 'e fend_state \<Rightarrow> 'e fend_result" where
  "AM_FEND_DiseqcResetOverload drv self dev_no st = fend_forward self st dev_no () (fplain (fe_diseqc_reset_overload drv))"

definition AM_FEND_DiseqcSendMasterCmd :: "'e fend_driver \<Rightarrow> bool \<Rightarrow> int \<Rightarrow> byte list \<Rightarrow> 'e fend_state \<Rightarrow> 'e fend_result" where
  "AM_FEND_DiseqcSendMasterCmd drv self dev_no cmd st = fend_forward self st dev_no () (farg cmd (fe_diseqc_send_master_cmd drv))"

definition AM_FEND_DiseqcRecvSlaveReply :: "'e fend_driver \<Rightarrow> bool \<Rightarrow> int \<Rightarrow> 'e fend_state \<Rightarrow> ((errcode \<times> byte list option) \<times> 'e fend_state) option" where
  "AM_FEND_DiseqcRecvSlaveReply drv self dev_no st = fend_forward self st dev_no None (fe_diseqc_recv_slave_reply drv)"

definition AM_FEND_DiseqcSendBurst :: "'e fend_driver \<Rightarrow> bool \<Rightarrow> int \<Rightarrow> int \<Rightarrow> 'e fend_state \<Rightarrow> 'e fend_result" where
  "AM_FEND_DiseqcSendBurst drv self dev_no minicmd st = fend_forward self st dev_no () (farg minicmd (fe_diseqc_send_burst drv))"

definition AM_FEND_SetTone :: "'e fend_driver \<Rightarrow> bool \<Rightarrow> int \<Rightarrow> int \<Rightarrow> 'e fend_state \<Rightarrow> 'e fend_result" where
  "AM_FEND_SetTone drv self dev_no tone st = fend_forward self st dev_no () (farg tone (fe_set_tone drv))"

definition AM_FEND_SetVoltage :: "'e fend_driver \<Rightarrow> bool \<Rightarrow> int \<Rightarrow> int \<Rightarrow> 'e fend_state \<Rightarrow> 'e fend_result" where
  "AM_FEND_SetVoltage drv self dev_no voltage st = fend_forward self st dev_no () (farg voltage (fe_set_voltage drv))"

definition AM_FEND_EnableHighLnbVoltage :: "'e fend_driver \<Rightarrow> bool \<Rightarrow> int \<Rightarrow> int \<Rightarrow> 'e fend_state \<Rightarrow> 'e fend_result" where
  "AM_FEND_EnableHighLnbVoltage drv self dev_no arg st = fend_forward self st dev_no () (farg arg (fe_enable_high_lnb_voltage drv))"

definition AM_FEND_FineTune :: "'e fend_driver \<Rightarrow> int \<Rightarrow> 32 word \<Rightarrow> 'e fend_state \<Rightarrow> 'e fend_result" where
  "AM_FEND_FineTune drv dev_no freq st = fend_forward False st dev_no () (farg freq (fe_fine_tune drv))"

definition AM_FEND_SetCvbsAmpOut :: "'e fend_driver \<Rightarrow> int \<Rightarrow> 32 word \<Rightarrow> 'e fend_state \<Rightarrow> 'e fend_result" where
  "AM_FEND_SetCvbsAmpOut drv dev_no amp st = fend_forward False st dev_no ()
    (farg \<lparr>tp_cmd = TUNER_CMD_SET_CVBS_AMP_OUT, tp_parm = amp\<rparr> (fe_set_cvbs_amp_out drv))"

definition AM_FEND_GetAtvStatus :: "'e fend_driver \<Rightarrow> int \<Rightarrow> 'e fend_state \<Rightarrow> ((errcode \<times> nat option) \<times> 'e fend_state) option" where
  "AM_FEND_GetAtvStatus drv dev_no st = fend_forward False st dev_no None (fe_get_atv_status drv)"

definition AM_FEND_SetAfc :: "'e fend_driver \<Rightarrow> int \<Rightarrow> 32 word \<Rightarrow> 'e fend_state \<Rightarrow> 'e fend_result" where
  "AM_FEND_SetAfc drv dev_no afc st = fend_forward False st dev_no () (farg afc (fe_set_afc drv))"

end
