(* ===== verification/Fend_Thread.thy ===== *)
theory Fend_Thread
  imports Am_Fend
begin

text \<open>
  The event thread of the front end, its callbacks and \<^verbatim>\<open>AM_FEND_Lock\<close> (\<^verbatim>\<open>am_fend.c\<close>). The thread waits for an event without the lock,
  then sets \<^verbatim>\<open>FEND_FL_RUN_CB\<close>, calls back without the lock, and clears the flag; these are three steps. \<^verbatim>\<open>AM_FEND_Lock\<close> installs its own
  callback with a pointer to a variable on its stack and waits until that has seen the event; it is one step before and one step
  after the wait.
\<close>

subsection \<open>Callbacks\<close>

datatype fend_call = AppCall nat int fend_event fend_ptr | StatusChanged int fend_event

text \<open>
  A call of the callback \<open>fn\<close> with the user data \<open>p\<close> for the device with number \<open>n\<close> and index \<open>i\<close>. For \<^verbatim>\<open>fend_lock_cb\<close>: the variable \<^verbatim>\<open>lockp\<close> must
  still exist (\<^verbatim>\<open>fend_get_openned_dev\<close> stores the device even when it is not open, and its result is ignored); a matching event with a status is stored and wakes the caller, and the callback that was installed before is
  called.
\<close>

partial_function (option) fend_callback :: "nat \<Rightarrow> fend_event \<Rightarrow> fend_fn \<Rightarrow> fend_ptr \<Rightarrow> 'e fend_state
    \<Rightarrow> (fend_call list \<times> 'e fend_state) option" where
  "fend_callback i ev fn p st =
     (let dev = fend_devices st ! i in
      case fn of
        App f \<Rightarrow> Some ([AppCall f (fd_dev_no dev) ev p], st)
      | LockFn \<Rightarrow>
         (case p of
            Ptr _ \<Rightarrow> None
          | Frame t \<Rightarrow>
             (case fend_frames st t of
                None \<Rightarrow> None
              | Some lp \<Rightarrow>
                  if \<not> fend_para_equal (fd_curr_mode dev) (ev_parameters ev) (lp_para lp) then Some ([], st)
                  else if ev_status ev = 0 then Some ([], st)
                  else if \<not> fd_lock dev then None
                  else
                    let st1 = upd_fend i (\<lambda>dev. dev\<lparr>fd_fl_lock := False\<rparr>)
                                (st\<lparr>fend_frames := (fend_frames st)(t \<mapsto> lp\<lparr>lp_status := Some (ev_status ev)\<rparr>)\<rparr>) in
                    (case lp_old_cb lp of
                       None \<Rightarrow> Some ([], st1)
                     | Some g \<Rightarrow> fend_callback i ev g (lp_old_data lp) st1))))"

subsection \<open>The event thread\<close>

text \<open>
  \<open>AwaitEvent\<close>: at \<^verbatim>\<open>wait_event\<close>; \<open>CallBack\<close>: the flag is set, with the event if there is one; \<open>Finished\<close>: callbacks are done.
\<close>

datatype fend_phase = AwaitEvent | CallBack "fend_event option" | Finished

text \<open>
  \<open>ret\<close> is the variable of the thread, which keeps \<^verbatim>\<open>AM_FAILURE\<close> when the driver has no \<^verbatim>\<open>wait_event\<close>. A driver that reports success has
  stored the event.
\<close>

definition fend_wait :: "'e fend_driver \<Rightarrow> nat \<Rightarrow> 'e fend_state \<Rightarrow> (fend_event option \<times> 'e fend_state)" where
  "fend_wait drv i st =
     (case fe_wait_event drv of
        None \<Rightarrow> (None, st)
      | Some f \<Rightarrow>
         (case f (fd_drv_data (fend_devices st ! i)) FEND_WAIT_TIMEOUT (fend_os st) of
            ((r, ev), e) \<Rightarrow> (if r = AM_SUCCESS then ev else None, st\<lparr>fend_os := e\<rparr>)))"

definition fend_take :: "nat \<Rightarrow> 'e fend_state \<Rightarrow> 'e fend_state" where
  "fend_take i st = upd_fend i (\<lambda>dev. dev\<lparr>fd_run_cb := True\<rparr>) st"

definition fend_call_back :: "nat \<Rightarrow> fend_event option \<Rightarrow> 'e fend_state \<Rightarrow> (fend_call list \<times> 'e fend_state) option" where
  "fend_call_back i evo st =
     (case evo of
        None \<Rightarrow> Some ([], st)
      | Some ev \<Rightarrow>
          let dev = fend_devices st ! i in
          do { (calls, st1) \<leftarrow> (case fd_cb dev of
                                   Some fn \<Rightarrow> if fd_enable_cb dev then fend_callback i ev fn (fd_user_data dev) st else Some ([], st)
                                 | None \<Rightarrow> Some ([], st));
               let dev1 = fend_devices st1 ! i;
               Some (calls @ (if fd_enable_cb dev1 then [StatusChanged (fd_dev_no dev1) ev] else []), st1) })"

definition fend_finish :: "nat \<Rightarrow> 'e fend_state \<Rightarrow> 'e fend_state" where
  "fend_finish i st = upd_fend i (\<lambda>dev. dev\<lparr>fd_run_cb := False\<rparr>) st"

subsection \<open>Callback registration\<close>

definition AM_FEND_GetCallback :: "int \<Rightarrow> 'e fend_state \<Rightarrow> (errcode \<times> (fend_fn option \<times> fend_ptr) option) option" where
  "AM_FEND_GetCallback dev_no st =
     (case fend_get_openned_dev st dev_no of
        Inl err \<Rightarrow> Some (err, None)
      | Inr i \<Rightarrow> let dev = fend_devices st ! i in if \<not> fd_lock dev then None else Some (AM_SUCCESS, Some (fd_cb dev, fd_user_data dev)))"

text \<open>\<open>self\<close> says whether the caller is the event thread.\<close>

definition AM_FEND_SetCallback :: "bool \<Rightarrow> int \<Rightarrow> fend_fn option \<Rightarrow> fend_ptr \<Rightarrow> 'e fend_state \<Rightarrow> ((unit + errcode) \<times> 'e fend_state) option" where
  "AM_FEND_SetCallback self dev_no cb user_data st =
     (case fend_get_openned_dev st dev_no of
        Inl err \<Rightarrow> Some (Inr err, st)
      | Inr i \<Rightarrow>
          let dev = fend_devices st ! i in
          if \<not> fd_lock dev then None
          else if cb \<noteq> fd_cb dev \<or> user_data \<noteq> fd_user_data dev
          then (if fd_enable_thread dev \<and> \<not> self \<and> fd_run_cb dev then Some (Inl (), st)
                else Some (Inr AM_SUCCESS, upd_fend i (\<lambda>dev. dev\<lparr>fd_cb := cb, fd_user_data := user_data\<rparr>) st))
          else Some (Inr AM_SUCCESS, st))"

definition AM_FEND_SetActionCallback :: "int \<Rightarrow> bool \<Rightarrow> 'e fend_state \<Rightarrow> (errcode \<times> 'e fend_state) option" where
  "AM_FEND_SetActionCallback dev_no enable_cb st =
     (case fend_get_openned_dev st dev_no of
        Inl err \<Rightarrow> Some (err, st)
      | Inr i \<Rightarrow>
          if \<not> fd_lock (fend_devices st ! i) then None
          else Some (AM_SUCCESS, if enable_cb \<noteq> fd_enable_cb (fend_devices st ! i)
                                 then upd_fend i (\<lambda>dev. dev\<lparr>fd_enable_cb := enable_cb\<rparr>) st else st))"

subsection \<open>Waiting for a signal\<close>

text \<open>
  \<open>fend_lock_begin\<close> is \<^verbatim>\<open>AM_FEND_Lock\<close> of the thread \<open>t\<close> up to the second wait: \<open>Inl ()\<close> means that it has to wait for a callback, \<open>Inr (Inl r)\<close> that it returns
  \<open>r\<close>, \<open>Inr (Inr ())\<close> that it waits for the event. \<open>fend_lock_end\<close> is the rest, with the result, and \<^verbatim>\<open>*status\<close> if it was stored.
\<close>

definition fend_lock_begin :: "'e fend_driver \<Rightarrow> bool \<Rightarrow> nat \<Rightarrow> int \<Rightarrow> fend_parameters \<Rightarrow> 'e fend_state
    \<Rightarrow> ((unit + errcode + unit) \<times> 'e fend_state) option" where
  "fend_lock_begin drv self t dev_no para st =
     (case fend_get_openned_dev st dev_no of
        Inl err \<Rightarrow> Some (Inr (Inl err), st)
      | Inr i \<Rightarrow>
          let dev = fend_devices st ! i in
          (case fe_set_para drv of
             None \<Rightarrow> Some (Inr (Inl AM_FEND_ERR_NOT_SUPPORTED), st)
           | Some f \<Rightarrow>
               if self then Some (Inr (Inl AM_FEND_ERR_INVOKE_IN_CB), st)
               else if \<not> fd_lock dev then None
               else if fd_run_cb dev then Some (Inl (), st)
               else
                 let lockp = \<lparr>lp_para = para, lp_status = None, lp_old_cb = fd_cb dev, lp_old_data = fd_user_data dev\<rparr>;
                     st1 = upd_fend i (\<lambda>dev. dev\<lparr>fd_cb := Some LockFn, fd_user_data := Frame t, fd_fl_lock := True\<rparr>)
                             (st\<lparr>fend_frames := (fend_frames st)(t \<mapsto> lockp)\<rparr>) in
                 (case f (fd_drv_data dev) para (fend_os st1) of
                    (r, e) \<Rightarrow>
                      if r = AM_SUCCESS then Some (Inr (Inr ()), st1\<lparr>fend_os := e\<rparr>)
                      else Some (Inr (Inl r), (upd_fend i (\<lambda>dev. dev\<lparr>fd_cb := lp_old_cb lockp, fd_user_data := lp_old_data lockp\<rparr>) st1)
                                                \<lparr>fend_frames := (fend_frames st1)(t := None), fend_os := e\<rparr>))))"

definition fend_lock_end :: "nat \<Rightarrow> nat \<Rightarrow> 'e fend_state \<Rightarrow> ((unit + errcode \<times> 32 word option) \<times> 'e fend_state) option" where
  "fend_lock_end t i st =
     (case fend_frames st t of
        None \<Rightarrow> None
      | Some lockp \<Rightarrow>
          let dev = fend_devices st ! i in
          if fd_run_cb dev \<or> fd_fl_lock dev then Some (Inl (), st)
          else Some (Inr (AM_SUCCESS, lp_status lockp),
                 (upd_fend i (\<lambda>dev. dev\<lparr>fd_cb := lp_old_cb lockp, fd_user_data := lp_old_data lockp\<rparr>) st)
                   \<lparr>fend_frames := (fend_frames st)(t := None)\<rparr>))"

subsection \<open>Runs of one device\<close>

text \<open>
  The configurations of a run of the device \<open>i\<close>: state, phase of the event thread and, as a record of what happened, the events
  handed to the callback since the last begin of a \<^verbatim>\<open>AM_FEND_Lock\<close>, and the results of \<^verbatim>\<open>AM_FEND_Lock\<close>.
\<close>

record 'e fend_config =
  fc_state :: "'e fend_state"
  fc_phase :: fend_phase
  fc_events :: "fend_event list"
  fc_returned :: "(nat \<times> 32 word option) list"

text \<open>
  Steps of the event thread, and of the device: besides those of the thread a \<^verbatim>\<open>AM_FEND_Lock\<close> that starts to wait, fails or returns, the registration of a
  callback of the application by another thread, switching callbacks on and off, and setting the mode. What the application does in its callbacks is not
  a step of its own.
\<close>

inductive fend_thread_step :: "'e fend_driver \<Rightarrow> nat \<Rightarrow> 'e fend_config \<Rightarrow> 'e fend_config \<Rightarrow> bool" for drv i where
  take: "fc_phase c = AwaitEvent \<Longrightarrow> fd_enable_thread (fend_devices (fc_state c) ! i) \<Longrightarrow> fend_wait drv i (fc_state c) = (evo, st)
    \<Longrightarrow> fend_thread_step drv i c (c\<lparr>fc_state := fend_take i st, fc_phase := CallBack evo\<rparr>)"
| call: "fc_phase c = CallBack evo \<Longrightarrow> fend_call_back i evo (fc_state c) = Some (calls, st)
    \<Longrightarrow> fend_thread_step drv i c (c\<lparr>fc_state := st, fc_phase := Finished, fc_events := fc_events c @ (case evo of None \<Rightarrow> [] | Some ev \<Rightarrow> [ev])\<rparr>)"
| finish: "fc_phase c = Finished \<Longrightarrow> fend_thread_step drv i c (c\<lparr>fc_state := fend_finish i (fc_state c), fc_phase := AwaitEvent\<rparr>)"

inductive fend_step :: "'e fend_driver \<Rightarrow> nat \<Rightarrow> 'e fend_config \<Rightarrow> 'e fend_config \<Rightarrow> bool" for drv i where
  thread: "fend_thread_step drv i c c' \<Longrightarrow> fend_step drv i c c'"
| lock_wait: "fend_frames (fc_state c) t = None \<Longrightarrow> fend_lock_begin drv False t (int i) para (fc_state c) = Some (Inr (Inr ()), st)
    \<Longrightarrow> fend_step drv i c (c\<lparr>fc_state := st, fc_events := []\<rparr>)"
| lock_fail: "fend_frames (fc_state c) t = None \<Longrightarrow> fend_lock_begin drv False t (int i) para (fc_state c) = Some (Inr (Inl r), st)
    \<Longrightarrow> fend_step drv i c (c\<lparr>fc_state := st\<rparr>)"
| lock_return: "fend_lock_end t i (fc_state c) = Some (Inr (r, s), st)
    \<Longrightarrow> fend_step drv i c (c\<lparr>fc_state := st, fc_returned := (t, s) # fc_returned c\<rparr>)"
| set_cb: "AM_FEND_SetCallback False (int i) (map_option App cb) (Ptr p) (fc_state c) = Some (Inr r, st)
    \<Longrightarrow> fend_step drv i c (c\<lparr>fc_state := st\<rparr>)"
| set_action: "AM_FEND_SetActionCallback (int i) b (fc_state c) = Some (r, st) \<Longrightarrow> fend_step drv i c (c\<lparr>fc_state := st\<rparr>)"
| set_mode: "AM_FEND_SetMode drv (int i) mode (fc_state c) = Some (r, st) \<Longrightarrow> fend_step drv i c (c\<lparr>fc_state := st\<rparr>)"

end
