(* ===== verification/Fend_Facts.thy ===== *)
theory Fend_Facts
  imports Fend_Thread
begin

text \<open>
  \<^verbatim>\<open>AM_FEND_Lock\<close> and the event thread: when the call returns and with what, and two ways in which it fails.
\<close>

named_theorems fend_upd \<open>selectors after an update of a device\<close>

lemma upd_fend_simps [fend_upd, simp]:
  "fend_frames (upd_fend i f st) = fend_frames st" "fend_os (upd_fend i f st) = fend_os st"
  "length (fend_devices (upd_fend i f st)) = length (fend_devices st)"
  by (simp_all add: upd_fend_def)

lemma upd_fend_dev [fend_upd, simp]: "i < length (fend_devices st) \<Longrightarrow> fend_devices (upd_fend i f st) ! i = f (fend_devices st ! i)"
  by (simp add: upd_fend_def)

lemma fend_openned: "fend_get_openned_dev st n = Inr i \<longleftrightarrow> n = int i \<and> i < 2 \<and> 0 < fd_open_count (fend_devices st ! i)"
  by (auto simp: fend_get_openned_dev_def fend_get_dev_def)

subsection \<open>An example\<close>

text \<open>A driver that accepts all parameters and reports the events of a list one after the other.\<close>

definition demo_fend :: "fend_event list fend_driver" where
  "demo_fend = \<lparr>fe_open = Some (\<lambda>n mode d e. ((AM_SUCCESS, 5), e)), fe_set_mode = Some (\<lambda>d mode e. (AM_SUCCESS, e)), fe_get_info = None,
     fe_get_ts = None, fe_set_para = Some (\<lambda>d p e. (AM_SUCCESS, e)), fe_get_para = None, fe_get_status = None, fe_get_snr = None,
     fe_get_ber = None, fe_get_strength = None,
     fe_wait_event = Some (\<lambda>d tmo e. case e of [] \<Rightarrow> ((AM_FEND_ERR_TIMEOUT, None), []) | ev # evs \<Rightarrow> ((AM_SUCCESS, Some ev), evs)),
     fe_set_delay = None, fe_diseqc_reset_overload = None, fe_diseqc_send_master_cmd = None, fe_diseqc_recv_slave_reply = None,
     fe_diseqc_send_burst = None, fe_set_tone = None, fe_set_voltage = None, fe_enable_high_lnb_voltage = None, fe_close = None,
     fe_set_prop = None, fe_get_prop = None, fe_blindscan_scan = None, fe_blindscan_getscanevent = None, fe_blindscan_cancel = None,
     fe_fine_tune = None, fe_set_cvbs_amp_out = None, fe_get_atv_status = None, fe_set_afc = None\<rparr>"

definition demo_para :: "32 word \<Rightarrow> fend_parameters" where
  "demo_para f = \<lparr>frequency = f, inversion = 0, param_u = [6875, 0, 3]\<rparr>"

definition demo_device :: fend_device where
  "demo_device = \<lparr>fd_dev_no = 0, fd_drv_data = 0, fd_open_count = 0, fd_enable_thread = False, fd_thread = False, fd_lock = False,
     fd_run_cb = False, fd_fl_lock = False, fd_cb = None, fd_curr_mode = 0, fd_user_data = Ptr 0, fd_enable_cb = False,
     fd_enable_blindscan_thread = False, fd_bs_thread = False, fd_blindscan_cb = None, fd_blindscan_cb_user_data = 0,
     fd_bs_setting = \<lparr>m_uiChannelCount = 0, channels = replicate FEND_BS_MAX_CHANNEL (demo_para 0),
       bsEvent = \<lparr>be_status = BLINDSCAN_NONEDO, be_param = demo_para 0\<rparr>,
       bsPara = \<lparr>minfrequency = 0, maxfrequency = 0, minSymbolRate = 0, maxSymbolRate = 0, frequencyRange = 0, frequencyStep = 0, bs_timeout = 0\<rparr>\<rparr>\<rparr>"

text \<open>Device 0 after \<^verbatim>\<open>AM_FEND_Open\<close> with the given mode.\<close>

definition demo_open :: "int \<Rightarrow> fend_event list \<Rightarrow> fend_event list fend_state" where
  "demo_open mode evs = snd (AM_FEND_Open demo_fend True 0 mode
     \<lparr>fend_devices = [demo_device, demo_device\<lparr>fd_dev_no := 1\<rparr>], fend_frames = (\<lambda>_. None), fend_os = evs\<rparr>)"

lemmas demo_fend_defs = demo_fend_def demo_para_def demo_device_def demo_open_def AM_FEND_Open_def fend_get_dev_def upd_fend_def fend_codes

lemma demo_open_dev [simp]:
  "length (fend_devices (demo_open mode evs)) = 2" "fd_cb (fend_devices (demo_open mode evs) ! 0) = None"
  "fd_user_data (fend_devices (demo_open mode evs) ! 0) = Ptr 0" "fd_enable_cb (fend_devices (demo_open mode evs) ! 0)"
  "fd_enable_thread (fend_devices (demo_open mode evs) ! 0)" "fd_open_count (fend_devices (demo_open mode evs) ! 0) = 1"
  "fd_lock (fend_devices (demo_open mode evs) ! 0)" "\<not> fd_run_cb (fend_devices (demo_open mode evs) ! 0)"
  "fend_frames (demo_open mode evs) = (\<lambda>_. None)" "fd_curr_mode (fend_devices (demo_open mode evs) ! 0) = mode"
  by (simp_all add: demo_fend_defs)

lemma demo_begin:
  "fend_lock_begin demo_fend False t 0 para (demo_open mode evs) = Some (Inr (Inr ()), snd (the (fend_lock_begin demo_fend False t 0 para (demo_open mode evs))))"
  by (simp add: fend_lock_begin_def fend_get_openned_dev_def fend_get_dev_def Let_def) (simp add: demo_fend_def)

subsection \<open>One caller\<close>

text \<open>The event that \<^verbatim>\<open>AM_FEND_Lock\<close> waits for.\<close>

definition fend_signal :: "int \<Rightarrow> fend_parameters \<Rightarrow> fend_event \<Rightarrow> bool" where
  "fend_signal mode para ev \<longleftrightarrow> fend_para_equal mode (ev_parameters ev) para \<and> ev_status ev \<noteq> 0"

text \<open>The status of the last such event.\<close>

definition fend_last_status :: "int \<Rightarrow> fend_parameters \<Rightarrow> fend_event list \<Rightarrow> 32 word option" where
  "fend_last_status mode para evs =
     (let seen = filter (fend_signal mode para) evs in if seen = [] then None else Some (ev_status (last seen)))"

lemma fend_last_status_simps [simp]:
  "fend_last_status mode para [] = None"
  "fend_last_status mode para (evs @ [ev]) = (if fend_signal mode para ev then Some (ev_status ev) else fend_last_status mode para evs)"
  by (auto simp: fend_last_status_def Let_def)

lemma fend_last_status_SomeD: "fend_last_status mode para evs = Some s \<Longrightarrow> \<exists>ev \<in> set evs. fend_signal mode para ev \<and> s = ev_status ev"
  by (induction evs rule: rev_induct) (auto split: if_splits)

text \<open>The configurations while the thread \<open>t\<close> waits and no other thread interferes; \<open>old\<close> and \<open>p\<close> are the callback of the application.\<close>

definition fend_waiting :: "nat \<Rightarrow> nat \<Rightarrow> fend_parameters \<Rightarrow> nat option \<Rightarrow> fend_ptr \<Rightarrow> (nat \<rightharpoonup> fend_lock_para) \<Rightarrow> int \<Rightarrow> 'e fend_config \<Rightarrow> bool" where
  "fend_waiting i t para old p others mode c \<longleftrightarrow>
     (let st = fc_state c; dev = fend_devices st ! i in
      i < 2 \<and> length (fend_devices st) = 2 \<and> 0 < fd_open_count dev \<and> fd_lock dev \<and> fd_enable_cb dev \<and> fd_curr_mode dev = mode
      \<and> fd_cb dev = Some LockFn \<and> fd_user_data dev = Frame t \<and> (fd_run_cb dev \<longleftrightarrow> fc_phase c \<noteq> AwaitEvent)
      \<and> (\<exists>s. fend_frames st = others(t \<mapsto> \<lparr>lp_para = para, lp_status = s, lp_old_cb = map_option App old, lp_old_data = p\<rparr>)
             \<and> s = fend_last_status mode para (fc_events c) \<and> (fd_fl_lock dev \<longleftrightarrow> s = None)))"

lemma callback_app: "fend_callback i ev (App f) p st = Some ([AppCall f (fd_dev_no (fend_devices st ! i)) ev p], st)"
  by (subst fend_callback.simps) simp

text \<open>An event in a waiting configuration.\<close>

lemma waiting_callback:
  assumes "fend_waiting i t para old p others mode c"
  shows "\<exists>calls st. fend_call_back i evo (fc_state c) = Some (calls, st) \<and>
    (fc_phase c = CallBack evo \<longrightarrow> fend_waiting i t para old p others mode
       (c\<lparr>fc_state := st, fc_phase := Finished, fc_events := fc_events c @ (case evo of None \<Rightarrow> [] | Some ev \<Rightarrow> [ev])\<rparr>))"
proof (cases evo)
  case None
  with assms show ?thesis by (auto simp: fend_call_back_def fend_waiting_def Let_def)
next
  case (Some ev)
  let ?st = "fc_state c"
  let ?dev = "fend_devices ?st ! i"
  from assms obtain s where w: "i < length (fend_devices ?st)" "fd_lock ?dev" "fd_enable_cb ?dev" "fd_curr_mode ?dev = mode"
    "fd_cb ?dev = Some LockFn" "fd_user_data ?dev = Frame t"
    and fr: "fend_frames ?st = others(t \<mapsto> \<lparr>lp_para = para, lp_status = s, lp_old_cb = map_option App old, lp_old_data = p\<rparr>)"
    by (auto simp: fend_waiting_def Let_def)
  show ?thesis
  proof (cases "fend_signal mode para ev")
    case False
    then have "fend_callback i ev LockFn (Frame t) ?st = Some ([], ?st)"
      using w fr by (subst fend_callback.simps) (auto simp: fend_signal_def)
    then have "fend_call_back i evo ?st = Some ([StatusChanged (fd_dev_no ?dev) ev], ?st)"
      using Some w by (simp add: fend_call_back_def Let_def)
    with Some False assms show ?thesis by (auto simp: fend_waiting_def Let_def)
  next
    case True
    let ?st1 = "upd_fend i (\<lambda>dev. dev\<lparr>fd_fl_lock := False\<rparr>) (?st\<lparr>fend_frames := others(t \<mapsto> \<lparr>lp_para = para,
        lp_status = Some (ev_status ev), lp_old_cb = map_option App old, lp_old_data = p\<rparr>)\<rparr>)"
    have "\<exists>cs. fend_callback i ev LockFn (Frame t) ?st = Some (cs, ?st1)"
      using True w fr by (cases old; subst fend_callback.simps) (simp_all add: fend_signal_def callback_app Let_def)
    then have "\<exists>calls. fend_call_back i evo ?st = Some (calls, ?st1)"
      using Some w by (auto simp: fend_call_back_def Let_def)
    moreover have "fc_phase c = CallBack evo \<Longrightarrow> fend_waiting i t para old p others mode
        (c\<lparr>fc_state := ?st1, fc_phase := Finished, fc_events := fc_events c @ [ev]\<rparr>)"
      using assms True w(1) by (auto simp: fend_waiting_def Let_def)
    ultimately show ?thesis using Some by auto
  qed
qed

lemma waiting_step:
  assumes "fend_thread_step drv i c c'" "fend_waiting i t para old p others mode c"
  shows "fend_waiting i t para old p others mode c'"
  using assms
proof (induction rule: fend_thread_step.induct)
  case (take c evo st)
  then have "st = (fc_state c)\<lparr>fend_os := fend_os st\<rparr>"
    by (auto simp: fend_wait_def split: option.splits prod.splits)
  with take show ?case
    by (cases "fc_state c"; cases st) (auto simp: fend_waiting_def fend_take_def Let_def)
next
  case (call c evo calls st)
  then show ?case using waiting_callback [OF call(3), of evo] by auto
next
  case (finish c)
  then show ?case by (auto simp: fend_waiting_def fend_finish_def Let_def)
qed

lemma waiting_run:
  assumes "(fend_thread_step drv i)\<^sup>*\<^sup>* c c'" "fend_waiting i t para old p others mode c"
  shows "fend_waiting i t para old p others mode c'"
  using assms by (induction rule: rtranclp_induct) (auto intro: waiting_step)

text \<open>What \<^verbatim>\<open>AM_FEND_Lock\<close> does in a waiting configuration.\<close>

lemma waiting_end:
  assumes "fend_waiting i t para old p others mode c" "others t = None"
  shows "fend_lock_end t i (fc_state c) =
    (case fend_last_status mode para (fc_events c) of
       Some s \<Rightarrow> if fc_phase c = AwaitEvent
                 then Some (Inr (AM_SUCCESS, Some s), (upd_fend i (\<lambda>dev. dev\<lparr>fd_cb := map_option App old, fd_user_data := p\<rparr>) (fc_state c))
                              \<lparr>fend_frames := others\<rparr>)
                 else Some (Inl (), fc_state c)
     | None \<Rightarrow> Some (Inl (), fc_state c))"
proof -
  have "others(t := None) = others" using assms(2) by auto
  then show ?thesis using assms(1) by (auto simp: fend_waiting_def fend_lock_end_def Let_def split: option.split)
qed

lemma begin_waiting:
  assumes "fend_lock_begin drv False t (int i) para st = Some (Inr (Inr ()), st1)" "length (fend_devices st) = 2"
    "fd_cb (fend_devices st ! i) = map_option App old" "fd_enable_cb (fend_devices st ! i)"
  shows "fend_waiting i t para old (fd_user_data (fend_devices st ! i)) (fend_frames st) (fd_curr_mode (fend_devices st ! i))
           \<lparr>fc_state = st1, fc_phase = AwaitEvent, fc_events = [], fc_returned = rs\<rparr>"
  using assms
  by (auto simp: fend_lock_begin_def fend_waiting_def Let_def fend_openned split: sum.splits option.splits if_splits prod.splits)

text \<open>
  C21: a lock by one thread, with a callback of the application or none. However the event thread proceeds, it can hand over its event; \<^verbatim>\<open>AM_FEND_Lock\<close>
  keeps waiting exactly as long as no event with the wanted parameters and a nonzero status was handed over or a callback is
  running; it then reports the status of the last such event and reinstalls the callback and the user data it found.
\<close>

theorem lock_reports_signal:
  assumes "fend_lock_begin drv False t (int i) para st = Some (Inr (Inr ()), st1)" "length (fend_devices st) = 2"
    and "fd_cb (fend_devices st ! i) = map_option App old" "fd_enable_cb (fend_devices st ! i)" "fend_frames st t = None"
    and "(fend_thread_step drv i)\<^sup>*\<^sup>* \<lparr>fc_state = st1, fc_phase = AwaitEvent, fc_events = [], fc_returned = []\<rparr> c"
  shows "(\<forall>evo. fc_phase c = CallBack evo \<longrightarrow> fend_call_back i evo (fc_state c) \<noteq> None)
    \<and> (\<forall>res st2. fend_lock_end t i (fc_state c) = Some (Inr res, st2) \<longleftrightarrow>
         fc_phase c = AwaitEvent
         \<and> (\<exists>seen ev. filter (\<lambda>ev. fend_para_equal (fd_curr_mode (fend_devices st ! i)) (ev_parameters ev) para \<and> ev_status ev \<noteq> 0)
                (fc_events c) = seen @ [ev] \<and> res = (AM_SUCCESS, Some (ev_status ev)))
         \<and> st2 = (upd_fend i (\<lambda>dev. dev\<lparr>fd_cb := fd_cb (fend_devices st ! i), fd_user_data := fd_user_data (fend_devices st ! i)\<rparr>) (fc_state c))
                  \<lparr>fend_frames := fend_frames st\<rparr>)"
proof -
  let ?mode = "fd_curr_mode (fend_devices st ! i)"
  have w: "fend_waiting i t para old (fd_user_data (fend_devices st ! i)) (fend_frames st) ?mode c"
    by (rule waiting_run [OF assms(6) begin_waiting [OF assms(1-4)]])
  have sig: "(\<lambda>ev. fend_para_equal ?mode (ev_parameters ev) para \<and> ev_status ev \<noteq> 0) = fend_signal ?mode para"
    by (simp add: fun_eq_iff fend_signal_def)
  have last: "(\<exists>seen ev. filter (fend_signal ?mode para) (fc_events c) = seen @ [ev] \<and> res = (AM_SUCCESS, Some (ev_status ev))) \<longleftrightarrow>
      (\<exists>s. fend_last_status ?mode para (fc_events c) = Some s \<and> res = (AM_SUCCESS, Some s))" for res
    by (cases "filter (fend_signal ?mode para) (fc_events c)" rule: rev_cases) (auto simp: fend_last_status_def)
  show ?thesis
    unfolding sig waiting_end [OF w assms(5)] assms(3) last
    using waiting_callback [OF w] by (intro conjI allI impI) (metis option.distinct(1), auto split: option.split)
qed

text \<open>
  With a matching event in the driver the thread takes it, hands it over and finishes; then \<^verbatim>\<open>AM_FEND_Lock\<close> returns its status.
\<close>

theorem lock_reports_signal_witness:
  "\<exists>c st2. (fend_thread_step demo_fend 0)\<^sup>*\<^sup>*
       \<lparr>fc_state = snd (the (fend_lock_begin demo_fend False 7 (int 0) (demo_para 474000) (demo_open 1 [\<lparr>ev_status = 31, ev_parameters = demo_para 474000\<rparr>]))),
        fc_phase = AwaitEvent, fc_events = [], fc_returned = []\<rparr> c
     \<and> fend_lock_end 7 0 (fc_state c) = Some (Inr (AM_SUCCESS, Some 31), st2)"
proof -
  let ?ev = "\<lparr>ev_status = 31, ev_parameters = demo_para 474000\<rparr>"
  let ?st = "demo_open 1 [?ev]"
  let ?st1 = "snd (the (fend_lock_begin demo_fend False 7 (int 0) (demo_para 474000) ?st))"
  let ?c0 = "\<lparr>fc_state = ?st1, fc_phase = AwaitEvent, fc_events = [], fc_returned = []\<rparr>"
  have begun: "fend_lock_begin demo_fend False 7 (int 0) (demo_para 474000) ?st = Some (Inr (Inr ()), ?st1)"
    using demo_begin by simp
  have cb: "fd_cb (fend_devices ?st ! 0) = map_option App None" by simp
  have free: "fend_frames ?st 7 = None" by simp
  note lock = lock_reports_signal [of demo_fend 7 0 "demo_para 474000" ?st ?st1 None, OF begun _ cb _ free]
  define s2 where "s2 = fend_take 0 (snd (fend_wait demo_fend 0 ?st1))"
  let ?c1 = "?c0\<lparr>fc_state := s2, fc_phase := CallBack (Some ?ev)\<rparr>"
  have "fd_enable_thread (fend_devices ?st1 ! 0)" "fend_wait demo_fend 0 ?st1 = (Some ?ev, snd (fend_wait demo_fend 0 ?st1))"
    by (simp_all add: fend_lock_begin_def fend_get_openned_dev_def fend_wait_def demo_fend_defs)
  then have take: "fend_thread_step demo_fend 0 ?c0 ?c1"
    unfolding s2_def using fend_thread_step.take [of ?c0 0 demo_fend "Some ?ev"] by simp
  then obtain calls s3 where cb: "fend_call_back 0 (Some ?ev) s2 = Some (calls, s3)"
    using lock [OF _ _ r_into_rtranclp [of "fend_thread_step demo_fend 0", OF take]] by auto
  let ?c2 = "?c1\<lparr>fc_state := s3, fc_phase := Finished, fc_events := [?ev]\<rparr>"
  let ?c3 = "?c2\<lparr>fc_state := fend_finish 0 s3, fc_phase := AwaitEvent\<rparr>"
  have call: "fend_thread_step demo_fend 0 ?c1 ?c2" using fend_thread_step.call [of ?c1 "Some ?ev" 0 calls s3 demo_fend] cb by simp
  have finish: "fend_thread_step demo_fend 0 ?c2 ?c3" using fend_thread_step.finish [of ?c2 demo_fend 0] by simp
  have run: "(fend_thread_step demo_fend 0)\<^sup>*\<^sup>* ?c0 ?c3" 
    by (rule converse_rtranclp_into_rtranclp, rule take, rule converse_rtranclp_into_rtranclp, rule call, rule r_into_rtranclp, rule finish)
  have "fend_lock_end 7 0 (fc_state ?c3) = Some (Inr (AM_SUCCESS, Some 31), (upd_fend 0 (\<lambda>dev. dev\<lparr>fd_cb := fd_cb (fend_devices ?st ! 0),
      fd_user_data := fd_user_data (fend_devices ?st ! 0)\<rparr>) (fc_state ?c3))\<lparr>fend_frames := fend_frames ?st\<rparr>)"
    by (rule lock [OF _ _ run, THEN conjunct2, rule_format, THEN iffD2])
       (simp_all add: fend_para_equal_def)
  then show ?thesis using run by blast
qed

subsection \<open>An undecided mode\<close>

text \<open>The device has a mode that \<^verbatim>\<open>fend_para_equal\<close> does not know, and some \<^verbatim>\<open>AM_FEND_Lock\<close> was begun.\<close>

definition fend_undecided :: "nat \<Rightarrow> 'e fend_state \<Rightarrow> bool" where
  "fend_undecided i st \<longleftrightarrow>
     i < length (fend_devices st) \<and> fd_curr_mode (fend_devices st ! i) \<notin> {0..6} \<and> fd_fl_lock (fend_devices st ! i)"

lemma para_equal_undecided: "mode \<notin> {0..6} \<Longrightarrow> \<not> fend_para_equal mode p q"
  by (auto simp: fend_para_equal_def)

lemma undecided_callback:
  "fend_undecided i st \<Longrightarrow> fend_callback i ev fn p st = Some (calls, st') \<Longrightarrow> st' = st"
  using para_equal_undecided [of "fd_curr_mode (fend_devices st ! i)"]
  by (subst (asm) fend_callback.simps)
     (auto simp: fend_undecided_def Let_def split: fend_fn.splits fend_ptr.splits option.splits if_splits)

lemma undecided_call_back:
  assumes "fend_undecided i st" "fend_call_back i evo st = Some (calls, st')"
  shows "st' = st"
  using assms undecided_callback [OF assms(1)]
  by (auto simp: fend_call_back_def Let_def split: option.splits if_splits Option.bind_splits)

lemma undecided_upd:
  assumes "fend_undecided i st" "fd_curr_mode (f (fend_devices st ! i)) = fd_curr_mode (fend_devices st ! i)" "fd_fl_lock (f (fend_devices st ! i))"
  shows "fend_undecided i (upd_fend i f st)"
  using assms by (auto simp: fend_undecided_def)

lemma undecided_more [simp]:
  "fend_undecided i (st\<lparr>fend_os := e\<rparr>) = fend_undecided i st" "fend_undecided i (st\<lparr>fend_frames := fr\<rparr>) = fend_undecided i st"
  by (auto simp: fend_undecided_def)

lemma undecided_begin:
  assumes "fend_lock_begin drv False t (int i) para st = Some (r, st1)" "fend_undecided i st"
  shows "fend_undecided i st1"
  using assms
  by (auto simp: fend_lock_begin_def Let_def fend_openned fend_undecided_def split: sum.splits option.splits if_splits prod.splits)

lemma undecided_step:
  assumes "fend_step drv i c c'" "fend_undecided i (fc_state c)"
  shows "fend_undecided i (fc_state c') \<and> fc_returned c' = fc_returned c"
  using assms
proof (induction rule: fend_step.induct)
  case (thread c c')
  then show ?case
    by (induction rule: fend_thread_step.induct)
       (auto simp: fend_wait_def fend_take_def fend_finish_def fend_undecided_def split: option.splits prod.splits
         dest!: undecided_call_back [rotated])
next
  case (lock_return t c r s st)
  then show ?case by (auto simp: fend_lock_end_def fend_undecided_def Let_def split: option.splits)
next
  case (set_cb cb p c r st)
  then show ?case
    by (auto simp: AM_FEND_SetCallback_def Let_def fend_openned intro!: undecided_upd split: sum.splits if_splits) (auto simp: fend_undecided_def)
next
  case (set_action b c r st)
  then show ?case
    by (auto simp: AM_FEND_SetActionCallback_def Let_def fend_openned intro!: undecided_upd split: sum.splits if_splits) (auto simp: fend_undecided_def)
next
  case (set_mode mode c r st)
  then show ?case by (auto simp: AM_FEND_SetMode_def fend_forward_def split: sum.splits option.splits if_splits prod.splits)
qed (auto dest: undecided_begin)

lemma undecided_run:
  assumes "(fend_step drv i)\<^sup>*\<^sup>* c c'" "fend_undecided i (fc_state c)"
  shows "fend_undecided i (fc_state c') \<and> fc_returned c' = fc_returned c"
  using assms by (induction rule: rtranclp_induct) (auto dest: undecided_step)

text \<open>
  C38: on a device that was opened with a mode outside the list of \<^verbatim>\<open>fend_para_equal\<close>, for instance \<^verbatim>\<open>FE_AUTO\<close>, a \<^verbatim>\<open>AM_FEND_Lock\<close> that has set its parameters never
  returns, and neither does any later one: whatever the event thread, other callers and \<^verbatim>\<open>AM_FEND_SetMode\<close> do, the flag it waits for stays set.
\<close>

theorem lock_never_returns:
  assumes "fend_lock_begin drv False t (int i) para st = Some (Inr (Inr ()), st1)" "length (fend_devices st) = 2"
    and "fd_curr_mode (fend_devices st ! i) \<notin> {0..6}"
    and "(fend_step drv i)\<^sup>*\<^sup>* \<lparr>fc_state = st1, fc_phase = AwaitEvent, fc_events = [], fc_returned = []\<rparr> c"
  shows "fc_returned c = [] \<and> (\<forall>t' res st2. fend_lock_end t' i (fc_state c) \<noteq> Some (Inr res, st2))"
proof -
  have "fend_undecided i st1" using assms(1-3)
    by (auto simp: fend_lock_begin_def Let_def fend_openned fend_undecided_def split: sum.splits option.splits if_splits prod.splits)
  with undecided_run [OF assms(4)] show ?thesis
    by (auto simp: fend_lock_end_def fend_undecided_def Let_def split: option.splits)
qed

theorem lock_never_returns_witness:
  "fd_curr_mode (fend_devices (demo_open (- 1) []) ! 0) \<notin> {0..6}
   \<and> Collect ((fend_step demo_fend 0)\<^sup>*\<^sup>*
         \<lparr>fc_state = snd (the (fend_lock_begin demo_fend False 7 (int 0) (demo_para 474000) (demo_open (- 1) []))),
          fc_phase = AwaitEvent, fc_events = [], fc_returned = []\<rparr>) \<subseteq> {c. fc_returned c = []}"
proof -
  have "fend_lock_begin demo_fend False 7 (int 0) (demo_para 474000) (demo_open (- 1) [])
      = Some (Inr (Inr ()), snd (the (fend_lock_begin demo_fend False 7 (int 0) (demo_para 474000) (demo_open (- 1) []))))"
    using demo_begin by simp
  from lock_never_returns [OF this] show ?thesis by auto
qed

subsection \<open>Two callers\<close>

text \<open>The state \<open>st\<close> with the device \<open>i\<close> and the frames replaced.\<close>

definition fend_at :: "'e fend_state \<Rightarrow> nat \<Rightarrow> fend_device \<Rightarrow> (nat \<rightharpoonup> fend_lock_para) \<Rightarrow> 'e fend_state" where
  "fend_at st i d fr = st\<lparr>fend_devices := (fend_devices st)[i := d], fend_frames := fr\<rparr>"

lemma fend_at_simps [simp]:
  assumes "i < length (fend_devices st)"
  shows "fend_devices (fend_at st i d fr) ! i = d" "fend_frames (fend_at st i d fr) = fr" "fend_os (fend_at st i d fr) = fend_os st"
    "upd_fend i g (fend_at st i d fr) = fend_at st i (g d) fr" "(fend_at st i d fr)\<lparr>fend_frames := fr'\<rparr> = fend_at st i d fr'"
    "(fend_at st i d fr)\<lparr>fend_os := fend_os st\<rparr> = fend_at st i d fr"
  using assms by (simp_all add: fend_at_def upd_fend_def)

lemma begin_at:
  assumes "i < length (fend_devices st)" "i < 2" "0 < fd_open_count d" "fd_lock d" "\<not> fd_run_cb d"
    and "fe_set_para drv = Some f" "\<And>fd p e. f fd p e = (AM_SUCCESS, e)"
  shows "fend_lock_begin drv False t (int i) para (fend_at st i d fr) =
    Some (Inr (Inr ()), fend_at st i (d\<lparr>fd_cb := Some LockFn, fd_user_data := Frame t, fd_fl_lock := True\<rparr>)
      (fr(t \<mapsto> \<lparr>lp_para = para, lp_status = None, lp_old_cb = fd_cb d, lp_old_data = fd_user_data d\<rparr>)))"
  using assms by (simp add: fend_lock_begin_def fend_get_openned_dev_def fend_get_dev_def Let_def)

lemma end_at:
  assumes "i < length (fend_devices st)" "\<not> fd_run_cb d" "\<not> fd_fl_lock d" "fr t = Some lockp"
  shows "fend_lock_end t i (fend_at st i d fr) =
    Some (Inr (AM_SUCCESS, lp_status lockp), fend_at st i (d\<lparr>fd_cb := lp_old_cb lockp, fd_user_data := lp_old_data lockp\<rparr>) (fr(t := None)))"
  using assms by (simp add: fend_lock_end_def Let_def)

lemma take_at:
  assumes "i < length (fend_devices st)" "fd_enable_thread d"
    and "fe_wait_event drv = Some w" "\<And>fd e. w fd FEND_WAIT_TIMEOUT e = ((AM_SUCCESS, Some ev), e)"
  shows "fend_thread_step drv i \<lparr>fc_state = fend_at st i d fr, fc_phase = AwaitEvent, fc_events = evs, fc_returned = rs\<rparr>
    \<lparr>fc_state = fend_at st i (d\<lparr>fd_run_cb := True\<rparr>) fr, fc_phase = CallBack (Some ev), fc_events = evs, fc_returned = rs\<rparr>"
  using assms
    fend_thread_step.take [of "\<lparr>fc_state = fend_at st i d fr, fc_phase = AwaitEvent, fc_events = evs, fc_returned = rs\<rparr>" i drv "Some ev" "fend_at st i d fr"]
  by (simp add: fend_wait_def fend_take_def)

text \<open>The event reaches the second caller, whose callback passes it on to that of the first.\<close>

lemma nested_callback_at:
  assumes "i < length (fend_devices st)" "fd_lock d" "fd_enable_cb d" "fd_cb d = Some LockFn" "fd_user_data d = Frame t2"
    and "fr t2 = Some p2" "lp_old_cb p2 = Some LockFn" "lp_old_data p2 = Frame t1" "fr t1 = Some p1" "t1 \<noteq> t2"
    and "fend_para_equal (fd_curr_mode d) (ev_parameters ev) (lp_para p2)" "ev_status ev \<noteq> 0"
    and "\<not> fend_para_equal (fd_curr_mode d) (ev_parameters ev) (lp_para p1)"
  shows "fend_call_back i (Some ev) (fend_at st i d fr) = Some ([StatusChanged (fd_dev_no d) ev],
    fend_at st i (d\<lparr>fd_fl_lock := False\<rparr>) (fr(t2 \<mapsto> p2\<lparr>lp_status := Some (ev_status ev)\<rparr>)))"
proof -
  let ?st = "fend_at st i (d\<lparr>fd_fl_lock := False\<rparr>) (fr(t2 \<mapsto> p2\<lparr>lp_status := Some (ev_status ev)\<rparr>))"
  have "fend_callback i ev LockFn (Frame t1) ?st = Some ([], ?st)"
    using assms by (subst fend_callback.simps) simp
  then have "fend_callback i ev LockFn (Frame t2) (fend_at st i d fr) = Some ([], ?st)"
    using assms by (subst fend_callback.simps) simp
  then show ?thesis using assms by (simp add: fend_call_back_def)
qed

lemma two_locks_served:
  assumes dev: "length (fend_devices st) = 2" "i < 2" "0 < fd_open_count (fend_devices st ! i)" "fd_lock (fend_devices st ! i)"
      "\<not> fd_run_cb (fend_devices st ! i)" "fd_enable_thread (fend_devices st ! i)" "fd_enable_cb (fend_devices st ! i)"
    and t: "fend_frames st t1 = None" "fend_frames st t2 = None" "t1 \<noteq> t2"
    and drv: "fe_set_para drv = Some f" "\<And>fd p e. f fd p e = (AM_SUCCESS, e)"
      "fe_wait_event drv = Some w" "\<And>fd e. w fd FEND_WAIT_TIMEOUT e = ((AM_SUCCESS, Some ev), e)"
    and para: "fend_para_equal (fd_curr_mode (fend_devices st ! i)) (ev_parameters ev) para2" "ev_status ev \<noteq> 0"
      "\<not> fend_para_equal (fd_curr_mode (fend_devices st ! i)) (ev_parameters ev) para1"
  shows "(fend_step drv i)\<^sup>*\<^sup>* \<lparr>fc_state = st, fc_phase = AwaitEvent, fc_events = [], fc_returned = []\<rparr>
    \<lparr>fc_state = fend_at st i ((fend_devices st ! i)\<lparr>fd_cb := Some LockFn, fd_user_data := Frame t2, fd_fl_lock := False\<rparr>)
       ((fend_frames st)
         (t1 \<mapsto> \<lparr>lp_para = para1, lp_status = None, lp_old_cb = fd_cb (fend_devices st ! i), lp_old_data = fd_user_data (fend_devices st ! i)\<rparr>,
          t2 \<mapsto> \<lparr>lp_para = para2, lp_status = Some (ev_status ev), lp_old_cb = Some LockFn, lp_old_data = Frame t1\<rparr>)),
     fc_phase = AwaitEvent, fc_events = [ev], fc_returned = []\<rparr>"
proof -
  let ?D = "fend_devices st ! i"
  let ?p1 = "\<lparr>lp_para = para1, lp_status = None, lp_old_cb = fd_cb ?D, lp_old_data = fd_user_data ?D\<rparr>"
  let ?p2 = "\<lparr>lp_para = para2, lp_status = None, lp_old_cb = Some LockFn, lp_old_data = Frame t1\<rparr>"
  let ?d = "\<lambda>t fl. ?D\<lparr>fd_cb := Some LockFn, fd_user_data := Frame t, fd_fl_lock := fl\<rparr>"
  let ?fr1 = "(fend_frames st)(t1 \<mapsto> ?p1)"
  let ?fr2 = "?fr1(t2 \<mapsto> ?p2)"
  let ?fr3 = "?fr1(t2 \<mapsto> ?p2\<lparr>lp_status := Some (ev_status ev)\<rparr>)"
  let ?c = "\<lambda>d fr ph evs rs. \<lparr>fc_state = fend_at st i d fr, fc_phase = ph, fc_events = evs, fc_returned = rs\<rparr>"
  let ?S = "fend_step drv i"
  have i: "i < length (fend_devices st)" using dev by simp
  have norm: "?D\<lparr>fd_cb := cb, fd_user_data := p, fd_fl_lock := fl, fd_run_cb := False\<rparr> = ?D\<lparr>fd_cb := cb, fd_user_data := p, fd_fl_lock := fl\<rparr>" for cb p fl
    using dev(5) by (cases ?D) simp
  have begin1: "?S (?c ?D (fend_frames st) AwaitEvent [] []) (?c (?d t1 True) ?fr1 AwaitEvent [] [])"
    using fend_step.lock_wait [of "?c ?D (fend_frames st) AwaitEvent [] []" t1 drv i para1] begin_at [OF i dev(2-5) drv(1,2)] t i
    by simp
  have begin2: "?S (?c (?d t1 True) ?fr1 AwaitEvent [] []) (?c (?d t2 True) ?fr2 AwaitEvent [] [])"
    using fend_step.lock_wait [of "?c (?d t1 True) ?fr1 AwaitEvent [] []" t2 drv i para2] begin_at [of i st "?d t1 True", OF i dev(2) _ _ _ drv(1,2)]
      dev t i by simp
  have take: "?S (?c (?d t2 True) ?fr2 AwaitEvent [] []) (?c ((?d t2 True)\<lparr>fd_run_cb := True\<rparr>) ?fr2 (CallBack (Some ev)) [] [])"
    using take_at [of i st "?d t2 True", OF i _ drv(3,4)] dev by (intro fend_step.thread) simp
  have call: "?S (?c ((?d t2 True)\<lparr>fd_run_cb := True\<rparr>) ?fr2 (CallBack (Some ev)) [] []) (?c ((?d t2 True)\<lparr>fd_run_cb := True, fd_fl_lock := False\<rparr>) ?fr3 Finished [ev] [])"
    using fend_thread_step.call [of "?c ((?d t2 True)\<lparr>fd_run_cb := True\<rparr>) ?fr2 (CallBack (Some ev)) [] []" "Some ev" i _ _ drv]
      nested_callback_at [of i st "(?d t2 True)\<lparr>fd_run_cb := True\<rparr>" t2 ?fr2 ?p2 t1 ?p1 ev] dev t para i
    by (intro fend_step.thread) simp
  have finish: "?S (?c ((?d t2 True)\<lparr>fd_run_cb := True, fd_fl_lock := False\<rparr>) ?fr3 Finished [ev] []) (?c (?d t2 False) ?fr3 AwaitEvent [ev] [])"
    using fend_thread_step.finish [of "?c ((?d t2 True)\<lparr>fd_run_cb := True, fd_fl_lock := False\<rparr>) ?fr3 Finished [ev] []" drv i] i norm
    by (intro fend_step.thread) (simp add: fend_finish_def)
  have "st = fend_at st i ?D (fend_frames st)" by (simp add: fend_at_def)
  then show ?thesis
    using begin1 begin2 take call finish by (auto intro: converse_rtranclp_into_rtranclp)
qed

text \<open>
  C37: two threads in \<^verbatim>\<open>AM_FEND_Lock\<close> at the same time, the second for what the front end reports. There is a run in which both return
  success, the first without a status ever having been stored; the second then installs \<^verbatim>\<open>fend_lock_cb\<close> with a pointer to the finished
  call of the first, and the next event makes the event thread follow it.
\<close>

theorem two_locks_leave_dangling_callback:
  assumes dev: "length (fend_devices st) = 2" "i < 2" "0 < fd_open_count (fend_devices st ! i)" "fd_lock (fend_devices st ! i)"
      "\<not> fd_run_cb (fend_devices st ! i)" "fd_enable_thread (fend_devices st ! i)" "fd_enable_cb (fend_devices st ! i)"
    and t: "fend_frames st t1 = None" "fend_frames st t2 = None" "t1 \<noteq> t2"
    and drv: "fe_set_para drv = Some f" "\<And>fd p e. f fd p e = (AM_SUCCESS, e)"
      "fe_wait_event drv = Some w" "\<And>fd e. w fd FEND_WAIT_TIMEOUT e = ((AM_SUCCESS, Some ev), e)"
    and para: "fend_para_equal (fd_curr_mode (fend_devices st ! i)) (ev_parameters ev) para2" "ev_status ev \<noteq> 0"
      "\<not> fend_para_equal (fd_curr_mode (fend_devices st ! i)) (ev_parameters ev) para1"
  shows "\<exists>c c'. (fend_step drv i)\<^sup>*\<^sup>* \<lparr>fc_state = st, fc_phase = AwaitEvent, fc_events = [], fc_returned = []\<rparr> c
    \<and> fc_returned c = [(t2, Some (ev_status ev)), (t1, None)]
    \<and> fend_step drv i c c' \<and> fc_phase c' = CallBack (Some ev) \<and> fend_call_back i (Some ev) (fc_state c') = None"
proof -
  let ?D = "fend_devices st ! i"
  let ?p1 = "\<lparr>lp_para = para1, lp_status = None, lp_old_cb = fd_cb ?D, lp_old_data = fd_user_data ?D\<rparr>"
  let ?p2 = "\<lparr>lp_para = para2, lp_status = None, lp_old_cb = Some LockFn, lp_old_data = Frame t1\<rparr>"
  let ?d = "\<lambda>t fl. ?D\<lparr>fd_cb := Some LockFn, fd_user_data := Frame t, fd_fl_lock := fl\<rparr>"
  let ?fr1 = "(fend_frames st)(t1 \<mapsto> ?p1)"
  let ?fr3 = "?fr1(t2 \<mapsto> ?p2\<lparr>lp_status := Some (ev_status ev)\<rparr>)"
  let ?c = "\<lambda>d fr ph evs rs. \<lparr>fc_state = fend_at st i d fr, fc_phase = ph, fc_events = evs, fc_returned = rs\<rparr>"
  let ?S = "fend_step drv i"
  have i: "i < length (fend_devices st)" using dev by simp
  have served: "?S\<^sup>*\<^sup>* \<lparr>fc_state = st, fc_phase = AwaitEvent, fc_events = [], fc_returned = []\<rparr> (?c (?d t2 False) ?fr3 AwaitEvent [ev] [])"
    using two_locks_served [OF assms] by simp
  let ?r = "?D\<lparr>fd_fl_lock := False\<rparr>"
  let ?e = "?r\<lparr>fd_cb := Some LockFn, fd_user_data := Frame t1\<rparr>"
  have ret1: "?S (?c (?d t2 False) ?fr3 AwaitEvent [ev] []) (?c ?r (?fr3(t1 := None)) AwaitEvent [ev] [(t1, None)])"
    using fend_step.lock_return [of t1 i "?c (?d t2 False) ?fr3 AwaitEvent [ev] []" _ None _ drv] end_at [of i st "?d t2 False" ?fr3 t1 ?p1] dev t i
    by simp
  have ret2: "?S (?c ?r (?fr3(t1 := None)) AwaitEvent [ev] [(t1, None)])
      (?c ?e (?fr3(t1 := None, t2 := None)) AwaitEvent [ev] [(t2, Some (ev_status ev)), (t1, None)])"
    using fend_step.lock_return [of t2 i "?c ?r (?fr3(t1 := None)) AwaitEvent [ev] [(t1, None)]" _ "Some (ev_status ev)" _ drv]
      end_at [of i st ?r "?fr3(t1 := None)" t2 "?p2\<lparr>lp_status := Some (ev_status ev)\<rparr>"] dev t i
    by simp
  let ?fin = "\<lambda>d ph. ?c d (?fr3(t1 := None, t2 := None)) ph [ev] [(t2, Some (ev_status ev)), (t1, None)]"
  have take2: "?S (?fin ?e AwaitEvent) (?fin (?e\<lparr>fd_run_cb := True\<rparr>) (CallBack (Some ev)))"
    using take_at [of i st "?e", OF i _ drv(3,4)] dev by (intro fend_step.thread) simp
  have "fend_callback i ev LockFn (Frame t1) (fend_at st i (?e\<lparr>fd_run_cb := True\<rparr>) (?fr3(t1 := None, t2 := None))) = None"
    using t i by (subst fend_callback.simps) simp
  then have "fend_call_back i (Some ev) (fend_at st i (?e\<lparr>fd_run_cb := True\<rparr>) (?fr3(t1 := None, t2 := None))) = None"
    using dev i by (simp add: fend_call_back_def)
  moreover have "?S\<^sup>*\<^sup>* \<lparr>fc_state = st, fc_phase = AwaitEvent, fc_events = [], fc_returned = []\<rparr> (?fin ?e AwaitEvent)"
    using served ret1 ret2 by (meson rtranclp.rtrancl_into_rtrancl)
  ultimately show ?thesis
    using take2 by (intro exI [of _ "?fin ?e AwaitEvent"] exI [of _ "?fin (?e\<lparr>fd_run_cb := True\<rparr>) (CallBack (Some ev))"]) simp
qed

text \<open>A front end that keeps reporting the second channel.\<close>

theorem two_locks_leave_dangling_callback_witness:
  "\<exists>c. (fend_step (demo_fend\<lparr>fe_wait_event := Some (\<lambda>d tmo e. ((AM_SUCCESS, Some \<lparr>ev_status = 31, ev_parameters = demo_para 482000\<rparr>), e))\<rparr>) 0)\<^sup>*\<^sup>*
       \<lparr>fc_state = demo_open 1 [], fc_phase = AwaitEvent, fc_events = [], fc_returned = []\<rparr> c
     \<and> fc_returned c = [(8, Some 31), (7, None)]"
  using two_locks_leave_dangling_callback [of "demo_open 1 []" 0 7 8
      "demo_fend\<lparr>fe_wait_event := Some (\<lambda>d tmo e. ((AM_SUCCESS, Some \<lparr>ev_status = 31, ev_parameters = demo_para 482000\<rparr>), e))\<rparr>"
      "\<lambda>d p e. (AM_SUCCESS, e)" "\<lambda>d tmo e. ((AM_SUCCESS, Some \<lparr>ev_status = 31, ev_parameters = demo_para 482000\<rparr>), e)"
      "\<lparr>ev_status = 31, ev_parameters = demo_para 482000\<rparr>" "demo_para 482000" "demo_para 474000"]
  by (auto simp: fend_para_equal_def demo_para_def demo_fend_def)

end
