(* ===== verification/Fend_Blind.thy ===== *)
theory Fend_Blind
  imports Am_Fend
begin

text \<open>
  The blind scan of the front end (\<^verbatim>\<open>am_fend.c\<close>): the thread that asks the driver for events and keeps the transponders it finds, and the
  functions of the application. A turn of the loop of the thread is one step; the application acts between the turns.
\<close>

abbreviation (input) M_BS_START_FREQ :: "32 word" where "M_BS_START_FREQ \<equiv> 950"
abbreviation (input) M_BS_STOP_FREQ :: "32 word" where "M_BS_STOP_FREQ \<equiv> 2150"
abbreviation (input) M_BS_MAX_SYMB :: "32 word" where "M_BS_MAX_SYMB \<equiv> 45"
abbreviation (input) M_BS_MIN_SYMB :: "32 word" where "M_BS_MIN_SYMB \<equiv> 2"

subsection \<open>Functions of the thread\<close>

text \<open>What \<^verbatim>\<open>memset\<close> leaves; the union of the parameters has seven words.\<close>

definition zero_parameters :: fend_parameters where
  "zero_parameters = \<lparr>frequency = 0, inversion = 0, param_u = replicate 7 0\<rparr>"

definition zero_setting :: bs_setting where
  "zero_setting = \<lparr>m_uiChannelCount = 0, channels = replicate FEND_BS_MAX_CHANNEL zero_parameters,
     bsEvent = \<lparr>be_status = BLINDSCAN_NONEDO, be_param = zero_parameters\<rparr>,
     bsPara = \<lparr>minfrequency = 0, maxfrequency = 0, minSymbolRate = 0, maxSymbolRate = 0, frequencyRange = 0, frequencyStep = 0, bs_timeout = 0\<rparr>\<rparr>"

definition upd_setting :: "nat \<Rightarrow> (bs_setting \<Rightarrow> bs_setting) \<Rightarrow> 'e fend_state \<Rightarrow> 'e fend_state" where
  "upd_setting i f = upd_fend i (\<lambda>dev. dev\<lparr>fd_bs_setting := f (fd_bs_setting dev)\<rparr>)"

definition AM_FEND_IBlindScanAPI_Initialize :: "int \<Rightarrow> 'e fend_state \<Rightarrow> (errcode \<times> 'e fend_state) option" where
  "AM_FEND_IBlindScanAPI_Initialize dev_no st =
     (case fend_get_openned_dev st dev_no of
        Inl err \<Rightarrow> Some (err, st)
      | Inr i \<Rightarrow>
          if \<not> fd_lock (fend_devices st ! i) then None
          else Some (AM_SUCCESS, upd_setting i (\<lambda>_. zero_setting\<lparr>bsPara := (bsPara zero_setting)
                 \<lparr>minfrequency := M_BS_START_FREQ * 1000, maxfrequency := M_BS_STOP_FREQ * 1000,
                  maxSymbolRate := M_BS_MAX_SYMB * 1000 * 1000, minSymbolRate := M_BS_MIN_SYMB * 1000 * 1000,
                  bs_timeout := FEND_WAIT_TIMEOUT\<rparr>\<rparr>) st))"

definition AM_FEND_IBlindScanAPI_SetFreqRange :: "int \<Rightarrow> 32 word \<Rightarrow> 32 word \<Rightarrow> 'e fend_state \<Rightarrow> (errcode \<times> 'e fend_state) option" where
  "AM_FEND_IBlindScanAPI_SetFreqRange dev_no StartFreq_KHz EndFreq_KHz st =
     (case fend_get_openned_dev st dev_no of
        Inl err \<Rightarrow> Some (err, st)
      | Inr i \<Rightarrow>
          if \<not> fd_lock (fend_devices st ! i) then None
          else Some (AM_SUCCESS, upd_setting i (\<lambda>bs. bs\<lparr>bsPara := (bsPara bs)
                 \<lparr>minfrequency := StartFreq_KHz, maxfrequency := EndFreq_KHz\<rparr>\<rparr>) st))"

text \<open>\<^verbatim>\<open>AM_FEND_IBlindScanAPI_Start\<close> does not look at the result of \<^verbatim>\<open>fend_get_openned_dev\<close>; only an invalid number leaves \<^verbatim>\<open>dev\<close> null.\<close>

definition AM_FEND_IBlindScanAPI_Start :: "'e fend_driver \<Rightarrow> int \<Rightarrow> 'e fend_state \<Rightarrow> (errcode \<times> 'e fend_state) option" where
  "AM_FEND_IBlindScanAPI_Start drv dev_no st =
     (case fend_get_dev dev_no of
        Inl err \<Rightarrow> None
      | Inr i \<Rightarrow>
          let dev = fend_devices st ! i in
          (case fe_blindscan_scan drv of
             None \<Rightarrow> Some (AM_FEND_ERR_NOT_SUPPORTED, st)
           | Some f \<Rightarrow>
               if \<not> fd_lock dev then None
               else (case f (fd_drv_data dev) (bsPara (fd_bs_setting dev)) (fend_os st) of
                       (r, e) \<Rightarrow> Some (if r \<noteq> AM_SUCCESS then AM_FEND_ERR_BLINDSCAN else r, st\<lparr>fend_os := e\<rparr>))))"

text \<open>
  Keeping a transponder: the count is 16 bits wide, and a position outside of the array is undefined. The driver writes into \<^verbatim>\<open>bsEvent\<close>; what it does not
  write stays.
\<close>

definition bs_add_channel :: "fend_parameters \<Rightarrow> bs_setting \<Rightarrow> bs_setting option" where
  "bs_add_channel p bs =
     (let count = m_uiChannelCount bs + 1; k = uint count - 1 in
      if k < 0 \<or> k \<ge> int (length (channels bs)) then None
      else Some (bs\<lparr>m_uiChannelCount := count, channels := (channels bs)[nat k := p]\<rparr>))"

definition AM_FEND_IBlindScanAPI_GetScanEvent :: "'e fend_driver \<Rightarrow> int \<Rightarrow> 'e fend_state
    \<Rightarrow> ((errcode \<times> bs_event option) \<times> 'e fend_state) option" where
  "AM_FEND_IBlindScanAPI_GetScanEvent drv dev_no st =
     (case fend_get_openned_dev st dev_no of
        Inl err \<Rightarrow> Some ((err, None), st)
      | Inr i \<Rightarrow>
          let dev = fend_devices st ! i in
          (case fe_blindscan_getscanevent drv of
             None \<Rightarrow> Some ((AM_FEND_ERR_NOT_SUPPORTED, None), st)
           | Some f \<Rightarrow>
               if \<not> fd_lock dev then None
               else
                 (case f (fd_drv_data dev) (fend_os st) of
                    ((r, evo), e) \<Rightarrow>
                      let ev = (case evo of None \<Rightarrow> bsEvent (fd_bs_setting dev) | Some ev \<Rightarrow> ev);
                          bs = (fd_bs_setting dev)\<lparr>bsEvent := ev\<rparr>;
                          st1 = (upd_setting i (\<lambda>_. bs) st)\<lparr>fend_os := e\<rparr> in
                      if r \<noteq> AM_SUCCESS then Some ((AM_FEND_ERR_BLINDSCAN, None), st1)
                      else if be_status ev = BLINDSCAN_UPDATERESULTFREQ
                      then map_option (\<lambda>bs1. ((r, Some ev), upd_setting i (\<lambda>_. bs1) st1)) (bs_add_channel (be_param ev) bs)
                      else Some ((r, Some ev), st1))))"

definition AM_FEND_IBlindScanAPI_Exit :: "'e fend_driver \<Rightarrow> int \<Rightarrow> 'e fend_state \<Rightarrow> (errcode \<times> 'e fend_state) option" where
  "AM_FEND_IBlindScanAPI_Exit drv dev_no st =
     (case fend_get_openned_dev st dev_no of
        Inl err \<Rightarrow> Some (err, st)
      | Inr i \<Rightarrow>
         (case fe_blindscan_cancel drv of
            None \<Rightarrow> Some (AM_FEND_ERR_NOT_SUPPORTED, st)
          | Some f \<Rightarrow>
              if \<not> fd_lock (fend_devices st ! i) then None
              else (case f (fd_drv_data (fend_devices st ! i)) (fend_os st) of (r, e) \<Rightarrow> Some (r, st\<lparr>fend_os := e\<rparr>))))"

text \<open>The error code is returned as an \<^verbatim>\<open>unsigned short\<close>.\<close>

definition AM_FEND_IBlindscanAPI_GetProgress :: "int \<Rightarrow> 'e fend_state \<Rightarrow> 16 word option" where
  "AM_FEND_IBlindscanAPI_GetProgress dev_no st =
     (case fend_get_openned_dev st dev_no of
        Inl err \<Rightarrow> Some (word_of_int err)
      | Inr i \<Rightarrow> if \<not> fd_lock (fend_devices st ! i) then None
                  else Some (m_uiprogress (bsEvent (fd_bs_setting (fend_devices st ! i)))))"

text \<open>\<^verbatim>\<open>AM_FEND_BlindDump\<close> prints the entries of the array.\<close>

definition AM_FEND_BlindDump :: "int \<Rightarrow> 'e fend_state \<Rightarrow> errcode option" where
  "AM_FEND_BlindDump dev_no st =
     (case fend_get_openned_dev st dev_no of
        Inl err \<Rightarrow> Some err
      | Inr i \<Rightarrow>
          let bs = fd_bs_setting (fend_devices st ! i) in
          if \<not> fd_lock (fend_devices st ! i) \<or> unat (m_uiChannelCount bs) > length (channels bs) then None else Some AM_SUCCESS)"

subsection \<open>The thread\<close>

datatype bs_status = DVBSx_BS_Status_Init | DVBSx_BS_Status_Start | DVBSx_BS_Status_Wait | DVBSx_BS_Status_User_Process
  | DVBSx_BS_Status_Cancel | DVBSx_BS_Status_Exit | DVBSx_BS_Status_WaitExit

text \<open>The variables of the thread. \<open>bv_word\<close> is the union of \<^verbatim>\<open>evt\<close>; \<open>None\<close> is a variable that was never written.\<close>

record bs_vars =
  BS_Status :: bs_status
  cur_bsevent :: "bs_event option"
  bv_word :: "32 word option"

definition bs_vars_init :: bs_vars where
  "bs_vars_init = \<lparr>BS_Status = DVBSx_BS_Status_Init, cur_bsevent = None, bv_word = None\<rparr>"

datatype blind_status = AM_FEND_BLIND_START | AM_FEND_BLIND_UPDATEPROCESS | AM_FEND_BLIND_UPDATETP

text \<open>A call of \<^verbatim>\<open>blindscan_cb\<close>: function, device number, status, union, user data.\<close>

type_synonym blind_call = "nat \<times> int \<times> blind_status \<times> 32 word option \<times> nat"

definition bs_custom :: "fend_device \<Rightarrow> bs_event \<Rightarrow> 32 word option \<Rightarrow> blind_call list \<times> 32 word option" where
  "bs_custom dev ev w =
     (case fd_blindscan_cb dev of
        None \<Rightarrow> ([], w)
      | Some cb \<Rightarrow>
          let call = (\<lambda>s w. (cb, fd_dev_no dev, s, w, fd_blindscan_cb_user_data dev)) in
          (case be_status ev of
             BLINDSCAN_UPDATESTARTFREQ \<Rightarrow> let w1 = Some (m_uistartfreq_khz ev) in ([call AM_FEND_BLIND_START w1], w1)
           | BLINDSCAN_UPDATEPROCESS \<Rightarrow> let w1 = Some (ucast (m_uiprogress ev)) in ([call AM_FEND_BLIND_UPDATEPROCESS w1], w1)
           | BLINDSCAN_UPDATERESULTFREQ \<Rightarrow> ([call AM_FEND_BLIND_UPDATETP w], w)
           | BLINDSCAN_NONEDO \<Rightarrow> ([], w)))"

text \<open>The state after \<open>DVBSx_BS_Status_User_Process\<close>, with the word of the union.\<close>

definition bs_next :: "bs_event \<Rightarrow> 32 word option \<Rightarrow> bs_status option" where
  "bs_next ev w =
     (case be_status ev of
        BLINDSCAN_UPDATESTARTFREQ \<Rightarrow> Some DVBSx_BS_Status_Wait
      | BLINDSCAN_UPDATEPROCESS \<Rightarrow>
          map_option (\<lambda>process. if process < 100 then DVBSx_BS_Status_Wait else DVBSx_BS_Status_WaitExit) w
      | BLINDSCAN_UPDATERESULTFREQ \<Rightarrow> Some DVBSx_BS_Status_Wait
      | BLINDSCAN_NONEDO \<Rightarrow> Some DVBSx_BS_Status_User_Process)"

definition bs_turn :: "'e fend_driver \<Rightarrow> int \<Rightarrow> bs_vars \<times> 'e fend_state \<Rightarrow> (blind_call list \<times> bs_vars \<times> 'e fend_state) option" where
  "bs_turn drv dev_no = (\<lambda>(v, st).
     (case fend_get_dev dev_no of
        Inl err \<Rightarrow> None
      | Inr i \<Rightarrow>
          let dev = fend_devices st ! i;
              v1 = (if \<not> fd_enable_blindscan_thread dev then v\<lparr>BS_Status := DVBSx_BS_Status_Cancel\<rparr> else v) in
          (case BS_Status v1 of
             DVBSx_BS_Status_Init \<Rightarrow> Some ([], v1\<lparr>BS_Status := DVBSx_BS_Status_Start\<rparr>, st)
           | DVBSx_BS_Status_Start \<Rightarrow>
               map_option (\<lambda>(r, st1). ([], v1\<lparr>BS_Status := if r \<noteq> AM_SUCCESS then DVBSx_BS_Status_Exit else DVBSx_BS_Status_Wait\<rparr>, st1))
                 (AM_FEND_IBlindScanAPI_Start drv dev_no st)
           | DVBSx_BS_Status_Wait \<Rightarrow>
               map_option (\<lambda>((r, evo), st1).
                   let v2 = (case evo of None \<Rightarrow> v1 | Some ev \<Rightarrow> v1\<lparr>cur_bsevent := Some ev\<rparr>) in
                   ([], if r = AM_SUCCESS then v2\<lparr>BS_Status := DVBSx_BS_Status_User_Process\<rparr>
                        else if r = AM_FEND_ERR_BLINDSCAN then v2\<lparr>BS_Status := DVBSx_BS_Status_Wait\<rparr> else v2, st1))
                 (AM_FEND_IBlindScanAPI_GetScanEvent drv dev_no st)
           | DVBSx_BS_Status_User_Process \<Rightarrow>
               (case cur_bsevent v1 of
                  None \<Rightarrow> None
                | Some ev \<Rightarrow>
                   (case bs_custom dev ev (bv_word v1) of
                      (calls, w) \<Rightarrow> map_option (\<lambda>s. (calls, v1\<lparr>bv_word := w, BS_Status := s\<rparr>, st)) (bs_next ev w)))
           | DVBSx_BS_Status_WaitExit \<Rightarrow> Some ([], v1, st)
           | DVBSx_BS_Status_Cancel \<Rightarrow>
               (case AM_FEND_BlindDump dev_no st of
                  None \<Rightarrow> None
                | Some _ \<Rightarrow> map_option (\<lambda>(r, st1). ([], v1\<lparr>BS_Status := DVBSx_BS_Status_Exit\<rparr>, st1)) (AM_FEND_IBlindScanAPI_Exit drv dev_no st))
           | DVBSx_BS_Status_Exit \<Rightarrow> Some ([], v1\<lparr>BS_Status := DVBSx_BS_Status_Cancel\<rparr>, st))))"

text \<open>\<open>n\<close> turns of the loop, fewer when the thread ends.\<close>

fun fend_blindscan_thread :: "'e fend_driver \<Rightarrow> int \<Rightarrow> nat \<Rightarrow> bs_vars \<times> 'e fend_state \<Rightarrow> (blind_call list \<times> bs_vars \<times> 'e fend_state) option" where
  "fend_blindscan_thread drv dev_no 0 vs = Some ([], vs)"
| "fend_blindscan_thread drv dev_no (Suc n) (v, st) =
     (if BS_Status v = DVBSx_BS_Status_Exit then Some ([], v, st)
      else do { (calls, vs) \<leftarrow> bs_turn drv dev_no (v, st);
                (calls1, vs1) \<leftarrow> fend_blindscan_thread drv dev_no n vs;
                Some (calls @ calls1, vs1) })"

subsection \<open>Functions of the application\<close>

text \<open>\<open>created\<close> says whether \<^verbatim>\<open>pthread_create\<close> succeeds.\<close>

definition AM_FEND_BlindScan :: "bool \<Rightarrow> int \<Rightarrow> nat option \<Rightarrow> nat \<Rightarrow> 32 word \<Rightarrow> 32 word \<Rightarrow> 'e fend_state \<Rightarrow> (errcode \<times> 'e fend_state) option" where
  "AM_FEND_BlindScan created dev_no cb user_data start_freq stop_freq st =
     (if start_freq = stop_freq then Some (AM_FEND_ERR_BLINDSCAN, st)
      else
        do { (_, st1) \<leftarrow> AM_FEND_IBlindScanAPI_Initialize dev_no st;
             (_, st2) \<leftarrow> AM_FEND_IBlindScanAPI_SetFreqRange dev_no (start_freq div 1000) (stop_freq div 1000) st1;
             Some (case fend_get_openned_dev st2 dev_no of
                     Inl err \<Rightarrow> (err, st2)
                   | Inr i \<Rightarrow>
                       let st3 = upd_fend i (\<lambda>dev. dev\<lparr>fd_blindscan_cb := cb, fd_blindscan_cb_user_data := user_data,
                                     fd_enable_blindscan_thread := True\<rparr>) st2 in
                       if \<not> created then (AM_FEND_ERR_BLINDSCAN, st3)
                       else (AM_SUCCESS, upd_fend i (\<lambda>dev. dev\<lparr>fd_bs_thread := True\<rparr>) st3)) })"

text \<open>
  \<^verbatim>\<open>AM_FEND_BlindExit\<close> up to and after the end of the thread; to join a thread that was not created is undefined. \<open>Inl ()\<close> says that the thread is
  still running.
\<close>

definition blind_exit_begin :: "int \<Rightarrow> 'e fend_state \<Rightarrow> (errcode + nat) \<times> 'e fend_state" where
  "blind_exit_begin dev_no st =
     (case fend_get_openned_dev st dev_no of
        Inl err \<Rightarrow> (Inl err, st)
      | Inr i \<Rightarrow> (Inr i, upd_fend i (\<lambda>dev. dev\<lparr>fd_enable_blindscan_thread := False\<rparr>) st))"

definition blind_exit_join :: "nat \<Rightarrow> bs_vars \<Rightarrow> 'e fend_state \<Rightarrow> ((unit + errcode) \<times> 'e fend_state) option" where
  "blind_exit_join i v st =
     (if \<not> fd_bs_thread (fend_devices st ! i) then None
      else if BS_Status v \<noteq> DVBSx_BS_Status_Exit then Some (Inl (), st)
      else Some (Inr AM_SUCCESS, upd_fend i (\<lambda>dev. dev\<lparr>fd_bs_thread := False\<rparr>) st))"

definition AM_FEND_BlindGetProcess :: "int \<Rightarrow> 'e fend_state \<Rightarrow> (errcode \<times> 32 word) option" where
  "AM_FEND_BlindGetProcess dev_no st = map_option (\<lambda>p. (AM_SUCCESS, ucast p)) (AM_FEND_IBlindscanAPI_GetProgress dev_no st)"

text \<open>The result has what is stored in \<^verbatim>\<open>para\<close> and \<^verbatim>\<open>*count\<close>; the caller's array must have room for \<^verbatim>\<open>*count\<close> entries.\<close>

definition AM_FEND_BlindGetTPInfo :: "int \<Rightarrow> 32 word \<Rightarrow> 'e fend_state \<Rightarrow> (errcode \<times> (fend_parameters list \<times> 32 word) option) option" where
  "AM_FEND_BlindGetTPInfo dev_no count st =
     (case fend_get_openned_dev st dev_no of
        Inl err \<Rightarrow> Some (err, None)
      | Inr i \<Rightarrow>
          let bs = fd_bs_setting (fend_devices st ! i);
              count1 = (if count > ucast (m_uiChannelCount bs) then ucast (m_uiChannelCount bs) else count) in
          if \<not> fd_lock (fend_devices st ! i) \<or> unat count1 > length (channels bs) then None
          else Some (AM_SUCCESS, Some (take (unat count1) (channels bs), count1)))"

end
