(* ===== verification/Fend_Dvb.thy ===== *)
theory Fend_Dvb
  imports Fend_Blind
begin

text \<open>
  The front end driver for Linux DVB, \<^verbatim>\<open>dvb/am_adp/am_fend/linux_dvb/linux_dvb.c\<close>, over the calls of the kernel: \<^verbatim>\<open>open\<close> of \<^verbatim>\<open>/dev/dvb0.frontend<n>\<close>,
  \<^verbatim>\<open>close\<close>, \<^verbatim>\<open>poll\<close> and \<^verbatim>\<open>ioctl\<close>. A request of \<^verbatim>\<open>ioctl\<close> carries its argument, an answer what the kernel stores; a request that stores an
  answer of another kind, or none, leaves the variable of the caller as it was.
\<close>

datatype fe_request = FE_SET_MODE int | FE_GET_INFO | FE_READ_TS | FE_SET_FRONTEND fend_parameters | FE_GET_FRONTEND
  | FE_SET_PROPERTY nat | FE_GET_PROPERTY | FE_READ_STATUS | FE_READ_SNR | FE_READ_BER | FE_READ_SIGNAL_STRENGTH | FE_GET_EVENT
  | FE_SET_DELAY int | FE_DISEQC_RESET_OVERLOAD | FE_DISEQC_SEND_MASTER_CMD "byte list" | FE_DISEQC_RECV_SLAVE_REPLY
  | FE_DISEQC_SEND_BURST int | FE_SET_TONE int | FE_SET_VOLTAGE int | FE_ENABLE_HIGH_LNB_VOLTAGE int
  | FE_SET_BLINDSCAN bs_para | FE_GET_BLINDSCANEVENT | FE_SET_BLINDSCANCANCEl | FE_FINE_TUNE "32 word" | FE_SET_PARAM_BOX tuner_param
  | FE_READ_ANALOG_STATUS | FE_SET_AFC "32 word"

datatype fe_answer = NoAnswer | AnsNat nat | AnsInt int | AnsPara fend_parameters | AnsU16 "16 word" | AnsU32 "32 word"
  | AnsEvent fend_event | AnsBytes "byte list" | AnsScan bs_event

record 'e fe_kernel =
  fk_open :: "int \<Rightarrow> 'e \<Rightarrow> int \<times> 'e"
  fk_close :: "int \<Rightarrow> 'e \<Rightarrow> 'e"
  fk_poll :: "int \<Rightarrow> int \<Rightarrow> 'e \<Rightarrow> int \<times> 'e"
  fk_ioctl :: "int \<Rightarrow> fe_request \<Rightarrow> 'e \<Rightarrow> (int \<times> fe_answer) \<times> 'e"

subsection \<open>Requests without and with an answer\<close>

text \<open>Most functions fail when \<^verbatim>\<open>ioctl\<close> returns \<open>-1\<close>.\<close>

definition dvb_request :: "'e fe_kernel \<Rightarrow> fe_request \<Rightarrow> int \<Rightarrow> 'e \<Rightarrow> errcode \<times> 'e" where
  "dvb_request K req fd e = (case fk_ioctl K fd req e of ((r, _), e1) \<Rightarrow> (if r = -1 then AM_FAILURE else AM_SUCCESS, e1))"

definition dvb_query :: "'e fe_kernel \<Rightarrow> fe_request \<Rightarrow> (fe_answer \<Rightarrow> 'a option) \<Rightarrow> int \<Rightarrow> 'e \<Rightarrow> (errcode \<times> 'a option) \<times> 'e" where
  "dvb_query K req get fd e =
     (case fk_ioctl K fd req e of ((r, a), e1) \<Rightarrow> (if r = -1 then (AM_FAILURE, None) else (AM_SUCCESS, get a), e1))"

fun ans_nat :: "fe_answer \<Rightarrow> nat option" where "ans_nat (AnsNat n) = Some n" | "ans_nat _ = None"
fun ans_int :: "fe_answer \<Rightarrow> int option" where "ans_int (AnsInt n) = Some n" | "ans_int _ = None"
fun ans_para :: "fe_answer \<Rightarrow> fend_parameters option" where "ans_para (AnsPara p) = Some p" | "ans_para _ = None"
fun ans_u16 :: "fe_answer \<Rightarrow> 16 word option" where "ans_u16 (AnsU16 w) = Some w" | "ans_u16 _ = None"
fun ans_u32 :: "fe_answer \<Rightarrow> 32 word option" where "ans_u32 (AnsU32 w) = Some w" | "ans_u32 _ = None"
fun ans_event :: "fe_answer \<Rightarrow> fend_event option" where "ans_event (AnsEvent ev) = Some ev" | "ans_event _ = None"
fun ans_bytes :: "fe_answer \<Rightarrow> byte list option" where "ans_bytes (AnsBytes bs) = Some bs" | "ans_bytes _ = None"
fun ans_scan :: "fe_answer \<Rightarrow> bs_event option" where "ans_scan (AnsScan ev) = Some ev" | "ans_scan _ = None"

subsection \<open>The functions\<close>

definition fe_dvb_set_mode :: "'e fe_kernel \<Rightarrow> int \<Rightarrow> int \<Rightarrow> 'e \<Rightarrow> errcode \<times> 'e" where
  "fe_dvb_set_mode K fd mode e =
     (if mode < 0 then (AM_SUCCESS, e)
      else (case fk_ioctl K fd (FE_SET_MODE mode) e of
              ((r, _), e1) \<Rightarrow> (if r \<noteq> 0 then AM_FEND_ERR_NOT_SUPPORTED else AM_SUCCESS, e1)))"

definition fe_dvb_open :: "'e fe_kernel \<Rightarrow> int \<Rightarrow> int \<Rightarrow> int \<Rightarrow> 'e \<Rightarrow> (errcode \<times> int) \<times> 'e" where
  "fe_dvb_open K dev_no mode drv_data e =
     (case fk_open K dev_no e of
        (fd, e1) \<Rightarrow>
          if fd = -1 then ((AM_FEND_ERR_CANNOT_OPEN, drv_data), e1)
          else if mode \<noteq> -1
          then (case fe_dvb_set_mode K fd mode e1 of
                  (ret, e2) \<Rightarrow> if ret \<noteq> AM_SUCCESS then ((ret, fd), fk_close K fd e2) else ((AM_SUCCESS, fd), e2))
          else ((AM_SUCCESS, fd), e1))"

definition fe_dvb_get_info :: "'e fe_kernel \<Rightarrow> int \<Rightarrow> 'e \<Rightarrow> (errcode \<times> nat option) \<times> 'e" where
  "fe_dvb_get_info K fd e =
     (case fk_ioctl K fd FE_GET_INFO e of ((r, a), e1) \<Rightarrow> (if r \<noteq> 0 then (AM_FEND_ERR_NOT_SUPPORTED, None) else (AM_SUCCESS, ans_nat a), e1))"

definition fe_dvb_get_ts :: "'e fe_kernel \<Rightarrow> int \<Rightarrow> 'e \<Rightarrow> (errcode \<times> int option) \<times> 'e" where
  "fe_dvb_get_ts K fd e =
     (case fk_ioctl K fd FE_READ_TS e of ((r, a), e1) \<Rightarrow> (if r \<noteq> 0 then (AM_FEND_ERR_NOT_SUPPORTED, None) else (AM_SUCCESS, ans_int a), e1))"

definition fe_dvb_set_para :: "'e fe_kernel \<Rightarrow> int \<Rightarrow> fend_parameters \<Rightarrow> 'e \<Rightarrow> errcode \<times> 'e" where
  "fe_dvb_set_para K fd para = dvb_request K (FE_SET_FRONTEND para) fd"

definition fe_dvb_get_para :: "'e fe_kernel \<Rightarrow> int \<Rightarrow> 'e \<Rightarrow> (errcode \<times> fend_parameters option) \<times> 'e" where
  "fe_dvb_get_para K = dvb_query K FE_GET_FRONTEND ans_para"

definition fe_dvb_set_prop :: "'e fe_kernel \<Rightarrow> int \<Rightarrow> nat \<Rightarrow> 'e \<Rightarrow> errcode \<times> 'e" where
  "fe_dvb_set_prop K fd prop = dvb_request K (FE_SET_PROPERTY prop) fd"

definition fe_dvb_get_prop :: "'e fe_kernel \<Rightarrow> int \<Rightarrow> 'e \<Rightarrow> (errcode \<times> nat option) \<times> 'e" where
  "fe_dvb_get_prop K = dvb_query K FE_GET_PROPERTY ans_nat"

definition fe_dvb_get_status :: "'e fe_kernel \<Rightarrow> int \<Rightarrow> 'e \<Rightarrow> (errcode \<times> 32 word option) \<times> 'e" where
  "fe_dvb_get_status K = dvb_query K FE_READ_STATUS ans_u32"

text \<open>The 16 bit values are widened without sign, the bit error rate is stored into a signed \<^verbatim>\<open>int\<close>.\<close>

definition fe_dvb_get_snr :: "'e fe_kernel \<Rightarrow> int \<Rightarrow> 'e \<Rightarrow> (errcode \<times> int option) \<times> 'e" where
  "fe_dvb_get_snr K = dvb_query K FE_READ_SNR (\<lambda>a. map_option uint (ans_u16 a))"

definition fe_dvb_get_ber :: "'e fe_kernel \<Rightarrow> int \<Rightarrow> 'e \<Rightarrow> (errcode \<times> int option) \<times> 'e" where
  "fe_dvb_get_ber K = dvb_query K FE_READ_BER (\<lambda>a. map_option sint (ans_u32 a))"

definition fe_dvb_get_strength :: "'e fe_kernel \<Rightarrow> int \<Rightarrow> 'e \<Rightarrow> (errcode \<times> int option) \<times> 'e" where
  "fe_dvb_get_strength K = dvb_query K FE_READ_SIGNAL_STRENGTH (\<lambda>a. map_option uint (ans_u16 a))"

definition fe_dvb_wait_event :: "'e fe_kernel \<Rightarrow> int \<Rightarrow> int \<Rightarrow> 'e \<Rightarrow> (errcode \<times> fend_event option) \<times> 'e" where
  "fe_dvb_wait_event K fd timeout e =
     (case fk_poll K fd timeout e of
        (r, e1) \<Rightarrow> if r \<noteq> 1 then ((AM_FEND_ERR_TIMEOUT, None), e1) else dvb_query K FE_GET_EVENT ans_event fd e1)"

definition fe_dvb_set_delay :: "'e fe_kernel \<Rightarrow> int \<Rightarrow> int \<Rightarrow> 'e \<Rightarrow> errcode \<times> 'e" where
  "fe_dvb_set_delay K fd delay = dvb_request K (FE_SET_DELAY delay) fd"

definition fe_dvb_diseqc_reset_overload :: "'e fe_kernel \<Rightarrow> int \<Rightarrow> 'e \<Rightarrow> errcode \<times> 'e" where
  "fe_dvb_diseqc_reset_overload K = dvb_request K FE_DISEQC_RESET_OVERLOAD"

definition fe_dvb_diseqc_send_master_cmd :: "'e fe_kernel \<Rightarrow> int \<Rightarrow> byte list \<Rightarrow> 'e \<Rightarrow> errcode \<times> 'e" where
  "fe_dvb_diseqc_send_master_cmd K fd cmd = dvb_request K (FE_DISEQC_SEND_MASTER_CMD cmd) fd"

definition fe_dvb_diseqc_recv_slave_reply :: "'e fe_kernel \<Rightarrow> int \<Rightarrow> 'e \<Rightarrow> (errcode \<times> byte list option) \<times> 'e" where
  "fe_dvb_diseqc_recv_slave_reply K = dvb_query K FE_DISEQC_RECV_SLAVE_REPLY ans_bytes"

definition fe_dvb_diseqc_send_burst :: "'e fe_kernel \<Rightarrow> int \<Rightarrow> int \<Rightarrow> 'e \<Rightarrow> errcode \<times> 'e" where
  "fe_dvb_diseqc_send_burst K fd minicmd = dvb_request K (FE_DISEQC_SEND_BURST minicmd) fd"

definition fe_dvb_set_tone :: "'e fe_kernel \<Rightarrow> int \<Rightarrow> int \<Rightarrow> 'e \<Rightarrow> errcode \<times> 'e" where
  "fe_dvb_set_tone K fd tone = dvb_request K (FE_SET_TONE tone) fd"

definition fe_dvb_set_voltage :: "'e fe_kernel \<Rightarrow> int \<Rightarrow> int \<Rightarrow> 'e \<Rightarrow> errcode \<times> 'e" where
  "fe_dvb_set_voltage K fd voltage = dvb_request K (FE_SET_VOLTAGE voltage) fd"

definition fe_dvb_enable_high_lnb_voltage :: "'e fe_kernel \<Rightarrow> int \<Rightarrow> int \<Rightarrow> 'e \<Rightarrow> errcode \<times> 'e" where
  "fe_dvb_enable_high_lnb_voltage K fd arg = dvb_request K (FE_ENABLE_HIGH_LNB_VOLTAGE arg) fd"

definition fe_dvb_close :: "'e fe_kernel \<Rightarrow> int \<Rightarrow> 'e \<Rightarrow> errcode \<times> 'e" where
  "fe_dvb_close K fd e = (AM_SUCCESS, fk_close K fd e)"

definition dvbsx_blindscan_scan :: "'e fe_kernel \<Rightarrow> int \<Rightarrow> bs_para \<Rightarrow> 'e \<Rightarrow> errcode \<times> 'e" where
  "dvbsx_blindscan_scan K fd pbspara = dvb_request K (FE_SET_BLINDSCAN pbspara) fd"

definition dvbsx_blindscan_getscanevent :: "'e fe_kernel \<Rightarrow> int \<Rightarrow> 'e \<Rightarrow> (errcode \<times> bs_event option) \<times> 'e" where
  "dvbsx_blindscan_getscanevent K fd e =
     (case fk_ioctl K fd FE_GET_BLINDSCANEVENT e of ((r, a), e1) \<Rightarrow> ((if r \<noteq> 0 then AM_FAILURE else AM_SUCCESS, ans_scan a), e1))"

definition dvbsx_blindscan_cancel :: "'e fe_kernel \<Rightarrow> int \<Rightarrow> 'e \<Rightarrow> errcode \<times> 'e" where
  "dvbsx_blindscan_cancel K = dvb_request K FE_SET_BLINDSCANCANCEl"

definition fe_dvb_fine_tune :: "'e fe_kernel \<Rightarrow> int \<Rightarrow> 32 word \<Rightarrow> 'e \<Rightarrow> errcode \<times> 'e" where
  "fe_dvb_fine_tune K fd freq = dvb_request K (FE_FINE_TUNE freq) fd"

definition fe_dvb_set_cvbs_amp_out :: "'e fe_kernel \<Rightarrow> int \<Rightarrow> tuner_param \<Rightarrow> 'e \<Rightarrow> errcode \<times> 'e" where
  "fe_dvb_set_cvbs_amp_out K fd tuner_para = dvb_request K (FE_SET_PARAM_BOX tuner_para) fd"

definition fe_dvb_get_atv_status :: "'e fe_kernel \<Rightarrow> int \<Rightarrow> 'e \<Rightarrow> (errcode \<times> nat option) \<times> 'e" where
  "fe_dvb_get_atv_status K = dvb_query K FE_READ_ANALOG_STATUS ans_nat"

definition fe_dvb_set_afc :: "'e fe_kernel \<Rightarrow> int \<Rightarrow> 32 word \<Rightarrow> 'e \<Rightarrow> errcode \<times> 'e" where
  "fe_dvb_set_afc K fd afc = dvb_request K (FE_SET_AFC afc) fd"

definition linux_dvb_fend_drv :: "'e fe_kernel \<Rightarrow> 'e fend_driver" where
  "linux_dvb_fend_drv K = \<lparr>fe_open = Some (fe_dvb_open K), fe_set_mode = Some (fe_dvb_set_mode K), fe_get_info = Some (fe_dvb_get_info K),
     fe_get_ts = Some (fe_dvb_get_ts K), fe_set_para = Some (fe_dvb_set_para K), fe_get_para = Some (fe_dvb_get_para K),
     fe_get_status = Some (fe_dvb_get_status K), fe_get_snr = Some (fe_dvb_get_snr K), fe_get_ber = Some (fe_dvb_get_ber K),
     fe_get_strength = Some (fe_dvb_get_strength K), fe_wait_event = Some (fe_dvb_wait_event K), fe_set_delay = Some (fe_dvb_set_delay K),
     fe_diseqc_reset_overload = Some (fe_dvb_diseqc_reset_overload K), fe_diseqc_send_master_cmd = Some (fe_dvb_diseqc_send_master_cmd K),
     fe_diseqc_recv_slave_reply = Some (fe_dvb_diseqc_recv_slave_reply K), fe_diseqc_send_burst = Some (fe_dvb_diseqc_send_burst K),
     fe_set_tone = Some (fe_dvb_set_tone K), fe_set_voltage = Some (fe_dvb_set_voltage K),
     fe_enable_high_lnb_voltage = Some (fe_dvb_enable_high_lnb_voltage K), fe_close = Some (fe_dvb_close K),
     fe_set_prop = Some (fe_dvb_set_prop K), fe_get_prop = Some (fe_dvb_get_prop K), fe_blindscan_scan = Some (dvbsx_blindscan_scan K),
     fe_blindscan_getscanevent = Some (dvbsx_blindscan_getscanevent K), fe_blindscan_cancel = Some (dvbsx_blindscan_cancel K),
     fe_fine_tune = Some (fe_dvb_fine_tune K), fe_set_cvbs_amp_out = Some (fe_dvb_set_cvbs_amp_out K),
     fe_get_atv_status = Some (fe_dvb_get_atv_status K), fe_set_afc = Some (fe_dvb_set_afc K)\<rparr>"

end
