(* ===== verification/Fend_Diseqc.thy ===== *)
theory Fend_Diseqc
  imports Fend_Dvb "HOL-Library.Signed_Division"
begin

text \<open>
  The DiSEqC commands, \<^verbatim>\<open>dvb/am_adp/am_fend/am_fend_diseqc_cmd.c\<close>: messages for switches, converters and dish motors, sent with
  \<^verbatim>\<open>AM_FEND_DiseqcSendMasterCmd\<close>. A message is the first \<^verbatim>\<open>msg_len\<close> bytes of \<^verbatim>\<open>cmd.msg\<close>. The functions that compute the direction of a satellite with
  floating point trigonometry are left out; what is done with the result in integers is here.
\<close>

unbundle bit_operations_syntax

definition AM_FEND_DISEQCCMD_ERROR_BASE :: errcode where "AM_FEND_DISEQCCMD_ERROR_BASE = AM_ERROR_BASE 26"

abbreviation (input) FIRSTTRANS :: byte where "FIRSTTRANS \<equiv> 0xE0"
abbreviation (input) REPEATTRANS :: byte where "REPEATTRANS \<equiv> 0xE1"
abbreviation (input) ANYDEVICE :: byte where "ANYDEVICE \<equiv> 0x00"
abbreviation (input) LNBSWITCHSMATV :: byte where "LNBSWITCHSMATV \<equiv> 0x10"
abbreviation (input) POLARAZIMUTHPOSITIONER :: byte where "POLARAZIMUTHPOSITIONER \<equiv> 0x31"
abbreviation (input) SUBSCRIBERCONTROLLED :: byte where "SUBSCRIBERCONTROLLED \<equiv> 0x71"

type_synonym 'e diseqc_command = "'e fend_state \<Rightarrow> (errcode \<times> 'e fend_state) option"

text \<open>The end of every command: any error becomes the one error code of the module.\<close>

definition diseqc_send :: "'e fend_driver \<Rightarrow> bool \<Rightarrow> int \<Rightarrow> byte list \<Rightarrow> 'e diseqc_command" where
  "diseqc_send drv self dev_no msg st =
     map_option (\<lambda>((r, _), st1). (if r \<noteq> AM_SUCCESS then AM_FEND_DISEQCCMD_ERROR_BASE else AM_SUCCESS, st1))
       (AM_FEND_DiseqcSendMasterCmd drv self dev_no msg st)"

subsection \<open>Switches\<close>

definition AM_FEND_Diseqccmd_ResetDiseqcMicro :: "'e fend_driver \<Rightarrow> bool \<Rightarrow> int \<Rightarrow> 'e diseqc_command" where
  "AM_FEND_Diseqccmd_ResetDiseqcMicro drv self dev_no =
     diseqc_send drv self dev_no [FIRSTTRANS, ANYDEVICE, 0x00]"

definition AM_FEND_Diseqccmd_StandbySwitch :: "'e fend_driver \<Rightarrow> bool \<Rightarrow> int \<Rightarrow> 'e diseqc_command" where
  "AM_FEND_Diseqccmd_StandbySwitch drv self dev_no =
     diseqc_send drv self dev_no [FIRSTTRANS, ANYDEVICE, 0x02]"

definition AM_FEND_Diseqccmd_PoweronSwitch :: "'e fend_driver \<Rightarrow> bool \<Rightarrow> int \<Rightarrow> 'e diseqc_command" where
  "AM_FEND_Diseqccmd_PoweronSwitch drv self dev_no =
     diseqc_send drv self dev_no [FIRSTTRANS, ANYDEVICE, 0x03]"

definition AM_FEND_Diseqccmd_SetLo :: "'e fend_driver \<Rightarrow> bool \<Rightarrow> int \<Rightarrow> 'e diseqc_command" where
  "AM_FEND_Diseqccmd_SetLo drv self dev_no =
     diseqc_send drv self dev_no [FIRSTTRANS, LNBSWITCHSMATV, 0x20]"

definition AM_FEND_Diseqccmd_SetVR :: "'e fend_driver \<Rightarrow> bool \<Rightarrow> int \<Rightarrow> 'e diseqc_command" where
  "AM_FEND_Diseqccmd_SetVR drv self dev_no =
     diseqc_send drv self dev_no [FIRSTTRANS, LNBSWITCHSMATV, 0x21]"

definition AM_FEND_Diseqccmd_SetSatellitePositionA :: "'e fend_driver \<Rightarrow> bool \<Rightarrow> int \<Rightarrow> 'e diseqc_command" where
  "AM_FEND_Diseqccmd_SetSatellitePositionA drv self dev_no =
     diseqc_send drv self dev_no [FIRSTTRANS, LNBSWITCHSMATV, 0x22]"

definition AM_FEND_Diseqccmd_SetSwitchOptionA :: "'e fend_driver \<Rightarrow> bool \<Rightarrow> int \<Rightarrow> 'e diseqc_command" where
  "AM_FEND_Diseqccmd_SetSwitchOptionA drv self dev_no =
     diseqc_send drv self dev_no [FIRSTTRANS, LNBSWITCHSMATV, 0x23]"

definition AM_FEND_Diseqccmd_SetHi :: "'e fend_driver \<Rightarrow> bool \<Rightarrow> int \<Rightarrow> 'e diseqc_command" where
  "AM_FEND_Diseqccmd_SetHi drv self dev_no =
     diseqc_send drv self dev_no [FIRSTTRANS, LNBSWITCHSMATV, 0x24]"

definition AM_FEND_Diseqccmd_SetHL :: "'e fend_driver \<Rightarrow> bool \<Rightarrow> int \<Rightarrow> 'e diseqc_command" where
  "AM_FEND_Diseqccmd_SetHL drv self dev_no =
     diseqc_send drv self dev_no [FIRSTTRANS, LNBSWITCHSMATV, 0x25]"

definition AM_FEND_Diseqccmd_SetSatellitePositionB :: "'e fend_driver \<Rightarrow> bool \<Rightarrow> int \<Rightarrow> 'e diseqc_command" where
  "AM_FEND_Diseqccmd_SetSatellitePositionB drv self dev_no =
     diseqc_send drv self dev_no [FIRSTTRANS, LNBSWITCHSMATV, 0x26]"

definition AM_FEND_Diseqccmd_SetSwitchOptionB :: "'e fend_driver \<Rightarrow> bool \<Rightarrow> int \<Rightarrow> 'e diseqc_command" where
  "AM_FEND_Diseqccmd_SetSwitchOptionB drv self dev_no =
     diseqc_send drv self dev_no [FIRSTTRANS, LNBSWITCHSMATV, 0x27]"

datatype AM_FEND_Switchinput = AM_FEND_SWITCH1INPUTA | AM_FEND_SWITCH2INPUTA | AM_FEND_SWITCH3INPUTA | AM_FEND_SWITCH4INPUTA
  | AM_FEND_SWITCH1INPUTB | AM_FEND_SWITCH2INPUTB | AM_FEND_SWITCH3INPUTB | AM_FEND_SWITCH4INPUTB

definition AM_FEND_Diseqccmd_SetSwitchInput :: "'e fend_driver \<Rightarrow> bool \<Rightarrow> int \<Rightarrow> AM_FEND_Switchinput \<Rightarrow> 'e diseqc_command" where
  "AM_FEND_Diseqccmd_SetSwitchInput drv self dev_no switch_input =
     diseqc_send drv self dev_no [FIRSTTRANS, LNBSWITCHSMATV,
       (case switch_input of AM_FEND_SWITCH1INPUTA \<Rightarrow> 0x28 | AM_FEND_SWITCH2INPUTA \<Rightarrow> 0x29 | AM_FEND_SWITCH3INPUTA \<Rightarrow> 0x2A
          | AM_FEND_SWITCH4INPUTA \<Rightarrow> 0x2B | AM_FEND_SWITCH1INPUTB \<Rightarrow> 0x2C | AM_FEND_SWITCH2INPUTB \<Rightarrow> 0x2D
          | AM_FEND_SWITCH3INPUTB \<Rightarrow> 0x2E | AM_FEND_SWITCH4INPUTB \<Rightarrow> 0x2F)]"

text \<open>The enumerations are used as numbers.\<close>

datatype AM_FEND_Polarisation = AM_FEND_POLARISATION_H | AM_FEND_POLARISATION_V | AM_FEND_POLARISATION_NOSET
datatype AM_FEND_Localoscollatorfreq = AM_FEND_LOCALOSCILLATORFREQ_L | AM_FEND_LOCALOSCILLATORFREQ_H | AM_FEND_LOCALOSCILLATORFREQ_NOSET

fun polarisation_value :: "AM_FEND_Polarisation \<Rightarrow> 32 word" where
  "polarisation_value AM_FEND_POLARISATION_H = 0"
| "polarisation_value AM_FEND_POLARISATION_V = 1"
| "polarisation_value AM_FEND_POLARISATION_NOSET = 2"

fun oscillator_value :: "AM_FEND_Localoscollatorfreq \<Rightarrow> 32 word" where
  "oscillator_value AM_FEND_LOCALOSCILLATORFREQ_L = 0"
| "oscillator_value AM_FEND_LOCALOSCILLATORFREQ_H = 1"
| "oscillator_value AM_FEND_LOCALOSCILLATORFREQ_NOSET = 2"

definition lnb4_csw :: "int \<Rightarrow> AM_FEND_Polarisation \<Rightarrow> AM_FEND_Localoscollatorfreq \<Rightarrow> 32 word" where
  "lnb4_csw lnbport polarisation local_oscillator_freq =
     (let band0 = (if local_oscillator_freq \<noteq> AM_FEND_LOCALOSCILLATORFREQ_NOSET
                   then (if oscillator_value local_oscillator_freq AND oscillator_value AM_FEND_LOCALOSCILLATORFREQ_H \<noteq> 0 then 0 OR 1 else 0)
                   else 0);
          band = (if polarisation \<noteq> AM_FEND_POLARISATION_NOSET
                  then (if polarisation_value polarisation AND polarisation_value AM_FEND_POLARISATION_V = 0 then band0 OR 2 else band0)
                  else band0);
          csw0 = (if lnbport < 4 then 0xF0 OR push_bit 2 (word_of_int lnbport) else word_of_int lnbport);
          csw1 = (if lnbport \<le> 4 then csw0 OR band else csw0);
          csw2 = (if local_oscillator_freq = AM_FEND_LOCALOSCILLATORFREQ_NOSET then csw1 AND 0xEF else csw1) in
      if polarisation = AM_FEND_POLARISATION_NOSET then csw2 AND 0xDF else csw2)"

definition AM_FEND_Diseqccmd_SetLNBPort4 :: "'e fend_driver \<Rightarrow> bool \<Rightarrow> int \<Rightarrow> int \<Rightarrow> AM_FEND_Polarisation \<Rightarrow> AM_FEND_Localoscollatorfreq
    \<Rightarrow> 'e diseqc_command" where
  "AM_FEND_Diseqccmd_SetLNBPort4 drv self dev_no lnbport polarisation local_oscillator_freq st =
     (if lnbport < 0 \<or> lnbport > 4 then Some (AM_FEND_DISEQCCMD_ERROR_BASE, st)
      else if lnbport = 4 then Some (AM_SUCCESS, st)
      else diseqc_send drv self dev_no [FIRSTTRANS, LNBSWITCHSMATV, 0x38, ucast (lnb4_csw lnbport polarisation local_oscillator_freq)] st)"

text \<open>
  The table that the computation replaces; it is kept in the source under \<^verbatim>\<open>#if 0\<close> with the remark that it is correct, and counts ports from \<open>1\<close>.
\<close>

definition lnb4_entry :: "byte \<Rightarrow> AM_FEND_Polarisation \<Rightarrow> AM_FEND_Localoscollatorfreq \<Rightarrow> byte" where
  "lnb4_entry base polarisation local_oscillator_freq =
     (if polarisation = AM_FEND_POLARISATION_V \<and> local_oscillator_freq = AM_FEND_LOCALOSCILLATORFREQ_L then base
      else if polarisation = AM_FEND_POLARISATION_V \<and> local_oscillator_freq = AM_FEND_LOCALOSCILLATORFREQ_H then base + 1
      else if polarisation = AM_FEND_POLARISATION_H \<and> local_oscillator_freq = AM_FEND_LOCALOSCILLATORFREQ_L then base + 2
      else if polarisation = AM_FEND_POLARISATION_H \<and> local_oscillator_freq = AM_FEND_LOCALOSCILLATORFREQ_H then base + 3
      else base)"

definition lnb4_table :: "int \<Rightarrow> AM_FEND_Polarisation \<Rightarrow> AM_FEND_Localoscollatorfreq \<Rightarrow> byte" where
  "lnb4_table lnbport polarisation local_oscillator_freq =
     (if lnbport = 1 then lnb4_entry 0xF0 polarisation local_oscillator_freq
      else if lnbport = 2 then lnb4_entry 0xF4 polarisation local_oscillator_freq
      else if lnbport = 3 then lnb4_entry 0xF8 polarisation local_oscillator_freq
      else if lnbport = 4 then lnb4_entry 0xFC polarisation local_oscillator_freq
      else 0xF0)"

definition AM_FEND_Diseqccmd_SetLNBPort16 :: "'e fend_driver \<Rightarrow> bool \<Rightarrow> int \<Rightarrow> int \<Rightarrow> 'e diseqc_command" where
  "AM_FEND_Diseqccmd_SetLNBPort16 drv self dev_no lnbport st =
     (if lnbport < 0xF0 \<or> lnbport > 0xFF then Some (AM_FEND_DISEQCCMD_ERROR_BASE, st)
      else diseqc_send drv self dev_no [FIRSTTRANS, LNBSWITCHSMATV, 0x39, word_of_int lnbport] st)"

subsection \<open>Channel frequency\<close>

text \<open>The frequency in binary coded decimals; the digits are stored into bytes. Division is that of C.\<close>

definition channel_freq_msg :: "int \<Rightarrow> byte list" where
  "channel_freq_msg freq =
     (let r0 = freq sdiv 100;
          a1 = word_of_int (r0 sdiv (1000 * 100)); r1 = r0 smod (1000 * 100);
          a2 = word_of_int (r1 sdiv (1000 * 10)); r2 = r1 smod (1000 * 10);
          m3 = push_bit 4 a1 OR a2;
          b1 = word_of_int (r2 sdiv 1000); r3 = r2 smod 1000;
          b2 = word_of_int (r3 sdiv 100); r4 = r3 smod 100;
          m4 = push_bit 4 b1 OR b2;
          c1 = word_of_int (r4 sdiv 10); r5 = r4 smod 10;
          c2 = word_of_int r5;
          m5 = push_bit 4 c1 OR c2 in
      [FIRSTTRANS, SUBSCRIBERCONTROLLED, 0x58, m3, m4] @ (if m5 = 0 then [] else [m5]))"

definition AM_FEND_Diseqccmd_SetChannelFreq :: "'e fend_driver \<Rightarrow> bool \<Rightarrow> int \<Rightarrow> int \<Rightarrow> 'e diseqc_command" where
  "AM_FEND_Diseqccmd_SetChannelFreq drv self dev_no freq = diseqc_send drv self dev_no (channel_freq_msg freq)"

subsection \<open>Dish motors\<close>

definition AM_FEND_Diseqccmd_SetPositionerHalt :: "'e fend_driver \<Rightarrow> bool \<Rightarrow> int \<Rightarrow> 'e diseqc_command" where
  "AM_FEND_Diseqccmd_SetPositionerHalt drv self dev_no =
     diseqc_send drv self dev_no [FIRSTTRANS, POLARAZIMUTHPOSITIONER, 0x60]"

definition AM_FEND_Diseqccmd_EnablePositionerLimit :: "'e fend_driver \<Rightarrow> bool \<Rightarrow> int \<Rightarrow> 'e diseqc_command" where
  "AM_FEND_Diseqccmd_EnablePositionerLimit drv self dev_no =
     diseqc_send drv self dev_no [FIRSTTRANS, POLARAZIMUTHPOSITIONER, 0x6A, 0x00]"

definition AM_FEND_Diseqccmd_DisablePositionerLimit :: "'e fend_driver \<Rightarrow> bool \<Rightarrow> int \<Rightarrow> 'e diseqc_command" where
  "AM_FEND_Diseqccmd_DisablePositionerLimit drv self dev_no =
     diseqc_send drv self dev_no [FIRSTTRANS, POLARAZIMUTHPOSITIONER, 0x63]"

definition AM_FEND_Diseqccmd_SetPositionerELimit :: "'e fend_driver \<Rightarrow> bool \<Rightarrow> int \<Rightarrow> 'e diseqc_command" where
  "AM_FEND_Diseqccmd_SetPositionerELimit drv self dev_no =
     diseqc_send drv self dev_no [FIRSTTRANS, POLARAZIMUTHPOSITIONER, 0x66]"

definition AM_FEND_Diseqccmd_SetPositionerWLimit :: "'e fend_driver \<Rightarrow> bool \<Rightarrow> int \<Rightarrow> 'e diseqc_command" where
  "AM_FEND_Diseqccmd_SetPositionerWLimit drv self dev_no =
     diseqc_send drv self dev_no [FIRSTTRANS, POLARAZIMUTHPOSITIONER, 0x67]"

definition AM_FEND_Diseqccmd_PositionerGoE :: "'e fend_driver \<Rightarrow> bool \<Rightarrow> int \<Rightarrow> byte \<Rightarrow> 'e diseqc_command" where
  "AM_FEND_Diseqccmd_PositionerGoE drv self dev_no unit =
     diseqc_send drv self dev_no [REPEATTRANS, POLARAZIMUTHPOSITIONER, 0x68, unit]"

definition AM_FEND_Diseqccmd_PositionerGoW :: "'e fend_driver \<Rightarrow> bool \<Rightarrow> int \<Rightarrow> byte \<Rightarrow> 'e diseqc_command" where
  "AM_FEND_Diseqccmd_PositionerGoW drv self dev_no unit =
     diseqc_send drv self dev_no [REPEATTRANS, POLARAZIMUTHPOSITIONER, 0x69, unit]"

definition AM_FEND_Diseqccmd_StorePosition :: "'e fend_driver \<Rightarrow> bool \<Rightarrow> int \<Rightarrow> byte \<Rightarrow> 'e diseqc_command" where
  "AM_FEND_Diseqccmd_StorePosition drv self dev_no position =
     diseqc_send drv self dev_no [FIRSTTRANS, POLARAZIMUTHPOSITIONER, 0x6A, position]"

definition AM_FEND_Diseqccmd_GotoPositioner :: "'e fend_driver \<Rightarrow> bool \<Rightarrow> int \<Rightarrow> byte \<Rightarrow> 'e diseqc_command" where
  "AM_FEND_Diseqccmd_GotoPositioner drv self dev_no position =
     diseqc_send drv self dev_no [FIRSTTRANS, POLARAZIMUTHPOSITIONER, 0x6B, position]"

text \<open>
  The number that \<^verbatim>\<open>AM_ProduceAngularPositioner\<close> returns, from the rounded angle \<open>tmp\<close> in tenths of a degree and the direction bits, and the
  message with that number.
\<close>

definition gotoXTable :: "int list" where
  "gotoXTable = [0x00, 0x02, 0x03, 0x05, 0x06, 0x08, 0x0A, 0x0B, 0x0D, 0x0E]"

definition rotor_cmd :: "int \<Rightarrow> int \<Rightarrow> int" where
  "rotor_cmd direction tmp = ((tmp div 10) * 0x10 + gotoXTable ! nat (tmp mod 10)) OR direction"

definition goto_angular_send :: "'e fend_driver \<Rightarrow> bool \<Rightarrow> int \<Rightarrow> int \<Rightarrow> 'e diseqc_command" where
  "goto_angular_send drv self dev_no RotorCmd =
     diseqc_send drv self dev_no
       [FIRSTTRANS, POLARAZIMUTHPOSITIONER, 0x6E, word_of_int ((RotorCmd AND 0xFF00) div 0x100), word_of_int (RotorCmd AND 0xFF)]"

subsection \<open>Single cable distribution\<close>

text \<open>
  The tuning word. The frequencies are divided as integers, so that the floating point numbers of the source are integers below
  \<open>2 ^ 24\<close> and exact, and \<^verbatim>\<open>round\<close> rounds quarters, halves away from zero. A result outside of \<^verbatim>\<open>unsigned short\<close> is undefined.
\<close>

definition round_quarter :: "int \<Rightarrow> int" where
  "round_quarter x = (if x \<ge> 0 then (x + 2) div 4 else - ((- x + 2) div 4))"

definition odu_tuning :: "int \<Rightarrow> int \<Rightarrow> int \<Rightarrow> int" where
  "odu_tuning transponder_freq oscillator_freq ub_freq =
     round_quarter (\<bar>transponder_freq sdiv 1000 - oscillator_freq sdiv 1000\<bar> + ub_freq sdiv 1000) - 350"

definition odu_channel_msg :: "byte \<Rightarrow> byte \<Rightarrow> 16 word \<Rightarrow> byte list" where
  "odu_channel_msg ub_number inputbank_number T0 =
     (let T = T0 AND 0x0BFF; T1 = ucast (drop_bit 8 T AND 0xFF); T2 = ucast (T AND 0xFF) in
      [FIRSTTRANS, ANYDEVICE, 0x5A, (push_bit 5 ub_number OR push_bit 2 inputbank_number) OR T1, T2])"

definition AM_FEND_Diseqccmd_SetODUChannel :: "'e fend_driver \<Rightarrow> bool \<Rightarrow> int \<Rightarrow> byte \<Rightarrow> byte \<Rightarrow> int \<Rightarrow> int \<Rightarrow> int \<Rightarrow> 'e diseqc_command" where
  "AM_FEND_Diseqccmd_SetODUChannel drv self dev_no ub_number inputbank_number transponder_freq oscillator_freq ub_freq st =
     (if ub_number > 7 \<or> inputbank_number > 7 then Some (AM_FEND_DISEQCCMD_ERROR_BASE, st)
      else
        let T = odu_tuning transponder_freq oscillator_freq ub_freq in
        if T < 0 \<or> T > 0xFFFF then None
        else diseqc_send drv self dev_no (odu_channel_msg ub_number inputbank_number (word_of_int T)) st)"

definition AM_FEND_Diseqccmd_SetODUPowerOff :: "'e fend_driver \<Rightarrow> bool \<Rightarrow> int \<Rightarrow> byte \<Rightarrow> 'e diseqc_command" where
  "AM_FEND_Diseqccmd_SetODUPowerOff drv self dev_no ub_number st =
     (if ub_number > 7 then Some (AM_FEND_DISEQCCMD_ERROR_BASE, st)
      else diseqc_send drv self dev_no [FIRSTTRANS, ANYDEVICE, 0x5A, push_bit 5 ub_number, 0x00] st)"

definition AM_FEND_Diseqccmd_SetODUUbxSignalOn :: "'e fend_driver \<Rightarrow> bool \<Rightarrow> int \<Rightarrow> 'e diseqc_command" where
  "AM_FEND_Diseqccmd_SetODUUbxSignalOn drv self dev_no = diseqc_send drv self dev_no [FIRSTTRANS, ANYDEVICE, 0x5B, 0x00, 0x00]"

datatype AM_FEND_RFType = AM_FEND_RFTYPE_STANDARD | AM_FEND_RFTYPE_WIDEBAND

text \<open>The code of a configuration; one that is not listed leaves the byte \<open>0\<close>.\<close>

definition odu_count :: "byte \<Rightarrow> byte \<Rightarrow> byte" where
  "odu_count base ub_count =
     (if ub_count = 2 then base else if ub_count = 4 then base + 1 else if ub_count = 6 then base + 2 else if ub_count = 8 then base + 3 else 0)"

definition odu_config_code :: "byte \<Rightarrow> byte \<Rightarrow> AM_FEND_RFType \<Rightarrow> byte \<Rightarrow> byte" where
  "odu_config_code satellite_position_count input_bank_count rf_type ub_count =
     (if satellite_position_count = 1
      then (if input_bank_count = 4 then (if rf_type = AM_FEND_RFTYPE_STANDARD then odu_count 0x10 ub_count else 0)
            else if input_bank_count = 2 then (if rf_type = AM_FEND_RFTYPE_STANDARD then 0 else odu_count 0x14 ub_count)
            else 0)
      else if satellite_position_count = 2
      then (if input_bank_count = 8 then (if rf_type = AM_FEND_RFTYPE_STANDARD then odu_count 0x18 ub_count else 0)
            else if input_bank_count = 4 then (if rf_type = AM_FEND_RFTYPE_STANDARD then 0 else odu_count 0x1C ub_count)
            else 0)
      else 0)"

definition AM_FEND_Diseqccmd_SetODUConfig :: "'e fend_driver \<Rightarrow> bool \<Rightarrow> int \<Rightarrow> byte \<Rightarrow> byte \<Rightarrow> byte \<Rightarrow> AM_FEND_RFType \<Rightarrow> byte \<Rightarrow> 'e diseqc_command" where
  "AM_FEND_Diseqccmd_SetODUConfig drv self dev_no ub_number satellite_position_count input_bank_count rf_type ub_count st =
     (if ub_number > 7 then Some (AM_FEND_DISEQCCMD_ERROR_BASE, st)
      else diseqc_send drv self dev_no [FIRSTTRANS, ANYDEVICE, 0x5B, push_bit 5 ub_number OR 0x01,
             odu_config_code satellite_position_count input_bank_count rf_type ub_count] st)"

definition AM_FEND_Diseqccmd_SetODULoFreq :: "'e fend_driver \<Rightarrow> bool \<Rightarrow> int \<Rightarrow> byte \<Rightarrow> byte \<Rightarrow> 'e diseqc_command" where
  "AM_FEND_Diseqccmd_SetODULoFreq drv self dev_no ub_number lot st =
     (if ub_number > 7 then Some (AM_FEND_DISEQCCMD_ERROR_BASE, st)
      else diseqc_send drv self dev_no [FIRSTTRANS, ANYDEVICE, 0x5B, push_bit 5 ub_number OR 0x02, lot] st)"

end
