(* ===== verification/Fend_Blind_Facts.thy ===== *)
theory Fend_Blind_Facts
  imports Fend_Blind Fend_Facts
begin

text \<open>
  The blind scan: a scan over a driver that reports events in order, the bound on the number of transponders, and the events with
  which the thread stops making progress.
\<close>

subsection \<open>The functions of the thread\<close>

lemma upd_setting_simps [fend_upd, simp]:
  "fend_frames (upd_setting i f st) = fend_frames st" "fend_os (upd_setting i f st) = fend_os st"
  "length (fend_devices (upd_setting i f st)) = length (fend_devices st)"
  by (simp_all add: upd_setting_def)

lemma upd_setting_dev [fend_upd, simp]:
  "i < length (fend_devices st) \<Longrightarrow> fend_devices (upd_setting i f st) ! i = (fend_devices st ! i)\<lparr>fd_bs_setting := f (fd_bs_setting (fend_devices st ! i))\<rparr>"
  by (simp add: upd_setting_def)

lemma fend_get_dev_int [simp]: "i < 2 \<Longrightarrow> fend_get_dev (int i) = Inr i"
  by (simp add: fend_get_dev_def)

text \<open>The transponders kept so far, and a scan in progress on the device \<open>i\<close>.\<close>

definition bs_found :: "bs_setting \<Rightarrow> fend_parameters list" where
  "bs_found bs = take (unat (m_uiChannelCount bs)) (channels bs)"

definition bs_fits :: "bs_setting \<Rightarrow> bool" where
  "bs_fits bs \<longleftrightarrow> length (channels bs) = FEND_BS_MAX_CHANNEL \<and> unat (m_uiChannelCount bs) \<le> FEND_BS_MAX_CHANNEL"

definition bs_ready :: "nat \<Rightarrow> 'e fend_state \<Rightarrow> bool" where
  "bs_ready i st \<longleftrightarrow> i < 2 \<and> length (fend_devices st) = 2 \<and> 0 < fd_open_count (fend_devices st ! i) \<and> fd_lock (fend_devices st ! i)
     \<and> bs_fits (fd_bs_setting (fend_devices st ! i))"

lemma bs_ready_openned: "bs_ready i st \<Longrightarrow> fend_get_openned_dev st (int i) = Inr i"
  by (simp add: bs_ready_def fend_get_openned_dev_def)

lemma bs_found_length: "bs_fits bs \<Longrightarrow> length (bs_found bs) = unat (m_uiChannelCount bs)"
  by (simp add: bs_fits_def bs_found_def)

lemma unat_suc_16: "unat (c :: 16 word) \<le> 128 \<Longrightarrow> unat (c + 1) = unat c + 1"
  by (simp add: unat_word_ariths)

lemma add_channel:
  assumes "bs_fits bs"
  shows "bs_add_channel p bs = None \<longleftrightarrow> length (bs_found bs) = FEND_BS_MAX_CHANNEL"
    and "bs_add_channel p bs = Some bs1 \<Longrightarrow> bs_fits bs1 \<and> bs_found bs1 = bs_found bs @ [p] \<and> bsEvent bs1 = bsEvent bs \<and> bsPara bs1 = bsPara bs"
proof -
  have n: "unat (m_uiChannelCount bs) \<le> 128" "length (channels bs) = 128" using assms by (auto simp: bs_fits_def)
  obtain k where k: "unat (m_uiChannelCount bs) = k" by simp
  have u: "uint (m_uiChannelCount bs + 1) = int k + 1"
    using unat_suc_16 [OF n(1)] k by (metis of_nat_1 of_nat_add uint_nat)
  have eq: "bs_add_channel p bs = (if unat (m_uiChannelCount bs) = 128 then None
      else Some (bs\<lparr>m_uiChannelCount := m_uiChannelCount bs + 1, channels := (channels bs)[unat (m_uiChannelCount bs) := p]\<rparr>))"
    unfolding bs_add_channel_def Let_def u k using n by (simp add: k)
  show "bs_add_channel p bs = None \<longleftrightarrow> length (bs_found bs) = FEND_BS_MAX_CHANNEL"
    by (simp add: eq bs_found_length [OF assms])
  show "bs_add_channel p bs = Some bs1 \<Longrightarrow> bs_fits bs1 \<and> bs_found bs1 = bs_found bs @ [p] \<and> bsEvent bs1 = bsEvent bs \<and> bsPara bs1 = bsPara bs"
    using n by (auto simp: eq bs_fits_def bs_found_def unat_suc_16 [OF n(1)] take_Suc_conv_app_nth split: if_splits)
qed

text \<open>One event of the driver.\<close>

lemma get_scan_event:
  assumes "bs_ready i st" "fe_blindscan_getscanevent drv = Some g"
    and "g (fd_drv_data (fend_devices st ! i)) (fend_os st) = ((AM_SUCCESS, Some ev), e)"
    and "be_status ev = BLINDSCAN_UPDATERESULTFREQ \<Longrightarrow> length (bs_found (fd_bs_setting (fend_devices st ! i))) < FEND_BS_MAX_CHANNEL"
  shows "\<exists>bs. AM_FEND_IBlindScanAPI_GetScanEvent drv (int i) st = Some ((AM_SUCCESS, Some ev), (upd_setting i (\<lambda>_. bs) st)\<lparr>fend_os := e\<rparr>)
    \<and> bs_fits bs \<and> bsEvent bs = ev
    \<and> bs_found bs = bs_found (fd_bs_setting (fend_devices st ! i)) @ (if be_status ev = BLINDSCAN_UPDATERESULTFREQ then [be_param ev] else [])"
proof -
  let ?bs = "fd_bs_setting (fend_devices st ! i)\<lparr>bsEvent := ev\<rparr>"
  have fits: "bs_fits ?bs" and found: "bs_found ?bs = bs_found (fd_bs_setting (fend_devices st ! i))"
    using assms(1) by (simp_all add: bs_ready_def bs_fits_def bs_found_def)
  have twice: "upd_setting i (\<lambda>_. bs1) ((upd_setting i (\<lambda>_. bs) st)\<lparr>fend_os := e\<rparr>) = (upd_setting i (\<lambda>_. bs1) st)\<lparr>fend_os := e\<rparr>" for bs bs1
    using assms(1) by (simp add: upd_setting_def upd_fend_def bs_ready_def)
  show ?thesis
  proof (cases "be_status ev = BLINDSCAN_UPDATERESULTFREQ")
    case True
    then obtain bs1 where "bs_add_channel (be_param ev) ?bs = Some bs1"
      using add_channel(1) [OF fits, of "be_param ev"] assms(4) found by (cases "bs_add_channel (be_param ev) ?bs") auto
    with True add_channel(2) [OF fits this] assms(1-3) found show ?thesis
      by (intro exI [of _ bs1]) (simp add: AM_FEND_IBlindScanAPI_GetScanEvent_def bs_ready_openned bs_ready_def Let_def twice)
  next
    case False
    with assms(1-3) fits found show ?thesis
      by (intro exI [of _ ?bs]) (simp add: AM_FEND_IBlindScanAPI_GetScanEvent_def bs_ready_openned bs_ready_def Let_def)
  qed
qed

lemma bs_ready_setting [simp]:
  "bs_ready i st \<Longrightarrow> bs_fits bs \<Longrightarrow> bs_ready i ((upd_setting i (\<lambda>_. bs) st)\<lparr>fend_os := e\<rparr>)"
  by (simp add: bs_ready_def)

subsection \<open>A whole scan\<close>

text \<open>
  What the application sees of a list of events: one call each, with the union of \<^verbatim>\<open>evt\<close>, which keeps its last value when an
  event does not write it.
\<close>

definition blind_word :: "32 word option \<Rightarrow> bs_event \<Rightarrow> 32 word option" where
  "blind_word w ev =
     (case be_status ev of BLINDSCAN_UPDATESTARTFREQ \<Rightarrow> Some (frequency (be_param ev))
      | BLINDSCAN_UPDATEPROCESS \<Rightarrow> Some (ucast (m_uiprogress ev)) | _ \<Rightarrow> w)"

definition blind_kind :: "bs_event \<Rightarrow> blind_status" where
  "blind_kind ev =
     (case be_status ev of BLINDSCAN_UPDATESTARTFREQ \<Rightarrow> AM_FEND_BLIND_START
      | BLINDSCAN_UPDATEPROCESS \<Rightarrow> AM_FEND_BLIND_UPDATEPROCESS | _ \<Rightarrow> AM_FEND_BLIND_UPDATETP)"

fun blind_report :: "(blind_status \<Rightarrow> 32 word option \<Rightarrow> blind_call) \<Rightarrow> 32 word option \<Rightarrow> bs_event list \<Rightarrow> blind_call list" where
  "blind_report call w [] = []"
| "blind_report call w (ev # evs) = call (blind_kind ev) (blind_word w ev) # blind_report call (blind_word w ev) evs"

lemma blind_report_append:
  "blind_report call w (evs @ evs') = blind_report call w evs @ blind_report call (foldl blind_word w evs) evs'"
  by (induction evs arbitrary: w) simp_all

text \<open>Events after which the scan goes on, and the transponders among them.\<close>

definition goes_on :: "bs_event \<Rightarrow> bool" where
  "goes_on ev \<longleftrightarrow> be_status ev \<noteq> BLINDSCAN_NONEDO \<and> (be_status ev = BLINDSCAN_UPDATEPROCESS \<longrightarrow> m_uiprogress ev < 100)"

definition transponders :: "bs_event list \<Rightarrow> fend_parameters list" where
  "transponders evs = map be_param (filter (\<lambda>ev. be_status ev = BLINDSCAN_UPDATERESULTFREQ) evs)"

lemma transponders_simps [simp]:
  "transponders [] = []"
  "transponders (ev # evs) = (if be_status ev = BLINDSCAN_UPDATERESULTFREQ then [be_param ev] else []) @ transponders evs"
  "transponders (evs @ evs') = transponders evs @ transponders evs'"
  by (simp_all add: transponders_def)

lemma thread_add:
  "fend_blindscan_thread drv n (k + m) vs =
     do { (c1, vs1) \<leftarrow> fend_blindscan_thread drv n k vs; (c2, vs2) \<leftarrow> fend_blindscan_thread drv n m vs1; Some (c1 @ c2, vs2) }"
proof (induction k arbitrary: vs)
  case 0
  then show ?case by (simp split: Option.bind_split)
next
  case (Suc k)
  obtain v st where vs: "vs = (v, st)" by (cases vs)
  have over: "BS_Status v = DVBSx_BS_Status_Exit \<Longrightarrow> fend_blindscan_thread drv n m (v, st) = Some ([], v, st)" by (cases m) simp_all
  show ?case using Suc over by (auto simp: vs split: Option.bind_splits)
qed

text \<open>A scan in progress with the callback of the application.\<close>

definition bs_scanning :: "nat \<Rightarrow> nat \<Rightarrow> nat \<Rightarrow> 'e fend_state \<Rightarrow> bool" where
  "bs_scanning i cb ud st \<longleftrightarrow> bs_ready i st \<and> fd_enable_blindscan_thread (fend_devices st ! i) \<and> fd_bs_thread (fend_devices st ! i)
     \<and> fd_blindscan_cb (fend_devices st ! i) = Some cb \<and> fd_blindscan_cb_user_data (fend_devices st ! i) = ud"

abbreviation found_in :: "nat \<Rightarrow> 'e fend_state \<Rightarrow> fend_parameters list" where
  "found_in i st \<equiv> bs_found (fd_bs_setting (fend_devices st ! i))"

lemma less_100_16: "(ucast (p :: 16 word) :: 32 word) < 100 \<longleftrightarrow> p < 100"
proof -
  have "unat (ucast p :: 32 word) = unat p"
    using unsigned_less [of p, where ?'a = nat] by (simp add: unsigned_ucast_eq take_bit_nat_eq_self)
  then show ?thesis by (simp add: word_less_nat_alt)
qed

text \<open>Two turns of the thread handle an event.\<close>

lemma event_turns:
  assumes scan: "bs_scanning i cb ud st" and g: "fe_blindscan_getscanevent drv = Some g"
    "\<And>d ev es. g d (ev # es) = ((AM_SUCCESS, Some ev), es)"
    and v: "BS_Status v = DVBSx_BS_Status_Wait" and os: "fend_os st = ev # es" "be_status ev \<noteq> BLINDSCAN_NONEDO"
    and room: "length (found_in i st @ transponders [ev]) \<le> FEND_BS_MAX_CHANNEL"
  shows "\<exists>v' st'. fend_blindscan_thread drv (int i) 2 (v, st) =
      Some (blind_report (\<lambda>s w. (cb, fd_dev_no (fend_devices st ! i), s, w, ud)) (bv_word v) [ev], v', st')
    \<and> BS_Status v' = (if goes_on ev then DVBSx_BS_Status_Wait else DVBSx_BS_Status_WaitExit) \<and> bv_word v' = blind_word (bv_word v) ev
    \<and> bs_scanning i cb ud st' \<and> fend_os st' = es \<and> found_in i st' = found_in i st @ transponders [ev]
    \<and> bsEvent (fd_bs_setting (fend_devices st' ! i)) = ev \<and> fd_dev_no (fend_devices st' ! i) = fd_dev_no (fend_devices st ! i)"
proof -
  have ready: "bs_ready i st" and i: "i < 2" "length (fend_devices st) = 2" using scan by (auto simp: bs_scanning_def bs_ready_def)
  have "be_status ev = BLINDSCAN_UPDATERESULTFREQ \<Longrightarrow> length (found_in i st) < FEND_BS_MAX_CHANNEL" using room by simp
  then obtain bs where get: "AM_FEND_IBlindScanAPI_GetScanEvent drv (int i) st = Some ((AM_SUCCESS, Some ev), (upd_setting i (\<lambda>_. bs) st)\<lparr>fend_os := es\<rparr>)"
    and bs: "bs_fits bs" "bsEvent bs = ev" "bs_found bs = found_in i st @ transponders [ev]"
    using get_scan_event [OF ready g(1), of ev es] g(2) os by auto
  let ?st = "(upd_setting i (\<lambda>_. bs) st)\<lparr>fend_os := es\<rparr>"
  let ?v = "v\<lparr>cur_bsevent := Some ev, BS_Status := DVBSx_BS_Status_User_Process\<rparr>"
  have 1: "bs_turn drv (int i) (v, st) = Some ([], ?v, ?st)"
    using scan v i get by (simp add: bs_turn_def bs_scanning_def)
  have 2: "bs_turn drv (int i) (?v, ?st) = Some (blind_report (\<lambda>s w. (cb, fd_dev_no (fend_devices st ! i), s, w, ud)) (bv_word v) [ev],
      ?v\<lparr>bv_word := blind_word (bv_word v) ev, BS_Status := (if goes_on ev then DVBSx_BS_Status_Wait else DVBSx_BS_Status_WaitExit)\<rparr>, ?st)"
    using scan i os(2)
    by (cases "be_status ev")
       (auto simp: bs_turn_def bs_scanning_def bs_custom_def bs_next_def blind_word_def blind_kind_def goes_on_def m_uistartfreq_khz_def less_100_16 Let_def)
  have "bs_scanning i cb ud ?st" using scan bs ready i by (simp add: bs_scanning_def)
  with 1 2 v bs i show ?thesis by (simp add: numeral_2_eq_2)
qed

lemma events_turns:
  assumes "bs_scanning i cb ud st" and g: "fe_blindscan_getscanevent drv = Some g" "\<And>d ev es. g d (ev # es) = ((AM_SUCCESS, Some ev), es)"
    and "BS_Status v = DVBSx_BS_Status_Wait" "fend_os st = evs @ es" "\<forall>ev \<in> set evs. goes_on ev"
    and "length (found_in i st @ transponders evs) \<le> FEND_BS_MAX_CHANNEL"
  shows "\<exists>v' st'. fend_blindscan_thread drv (int i) (2 * length evs) (v, st) =
      Some (blind_report (\<lambda>s w. (cb, fd_dev_no (fend_devices st ! i), s, w, ud)) (bv_word v) evs, v', st')
    \<and> BS_Status v' = DVBSx_BS_Status_Wait \<and> bv_word v' = foldl blind_word (bv_word v) evs
    \<and> bs_scanning i cb ud st' \<and> fend_os st' = es \<and> found_in i st' = found_in i st @ transponders evs
    \<and> fd_dev_no (fend_devices st' ! i) = fd_dev_no (fend_devices st ! i)"
  using assms(1,4-)
proof (induction evs arbitrary: v st)
  case Nil
  then show ?case by simp
next
  case (Cons ev evs)
  have "be_status ev \<noteq> BLINDSCAN_NONEDO" "goes_on ev" using Cons.prems(4) by (auto simp: goes_on_def)
  then obtain v1 st1 where one: "fend_blindscan_thread drv (int i) 2 (v, st) =
      Some (blind_report (\<lambda>s w. (cb, fd_dev_no (fend_devices st ! i), s, w, ud)) (bv_word v) [ev], v1, st1)"
    and v1: "BS_Status v1 = DVBSx_BS_Status_Wait" "bv_word v1 = blind_word (bv_word v) ev"
    and st1: "bs_scanning i cb ud st1" "fend_os st1 = evs @ es" "found_in i st1 = found_in i st @ transponders [ev]"
      "fd_dev_no (fend_devices st1 ! i) = fd_dev_no (fend_devices st ! i)"
    using event_turns [OF Cons.prems(1) g Cons.prems(2), of ev "evs @ es"] Cons.prems(3,5) by auto
  have two: "2 * length (ev # evs) = 2 + 2 * length evs" by simp
  show ?case unfolding two thread_add one
    using Cons.IH [OF st1(1) v1(1) st1(2)] Cons.prems(4,5) st1 v1(2) by auto
qed

lemma bs_ready_opened:
  assumes "i < 2" "length (fend_devices st) = 2" "0 < fd_open_count (fend_devices st ! i)" "fd_lock (fend_devices st ! i)"
  shows "fend_get_openned_dev (upd_setting i F st) (int i) = Inr i" "fend_get_openned_dev st (int i) = Inr i"
  using assms by (simp_all add: fend_get_openned_dev_def)

lemma scan_started:
  assumes dev: "i < 2" "length (fend_devices st) = 2" "0 < fd_open_count (fend_devices st ! i)" "fd_lock (fend_devices st ! i)"
    and drv: "fe_blindscan_scan drv = Some f" "\<And>d p e. f d p e = (AM_SUCCESS, e)" and "start_freq \<noteq> stop_freq"
  shows "\<exists>st1. AM_FEND_BlindScan True (int i) (Some cb) ud start_freq stop_freq st = Some (AM_SUCCESS, st1)
    \<and> bs_scanning i cb ud st1 \<and> found_in i st1 = [] \<and> fend_os st1 = fend_os st \<and> fd_dev_no (fend_devices st1 ! i) = fd_dev_no (fend_devices st ! i)
    \<and> fend_blindscan_thread drv (int i) 2 (bs_vars_init, st1) = Some ([], bs_vars_init\<lparr>BS_Status := DVBSx_BS_Status_Wait\<rparr>, st1)"
proof -
  let ?bs = "zero_setting\<lparr>bsPara := (bsPara zero_setting)\<lparr>maxSymbolRate := M_BS_MAX_SYMB * 1000 * 1000,
      minSymbolRate := M_BS_MIN_SYMB * 1000 * 1000, bs_timeout := FEND_WAIT_TIMEOUT, minfrequency := start_freq div 1000, maxfrequency := stop_freq div 1000\<rparr>\<rparr>"
  define st1 where "st1 = upd_fend i (\<lambda>dev. dev\<lparr>fd_bs_setting := ?bs, fd_blindscan_cb := Some cb, fd_blindscan_cb_user_data := ud,
      fd_enable_blindscan_thread := True, fd_bs_thread := True\<rparr>) st"
  have begun: "AM_FEND_BlindScan True (int i) (Some cb) ud start_freq stop_freq st = Some (AM_SUCCESS, st1)"
    using dev assms(7)
    by (simp add: AM_FEND_BlindScan_def AM_FEND_IBlindScanAPI_Initialize_def AM_FEND_IBlindScanAPI_SetFreqRange_def bs_ready_opened st1_def
        upd_setting_def upd_fend_def fend_get_openned_dev_def Let_def)
  have fits: "bs_fits ?bs" "bs_found ?bs = []" by (simp_all add: bs_fits_def bs_found_def zero_setting_def)
  have scan: "bs_scanning i cb ud st1" using dev fits by (simp add: bs_scanning_def bs_ready_def st1_def)
  have st1: "found_in i st1 = []" "fend_os st1 = fend_os st" "fd_dev_no (fend_devices st1 ! i) = fd_dev_no (fend_devices st ! i)"
    "fd_lock (fend_devices st1 ! i)" "fd_enable_blindscan_thread (fend_devices st1 ! i)"
    using dev fits by (simp_all add: st1_def)
  have "fend_blindscan_thread drv (int i) 2 (bs_vars_init, st1) = Some ([], bs_vars_init\<lparr>BS_Status := DVBSx_BS_Status_Wait\<rparr>, st1)"
    using st1 dev(1) drv by (simp add: numeral_2_eq_2 bs_turn_def bs_vars_init_def AM_FEND_IBlindScanAPI_Start_def Let_def)
  with begun scan st1 show ?thesis by blast
qed

lemma scan_result:
  assumes "bs_scanning i cb ud st"
  shows "AM_FEND_BlindGetTPInfo (int i) 128 st = Some (AM_SUCCESS, Some (found_in i st, word_of_nat (length (found_in i st))))"
    and "AM_FEND_BlindGetProcess (int i) st = Some (AM_SUCCESS, ucast (m_uiprogress (bsEvent (fd_bs_setting (fend_devices st ! i)))))"
proof -
  let ?bs = "fd_bs_setting (fend_devices st ! i)"
  have fits: "bs_fits ?bs" and ready: "bs_ready i st" using assms by (simp_all add: bs_scanning_def bs_ready_def)
  obtain k where k: "unat (m_uiChannelCount ?bs) = k" "k \<le> 128" "length (channels ?bs) = 128" using fits by (auto simp: bs_fits_def)
  have c: "(ucast (m_uiChannelCount ?bs) :: 32 word) = word_of_nat k"
    unfolding k(1) [symmetric] by simp
  have u: "unat (word_of_nat k :: 32 word) = k" using k(2) by (simp add: unat_of_nat)
  have m: "(if 128 > (word_of_nat k :: 32 word) then word_of_nat k else 128) = (word_of_nat k :: 32 word)"
    using k(2) u by (simp add: word_less_nat_alt word_unat_eq_iff)
  have "found_in i st = take k (channels ?bs)" "length (found_in i st) = k" using k by (simp_all add: bs_found_def)
  then show "AM_FEND_BlindGetTPInfo (int i) 128 st = Some (AM_SUCCESS, Some (found_in i st, word_of_nat (length (found_in i st))))"
    using ready k unfolding AM_FEND_BlindGetTPInfo_def bs_ready_openned [OF ready] Let_def sum.case c m u by (simp add: bs_ready_def)
  show "AM_FEND_BlindGetProcess (int i) st = Some (AM_SUCCESS, ucast (m_uiprogress (bsEvent ?bs)))"
    using ready by (simp add: AM_FEND_BlindGetProcess_def AM_FEND_IBlindscanAPI_GetProgress_def bs_ready_openned bs_ready_def)
qed

lemma scan_stops:
  assumes "bs_scanning i cb ud st" "BS_Status v \<noteq> DVBSx_BS_Status_Exit" "fe_blindscan_cancel drv = Some h"
  shows "\<exists>st3 v' st4 st5. blind_exit_begin (int i) st = (Inr i, st3) \<and> fend_blindscan_thread drv (int i) 1 (v, st3) = Some ([], v', st4)
    \<and> blind_exit_join i v' st4 = Some (Inr AM_SUCCESS, st5)"
proof -
  let ?st3 = "upd_fend i (\<lambda>dev. dev\<lparr>fd_enable_blindscan_thread := False\<rparr>) st"
  have ready: "bs_ready i st" and i: "i < 2" "length (fend_devices st) = 2" using assms(1) by (auto simp: bs_scanning_def bs_ready_def)
  have "bs_ready i ?st3" using ready i by (simp add: bs_ready_def)
  then show ?thesis using assms i ready
    by (cases "h (fd_drv_data (fend_devices st ! i)) (fend_os st)")
       (auto simp: blind_exit_begin_def blind_exit_join_def bs_ready_openned bs_turn_def bs_scanning_def bs_ready_def bs_fits_def
         AM_FEND_BlindDump_def AM_FEND_IBlindScanAPI_Exit_def Let_def)
qed

text \<open>
  C23: a blind scan with a callback, over a driver that reports the events of a list. The scan starts; the application is called
  once for every event, in order; after the event that reports 100 percent the transponders kept are exactly those of the events, in
  order, \<^verbatim>\<open>AM_FEND_BlindGetProcess\<close> gives the progress, and once \<^verbatim>\<open>AM_FEND_BlindExit\<close> has cleared the flag one more turn ends the thread, so that it returns.
\<close>

theorem blind_scan_reports_all:
  assumes dev: "i < 2" "length (fend_devices st) = 2" "0 < fd_open_count (fend_devices st ! i)" "fd_lock (fend_devices st ! i)"
    and drv: "fe_blindscan_scan drv = Some f" "\<And>d p e. f d p e = (AM_SUCCESS, e)"
      "fe_blindscan_getscanevent drv = Some g" "\<And>d ev es. g d (ev # es) = ((AM_SUCCESS, Some ev), es)"
      "fe_blindscan_cancel drv = Some h"
    and evs: "fend_os st = evs @ fin # es" "\<forall>ev \<in> set evs. goes_on ev" "be_status fin = BLINDSCAN_UPDATEPROCESS" "m_uiprogress fin \<ge> 100"
      "length (transponders evs) \<le> FEND_BS_MAX_CHANNEL" and freq: "start_freq \<noteq> stop_freq"
  shows "\<exists>st1 v st2. AM_FEND_BlindScan True (int i) (Some cb) ud start_freq stop_freq st = Some (AM_SUCCESS, st1)
    \<and> fend_blindscan_thread drv (int i) (2 + 2 * length (evs @ [fin])) (bs_vars_init, st1) =
        Some (blind_report (\<lambda>s w. (cb, fd_dev_no (fend_devices st ! i), s, w, ud)) None (evs @ [fin]), v, st2)
    \<and> BS_Status v = DVBSx_BS_Status_WaitExit \<and> fend_os st2 = es
    \<and> AM_FEND_BlindGetTPInfo (int i) 128 st2 = Some (AM_SUCCESS, Some (transponders evs, word_of_nat (length (transponders evs))))
    \<and> AM_FEND_BlindGetProcess (int i) st2 = Some (AM_SUCCESS, ucast (m_uiprogress fin))
    \<and> (\<exists>st3 v' st4 st5. blind_exit_begin (int i) st2 = (Inr i, st3) \<and> fend_blindscan_thread drv (int i) 1 (v, st3) = Some ([], v', st4)
         \<and> blind_exit_join i v' st4 = Some (Inr AM_SUCCESS, st5))"
proof -
  obtain st1 where begun: "AM_FEND_BlindScan True (int i) (Some cb) ud start_freq stop_freq st = Some (AM_SUCCESS, st1)"
    and st1: "bs_scanning i cb ud st1" "found_in i st1 = []" "fend_os st1 = evs @ fin # es" "fd_dev_no (fend_devices st1 ! i) = fd_dev_no (fend_devices st ! i)"
    and start: "fend_blindscan_thread drv (int i) 2 (bs_vars_init, st1) = Some ([], bs_vars_init\<lparr>BS_Status := DVBSx_BS_Status_Wait\<rparr>, st1)"
    using scan_started [OF dev drv(1,2) freq, of cb ud] evs(1) by auto
  let ?v1 = "bs_vars_init\<lparr>BS_Status := DVBSx_BS_Status_Wait\<rparr>" and ?call = "\<lambda>s w. (cb, fd_dev_no (fend_devices st ! i), s, w, ud)"
  obtain v2 st2 where run: "fend_blindscan_thread drv (int i) (2 * length evs) (?v1, st1) = Some (blind_report ?call None evs, v2, st2)"
    and v2: "BS_Status v2 = DVBSx_BS_Status_Wait" "bv_word v2 = foldl blind_word None evs"
    and st2: "bs_scanning i cb ud st2" "fend_os st2 = fin # es" "found_in i st2 = transponders evs" "fd_dev_no (fend_devices st2 ! i) = fd_dev_no (fend_devices st ! i)"
    using events_turns [OF st1(1) drv(3,4), of ?v1 evs "fin # es"] st1 evs by (auto simp: bs_vars_init_def)
  have fin: "\<not> goes_on fin" "be_status fin \<noteq> BLINDSCAN_NONEDO" "transponders [fin] = []" using evs(3,4) by (auto simp: goes_on_def)
  obtain v3 st3 where last_turns: "fend_blindscan_thread drv (int i) 2 (v2, st2) = Some (blind_report ?call (foldl blind_word None evs) [fin], v3, st3)"
    and v3: "BS_Status v3 = DVBSx_BS_Status_WaitExit"
    and st3: "bs_scanning i cb ud st3" "fend_os st3 = es" "found_in i st3 = transponders evs" "bsEvent (fd_bs_setting (fend_devices st3 ! i)) = fin"
    using event_turns [OF st2(1) drv(3,4) v2(1) st2(2) fin(2)] evs(5) st2 fin v2 by auto
  have n: "2 + 2 * length (evs @ [fin]) = 2 + (2 * length evs + 2)" by simp
  have "fend_blindscan_thread drv (int i) (2 + 2 * length (evs @ [fin])) (bs_vars_init, st1) = Some (blind_report ?call None (evs @ [fin]), v3, st3)"
    unfolding n thread_add start by (simp add: thread_add run last_turns blind_report_append)
  moreover have "BS_Status v3 \<noteq> DVBSx_BS_Status_Exit" using v3 by simp
  ultimately show ?thesis
    using begun v3 st3 scan_result [OF st3(1)] scan_stops [OF st3(1) _ drv(5), of v3] by auto
qed

text \<open>A driver that reports the events of a list, and device 0 opened for satellites.\<close>

definition demo_scanner :: "bs_event list fend_driver" where
  "demo_scanner = \<lparr>fe_open = Some (\<lambda>n mode d e. ((AM_SUCCESS, 5), e)), fe_set_mode = None, fe_get_info = None,
     fe_get_ts = None, fe_set_para = None, fe_get_para = None, fe_get_status = None, fe_get_snr = None,
     fe_get_ber = None, fe_get_strength = None, fe_wait_event = None,
     fe_set_delay = None, fe_diseqc_reset_overload = None, fe_diseqc_send_master_cmd = None, fe_diseqc_recv_slave_reply = None,
     fe_diseqc_send_burst = None, fe_set_tone = None, fe_set_voltage = None, fe_enable_high_lnb_voltage = None, fe_close = None,
     fe_set_prop = None, fe_get_prop = None, fe_blindscan_scan = Some (\<lambda>d p e. (AM_SUCCESS, e)),
     fe_blindscan_getscanevent = Some (\<lambda>d e. case e of [] \<Rightarrow> ((AM_FAILURE, None), []) | ev # evs \<Rightarrow> ((AM_SUCCESS, Some ev), evs)),
     fe_blindscan_cancel = Some (\<lambda>d e. (AM_SUCCESS, [])),
     fe_fine_tune = None, fe_set_cvbs_amp_out = None, fe_get_atv_status = None, fe_set_afc = None\<rparr>"

definition demo_sat :: "bs_event list \<Rightarrow> bs_event list fend_state" where
  "demo_sat evs = snd (AM_FEND_Open demo_scanner True 0 0
     \<lparr>fend_devices = [demo_device, demo_device\<lparr>fd_dev_no := 1\<rparr>], fend_frames = (\<lambda>_. None), fend_os = evs\<rparr>)"

definition demo_event :: "bs_kind \<Rightarrow> 32 word \<Rightarrow> bs_event" where
  "demo_event k w = \<lparr>be_status = k, be_param = demo_para w\<rparr>"

lemma demo_sat_simps [simp]:
  "length (fend_devices (demo_sat evs)) = 2" "fd_open_count (fend_devices (demo_sat evs) ! 0) = 1" "fd_lock (fend_devices (demo_sat evs) ! 0)"
  "fd_dev_no (fend_devices (demo_sat evs) ! 0) = 0" "fend_os (demo_sat evs) = evs"
  "fd_bs_setting (fend_devices (demo_sat evs) ! 0) = fd_bs_setting demo_device"
  by (simp_all add: demo_sat_def demo_scanner_def demo_device_def AM_FEND_Open_def fend_get_dev_def upd_fend_def)

lemma demo_event_simps [simp]:
  "be_status (demo_event k w) = k" "be_param (demo_event k w) = demo_para w" "m_uiprogress (demo_event k w) = ucast w"
  by (simp_all add: demo_event_def m_uiprogress_def demo_para_def)

theorem blind_scan_reports_all_witness:
  "\<exists>st1 v st2. AM_FEND_BlindScan True 0 (Some 9) 4 950000000 2150000000
       (demo_sat [demo_event BLINDSCAN_UPDATESTARTFREQ 950000, demo_event BLINDSCAN_UPDATERESULTFREQ 1120000, demo_event BLINDSCAN_UPDATEPROCESS 100])
     = Some (AM_SUCCESS, st1)
   \<and> fend_blindscan_thread demo_scanner 0 8 (bs_vars_init, st1) =
       Some ([(9, 0, AM_FEND_BLIND_START, Some 950000, 4), (9, 0, AM_FEND_BLIND_UPDATETP, Some 950000, 4), (9, 0, AM_FEND_BLIND_UPDATEPROCESS, Some 100, 4)], v, st2)
   \<and> AM_FEND_BlindGetTPInfo 0 128 st2 = Some (AM_SUCCESS, Some ([demo_para 1120000], 1))"
  using blind_scan_reports_all [of 0 "demo_sat [demo_event BLINDSCAN_UPDATESTARTFREQ 950000, demo_event BLINDSCAN_UPDATERESULTFREQ 1120000,
        demo_event BLINDSCAN_UPDATEPROCESS 100]" demo_scanner "\<lambda>d p e. (AM_SUCCESS, e)"
      "\<lambda>d e. case e of [] \<Rightarrow> ((AM_FAILURE, None), []) | ev # evs \<Rightarrow> ((AM_SUCCESS, Some ev), evs)" "\<lambda>d e. (AM_SUCCESS, [])"
      "[demo_event BLINDSCAN_UPDATESTARTFREQ 950000, demo_event BLINDSCAN_UPDATERESULTFREQ 1120000]" "demo_event BLINDSCAN_UPDATEPROCESS 100" "[]"
      950000000 2150000000 9 4]
  by (simp add: goes_on_def demo_scanner_def blind_kind_def blind_word_def demo_para_def) blast

subsection \<open>Limits of the scan\<close>

text \<open>
  C29: asking the driver for an event leaves the array of transponders exactly when the event reports one and \<open>128\<close> are kept already; in all
  other cases the function is defined, keeps the bound and adds the reported transponder at the end.
\<close>

theorem scan_event_bound:
  assumes "bs_ready i st" "fe_blindscan_getscanevent drv = Some g"
    and "g (fd_drv_data (fend_devices st ! i)) (fend_os st) = ((r, Some ev), e)"
  shows "(AM_FEND_IBlindScanAPI_GetScanEvent drv (int i) st = None \<longleftrightarrow>
      r = AM_SUCCESS \<and> be_status ev = BLINDSCAN_UPDATERESULTFREQ \<and> length (found_in i st) = FEND_BS_MAX_CHANNEL)
    \<and> (\<forall>res st'. AM_FEND_IBlindScanAPI_GetScanEvent drv (int i) st = Some (res, st') \<longrightarrow>
        bs_ready i st' \<and> found_in i st' = found_in i st @
          (if r = AM_SUCCESS \<and> be_status ev = BLINDSCAN_UPDATERESULTFREQ then [be_param ev] else []))"
proof (cases "r = AM_SUCCESS \<and> (be_status ev = BLINDSCAN_UPDATERESULTFREQ \<longrightarrow> length (found_in i st) < FEND_BS_MAX_CHANNEL)")
  case True
  with get_scan_event [OF assms(1,2), of ev e] assms(3) obtain bs where
    "AM_FEND_IBlindScanAPI_GetScanEvent drv (int i) st = Some ((AM_SUCCESS, Some ev), (upd_setting i (\<lambda>_. bs) st)\<lparr>fend_os := e\<rparr>)"
    "bs_fits bs" "bs_found bs = found_in i st @ (if be_status ev = BLINDSCAN_UPDATERESULTFREQ then [be_param ev] else [])" by auto
  with True assms(1) show ?thesis by (auto simp: bs_ready_def)
next
  case False
  let ?bs = "fd_bs_setting (fend_devices st ! i)\<lparr>bsEvent := ev\<rparr>"
  have fits: "bs_fits ?bs" "bs_found ?bs = found_in i st" using assms(1) by (simp_all add: bs_ready_def bs_fits_def bs_found_def)
  have "length (found_in i st) \<le> FEND_BS_MAX_CHANNEL" using assms(1) by (simp add: bs_ready_def bs_fits_def bs_found_def)
  with False add_channel(1) [OF fits(1), of "be_param ev"] fits assms show ?thesis
    by (auto simp: AM_FEND_IBlindScanAPI_GetScanEvent_def bs_ready_openned Let_def) (auto simp: bs_ready_def)
qed

theorem scan_event_bound_witness:
  "AM_FEND_IBlindScanAPI_GetScanEvent demo_scanner 0
     (upd_setting 0 (\<lambda>bs. bs\<lparr>m_uiChannelCount := 128\<rparr>) (demo_sat [demo_event BLINDSCAN_UPDATERESULTFREQ 1120000])) = None"
  using scan_event_bound [of 0 "upd_setting 0 (\<lambda>bs. bs\<lparr>m_uiChannelCount := 128\<rparr>) (demo_sat [demo_event BLINDSCAN_UPDATERESULTFREQ 1120000])"
      demo_scanner "\<lambda>d e. case e of [] \<Rightarrow> ((AM_FAILURE, None), []) | ev # evs \<Rightarrow> ((AM_SUCCESS, Some ev), evs)" AM_SUCCESS
      "demo_event BLINDSCAN_UPDATERESULTFREQ 1120000" "[]"]
  by (simp add: bs_ready_def bs_fits_def bs_found_def demo_scanner_def demo_device_def)

text \<open>
  C39: after an event without content (\<^verbatim>\<open>BLINDSCAN_NONEDO\<close>) the thread never asks the driver again: as long as the scan is not cancelled, every further turn
  leaves everything as it is, and the application is not called.
\<close>

theorem empty_event_stalls_scan:
  assumes "bs_scanning i cb ud st" "fe_blindscan_getscanevent drv = Some g" "\<And>d ev es. g d (ev # es) = ((AM_SUCCESS, Some ev), es)"
    and "BS_Status v = DVBSx_BS_Status_Wait" "fend_os st = ev # es" "be_status ev = BLINDSCAN_NONEDO"
  shows "\<exists>v' st'. fend_os st' = es \<and> (\<forall>n. fend_blindscan_thread drv (int i) (Suc n) (v, st) = Some ([], v', st'))"
proof -
  have ready: "bs_ready i st" and i: "i < 2" "length (fend_devices st) = 2" using assms(1) by (auto simp: bs_scanning_def bs_ready_def)
  obtain bs where get: "AM_FEND_IBlindScanAPI_GetScanEvent drv (int i) st = Some ((AM_SUCCESS, Some ev), (upd_setting i (\<lambda>_. bs) st)\<lparr>fend_os := es\<rparr>)"
    using get_scan_event [OF ready assms(2), of ev es] assms(3,5,6) by auto
  let ?st = "(upd_setting i (\<lambda>_. bs) st)\<lparr>fend_os := es\<rparr>" and ?v = "v\<lparr>cur_bsevent := Some ev, BS_Status := DVBSx_BS_Status_User_Process\<rparr>"
  have first: "bs_turn drv (int i) (v, st) = Some ([], ?v, ?st)"
    using assms(1,4) i get by (simp add: bs_turn_def bs_scanning_def)
  have "bs_turn drv (int i) (?v, ?st) = Some ([], ?v, ?st)"
    using assms(1,6) i by (cases v) (simp add: bs_turn_def bs_scanning_def bs_custom_def bs_next_def)
  then have rest: "fend_blindscan_thread drv (int i) n (?v, ?st) = Some ([], ?v, ?st)" for n
    by (induction n) simp_all
  show ?thesis using first rest assms(4) by (intro exI [of _ ?v] exI [of _ ?st]) simp
qed

theorem empty_event_stalls_scan_witness:
  "\<exists>v' st'. fend_os st' = [demo_event BLINDSCAN_UPDATEPROCESS 100]
     \<and> (\<forall>n. fend_blindscan_thread demo_scanner 0 (Suc n) (bs_vars_init\<lparr>BS_Status := DVBSx_BS_Status_Wait\<rparr>,
          upd_fend 0 (\<lambda>dev. dev\<lparr>fd_enable_blindscan_thread := True, fd_bs_thread := True, fd_blindscan_cb := Some 9\<rparr>)
            (demo_sat [demo_event BLINDSCAN_NONEDO 0, demo_event BLINDSCAN_UPDATEPROCESS 100])) = Some ([], v', st'))"
  using empty_event_stalls_scan [of 0 9 0 "upd_fend 0 (\<lambda>dev. dev\<lparr>fd_enable_blindscan_thread := True, fd_bs_thread := True, fd_blindscan_cb := Some 9\<rparr>)
            (demo_sat [demo_event BLINDSCAN_NONEDO 0, demo_event BLINDSCAN_UPDATEPROCESS 100])" demo_scanner
      "\<lambda>d e. case e of [] \<Rightarrow> ((AM_FAILURE, None), []) | ev # evs \<Rightarrow> ((AM_SUCCESS, Some ev), evs)" "bs_vars_init\<lparr>BS_Status := DVBSx_BS_Status_Wait\<rparr>"
      "demo_event BLINDSCAN_NONEDO 0" "[demo_event BLINDSCAN_UPDATEPROCESS 100]"]
  by (simp add: bs_scanning_def bs_ready_def bs_fits_def demo_scanner_def demo_device_def demo_sat_def AM_FEND_Open_def fend_get_dev_def upd_fend_def)

text \<open>Without a callback the progress is compared through a variable that was never written.\<close>

lemma progress_without_callback:
  assumes "i < 2" "fd_enable_blindscan_thread (fend_devices st ! i)" "fd_blindscan_cb (fend_devices st ! i) = None"
    and "BS_Status v = DVBSx_BS_Status_User_Process" "cur_bsevent v = Some ev" "be_status ev = BLINDSCAN_UPDATEPROCESS" "bv_word v = None"
  shows "bs_turn drv (int i) (v, st) = None"
  using assms by (simp add: bs_turn_def bs_custom_def bs_next_def)

end
