(* ===== verification/Diseqc_Facts.thy ===== *)
theory Diseqc_Facts
  imports Fend_Diseqc Fend_Blind_Facts Am_Time
begin

text \<open>
  What the messages of the DiSEqC commands say: each is decoded again, after it has gone through the front end and the kernel driver.
\<close>

unbundle bit_operations_syntax

subsection \<open>The way to the kernel\<close>

definition fend_usable :: "nat \<Rightarrow> 'e fend_state \<Rightarrow> bool" where
  "fend_usable i st \<longleftrightarrow> i < 2 \<and> 0 < fd_open_count (fend_devices st ! i) \<and> fd_lock (fend_devices st ! i)"

text \<open>The result of a command whose message is \<open>msg\<close>, over the kernel driver.\<close>

definition diseqc_done :: "'e fe_kernel \<Rightarrow> nat \<Rightarrow> byte list \<Rightarrow> 'e fend_state \<Rightarrow> errcode \<times> 'e fend_state" where
  "diseqc_done K i msg st =
     (case fk_ioctl K (fd_drv_data (fend_devices st ! i)) (FE_DISEQC_SEND_MASTER_CMD msg) (fend_os st) of
        ((r, _), e) \<Rightarrow> (if r = -1 then AM_FEND_DISEQCCMD_ERROR_BASE else AM_SUCCESS, st\<lparr>fend_os := e\<rparr>))"

lemma linux_dvb_master_cmd [simp]: "fe_diseqc_send_master_cmd (linux_dvb_fend_drv K) = Some (fe_dvb_diseqc_send_master_cmd K)"
  by (simp add: linux_dvb_fend_drv_def)

lemma diseqc_reaches_kernel:
  assumes "fend_usable i st"
  shows "diseqc_send (linux_dvb_fend_drv K) False (int i) msg st = Some (diseqc_done K i msg st)"
proof -
  obtain r a e where io: "fk_ioctl K (fd_drv_data (fend_devices st ! i)) (FE_DISEQC_SEND_MASTER_CMD msg) (fend_os st) = ((r, a), e)"
    by (metis prod.exhaust)
  have i: "fend_get_openned_dev st (int i) = Inr i" "fd_lock (fend_devices st ! i)"
    using assms by (simp_all add: fend_usable_def fend_get_openned_dev_def)
  have "AM_FEND_DiseqcSendMasterCmd (linux_dvb_fend_drv K) False (int i) msg st =
      Some ((if r = -1 then AM_FAILURE else AM_SUCCESS, ()), st\<lparr>fend_os := e\<rparr>)"
    unfolding AM_FEND_DiseqcSendMasterCmd_def fend_forward_def by (simp add: i fe_dvb_diseqc_send_master_cmd_def dvb_request_def io)
  then show ?thesis by (simp add: diseqc_send_def diseqc_done_def io)
qed

subsection \<open>Channel frequency\<close>

text \<open>Binary coded decimals, and the frequency in units of 100 kHz that a message of five or six bytes has.\<close>

definition bcd :: "byte \<Rightarrow> int" where
  "bcd b = 10 * uint (drop_bit 4 b) + uint (b AND 0xF)"

definition msg_freq :: "byte list \<Rightarrow> int" where
  "msg_freq msg = (let ds = map bcd (drop 3 msg) in foldl (\<lambda>f d. 100 * f + d) 0 (if length ds = 2 then ds @ [0] else ds))"

lemma bcd_byte:
  assumes "0 \<le> a" "a < 10" "0 \<le> b" "b < 10"
  shows "bcd (push_bit 4 (word_of_int a) OR word_of_int b) = 10 * a + b"
    and "push_bit 4 (word_of_int a) OR word_of_int b = (0 :: byte) \<longleftrightarrow> a = 0 \<and> b = 0"
proof -
  have "a = 0 \<or> a = 1 \<or> a = 2 \<or> a = 3 \<or> a = 4 \<or> a = 5 \<or> a = 6 \<or> a = 7 \<or> a = 8 \<or> a = 9" using assms(1,2) by presburger
  moreover have "b = 0 \<or> b = 1 \<or> b = 2 \<or> b = 3 \<or> b = 4 \<or> b = 5 \<or> b = 6 \<or> b = 7 \<or> b = 8 \<or> b = 9" using assms(3,4) by presburger
  ultimately show "bcd (push_bit 4 (word_of_int a) OR word_of_int b) = 10 * a + b"
    and "push_bit 4 (word_of_int a) OR word_of_int b = (0 :: byte) \<longleftrightarrow> a = 0 \<and> b = 0"
    by (auto simp: bcd_def push_bit_eq_mult drop_bit_eq_div)
qed

lemma digit:
  assumes "0 \<le> (x :: int)" "x < 10 * b" "0 < b"
  shows "0 \<le> x div b" "x div b < 10" "0 \<le> x mod b" "x mod b < b"
proof -
  show "0 \<le> x div b" "0 \<le> x mod b" "x mod b < b" using assms by (simp_all add: pos_imp_zdiv_nonneg_iff)
  show "x div b < 10"
  proof (rule ccontr)
    assume "\<not> x div b < 10"
    then have "b * 10 \<le> b * (x div b)" using assms(3) by (intro mult_left_mono) auto
    also have "\<dots> \<le> x" using mult_div_mod_eq [of b x] pos_mod_sign [OF assms(3), of x] by linarith
    finally show False using assms(2) by simp
  qed
qed

text \<open>
  C24: the message for a channel frequency below 100 GHz has the frequency in units of 100 kHz as binary coded decimals; over the kernel driver exactly
  this message reaches the kernel, and its result decides the return value.
\<close>

theorem channel_frequency_roundtrip:
  assumes "fend_usable i st" "0 \<le> freq" "freq < 100000000"
  shows "\<exists>msg. AM_FEND_Diseqccmd_SetChannelFreq (linux_dvb_fend_drv K) False (int i) freq st = Some (diseqc_done K i msg st)
    \<and> take 3 msg = [0xE0, 0x71, 0x58] \<and> length msg \<in> {5, 6} \<and> msg_freq msg = freq div 100"
proof -
  define n where "n = freq div 100"
  have n: "0 \<le> n" "n < 1000000" using assms(2,3) by (simp_all add: n_def)
  define a1 r1 a2 r2 where "a1 = n div 100000" and "r1 = n mod 100000" and "a2 = r1 div 10000" and "r2 = r1 mod 10000"
  define b1 r3 b2 r4 where "b1 = r2 div 1000" and "r3 = r2 mod 1000" and "b2 = r3 div 100" and "r4 = r3 mod 100"
  define c1 r5 where "c1 = r4 div 10" and "r5 = r4 mod 10"
  note defs = a1_def r1_def a2_def r2_def b1_def r3_def b2_def r4_def c1_def r5_def
  have a1: "0 \<le> a1" "a1 < 10" "0 \<le> r1" "r1 < 100000" using digit [of n 100000] n by (simp_all add: a1_def r1_def)
  have a2: "0 \<le> a2" "a2 < 10" "0 \<le> r2" "r2 < 10000" using digit [of r1 10000] a1 by (simp_all add: a2_def r2_def)
  have b1: "0 \<le> b1" "b1 < 10" "0 \<le> r3" "r3 < 1000" using digit [of r2 1000] a2 by (simp_all add: b1_def r3_def)
  have b2: "0 \<le> b2" "b2 < 10" "0 \<le> r4" "r4 < 100" using digit [of r3 100] b1 by (simp_all add: b2_def r4_def)
  have c1: "0 \<le> c1" "c1 < 10" "0 \<le> r5" "r5 < 10" using digit [of r4 10] b2 by (simp_all add: c1_def r5_def)
  let ?b = "\<lambda>a b. push_bit 4 (word_of_int a) OR word_of_int b :: byte"
  have msg: "channel_freq_msg freq = [0xE0, 0x71, 0x58, ?b a1 a2, ?b b1 b2] @ (if ?b c1 r5 = 0 then [] else [?b c1 r5])"
    using assms(2) n a1 a2 b1 b2 c1 unfolding channel_freq_msg_def Let_def
    by (simp add: sdiv_smod_nonneg n_def [symmetric] a1_def [symmetric] r1_def [symmetric] a2_def [symmetric] r2_def [symmetric]
        b1_def [symmetric] r3_def [symmetric] b2_def [symmetric] r4_def [symmetric] c1_def [symmetric] r5_def [symmetric])
  have "n = 100000 * a1 + r1" "r1 = 10000 * a2 + r2" "r2 = 1000 * b1 + r3" "r3 = 100 * b2 + r4" "r4 = 10 * c1 + r5"
    unfolding defs by simp_all
  then have "n = 10000 * (10 * a1 + a2) + 100 * (10 * b1 + b2) + (10 * c1 + r5)" by simp
  then have "msg_freq (channel_freq_msg freq) = n"
    unfolding msg using bcd_byte [OF a1(1,2) a2(1,2)] bcd_byte [OF b1(1,2) b2(1,2)] bcd_byte [OF c1]
    by (simp add: msg_freq_def)
  then show ?thesis
    using diseqc_reaches_kernel [OF assms(1)] by (intro exI [of _ "channel_freq_msg freq"]) (simp add: AM_FEND_Diseqccmd_SetChannelFreq_def msg n_def)
qed

text \<open>A kernel that accepts everything.\<close>

definition demo_kernel :: "'e fe_kernel" where
  "demo_kernel = \<lparr>fk_open = (\<lambda>n e. (5, e)), fk_close = (\<lambda>fd e. e), fk_poll = (\<lambda>fd t e. (0, e)), fk_ioctl = (\<lambda>fd req e. ((0, NoAnswer), e))\<rparr>"

theorem channel_frequency_roundtrip_witness:
  "\<exists>msg. AM_FEND_Diseqccmd_SetChannelFreq (linux_dvb_fend_drv demo_kernel) False (int 0) 11778500 (demo_sat []) = Some (diseqc_done demo_kernel 0 msg (demo_sat []))
     \<and> take 3 msg = [0xE0, 0x71, 0x58] \<and> length msg \<in> {5, 6} \<and> msg_freq msg = 117785"
  using channel_frequency_roundtrip [of 0 "demo_sat []" 11778500 demo_kernel] by (simp add: fend_usable_def)

subsection \<open>Switches\<close>

lemma lnb4_csw_table:
  assumes "lnbport \<in> {0, 1, 2, 3}" "polarisation \<noteq> AM_FEND_POLARISATION_NOSET" "osc \<noteq> AM_FEND_LOCALOSCILLATORFREQ_NOSET"
  shows "ucast (lnb4_csw lnbport polarisation osc) = lnb4_table (lnbport + 1) polarisation osc"
  using assms by (cases polarisation; cases osc) (auto simp: lnb4_csw_def lnb4_table_def lnb4_entry_def)



subsection \<open>Dish motors\<close>

lemma or_high_nibble:
  assumes "0 \<le> s" "s < 0x1000"
  shows "s OR (push_bit 12 k) = s + push_bit 12 (k :: int)"
proof -
  have "take_bit 12 s = s" using assms by (simp add: take_bit_int_eq_self)
  then have "\<not> bit s n \<or> \<not> bit (push_bit 12 k) n" for n
    by (metis bit_push_bit_iff_int bit_take_bit_iff not_le)
  then show ?thesis using disjunctive_add [of s "push_bit 12 k"] by simp
qed

lemma split_word:
  assumes "0 \<le> w" "w < 0x10000"
  shows "uint (word_of_int ((w AND 0xFF00) div 0x100) :: byte) = w div 256" "uint (word_of_int (w AND 0xFF) :: byte) = w mod 256"
proof -
  have "(w AND 0xFF00) div 0x100 = drop_bit 8 (w AND 0xFF00)" unfolding drop_bit_eq_div by simp
  also have "\<dots> = drop_bit 8 w AND drop_bit 8 0xFF00" by (rule drop_bit_and)
  also have "\<dots> = take_bit 8 (drop_bit 8 w)" by (simp add: take_bit_eq_mask mask_numeral)
  also have "\<dots> = w div 256 mod 256" by (simp add: take_bit_eq_mod drop_bit_eq_div)
  also have "\<dots> = w div 256" using assms by (intro mod_pos_pos_trivial) (simp_all add: pos_imp_zdiv_nonneg_iff)
  finally show "uint (word_of_int ((w AND 0xFF00) div 0x100) :: byte) = w div 256"
    using assms by (simp add: uint_word_of_int)
  have "w AND 0xFF = take_bit 8 w" by (simp add: take_bit_eq_mask mask_numeral)
  then have "w AND 0xFF = w mod 256" by (simp add: take_bit_eq_mod)
  then show "uint (word_of_int (w AND 0xFF) :: byte) = w mod 256" by (simp add: uint_word_of_int)
qed

lemma goto_table:
  assumes "0 \<le> k" "k < 10"
  shows "0 \<le> gotoXTable ! nat k" "gotoXTable ! nat k < 16" "\<bar>10 * (gotoXTable ! nat k) - 16 * k\<bar> \<le> 5"
proof -
  have "k = 0 \<or> k = 1 \<or> k = 2 \<or> k = 3 \<or> k = 4 \<or> k = 5 \<or> k = 6 \<or> k = 7 \<or> k = 8 \<or> k = 9" using assms by presburger
  then show "0 \<le> gotoXTable ! nat k" "gotoXTable ! nat k < 16" "\<bar>10 * (gotoXTable ! nat k) - 16 * k\<bar> \<le> 5"
    by (auto simp: gotoXTable_def)
qed

text \<open>
  for an angle of at most 180 degrees the number for the motor has the direction in its upper four bits and, below, the angle in sixteenths
  of a degree, wrong by at most half a sixteenth; the message carries its two bytes.
\<close>

theorem rotor_angle_accurate:
  assumes "fend_usable i st" "0 \<le> tmp" "tmp \<le> 1800" "direction \<in> {0xD000, 0xE000}"
  shows "\<exists>hi lo. goto_angular_send (linux_dvb_fend_drv K) False (int i) (rotor_cmd direction tmp) st = Some (diseqc_done K i [0xE0, 0x31, 0x6E, hi, lo] st)
    \<and> (\<exists>sixteenths. 256 * uint hi + uint lo = direction + sixteenths \<and> 0 \<le> sixteenths \<and> sixteenths < 0x1000 \<and> \<bar>10 * sixteenths - 16 * tmp\<bar> \<le> 5)"
proof -
  define s where "s = tmp div 10 * 16 + gotoXTable ! nat (tmp mod 10)"
  obtain q k where q: "tmp div 10 = q" "tmp mod 10 = k" "tmp = 10 * q + k" "0 \<le> k" "k < 10"
    using mult_div_mod_eq [of 10 tmp] by (metis pos_mod_bound pos_mod_sign zero_less_numeral)
  have t: "\<bar>10 * (gotoXTable ! nat k) - 16 * k\<bar> \<le> 5" by (rule goto_table(3) [OF q(4,5)])
  have err: "\<bar>10 * s - 16 * tmp\<bar> \<le> 5" using t unfolding s_def q(1,2) by (simp add: q(3))
  have s: "0 \<le> s" "s < 0x1000" using err assms(2,3) by linarith+
  note err s
  moreover have "rotor_cmd direction tmp = direction + s"
    using assms(4) or_high_nibble [OF s, of "0xD"] or_high_nibble [OF s, of "0xE"] by (auto simp: rotor_cmd_def s_def push_bit_eq_mult)
  moreover from this s assms(4) have "0 \<le> rotor_cmd direction tmp" "rotor_cmd direction tmp < 0x10000" by auto
  moreover have "256 * (w div 256) + w mod 256 = w" for w :: int by simp
  ultimately show ?thesis
    using diseqc_reaches_kernel [OF assms(1)] split_word [of "rotor_cmd direction tmp"]
    by (intro exI conjI [rotated]) (auto simp: goto_angular_send_def)
qed

theorem rotor_angle_accurate_witness:
  "\<exists>hi lo. goto_angular_send (linux_dvb_fend_drv demo_kernel) False (int 0) (rotor_cmd 0xE000 253) (demo_sat []) =
     Some (diseqc_done demo_kernel 0 [0xE0, 0x31, 0x6E, hi, lo] (demo_sat []))"
  using rotor_angle_accurate [of 0 "demo_sat []" 253 "0xE000" demo_kernel] by (auto simp: fend_usable_def)

subsection \<open>Single cable distribution\<close>

lemma below_8_bits:
  assumes "(b :: byte) \<le> 7"
  shows "bit b n \<Longrightarrow> n < 3"
proof -
  have "unat b < 8" using assms by (simp add: word_le_nat_alt)
  then have "take_bit 3 b = b" by (simp add: word_unat_eq_iff unsigned_take_bit_eq take_bit_nat_eq_self)
  then show "bit b n \<Longrightarrow> n < 3" by (metis bit_take_bit_iff)
qed

lemma less_8_cases: "(n :: nat) < 8 \<Longrightarrow> n = 0 \<or> n = 1 \<or> n = 2 \<or> n = 3 \<or> n = 4 \<or> n = 5 \<or> n = 6 \<or> n = 7"
  by arith

text \<open>The fields of the message, bit by bit.\<close>

lemma odu_fields:
  fixes T :: "16 word"
  assumes ub: "ub \<le> 7" and bank: "bank \<le> 7"
  defines "b3 \<equiv> odu_channel_msg ub bank T ! 3" and "b4 \<equiv> odu_channel_msg ub bank T ! 4"
  shows "drop_bit 5 b3 = ub" "drop_bit 2 b3 AND 7 = bank OR (if bit T 11 then 2 else 0)"
    "b3 AND 3 = ucast (drop_bit 8 T) AND 3" "b4 = ucast T"
proof -
  have nub: "\<not> bit ub n" if "3 \<le> n" for n using below_8_bits [OF ub, of n] that by auto
  have nbank: "\<not> bit bank n" if "3 \<le> n" for n using below_8_bits [OF bank, of n] that by auto
  have b3: "b3 = (push_bit 5 ub OR push_bit 2 bank) OR ucast (drop_bit 8 (T AND 0x0BFF) AND 0xFF)"
    and b4: "b4 = ucast ((T AND 0x0BFF) AND 0xFF)"
    by (simp_all add: b3_def b4_def odu_channel_msg_def Let_def)
  have m: "bit (0x0BFF :: 16 word) (n + 8) \<longleftrightarrow> n = 0 \<or> n = 1 \<or> n = 3" "bit (0xFF :: 16 word) n" if "n < 8" for n
    using less_8_cases [OF that] by auto
  have bits: "bit b3 n \<longleftrightarrow> (5 \<le> n \<and> bit ub (n - 5)) \<or> (2 \<le> n \<and> bit bank (n - 2)) \<or> ((n = 0 \<or> n = 1 \<or> n = 3) \<and> bit T (n + 8))" if "n < 8" for n
    unfolding b3 using that m [OF that] by (simp only: bit_or_iff bit_and_iff bit_push_bit_iff bit_unsigned_iff bit_drop_bit_eq o_apply add.commute [of 8]) auto
  have high: "bit b3 (n + 5) \<longleftrightarrow> bit ub n" if "n < 8" for n
  proof (cases "n < 3")
    case True
    then show ?thesis using bits [of "n + 5"] nbank [of "3 + n"] by simp
  next
    case False
    then show ?thesis using nub [of n] bit_imp_le_length [of b3 "n + 5"] by auto
  qed
  show "drop_bit 5 b3 = ub"
    by (rule bit_word_eqI) (use high in \<open>simp add: bit_drop_bit_eq add.commute\<close>)
  show "drop_bit 2 b3 AND 7 = bank OR (if bit T 11 then 2 else 0)"
  proof (rule bit_word_eqI)
    fix n assume "n < LENGTH(8)"
    then have n: "n < 8" by simp
    then have low: "bit (7 :: byte) n \<longleftrightarrow> n < 3" "bit (2 :: byte) n \<longleftrightarrow> n = 1" using less_8_cases [of n] by auto
    show "bit (drop_bit 2 b3 AND 7) n \<longleftrightarrow> bit (bank OR (if bit T 11 then 2 else 0)) n"
    proof (cases "n < 3")
      case True
      then have "n = 0 \<or> n = 1 \<or> n = 2" by arith
      then show ?thesis using bits [of "n + 2"] nub by (auto simp: bit_or_iff bit_and_iff bit_drop_bit_eq add.commute)
    next
      case False
      then show ?thesis using nbank [of n] low by (auto simp: bit_or_iff bit_and_iff)
    qed
  qed
  show "b3 AND 3 = ucast (drop_bit 8 T) AND 3"
  proof (rule bit_word_eqI)
    fix n assume "n < LENGTH(8)"
    then have n: "n < 8" by simp
    then have low: "bit (3 :: byte) n \<longleftrightarrow> n = 0 \<or> n = 1" using less_8_cases [of n] by auto
    show "bit (b3 AND 3) n \<longleftrightarrow> bit (ucast (drop_bit 8 T) AND 3 :: byte) n"
      using n low bits [of n] by (auto simp: bit_and_iff bit_unsigned_iff bit_drop_bit_eq)
  qed
  show "b4 = ucast T"
    by (rule bit_word_eqI) (auto simp: b4 bit_simps dest!: less_8_cases)
qed



end
