(* ===== verification/Fend_Session.thy ===== *)
theory Fend_Session
  imports Fend_Dvb Fend_Blind_Facts
begin

text \<open>
  The descriptors of the front end. The locale \<open>fend_descriptors\<close> is what the module relies on: opening a device takes a new descriptor or fails without
  one, closing gives it back, nothing else opens or closes. Then, in every run, exactly the open devices hold a descriptor each. The kernel driver keeps the
  contract over every kernel whose descriptors behave.
\<close>

subsection \<open>Functions of the driver and of the module\<close>

text \<open>What the functions of a driver other than \<^verbatim>\<open>open\<close> and \<^verbatim>\<open>close\<close> may do to the outside world, or nothing.\<close>

inductive fend_effect :: "'e fend_driver \<Rightarrow> 'e \<Rightarrow> 'e \<Rightarrow> bool" for drv where
  nothing: "fend_effect drv e e"
| set_mode: "fe_set_mode drv = Some f \<Longrightarrow> fend_effect drv e (snd (f d x e))"
| get_info: "fe_get_info drv = Some f \<Longrightarrow> fend_effect drv e (snd (f d e))"
| get_ts: "fe_get_ts drv = Some f \<Longrightarrow> fend_effect drv e (snd (f d e))"
| set_para: "fe_set_para drv = Some f \<Longrightarrow> fend_effect drv e (snd (f d x e))"
| set_prop: "fe_set_prop drv = Some f \<Longrightarrow> fend_effect drv e (snd (f d x e))"
| get_para: "fe_get_para drv = Some f \<Longrightarrow> fend_effect drv e (snd (f d e))"
| get_prop: "fe_get_prop drv = Some f \<Longrightarrow> fend_effect drv e (snd (f d e))"
| get_status: "fe_get_status drv = Some f \<Longrightarrow> fend_effect drv e (snd (f d e))"
| get_snr: "fe_get_snr drv = Some f \<Longrightarrow> fend_effect drv e (snd (f d e))"
| get_ber: "fe_get_ber drv = Some f \<Longrightarrow> fend_effect drv e (snd (f d e))"
| get_strength: "fe_get_strength drv = Some f \<Longrightarrow> fend_effect drv e (snd (f d e))"
| set_delay: "fe_set_delay drv = Some f \<Longrightarrow> fend_effect drv e (snd (f d x e))"
| diseqc_reset_overload: "fe_diseqc_reset_overload drv = Some f \<Longrightarrow> fend_effect drv e (snd (f d e))"
| diseqc_send_master_cmd: "fe_diseqc_send_master_cmd drv = Some f \<Longrightarrow> fend_effect drv e (snd (f d x e))"
| diseqc_recv_slave_reply: "fe_diseqc_recv_slave_reply drv = Some f \<Longrightarrow> fend_effect drv e (snd (f d e))"
| diseqc_send_burst: "fe_diseqc_send_burst drv = Some f \<Longrightarrow> fend_effect drv e (snd (f d x e))"
| set_tone: "fe_set_tone drv = Some f \<Longrightarrow> fend_effect drv e (snd (f d x e))"
| set_voltage: "fe_set_voltage drv = Some f \<Longrightarrow> fend_effect drv e (snd (f d x e))"
| enable_high_lnb_voltage: "fe_enable_high_lnb_voltage drv = Some f \<Longrightarrow> fend_effect drv e (snd (f d x e))"
| fine_tune: "fe_fine_tune drv = Some f \<Longrightarrow> fend_effect drv e (snd (f d x e))"
| set_cvbs_amp_out: "fe_set_cvbs_amp_out drv = Some f \<Longrightarrow> fend_effect drv e (snd (f d x e))"
| get_atv_status: "fe_get_atv_status drv = Some f \<Longrightarrow> fend_effect drv e (snd (f d e))"
| set_afc: "fe_set_afc drv = Some f \<Longrightarrow> fend_effect drv e (snd (f d x e))"
| blindscan_scan: "fe_blindscan_scan drv = Some f \<Longrightarrow> fend_effect drv e (snd (f d x e))"
| blindscan_getscanevent: "fe_blindscan_getscanevent drv = Some f \<Longrightarrow> fend_effect drv e (snd (f d e))"
| blindscan_cancel: "fe_blindscan_cancel drv = Some f \<Longrightarrow> fend_effect drv e (snd (f d e))"
| wait_event: "fe_wait_event drv = Some f \<Longrightarrow> fend_effect drv e (snd (f d x e))"

text \<open>The calls that forward to the driver.\<close>

datatype fend_op = OpSetMode int | OpGetInfo | OpGetTSSource | OpSetPara fend_parameters | OpSetProp nat
  | OpGetPara | OpGetProp | OpGetStatus | OpGetSNR | OpGetBER | OpGetStrength
  | OpSetThreadDelay int | OpDiseqcResetOverload | OpDiseqcSendMasterCmd "byte list" | OpDiseqcRecvSlaveReply
  | OpDiseqcSendBurst int | OpSetTone int | OpSetVoltage int | OpEnableHighLnbVoltage int
  | OpFineTune "32 word" | OpSetCvbsAmpOut "32 word" | OpGetAtvStatus | OpSetAfc "32 word"

fun fend_do :: "'e fend_driver \<Rightarrow> bool \<Rightarrow> int \<Rightarrow> fend_op \<Rightarrow> 'e fend_state \<Rightarrow> 'e fend_state option" where
  "fend_do drv self n (OpSetMode x) st = map_option snd (AM_FEND_SetMode drv n x st)"
| "fend_do drv self n OpGetInfo st = map_option snd (AM_FEND_GetInfo drv n st)"
| "fend_do drv self n OpGetTSSource st = map_option snd (AM_FEND_GetTSSource drv n st)"
| "fend_do drv self n (OpSetPara x) st = map_option snd (AM_FEND_SetPara drv n x st)"
| "fend_do drv self n (OpSetProp x) st = map_option snd (AM_FEND_SetProp drv n x st)"
| "fend_do drv self n OpGetPara st = map_option snd (AM_FEND_GetPara drv n st)"
| "fend_do drv self n OpGetProp st = map_option snd (AM_FEND_GetProp drv n st)"
| "fend_do drv self n OpGetStatus st = map_option snd (AM_FEND_GetStatus drv n st)"
| "fend_do drv self n OpGetSNR st = map_option snd (AM_FEND_GetSNR drv n st)"
| "fend_do drv self n OpGetBER st = map_option snd (AM_FEND_GetBER drv n st)"
| "fend_do drv self n OpGetStrength st = map_option snd (AM_FEND_GetStrength drv n st)"
| "fend_do drv self n (OpSetThreadDelay x) st = map_option snd (AM_FEND_SetThreadDelay drv self n x st)"
| "fend_do drv self n OpDiseqcResetOverload st = map_option snd (AM_FEND_DiseqcResetOverload drv self n st)"
| "fend_do drv self n (OpDiseqcSendMasterCmd x) st = map_option snd (AM_FEND_DiseqcSendMasterCmd drv self n x st)"
| "fend_do drv self n OpDiseqcRecvSlaveReply st = map_option snd (AM_FEND_DiseqcRecvSlaveReply drv self n st)"
| "fend_do drv self n (OpDiseqcSendBurst x) st = map_option snd (AM_FEND_DiseqcSendBurst drv self n x st)"
| "fend_do drv self n (OpSetTone x) st = map_option snd (AM_FEND_SetTone drv self n x st)"
| "fend_do drv self n (OpSetVoltage x) st = map_option snd (AM_FEND_SetVoltage drv self n x st)"
| "fend_do drv self n (OpEnableHighLnbVoltage x) st = map_option snd (AM_FEND_EnableHighLnbVoltage drv self n x st)"
| "fend_do drv self n (OpFineTune x) st = map_option snd (AM_FEND_FineTune drv n x st)"
| "fend_do drv self n (OpSetCvbsAmpOut x) st = map_option snd (AM_FEND_SetCvbsAmpOut drv n x st)"
| "fend_do drv self n OpGetAtvStatus st = map_option snd (AM_FEND_GetAtvStatus drv n st)"
| "fend_do drv self n (OpSetAfc x) st = map_option snd (AM_FEND_SetAfc drv n x st)"

lemmas fend_op_defs = AM_FEND_SetMode_def AM_FEND_GetInfo_def AM_FEND_GetTSSource_def AM_FEND_SetPara_def AM_FEND_SetProp_def AM_FEND_GetPara_def
  AM_FEND_GetProp_def AM_FEND_GetStatus_def AM_FEND_GetSNR_def AM_FEND_GetBER_def AM_FEND_GetStrength_def AM_FEND_SetThreadDelay_def
  AM_FEND_DiseqcResetOverload_def AM_FEND_DiseqcSendMasterCmd_def AM_FEND_DiseqcRecvSlaveReply_def AM_FEND_DiseqcSendBurst_def AM_FEND_SetTone_def AM_FEND_SetVoltage_def
  AM_FEND_EnableHighLnbVoltage_def AM_FEND_FineTune_def AM_FEND_SetCvbsAmpOut_def AM_FEND_GetAtvStatus_def AM_FEND_SetAfc_def

text \<open>A forwarded call changes the outside world by an effect of the driver, or nothing.\<close>

lemma forward_effect:
  assumes "map_option snd (fend_forward self st n none g) = Some st'" "\<And>f d. g = Some f \<Longrightarrow> fend_effect drv (fend_os st) (snd (f d (fend_os st)))"
  shows "\<exists>e. fend_effect drv (fend_os st) e \<and> st' = st\<lparr>fend_os := e\<rparr>"
proof (cases "st' = st")
  case True
  then show ?thesis by (intro exI [of _ "fend_os st"]) (simp add: fend_effect.nothing)
next
  case False
  then obtain f d r e where "g = Some f" "f d (fend_os st) = (r, e)" "st' = st\<lparr>fend_os := e\<rparr>"
    using assms(1) by (auto simp: fend_forward_def split: sum.splits option.splits if_splits prod.splits)
  then show ?thesis using assms(2) [of f d] by (intro exI [of _ e]) simp
qed

lemma effect_plain:
  assumes "fplain g = Some h" "\<And>f. g = Some f \<Longrightarrow> fend_effect drv e (snd (f d e))"
  shows "fend_effect drv e (snd (h d e))"
  using assms by (auto split: prod.split)

lemma effect_arg:
  assumes "farg x g = Some h" "\<And>f. g = Some f \<Longrightarrow> fend_effect drv e (snd (f d x e))"
  shows "fend_effect drv e (snd (h d e))"
  using assms by (auto split: prod.split)

lemma do_effect:
  assumes "fend_do drv self n op st = Some st'"
  shows "\<exists>e. fend_effect drv (fend_os st) e \<and> st' = st\<lparr>fend_os := e\<rparr>"
proof -
  have delay: "fend_effect drv e (snd (h d e))"
    if "(case fe_set_para drv of None \<Rightarrow> None
         | Some _ \<Rightarrow> (case fe_set_delay drv of None \<Rightarrow> Some (\<lambda>fd e. ((AM_SUCCESS, ()), e)) | Some f \<Rightarrow> farg x (Some f))) = Some h" for x h d e
    using that effect_arg [of x "fe_set_delay drv" h drv e d] fend_effect.set_delay [of drv _ e d x]
    by (auto split: option.splits intro: fend_effect.nothing)
  show ?thesis
    using assms
    apply (cases op; simp only: fend_do.simps fend_op_defs)
    apply (erule forward_effect, (erule effect_arg effect_plain)?, erule fend_effect.intros)+
    apply (erule forward_effect, erule delay)
    apply (erule forward_effect, (erule effect_arg effect_plain)?, erule fend_effect.intros)+
    done
qed

subsection \<open>Steps that leave the devices open or closed\<close>

definition same_session :: "fend_device \<Rightarrow> fend_device \<Rightarrow> bool" where
  "same_session d d' \<longleftrightarrow> fd_open_count d' = fd_open_count d \<and> fd_drv_data d' = fd_drv_data d \<and> fd_lock d' = fd_lock d \<and> fd_thread d' = fd_thread d"

definition keeps_session :: "'e fend_driver \<Rightarrow> 'e fend_state \<Rightarrow> 'e fend_state \<Rightarrow> bool" where
  "keeps_session drv st st' \<longleftrightarrow> list_all2 same_session (fend_devices st) (fend_devices st') \<and> fend_effect drv (fend_os st) (fend_os st')"

lemma same_session_refl [simp]: "same_session d d"
  by (simp add: same_session_def)

lemma same_session_trans: "same_session d d' \<Longrightarrow> same_session d' d'' \<Longrightarrow> same_session d d''"
  by (simp add: same_session_def)

lemma same_devices_refl [simp]: "list_all2 same_session ds ds"
  by (simp add: list_all2_refl)

lemma keeps_refl [simp]: "keeps_session drv st st"
  by (simp add: keeps_session_def fend_effect.nothing)

lemma keeps_upd [simp]:
  "same_session (fend_devices st ! i) (f (fend_devices st ! i)) \<Longrightarrow> keeps_session drv st (upd_fend i f st)"
  by (simp add: keeps_session_def upd_fend_def fend_effect.nothing list_all2_conv_all_nth nth_update_if)

lemma keeps_frames [simp]: "keeps_session drv st (st'\<lparr>fend_frames := fr\<rparr>) = keeps_session drv st st'"
  by (simp add: keeps_session_def)

lemma keeps_trans_devices:
  assumes "keeps_session drv st st'" "list_all2 same_session (fend_devices st') ds"
  shows "keeps_session drv st (st'\<lparr>fend_devices := ds\<rparr>)"
  using assms list_all2_trans [of same_session same_session same_session, OF same_session_trans]
  by (auto simp: keeps_session_def)

lemma keeps_upd_after:
  assumes "keeps_session drv st st'" "same_session (fend_devices st' ! i) (f (fend_devices st' ! i))"
  shows "keeps_session drv st (upd_fend i f st')"
  unfolding upd_fend_def
  by (rule keeps_trans_devices [OF assms(1)]) (use assms(2) in \<open>simp add: list_all2_conv_all_nth nth_update_if\<close>)

lemma keeps_os [simp]: "keeps_session drv st (st\<lparr>fend_os := e\<rparr>) = fend_effect drv (fend_os st) e"
  by (simp add: keeps_session_def)

lemma do_keeps: "fend_do drv self n op st = Some st' \<Longrightarrow> keeps_session drv st st'"
  using do_effect [of drv self n op st st'] by auto

lemma keeps_trans_same:
  assumes "keeps_session drv st st1" "fend_os st1 = fend_os st" "keeps_session drv st1 st2"
  shows "keeps_session drv st st2"
  using assms list_all2_trans [of same_session same_session same_session, OF same_session_trans]
  by (auto simp: keeps_session_def)

lemma callback_keeps:
  assumes "fend_callback i ev fn p st = Some (calls, st')"
  shows "keeps_session drv st st'"
proof -
  have "keeps_session drv st (snd (calls, st'))"
  proof (rule fend_callback.raw_induct [where P = "\<lambda>i ev fn p st r. keeps_session drv st (snd r)", OF _ assms], goal_cases)
    case (1 self i ev fn p st r)
    have step: "keeps_session drv st (upd_fend i (\<lambda>dev. dev\<lparr>fd_fl_lock := False\<rparr>) (st\<lparr>fend_frames := fr\<rparr>))" for fr
      by (rule keeps_upd_after) (simp_all add: same_session_def)
    have rec: "keeps_session drv st (snd r)"
      if "self i ev g q (upd_fend i (\<lambda>dev. dev\<lparr>fd_fl_lock := False\<rparr>) (st\<lparr>fend_frames := fr\<rparr>)) = Some r" for g q fr
      by (rule keeps_trans_same [OF step [of fr] _ 1(1) [OF that]]) simp
    show ?case using 1(2) rec step
      by (auto simp: Let_def split: fend_fn.splits fend_ptr.splits option.splits if_splits)
  qed
  then show ?thesis by simp
qed

lemma call_back_keeps:
  assumes "fend_call_back i evo st = Some (calls, st')"
  shows "keeps_session drv st st'"
  using assms
  by (auto simp: fend_call_back_def Let_def bind_eq_Some_conv split: option.splits if_splits intro: callback_keeps)

lemma wait_keeps: "fend_wait drv i st = (evo, st') \<Longrightarrow> keeps_session drv st st'"
  using fend_effect.wait_event [of drv _ "fend_os st" "fd_drv_data (fend_devices st ! i)" FEND_WAIT_TIMEOUT]
  by (fastforce simp: fend_wait_def split: option.splits prod.splits)

lemma thread_keeps:
  assumes "fend_thread_step drv i c c'"
  shows "keeps_session drv (fc_state c) (fc_state c')"
  using assms
proof (induction rule: fend_thread_step.induct)
  case (take c evo st)
  then show ?case using wait_keeps by (auto simp: fend_take_def same_session_def intro!: keeps_upd_after)
next
  case (call c evo calls st)
  then show ?case by (auto intro: call_back_keeps)
next
  case (finish c)
  then show ?case by (auto simp: fend_finish_def same_session_def)
qed

lemma keeps_os_after:
  assumes "keeps_session drv st st1" "fend_effect drv (fend_os st) e"
  shows "keeps_session drv st (st1\<lparr>fend_os := e\<rparr>)"
  using assms by (simp add: keeps_session_def)

lemma lock_begin_keeps:
  assumes "fend_lock_begin drv self t n para st = Some (r, st')"
  shows "keeps_session drv st st'"
proof -
  have eff: "fend_effect drv (fend_os st) e" if "fe_set_para drv = Some f" "f d para (fend_os st) = (x, e)" for f d x e
    using fend_effect.set_para [OF that(1), of "fend_os st" d para] that(2) by simp
  have one: "keeps_session drv st (upd_fend i (\<lambda>dev. dev\<lparr>fd_cb := cb, fd_user_data := u, fd_fl_lock := True\<rparr>) (st\<lparr>fend_frames := fr\<rparr>))" for i cb u fr
    by (rule keeps_upd_after) (simp_all add: same_session_def)
  have two: "keeps_session drv st (upd_fend i (\<lambda>dev. dev\<lparr>fd_cb := cb', fd_user_data := u'\<rparr>)
      (upd_fend i (\<lambda>dev. dev\<lparr>fd_cb := cb, fd_user_data := u, fd_fl_lock := True\<rparr>) (st\<lparr>fend_frames := fr\<rparr>)))" for i cb u cb' u' fr
    by (rule keeps_upd_after [OF one]) (simp add: same_session_def)
  show ?thesis
    using assms
    by (auto simp: fend_lock_begin_def Let_def eff intro!: keeps_os_after one two split: sum.splits option.splits if_splits prod.splits)
qed

lemma lock_end_keeps: "fend_lock_end t i st = Some (r, st') \<Longrightarrow> keeps_session drv st st'"
  by (auto simp: fend_lock_end_def Let_def same_session_def split: option.splits if_splits)

lemma callbacks_keep:
  "AM_FEND_SetCallback self n cb u st = Some (r, st') \<Longrightarrow> keeps_session drv st st'"
  "AM_FEND_SetActionCallback n b st = Some (r', st') \<Longrightarrow> keeps_session drv st st'"
  by (auto simp: AM_FEND_SetCallback_def AM_FEND_SetActionCallback_def Let_def same_session_def split: sum.splits if_splits)

lemma step_keeps:
  assumes "fend_step drv i c c'"
  shows "keeps_session drv (fc_state c) (fc_state c')"
  using assms
proof (induction rule: fend_step.induct)
  case (set_mode mode c r st)
  then have "fend_do drv False (int i) (OpSetMode mode) (fc_state c) = Some st" by simp
  from do_keeps [OF this] show ?case by simp
qed (auto intro: thread_keeps lock_begin_keeps lock_end_keeps callbacks_keep)

lemma setting_keeps [simp]: "keeps_session drv st (upd_setting i f st)"
  by (simp add: upd_setting_def same_session_def)

lemma blind_parts_keep:
  "AM_FEND_IBlindScanAPI_Start drv n st = Some (r, st') \<Longrightarrow> keeps_session drv st st'"
  "AM_FEND_IBlindScanAPI_Exit drv n st = Some (r, st') \<Longrightarrow> keeps_session drv st st'"
proof -
  have "fend_effect drv (fend_os st) e" if "fe_blindscan_scan drv = Some f" "f d x (fend_os st) = (y, e)" for f d x y e
    using fend_effect.blindscan_scan [OF that(1), of "fend_os st" d x] that(2) by simp
  then show "AM_FEND_IBlindScanAPI_Start drv n st = Some (r, st') \<Longrightarrow> keeps_session drv st st'"
    by (auto simp: AM_FEND_IBlindScanAPI_Start_def Let_def split: sum.splits option.splits if_splits prod.splits)
  have "fend_effect drv (fend_os st) e" if "fe_blindscan_cancel drv = Some f" "f d (fend_os st) = (y, e)" for f d y e
    using fend_effect.blindscan_cancel [OF that(1), of "fend_os st" d] that(2) by simp
  then show "AM_FEND_IBlindScanAPI_Exit drv n st = Some (r, st') \<Longrightarrow> keeps_session drv st st'"
    by (auto simp: AM_FEND_IBlindScanAPI_Exit_def Let_def split: sum.splits option.splits if_splits prod.splits)
qed

lemma get_event_keeps:
  assumes "AM_FEND_IBlindScanAPI_GetScanEvent drv n st = Some (r, st')"
  shows "keeps_session drv st st'"
proof -
  have eff: "fend_effect drv (fend_os st) e" if "fe_blindscan_getscanevent drv = Some f" "f d (fend_os st) = (y, e)" for f d y e
    using fend_effect.blindscan_getscanevent [OF that(1), of "fend_os st" d] that(2) by simp
  have one: "keeps_session drv st ((upd_setting i g st)\<lparr>fend_os := e\<rparr>)" if "fend_effect drv (fend_os st) e" for i g e
    by (rule keeps_os_after) (simp_all add: that)
  have two: "keeps_session drv st (upd_setting i h ((upd_setting i g st)\<lparr>fend_os := e\<rparr>))" if "fend_effect drv (fend_os st) e" for i g h e
    unfolding upd_setting_def [of i h] by (rule keeps_upd_after [OF one [OF that]]) (simp add: same_session_def)
  show ?thesis
    using assms eff one two
    by (fastforce simp: AM_FEND_IBlindScanAPI_GetScanEvent_def Let_def split: sum.splits option.splits if_splits prod.splits)
qed

lemma turn_keeps:
  assumes "bs_turn drv n (v, st) = Some (calls, v', st')"
  shows "keeps_session drv st st'"
  using assms blind_parts_keep get_event_keeps
  by (fastforce simp: bs_turn_def Let_def split: sum.splits bs_status.splits option.splits prod.splits)

lemma scan_keeps:
  assumes "AM_FEND_BlindScan created n cb ud a b st = Some (r, st')"
  shows "keeps_session drv st st'"
proof (cases "a = b")
  case False
  then obtain r1 st1 r2 st2 where st1: "AM_FEND_IBlindScanAPI_Initialize n st = Some (r1, st1)"
    and st2: "AM_FEND_IBlindScanAPI_SetFreqRange n (a div 1000) (b div 1000) st1 = Some (r2, st2)"
    and st': "(r, st') = (case fend_get_openned_dev st2 n of Inl err \<Rightarrow> (err, st2)
        | Inr i \<Rightarrow>
            let st3 = upd_fend i (\<lambda>dev. dev\<lparr>fd_blindscan_cb := cb, fd_blindscan_cb_user_data := ud, fd_enable_blindscan_thread := True\<rparr>) st2 in
            if \<not> created then (AM_FEND_ERR_BLINDSCAN, st3) else (AM_SUCCESS, upd_fend i (\<lambda>dev. dev\<lparr>fd_bs_thread := True\<rparr>) st3))"
    using assms unfolding AM_FEND_BlindScan_def by (force simp: bind_eq_Some_conv)
  have k1: "keeps_session drv st st1" "fend_os st1 = fend_os st"
    using st1 by (auto simp: AM_FEND_IBlindScanAPI_Initialize_def split: sum.splits if_splits)
  have k2: "keeps_session drv st1 st2" "fend_os st2 = fend_os st1"
    using st2 by (auto simp: AM_FEND_IBlindScanAPI_SetFreqRange_def split: sum.splits if_splits)
  have "keeps_session drv st st2" by (rule keeps_trans_same [OF k1 k2(1)])
  then show ?thesis
    using st' by (auto simp: Let_def same_session_def split: sum.splits if_splits intro!: keeps_upd_after)
qed (use assms in \<open>auto simp: AM_FEND_BlindScan_def\<close>)

lemma exit_keeps:
  "blind_exit_begin n st = (r, st') \<Longrightarrow> keeps_session drv st st'"
  "blind_exit_join i v st = Some (r', st') \<Longrightarrow> keeps_session drv st st'"
  by (auto simp: blind_exit_begin_def blind_exit_join_def same_session_def split: sum.splits if_splits)

subsection \<open>Runs\<close>

text \<open>
  What may happen to the module: opening and closing, the forwarding functions, the steps of the event threads and of \<^verbatim>\<open>AM_FEND_Lock\<close>, the blind scan.
\<close>

inductive fend_act :: "'e fend_driver \<Rightarrow> 'e fend_state \<Rightarrow> 'e fend_state \<Rightarrow> bool" for drv where
  open_dev: "AM_FEND_Open drv created n mode st = (r, st') \<Longrightarrow> fend_act drv st st'"
| close_dev: "AM_FEND_Close drv n st = Some (r, st') \<Longrightarrow> fend_act drv st st'"
| forward: "fend_do drv self n op st = Some st' \<Longrightarrow> fend_act drv st st'"
| step: "fend_step drv i c c' \<Longrightarrow> fend_act drv (fc_state c) (fc_state c')"
| scan: "AM_FEND_BlindScan created n cb ud a b st = Some (r, st') \<Longrightarrow> fend_act drv st st'"
| turn: "bs_turn drv n (v, st) = Some (calls, v', st') \<Longrightarrow> fend_act drv st st'"
| scan_exit: "blind_exit_begin n st = (r, st') \<Longrightarrow> fend_act drv st st'"
| scan_join: "blind_exit_join i v st = Some (r, st') \<Longrightarrow> fend_act drv st st'"

abbreviation fend_run :: "'e fend_driver \<Rightarrow> 'e fend_state \<Rightarrow> 'e fend_state \<Rightarrow> bool" where
  "fend_run drv \<equiv> (fend_act drv)\<^sup>*\<^sup>*"

lemma act_cases:
  assumes "fend_act drv st st'"
  shows "(\<exists>created n mode r. AM_FEND_Open drv created n mode st = (r, st')) \<or> (\<exists>n r. AM_FEND_Close drv n st = Some (r, st')) \<or> keeps_session drv st st'"
  using assms
  by (cases rule: fend_act.cases) (blast intro: do_keeps step_keeps scan_keeps turn_keeps exit_keeps)+

subsection \<open>The contract and its consequence\<close>

locale fend_descriptors =
  fixes drv :: "'e fend_driver" and fds :: "'e \<Rightarrow> int set"
  assumes has_open: "fe_open drv \<noteq> None" and has_close: "fe_close drv \<noteq> None"
    and opened: "fe_open drv = Some f \<Longrightarrow> f n mode d e = ((AM_SUCCESS, d'), e') \<Longrightarrow> d' \<notin> fds e \<and> fds e' = insert d' (fds e)"
    and not_opened: "fe_open drv = Some f \<Longrightarrow> f n mode d e = ((r, d'), e') \<Longrightarrow> r \<noteq> AM_SUCCESS \<Longrightarrow> fds e' = fds e"
    and closed: "fe_close drv = Some g \<Longrightarrow> fds (snd (g d e)) = fds e - {d}"
    and effect: "fend_effect drv e e' \<Longrightarrow> fds e' = fds e"

text \<open>
  The invariant, with the descriptors \<open>base\<close> of others: the descriptors of the open devices are all different, and with \<open>base\<close> they are all that are open; an
  open device has its mutex and its thread.
\<close>

definition fend_held :: "fend_device list \<Rightarrow> int set" where
  "fend_held ds = fd_drv_data ` {d \<in> set ds. 0 < fd_open_count d}"

definition fend_session_ok :: "int set \<Rightarrow> int set \<Rightarrow> 'e fend_state \<Rightarrow> bool" where
  "fend_session_ok base open st \<longleftrightarrow> length (fend_devices st) = FEND_DEV_COUNT
     \<and> distinct (map fd_drv_data (filter (\<lambda>d. 0 < fd_open_count d) (fend_devices st)))
     \<and> open = base \<union> fend_held (fend_devices st) \<and> base \<inter> fend_held (fend_devices st) = {}
     \<and> (\<forall>d \<in> set (fend_devices st). 0 \<le> fd_open_count d \<and> (0 < fd_open_count d \<longrightarrow> fd_lock d \<and> fd_thread d))"

text \<open>With two devices the invariant is about a pair, in which each may come first.\<close>

definition session_pair :: "int set \<Rightarrow> int set \<Rightarrow> fend_device \<Rightarrow> fend_device \<Rightarrow> bool" where
  "session_pair base open d0 d1 \<longleftrightarrow>
     (0 < fd_open_count d0 \<and> 0 < fd_open_count d1 \<longrightarrow> fd_drv_data d0 \<noteq> fd_drv_data d1)
     \<and> open = base \<union> (if 0 < fd_open_count d0 then {fd_drv_data d0} else {}) \<union> (if 0 < fd_open_count d1 then {fd_drv_data d1} else {})
     \<and> (\<forall>d \<in> {d0, d1}. 0 \<le> fd_open_count d \<and> (0 < fd_open_count d \<longrightarrow> fd_drv_data d \<notin> base \<and> fd_lock d \<and> fd_thread d))"

lemma session_pair_sym: "session_pair base open d0 d1 = session_pair base open d1 d0"
  unfolding session_pair_def by (intro conj_cong) auto

lemma session_ok_pair:
  "fend_session_ok base open st \<longleftrightarrow> (\<exists>d0 d1. fend_devices st = [d0, d1] \<and> session_pair base open d0 d1)"
proof (cases "\<exists>d0 d1. fend_devices st = [d0, d1]")
  case True
  then obtain d0 d1 where ds: "fend_devices st = [d0, d1]" by blast
  have held: "fend_held [d0, d1] = (if 0 < fd_open_count d0 then {fd_drv_data d0} else {}) \<union> (if 0 < fd_open_count d1 then {fd_drv_data d1} else {})"
    by (auto simp: fend_held_def)
  show ?thesis by (auto simp: fend_session_ok_def session_pair_def ds held)
next
  case False
  have "length (fend_devices st) \<noteq> 2" using False by (auto simp: numeral_2_eq_2 length_Suc_conv)
  with False show ?thesis by (simp add: fend_session_ok_def)
qed

lemma session_pair_same:
  "same_session d0 e0 \<Longrightarrow> same_session d1 e1 \<Longrightarrow> session_pair base open d0 d1 \<Longrightarrow> session_pair base open e0 e1"
  by (simp add: session_pair_def same_session_def)

lemma session_pair_opened:
  assumes "session_pair base open d0 d1" "fd_open_count d0 \<le> 0" "fd \<notin> open"
    and "fd_drv_data e0 = fd" "0 < fd_open_count e0" "fd_lock e0" "fd_thread e0"
  shows "session_pair base (insert fd open) e0 d1"
  using assms by (auto simp: session_pair_def split: if_splits)

lemma session_pair_closed:
  assumes "session_pair base open d0 d1" "0 < fd_open_count d0" "fd_open_count e0 = 0"
  shows "session_pair base (open - {fd_drv_data d0}) e0 d1"
  using assms by (auto simp: session_pair_def split: if_splits)

lemma session_pair_count:
  assumes "session_pair base open d0 d1" "0 < fd_open_count d0 \<longleftrightarrow> 0 < fd_open_count e0" "0 \<le> fd_open_count e0"
    and "0 < fd_open_count d0 \<Longrightarrow> fd_drv_data e0 = fd_drv_data d0 \<and> fd_lock e0 = fd_lock d0 \<and> fd_thread e0 = fd_thread d0"
  shows "session_pair base open e0 d1"
  using assms by (simp add: session_pair_def split: if_splits)

lemma session_ok_upd:
  assumes "fend_session_ok base open st" "i < 2"
    and "\<And>d. session_pair base open (fend_devices st ! i) d \<Longrightarrow> session_pair base open' (f (fend_devices st ! i)) d"
  shows "fend_session_ok base open' (upd_fend i f st)"
proof -
  obtain d0 d1 where ds: "fend_devices st = [d0, d1]" "session_pair base open d0 d1" using assms(1) by (auto simp: session_ok_pair)
  have "i = 0 \<or> i = 1" using assms(2) by auto
  then show ?thesis
    using ds assms(3) [of "if i = 0 then d1 else d0"] session_pair_sym by (auto simp: session_ok_pair upd_fend_def)
qed

lemma session_ok_os [simp]: "fend_session_ok base open (st\<lparr>fend_os := e\<rparr>) = fend_session_ok base open st"
  by (simp add: fend_session_ok_def)

lemma keeps_session_ok:
  assumes "fend_session_ok base open st" "keeps_session drv st st'"
  shows "fend_session_ok base open st'"
  using assms session_pair_same by (auto simp: session_ok_pair keeps_session_def list_all2_Cons1)

lemma fend_get_dev_less: "fend_get_dev n = Inr i \<Longrightarrow> i < 2"
  by (auto simp: fend_get_dev_def split: if_splits)

lemma upd_fend_twice: "i < length (fend_devices st) \<Longrightarrow> upd_fend i g (upd_fend i f st) = upd_fend i (g \<circ> f) st"
  by (simp add: upd_fend_def)

context fend_descriptors
begin

lemma close_keeps_ok:
  assumes "fend_session_ok base (fds (fend_os st)) st" "AM_FEND_Close drv n st = Some (r, st')"
  shows "fend_session_ok base (fds (fend_os st')) st'"
proof (cases "fend_get_openned_dev st n")
  case (Inr i)
  obtain g where g: "fe_close drv = Some g" using has_close by blast
  let ?d = "fend_devices st ! i"
  have i: "i < 2" and opn: "0 < fd_open_count ?d"
    using Inr by (auto simp: fend_get_openned_dev_def split: sum.splits if_splits dest: fend_get_dev_less)
  show ?thesis
  proof (cases "fd_open_count ?d = 1")
    case True
    then show ?thesis
      using assms Inr i
      by (auto simp: AM_FEND_Close_def Let_def g closed [OF g] split: if_splits intro!: session_ok_upd session_pair_closed)
  next
    case False
    then have "st' = upd_fend i (\<lambda>dev. dev\<lparr>fd_open_count := fd_open_count dev - 1\<rparr>) st" using assms(2) Inr by (simp add: AM_FEND_Close_def)
    moreover have "fend_session_ok base (fds (fend_os st)) (upd_fend i (\<lambda>dev. dev\<lparr>fd_open_count := fd_open_count dev - 1\<rparr>) st)"
      using False opn by (intro session_ok_upd [OF assms(1) i]) (erule session_pair_count, auto)
    ultimately show ?thesis by simp
  qed
qed (use assms in \<open>auto simp: AM_FEND_Close_def\<close>)

lemma open_keeps_ok:
  assumes "fend_session_ok base (fds (fend_os st)) st" "AM_FEND_Open drv created n mode st = (r, st')"
  shows "fend_session_ok base (fds (fend_os st')) st'"
proof (cases "fend_get_dev n")
  case (Inr i)
  obtain f g where f: "fe_open drv = Some f" and g: "fe_close drv = Some g" using has_open has_close by blast
  let ?d = "fend_devices st ! i"
  have i: "i < 2" "i < length (fend_devices st)" using Inr assms(1) by (auto simp: fend_session_ok_def dest: fend_get_dev_less)
  show ?thesis
  proof (cases "0 < fd_open_count ?d")
    case True
    then have "st' = upd_fend i (\<lambda>dev. dev\<lparr>fd_open_count := fd_open_count dev + 1\<rparr>) st" using assms(2) Inr by (simp add: AM_FEND_Open_def)
    moreover have "fend_session_ok base (fds (fend_os st)) (upd_fend i (\<lambda>dev. dev\<lparr>fd_open_count := fd_open_count dev + 1\<rparr>) st)"
      using True by (intro session_ok_upd [OF assms(1) i(1)]) (erule session_pair_count, auto)
    ultimately show ?thesis by simp
  next
    case False
    obtain xd e where xd: "f (fd_dev_no ?d) mode (fd_drv_data ?d) (fend_os st) = (xd, e)" by (rule prod.exhaust)
    obtain x d where "xd = (x, d)" by (rule prod.exhaust)
    with xd have o: "f (fd_dev_no ?d) mode (fd_drv_data ?d) (fend_os st) = ((x, d), e)" by simp
    let ?u = "\<lambda>dev. dev\<lparr>fd_drv_data := d\<rparr>"
    let ?v = "\<lambda>dev. dev\<lparr>fd_lock := True, fd_dev_no := n, fd_open_count := 1, fd_enable_thread := True,
                 fd_run_cb := False, fd_fl_lock := False, fd_enable_cb := True, fd_curr_mode := mode\<rparr>"
    note eq = assms(2) [unfolded AM_FEND_Open_def Inr sum.case Let_def f option.case o prod.case g]
    have closed_dev: "fend_session_ok base (fds (fend_os st)) (upd_fend i h st)" if "fd_open_count (h ?d) = 0" for h
      using False that by (intro session_ok_upd [OF assms(1) i(1)]) (erule session_pair_count, auto)
    consider (failed) "x \<noteq> AM_SUCCESS" | (no_thread) "x = AM_SUCCESS" "\<not> created" | (success) "x = AM_SUCCESS" created by blast
    then show ?thesis
    proof cases
      case failed
      have "st' = (upd_fend i ?u st)\<lparr>fend_os := e\<rparr>" using eq False failed by simp
      moreover have "fd_open_count ?d = 0" using assms(1) False nth_mem [OF i(2)] by (fastforce simp: fend_session_ok_def)
      ultimately show ?thesis using not_opened [OF f o failed] closed_dev [of ?u] by simp
    next
      case no_thread
      let ?w = "\<lambda>dev. dev\<lparr>fd_lock := False, fd_open_count := 0\<rparr>"
      have "st' = (upd_fend i (?w \<circ> ?v \<circ> ?u) st)\<lparr>fend_os := snd (g d e)\<rparr>"
        using eq False no_thread i(2) by (simp add: upd_fend_def)
      moreover have "fds (snd (g d e)) = fds (fend_os st)"
        using opened [OF f, of "fd_dev_no ?d" mode "fd_drv_data ?d" "fend_os st" d e] o no_thread closed [OF g] by auto
      ultimately show ?thesis using closed_dev [of "?w \<circ> ?v \<circ> ?u"] by simp
    next
      case success
      let ?w = "\<lambda>dev. dev\<lparr>fd_thread := True\<rparr>"
      have "st' = (upd_fend i (?w \<circ> ?v \<circ> ?u) st)\<lparr>fend_os := e\<rparr>"
        using eq False success i(2) by (auto simp: upd_fend_def)
      moreover have "d \<notin> fds (fend_os st)" "fds e = insert d (fds (fend_os st))"
        using opened [OF f, of "fd_dev_no ?d" mode "fd_drv_data ?d" "fend_os st" d e] o success by auto
      moreover from this(1) have "fend_session_ok base (insert d (fds (fend_os st))) (upd_fend i (?w \<circ> ?v \<circ> ?u) st)"
        using False by (intro session_ok_upd [OF assms(1) i(1)]) (erule session_pair_opened, auto)
      ultimately show ?thesis by simp
    qed
  qed
qed (use assms in \<open>auto simp: AM_FEND_Open_def\<close>)

lemma run_keeps_ok:
  assumes "fend_run drv st st'" "fend_session_ok base (fds (fend_os st)) st"
  shows "fend_session_ok base (fds (fend_os st')) st'"
  using assms
proof (induction rule: rtranclp_induct)
  case (step st1 st2)
  note ok = step.IH [OF step.prems]
  show ?case
    using act_cases [OF step.hyps(2)]
  proof (elim disjE exE)
    assume k: "keeps_session drv st1 st2"
    then have "fds (fend_os st2) = fds (fend_os st1)" using effect by (simp add: keeps_session_def)
    with keeps_session_ok [OF ok k] show ?thesis by simp
  qed (rule open_keeps_ok [OF ok] close_keeps_ok [OF ok]; assumption)+
qed

end

text \<open>In a state of the invariant no call uses a destroyed mutex or joins a thread that does not exist.\<close>

lemma session_openned:
  assumes "fend_session_ok base open st" "fend_get_openned_dev st n = Inr i"
  shows "fd_lock (fend_devices st ! i)" "fd_thread (fend_devices st ! i)"
proof -
  have "i < length (fend_devices st)" "0 < fd_open_count (fend_devices st ! i)"
    using assms by (auto simp: fend_get_openned_dev_def fend_session_ok_def split: sum.splits if_splits dest: fend_get_dev_less)
  then show "fd_lock (fend_devices st ! i)" "fd_thread (fend_devices st ! i)"
    using assms(1) by (auto simp: fend_session_ok_def)
qed

lemma session_forward: "fend_session_ok base open st \<Longrightarrow> fend_forward self st n none g \<noteq> None"
  using session_openned(1) [of base "open" st n] by (auto simp: fend_forward_def split: sum.splits option.splits prod.splits)

lemma session_defined:
  assumes "fend_session_ok base open st"
  shows "AM_FEND_Close drv n st \<noteq> None" "fend_do drv self n op st \<noteq> None"
proof -
  show "AM_FEND_Close drv n st \<noteq> None"
    using session_openned [OF assms] by (auto simp: AM_FEND_Close_def Let_def split: sum.splits)
  show "fend_do drv self n op st \<noteq> None"
    by (cases op) (simp_all only: fend_do.simps fend_op_defs option.map_disc_iff session_forward [OF assms] not_False_eq_True)
qed

subsection \<open>The kernel driver\<close>

text \<open>What is relied on of the kernel: \<^verbatim>\<open>open\<close> returns a descriptor that was not open, or \<open>-1\<close>; only \<^verbatim>\<open>open\<close> and \<^verbatim>\<open>close\<close> change which descriptors are open.\<close>

definition fe_kernel_ok :: "'e fe_kernel \<Rightarrow> ('e \<Rightarrow> int set) \<Rightarrow> bool" where
  "fe_kernel_ok K fds \<longleftrightarrow>
     (\<forall>n e fd e'. fk_open K n e = (fd, e') \<longrightarrow> (if fd = -1 then fds e' = fds e else fd \<notin> fds e \<and> fds e' = insert fd (fds e)))
     \<and> (\<forall>fd e. fds (fk_close K fd e) = fds e - {fd})
     \<and> (\<forall>fd t e. fds (snd (fk_poll K fd t e)) = fds e) \<and> (\<forall>fd q e. fds (snd (fk_ioctl K fd q e)) = fds e)"

lemma request_keeps_fds:
  assumes "fe_kernel_ok K fds"
  shows "fds (snd (dvb_request K q fd e)) = fds e" "fds (snd (dvb_query K q get fd e)) = fds e" "fds (snd (fe_dvb_set_mode K fd mode e)) = fds e"
    "fds (snd (dvbsx_blindscan_getscanevent K fd e)) = fds e" "fds (snd (fe_dvb_wait_event K fd t e)) = fds e"
proof -
  have "fds (snd (fk_ioctl K fd q e)) = fds e" "fds (snd (fk_poll K fd t e)) = fds e" for fd q t e
    using assms unfolding fe_kernel_ok_def by simp_all
  then have io: "fk_ioctl K fd q e = (x, e') \<Longrightarrow> fds e' = fds e" and po: "fk_poll K fd t e = (y, e') \<Longrightarrow> fds e' = fds e" for fd q t e x y e'
    by (metis snd_conv)+
  show req: "fds (snd (dvb_request K q fd e)) = fds e" and qry: "fds (snd (dvb_query K q get fd e)) = fds e" for q get fd e
    by (auto simp: dvb_request_def dvb_query_def io split: prod.splits)
  show "fds (snd (fe_dvb_set_mode K fd mode e)) = fds e" "fds (snd (dvbsx_blindscan_getscanevent K fd e)) = fds e"
    by (auto simp: fe_dvb_set_mode_def dvbsx_blindscan_getscanevent_def io split: prod.splits)
  show "fds (snd (fe_dvb_wait_event K fd t e)) = fds e"
    by (auto simp: fe_dvb_wait_event_def po qry split: prod.splits)
qed

lemma info_keeps_fds:
  assumes "fe_kernel_ok K fds"
  shows "fds (snd (fe_dvb_get_info K fd e)) = fds e" "fds (snd (fe_dvb_get_ts K fd e)) = fds e"
proof -
  have "fds (snd (fk_ioctl K fd q e)) = fds e" for fd q e using assms unfolding fe_kernel_ok_def by simp
  then have "fk_ioctl K fd q e = (x, e') \<Longrightarrow> fds e' = fds e" for fd q e x e' by (metis snd_conv)
  then show "fds (snd (fe_dvb_get_info K fd e)) = fds e" "fds (snd (fe_dvb_get_ts K fd e)) = fds e"
    by (auto simp: fe_dvb_get_info_def fe_dvb_get_ts_def split: prod.splits)
qed

lemma dvb_open_fds:
  assumes "fe_kernel_ok K fds" "fe_dvb_open K n mode d e = ((r, d'), e')"
  shows "if r = AM_SUCCESS then d' \<notin> fds e \<and> fds e' = insert d' (fds e) else fds e' = fds e"
proof -
  obtain fd e1 where o: "fk_open K n e = (fd, e1)" by (rule prod.exhaust)
  obtain r2 e2 where m: "fe_dvb_set_mode K fd mode e1 = (r2, e2)" by (rule prod.exhaust)
  have e2: "fds e2 = fds e1" using request_keeps_fds(3) [OF assms(1), of fd mode e1] m by simp
  have e1: "if fd = -1 then fds e1 = fds e else fd \<notin> fds e \<and> fds e1 = insert fd (fds e)" and c: "fds (fk_close K fd e2) = fds e2 - {fd}"
    using assms(1) o unfolding fe_kernel_ok_def by simp_all
  show ?thesis using assms(2) o m e1 e2 c by (auto simp: fe_dvb_open_def fend_codes split: if_splits)
qed

lemmas dvb_fend_defs = fe_dvb_get_para_def fe_dvb_set_para_def fe_dvb_set_prop_def fe_dvb_get_prop_def fe_dvb_get_status_def
  fe_dvb_get_snr_def fe_dvb_get_ber_def fe_dvb_get_strength_def fe_dvb_set_delay_def fe_dvb_diseqc_reset_overload_def fe_dvb_diseqc_send_master_cmd_def
  fe_dvb_diseqc_recv_slave_reply_def fe_dvb_diseqc_send_burst_def fe_dvb_set_tone_def fe_dvb_set_voltage_def fe_dvb_enable_high_lnb_voltage_def
  dvbsx_blindscan_scan_def dvbsx_blindscan_cancel_def fe_dvb_fine_tune_def fe_dvb_set_cvbs_amp_out_def fe_dvb_get_atv_status_def fe_dvb_set_afc_def

lemma linux_dvb_descriptors:
  assumes "fe_kernel_ok K fds"
  shows "fend_descriptors (linux_dvb_fend_drv K) fds"
proof
  note keep = request_keeps_fds [OF assms] info_keeps_fds [OF assms]
  fix e e' assume "fend_effect (linux_dvb_fend_drv K) e e'"
  then show "fds e' = fds e"
    by (induction rule: fend_effect.induct) (auto simp: linux_dvb_fend_drv_def dvb_fend_defs keep)
next
  fix f n mode d e d' e'
  assume "fe_open (linux_dvb_fend_drv K) = Some f" "f n mode d e = ((AM_SUCCESS, d'), e')"
  with dvb_open_fds [OF assms, of n mode d e AM_SUCCESS d' e'] show "d' \<notin> fds e \<and> fds e' = insert d' (fds e)"
    by (simp add: linux_dvb_fend_drv_def)
next
  fix f n mode d e r d' e'
  assume "fe_open (linux_dvb_fend_drv K) = Some f" "f n mode d e = ((r, d'), e')" "r \<noteq> AM_SUCCESS"
  with dvb_open_fds [OF assms, of n mode d e r d' e'] show "fds e' = fds e" by (simp add: linux_dvb_fend_drv_def)
next
  fix g d e assume "fe_close (linux_dvb_fend_drv K) = Some g"
  then show "fds (snd (g d e)) = fds e - {d}" using assms by (auto simp: linux_dvb_fend_drv_def fe_dvb_close_def fe_kernel_ok_def)
qed (simp_all add: linux_dvb_fend_drv_def)

text \<open>A kernel that gives descriptors from \<open>3\<close> on; its state is the list of open descriptors.\<close>

definition demo_fds :: "int list fe_kernel" where
  "demo_fds = \<lparr>fk_open = (\<lambda>n s. let fd = Max (insert 2 (set s)) + 1 in (fd, fd # s)), fk_close = (\<lambda>fd s. filter (\<lambda>x. x \<noteq> fd) s),
     fk_poll = (\<lambda>fd t s. (0, s)), fk_ioctl = (\<lambda>fd q s. ((0, NoAnswer), s))\<rparr>"

lemma demo_fds_ok: "fe_kernel_ok demo_fds set"
proof -
  have "Max (insert 2 (set s)) + 1 \<notin> set s" for s :: "int list" using Max_ge [of "insert 2 (set s)" "Max (insert 2 (set s)) + 1"] by auto
  moreover have "Max (insert 2 (set s)) + 1 \<noteq> -1" for s :: "int list"
  proof -
    have "2 \<le> Max (insert 2 (set s))" by simp
    then show ?thesis by linarith
  qed
  ultimately show ?thesis by (auto simp: fe_kernel_ok_def demo_fds_def Let_def)
qed

interpretation dvb_fds: fend_descriptors "linux_dvb_fend_drv demo_fds" set
  by (rule linux_dvb_descriptors [OF demo_fds_ok])

text \<open>
  C22: over the kernel driver, in every run of the module that starts with closed devices, with any interleaving of callers, event threads and blind scans:
  the open descriptors are those that were open at the start and one for each open device, all different; so closing all devices leaves no
  descriptor behind. Closing and all forwarding functions are defined in every such state.
\<close>

theorem front_end_descriptors:
  assumes "fe_kernel_ok K fds" "length (fend_devices st0) = FEND_DEV_COUNT" "\<forall>d \<in> set (fend_devices st0). fd_open_count d = 0"
    and "fend_run (linux_dvb_fend_drv K) st0 st"
  shows "fds (fend_os st) = fds (fend_os st0) \<union> fd_drv_data ` {d \<in> set (fend_devices st). 0 < fd_open_count d}
    \<and> fds (fend_os st0) \<inter> fd_drv_data ` {d \<in> set (fend_devices st). 0 < fd_open_count d} = {}
    \<and> distinct (map fd_drv_data (filter (\<lambda>d. 0 < fd_open_count d) (fend_devices st)))
    \<and> AM_FEND_Close (linux_dvb_fend_drv K) n st \<noteq> None \<and> fend_do (linux_dvb_fend_drv K) self n op st \<noteq> None"
proof -
  have "fend_session_ok (fds (fend_os st0)) (fds (fend_os st0)) st0"
    using assms(2,3) by (auto simp: fend_session_ok_def fend_held_def filter_empty_conv)
  with fend_descriptors.run_keeps_ok [OF linux_dvb_descriptors [OF assms(1)] assms(4)]
  have ok: "fend_session_ok (fds (fend_os st0)) (fds (fend_os st)) st" by blast
  then show ?thesis
    using session_defined [OF ok] by (simp add: fend_session_ok_def fend_held_def)
qed

text \<open>Device 0 and device 1 are opened, device 0 is closed again.\<close>

definition demo_closed :: "int list fend_state" where
  "demo_closed = \<lparr>fend_devices = [demo_device, demo_device\<lparr>fd_dev_no := 1\<rparr>], fend_frames = (\<lambda>_. None), fend_os = [0]\<rparr>"

definition demo_after :: "int list fend_state" where
  "demo_after =
     (let drv = linux_dvb_fend_drv demo_fds in
      snd (the (AM_FEND_Close drv 0 (snd (AM_FEND_Open drv True 1 0 (snd (AM_FEND_Open drv True 0 (-1) demo_closed)))))))"

lemma demo_session_run: "fend_run (linux_dvb_fend_drv demo_fds) demo_closed demo_after"
proof -
  let ?drv = "linux_dvb_fend_drv demo_fds"
  let ?st1 = "snd (AM_FEND_Open ?drv True 0 (-1) demo_closed)" let ?st2 = "snd (AM_FEND_Open ?drv True 1 0 ?st1)"
  have "fend_act ?drv demo_closed ?st1" "fend_act ?drv ?st1 ?st2" by (rule fend_act.open_dev, rule prod.collapse [symmetric])+
  then have run: "fend_run ?drv demo_closed ?st2" by simp
  have "fend_session_ok {0} (set (fend_os demo_closed)) demo_closed"
    by (auto simp: fend_session_ok_def fend_held_def demo_closed_def demo_device_def)
  from session_defined(1) [OF dvb_fds.run_keeps_ok [OF run this], of ?drv 0]
  have "fend_act ?drv ?st2 demo_after" by (auto simp: demo_after_def Let_def intro: fend_act.close_dev)
  with run show ?thesis by simp
qed

lemma demo_after_devices: "{d \<in> set (fend_devices demo_after). 0 < fd_open_count d} = {fend_devices demo_after ! 1}" "fd_drv_data (fend_devices demo_after ! 1) = 4"
  by (auto simp: demo_after_def demo_closed_def demo_device_def demo_fds_def linux_dvb_fend_drv_def fe_dvb_open_def fe_dvb_close_def fe_dvb_set_mode_def
      AM_FEND_Open_def AM_FEND_Close_def fend_get_openned_dev_def fend_get_dev_def upd_fend_def Let_def)

theorem front_end_descriptors_witness:
  "set (fend_os demo_after) = {0, 4} \<and> AM_FEND_Close (linux_dvb_fend_drv demo_fds) 1 demo_after \<noteq> None"
  using front_end_descriptors [OF demo_fds_ok _ _ demo_session_run, of 1 False OpGetSNR] demo_after_devices
  by (auto simp: demo_closed_def demo_device_def)

end
