(* ===== verification/Osd_Sw.thy ===== *)
theory Osd_Sw
  imports Adp_Prelude
begin

text \<open>
  Drawing in software: \<^verbatim>\<open>dvb/am_adp/am_osd/clip.c\<close> and \<^verbatim>\<open>dvb/am_adp/am_osd/sw_op.c\<close>. A surface owns its buffer, a list of bytes; a pointer into the buffer is an
  offset, and reading or writing outside of the buffer is undefined. Source and target of a blit are different surfaces. The byte order is little endian, that
  of the processors the module is built for. Coordinates are integers: the code computes with 32 bits, which is the same as long as the sums fit.
\<close>

unbundle bit_operations_syntax

subsection \<open>Clipping (clip.c)\<close>

record AM_OSD_Rect =
  rc_x :: int
  rc_y :: int
  rc_w :: int
  rc_h :: int

definition AM_OSD_ClipPoint :: "AM_OSD_Rect \<Rightarrow> int \<Rightarrow> int \<Rightarrow> bool" where
  "AM_OSD_ClipPoint c x y = (if x < rc_x c \<or> x \<ge> rc_x c + rc_w c \<or> y < rc_y c \<or> y \<ge> rc_y c + rc_h c then False else True)"

text \<open>\<open>None\<close> is \<^verbatim>\<open>AM_FALSE\<close>; otherwise the values stored.\<close>

definition AM_OSD_ClipHLine :: "AM_OSD_Rect \<Rightarrow> int \<Rightarrow> int \<Rightarrow> int \<Rightarrow> (int \<times> int) option" where
  "AM_OSD_ClipHLine c x y w =
     (if y < rc_y c \<or> y \<ge> rc_y c + rc_h c then None
      else let minx = max x (rc_x c); maxx = min (x + w) (rc_x c + rc_w c) in Some (minx, maxx - minx))"

definition AM_OSD_ClipVLine :: "AM_OSD_Rect \<Rightarrow> int \<Rightarrow> int \<Rightarrow> int \<Rightarrow> (int \<times> int) option" where
  "AM_OSD_ClipVLine c x y h =
     (if x < rc_x c \<or> x \<ge> rc_x c + rc_w c then None
      else let miny = max y (rc_y c); maxy = min (y + h) (rc_y c + rc_h c) in Some (miny, maxy - miny))"

definition AM_OSD_ClipRect :: "AM_OSD_Rect \<Rightarrow> AM_OSD_Rect \<Rightarrow> AM_OSD_Rect option" where
  "AM_OSD_ClipRect c r =
     (let minx = max (rc_x c) (rc_x r); miny = max (rc_y c) (rc_y r);
          maxx = min (rc_x c + rc_w c) (rc_x r + rc_w r); maxy = min (rc_y c + rc_h c) (rc_y r + rc_h r) in
      if maxx \<le> minx \<or> maxy \<le> miny then None
      else Some \<lparr>rc_x = minx, rc_y = miny, rc_w = maxx - minx, rc_h = maxy - miny\<rparr>)"

definition AM_OSD_CollectRect :: "AM_OSD_Rect \<Rightarrow> AM_OSD_Rect \<Rightarrow> AM_OSD_Rect" where
  "AM_OSD_CollectRect r1 r2 =
     (let minx = min (rc_x r1) (rc_x r2); miny = min (rc_y r1) (rc_y r2);
          maxx = max (rc_x r1 + rc_w r1) (rc_x r2 + rc_w r2); maxy = max (rc_y r1 + rc_h r1) (rc_y r2 + rc_h r2) in
      \<lparr>rc_x = minx, rc_y = miny, rc_w = maxx - minx, rc_h = maxy - miny\<rparr>)"

subsection \<open>Formats, colours and surfaces (am_osd.h, am_osd_internal.h)\<close>

datatype AM_OSD_PixelFormatType = AM_OSD_FMT_PALETTE_256 | AM_OSD_FMT_COLOR_ARGB_4444 | AM_OSD_FMT_COLOR_BGRA_4444 | AM_OSD_FMT_COLOR_ARGB_1555
  | AM_OSD_FMT_COLOR_BGRA_5551 | AM_OSD_FMT_COLOR_RGB_565 | AM_OSD_FMT_COLOR_BGR_565 | AM_OSD_FMT_COLOR_RGB_888 | AM_OSD_FMT_COLOR_BGR_888
  | AM_OSD_FMT_COLOR_ARGB_8888 | AM_OSD_FMT_COLOR_BGRA_8888 | AM_OSD_FMT_COLOR_RGBA_8888 | AM_OSD_FMT_COLOR_ABGR_8888
  | AM_OSD_FMT_YUV_420 | AM_OSD_FMT_YUV_422 | AM_OSD_FMT_YUV_444

definition AM_OSD_PIXEL_FORMAT_TYPE_IS_PALETTE :: "AM_OSD_PixelFormatType \<Rightarrow> bool" where
  "AM_OSD_PIXEL_FORMAT_TYPE_IS_PALETTE t \<longleftrightarrow> t = AM_OSD_FMT_PALETTE_256"

definition AM_OSD_PIXEL_FORMAT_TYPE_IS_YUV :: "AM_OSD_PixelFormatType \<Rightarrow> bool" where
  "AM_OSD_PIXEL_FORMAT_TYPE_IS_YUV t \<longleftrightarrow> t \<in> {AM_OSD_FMT_YUV_420, AM_OSD_FMT_YUV_422, AM_OSD_FMT_YUV_444}"

record AM_OSD_Color =
  co_r :: byte
  co_g :: byte
  co_b :: byte
  co_a :: byte

record AM_OSD_PixelFormat =
  pf_type :: AM_OSD_PixelFormatType
  bits_per_pixel :: int
  bytes_per_pixel :: int
  pf_planes :: int
  a_mask :: "32 word"
  r_mask :: "32 word"
  g_mask :: "32 word"
  b_mask :: "32 word"
  a_offset :: nat
  r_offset :: nat
  g_offset :: nat
  b_offset :: nat
  a_shift :: nat
  r_shift :: nat
  g_shift :: nat
  b_shift :: nat
  color_count :: int
  pf_colors :: "AM_OSD_Color list"

definition AM_RGB_PIXEL_TO_COLOR_COMPONENT :: "32 word \<Rightarrow> nat \<Rightarrow> nat \<Rightarrow> 32 word \<Rightarrow> byte" where
  "AM_RGB_PIXEL_TO_COLOR_COMPONENT msk offset shift pix = ucast (push_bit shift (drop_bit offset (pix AND msk)))"

definition AM_RGB_PIXEL_TO_COLOR :: "AM_OSD_PixelFormat \<Rightarrow> 32 word \<Rightarrow> AM_OSD_Color" where
  "AM_RGB_PIXEL_TO_COLOR f pix =
     \<lparr>co_r = AM_RGB_PIXEL_TO_COLOR_COMPONENT (r_mask f) (r_offset f) (r_shift f) pix,
      co_g = AM_RGB_PIXEL_TO_COLOR_COMPONENT (g_mask f) (g_offset f) (g_shift f) pix,
      co_b = AM_RGB_PIXEL_TO_COLOR_COMPONENT (b_mask f) (b_offset f) (b_shift f) pix,
      co_a = (if a_mask f \<noteq> 0 then AM_RGB_PIXEL_TO_COLOR_COMPONENT (a_mask f) (a_offset f) (a_shift f) pix else 0xFF)\<rparr>"

definition AM_COLOR_COMPONENT_TO_RGB_PIXEL :: "32 word \<Rightarrow> nat \<Rightarrow> nat \<Rightarrow> byte \<Rightarrow> 32 word" where
  "AM_COLOR_COMPONENT_TO_RGB_PIXEL msk offset shift c = push_bit offset (drop_bit shift (ucast c)) AND msk"

definition AM_COLOR_TO_RGB_PIXEL :: "AM_OSD_PixelFormat \<Rightarrow> AM_OSD_Color \<Rightarrow> 32 word" where
  "AM_COLOR_TO_RGB_PIXEL f col =
     AM_COLOR_COMPONENT_TO_RGB_PIXEL (r_mask f) (r_offset f) (r_shift f) (co_r col)
     OR AM_COLOR_COMPONENT_TO_RGB_PIXEL (g_mask f) (g_offset f) (g_shift f) (co_g col)
     OR AM_COLOR_COMPONENT_TO_RGB_PIXEL (b_mask f) (b_offset f) (b_shift f) (co_b col)
     OR AM_COLOR_COMPONENT_TO_RGB_PIXEL (a_mask f) (a_offset f) (a_shift f) (co_a col)"

text \<open>The pointers for private data of drivers and hardware are left out.\<close>

record AM_OSD_Surface =
  sf_flags :: "32 word"
  sf_format :: AM_OSD_PixelFormat
  sf_clip :: AM_OSD_Rect
  sf_width :: int
  sf_height :: int
  sf_pitch :: int
  sf_color_key :: "32 word"
  sf_alpha :: byte
  sf_buffer :: "byte list option"

abbreviation (input) AM_OSD_SURFACE_FL_HW :: "32 word" where "AM_OSD_SURFACE_FL_HW \<equiv> 1"
abbreviation (input) AM_OSD_SURFACE_FL_OPENGL :: "32 word" where "AM_OSD_SURFACE_FL_OPENGL \<equiv> 2"
abbreviation (input) AM_OSD_SURFACE_FL_OSD :: "32 word" where "AM_OSD_SURFACE_FL_OSD \<equiv> 4"
abbreviation (input) AM_OSD_SURFACE_FL_EXTERNAL :: "32 word" where "AM_OSD_SURFACE_FL_EXTERNAL \<equiv> 16"
abbreviation (input) AM_OSD_SURFACE_FL_PRIV_FMT :: "32 word" where "AM_OSD_SURFACE_FL_PRIV_FMT \<equiv> 32"
abbreviation (input) AM_OSD_SURFACE_FL_COLOR_KEY :: "32 word" where "AM_OSD_SURFACE_FL_COLOR_KEY \<equiv> 64"
abbreviation (input) AM_OSD_SURFACE_FL_ALPHA :: "32 word" where "AM_OSD_SURFACE_FL_ALPHA \<equiv> 128"
abbreviation (input) AM_OSD_SURFACE_FL_GLOBAL_ALPHA :: "32 word" where "AM_OSD_SURFACE_FL_GLOBAL_ALPHA \<equiv> 256"

record AM_OSD_BlitPara =
  enable_alpha :: bool
  enable_global_alpha :: bool
  enable_key :: bool
  enable_op :: bool
  bp_key :: "32 word"
  bp_alpha :: byte

definition AM_OSD_ERR_NO_MEM :: errcode where "AM_OSD_ERR_NO_MEM = AM_ERROR_BASE 4 + 1"
definition AM_OSD_ERR_BUSY :: errcode where "AM_OSD_ERR_BUSY = AM_ERROR_BASE 4 + 2"
definition AM_OSD_ERR_INVALID_DEV_NO :: errcode where "AM_OSD_ERR_INVALID_DEV_NO = AM_ERROR_BASE 4 + 3"
definition AM_OSD_ERR_NOT_SUPPORTED :: errcode where "AM_OSD_ERR_NOT_SUPPORTED = AM_ERROR_BASE 4 + 6"
definition AM_OSD_ERR_ILLEGAL_PIXEL :: errcode where "AM_OSD_ERR_ILLEGAL_PIXEL = AM_ERROR_BASE 4 + 8"

lemmas osd_codes [err_code] = AM_OSD_ERR_NO_MEM_def AM_OSD_ERR_BUSY_def AM_OSD_ERR_INVALID_DEV_NO_def AM_OSD_ERR_NOT_SUPPORTED_def AM_OSD_ERR_ILLEGAL_PIXEL_def

subsection \<open>Memory\<close>

definition put_bytes :: "byte list \<Rightarrow> int \<Rightarrow> byte list \<Rightarrow> byte list option" where
  "put_bytes buf ptr bs = (if 0 \<le> ptr \<and> ptr + int (length bs) \<le> int (length buf) then Some (take (nat ptr) buf @ bs @ drop (nat ptr + length bs) buf) else None)"

definition get_bytes :: "byte list \<Rightarrow> int \<Rightarrow> int \<Rightarrow> byte list option" where
  "get_bytes buf ptr n = (if 0 \<le> n \<and> 0 \<le> ptr \<and> ptr + n \<le> int (length buf) then Some (take (nat n) (drop (nat ptr) buf)) else None)"

text \<open>A pixel of 1 to 4 bytes, as it is stored through \<^verbatim>\<open>uint8_t*\<close>, \<^verbatim>\<open>uint16_t*\<close>, \<^verbatim>\<open>AM_PUT_3BPP_PIXEL\<close> and \<^verbatim>\<open>uint32_t*\<close>.\<close>

definition pixel_bytes :: "nat \<Rightarrow> 32 word \<Rightarrow> byte list" where
  "pixel_bytes n pix = map (\<lambda>k. ucast (drop_bit (8 * k) pix)) [0..<n]"

fun bytes_pixel :: "byte list \<Rightarrow> 32 word" where
  "bytes_pixel [] = 0"
| "bytes_pixel (b # bs) = ucast b OR push_bit 8 (bytes_pixel bs)"

definition put_pixel :: "int \<Rightarrow> 32 word \<Rightarrow> int \<Rightarrow> byte list \<Rightarrow> byte list option" where
  "put_pixel bpp pix ptr buf = (if bpp \<in> {1, 2, 3, 4} then put_bytes buf ptr (pixel_bytes (nat bpp) pix) else Some buf)"

definition get_pixel :: "int \<Rightarrow> byte list \<Rightarrow> int \<Rightarrow> 32 word option" where
  "get_pixel bpp buf ptr = (if bpp \<in> {1, 2, 3, 4} then map_option bytes_pixel (get_bytes buf ptr bpp) else Some 0)"

text \<open>
  The loop \<^verbatim>\<open>while(n--) { body; p = next(p); }\<close>. With a negative \<open>n\<close> it is undefined: when the body does not leave its memory before, \<^verbatim>\<open>n--\<close> overflows.
\<close>

fun count_down :: "nat \<Rightarrow> ('p \<Rightarrow> 'p) \<Rightarrow> ('p \<Rightarrow> 'b \<Rightarrow> 'b option) \<Rightarrow> 'p \<Rightarrow> 'b \<Rightarrow> 'b option" where
  "count_down 0 nxt body p b = Some b"
| "count_down (Suc n) nxt body p b = body p b \<bind> count_down n nxt body (nxt p)"

definition while_dec :: "int \<Rightarrow> ('p \<Rightarrow> 'p) \<Rightarrow> ('p \<Rightarrow> 'b \<Rightarrow> 'b option) \<Rightarrow> 'p \<Rightarrow> 'b \<Rightarrow> 'b option" where
  "while_dec n nxt body p b = (if n < 0 then None else count_down (nat n) nxt body p b)"

text \<open>\<^verbatim>\<open>memset\<close>; the size is converted to \<^verbatim>\<open>size_t\<close>, so that a negative one leaves every buffer.\<close>

definition mem_set :: "int \<Rightarrow> 32 word \<Rightarrow> int \<Rightarrow> byte list \<Rightarrow> byte list option" where
  "mem_set n pix ptr buf = (if n < 0 then None else put_bytes buf ptr (replicate (nat n) (ucast pix)))"

text \<open>An operation on the buffer of a surface; without a buffer it follows a null pointer.\<close>

definition on_buffer :: "(byte list \<Rightarrow> byte list option) \<Rightarrow> AM_OSD_Surface \<Rightarrow> AM_OSD_Surface option" where
  "on_buffer f s = (case sf_buffer s of None \<Rightarrow> None | Some buf \<Rightarrow> map_option (\<lambda>b. s\<lparr>sf_buffer := Some b\<rparr>) (f buf))"

abbreviation sf_bpp :: "AM_OSD_Surface \<Rightarrow> int" where "sf_bpp s \<equiv> bytes_per_pixel (sf_format s)"

definition sf_addr :: "AM_OSD_Surface \<Rightarrow> int \<Rightarrow> int \<Rightarrow> int" where
  "sf_addr s x y = sf_pitch s * y + x * sf_bpp s"

subsection \<open>Surfaces, points, lines and rectangles (sw_op.c)\<close>

text \<open>\<open>alloc\<close> is \<^verbatim>\<open>malloc\<close>: the memory with what it contains, or \<open>None\<close>.\<close>

definition sw_create_surface :: "(int \<Rightarrow> byte list option) \<Rightarrow> AM_OSD_Surface \<Rightarrow> errcode \<times> AM_OSD_Surface" where
  "sw_create_surface alloc s =
     (if sf_buffer s = None
      then (if AM_OSD_PIXEL_FORMAT_TYPE_IS_YUV (pf_type (sf_format s)) then (AM_OSD_ERR_NOT_SUPPORTED, s)
            else
              let s1 = (if sf_pitch s = 0 then s\<lparr>sf_pitch := (sf_bpp s * sf_width s + 3) AND NOT 3\<rparr> else s) in
              (case alloc (sf_pitch s1 * sf_height s1) of
                 None \<Rightarrow> (AM_OSD_ERR_NO_MEM, s1\<lparr>sf_pitch := 0\<rparr>)
               | Some buf \<Rightarrow> (AM_SUCCESS, s1\<lparr>sf_buffer := Some buf\<rparr>)))
      else (AM_SUCCESS, s))"

text \<open>The result says whether the buffer is freed.\<close>

definition sw_destroy_surface :: "AM_OSD_Surface \<Rightarrow> errcode \<times> bool" where
  "sw_destroy_surface s = (AM_SUCCESS, sf_buffer s \<noteq> None \<and> sf_flags s AND AM_OSD_SURFACE_FL_EXTERNAL = 0)"

definition sw_pixel :: "AM_OSD_Surface \<Rightarrow> int \<Rightarrow> int \<Rightarrow> 32 word \<Rightarrow> AM_OSD_Surface option" where
  "sw_pixel s x y pix = (if AM_OSD_ClipPoint (sf_clip s) x y then on_buffer (put_pixel (sf_bpp s) pix (sf_addr s x y)) s else Some s)"

definition sw_vline :: "AM_OSD_Surface \<Rightarrow> int \<Rightarrow> int \<Rightarrow> int \<Rightarrow> 32 word \<Rightarrow> AM_OSD_Surface option" where
  "sw_vline s x y h pix =
     (case AM_OSD_ClipVLine (sf_clip s) x y h of
        None \<Rightarrow> Some s
      | Some (y, h) \<Rightarrow>
          if sf_bpp s \<in> {1, 2, 3, 4}
          then on_buffer (while_dec h (\<lambda>ptr. ptr + sf_pitch s) (put_pixel (sf_bpp s) pix) (sf_addr s x y)) s
          else Some s)"

text \<open>\<^verbatim>\<open>w\<close> pixels from \<open>ptr\<close> on: with one byte by \<^verbatim>\<open>memset\<close>, otherwise by a loop.\<close>

definition sw_row :: "int \<Rightarrow> 32 word \<Rightarrow> int \<Rightarrow> int \<Rightarrow> byte list \<Rightarrow> byte list option" where
  "sw_row bpp pix w ptr =
     (if bpp = 1 then mem_set w pix ptr
      else if bpp \<in> {2, 3, 4} then while_dec w (\<lambda>ptr. ptr + bpp) (put_pixel bpp pix) ptr
      else Some)"

definition sw_hline :: "AM_OSD_Surface \<Rightarrow> int \<Rightarrow> int \<Rightarrow> int \<Rightarrow> 32 word \<Rightarrow> AM_OSD_Surface option" where
  "sw_hline s x y w pix =
     (case AM_OSD_ClipHLine (sf_clip s) x y w of
        None \<Rightarrow> Some s
      | Some (x, w) \<Rightarrow> on_buffer (sw_row (sf_bpp s) pix w (sf_addr s x y)) s)"

definition sw_filled_rect :: "AM_OSD_Surface \<Rightarrow> AM_OSD_Rect \<Rightarrow> 32 word \<Rightarrow> AM_OSD_Surface option" where
  "sw_filled_rect s rect pix =
     (case AM_OSD_ClipRect (sf_clip s) rect of
        None \<Rightarrow> Some s
      | Some dr \<Rightarrow>
          if sf_bpp s \<in> {1, 2, 3, 4}
          then on_buffer (while_dec (rc_h dr) (\<lambda>pline. pline + sf_pitch s) (sw_row (sf_bpp s) pix (rc_w dr)) (sf_addr s (rc_x dr) (rc_y dr))) s
          else Some s)"

subsection \<open>Copying\<close>

definition palette_color :: "AM_OSD_PixelFormat \<Rightarrow> 32 word \<Rightarrow> AM_OSD_Color option" where
  "palette_color f pix =
     (if pix < word_of_int (color_count f) then (if unat pix < length (pf_colors f) then Some (pf_colors f ! unat pix) else None)
      else Some \<lparr>co_r = 0, co_g = 0, co_b = 0, co_a = 0xFF\<rparr>)"

text \<open>Reading a pixel and its colour; \<open>Some None\<close> when the pixel has the colour key and is left out.\<close>

definition blit_fetch :: "AM_OSD_PixelFormat \<Rightarrow> AM_OSD_BlitPara \<Rightarrow> byte list \<Rightarrow> int \<Rightarrow> (32 word \<times> AM_OSD_Color) option option" where
  "blit_fetch f para sbuf ps =
     (if AM_OSD_PIXEL_FORMAT_TYPE_IS_PALETTE (pf_type f)
      then do { pix \<leftarrow> get_pixel 1 sbuf ps;
                if enable_key para \<and> pix = bp_key para then Some None
                else map_option (\<lambda>col. Some (pix, col)) (palette_color f pix) }
      else do { pix \<leftarrow> get_pixel (bytes_per_pixel f) sbuf ps;
                if bytes_per_pixel f \<in> {1, 2, 3, 4} \<and> enable_key para \<and> pix = bp_key para then Some None
                else Some (Some (pix, AM_RGB_PIXEL_TO_COLOR f pix)) })"

text \<open>The mixture of two colours, computed as \<^verbatim>\<open>int\<close> and stored into bytes.\<close>

definition blend_component :: "byte \<Rightarrow> byte \<Rightarrow> byte \<Rightarrow> byte" where
  "blend_component c a d = word_of_int (drop_bit 8 (uint c * uint a + uint d * (255 - uint a)))"

definition blend_color :: "AM_OSD_Color \<Rightarrow> AM_OSD_Color \<Rightarrow> AM_OSD_Color" where
  "blend_color col dc =
     \<lparr>co_r = blend_component (co_r col) (co_a col) (co_r dc), co_g = blend_component (co_g col) (co_a col) (co_g dc),
      co_b = blend_component (co_b col) (co_a col) (co_b dc), co_a = max (co_a col) (co_a dc)\<rparr>"

text \<open>
  Writing a pixel. \<open>one\<close> says whether a target with one byte for a pixel is read before a mixture, which \<^verbatim>\<open>sw_normal_blit\<close> does and \<^verbatim>\<open>sw_stretch_blit\<close> does not.
\<close>

definition blit_store :: "bool \<Rightarrow> AM_OSD_PixelFormat \<Rightarrow> AM_OSD_BlitPara \<Rightarrow> 32 word \<times> AM_OSD_Color \<Rightarrow> int \<Rightarrow> byte list \<Rightarrow> byte list option" where
  "blit_store one f para = (\<lambda>(pix, col) pd dbuf.
     if AM_OSD_PIXEL_FORMAT_TYPE_IS_PALETTE (pf_type f) then put_pixel 1 pix pd dbuf
     else if enable_alpha para \<and> co_a col = 0 then Some dbuf
     else if enable_alpha para \<and> co_a col \<noteq> 0xFF
     then do { dp \<leftarrow> (if bytes_per_pixel f = 1 \<and> \<not> one then Some 0 else get_pixel (bytes_per_pixel f) dbuf pd);
               put_pixel (bytes_per_pixel f) (AM_COLOR_TO_RGB_PIXEL f (blend_color col (AM_RGB_PIXEL_TO_COLOR f dp))) pd dbuf }
     else put_pixel (bytes_per_pixel f) (AM_COLOR_TO_RGB_PIXEL f col) pd dbuf)"

definition blit_pixel :: "bool \<Rightarrow> AM_OSD_PixelFormat \<Rightarrow> AM_OSD_PixelFormat \<Rightarrow> AM_OSD_BlitPara \<Rightarrow> byte list \<Rightarrow> int \<Rightarrow> int \<Rightarrow> byte list \<Rightarrow> byte list option" where
  "blit_pixel one sf df para sbuf ps pd dbuf =
     do { r \<leftarrow> blit_fetch sf para sbuf ps;
          case r of None \<Rightarrow> Some dbuf | Some pc \<Rightarrow> blit_store one df para pc pd dbuf }"

definition src_step :: "AM_OSD_PixelFormat \<Rightarrow> int" where
  "src_step f = (if AM_OSD_PIXEL_FORMAT_TYPE_IS_PALETTE (pf_type f) then 1 else if bytes_per_pixel f \<in> {1, 2, 3, 4} then bytes_per_pixel f else 0)"

definition sw_normal_blit :: "AM_OSD_Surface \<Rightarrow> AM_OSD_Rect \<Rightarrow> AM_OSD_Surface \<Rightarrow> AM_OSD_Rect \<Rightarrow> AM_OSD_BlitPara \<Rightarrow> AM_OSD_Surface option" where
  "sw_normal_blit src sr dst dr para =
     (case AM_OSD_ClipRect \<lparr>rc_x = 0, rc_y = 0, rc_w = sf_width src, rc_h = sf_height src\<rparr> sr of
        None \<Rightarrow> Some dst
      | Some dsr \<Rightarrow>
         (case AM_OSD_ClipRect (sf_clip dst)
                 \<lparr>rc_x = rc_x dsr + rc_x dr - rc_x sr, rc_y = rc_y dsr + rc_y dr - rc_y sr, rc_w = rc_w dsr, rc_h = rc_h dsr\<rparr> of
            None \<Rightarrow> Some dst
          | Some ddr \<Rightarrow>
              let x = rc_x ddr + rc_x sr - rc_x dr; y = rc_y ddr + rc_y sr - rc_y dr;
                  lines = (sf_addr src x y, sf_addr dst (rc_x ddr) (rc_y ddr)); next_line = (\<lambda>(ps, pd). (ps + sf_pitch src, pd + sf_pitch dst)) in
              (case sf_buffer src of
                 None \<Rightarrow> None
               | Some sbuf \<Rightarrow>
                   if pf_type (sf_format src) = pf_type (sf_format dst) \<and> \<not> enable_alpha para \<and> \<not> enable_key para
                   then on_buffer (while_dec (rc_h ddr) next_line
                          (\<lambda>(psline, pdline) dbuf. get_bytes sbuf psline (rc_w ddr * sf_bpp src) \<bind> put_bytes dbuf pdline) lines) dst
                   else on_buffer (while_dec (rc_h ddr) next_line
                          (while_dec (rc_w ddr) (\<lambda>(ps, pd). (ps + src_step (sf_format src), pd + sf_bpp dst))
                            (\<lambda>(ps, pd). blit_pixel True (sf_format src) (sf_format dst) para sbuf ps pd)) lines) dst)))"

text \<open>With scaling. Columns are looked up in \<^verbatim>\<open>convx\<close>, which has room for \<^verbatim>\<open>MAX_W\<close> entries.\<close>

abbreviation (input) MAX_W :: int where "MAX_W \<equiv> 1920"

definition sw_stretch_blit :: "AM_OSD_Surface \<Rightarrow> AM_OSD_Rect \<Rightarrow> AM_OSD_Surface \<Rightarrow> AM_OSD_Rect \<Rightarrow> AM_OSD_BlitPara \<Rightarrow> AM_OSD_Surface option" where
  "sw_stretch_blit src sr dst dr para =
     (case AM_OSD_ClipRect \<lparr>rc_x = 0, rc_y = 0, rc_w = sf_width src, rc_h = sf_height src\<rparr> sr of
        None \<Rightarrow> Some dst
      | Some dsr0 \<Rightarrow>
         (case AM_OSD_ClipRect (sf_clip dst)
                 \<lparr>rc_x = ((rc_x dsr0 - rc_x sr) * rc_w dr) sdiv rc_w sr + rc_x dr, rc_y = ((rc_y dsr0 - rc_y sr) * rc_h dr) sdiv rc_h sr + rc_y dr,
                  rc_w = (rc_w dsr0 * rc_w dr) sdiv rc_w sr, rc_h = (rc_h dsr0 * rc_h dr) sdiv rc_h sr\<rparr> of
            None \<Rightarrow> Some dst
          | Some ddr \<Rightarrow>
              let x0 = ((rc_x ddr - rc_x dr) * rc_w sr) sdiv rc_w dr + rc_x sr; y0 = ((rc_y ddr - rc_y dr) * rc_h sr) sdiv rc_h dr + rc_y sr;
                  convx = map (\<lambda>i. ((int i * rc_w sr) sdiv rc_w dr + x0) * sf_bpp src) [0..<nat (rc_w ddr)] in
              if rc_w ddr > MAX_W then Some dst
              else
                (case sf_buffer src of
                   None \<Rightarrow> None
                 | Some sbuf \<Rightarrow>
                     on_buffer (while_dec (rc_h ddr) (\<lambda>(y, pdline). (y + 1, pdline + sf_pitch dst))
                       (\<lambda>(y, pdline).
                          let psline = ((y * rc_h sr) sdiv rc_h dr + y0) * sf_pitch src in
                          while_dec (rc_w ddr) (\<lambda>(x, pd). (x + 1, pd + sf_bpp dst))
                            (\<lambda>(x, pd) dbuf. rd convx x \<bind> (\<lambda>off. blit_pixel False (sf_format src) (sf_format dst) para sbuf (psline + off) pd dbuf))
                            (0, pdline))
                       (0, sf_addr dst (rc_x ddr) (rc_y ddr))) dst)))"

definition sw_blit :: "AM_OSD_Surface \<Rightarrow> AM_OSD_Rect \<Rightarrow> AM_OSD_Surface \<Rightarrow> AM_OSD_Rect \<Rightarrow> AM_OSD_BlitPara \<Rightarrow> AM_OSD_Surface option" where
  "sw_blit src sr dst dr para =
     (if rc_w sr = rc_w dr \<and> rc_h sr = rc_h dr then sw_normal_blit src sr dst dr para else sw_stretch_blit src sr dst dr para)"

end
