(* ===== verification/Osd_Paint.thy ===== *)
theory Osd_Paint
  imports Osd_Sw
begin

text \<open>
  A small calculus for drawing. The pixels of a surface are cells with an address each; \<open>paints\<close> says of an operation on the buffer that it is defined and
  which cells it changes, and how. Sequences and loops of operations on different cells paint the union.
\<close>

unbundle bit_operations_syntax

named_theorems osd_geom \<open>definitions of rectangles and cells\<close>

subsection \<open>Memory\<close>

lemma put_bytes_length: "put_bytes buf p bs = Some buf' \<Longrightarrow> length buf' = length buf"
  by (auto simp: put_bytes_def split: if_splits)

lemma put_bytes_defined: "0 \<le> p \<Longrightarrow> p + int (length bs) \<le> int (length buf) \<Longrightarrow> \<exists>buf'. put_bytes buf p bs = Some buf'"
  by (simp add: put_bytes_def)

lemma put_bytes_nth:
  assumes "put_bytes buf p bs = Some buf'" "k < length buf"
  shows "buf' ! k = (if nat p \<le> k \<and> k < nat p + length bs then bs ! (k - nat p) else buf ! k)"
  using assms by (auto simp: put_bytes_def nth_append min_def split: if_splits)

lemma get_bytes_nth:
  assumes "get_bytes buf q n = Some bs"
  shows "length bs = nat n" "k < nat n \<Longrightarrow> bs ! k = buf ! (nat q + k)"
  using assms by (auto simp: get_bytes_def split: if_splits)

lemma get_put_same:
  assumes "put_bytes buf p bs = Some buf'"
  shows "get_bytes buf' p (int (length bs)) = Some bs"
  using assms by (auto simp: put_bytes_def get_bytes_def split: if_splits)

lemma get_put_other:
  assumes "put_bytes buf p bs = Some buf'" "q + n \<le> p \<or> p + int (length bs) \<le> q" "0 \<le> n"
  shows "get_bytes buf' q n = get_bytes buf q n"
proof (cases "0 \<le> q \<and> q + n \<le> int (length buf)")
  case True
  have "take (nat n) (drop (nat q) buf') = take (nat n) (drop (nat q) buf)"
  proof (rule nth_equalityI)
    show "length (take (nat n) (drop (nat q) buf')) = length (take (nat n) (drop (nat q) buf))" using put_bytes_length [OF assms(1)] by simp
    fix k assume "k < length (take (nat n) (drop (nat q) buf'))"
    then have k: "k < nat n" "nat q + k < length buf" using put_bytes_length [OF assms(1)] by auto
    have p: "0 \<le> p" using assms(1) by (simp add: put_bytes_def split: if_splits)
    have "\<not> (nat p \<le> nat q + k \<and> nat q + k < nat p + length bs)" using assms(2,3) k True p by linarith
    then show "take (nat n) (drop (nat q) buf') ! k = take (nat n) (drop (nat q) buf) ! k"
      using k put_bytes_nth [OF assms(1) k(2)] put_bytes_length [OF assms(1)] by auto
  qed
  then show ?thesis using put_bytes_length [OF assms(1)] by (simp add: get_bytes_def)
qed (use put_bytes_length [OF assms(1)] in \<open>auto simp: get_bytes_def\<close>)

lemma put_bytes_append:
  "put_bytes buf p (as @ bs) = put_bytes buf p as \<bind> (\<lambda>b. put_bytes b (p + int (length as)) bs)"
proof (cases "0 \<le> p \<and> p + int (length as) \<le> int (length buf)")
  case True
  then show ?thesis by (auto simp: put_bytes_def nat_add_distrib drop_append min_def algebra_simps)
qed (auto simp: put_bytes_def)

lemma get_bytes_split:
  assumes "0 \<le> m" "0 \<le> n"
  shows "get_bytes buf p (m + n) = do { xs \<leftarrow> get_bytes buf p m; ys \<leftarrow> get_bytes buf (p + m) n; Some (xs @ ys) }"
proof (cases "0 \<le> p \<and> p + (m + n) \<le> int (length buf)")
  case True
  then show ?thesis using assms by (simp add: get_bytes_def nat_add_distrib take_add add.commute)
qed (use assms in \<open>auto simp: get_bytes_def\<close>)

subsection \<open>Pixels\<close>

lemma pixel_bytes_length [simp]: "length (pixel_bytes n pix) = n"
  by (simp add: pixel_bytes_def)

lemma bytes_pixel_bytes:
  assumes "n \<le> 4"
  shows "bytes_pixel (pixel_bytes n pix) = take_bit (8 * n) pix"
proof -
  have step: "bytes_pixel (map (\<lambda>k. ucast (drop_bit (8 * k) w)) [0..<n]) = take_bit (8 * n) w" for n and w :: "32 word"
  proof (induction n arbitrary: w)
    case (Suc n)
    have "map (\<lambda>k. ucast (drop_bit (8 * k) w) :: byte) [0..<Suc n] = ucast w # map (\<lambda>k. ucast (drop_bit (8 * k) (drop_bit 8 w))) [0..<n]"
      by (simp add: upt_conv_Cons map_Suc_upt [symmetric] del: upt_Suc) (simp add: ac_simps)
    then have "bytes_pixel (map (\<lambda>k. ucast (drop_bit (8 * k) w)) [0..<Suc n]) = ucast (ucast w :: byte) OR push_bit 8 (take_bit (8 * n) (drop_bit 8 w))"
      by (simp only: bytes_pixel.simps Suc.IH)
    also have "\<dots> = take_bit (8 * Suc n) w"
      by (rule bit_eqI) (auto simp: bit_simps)
    finally show ?case .
  qed simp
  show ?thesis by (simp add: pixel_bytes_def step)
qed

subsection \<open>Cells\<close>

text \<open>A surface that can be drawn on: its buffer has all its lines, and the clipping rectangle is inside.\<close>

definition surface_ok :: "AM_OSD_Surface \<Rightarrow> bool" where
  "surface_ok s \<longleftrightarrow> sf_bpp s \<in> {1, 2, 3, 4} \<and> 0 \<le> sf_width s \<and> 0 \<le> sf_height s \<and> sf_width s * sf_bpp s \<le> sf_pitch s
     \<and> (\<exists>buf. sf_buffer s = Some buf \<and> sf_pitch s * sf_height s \<le> int (length buf))
     \<and> 0 \<le> rc_x (sf_clip s) \<and> 0 \<le> rc_y (sf_clip s)
     \<and> rc_x (sf_clip s) + rc_w (sf_clip s) \<le> sf_width s \<and> rc_y (sf_clip s) + rc_h (sf_clip s) \<le> sf_height s"

definition sf_cells :: "AM_OSD_Surface \<Rightarrow> (int \<times> int) set" where
  "sf_cells s = {0..<sf_width s} \<times> {0..<sf_height s}"

definition rect_cells :: "AM_OSD_Rect \<Rightarrow> (int \<times> int) set" where
  "rect_cells r = {rc_x r..<rc_x r + rc_w r} \<times> {rc_y r..<rc_y r + rc_h r}"

definition grid :: "AM_OSD_Surface \<Rightarrow> byte list \<Rightarrow> int \<times> int \<Rightarrow> 32 word" where
  "grid s buf c = the (get_pixel (sf_bpp s) buf (sf_addr s (fst c) (snd c)))"

text \<open>The pixel of a surface.\<close>

definition sf_at :: "AM_OSD_Surface \<Rightarrow> int \<times> int \<Rightarrow> 32 word" where
  "sf_at s c = grid s (the (sf_buffer s)) c"

lemma cell_address:
  assumes "surface_ok s" "c \<in> sf_cells s"
  shows "0 \<le> sf_addr s (fst c) (snd c)" "sf_addr s (fst c) (snd c) + sf_bpp s \<le> sf_pitch s * sf_height s"
proof -
  have b: "1 \<le> sf_bpp s" "sf_width s * sf_bpp s \<le> sf_pitch s" and x: "0 \<le> fst c" "fst c + 1 \<le> sf_width s" and y: "0 \<le> snd c" "snd c + 1 \<le> sf_height s"
    using assms by (auto simp: surface_ok_def sf_cells_def)
  have row: "fst c * sf_bpp s + sf_bpp s \<le> sf_pitch s"
    using mult_right_mono [OF x(2), of "sf_bpp s"] b by (simp add: algebra_simps)
  have "0 \<le> fst c * sf_bpp s" using x(1) b(1) by simp
  with row b(1) have p: "0 \<le> sf_pitch s" by linarith
  show "0 \<le> sf_addr s (fst c) (snd c)" using x(1) y(1) p b(1) by (simp add: sf_addr_def)
  show "sf_addr s (fst c) (snd c) + sf_bpp s \<le> sf_pitch s * sf_height s"
    using mult_left_mono [OF y(2) p] row by (simp add: sf_addr_def algebra_simps)
qed

lemma cells_apart:
  assumes "surface_ok s" "c \<in> sf_cells s" "c' \<in> sf_cells s" "c \<noteq> c'"
  shows "sf_addr s (fst c) (snd c) + sf_bpp s \<le> sf_addr s (fst c') (snd c') \<or> sf_addr s (fst c') (snd c') + sf_bpp s \<le> sf_addr s (fst c) (snd c)"
proof -
  have less: "sf_addr s (fst c) (snd c) + sf_bpp s \<le> sf_addr s (fst c') (snd c')"
    if "c \<in> sf_cells s" "c' \<in> sf_cells s" "snd c < snd c' \<or> snd c = snd c' \<and> fst c < fst c'" for c c' :: "int \<times> int"
  proof -
    have b: "1 \<le> sf_bpp s" "sf_width s * sf_bpp s \<le> sf_pitch s" and x: "fst c + 1 \<le> sf_width s" "0 \<le> fst c" "0 \<le> fst c'"
      using assms(1) that by (auto simp: surface_ok_def sf_cells_def)
    have row: "fst c * sf_bpp s + sf_bpp s \<le> sf_pitch s" "0 \<le> fst c * sf_bpp s" "0 \<le> fst c' * sf_bpp s"
      using mult_right_mono [OF x(1), of "sf_bpp s"] b x by (simp_all add: algebra_simps)
    show ?thesis
    proof (cases "snd c < snd c'")
      case True
      have "sf_pitch s * (snd c + 1) \<le> sf_pitch s * snd c'" using True row b(1) by (intro mult_left_mono) auto
      then show ?thesis using row by (simp add: sf_addr_def algebra_simps)
    next
      case False
      then have "(fst c + 1) * sf_bpp s \<le> fst c' * sf_bpp s" using that(3) b(1) by (intro mult_right_mono) auto
      then show ?thesis using False that(3) by (simp add: sf_addr_def algebra_simps)
    qed
  qed
  have "snd c < snd c' \<or> snd c = snd c' \<and> fst c < fst c' \<or> snd c' < snd c \<or> snd c = snd c' \<and> fst c' < fst c"
    using assms(4) by (auto simp: prod_eq_iff)
  then show ?thesis using less assms(2,3) by (metis (no_types))
qed

subsection \<open>Painting\<close>

text \<open>The operation \<open>f\<close> on buffers of length \<open>n\<close> is defined, and changes the pixels of the cells in \<open>A\<close> by \<open>F\<close> and no other.\<close>

definition paints :: "AM_OSD_Surface \<Rightarrow> nat \<Rightarrow> (int \<times> int \<Rightarrow> 32 word \<Rightarrow> 32 word) \<Rightarrow> (int \<times> int) set \<Rightarrow> (byte list \<Rightarrow> byte list option) \<Rightarrow> bool" where
  "paints s n F A f \<longleftrightarrow> (\<forall>buf. length buf = n \<longrightarrow> (\<exists>buf'. f buf = Some buf' \<and> length buf' = n
     \<and> (\<forall>c \<in> sf_cells s. grid s buf' c = (if c \<in> A then F c (grid s buf c) else grid s buf c))))"

lemma paints_nothing: "paints s n F {} Some"
  by (simp add: paints_def)

lemma paints_cong: "paints s n F A f \<Longrightarrow> A = B \<Longrightarrow> (\<And>buf. length buf = n \<Longrightarrow> f buf = g buf) \<Longrightarrow> paints s n F B g"
  by (simp add: paints_def)

lemma paints_bind:
  assumes "paints s n F A f" "paints s n F B g" "A \<inter> B = {}"
  shows "paints s n F (A \<union> B) (\<lambda>buf. f buf \<bind> g)"
  unfolding paints_def
proof (intro allI impI)
  fix buf :: "byte list" assume "length buf = n"
  then obtain b1 where b1: "f buf = Some b1" "length b1 = n" "\<And>c. c \<in> sf_cells s \<Longrightarrow> grid s b1 c = (if c \<in> A then F c (grid s buf c) else grid s buf c)"
    using assms(1) unfolding paints_def by blast
  then obtain b2 where b2: "g b1 = Some b2" "length b2 = n" "\<And>c. c \<in> sf_cells s \<Longrightarrow> grid s b2 c = (if c \<in> B then F c (grid s b1 c) else grid s b1 c)"
    using assms(2) unfolding paints_def by blast
  have "grid s b2 c = (if c \<in> A \<union> B then F c (grid s buf c) else grid s buf c)" if "c \<in> sf_cells s" for c
    using b1(3) [OF that] b2(3) [OF that] assms(3) by auto
  with b1 b2 show "\<exists>buf'. f buf \<bind> g = Some buf' \<and> length buf' = n \<and> (\<forall>c \<in> sf_cells s. grid s buf' c = (if c \<in> A \<union> B then F c (grid s buf c) else grid s buf c))"
    by auto
qed

lemma paints_count_down:
  assumes "\<And>k. k < n \<Longrightarrow> paints s l F (A k) (body ((nxt ^^ k) p))" "\<And>j k. j < k \<Longrightarrow> k < n \<Longrightarrow> A j \<inter> A k = {}"
  shows "paints s l F (\<Union>k < n. A k) (count_down n nxt body p)"
  using assms
proof (induction n arbitrary: p A)
  case 0
  then show ?case by (simp add: paints_def)
next
  case (Suc n)
  have rest: "paints s l F (\<Union>k < n. A (Suc k)) (count_down n nxt body (nxt p))"
    using Suc.prems(1) [of "Suc _"] Suc.prems(2) [of "Suc _" "Suc _"] by (intro Suc.IH) (simp_all add: funpow_swap1)
  have "A 0 \<inter> (\<Union>k < n. A (Suc k)) = {}" using Suc.prems(2) [of 0 "Suc _"] by auto
  from paints_bind [OF Suc.prems(1) [of 0] rest this]
  have p: "paints s l F (A 0 \<union> (\<Union>k < n. A (Suc k))) (\<lambda>b. body p b \<bind> count_down n nxt body (nxt p))" by simp
  have "A 0 \<union> (\<Union>k < n. A (Suc k)) = (\<Union>k < Suc n. A k)" unfolding lessThan_Suc_eq_insert_0 by auto
  with p show ?case by (auto elim!: paints_cong)
qed

lemma paints_while:
  assumes "0 \<le> n" "\<And>k. k < nat n \<Longrightarrow> paints s l F (A k) (body ((nxt ^^ k) p))" "\<And>j k. j < k \<Longrightarrow> k < nat n \<Longrightarrow> A j \<inter> A k = {}"
  shows "paints s l F (\<Union>k < nat n. A k) (while_dec n nxt body p)"
  using paints_count_down [of "nat n" s l F A body nxt p] assms by (auto simp: while_dec_def elim!: paints_cong)

lemma funpow_add: "((\<lambda>p. p + (d :: int)) ^^ k) p = p + int k * d"
  by (induction k) (simp_all add: algebra_simps)

subsection \<open>Drawing operations\<close>

lemma paints_pixel:
  assumes "surface_ok s" "c \<in> sf_cells s" "sf_pitch s * sf_height s \<le> int n" "c = (x, y)"
  shows "paints s n (\<lambda>_ _. take_bit (8 * nat (sf_bpp s)) pix) {c} (put_pixel (sf_bpp s) pix (sf_addr s x y))"
  unfolding paints_def
proof (intro allI impI)
  fix buf :: "byte list" assume n: "length buf = n"
  let ?a = "\<lambda>c. sf_addr s (fst c) (snd c)"
  have b: "sf_bpp s \<in> {1, 2, 3, 4}" using assms(1) by (simp add: surface_ok_def)
  have len: "int (length (pixel_bytes (nat (sf_bpp s)) pix)) = sf_bpp s" using b by auto
  obtain buf' where buf': "put_bytes buf (?a c) (pixel_bytes (nat (sf_bpp s)) pix) = Some buf'"
    using put_bytes_defined [of "?a c" "pixel_bytes (nat (sf_bpp s)) pix" buf] cell_address [OF assms(1,2)] assms(3) n len by auto
  have same: "get_bytes buf' (?a c) (sf_bpp s) = Some (pixel_bytes (nat (sf_bpp s)) pix)" using get_put_same [OF buf'] len by simp
  have other: "get_bytes buf' (?a c') (sf_bpp s) = get_bytes buf (?a c') (sf_bpp s)" if "c' \<in> sf_cells s" "c' \<noteq> c" for c'
    using get_put_other [OF buf', of "?a c'" "sf_bpp s"] cells_apart [OF assms(1) that(1) assms(2) that(2)] len b by auto
  have g: "grid s buf' c' = (if c' \<in> {c} then take_bit (8 * nat (sf_bpp s)) pix else grid s buf c')" if "c' \<in> sf_cells s" for c'
    using same other [OF that] b by (auto simp: grid_def get_pixel_def bytes_pixel_bytes)
  show "\<exists>buf'. put_pixel (sf_bpp s) pix (sf_addr s x y) buf = Some buf' \<and> length buf' = n
      \<and> (\<forall>c' \<in> sf_cells s. grid s buf' c' = (if c' \<in> {c} then take_bit (8 * nat (sf_bpp s)) pix else grid s buf c'))"
    using buf' g b n assms(4) put_bytes_length [OF buf'] by (auto simp: put_pixel_def)
qed

text \<open>\<^verbatim>\<open>memset\<close> writes pixel by pixel.\<close>

lemma memset_is_loop:
  assumes "0 \<le> n" "0 \<le> ptr" "ptr + n \<le> int (length buf)"
  shows "mem_set n pix ptr buf = while_dec n (\<lambda>ptr. ptr + 1) (put_pixel 1 pix) ptr buf"
proof -
  have "put_bytes buf ptr (replicate k (ucast pix)) = count_down k (\<lambda>ptr. ptr + 1) (put_pixel 1 pix) ptr buf"
    if "0 \<le> ptr" "ptr + int k \<le> int (length buf)" for k
    using that
  proof (induction k arbitrary: ptr buf)
    case (Suc k)
    have one: "put_pixel 1 pix ptr buf = put_bytes buf ptr [ucast pix]" for buf by (simp add: put_pixel_def pixel_bytes_def)
    have "put_bytes buf ptr (replicate (Suc k) (ucast pix)) = put_bytes buf ptr [ucast pix] \<bind> (\<lambda>b. put_bytes b (ptr + 1) (replicate k (ucast pix)))"
      using put_bytes_append [of buf ptr "[ucast pix]" "replicate k (ucast pix)"] by simp
    also have "\<dots> = put_pixel 1 pix ptr buf \<bind> count_down k (\<lambda>ptr. ptr + 1) (put_pixel 1 pix) (ptr + 1)"
      unfolding one using Suc.prems
      by (intro Option.bind_cong refl Suc.IH) (auto dest: put_bytes_length)
    finally show ?case by simp
  qed (simp add: put_bytes_def)
  from this [of "nat n"] show ?thesis using assms by (simp add: mem_set_def while_dec_def)
qed

definition row_cells :: "int \<Rightarrow> int \<Rightarrow> int \<Rightarrow> (int \<times> int) set" where
  "row_cells x y w = {x..<x + w} \<times> {y}"

lemma row_cells_UN: "0 \<le> w \<Longrightarrow> (\<Union>k < nat w. {(x + int k, y)}) = row_cells x y w"
proof -
  assume w: "0 \<le> w"
  have "(a, y) \<in> (\<Union>k < nat w. {(x + int k, y)})" if "x \<le> a" "a < x + w" for a
    using that by (intro UN_I [of "nat (a - x)"]) auto
  then show ?thesis using w by (auto simp: row_cells_def)
qed

lemma paints_row_loop:
  assumes "0 \<le> w"
    and "\<And>k. k < nat w \<Longrightarrow> paints s n F {(x + int k, y)} (body ((nxt ^^ k) p))"
  shows "paints s n F (row_cells x y w) (while_dec w nxt body p)"
  using paints_while [OF assms(1), of s n F "\<lambda>k. {(x + int k, y)}" body nxt p] assms(2) by (simp add: row_cells_UN [OF assms(1)])

lemma paints_rect_loop:
  assumes "0 \<le> h"
    and "\<And>k. k < nat h \<Longrightarrow> paints s n F (row_cells x (y + int k) w) (body ((nxt ^^ k) p))"
  shows "paints s n F ({x..<x + w} \<times> {y..<y + h}) (while_dec h nxt body p)"
proof -
  have "(\<Union>k < nat h. row_cells x (y + int k) w) = {x..<x + w} \<times> {y..<y + h}"
  proof -
    have "\<exists>k < nat h. b = y + int k" if "y \<le> b" "b < y + h" for b using that by (intro exI [of _ "nat (b - y)"]) auto
    then show ?thesis using assms(1) by (fastforce simp: row_cells_def)
  qed
  moreover have "row_cells x (y + int j) w \<inter> row_cells x (y + int k) w = {}" if "j < k" for j k using that by (auto simp: row_cells_def)
  ultimately show ?thesis using paints_while [OF assms(1), of s n F "\<lambda>k. row_cells x (y + int k) w" body nxt p] assms(2) by simp
qed

lemma paints_column_loop:
  assumes "0 \<le> h"
    and "\<And>k. k < nat h \<Longrightarrow> paints s n F {(x, y + int k)} (body ((nxt ^^ k) p))"
  shows "paints s n F ({x} \<times> {y..<y + h}) (while_dec h nxt body p)"
proof -
  have "row_cells x b 1 = {(x, b)}" for b by (auto simp: row_cells_def)
  then have "paints s n F ({x..<x + 1} \<times> {y..<y + h}) (while_dec h nxt body p)" using assms by (intro paints_rect_loop) simp_all
  moreover have "{x..<x + 1} = {x}" by auto
  ultimately show ?thesis by simp
qed

lemma addr_step: "sf_addr s x y + k * sf_bpp s = sf_addr s (x + k) y" "sf_addr s x y + k * sf_pitch s = sf_addr s x (y + k)"
  by (simp_all add: sf_addr_def algebra_simps)

lemma paints_row:
  assumes ok: "surface_ok s" and n: "sf_pitch s * sf_height s \<le> int n"
    and row: "0 \<le> x" "x + w \<le> sf_width s" "0 \<le> y" "y < sf_height s" "0 \<le> w"
  shows "paints s n (\<lambda>_ _. take_bit (8 * nat (sf_bpp s)) pix) (row_cells x y w) (sw_row (sf_bpp s) pix w (sf_addr s x y))"
proof -
  have cell: "(x + int k, y) \<in> sf_cells s" if "k < nat w" for k using row that by (auto simp: sf_cells_def)
  have loop: "paints s n (\<lambda>_ _. take_bit (8 * nat (sf_bpp s)) pix) (row_cells x y w)
      (while_dec w (\<lambda>ptr. ptr + sf_bpp s) (put_pixel (sf_bpp s) pix) (sf_addr s x y))"
    using paints_pixel [OF ok cell n] by (intro paints_row_loop [OF row(5)]) (simp add: funpow_add addr_step)
  have b: "sf_bpp s \<in> {1, 2, 3, 4}" "sf_width s * sf_bpp s \<le> sf_pitch s" using ok by (simp_all add: surface_ok_def)
  show ?thesis
  proof (cases "sf_bpp s = 1")
    case True
    have p: "x + w \<le> sf_pitch s" using True b(2) row(2) by simp
    have "sf_pitch s * (y + 1) \<le> sf_pitch s * sf_height s" using p row by (intro mult_left_mono) auto
    moreover have "0 \<le> sf_pitch s * y" using p row by simp
    ultimately have "0 \<le> sf_addr s x y" "sf_addr s x y + w \<le> int n" using True p row n by (simp_all add: sf_addr_def algebra_simps)
    then have "mem_set w pix (sf_addr s x y) buf = while_dec w (\<lambda>ptr. ptr + sf_bpp s) (put_pixel (sf_bpp s) pix) (sf_addr s x y) buf" if "length buf = n" for buf
      using memset_is_loop [OF row(5), of "sf_addr s x y" buf pix] True that by simp
    with loop show ?thesis using True by (auto simp: sw_row_def elim!: paints_cong)
  next
    case False
    with loop show ?thesis using b(1) by (auto simp: sw_row_def elim!: paints_cong)
  qed
qed

text \<open>From the buffer to the surface.\<close>

definition same_frame :: "AM_OSD_Surface \<Rightarrow> AM_OSD_Surface \<Rightarrow> bool" where
  "same_frame s s' \<longleftrightarrow> (\<exists>buf buf'. sf_buffer s = Some buf \<and> s' = s\<lparr>sf_buffer := Some buf'\<rparr> \<and> length buf' = length buf)"

lemma grid_frame [simp]: "grid (s\<lparr>sf_buffer := b\<rparr>) = grid s"
  by (intro ext) (simp add: grid_def sf_addr_def)

lemma surface_buffer:
  assumes "surface_ok s"
  obtains buf where "sf_buffer s = Some buf" "sf_pitch s * sf_height s \<le> int (length buf)"
  using assms by (auto simp: surface_ok_def)

lemma painted_surface:
  assumes "surface_ok s" "\<And>n. sf_pitch s * sf_height s \<le> int n \<Longrightarrow> paints s n F A f"
  shows "\<exists>s'. on_buffer f s = Some s' \<and> same_frame s s' \<and> (\<forall>c \<in> sf_cells s. sf_at s' c = (if c \<in> A then F c (sf_at s c) else sf_at s c))"
proof -
  obtain buf where buf: "sf_buffer s = Some buf" "sf_pitch s * sf_height s \<le> int (length buf)" by (rule surface_buffer [OF assms(1)])
  obtain buf' where "f buf = Some buf'" "length buf' = length buf" "\<forall>c \<in> sf_cells s. grid s buf' c = (if c \<in> A then F c (grid s buf c) else grid s buf c)"
    using assms(2) [OF buf(2)] unfolding paints_def by blast
  then show ?thesis using buf(1) by (auto simp: on_buffer_def same_frame_def sf_at_def)
qed

lemma same_frame_ok: "same_frame s s' \<Longrightarrow> surface_ok s \<Longrightarrow> surface_ok s' \<and> sf_cells s' = sf_cells s \<and> sf_clip s' = sf_clip s"
  by (auto simp: same_frame_def surface_ok_def sf_cells_def)

lemma unchanged_frame: "surface_ok s \<Longrightarrow> same_frame s s"
proof -
  assume "surface_ok s"
  then obtain buf where b: "sf_buffer s = Some buf" by (auto simp: surface_ok_def)
  have "s = s\<lparr>sf_buffer := Some buf\<rparr>" using b by (cases s) simp
  with b show ?thesis unfolding same_frame_def by blast
qed

lemma clip_rect:
  "AM_OSD_ClipRect c r = Some d \<Longrightarrow> rect_cells d = rect_cells c \<inter> rect_cells r \<and> 0 < rc_w d \<and> 0 < rc_h d"
  "AM_OSD_ClipRect c r = None \<Longrightarrow> rect_cells c \<inter> rect_cells r = {}"
  by (auto simp: AM_OSD_ClipRect_def rect_cells_def Let_def split: if_splits)

lemma clip_inside:
  assumes "surface_ok s" "AM_OSD_ClipRect (sf_clip s) r = Some d"
  shows "0 \<le> rc_x d" "0 \<le> rc_y d" "rc_x d + rc_w d \<le> sf_width s" "rc_y d + rc_h d \<le> sf_height s" "0 < rc_w d" "0 < rc_h d"
  using assms by (auto simp: AM_OSD_ClipRect_def surface_ok_def Let_def split: if_splits)

text \<open>What \<open>s'\<close> shows: \<open>s\<close> with the cells of \<open>A\<close> painted by \<open>F\<close>.\<close>

definition painted :: "(int \<times> int \<Rightarrow> 32 word \<Rightarrow> 32 word) \<Rightarrow> (int \<times> int) set \<Rightarrow> AM_OSD_Surface \<Rightarrow> AM_OSD_Surface \<Rightarrow> bool" where
  "painted F A s s' \<longleftrightarrow> same_frame s s' \<and> (\<forall>c \<in> sf_cells s. sf_at s' c = (if c \<in> A then F c (sf_at s c) else sf_at s c))"

lemma painted_nothing: "surface_ok s \<Longrightarrow> A \<inter> sf_cells s = {} \<Longrightarrow> painted F A s s"
  using unchanged_frame by (auto simp: painted_def)

abbreviation plain :: "AM_OSD_Surface \<Rightarrow> 32 word \<Rightarrow> int \<times> int \<Rightarrow> 32 word \<Rightarrow> 32 word" where
  "plain s pix \<equiv> \<lambda>_ _. take_bit (8 * nat (sf_bpp s)) pix"

lemma sw_filled_rect_paints:
  assumes ok: "surface_ok s"
  shows "\<exists>s'. sw_filled_rect s r pix = Some s' \<and> painted (plain s pix) (rect_cells (sf_clip s) \<inter> rect_cells r) s s'"
proof (cases "AM_OSD_ClipRect (sf_clip s) r")
  case None
  then show ?thesis using painted_nothing [OF ok] clip_rect(2) [OF None] by (auto simp: sw_filled_rect_def)
next
  case (Some d)
  note d = clip_inside [OF ok Some] and cells = clip_rect(1) [OF Some]
  let ?f = "while_dec (rc_h d) (\<lambda>pline. pline + sf_pitch s) (sw_row (sf_bpp s) pix (rc_w d)) (sf_addr s (rc_x d) (rc_y d))"
  have "paints s n (plain s pix) (rect_cells d) ?f" if "sf_pitch s * sf_height s \<le> int n" for n
    unfolding rect_cells_def
    using d by (intro paints_rect_loop) (auto simp: funpow_add addr_step intro!: paints_row [OF ok that])
  from painted_surface [OF ok this] show ?thesis
    using Some ok cells by (auto simp: sw_filled_rect_def painted_def surface_ok_def)
qed

lemma clip_hline:
  assumes "AM_OSD_ClipHLine c x y w = Some (x', w')"
  shows "row_cells x' y w' = row_cells x y w \<inter> rect_cells c" "rc_x c \<le> x'" "x' + w' \<le> rc_x c + rc_w c" "rc_y c \<le> y" "y < rc_y c + rc_h c"
  using assms by (auto simp: AM_OSD_ClipHLine_def row_cells_def rect_cells_def Let_def split: if_splits)

lemma clip_vline:
  assumes "AM_OSD_ClipVLine c x y h = Some (y', h')"
  shows "{x} \<times> {y'..<y' + h'} = ({x} \<times> {y..<y + h}) \<inter> rect_cells c" "rc_y c \<le> y'" "y' + h' \<le> rc_y c + rc_h c" "rc_x c \<le> x" "x < rc_x c + rc_w c"
  using assms by (auto simp: AM_OSD_ClipVLine_def rect_cells_def Let_def split: if_splits)

text \<open>A line is drawn if it is above, below or reaches the clipping rectangle; if it is to the left or to the right of it the loop is undefined.\<close>

lemma sw_hline_paints:
  assumes ok: "surface_ok s"
  shows "if rc_y (sf_clip s) \<le> y \<and> y < rc_y (sf_clip s) + rc_h (sf_clip s) \<and> min (x + w) (rc_x (sf_clip s) + rc_w (sf_clip s)) < max x (rc_x (sf_clip s))
    then sw_hline s x y w pix = None
    else \<exists>s'. sw_hline s x y w pix = Some s' \<and> painted (plain s pix) (row_cells x y w \<inter> rect_cells (sf_clip s)) s s'"
proof (cases "AM_OSD_ClipHLine (sf_clip s) x y w")
  case None
  then have "y < rc_y (sf_clip s) \<or> y \<ge> rc_y (sf_clip s) + rc_h (sf_clip s)" by (auto simp: AM_OSD_ClipHLine_def Let_def split: if_splits)
  then have "row_cells x y w \<inter> rect_cells (sf_clip s) = {}" by (auto simp: row_cells_def rect_cells_def)
  then show ?thesis using painted_nothing [OF ok] None \<open>y < _ \<or> _\<close> by (auto simp: sw_hline_def)
next
  case (Some xw)
  obtain x' w' where xw: "xw = (x', w')" by (rule prod.exhaust)
  note c = clip_hline [OF Some [unfolded xw]]
  have b: "sf_bpp s \<in> {1, 2, 3, 4}" and inside: "0 \<le> x'" "x' + w' \<le> sf_width s" "0 \<le> y" "y < sf_height s" using ok c by (auto simp: surface_ok_def)
  have w': "w' = min (x + w) (rc_x (sf_clip s) + rc_w (sf_clip s)) - max x (rc_x (sf_clip s))"
    using Some xw by (auto simp: AM_OSD_ClipHLine_def Let_def split: if_splits)
  show ?thesis
  proof (cases "w' < 0")
    case True
    have "sw_row (sf_bpp s) pix w' p buf = None" for p buf using b True by (auto simp: sw_row_def mem_set_def while_dec_def)
    then show ?thesis using Some xw True w' c ok by (auto simp: sw_hline_def on_buffer_def surface_ok_def)
  next
    case False
    then have "paints s n (plain s pix) (row_cells x' y w') (sw_row (sf_bpp s) pix w' (sf_addr s x' y))" if "sf_pitch s * sf_height s \<le> int n" for n
      using inside by (intro paints_row [OF ok that]) auto
    from painted_surface [OF ok this] show ?thesis using False w' Some xw c(1) by (auto simp: sw_hline_def painted_def)
  qed
qed

lemma sw_vline_paints:
  assumes ok: "surface_ok s"
  shows "if rc_x (sf_clip s) \<le> x \<and> x < rc_x (sf_clip s) + rc_w (sf_clip s) \<and> min (y + h) (rc_y (sf_clip s) + rc_h (sf_clip s)) < max y (rc_y (sf_clip s))
    then sw_vline s x y h pix = None
    else \<exists>s'. sw_vline s x y h pix = Some s' \<and> painted (plain s pix) (({x} \<times> {y..<y + h}) \<inter> rect_cells (sf_clip s)) s s'"
proof (cases "AM_OSD_ClipVLine (sf_clip s) x y h")
  case None
  then have "x < rc_x (sf_clip s) \<or> x \<ge> rc_x (sf_clip s) + rc_w (sf_clip s)" by (auto simp: AM_OSD_ClipVLine_def Let_def split: if_splits)
  then have "({x} \<times> {y..<y + h}) \<inter> rect_cells (sf_clip s) = {}" by (auto simp: rect_cells_def)
  then show ?thesis using painted_nothing [OF ok] None \<open>x < _ \<or> _\<close> by (auto simp: sw_vline_def)
next
  case (Some yh)
  obtain y' h' where yh: "yh = (y', h')" by (rule prod.exhaust)
  note c = clip_vline [OF Some [unfolded yh]]
  have b: "sf_bpp s \<in> {1, 2, 3, 4}" and inside: "0 \<le> y'" "y' + h' \<le> sf_height s" "0 \<le> x" "x < sf_width s" using ok c by (auto simp: surface_ok_def)
  have h': "h' = min (y + h) (rc_y (sf_clip s) + rc_h (sf_clip s)) - max y (rc_y (sf_clip s))"
    using Some yh by (auto simp: AM_OSD_ClipVLine_def Let_def split: if_splits)
  show ?thesis
  proof (cases "h' < 0")
    case True
    then show ?thesis using Some yh h' c ok b by (auto simp: sw_vline_def on_buffer_def while_dec_def surface_ok_def)
  next
    case False
    have cell: "(x, y' + int k) \<in> sf_cells s" if "k < nat h'" for k using that inside by (auto simp: sf_cells_def)
    have "paints s n (plain s pix) ({x} \<times> {y'..<y' + h'}) (while_dec h' (\<lambda>ptr. ptr + sf_pitch s) (put_pixel (sf_bpp s) pix) (sf_addr s x y'))"
      if "sf_pitch s * sf_height s \<le> int n" for n
      using False paints_pixel [OF ok cell that] by (intro paints_column_loop) (auto simp: funpow_add addr_step)
    from painted_surface [OF ok this] show ?thesis using False h' Some yh c(1) b by (auto simp: sw_vline_def painted_def)
  qed
qed

end
