(* ===== verification/Osd_Blit.thy ===== *)
theory Osd_Blit
  imports Osd_Paint
begin

text \<open>
  What copying between surfaces does to every pixel, with and without scaling, and when it stays inside of the buffers.
\<close>

unbundle bit_operations_syntax

subsection \<open>Pixels and formats\<close>

text \<open>The number of bytes of a pixel that belongs to a type, and a palette that has all its colours.\<close>

definition type_bytes :: "AM_OSD_PixelFormatType \<Rightarrow> int" where
  "type_bytes t =
     (if t \<in> {AM_OSD_FMT_COLOR_ARGB_8888, AM_OSD_FMT_COLOR_BGRA_8888, AM_OSD_FMT_COLOR_RGBA_8888, AM_OSD_FMT_COLOR_ABGR_8888} then 4
      else if t \<in> {AM_OSD_FMT_COLOR_RGB_888, AM_OSD_FMT_COLOR_BGR_888} then 3
      else if t \<in> {AM_OSD_FMT_PALETTE_256, AM_OSD_FMT_YUV_420, AM_OSD_FMT_YUV_422, AM_OSD_FMT_YUV_444} then 1 else 2)"

definition format_ok :: "AM_OSD_PixelFormat \<Rightarrow> bool" where
  "format_ok f \<longleftrightarrow> bytes_per_pixel f = type_bytes (pf_type f)
     \<and> (AM_OSD_PIXEL_FORMAT_TYPE_IS_PALETTE (pf_type f) \<longrightarrow> 0 \<le> color_count f \<and> color_count f < 2 ^ 31 \<and> color_count f \<le> int (length (pf_colors f)))"

lemma type_bytes_cases: "type_bytes t \<in> {1, 2, 3, 4}"
  by (simp add: type_bytes_def)

lemma palette_bytes: "format_ok f \<Longrightarrow> AM_OSD_PIXEL_FORMAT_TYPE_IS_PALETTE (pf_type f) \<Longrightarrow> bytes_per_pixel f = 1"
  by (simp add: format_ok_def AM_OSD_PIXEL_FORMAT_TYPE_IS_PALETTE_def type_bytes_def)

lemma palette_defined:
  assumes "format_ok f" "AM_OSD_PIXEL_FORMAT_TYPE_IS_PALETTE (pf_type f)"
  shows "palette_color f pix \<noteq> None"
proof -
  have "unat (word_of_int (color_count f) :: 32 word) \<le> length (pf_colors f)"
    using assms by (auto simp: format_ok_def unat_eq_nat_uint uint_word_of_int_eq take_bit_int_eq_self)
  then have "unat pix < length (pf_colors f)" if "pix < word_of_int (color_count f)" using that by (simp add: word_less_nat_alt)
  then show ?thesis by (auto simp: palette_color_def)
qed

lemma bit_bytes_pixel:
  "bit (bytes_pixel bs) n \<longleftrightarrow> n < 32 \<and> n div 8 < length bs \<and> bit (bs ! (n div 8)) (n mod 8)"
proof (induction bs arbitrary: n)
  case (Cons b bs)
  show ?case
  proof (cases "n < 8")
    case False
    then have "n div 8 = Suc ((n - 8) div 8)" "n mod 8 = (n - 8) mod 8" by (simp_all add: le_div_geq le_mod_geq)
    moreover have "\<not> bit b n" using False bit_imp_le_length [of b n] by auto
    ultimately show ?thesis using False Cons.IH [of "n - 8"] by (auto simp: bit_simps)
  qed (auto simp: bit_simps)
qed simp

lemma pixel_bytes_pixel:
  assumes "length bs \<in> {1, 2, 3, 4}"
  shows "pixel_bytes (length bs) (bytes_pixel bs) = bs" "take_bit (8 * length bs) (bytes_pixel bs) = bytes_pixel bs"
proof -
  show inv: "pixel_bytes (length bs) (bytes_pixel bs) = bs"
  proof (rule nth_equalityI)
    fix k assume "k < length (pixel_bytes (length bs) (bytes_pixel bs))"
    then have k: "k < length bs" "k < 4" using assms by auto
    have "(8 * k + n) div 8 = k \<and> (8 * k + n) mod 8 = n" if "n < 8" for n using that by simp
    then have "ucast (drop_bit (8 * k) (bytes_pixel bs)) = bs ! k"
      using k by (intro bit_eqI) (auto simp: bit_simps bit_bytes_pixel)
    then show "pixel_bytes (length bs) (bytes_pixel bs) ! k = bs ! k" using k by (simp add: pixel_bytes_def)
  qed simp
  have "bytes_pixel (pixel_bytes (length bs) (bytes_pixel bs)) = take_bit (8 * length bs) (bytes_pixel bs)"
    using assms by (intro bytes_pixel_bytes) auto
  then show "take_bit (8 * length bs) (bytes_pixel bs) = bytes_pixel bs" by (simp add: inv)
qed

subsection \<open>One pixel\<close>

text \<open>The colour of a pixel, and the pixel that is stored where \<open>p\<close> is copied onto \<open>d\<close>.\<close>

definition pixel_color :: "AM_OSD_PixelFormat \<Rightarrow> 32 word \<Rightarrow> AM_OSD_Color" where
  "pixel_color f p = (if AM_OSD_PIXEL_FORMAT_TYPE_IS_PALETTE (pf_type f) then the (palette_color f p) else AM_RGB_PIXEL_TO_COLOR f p)"

definition blit_mix :: "AM_OSD_PixelFormat \<Rightarrow> AM_OSD_PixelFormat \<Rightarrow> AM_OSD_BlitPara \<Rightarrow> 32 word \<Rightarrow> 32 word \<Rightarrow> 32 word" where
  "blit_mix sf df para p d =
     (let col = pixel_color sf p in
      if enable_key para \<and> p = bp_key para then d
      else if AM_OSD_PIXEL_FORMAT_TYPE_IS_PALETTE (pf_type df) then take_bit 8 p
      else if enable_alpha para \<and> co_a col = 0 then d
      else take_bit (8 * nat (bytes_per_pixel df))
             (AM_COLOR_TO_RGB_PIXEL df (if enable_alpha para \<and> co_a col \<noteq> 0xFF then blend_color col (AM_RGB_PIXEL_TO_COLOR df d) else col)))"

lemma get_cell:
  assumes "surface_ok s" "c \<in> sf_cells s" "sf_pitch s * sf_height s \<le> int (length buf)"
  shows "get_pixel (sf_bpp s) buf (sf_addr s (fst c) (snd c)) = Some (grid s buf c)"
proof -
  have b: "sf_bpp s \<in> {1, 2, 3, 4}" using assms(1) by (simp add: surface_ok_def)
  then have "get_bytes buf (sf_addr s (fst c) (snd c)) (sf_bpp s) \<noteq> None"
    using cell_address [OF assms(1,2)] assms(3) by (auto simp: get_bytes_def)
  then show ?thesis using b by (auto simp: grid_def get_pixel_def)
qed

lemma fetch_cell:
  assumes "surface_ok s" "format_ok (sf_format s)" "c \<in> sf_cells s" "sf_pitch s * sf_height s \<le> int (length buf)"
  shows "blit_fetch (sf_format s) para buf (sf_addr s (fst c) (snd c)) =
    Some (if enable_key para \<and> grid s buf c = bp_key para then None else Some (grid s buf c, pixel_color (sf_format s) (grid s buf c)))"
proof -
  note g = get_cell [OF assms(1,3,4)]
  have b: "sf_bpp s \<in> {1, 2, 3, 4}" using assms(1) by (simp add: surface_ok_def)
  show ?thesis
  proof (cases "AM_OSD_PIXEL_FORMAT_TYPE_IS_PALETTE (pf_type (sf_format s))")
    case True
    from palette_defined [OF assms(2) True, of "grid s buf c"] show ?thesis
      using g True palette_bytes [OF assms(2) True] by (auto simp: blit_fetch_def pixel_color_def)
  next
    case False
    then show ?thesis using g b by (auto simp: blit_fetch_def pixel_color_def)
  qed
qed

lemma paints_old:
  assumes "\<And>d. paints s n (\<lambda>_ _. G d) {c} (f d)" "\<And>buf. length buf = n \<Longrightarrow> h buf = f (grid s buf c) buf" "c \<in> sf_cells s"
  shows "paints s n (\<lambda>_. G) {c} h"
  unfolding paints_def
proof (intro allI impI)
  fix buf :: "byte list" assume n: "length buf = n"
  from assms(1) [of "grid s buf c"] n obtain buf' where "f (grid s buf c) buf = Some buf'" "length buf' = n"
      "\<forall>c' \<in> sf_cells s. grid s buf' c' = (if c' \<in> {c} then G (grid s buf c) else grid s buf c')"
    unfolding paints_def by blast
  then show "\<exists>buf'. h buf = Some buf' \<and> length buf' = n \<and> (\<forall>c' \<in> sf_cells s. grid s buf' c' = (if c' \<in> {c} then G (grid s buf c') else grid s buf c'))"
    using assms(2) [OF n] by auto
qed

lemma paints_keep: "paints s n (\<lambda>_ d. d) A Some"
  by (simp add: paints_def)

lemma paints_blit_pixel:
  assumes src: "surface_ok src" "format_ok (sf_format src)" "c' \<in> sf_cells src" "sf_pitch src * sf_height src \<le> int (length sbuf)"
    and dst: "surface_ok dst" "format_ok (sf_format dst)" "c \<in> sf_cells dst" "sf_pitch dst * sf_height dst \<le> int n"
    and one: "one \<or> type_bytes (pf_type (sf_format dst)) \<noteq> 1 \<or> AM_OSD_PIXEL_FORMAT_TYPE_IS_PALETTE (pf_type (sf_format dst))"
  shows "paints dst n (\<lambda>_. blit_mix (sf_format src) (sf_format dst) para (grid src sbuf c')) {c}
    (blit_pixel one (sf_format src) (sf_format dst) para sbuf (sf_addr src (fst c') (snd c')) (sf_addr dst (fst c) (snd c)))"
proof -
  let ?p = "grid src sbuf c'" and ?df = "sf_format dst" and ?a = "sf_addr dst (fst c) (snd c)"
  let ?col = "pixel_color (sf_format src) ?p"
  have b: "sf_bpp dst \<in> {1, 2, 3, 4}" using dst(1) by (simp add: surface_ok_def)
  have put: "paints dst n (\<lambda>_ _. take_bit (8 * nat (sf_bpp dst)) w) {c} (put_pixel (sf_bpp dst) w ?a)" for w
    using paints_pixel [OF dst(1,3,4), of "fst c" "snd c" w] by simp
  have fetch: "blit_pixel one (sf_format src) ?df para sbuf (sf_addr src (fst c') (snd c')) ?a =
      (if enable_key para \<and> ?p = bp_key para then Some else blit_store one ?df para (?p, ?col) ?a)"
    by (intro ext) (simp add: blit_pixel_def fetch_cell [OF src])
  let ?mix = "blit_mix (sf_format src) ?df para ?p"
  show ?thesis
  proof (cases "enable_key para \<and> ?p = bp_key para")
    case True
    then have "?mix = (\<lambda>d. d)" by (intro ext) (simp add: blit_mix_def Let_def)
    then show ?thesis using paints_keep True unfolding fetch by simp
  next
    case no_key: False
    note store = fetch [unfolded if_not_P [OF no_key]]
    show ?thesis
    proof (cases "AM_OSD_PIXEL_FORMAT_TYPE_IS_PALETTE (pf_type ?df)")
      case True
      have "?mix = (\<lambda>d. take_bit 8 ?p)" using no_key True by (intro ext) (auto simp: blit_mix_def Let_def)
      then show ?thesis
        using put [of ?p] no_key palette_bytes [OF dst(2) True] True unfolding store by (simp add: blit_store_def)
    next
      case False
      consider (clear) "enable_alpha para" "co_a ?col = 0" | (mix) "enable_alpha para" "co_a ?col \<noteq> 0" "co_a ?col \<noteq> 0xFF"
        | (solid) "\<not> enable_alpha para \<or> co_a ?col = 0xFF" by blast
      then show ?thesis
      proof cases
        case clear
        then have "?mix = (\<lambda>d. d)" using no_key False by (intro ext) (auto simp: blit_mix_def Let_def)
        then show ?thesis using paints_keep no_key False clear unfolding store by (simp add: blit_store_def)
      next
        case mix
        let ?w = "\<lambda>d. AM_COLOR_TO_RGB_PIXEL ?df (blend_color ?col (AM_RGB_PIXEL_TO_COLOR ?df d))"
        have "blit_store one ?df para (?p, ?col) ?a buf = put_pixel (sf_bpp dst) (?w (grid dst buf c)) ?a buf" if "length buf = n" for buf
          using get_cell [OF dst(1,3), of buf] that dst(2,4) mix False one by (auto simp: blit_store_def format_ok_def)
        note p = paints_old [OF put this dst(3)]
        have "?mix = (\<lambda>d. take_bit (8 * nat (sf_bpp dst)) (?w d))" using mix no_key False by (intro ext) (auto simp: blit_mix_def Let_def)
        then show ?thesis using p no_key unfolding store by simp
      next
        case solid
        then have s: "\<not> (enable_alpha para \<and> co_a ?col = 0)" "\<not> (enable_alpha para \<and> co_a ?col \<noteq> 0xFF)" by auto
        have "?mix = (\<lambda>d. take_bit (8 * nat (sf_bpp dst)) (AM_COLOR_TO_RGB_PIXEL ?df ?col))" using s no_key False by (intro ext) (auto simp: blit_mix_def Let_def)
        moreover have "blit_store one ?df para (?p, ?col) ?a = put_pixel (sf_bpp dst) (AM_COLOR_TO_RGB_PIXEL ?df ?col) ?a"
          using s False by (intro ext) (auto simp: blit_store_def)
        ultimately show ?thesis using put no_key unfolding store by simp
      qed
    qed
  qed
qed

end
