(* ===== verification/Spec2Isabelle.thy ===== *)
theory Spec2Isabelle
  imports Am_Evt Am_Mem Am_Time Am_Pes Dvr_Recorder Dsc_Facts Ubootenv_Facts Userdata_Thread Smc_Facts Ad_Facts Fend_Facts Diseqc_Facts Fend_Session Osd_Blit
begin

text \<open>
  \<^bold>\<open>The DVB adaptor layer and the boot environment of the Amlogic vendor tree.\<close>

  The repository is the vendor part of an Android image for set-top boxes. Its own core logic in C is
  the adaptor layer \<^verbatim>\<open>dvb/am_adp\<close>, a library between the middleware and the kernel: tables of devices
  with open counts, filters and channels that are handed out by index, drivers behind tables of
  function pointers, parsers of transport stream data, and worker threads that call back into the
  client; and the system control service, whose \<^verbatim>\<open>ubootenv.c\<close> keeps the boot variables in flash.
  This development models the parts listed below and proves what makes them correct, together with
  the places where the code does not do what it is meant to do.

  \<^bold>\<open>Conventions.\<close> \<open>Adp_Prelude\<close> has the vocabulary. An \<^verbatim>\<open>AM_ErrorCode_t\<close> is an \<open>int\<close>. Undefined behaviour of C
  (a null or dangling pointer, an index outside an array, a negative size) is the value \<open>None\<close> of an
  option type, so that a theorem that a call is not \<open>None\<close> is a memory safety theorem. A pointer to
  an element of a fixed array is an index. A handler that holds its lock is one step; what other threads
  do happens between the steps of the step relations. Code outside the repository (kernel, libc, zlib,
  the secure library) is an argument of the definitions: a record of functions on a state \<open>'k\<close> or \<open>'e\<close> of the
  outside world, unconstrained unless a theorem names what it relies on.

  \<^bold>\<open>Theories and sources\<close> (paths under \<^verbatim>\<open>src/dvb/am_adp\<close> unless said otherwise).

  \<^item> \<open>Am_Evt\<close>: \<^verbatim>\<open>am_evt/am_evt.c\<close>. A hash table of subscriptions as a list of 50 buckets;
    \<^verbatim>\<open>AM_EVT_Subscribe\<close>, \<^verbatim>\<open>AM_EVT_Unsubscribe\<close>, \<^verbatim>\<open>AM_EVT_Signal\<close>, \<^verbatim>\<open>AM_EVT_Init\<close>, \<^verbatim>\<open>AM_EVT_Destory\<close>. The table
    refines an abstract registry; a signal calls each matching subscriber once.
  \<^item> \<open>Am_Mem\<close>: \<^verbatim>\<open>am_mem/am_mem_pool.c\<close> over an explicit heap of blocks. Allocation stays inside its
    block, releasing a pool releases exactly its chain of blocks, and the pool never links the blocks
    it allocates (a leak in the code).
  \<^item> \<open>Am_Time\<close>: \<^verbatim>\<open>am_time/am_time.c\<close>. The millisecond clock with its wrap-around and absolute deadlines.
  \<^item> \<open>Am_Pes\<close>: \<^verbatim>\<open>am_pes/am_pes.c\<close>. The incremental parser of packetised elementary streams; the loop is a total
    function, every turn of which advances by six bytes. However well-formed packets are cut into
    chunks, each is delivered once and in order.
  \<^item> \<open>Am_Dmx\<close>, \<open>Dmx_Facts\<close>: \<^verbatim>\<open>am_dmx/am_dmx.c\<close>, the demux layer. Two devices with 32 filters each;
    all the interface functions, one turn of the data thread, and the loop that reads the scramble status.
    \<open>dmx_reach\<close> are the states of all runs, with arbitrary drivers; the table invariant holds in all of them.
  \<^item> \<open>Dmx_Driver\<close>: the contract between the demux layer and a driver, as the locale \<open>dmx_driver\<close> (which
    calls are defined, what they keep of the driver's invariant) and its extension
    \<open>reliable_dmx_driver\<close> (disabling and freeing succeed), with what follows for the layer.
  \<^item> \<open>Dmx_Kernel\<close>, \<open>Linux_Dvb_Dmx\<close>: \<^verbatim>\<open>am_dmx/linux_dvb/linux_dvb.c\<close>, the kernel driver, and its interpretation of the contract.
  \<^item> \<open>Dvr_Dmx\<close>, \<open>Dvr_Section\<close>, \<open>Dvr_Dmx_Facts\<close>: \<^verbatim>\<open>am_dmx/dvr/dvr.c\<close>, the software demux: channels with reference
    counts, mask/mode filters, reassembly of sections, the parser of the recorded transport stream.
    Reading leaves the buffer of the device alone, and callbacks, for which the code releases its lock,
    are recorded as a list of calls. \<open>Dvr_Section\<close> shows what the parsers compute and when they are memory
    safe, \<open>Dvr_Dmx_Facts\<close> the invariant of the channel table and the interpretation of the contract.
  \<^item> \<open>Dmx_System\<close>: the layer with both drivers over one kernel. Calls are defined in every
    reachable state, reference counts are exact, the last close frees everything, and three ways in which
    the code fails.
  \<^item> \<open>Am_Dvr\<close>, \<open>Dvr_Recorder\<close>: \<^verbatim>\<open>am_dvr/am_dvr.c\<close> and \<^verbatim>\<open>am_dvr/linux_dvb/linux_dvb.c\<close>, the recorder, a client of the demux
    layer through the record \<open>dmx_api\<close>. The locale \<open>demux_filters\<close> is what it relies on, and the demux layer
    interprets it. A recording takes free filters and returns exactly these.
  \<^item> \<open>Am_Kl\<close>, \<open>Am_Dsc\<close>, \<open>Dsc_Facts\<close>: \<^verbatim>\<open>am_kl/am_kl.c\<close>, \<^verbatim>\<open>am_dsc/am_dsc.c\<close> and \<^verbatim>\<open>am_dsc/aml/aml.c\<close>, key ladder and descrambler. The
    state of the descrambler extends that of the key ladder; \<open>dsc_reach\<close> are the runs of both. Which calls use
    valid function pointers, the channel table, the descriptors of channels, keys from the ladder to the library,
    and what the first close breaks.
  \<^item> \<open>Ubootenv\<close>, \<open>Ubootenv_Facts\<close>: \<^verbatim>\<open>src/frameworks/services/systemcontrol/ubootenv.c\<close>. Operations return, are undefined, or wait for
    a lock that they hold themselves. Printing and parsing are inverse, an update survives a restart,
    re-initialising deadlocks.
  \<^item> \<open>Byte_Ring\<close>, \<open>Am_Userdata\<close>, \<open>Userdata_Queue\<close>: \<^verbatim>\<open>am_userdata/am_userdata.c\<close>. A circular array of bytes holds packets with their
    lengths; driver and application share it. \<open>Userdata_Queue\<close> has a queue of packets as the specification and the
    simulation, for every order of writes, reads, waits and time-outs.
  \<^item> \<open>Userdata_Aml\<close>, \<open>Userdata_Order\<close>, \<open>Userdata_Thread\<close>: \<^verbatim>\<open>am_userdata/aml/aml.c\<close>, the thread that extracts closed captions from the
    decoder's data. One turn of its loop is a function of what \<^verbatim>\<open>poll\<close>, \<^verbatim>\<open>read\<close> and \<^verbatim>\<open>ioctl\<close> return; its result has the packets handed to
    \<^verbatim>\<open>write_package\<close>. Captions come out in display order, the thread stays inside its buffers, its packets
    reach the application, and it fails when a read fails or its buffer fills up.
  \<^item> \<open>Am_Smc\<close>, \<open>Smc_Aml\<close>, \<open>Smc_Link\<close>, \<open>Smc_Transfer\<close>, \<open>Smc_Facts\<close>: \<^verbatim>\<open>am_smc/am_smc.c\<close> and \<^verbatim>\<open>am_smc/aml/aml.c\<close>, the smart card. Reading and
    writing with a deadline, commands by T=0, blocks by T=1 and T=14, the status thread. Over a link that delivers, every
    conversation that the T=0 protocol allows ends with exactly the card's data and status bytes; the status thread reports
    exactly the changes; two ways in which the code fails.
  \<^item> \<open>Am_Ad\<close>, \<open>Ad_Facts\<close>: \<^verbatim>\<open>am_ad/am_ad.c\<close>, audio description, a client of the demux layer and the PES parser. It takes one filter and returns
    it, the payloads of the stream reach the application, and a destroyed object may still be called.
  \<^item> \<open>Am_Fend\<close>, \<open>Fend_Thread\<close>, \<open>Fend_Facts\<close>: \<^verbatim>\<open>am_fend/am_fend.c\<close>, the front end: devices, forwarding functions, the event thread and
    \<^verbatim>\<open>AM_FEND_Lock\<close>, which waits for the thread. \<open>fend_step\<close> interleaves them. One lock reports the last status of its parameters; two
    locks leave a dangling callback; a device opened with \<^verbatim>\<open>FE_AUTO\<close> waits for ever.
  \<^item> \<open>Fend_Blind\<close>, \<open>Fend_Blind_Facts\<close>: the blind scan of \<^verbatim>\<open>am_fend/am_fend.c\<close>, one turn of its thread as a function. Every event is reported once and
    every transponder kept, up to the \<open>128\<close> of the array.
  \<^item> \<open>Fend_Dvb\<close>: \<^verbatim>\<open>am_fend/linux_dvb/linux_dvb.c\<close>, the kernel driver of the front end.
  \<^item> \<open>Fend_Session\<close>: all calls, threads and scans of the front end together. The descriptors of the kernel belong to the open devices in every run.
  \<^item> \<open>Fend_Diseqc\<close>, \<open>Diseqc_Facts\<close>: \<^verbatim>\<open>am_fend/am_fend_diseqc_cmd.c\<close>, the messages to switches, motors and distribution units. Which bytes reach
    the kernel, and what they mean.
  \<^item> \<open>Osd_Sw\<close>, \<open>Osd_Paint\<close>, \<open>Osd_Blit\<close>: \<^verbatim>\<open>am_osd/clip.c\<close> and \<^verbatim>\<open>am_osd/sw_op.c\<close>, drawing in software. A surface owns a list of bytes; the relation
    \<open>paints\<close> says which pixels an operation on it changes and how, and that it stays inside.

  \<^bold>\<open>Interfaces.\<close> \<open>slot_table\<close> (tables of slots with a used flag; interpreted by demux filters and descrambler
  channels), \<open>dmx_driver\<close> and \<open>reliable_dmx_driver\<close> (interpreted by both drivers), \<open>demux_filters\<close> (interpreted by the demux
  layer over any kernel that never refuses to stop a filter), \<open>byte_ring\<close> (a bounded sequence of bytes; interpreted by the
  ring buffers of the user data and the smart card modules), \<open>smc_link\<close> (a driver over which the bytes of a card arrive in time;
  kept by the kernel driver over any kernel that delivers), \<open>demux_session\<close> (a demux that gives and takes back one filter; interpreted by the
  demux layer), \<open>fend_descriptors\<close> (a front end driver that opens and closes descriptors only when asked to; kept by the kernel driver
  over any kernel with sound descriptors).

  \<^bold>\<open>Bounds and termination.\<close> There is no fuel. Loops over arrays are recursion over lists; the parsers are functions
  with a termination proof, and the section loop, which in the code may run outside its buffer, and the loops of the smart card,
  which wait for the driver, are partial functions that are shown to return. Retry loops count down their attempts. Numeric bounds (32 filters, 8 channels,
  4096 bytes of section buffer, 128 transponders, 188 bytes of packet, 64 KB of environment) are those of the code. 16, 32 and 8 bit
  fields are words where the code relies on their width.

  \<^bold>\<open>Not modelled.\<close> Debug output; the emulated drivers (\<^verbatim>\<open>emu\<close>), which replace the kernel by files; the trigonometry of dish
  motors (\<^verbatim>\<open>am_rotor_calc.c\<close>), which is floating point; audio/video, OSD, input, network and output modules of the adaptor layer, which mostly forward to
  device files; \<^verbatim>\<open>am_open_lib\<close>, \<^verbatim>\<open>memwatch.c\<close> and everything under \<^verbatim>\<open>external\<close>, which is third-party code; the players under
  \<^verbatim>\<open>frameworks/av\<close>; and the code in other languages.
\<close>

end
